(* ===== verification/Prelude.thy ===== *)
theory Prelude imports Complex_Main "HOL-Library.Sublist" begin

text \<open>
  The vocabulary the components share: exceptions and results, the JavaScript string
  functions the services call, and the PostgREST table operations (select, single,
  maybeSingle, update, delete and insert under a unique index) that every service runs
  against the Supabase schema of \<open>supabase/migrations\<close>.
\<close>

section \<open>Collections\<close>

named_theorems table_simps \<open>what a table operation does to the rows\<close>
named_theorems row_simps \<open>unfolding of the small row predicates and row updates\<close>

section \<open>Exceptions and results\<close>

text \<open>
  A service method returns or throws. \<open>HttpExn\<close> is a Nest \<open>HttpException\<close> with its HTTP
  status and the \<open>code\<close> of its body (the human-readable message is not modelled);
  \<open>JsError\<close> is a plain \<open>throw new Error(...)\<close>, which Nest turns into a 500.
\<close>

datatype exn = HttpExn (http_status: nat) (exn_code: string) | JsError string

type_synonym 'a result = "exn + 'a"

abbreviation bad_request :: "string \<Rightarrow> exn" where "bad_request \<equiv> HttpExn 400"
abbreviation unauthorized :: "string \<Rightarrow> exn" where "unauthorized \<equiv> HttpExn 401"
abbreviation payment_required :: "string \<Rightarrow> exn" where "payment_required \<equiv> HttpExn 402"
abbreviation forbidden :: "string \<Rightarrow> exn" where "forbidden \<equiv> HttpExn 403"
abbreviation not_found :: "string \<Rightarrow> exn" where "not_found \<equiv> HttpExn 404"
abbreviation conflict :: "string \<Rightarrow> exn" where "conflict \<equiv> HttpExn 409"
abbreviation too_many_requests :: "string \<Rightarrow> exn" where "too_many_requests \<equiv> HttpExn 429"
abbreviation internal_error :: "string \<Rightarrow> exn" where "internal_error \<equiv> HttpExn 500"
abbreviation unavailable :: "string \<Rightarrow> exn" where "unavailable \<equiv> HttpExn 503"

text \<open>Sequencing of fallible calls: the first exception is the result.\<close>

definition andThen :: "'e + 'a \<Rightarrow> ('a \<Rightarrow> 'e + 'b) \<Rightarrow> 'e + 'b" where
  "andThen r k = (case r of Inl e \<Rightarrow> Inl e | Inr x \<Rightarrow> k x)"

lemma andThen_simps [simp]: "andThen (Inl e) k = Inl e" "andThen (Inr x) k = k x"
  by (simp_all add: andThen_def)

lemma andThen_Inr_iff: "andThen r k = Inr y \<longleftrightarrow> (\<exists>x. r = Inr x \<and> k x = Inr y)"
  by (cases r) auto

lemma andThen_cong [fundef_cong]:
  "r = r' \<Longrightarrow> (\<And>x. r' = Inr x \<Longrightarrow> k x = k' x) \<Longrightarrow> andThen r k = andThen r' k'"
  by (cases r') auto

text \<open>A guard: throw unless the condition holds.\<close>

definition ensure :: "bool \<Rightarrow> 'e \<Rightarrow> 'e + unit" where
  "ensure b e = (if b then Inr () else Inl e)"

lemma ensure_simps [simp]: "ensure True e = Inr ()" "ensure False e = Inl e"
  by (simp_all add: ensure_def)

lemma ensure_Inr_iff [simp]: "ensure b e = Inr u \<longleftrightarrow> b"
  by (simp add: ensure_def)

section \<open>JavaScript strings\<close>

text \<open>
  Strings are lists of characters; the services only inspect ASCII text (error messages,
  hexadecimal hashes, Stellar addresses, comma-separated settings).
\<close>

definition lower_char :: "char \<Rightarrow> char" where
  "lower_char c = (let n = of_char c :: nat in if 65 \<le> n \<and> n \<le> 90 then char_of (n + 32) else c)"

definition to_lower :: "string \<Rightarrow> string" where
  "to_lower s = map lower_char s"

definition upper_char :: "char \<Rightarrow> char" where
  "upper_char c = (let n = of_char c :: nat in if 97 \<le> n \<and> n \<le> 122 then char_of (n - 32) else c)"

definition to_upper :: "string \<Rightarrow> string" where
  "to_upper s = map upper_char s"

text \<open>\<open>s.includes(t)\<close> and \<open>s.startsWith(t)\<close>.\<close>

definition str_includes :: "string \<Rightarrow> string \<Rightarrow> bool" where
  "str_includes s t = sublist t s"

definition starts_with :: "string \<Rightarrow> string \<Rightarrow> bool" where
  "starts_with s t = prefix t s"

definition is_space :: "char \<Rightarrow> bool" where
  "is_space c = (let n = of_char c :: nat in n = 32 \<or> (9 \<le> n \<and> n \<le> 13))"

definition trim :: "string \<Rightarrow> string" where
  "trim s = rev (dropWhile is_space (rev (dropWhile is_space s)))"

text \<open>\<open>s.split(c)\<close> for a one-character separator: never empty, \<open>''''\<close> gives one empty piece.\<close>

fun split_on :: "char \<Rightarrow> string \<Rightarrow> string list" where
  "split_on c [] = [[]]"
| "split_on c (x # xs) =
     (if x = c then [] # split_on c xs
      else case split_on c xs of [] \<Rightarrow> [[x]] | w # ws \<Rightarrow> (x # w) # ws)"

lemma split_on_nonempty [simp]: "split_on c s \<noteq> []"
  by (induction s) (auto split: list.splits)

lemma split_on_plain: "c \<notin> set s \<Longrightarrow> split_on c s = [s]"
  by (induction s) auto

lemma split_on_append: "split_on c (xs @ c # ys) = split_on c xs @ split_on c ys"
  by (induction xs) (auto split: list.splits)

text \<open>The text after the last separator.\<close>

lemma last_piece: "c \<notin> set ys \<Longrightarrow> last (split_on c (xs @ c # ys)) = ys"
  by (simp add: split_on_append split_on_plain)

lemma lower_char_idem [simp]: "lower_char (lower_char c) = lower_char c"
proof -
  have "of_char (char_of (n + 32) :: char) = n + 32" if "n \<le> 90" for n :: nat
    using that by simp
  then show ?thesis by (auto simp: lower_char_def Let_def)
qed

lemma to_lower_idem [simp]: "to_lower (to_lower s) = to_lower s"
  by (simp add: to_lower_def)

text \<open>An absent or empty string is falsy.\<close>

definition present :: "string option \<Rightarrow> string option" where
  "present s = (case s of Some (c # cs) \<Rightarrow> Some (c # cs) | _ \<Rightarrow> None)"

lemma present_Some: "present x = Some y \<longleftrightarrow> x = Some y \<and> y \<noteq> []"
  by (auto simp: present_def split: option.splits list.splits)

text \<open>\<open>String(n)\<close> of a natural number.\<close>

fun decimal :: "nat \<Rightarrow> string" where
  "decimal n = (if n < 10 then [char_of (48 + n)] else decimal (n div 10) @ [char_of (48 + n mod 10)])"

declare decimal.simps [simp del]

lemma decimal_nonempty [simp]: "decimal n \<noteq> []"
  by (subst decimal.simps) simp

section \<open>Tables\<close>

text \<open>
  The error object PostgREST returns beside \<open>data\<close>. A table is the list of its rows; a
  call either fails as a whole, leaving the rows alone, or acts on all the rows its filters
  select.
\<close>

record db_error =
  err_code :: string
  err_message :: string

definition pgrst116 :: db_error where
  "pgrst116 = \<lparr>err_code = ''PGRST116'',
     err_message = ''JSON object requested, multiple (or no) rows returned''\<rparr>"

definition unique_violation :: db_error where
  "unique_violation = \<lparr>err_code = ''23505'',
     err_message = ''duplicate key value violates unique constraint''\<rparr>"

definition not_null_violation :: db_error where
  "not_null_violation = \<lparr>err_code = ''23502'',
     err_message = ''null value in column violates not-null constraint''\<rparr>"

text \<open>\<open>.single()\<close> wants exactly one row, \<open>.maybeSingle()\<close> at most one.\<close>

definition single :: "'r list \<Rightarrow> db_error + 'r" where
  "single rs = (case rs of [r] \<Rightarrow> Inr r | _ \<Rightarrow> Inl pgrst116)"

definition maybe_single :: "'r list \<Rightarrow> db_error + 'r option" where
  "maybe_single rs = (case rs of [] \<Rightarrow> Inr None | [r] \<Rightarrow> Inr (Some r) | _ \<Rightarrow> Inl pgrst116)"

definition update_where :: "('r \<Rightarrow> bool) \<Rightarrow> ('r \<Rightarrow> 'r) \<Rightarrow> 'r list \<Rightarrow> 'r list" where
  "update_where P f t = map (\<lambda>r. if P r then f r else r) t"

definition delete_where :: "('r \<Rightarrow> bool) \<Rightarrow> 'r list \<Rightarrow> 'r list" where
  "delete_where P t = filter (\<lambda>r. \<not> P r) t"

text \<open>Insert under a unique index, \<open>clash\<close> telling which pairs of rows violate it.\<close>

definition insert_unique :: "('r \<Rightarrow> 'r \<Rightarrow> bool) \<Rightarrow> 'r \<Rightarrow> 'r list \<Rightarrow> db_error + 'r list" where
  "insert_unique clash r t = (if \<exists>x \<in> set t. clash r x then Inl unique_violation else Inr (t @ [r]))"

text \<open>A call that may fail on its own account (\<open>Some e\<close>): a fault answers in its place.\<close>

definition with_fault :: "db_error option \<Rightarrow> db_error + 'a \<Rightarrow> db_error + 'a" where
  "with_fault f r = (case f of Some e \<Rightarrow> Inl e | None \<Rightarrow> r)"

lemma with_fault_simps [simp]: "with_fault (Some e) r = Inl e" "with_fault None r = r"
  by (simp_all add: with_fault_def)

lemma with_fault_Inr [simp]: "with_fault f r = Inr x \<longleftrightarrow> f = None \<and> r = Inr x"
  by (cases f) auto

lemma single_Inr [table_simps]: "single rs = Inr r \<longleftrightarrow> rs = [r]"
  by (auto simp: single_def split: list.splits)

lemma maybe_single_Some [table_simps]: "maybe_single rs = Inr (Some r) \<longleftrightarrow> rs = [r]"
  by (auto simp: maybe_single_def split: list.splits)

lemma maybe_single_None [table_simps]: "maybe_single rs = Inr None \<longleftrightarrow> rs = []"
  by (auto simp: maybe_single_def split: list.splits)

lemma insert_unique_Inr [table_simps]:
  "insert_unique clash r t = Inr t' \<longleftrightarrow> (\<forall>x \<in> set t. \<not> clash r x) \<and> t' = t @ [r]"
  by (auto simp: insert_unique_def)

lemma update_where_length [simp]: "length (update_where P f t) = length t"
  by (simp add: update_where_def)

lemma update_where_id: "\<forall>r \<in> set t. \<not> P r \<Longrightarrow> update_where P f t = t"
  by (induction t) (auto simp: update_where_def)

lemma filter_update_where:
  "(\<And>r. P r \<Longrightarrow> Q (f r) = Q r) \<Longrightarrow>
   filter Q (update_where P f t) = update_where P f (filter Q t)"
  by (induction t) (auto simp: update_where_def)

lemma filter_update_where_frame:
  "(\<And>r. P r \<Longrightarrow> \<not> Q r \<and> \<not> Q (f r)) \<Longrightarrow> filter Q (update_where P f t) = filter Q t"
  by (induction t) (auto simp: update_where_def)

lemma map_update_where_frame:
  "(\<And>r. P r \<Longrightarrow> g (f r) = g r) \<Longrightarrow> map g (update_where P f t) = map g t"
  by (induction t) (auto simp: update_where_def)

lemma set_update_where: "set (update_where P f t) = (\<lambda>r. if P r then f r else r) ` set t"
  by (simp add: update_where_def)

lemma set_delete_where [simp]: "set (delete_where P t) = {r \<in> set t. \<not> P r}"
  by (auto simp: delete_where_def)

lemma filter_single_unique:
  assumes "distinct (map key t)" and "r \<in> set t" and "key r = k"
  shows "filter (\<lambda>x. key x = k) t = [r]"
  using assms by (induction t) (auto simp: filter_empty_conv image_iff)

lemma filter_subset_single:
  assumes "filter P t = [r]" and "Q r" and "\<And>x. Q x \<Longrightarrow> P x"
  shows "filter Q t = [r]"
proof -
  have "filter Q t = filter Q (filter P t)" using assms(3) by (auto intro: filter_cong)
  with assms(1,2) show ?thesis by simp
qed

end
