(* ===== verification/Binary64.thy ===== *)
theory Binary64 imports Prelude "HOL-Library.Log_Nat" begin

text \<open>
  JavaScript numbers. A finite number is the rational it denotes, and every arithmetic
  operation of the source rounds its exact result to the nearest IEEE-754 binary64 value,
  ties to even (\<open>fl\<close>), so that a model computes the very value the code computes. The
  exponent is unbounded: overflow to infinity, subnormals, NaN and the sign of zero are
  outside the model; the amounts the API handles are between 1e-7 and 1e13.
\<close>

section \<open>Rounding to binary64\<close>

definition pow2 :: "int \<Rightarrow> rat" where
  "pow2 k = (if 0 \<le> k then of_int (2 ^ nat k) else 1 / of_int (2 ^ nat (- k)))"

definition round_half_even :: "rat \<Rightarrow> int" where
  "round_half_even r =
     (let f = \<lfloor>r\<rfloor>; d = r - of_int f
      in if d < 1 / 2 then f else if 1 / 2 < d then f + 1 else if even f then f else f + 1)"

definition fl_exp :: "rat \<Rightarrow> int" where
  "fl_exp x =
     (case quotient_of \<bar>x\<bar> of (p, q) \<Rightarrow>
        let k = bitlen p - bitlen q in if pow2 k \<le> \<bar>x\<bar> then k else k - 1)"

definition fl :: "rat \<Rightarrow> rat" where
  "fl x = (if x = 0 then 0
           else let u = pow2 (fl_exp x - 52) in of_int (round_half_even (x / u)) * u)"

lemma pow2_pos [simp]: "0 < pow2 k"
  by (simp add: pow2_def)

lemma pow2_nonzero [simp]: "pow2 k \<noteq> 0"
  using pow2_pos [of k] by linarith

lemma pow2_nonneg [simp]: "0 \<le> pow2 k"
  using pow2_pos [of k] by linarith

lemma abs_pow2 [simp]: "\<bar>pow2 k\<bar> = pow2 k"
  by simp

lemma pow2_powi: "pow2 k = 2 powi k"
  by (simp add: pow2_def power_int_def field_simps)

lemma pow2_add: "pow2 (a + b) = pow2 a * pow2 b"
  by (simp add: pow2_powi power_int_add)

lemma pow2_nat: "0 \<le> k \<Longrightarrow> pow2 k = of_int (2 ^ nat k)"
  by (simp add: pow2_def)

lemma pow2_mono: "a \<le> b \<Longrightarrow> pow2 a \<le> pow2 b"
  by (simp add: pow2_powi power_int_increasing)

lemma pow2_less_iff: "pow2 a < pow2 b \<longleftrightarrow> a < b"
  by (metis linorder_not_le order_less_irrefl pow2_mono power_int_strict_increasing pow2_powi one_less_numeral_iff semiring_norm(76) order_le_less_trans)

lemma rhe_err: "\<bar>of_int (round_half_even r) - r\<bar> \<le> 1 / 2"
proof -
  define d where "d = r - of_int \<lfloor>r\<rfloor>"
  have "0 \<le> d" "d < 1" "r = of_int \<lfloor>r\<rfloor> + d" unfolding d_def by linarith+
  then show ?thesis
    unfolding round_half_even_def Let_def abs_le_iff d_def [symmetric] by (auto split: if_splits)
qed

lemma rhe_int [simp]: "round_half_even (of_int n) = n"
  by (simp add: round_half_even_def)

lemma rhe_mono: "r \<le> s \<Longrightarrow> round_half_even r \<le> round_half_even s"
proof -
  assume "r \<le> s"
  then have fl: "\<lfloor>r\<rfloor> \<le> \<lfloor>s\<rfloor>" by (rule floor_mono)
  show ?thesis
  proof (cases "\<lfloor>r\<rfloor> = \<lfloor>s\<rfloor>")
    case True
    with \<open>r \<le> s\<close> show ?thesis by (auto simp: round_half_even_def Let_def)
  next
    case False
    with fl have "\<lfloor>r\<rfloor> + 1 \<le> \<lfloor>s\<rfloor>" by simp
    moreover have "round_half_even r \<le> \<lfloor>r\<rfloor> + 1" "\<lfloor>s\<rfloor> \<le> round_half_even s"
      by (auto simp: round_half_even_def Let_def)
    ultimately show ?thesis by simp
  qed
qed

lemma fl_exp_bounds:
  assumes "x \<noteq> 0"
  shows "pow2 (fl_exp x) \<le> \<bar>x\<bar> \<and> \<bar>x\<bar> < pow2 (fl_exp x + 1)"
proof -
  obtain p q where pq: "quotient_of \<bar>x\<bar> = (p, q)" by (cases "quotient_of \<bar>x\<bar>")
  have q: "0 < q" using quotient_of_denom_pos [OF pq] .
  have xv: "\<bar>x\<bar> = of_int p / of_int q" using quotient_of_div [OF pq] .
  have "0 < rat_of_int p / of_int q" using assms xv by (metis zero_less_abs_iff)
  with q have p: "0 < p" by (simp add: zero_less_divide_iff)
  define k where "k = bitlen p - bitlen q"
  have bp: "2 ^ nat (bitlen p - 1) \<le> p" "p < 2 ^ nat (bitlen p)"
    and bq: "2 ^ nat (bitlen q - 1) \<le> q" "q < 2 ^ nat (bitlen q)"
    using bitlen_bounds [OF p] bitlen_bounds [OF q] by auto
  have pos: "1 \<le> bitlen p" "1 \<le> bitlen q" using p q by (auto simp: bitlen_alt_def)
  have rp: "pow2 (bitlen p - 1) \<le> of_int p" "of_int p < pow2 (bitlen p)"
    using bp pos by (auto simp: pow2_nat simp del: of_int_power)
  have rq: "pow2 (bitlen q - 1) \<le> of_int q" "of_int q < pow2 (bitlen q)"
    using bq pos by (auto simp: pow2_nat simp del: of_int_power)
  have low: "pow2 (k - 1) \<le> \<bar>x\<bar>"
  proof -
    have "pow2 (k - 1) * of_int q \<le> pow2 (k - 1) * pow2 (bitlen q)"
      using rq by (intro mult_left_mono) auto
    also have "\<dots> = pow2 (bitlen p - 1)" by (simp add: k_def flip: pow2_add)
    also have "\<dots> \<le> of_int p" by (rule rp)
    finally show ?thesis using q by (simp add: xv field_simps)
  qed
  have high: "\<bar>x\<bar> < pow2 (k + 1)"
  proof -
    have "of_int p < pow2 (bitlen p)" by (rule rp)
    also have "\<dots> = pow2 (k + 1) * pow2 (bitlen q - 1)" by (simp add: k_def flip: pow2_add)
    also have "\<dots> \<le> pow2 (k + 1) * of_int q" using rq by (intro mult_left_mono) (auto simp: less_imp_le)
    finally show ?thesis using q by (simp add: xv field_simps)
  qed
  show ?thesis using low high by (simp add: fl_exp_def pq k_def [symmetric] Let_def)
qed


lemma fl_exp_unique:
  assumes "pow2 e \<le> \<bar>x\<bar>" "\<bar>x\<bar> < pow2 (e + 1)"
  shows "fl_exp x = e"
proof -
  have "x \<noteq> 0" using assms pow2_pos [of e] by linarith
  from fl_exp_bounds [OF this] assms have "pow2 (fl_exp x) < pow2 (e + 1)" "pow2 e < pow2 (fl_exp x + 1)"
    by linarith+
  then show ?thesis by (simp add: pow2_less_iff)
qed

lemma fl_err: "\<bar>fl x - x\<bar> \<le> \<bar>x\<bar> * (1 / 2 ^ 53)"
proof (cases "x = 0")
  case True
  then show ?thesis by (simp add: fl_def)
next
  case False
  define u where "u = pow2 (fl_exp x - 52)"
  have u: "0 < u" by (simp add: u_def)
  have ux: "u * 2 ^ 52 \<le> \<bar>x\<bar>"
  proof -
    have "u * pow2 52 = pow2 (fl_exp x)" by (simp add: u_def flip: pow2_add)
    moreover have "pow2 52 = 2 ^ 52" by (simp add: pow2_def)
    ultimately show ?thesis using fl_exp_bounds [OF False] by simp
  qed
  have "fl x - x = (of_int (round_half_even (x / u)) - x / u) * u"
    using False u by (simp add: fl_def u_def [symmetric] Let_def left_diff_distrib)
  then have "\<bar>fl x - x\<bar> = \<bar>of_int (round_half_even (x / u)) - x / u\<bar> * u"
    using u by (simp add: abs_mult)
  also have "\<dots> \<le> 1 / 2 * u" using rhe_err u by (intro mult_right_mono) auto
  also have "\<dots> \<le> \<bar>x\<bar> * (1 / 2 ^ 53)" using ux by simp
  finally show ?thesis .
qed

lemma rhe_minus: "round_half_even (- r) = - round_half_even r"
proof (cases "r = of_int \<lfloor>r\<rfloor>")
  case True
  then show ?thesis by (metis of_int_minus rhe_int)
next
  case False
  then have "\<lfloor>- r\<rfloor> = - \<lfloor>r\<rfloor> - 1" by linarith
  then show ?thesis by (auto simp: round_half_even_def Let_def)
qed

lemma fl_exp_minus [simp]: "fl_exp (- x) = fl_exp x"
  by (simp add: fl_exp_def)

lemma fl_minus [simp]: "fl (- x) = - fl x"
  by (simp add: fl_def Let_def rhe_minus)

lemma fl_0 [simp]: "fl 0 = 0"
  by (simp add: fl_def)

lemma fl_repr:
  assumes "\<bar>m\<bar> \<le> 2 ^ 53"
  shows "fl (of_int m * pow2 k) = of_int m * pow2 k"
proof (cases "m = 0")
  case False
  define x where "x = of_int m * pow2 k"
  have x0: "x \<noteq> 0" using False by (simp add: x_def)
  define e where "e = fl_exp x"
  have eb: "pow2 e \<le> \<bar>x\<bar>" using fl_exp_bounds [OF x0] by (simp add: e_def)
  have "\<bar>x\<bar> = of_int \<bar>m\<bar> * pow2 k" by (simp add: x_def abs_mult)
  also have "\<dots> \<le> of_int (2 ^ 53) * pow2 k" using assms by (intro mult_right_mono) (simp_all only: of_int_le_iff, simp)
  also have "\<dots> = pow2 (53 + k)" unfolding pow2_add by (simp add: pow2_def)
  finally have xle: "\<bar>x\<bar> \<le> pow2 (53 + k)" .
  have "e \<le> 53 + k" using eb xle by (meson linorder_not_less order_trans pow2_less_iff)
  have "\<exists>n. x = of_int n * pow2 (e - 52)"
  proof (cases "e = 53 + k")
    case True
    then have "\<bar>x\<bar> = pow2 (53 + k)" using eb xle by simp
    then have "x = pow2 (53 + k) \<or> x = - pow2 (53 + k)" by linarith
    moreover have "pow2 (53 + k) = of_int (2 ^ 52) * pow2 (e - 52)"
      using True pow2_add [of 52 "e - 52"] by (simp add: pow2_def [of 52])
    ultimately show ?thesis by (metis mult_minus_left of_int_minus)
  next
    case False
    with \<open>e \<le> 53 + k\<close> have le: "0 \<le> k - (e - 52)" by simp
    have "pow2 k = of_int (2 ^ nat (k - (e - 52))) * pow2 (e - 52)"
      using pow2_add [of "k - (e - 52)" "e - 52"] pow2_nat [OF le] by simp
    then show ?thesis by (metis (no_types) mult.assoc of_int_mult x_def)
  qed
  then obtain n where n: "x = of_int n * pow2 (e - 52)" by blast
  then have q: "x / pow2 (e - 52) = of_int n" by simp
  have "fl x = of_int (round_half_even (x / pow2 (e - 52))) * pow2 (e - 52)"
    using x0 by (simp add: fl_def e_def Let_def)
  also have "\<dots> = x" unfolding q rhe_int by (rule n [symmetric])
  finally show ?thesis by (simp only: x_def)
qed simp

lemma fl_of_int: "\<bar>n\<bar> \<le> 2 ^ 53 \<Longrightarrow> fl (of_int n) = of_int n"
  using fl_repr [of n 0] by (simp add: pow2_def)

lemma rhe_bound:
  assumes "x \<noteq> 0"
  shows "\<bar>round_half_even (x / pow2 (fl_exp x - 52))\<bar> \<le> 2 ^ 53"
proof -
  have "\<bar>x\<bar> \<le> of_int (2 ^ 53) * pow2 (fl_exp x - 52)"
    using fl_exp_bounds [OF assms] pow2_add [of 53 "fl_exp x - 52"] by (simp add: pow2_def [of 53] add.commute)
  then have "\<bar>x / pow2 (fl_exp x - 52)\<bar> \<le> of_int (2 ^ 53)"
    by (simp add: abs_divide field_simps)
  then have "x / pow2 (fl_exp x - 52) \<le> of_int (2 ^ 53)" "of_int (- (2 ^ 53)) \<le> x / pow2 (fl_exp x - 52)"
    by linarith+
  from rhe_mono [OF this(1)] rhe_mono [OF this(2)] show ?thesis
    unfolding rhe_int by linarith
qed

lemma fl_idem [simp]: "fl (fl x) = fl x"
proof (cases "x = 0")
  case False
  then have "fl x = of_int (round_half_even (x / pow2 (fl_exp x - 52))) * pow2 (fl_exp x - 52)"
    by (simp add: fl_def Let_def)
  then show ?thesis using fl_repr [OF rhe_bound [OF False]] by simp
qed simp

lemma fl_pow2 [simp]: "fl (pow2 k) = pow2 k"
  using fl_repr [of 1 k] by simp

lemma fl_nonneg: "0 \<le> x \<Longrightarrow> 0 \<le> fl x"
  using rhe_mono [of 0 "x / pow2 (fl_exp x - 52)"] rhe_int [of 0]
  by (simp add: fl_def Let_def zero_le_mult_iff)

lemma fl_same_exp: 
  assumes "x \<noteq> 0" "y \<noteq> 0" "fl_exp x = fl_exp y" "x \<le> y" shows "fl x \<le> fl y"
proof -
  have "x / pow2 (fl_exp y - 52) \<le> y / pow2 (fl_exp y - 52)" using assms(4) by (intro divide_right_mono) (auto simp: less_imp_le)
  from rhe_mono [OF this] show ?thesis using assms by (simp add: fl_def Let_def)
qed

lemma fl_mono_pos:
  assumes "0 < x" "x \<le> y" shows "fl x \<le> fl y"
proof -
  have nz: "x \<noteq> 0" "y \<noteq> 0" using assms by auto
  note b = fl_exp_bounds [OF nz(1)] fl_exp_bounds [OF nz(2)]
  have "pow2 (fl_exp x) < pow2 (fl_exp y + 1)" using b assms by linarith
  then have "fl_exp x \<le> fl_exp y" by (simp add: pow2_less_iff)
  show ?thesis
  proof (cases "fl_exp x = fl_exp y")
    case True then show ?thesis using fl_same_exp nz assms by blast
  next
    case False
    with \<open>fl_exp x \<le> fl_exp y\<close> have lt: "pow2 (fl_exp x + 1) \<le> pow2 (fl_exp y)" by (intro pow2_mono) simp
    have ux: "fl x \<le> pow2 (fl_exp x + 1)"
    proof -
      have "fl x \<le> of_int (2 ^ 53) * pow2 (fl_exp x - 52)"
        using rhe_bound [OF nz(1)] nz by (simp add: fl_def Let_def mult_right_mono abs_le_iff less_imp_le del: of_int_power)
      then show ?thesis
        using pow2_add [of 53 "fl_exp x - 52"] by (simp add: pow2_def [of 53] add.commute)
    qed
    have ly: "pow2 (fl_exp y) \<le> fl y"
    proof -
      have "of_int (2 ^ 52) \<le> y / pow2 (fl_exp y - 52)"
        using b(2) assms pow2_add [of 52 "fl_exp y - 52"] by (simp add: pow2_def [of 52] field_simps)
      from rhe_mono [OF this] have "2 ^ 52 \<le> round_half_even (y / pow2 (fl_exp y - 52))" by (simp only: rhe_int)
      then have "of_int (2 ^ 52) * pow2 (fl_exp y - 52) \<le> fl y"
        using nz by (simp add: fl_def Let_def mult_right_mono less_imp_le del: of_int_power)
      then show ?thesis using pow2_add [of 52 "fl_exp y - 52"] by (simp add: pow2_def [of 52])
    qed
    show ?thesis using ux lt ly by linarith
  qed
qed

lemma fl_mono: assumes "x \<le> y" shows "fl x \<le> fl y"
proof -
  consider "0 < x" | "x \<le> 0" "0 \<le> y" | "y < 0" by linarith
  then show ?thesis
  proof cases
    case 1 then show ?thesis using fl_mono_pos assms by blast
  next
    case 2 then show ?thesis using fl_nonneg [of "- x"] fl_nonneg [of y] by simp
  next
    case 3 then show ?thesis using fl_mono_pos [of "- y" "- x"] assms by simp
  qed
qed

section \<open>Operations of the source\<close>

type_synonym num = rat

definition jadd :: "num \<Rightarrow> num \<Rightarrow> num" where "jadd a b = fl (a + b)"
definition jsub :: "num \<Rightarrow> num \<Rightarrow> num" where "jsub a b = fl (a - b)"
definition jmul :: "num \<Rightarrow> num \<Rightarrow> num" where "jmul a b = fl (a * b)"
definition jdiv :: "num \<Rightarrow> num \<Rightarrow> num" where "jdiv a b = fl (a / b)"

text \<open>\<open>Math.round\<close> is exact: the nearest integer, halves upwards; so is \<open>Math.floor\<close>.\<close>

definition math_round :: "num \<Rightarrow> num" where "math_round x = of_int \<lfloor>x + 1 / 2\<rfloor>"
definition math_floor :: "num \<Rightarrow> num" where "math_floor x = of_int \<lfloor>x\<rfloor>"

text \<open>\<open>Math.round(v * 100) / 100\<close>, the currency rounding that recurs through the services.\<close>

definition round_currency :: "num \<Rightarrow> num" where
  "round_currency v = jdiv (math_round (jmul v 100)) 100"

text \<open>The double nearest to a whole number of cents.\<close>

definition cents :: "int \<Rightarrow> num" where "cents n = fl (of_int n / 100)"

lemma fl_bound: "\<bar>x\<bar> \<le> b \<Longrightarrow> \<bar>fl x - x\<bar> \<le> b / 2 ^ 53"
  using fl_err [of x] by (simp add: field_simps)

lemma fl_close:
  assumes "\<bar>x - a\<bar> \<le> d" and "\<bar>a\<bar> \<le> b" and "d \<le> 1"
  shows "\<bar>fl x - a\<bar> \<le> d + (b + 1) / 2 ^ 53"
proof -
  have "\<bar>x\<bar> \<le> b + 1" using assms by linarith
  from fl_bound [OF this] assms(1) show ?thesis by linarith
qed

lemma math_round_near:
  assumes "\<bar>y - of_int n\<bar> < 1 / 2"
  shows "math_round y = of_int n"
proof -
  have "y - of_int n < 1 / 2" "- (1 / 2) < y - of_int n"
    using assms abs_ge_self [of "y - of_int n"] abs_ge_minus_self [of "y - of_int n"] by linarith+
  then have "of_int n \<le> y + 1 / 2" "y + 1 / 2 < of_int n + 1" by linarith+
  then have "\<lfloor>y + 1 / 2\<rfloor> = n" by (rule floor_unique)
  then show ?thesis by (simp add: math_round_def)
qed

lemma jdiv_cents [simp]: "jdiv (of_int n) 100 = cents n"
  by (simp add: jdiv_def cents_def)

lemma round_currency_cents: "round_currency v = cents \<lfloor>jmul v 100 + 1 / 2\<rfloor>"
  by (simp add: round_currency_def math_round_def)

lemma cents_0 [simp]: "cents 0 = 0"
  by (simp add: cents_def)

lemma cents_nonneg: "0 \<le> n \<Longrightarrow> 0 \<le> cents n"
  by (simp add: cents_def fl_nonneg)

lemma cents_mono: "m \<le> n \<Longrightarrow> cents m \<le> cents n"
  by (simp add: cents_def fl_mono divide_right_mono)

lemma cents_err: "\<bar>n\<bar> \<le> 2 ^ 33 \<Longrightarrow> \<bar>cents n - of_int n / 100\<bar> \<le> 1 / 2 ^ 20"
proof -
  assume "\<bar>n\<bar> \<le> 2 ^ 33"
  then have "\<bar>rat_of_int n\<bar> \<le> 2 ^ 33" by (metis of_int_abs of_int_le_iff of_int_numeral of_int_power)
  then have "\<bar>rat_of_int n / 100\<bar> \<le> 2 ^ 33" by (simp add: abs_le_iff)
  from fl_bound [OF this] show ?thesis by (simp add: cents_def)
qed

text \<open>
  A value less than half a cent away from \<open>n\<close> cents, up to the rounding of the product,
  rounds to the double nearest \<open>n\<close> cents. The bounds keep every error of the currency
  arithmetic below a hundredth of a cent.
\<close>

lemma round_currency_near:
  assumes "\<bar>v * 100 - of_int n\<bar> \<le> d" and "\<bar>n\<bar> \<le> 2 ^ 33" and "d \<le> 49 / 100"
  shows "round_currency v = cents n"
proof -
  have "\<bar>rat_of_int n\<bar> \<le> 2 ^ 33"
    using assms(2) by (metis of_int_abs of_int_le_iff of_int_numeral of_int_power)
  with assms have "\<bar>fl (v * 100) - of_int n\<bar> \<le> d + (2 ^ 33 + 1) / 2 ^ 53" by (intro fl_close) auto
  with assms(3) have "\<bar>jmul v 100 - of_int n\<bar> < 1 / 2" by (simp add: jmul_def)
  from math_round_near [OF this] show ?thesis by (simp add: round_currency_def)
qed

lemma round_currency_of_cents:
  assumes "\<bar>n\<bar> \<le> 2 ^ 33"
  shows "round_currency (cents n) = cents n"
proof (rule round_currency_near [OF _ assms])
  have "cents n - of_int n / 100 \<le> 1 / 2 ^ 20" "- (1 / 2 ^ 20) \<le> cents n - of_int n / 100"
    using cents_err [OF assms] unfolding abs_le_iff by linarith+
  then show "\<bar>cents n * 100 - of_int n\<bar> \<le> 100 / 2 ^ 20" unfolding abs_le_iff by linarith
qed simp

lemma cents_inj:
  assumes "cents m = cents n" and "\<bar>m\<bar> \<le> 2 ^ 33" "\<bar>n\<bar> \<le> 2 ^ 33"
  shows "m = n"
proof -
  have "rat_of_int m - of_int n \<le> 200 / 2 ^ 20" "rat_of_int n - of_int m \<le> 200 / 2 ^ 20"
    using cents_err [OF assms(2)] cents_err [OF assms(3)] assms(1) unfolding abs_le_iff by linarith+
  then have "rat_of_int (m - n) < 1" "rat_of_int (n - m) < 1" by simp_all
  then show ?thesis unfolding of_int_less_1_iff by linarith
qed

end
