(* ===== verification/CreditScoring.thy ===== *)
theory CreditScoring imports Prelude Binary64 begin

text \<open>
  The credit policy (\<open>modules/credit-scoring/credit-scoring.service.ts\<close>): the tier table, the
  resolution of a score to a tier, and the assessment of a loan request. The interface
  \<open>tier_policy\<close> is what the rest of the API relies on: a better score never earns worse
  conditions.
\<close>

section \<open>Tiers\<close>

datatype tier = Gold | Silver | Bronze | Starter

record CreditTier =
  minScore :: int
  tier_name :: tier
  interestRate :: int
  maxCredit :: int

definition CREDIT_TIERS :: "CreditTier list" where
  "CREDIT_TIERS =
     [\<lparr>minScore = 90, tier_name = Gold, interestRate = 4, maxCredit = 10000\<rparr>,
      \<lparr>minScore = 75, tier_name = Silver, interestRate = 6, maxCredit = 5000\<rparr>,
      \<lparr>minScore = 60, tier_name = Bronze, interestRate = 8, maxCredit = 2500\<rparr>,
      \<lparr>minScore = 0, tier_name = Starter, interestRate = 10, maxCredit = 1000\<rparr>]"

definition clamp_score :: "int \<Rightarrow> int" where
  "clamp_score s = max 0 (min 100 s)"

definition resolveTier :: "int \<Rightarrow> tier \<times> int \<times> int" where
  "resolveTier s =
     (case find (\<lambda>t. minScore t \<le> clamp_score s) CREDIT_TIERS of
        Some t \<Rightarrow> (tier_name t, interestRate t, maxCredit t)
      | None \<Rightarrow> (Starter, 10, 1000))"

lemma resolveTier_eq:
  "resolveTier s =
     (if 90 \<le> s then (Gold, 4, 10000) else if 75 \<le> s then (Silver, 6, 5000)
      else if 60 \<le> s then (Bronze, 8, 2500) else (Starter, 10, 1000))"
  by (auto simp: resolveTier_def CREDIT_TIERS_def clamp_score_def)

section \<open>The interface of a tier policy\<close>

locale tier_policy =
  fixes rate :: "int \<Rightarrow> int" and limit :: "int \<Rightarrow> int"
  assumes limit_mono: "s \<le> s' \<Longrightarrow> limit s \<le> limit s'"
    and rate_anti: "s \<le> s' \<Longrightarrow> rate s' \<le> rate s"
    and rate_pos: "0 < rate s" and rate_le: "rate s \<le> 10"
    and limit_ge: "1000 \<le> limit s" and limit_le: "limit s \<le> 10000"
begin

lemma dominates:
  assumes "s \<le> s'" and "of_int (limit s) \<ge> (a :: rat)"
  shows "a \<le> of_int (limit s') \<and> rate s' \<le> rate s"
proof -
  have "(of_int (limit s) :: rat) \<le> of_int (limit s')" using limit_mono [OF assms(1)] by simp
  then show ?thesis using assms rate_anti by force
qed

lemma worse_rate_lower_score: "rate s < rate s' \<Longrightarrow> s' < s"
  using rate_anti [of s s'] by linarith

lemma smaller_limit_lower_score: "limit s < limit s' \<Longrightarrow> s < s'"
  using limit_mono [of s' s] by linarith

end

definition tier_rate :: "int \<Rightarrow> int" where "tier_rate s = fst (snd (resolveTier s))"
definition tier_limit :: "int \<Rightarrow> int" where "tier_limit s = snd (snd (resolveTier s))"

interpretation scoring_tiers: tier_policy tier_rate tier_limit
  by unfold_locales (auto simp: tier_rate_def tier_limit_def resolveTier_eq)

section \<open>Assessment\<close>

record AssessParams =
  ap_amount :: num
  ap_score :: int
  ap_limit :: int
  ap_utilization :: num

datatype decision = Rejected | ManualReview | Approved

text \<open>The kinds of \<open>reasons\<close>; the percentage is the one the message shows.\<close>

datatype reason = ScoreBelowMinimum | AmountExceedsLimit | StrongScore
  | AmountExceedsEightyPercent | UtilizationTooHigh num | BronzeReview

record assessment =
  assess_decision :: decision
  assess_score :: int
  assess_reasons :: "reason list"

definition c0_7 :: num where "c0_7 = fl (7 / 10)"
definition c0_8 :: num where "c0_8 = fl (4 / 5)"

definition assess :: "AssessParams \<Rightarrow> assessment" where
  "assess p =
     (let s = ap_score p; cap = of_int (ap_limit p);
          result = (\<lambda>d rs. \<lparr>assess_decision = d, assess_score = s, assess_reasons = rs\<rparr>)
      in if s < 60 then result Rejected [ScoreBelowMinimum]
         else if ap_amount p > cap then result Rejected [AmountExceedsLimit]
         else if 75 \<le> s \<and> ap_amount p \<le> jmul cap c0_8 \<and> ap_utilization p < c0_7
              then result Approved [StrongScore]
         else if 75 \<le> s then result ManualReview
                ((if ap_amount p > jmul cap c0_8 then [AmountExceedsEightyPercent] else []) @
                 (if c0_7 \<le> ap_utilization p
                  then [UtilizationTooHigh (math_round (jmul (ap_utilization p) 100))] else []))
         else result ManualReview [BronzeReview])"

lemmas assess_unfold = assess_def Let_def

text \<open>Decisions are ordered by how favourable they are.\<close>

instantiation decision :: linorder
begin

definition decision_rank :: "decision \<Rightarrow> nat" where
  "decision_rank d = (case d of Rejected \<Rightarrow> 0 | ManualReview \<Rightarrow> 1 | Approved \<Rightarrow> 2)"

definition less_eq_decision :: "decision \<Rightarrow> decision \<Rightarrow> bool" where
  "less_eq_decision d e = (decision_rank d \<le> decision_rank e)"

definition less_decision :: "decision \<Rightarrow> decision \<Rightarrow> bool" where
  "less_decision d e = (decision_rank d < decision_rank e)"

instance
  by standard (auto simp: less_eq_decision_def less_decision_def decision_rank_def split: decision.splits)

end

lemmas decision_order = less_eq_decision_def less_decision_def decision_rank_def

lemma jmul_mono: "a \<le> b \<Longrightarrow> 0 \<le> c \<Longrightarrow> jmul a c \<le> jmul b c"
  by (simp add: jmul_def fl_mono mult_right_mono)

lemma c0_8_nonneg [simp]: "0 \<le> c0_8"
  by (simp add: c0_8_def fl_nonneg)

lemma assess_approved_iff:
  "assess_decision (assess p) = Approved \<longleftrightarrow>
     75 \<le> ap_score p \<and> ap_amount p \<le> of_int (ap_limit p) \<and>
     ap_amount p \<le> jmul (of_int (ap_limit p)) c0_8 \<and> ap_utilization p < c0_7"
  by (auto simp: assess_unfold)

lemma assess_rejected_iff:
  "assess_decision (assess p) = Rejected \<longleftrightarrow>
     ap_score p < 60 \<or> of_int (ap_limit p) < ap_amount p"
  by (auto simp: assess_unfold)

lemma assess_reasons_nonempty: "assess_reasons (assess p) \<noteq> []"
  by (auto simp: assess_unfold)

text \<open>A request that is no worse in any respect gets a decision that is no worse.\<close>

lemma assess_mono_gen:
  assumes "ap_score p \<le> ap_score q" and "ap_limit p \<le> ap_limit q"
    and "ap_amount q \<le> ap_amount p" and "ap_utilization q \<le> ap_utilization p"
  shows "assess_decision (assess p) \<le> assess_decision (assess q)"
proof -
  have cap: "(of_int (ap_limit p) :: num) \<le> of_int (ap_limit q)" using assms by simp
  have cap8: "jmul (of_int (ap_limit p)) c0_8 \<le> jmul (of_int (ap_limit q)) c0_8"
    using cap by (simp add: jmul_mono)
  have rej: "assess_decision (assess q) = Rejected \<Longrightarrow> assess_decision (assess p) = Rejected"
    using assms cap unfolding assess_rejected_iff by linarith
  have app: "assess_decision (assess p) = Approved \<Longrightarrow> assess_decision (assess q) = Approved"
    using assms cap cap8 unfolding assess_approved_iff by linarith
  show ?thesis
    using rej app
    by (cases "assess_decision (assess p)"; cases "assess_decision (assess q)")
      (simp_all add: decision_order)
qed

section \<open>Properties\<close>

text \<open>The assessment is monotone: with a score at least as high (and the credit limit of its
  tier), an amount and a utilization at most as high, the decision is at least as
  favourable (rejected, then manual review, then approved).\<close>

theorem assess_monotone:
  assumes "s \<le> s'" and "a' \<le> a" and "u' \<le> u"
  shows "assess_decision (assess \<lparr>ap_amount = a, ap_score = s, ap_limit = tier_limit s, ap_utilization = u\<rparr>) \<le>
         assess_decision (assess \<lparr>ap_amount = a', ap_score = s', ap_limit = tier_limit s', ap_utilization = u'\<rparr>)"
  using assms scoring_tiers.limit_mono [OF assms(1)] by (intro assess_mono_gen) simp_all

theorem assess_monotone_witness:
  "assess_decision (assess \<lparr>ap_amount = 2000, ap_score = 70, ap_limit = tier_limit 70, ap_utilization = 0\<rparr>) \<le>
   assess_decision (assess \<lparr>ap_amount = 1500, ap_score = 80, ap_limit = tier_limit 80, ap_utilization = 0\<rparr>)"
  by (rule assess_monotone) simp_all

text \<open>No loan is approved automatically unless the score is at least 75, the amount is within
  both the credit limit and its binary 80%, and less than 70% of the credit is in use; every
  decision carries at least one reason and the score it was made on.\<close>

theorem assess_approval_conditions:
  "(assess_decision (assess p) = Approved \<longleftrightarrow>
      75 \<le> ap_score p \<and> ap_amount p \<le> of_int (ap_limit p) \<and>
      ap_amount p \<le> jmul (of_int (ap_limit p)) c0_8 \<and> ap_utilization p < c0_7) \<and>
   (assess_decision (assess p) = Rejected \<longleftrightarrow>
      ap_score p < 60 \<or> of_int (ap_limit p) < ap_amount p) \<and>
   assess_reasons (assess p) \<noteq> [] \<and> assess_score (assess p) = ap_score p"
  unfolding assess_approved_iff assess_rejected_iff
  using assess_reasons_nonempty by (auto simp: assess_unfold)

end
