(* ===== verification/Calendar.thy ===== *)
theory Calendar imports Prelude begin

text \<open>
  The part of ECMAScript dates the services use: a time value is a number of milliseconds
  since 1970, \<open>setMonth\<close> and \<open>setHours\<close> act on the local calendar, and a day that a month
  does not have overflows into the next one. The server's time zone is a fixed offset \<open>tz\<close>
  in milliseconds (no daylight saving).
\<close>

definition day_ms :: int where "day_ms = 86400000"

lemma day_ms_pos [simp]: "0 < day_ms"
  by (simp add: day_ms_def)

definition local_day :: "int \<Rightarrow> int \<Rightarrow> int" where
  "local_day tz t = (t + tz) div day_ms"

text \<open>\<open>DayFromYear\<close>, and the first day of month \<open>k\<close>, counted from January of year 0.\<close>

definition day_from_year :: "int \<Rightarrow> int" where
  "day_from_year y = 365 * (y - 1970) + (y - 1969) div 4 - (y - 1901) div 100 + (y - 1601) div 400"

definition leap_day :: "int \<Rightarrow> int" where
  "leap_day y = (if 4 dvd y \<and> (\<not> 100 dvd y \<or> 400 dvd y) then 1 else 0)"

definition month_offset :: "int \<Rightarrow> int \<Rightarrow> int" where
  "month_offset y m =
     (if m = 0 then 0 else if m = 1 then 31 else
      leap_day y +
      (if m = 2 then 59 else if m = 3 then 90 else if m = 4 then 120 else if m = 5 then 151
       else if m = 6 then 181 else if m = 7 then 212 else if m = 8 then 243 else if m = 9 then 273
       else if m = 10 then 304 else 334))"

definition month_start :: "int \<Rightarrow> int" where
  "month_start k = day_from_year (k div 12) + month_offset (k div 12) (k mod 12)"

lemma leap_day_cases: "leap_day y = 0 \<or> leap_day y = 1"
  by (simp add: leap_day_def)

lemma div_step:
  assumes m: "0 < (m :: int)"
  shows "(y + 1) div m - y div m = (if m dvd (y + 1) then 1 else 0)"
proof -
  define q r where "q = y div m" and "r = y mod m"
  have e: "y + 1 = (r + 1) + m * q" "0 \<le> r" "r < m"
    using m by (auto simp: q_def r_def)
  have "(r + 1) div m = (if r + 1 = m then 1 else 0)" "m dvd (r + 1) \<longleftrightarrow> r + 1 = m"
    using e m zdvd_imp_le [of m "r + 1"] by (auto simp: div_pos_pos_trivial)
  moreover have "(y + 1) div m = (r + 1) div m + q" unfolding e(1) using m by simp
  moreover have "m dvd (y + 1) \<longleftrightarrow> m dvd (r + 1)"
    unfolding e(1) by (rule dvd_add_left_iff) simp
  ultimately show ?thesis by (simp flip: q_def)
qed

lemma dvd_shift: "(m :: int) dvd (y - c) \<longleftrightarrow> m dvd y" if "m dvd c"
  using that by (simp add: dvd_diff_left_iff)

lemma year_div_step:
  assumes "0 < (m :: int)" "m dvd c"
  shows "(y + 1 - (c + 1)) div m - (y - (c + 1)) div m = (if m dvd y then 1 else 0)"
proof -
  have "y - (c + 1) + 1 = y + 1 - (c + 1)" "y + 1 - (c + 1) = y - c" by simp_all
  with div_step [OF assms(1), of "y - (c + 1)"] dvd_shift [OF assms(2), of y] show ?thesis by simp
qed

lemma day_from_year_step: "day_from_year (y + 1) - day_from_year y = 365 + leap_day y"
proof -
  have *: "(y + 1 - 1969) div 4 - (y - 1969) div 4 = (if 4 dvd y then 1 else 0)"
    "(y + 1 - 1901) div 100 - (y - 1901) div 100 = (if 100 dvd y then 1 else 0)"
    "(y + 1 - 1601) div 400 - (y - 1601) div 400 = (if 400 dvd y then 1 else 0)"
    using year_div_step [of 4 1968 y] year_div_step [of 100 1900 y] year_div_step [of 400 1600 y]
    by simp_all
  have d: "400 dvd y \<Longrightarrow> 100 dvd y" "100 dvd y \<Longrightarrow> 4 dvd y"
    using dvd_trans [of 100 400 y] dvd_trans [of 4 100 y] by simp_all
  define a1 a0 b1 b0 c1 c0
    where "a1 = (y + 1 - 1969) div 4" and "a0 = (y - 1969) div 4"
      and "b1 = (y + 1 - 1901) div 100" and "b0 = (y - 1901) div 100"
      and "c1 = (y + 1 - 1601) div 400" and "c0 = (y - 1601) div 400"
  note defs = this
  have "day_from_year (y + 1) = 365 * (y + 1 - 1970) + a1 - b1 + c1"
    "day_from_year y = 365 * (y - 1970) + a0 - b0 + c0"
    unfolding day_from_year_def defs by (rule refl)+
  then have "day_from_year (y + 1) - day_from_year y = 365 + (a1 - a0) - (b1 - b0) + (c1 - c0)"
    by (simp only: algebra_simps)
  also have "\<dots> = 365 + leap_day y" unfolding leap_day_def * [folded defs]
    using d by (cases "4 dvd y"; cases "100 dvd y"; cases "400 dvd y") simp_all
  finally show ?thesis .
qed

lemma month_step: "28 \<le> month_start (k + 1) - month_start k \<and> month_start (k + 1) - month_start k \<le> 31"
proof -
  define y where "y = k div 12"
  define m where "m = k mod 12"
  have k: "k = m + 12 * y" "0 \<le> m" "m < 12" by (auto simp: y_def m_def)
  show ?thesis
  proof (cases "m = 11")
    case True
    then have "k + 1 = 12 * (y + 1)" using k by simp
    then have "(k + 1) div 12 = y + 1" "(k + 1) mod 12 = 0" by simp_all
    moreover have "month_start k = day_from_year y + leap_day y + 334"
      using True by (simp add: month_start_def month_offset_def flip: y_def m_def)
    ultimately show ?thesis
      using day_from_year_step [of y] by (simp add: month_start_def month_offset_def)
  next
    case False
    with k have "k + 1 = (m + 1) + 12 * y" "0 \<le> m + 1" "m + 1 < 12" by simp_all
    then have "(k + 1) div 12 = y" "(k + 1) mod 12 = m + 1"
      by (simp_all only: div_mult_self2 mod_mult_self2 div_pos_pos_trivial mod_pos_pos_trivial)
    then have e: "month_start (k + 1) - month_start k = month_offset y (m + 1) - month_offset y m"
      by (simp add: month_start_def flip: y_def m_def)
    have "m \<in> {0..10}" using k False by simp
    then have "m = 0 \<or> m = 1 \<or> m = 2 \<or> m = 3 \<or> m = 4 \<or> m = 5 \<or> m = 6 \<or> m = 7 \<or> m = 8 \<or> m = 9 \<or> m = 10"
      unfolding atLeastAtMost_iff by presburger
    then show ?thesis unfolding e using leap_day_cases [of y]
      by (auto simp: month_offset_def)
  qed
qed

text \<open>The calendar fields of a day: the month count and the day of the month.\<close>

definition year_of_day :: "int \<Rightarrow> int" where
  "year_of_day d =
     (let y = 1970 + (d * 400) div 146097
      in if day_from_year (y + 1) \<le> d then y + 1 else if d < day_from_year y then y - 1 else y)"

definition month_of_day :: "int \<Rightarrow> int" where
  "month_of_day d =
     (let y = year_of_day d; r = d - day_from_year y
      in 12 * y + (if r < 31 then 0 else 1 + int (length (filter (\<lambda>m. month_offset y m \<le> r) [2..11]))))"

definition date_of_day :: "int \<Rightarrow> int" where
  "date_of_day d = d - month_start (month_of_day d) + 1"

lemma div_bounds: "0 < (m :: int) \<Longrightarrow> m * (a div m) \<le> a \<and> a < m * (a div m) + m"
  using mult_div_mod_eq [of m a] pos_mod_bound [of m a] pos_mod_sign [of m a] by linarith

lemma day_from_year_bounds:
  "400 * day_from_year z \<le> 146097 * (z - 1970) + 800"
  "146097 * (z - 1970) - 800 \<le> 400 * day_from_year z"
proof -
  define a b c where "a = (z - 1969) div 4" and "b = (z - 1901) div 100" and "c = (z - 1601) div 400"
  have "4 * a \<le> z - 1969" "z - 1969 < 4 * a + 4" "100 * b \<le> z - 1901" "z - 1901 < 100 * b + 100"
    "400 * c \<le> z - 1601" "z - 1601 < 400 * c + 400"
    using div_bounds [of 4 "z - 1969"] div_bounds [of 100 "z - 1901"] div_bounds [of 400 "z - 1601"]
    unfolding a_def b_def c_def by simp_all
  moreover have "day_from_year z = 365 * z - 719050 + a - b + c"
    by (simp add: day_from_year_def a_def b_def c_def)
  ultimately have "400 * day_from_year z \<le> 146097 * z - 287811090 + 800"
    "146097 * z - 287811090 - 800 \<le> 400 * day_from_year z" by linarith+
  then show "400 * day_from_year z \<le> 146097 * (z - 1970) + 800"
    "146097 * (z - 1970) - 800 \<le> 400 * day_from_year z" by simp_all
qed

lemma year_of_day_bounds: "day_from_year (year_of_day d) \<le> d \<and> d < day_from_year (year_of_day d + 1)"
proof -
  define y where "y = 1970 + (d * 400) div 146097"
  have y: "146097 * (y - 1970) \<le> 400 * d" "400 * d < 146097 * (y - 1970) + 146097"
    by (auto simp: y_def)
  note dfy = day_from_year_bounds
  have b: "d < day_from_year (y + 2)" "day_from_year (y - 1) \<le> d"
    using y dfy(2) [of "y + 2"] dfy(1) [of "y - 1"] by simp_all
  then have "d < day_from_year (y + 1 + 1)" by (simp add: add.commute)
  with b(2) show ?thesis
    unfolding year_of_day_def Let_def y_def [symmetric] by auto
qed

lemma upto_2_11: "[2..11] = [2, 3, 4, 5, 6, 7, 8, 9, 10, 11 :: int]"
  by (simp add: upto.simps)

lemma date_of_day_bounds:
  "1 \<le> date_of_day d \<and> date_of_day d \<le> 31 \<and> d = month_start (month_of_day d) + date_of_day d - 1"
proof -
  define y where "y = year_of_day d"
  define r where "r = d - day_from_year y"
  define m where "m = month_of_day d - 12 * y"
  have r: "0 \<le> r" "r < 365 + leap_day y"
    using year_of_day_bounds [of d] day_from_year_step [of y] unfolding r_def y_def by linarith+
  have m: "m = (if r < 31 then 0 else 1 + int (length (filter (\<lambda>m. month_offset y m \<le> r) [2..11])))"
    by (simp add: m_def month_of_day_def Let_def flip: y_def r_def)
  have fits: "0 \<le> m \<and> m < 12 \<and> month_offset y m \<le> r \<and> r < month_offset y m + 31"
    using r leap_day_cases [of y]
    unfolding m upto_2_11 by (auto simp: month_offset_def)
  then have "(m + 12 * y) div 12 = y" "(m + 12 * y) mod 12 = m" by simp_all
  then have "month_start (month_of_day d) = day_from_year y + month_offset y m"
    unfolding month_start_def m_def by simp
  with fits r_def show ?thesis by (simp add: date_of_day_def)
qed

text \<open>\<open>d.setMonth(d.getMonth() + i); d.setHours(0, 0, 0, 0)\<close>, as a time value.\<close>

definition add_months_midnight :: "int \<Rightarrow> int \<Rightarrow> int \<Rightarrow> int" where
  "add_months_midnight tz t i =
     (let d = local_day tz t
      in (month_start (month_of_day d + i) + date_of_day d - 1) * day_ms - tz)"

lemma add_months_gap:
  "28 * day_ms \<le> add_months_midnight tz t (i + 1) - add_months_midnight tz t i \<and>
   add_months_midnight tz t (i + 1) - add_months_midnight tz t i \<le> 31 * day_ms"
  using month_step [of "month_of_day (local_day tz t) + i"]
  by (simp add: add_months_midnight_def Let_def day_ms_def algebra_simps)

lemma add_months_0: "add_months_midnight tz t 0 \<le> t \<and> t < add_months_midnight tz t 0 + day_ms"
proof -
  define d where "d = local_day tz t"
  have "add_months_midnight tz t 0 = d * day_ms - tz"
    using date_of_day_bounds [of d] by (simp add: add_months_midnight_def Let_def flip: d_def)
  moreover have "d * day_ms \<le> t + tz" "t + tz < (d + 1) * day_ms"
    by (auto simp: d_def local_day_def day_ms_def)
  ultimately show ?thesis by (simp add: day_ms_def)
qed

lemma add_months_after:
  "28 * day_ms * int i - day_ms < add_months_midnight tz t (int i) - t"
proof (induction i)
  case 0
  then show ?case using add_months_0 [of tz t] by simp
next
  case (Suc i)
  then show ?case using add_months_gap [of tz t "int i"] by (simp add: day_ms_def algebra_simps)
qed

end
