(* ===== verification/LoanQuote.thy ===== *)
theory LoanQuote imports CreditScoring Calendar begin

text \<open>
  The money side of a loan (\<open>prepareLoanPreview\<close> and \<open>generateScheduleFromDate\<close> of
  \<open>modules/loans/loans.service.ts\<close>): the split of a purchase into guarantee and loan, the
  repayment with interest, the monthly payment and the repayment schedule, all in binary64.
  The lemmas show what the code computes in whole cents.
\<close>

definition GUARANTEE_PERCENT :: num where "GUARANTEE_PERCENT = fl (1 / 5)"
definition LOAN_PERCENT :: num where "LOAN_PERCENT = fl (4 / 5)"
definition MIN_LOAN_REPUTATION_SCORE :: int where "MIN_LOAN_REPUTATION_SCORE = 60"

record SchedulePayment =
  paymentNumber :: nat
  pay_amount :: num
  dueDate :: int

text \<open>The loop of \<open>generateScheduleFromDate\<close> from payment \<open>i\<close> on, with \<open>allocated\<close> so far.\<close>

definition monthly_payment :: "num \<Rightarrow> nat \<Rightarrow> num" where
  "monthly_payment tot term = jdiv (math_floor (jmul (jdiv tot (of_nat term)) 100)) 100"

fun schedule_loop :: "int \<Rightarrow> num \<Rightarrow> nat \<Rightarrow> int \<Rightarrow> num \<Rightarrow> nat list \<Rightarrow> SchedulePayment list" where
  "schedule_loop tz tot term start allocated [] = []"
| "schedule_loop tz tot term start allocated (i # is) =
     (let a = (if i = term then jdiv (math_round (jmul (jsub tot allocated) 100)) 100
               else monthly_payment tot term)
      in \<lparr>paymentNumber = i, pay_amount = a, dueDate = add_months_midnight tz start (int i)\<rparr> #
         schedule_loop tz tot term start (jadd allocated a) is)"

definition generateScheduleFromDate :: "int \<Rightarrow> num \<Rightarrow> nat \<Rightarrow> int \<Rightarrow> SchedulePayment list" where
  "generateScheduleFromDate tz tot term start = schedule_loop tz tot term start 0 [1..<term + 1]"

record LoanQuote =
  q_amount :: num
  q_guarantee :: num
  q_loanAmount :: num
  q_interestRate :: int
  q_totalRepayment :: num
  q_term :: nat
  q_monthlyPayment :: num
  q_schedule :: "SchedulePayment list"

definition quote_guarantee :: "num \<Rightarrow> num" where
  "quote_guarantee a = jdiv (math_round (jmul (jmul a GUARANTEE_PERCENT) 100)) 100"

definition quote_loan :: "num \<Rightarrow> num" where
  "quote_loan a = jdiv (math_round (jmul (jmul a LOAN_PERCENT) 100)) 100"

definition quote_interest :: "num \<Rightarrow> int \<Rightarrow> nat \<Rightarrow> num" where
  "quote_interest l rate term = jmul (jmul l (jdiv (of_int rate) 100)) (jdiv (of_nat term) 12)"

definition quote_total :: "num \<Rightarrow> int \<Rightarrow> nat \<Rightarrow> num" where
  "quote_total l rate term = jdiv (math_round (jmul (jadd l (quote_interest l rate term)) 100)) 100"

definition loan_terms :: "int \<Rightarrow> int \<Rightarrow> num \<Rightarrow> int \<Rightarrow> nat \<Rightarrow> LoanQuote" where
  "loan_terms tz now a rate term =
     (let l = quote_loan a; tot = quote_total l rate term
      in \<lparr>q_amount = a, q_guarantee = quote_guarantee a, q_loanAmount = l, q_interestRate = rate,
          q_totalRepayment = tot, q_term = term,
          q_monthlyPayment = monthly_payment tot term,
          q_schedule = generateScheduleFromDate tz tot term now\<rparr>)"

section \<open>The split of a purchase\<close>

lemma rat_abs_int_le: "\<bar>n\<bar> \<le> k \<Longrightarrow> \<bar>rat_of_int n\<bar> \<le> of_int k"
  by (metis of_int_abs of_int_le_iff)

lemma prod_close:
  fixes x y a b :: rat
  assumes "\<bar>x - a\<bar> \<le> d" "\<bar>y - b\<bar> \<le> e" "\<bar>y\<bar> \<le> Y" "\<bar>a\<bar> \<le> A"
  shows "\<bar>x * y - a * b\<bar> \<le> d * Y + A * e"
proof -
  have "x * y - a * b = (x - a) * y + a * (y - b)" by (simp add: algebra_simps)
  then have "\<bar>x * y - a * b\<bar> \<le> \<bar>x - a\<bar> * \<bar>y\<bar> + \<bar>a\<bar> * \<bar>y - b\<bar>"
    by (metis abs_mult abs_triangle_ineq)
  moreover have "\<bar>x - a\<bar> * \<bar>y\<bar> \<le> d * Y" using assms by (intro mult_mono) auto
  moreover have "\<bar>a\<bar> * \<bar>y - b\<bar> \<le> A * e" using assms by (intro mult_mono) auto
  ultimately show ?thesis by linarith
qed

lemma jmul_close:
  assumes "\<bar>x - a\<bar> \<le> d" "\<bar>y - b\<bar> \<le> e" "\<bar>y\<bar> \<le> Y" "\<bar>a\<bar> \<le> A" "\<bar>a * b\<bar> \<le> B" "d * Y + A * e \<le> 1"
  shows "\<bar>jmul x y - a * b\<bar> \<le> d * Y + A * e + (B + 1) / 2 ^ 53"
  unfolding jmul_def using fl_close [OF prod_close [OF assms(1-4)] assms(5,6)] .

lemma fl_lit: "\<bar>r\<bar> \<le> 1 \<Longrightarrow> \<bar>fl r - r\<bar> \<le> 1 / 2 ^ 53"
  using fl_bound [of r 1] by simp

lemma fl_lit_le: "\<bar>r\<bar> \<le> 1 \<Longrightarrow> \<bar>fl r\<bar> \<le> 1"
  using fl_mono [of r 1] fl_mono [of "-1" r] fl_of_int [of 1] by (simp add: abs_le_iff)

text \<open>A purchase of \<open>c\<close> cents times a fraction \<open>r\<close> rounds to the nearest whole number of cents.\<close>

lemma share_cents:
  assumes c: "0 \<le> c" "c \<le> 10 ^ 6" and r: "0 \<le> r" "r \<le> 1"
    and n: "of_int c * r - of_int n \<le> 2 / 5" "of_int n - of_int c * r \<le> 2 / 5"
  shows "round_currency (jmul (cents c) (fl r)) = cents n"
proof (rule round_currency_near [where d = "48 / 100"])
  have cr: "0 \<le> rat_of_int c" "rat_of_int c \<le> 10 ^ 6"
    using c by (simp, metis of_int_le_iff of_int_numeral of_int_power)
  have pr: "0 \<le> of_int c * r" "of_int c * r \<le> 10 ^ 6"
    using cr r mult_mono [OF cr(2) r(2)] by simp_all
  have "\<bar>jmul (cents c) (fl r) - of_int c / 100 * r\<bar>
      \<le> 1 / 2 ^ 20 * 1 + 10 ^ 4 * (1 / 2 ^ 53) + (10 ^ 4 + 1) / 2 ^ 53"
    by (rule jmul_close [OF cents_err fl_lit fl_lit_le])
      (use c cr r pr in \<open>simp_all add: abs_le_iff\<close>)
  also have "\<dots> \<le> 1 / 2000" by simp
  finally have "\<bar>jmul (cents c) (fl r) - of_int c / 100 * r\<bar> \<le> 1 / 2000" .
  moreover have "of_int c / 100 * r = of_int c * r / 100" by simp
  ultimately show "\<bar>jmul (cents c) (fl r) * 100 - of_int n\<bar> \<le> 48 / 100"
    using n unfolding abs_le_iff by linarith
  have "of_int n \<le> 10 ^ 6 + (2/5 :: rat)" "- (2/5 :: rat) \<le> of_int n"
    using n pr by linarith+
  then have "rat_of_int n < of_int 1000001" "rat_of_int (- 1) < of_int n" by simp_all
  then have "n < 1000001" "- 1 < n" by (simp_all only: of_int_less_iff)
  then show "\<bar>n\<bar> \<le> 2 ^ 33" by simp
qed simp

lemma quote_guarantee_cents:
  assumes "0 \<le> c" "c \<le> 10 ^ 6"
  shows "quote_guarantee (cents c) = cents ((2 * c + 5) div 10)"
proof -
  have "2 * c - 4 \<le> 10 * ((2 * c + 5) div 10)" "10 * ((2 * c + 5) div 10) \<le> 2 * c + 5"
    "10 * ((2 * c + 5) div 10) \<noteq> 2 * c + 5" by presburger+
  then have "2 * c - 4 \<le> 10 * ((2 * c + 5) div 10)" "10 * ((2 * c + 5) div 10) \<le> 2 * c + 4"
    by linarith+
  then have "rat_of_int (2 * c - 4) \<le> of_int (10 * ((2 * c + 5) div 10))"
    "rat_of_int (10 * ((2 * c + 5) div 10)) \<le> of_int (2 * c + 4)" by (simp_all only: of_int_le_iff)
  then have "of_int c * (1 / 5) - rat_of_int ((2 * c + 5) div 10) \<le> 2 / 5"
    "rat_of_int ((2 * c + 5) div 10) - of_int c * (1 / 5) \<le> 2 / 5"
    by (simp_all add: algebra_simps)
  from share_cents [OF assms _ _ this] show ?thesis
    by (simp add: quote_guarantee_def GUARANTEE_PERCENT_def round_currency_def)
qed

lemma quote_loan_cents:
  assumes "0 \<le> c" "c \<le> 10 ^ 6"
  shows "quote_loan (cents c) = cents ((8 * c + 5) div 10)"
proof -
  have "8 * c - 4 \<le> 10 * ((8 * c + 5) div 10)" "10 * ((8 * c + 5) div 10) \<le> 8 * c + 5"
    "10 * ((8 * c + 5) div 10) \<noteq> 8 * c + 5" by presburger+
  then have "8 * c - 4 \<le> 10 * ((8 * c + 5) div 10)" "10 * ((8 * c + 5) div 10) \<le> 8 * c + 4"
    by linarith+
  then have "rat_of_int (8 * c - 4) \<le> of_int (10 * ((8 * c + 5) div 10))"
    "rat_of_int (10 * ((8 * c + 5) div 10)) \<le> of_int (8 * c + 4)" by (simp_all only: of_int_le_iff)
  then have "of_int c * (4 / 5) - rat_of_int ((8 * c + 5) div 10) \<le> 2 / 5"
    "rat_of_int ((8 * c + 5) div 10) - of_int c * (4 / 5) \<le> 2 / 5"
    by (simp_all add: algebra_simps)
  from share_cents [OF assms _ _ this] show ?thesis
    by (simp add: quote_loan_def LOAN_PERCENT_def round_currency_def)
qed

lemma split_exact: "(2 * c + 5) div 10 + (8 * c + 5) div 10 = (c :: int)"
proof -
  define q r where "q = c div 5" and "r = c mod 5"
  have c: "c = r + 5 * q" "r = 0 \<or> r = 1 \<or> r = 2 \<or> r = 3 \<or> r = 4"
    unfolding q_def r_def by (simp, presburger)
  have "2 * c + 5 = (2 * r + 5) + 10 * q" "8 * c + 5 = (8 * r + 5) + 10 * (4 * q)" using c by simp_all
  then have "(2 * c + 5) div 10 = q + (2 * r + 5) div 10" "(8 * c + 5) div 10 = 4 * q + (8 * r + 5) div 10"
    by (simp_all only: div_mult_self2)
  with c show ?thesis by auto
qed

section \<open>Interest and total\<close>

lemma interest_close:
  assumes l: "0 \<le> l" "l \<le> 10 ^ 6" and r: "0 \<le> rate" "rate \<le> 100" and t: "t \<le> 12"
  shows "\<bar>quote_interest (cents l) rate t - of_int l / 100 * (of_int rate / 100) * (of_nat t / 12)\<bar>
           \<le> 1 / 2 ^ 18"
proof -
  have lr: "0 \<le> rat_of_int l" "rat_of_int l \<le> 10 ^ 6"
    using l by (simp, metis of_int_le_iff of_int_numeral of_int_power)
  have rr: "0 \<le> rat_of_int rate / 100" "rat_of_int rate / 100 \<le> 1" using r by simp_all
  have tr: "0 \<le> (rat_of_nat t) / 12" "(rat_of_nat t) / 12 \<le> 1" using t by simp_all
  have p1: "\<bar>rat_of_int l / 100 * (of_int rate / 100)\<bar> \<le> 10 ^ 4"
    using mult_mono [of "rat_of_int l / 100" "10 ^ 4" "of_int rate / 100" 1] lr rr by simp
  have p2: "\<bar>rat_of_int l / 100 * (of_int rate / 100) * (of_nat t / 12)\<bar> \<le> 10 ^ 4"
    using mult_mono [OF p1 tr(2)] tr(1) by (simp add: abs_mult)
  have "\<bar>jmul (cents l) (fl (of_int rate / 100)) - of_int l / 100 * (of_int rate / 100)\<bar>
      \<le> 1 / 2 ^ 20 * 1 + 10 ^ 4 * (1 / 2 ^ 53) + (10 ^ 4 + 1) / 2 ^ 53"
    by (rule jmul_close [OF cents_err fl_lit fl_lit_le]) (use l lr rr p1 in \<open>simp_all add: abs_le_iff\<close>)
  also have "\<dots> \<le> 1 / 2 ^ 19" by simp
  finally have s1: "\<bar>jmul (cents l) (fl (of_int rate / 100)) - of_int l / 100 * (of_int rate / 100)\<bar> \<le> 1 / 2 ^ 19" .
  have "\<bar>jmul (jmul (cents l) (fl (of_int rate / 100))) (fl (of_nat t / 12))
      - of_int l / 100 * (of_int rate / 100) * (of_nat t / 12)\<bar>
      \<le> 1 / 2 ^ 19 * 1 + 10 ^ 4 * (1 / 2 ^ 53) + (10 ^ 4 + 1) / 2 ^ 53"
    by (rule jmul_close [OF s1 fl_lit fl_lit_le]) (use tr p1 p2 in \<open>simp_all add: abs_le_iff\<close>)
  also have "\<dots> \<le> 1 / 2 ^ 18" by simp
  finally show ?thesis by (simp add: quote_interest_def jdiv_def)
qed

text \<open>
  The total is a whole number of cents, within half a cent (and a rounding slack of a tenth
  of one) of the exact loan plus interest.
\<close>

lemma quote_total_cents:
  assumes l: "0 \<le> l" "l \<le> 10 ^ 6" and r: "0 \<le> rate" "rate \<le> 100" and t: "t \<le> 12"
  shows "\<exists>N. quote_total (cents l) rate t = cents N \<and> l \<le> N \<and> N \<le> 2 * l + 1 \<and>
             \<bar>of_int N - of_int l * (1 + of_int rate * of_nat t / 1200)\<bar> \<le> (501 / 1000 :: rat)"
proof -
  define I where "I = rat_of_int l / 100 * (of_int rate / 100) * (of_nat t / 12)"
  define v where "v = jadd (cents l) (quote_interest (cents l) rate t)"
  define N where "N = \<lfloor>jmul v 100 + 1 / 2\<rfloor>"
  have lr: "0 \<le> rat_of_int l" "rat_of_int l \<le> 10 ^ 6"
    using l by (simp, metis of_int_le_iff of_int_numeral of_int_power)
  have f: "0 \<le> rat_of_int rate / 100 * (of_nat t / 12)" "rat_of_int rate / 100 * (of_nat t / 12) \<le> 1"
    using r t mult_mono [of "rat_of_int rate / 100" 1 "rat_of_nat t / 12" 1] by simp_all
  have I: "0 \<le> I" "I \<le> of_int l / 100"
    using mult_left_mono [OF f(2), of "rat_of_int l / 100"] mult_left_mono [OF f(1), of "rat_of_int l / 100"] lr
    unfolding I_def by (simp_all add: mult.assoc)
  have l33: "\<bar>l\<bar> \<le> 2 ^ 33" using l by simp
  have ci: "\<bar>(cents l + quote_interest (cents l) rate t) - (of_int l / 100 + I)\<bar> \<le> 1 / 2 ^ 20 + 1 / 2 ^ 18"
    using cents_err [OF l33] interest_close [OF assms] unfolding I_def [symmetric] by linarith
  have "\<bar>of_int l / 100 + I\<bar> \<le> 2 * 10 ^ 4" using I lr by simp
  from fl_close [OF ci this] have "\<bar>v - (of_int l / 100 + I)\<bar> \<le> 1 / 2 ^ 20 + 1 / 2 ^ 18 + (2 * 10 ^ 4 + 1) / 2 ^ 53"
    by (simp add: v_def jadd_def)
  also have "\<dots> \<le> 1 / 2 ^ 17" by simp
  finally have v: "\<bar>v * 100 - (of_int l + I * 100)\<bar> \<le> 100 / 2 ^ 17" unfolding abs_le_iff by linarith
  have "\<bar>of_int l + I * 100\<bar> \<le> 2 * 10 ^ 6" using I lr by simp
  from fl_close [OF v this] have "\<bar>jmul v 100 - (of_int l + I * 100)\<bar> \<le> 100 / 2 ^ 17 + (2 * 10 ^ 6 + 1) / 2 ^ 53"
    by (simp add: jmul_def)
  also have "\<dots> \<le> 1 / 1000" by simp
  finally have j: "\<bar>jmul v 100 - (of_int l + I * 100)\<bar> \<le> 1 / 1000" .
  have "of_int N \<le> jmul v 100 + 1 / 2" "jmul v 100 + 1 / 2 < of_int N + 1" unfolding N_def by linarith+
  with j have N: "\<bar>of_int N - (of_int l + I * 100)\<bar> \<le> 501 / 1000" unfolding abs_le_iff by linarith
  have "of_int l - 1 < rat_of_int N" "rat_of_int N < 2 * of_int l + 1"
    using N I lr unfolding abs_le_iff by linarith+
  then have "rat_of_int (l - 1) < of_int N" "rat_of_int N < of_int (2 * l + 1)" by simp_all
  then have lN: "l \<le> N" "N \<le> 2 * l" unfolding of_int_less_iff by simp_all
  have "of_int l + I * 100 = of_int l * (1 + of_int rate * of_nat t / 1200)"
    by (simp add: I_def algebra_simps)
  moreover have "quote_total (cents l) rate t = cents N"
    by (simp add: quote_total_def math_round_def N_def v_def)
  ultimately show ?thesis using N lN by auto
qed

section \<open>The repayment schedule\<close>

lemma fl_sum_close:
  assumes "\<bar>x - a\<bar> \<le> d" "\<bar>y - b\<bar> \<le> e" "\<bar>a + b\<bar> \<le> B" "d + e \<le> 1"
  shows "\<bar>jadd x y - (a + b)\<bar> \<le> d + e + (B + 1) / 2 ^ 53"
  unfolding jadd_def using assms by (intro fl_close) linarith+

lemma fl_diff_close:
  assumes "\<bar>x - a\<bar> \<le> d" "\<bar>y - b\<bar> \<le> e" "\<bar>a - b\<bar> \<le> B" "d + e \<le> 1"
  shows "\<bar>jsub x y - (a - b)\<bar> \<le> d + e + (B + 1) / 2 ^ 53"
  unfolding jsub_def using assms by (intro fl_close) linarith+

definition monthly_cents :: "int \<Rightarrow> nat \<Rightarrow> int" where
  "monthly_cents N t = \<lfloor>jmul (jdiv (cents N) (of_nat t)) 100\<rfloor>"

lemma monthly_payment_cents: "monthly_payment (cents N) t = cents (monthly_cents N t)"
  by (simp add: monthly_payment_def math_floor_def monthly_cents_def)

text \<open>The monthly amount is the exact share rounded down, at most one cent lower.\<close>

lemma monthly_cents_bounds:
  assumes N: "0 \<le> N" "N \<le> 2 ^ 30" and t: "0 < t" "t \<le> 12"
  shows "0 \<le> monthly_cents N t \<and> int t * monthly_cents N t \<le> N \<and>
         N \<le> int t * monthly_cents N t + int t"
proof -
  define m where "m = monthly_cents N t"
  define T where "T = rat_of_nat t"
  define q where "q = jmul (jdiv (cents N) T) 100"
  have T: "1 \<le> T" "T \<le> 12" using t by (simp_all add: T_def)
  have Nr: "0 \<le> rat_of_int N" "rat_of_int N \<le> 2 ^ 30"
    using N by (simp, metis of_int_le_iff of_int_numeral of_int_power)
  have e1: "\<bar>cents N / T - of_int N / 100 / T\<bar> \<le> 1 / 2 ^ 20"
  proof -
    have "\<bar>cents N / T - of_int N / 100 / T\<bar> = \<bar>cents N - of_int N / 100\<bar> / T"
      using T by (metis abs_divide abs_of_nonneg diff_divide_distrib order_trans zero_le_one)
    also have "\<dots> \<le> \<bar>cents N - of_int N / 100\<bar>"
      using T mult_left_mono [of 1 T "\<bar>cents N - of_int N / 100\<bar>"] by (simp add: divide_le_eq)
    also have "\<dots> \<le> 1 / 2 ^ 20" using N by (intro cents_err) simp
    finally show ?thesis .
  qed
  have NT: "0 \<le> of_int N / T" "of_int N / T \<le> 2 ^ 30"
    using Nr T divide_left_mono [of 1 T "rat_of_int N"] by simp_all
  have e2: "\<bar>jdiv (cents N) T - of_int N / 100 / T\<bar> \<le> 1 / 2 ^ 20 + (2 ^ 30 + 1) / 2 ^ 53"
    unfolding jdiv_def using NT by (intro fl_close [OF e1]) simp_all
  then have "\<bar>jdiv (cents N) T - of_int N / 100 / T\<bar> \<le> 1 / 2 ^ 19" by simp
  moreover have "of_int N / 100 / T = of_int N / T / 100" by simp
  ultimately have e3: "\<bar>jdiv (cents N) T * 100 - of_int N / T\<bar> \<le> 100 / 2 ^ 19"
    unfolding abs_le_iff by linarith
  have "\<bar>q - of_int N / T\<bar> \<le> 100 / 2 ^ 19 + (2 ^ 30 + 1) / 2 ^ 53"
    unfolding q_def jmul_def using NT by (intro fl_close [OF e3]) simp_all
  also have "\<dots> \<le> 1 / 2 ^ 12" by simp
  finally have q: "q \<le> of_int N / T + 1 / 2 ^ 12" "of_int N / T - 1 / 2 ^ 12 \<le> q"
    unfolding abs_le_iff by linarith+
  have m: "of_int m \<le> q" "q < of_int m + 1"
    unfolding m_def monthly_cents_def q_def T_def by linarith+
  have "T * of_int m \<le> T * (of_int N / T + 1 / 2 ^ 12)" "T * (of_int N / T - 1 / 2 ^ 12) < T * (of_int m + 1)"
    using m q T by (intro mult_left_mono mult_strict_left_mono; linarith)+
  then have "T * of_int m \<le> of_int N + T / 2 ^ 12" "of_int N - T / 2 ^ 12 < T * of_int m + T"
    using T by (simp_all add: algebra_simps)
  then have "T * of_int m < of_int N + 1" "of_int N < T * of_int m + T + 1" using T by simp_all
  then have "rat_of_int (int t * m) < of_int (N + 1)" "rat_of_int N < of_int (int t * m + int t + 1)"
    by (simp_all add: T_def)
  then have "int t * m < N + 1" "N < int t * m + int t + 1" unfolding of_int_less_iff .
  moreover have "0 \<le> m"
    unfolding m_def monthly_cents_def jmul_def jdiv_def using N cents_nonneg [of N] by (simp add: fl_nonneg)
  ultimately show ?thesis unfolding m_def by simp
qed

lemma schedule_last_cents:
  assumes N: "0 \<le> N" "N \<le> 2 ^ 30" and k: "k < 12" and km: "0 \<le> int k * m" "int k * m \<le> N"
    and a: "\<bar>a - of_int (int k * m) / 100\<bar> \<le> of_nat k / 2 ^ 18"
  shows "round_currency (jsub (cents N) a) = cents (N - int k * m)"
proof (rule round_currency_near [where d = "1 / 10"])
  have k': "of_nat k / 2 ^ 18 \<le> (11 / 2 ^ 18 :: rat)" using k by simp
  with a have a': "\<bar>a - of_int (int k * m) / 100\<bar> \<le> 11 / 2 ^ 18" by linarith
  have Nr: "rat_of_int N \<le> 2 ^ 30" "0 \<le> rat_of_int (int k * m)" "rat_of_int (int k * m) \<le> of_int N"
    using N km by (metis of_int_le_iff of_int_numeral of_int_power, simp_all only: of_int_le_iff of_int_0_le_iff)
  have "\<bar>jsub (cents N) a - (of_int N / 100 - of_int (int k * m) / 100)\<bar>
      \<le> 1 / 2 ^ 20 + 11 / 2 ^ 18 + (2 ^ 30 + 1) / 2 ^ 53"
    by (rule fl_diff_close [OF cents_err a']) (use N Nr in \<open>simp_all add: abs_le_iff del: of_int_mult\<close>)
  also have "\<dots> \<le> 1 / 1000" by simp
  finally show "\<bar>jsub (cents N) a * 100 - of_int (N - int k * m)\<bar> \<le> 1 / 10"
    unfolding abs_le_iff of_int_diff by linarith
  show "\<bar>N - int k * m\<bar> \<le> 2 ^ 33" using N km by simp
qed simp

lemma schedule_loop_cents:
  assumes N: "0 \<le> N" "N \<le> 2 ^ 30" and t: "0 < t" "t \<le> 12"
    and i: "1 \<le> i" "i \<le> t"
    and a: "\<bar>a - of_int (int (i - 1) * m) / 100\<bar> \<le> of_nat (i - 1) / 2 ^ 18"
    and m: "m = monthly_cents N t"
  shows "map pay_amount (schedule_loop tz (cents N) t start a [i..<t + 1]) =
           replicate (t - i) (cents m) @ [cents (N - int (t - 1) * m)]"
  using i a
proof (induction "t - i" arbitrary: i a)
  case 0
  then have it: "i = t" by simp
  have m0: "0 \<le> m" "int t * m \<le> N" using monthly_cents_bounds [OF N t] m by auto
  have "int (t - 1) * m \<le> int t * m" using m0 by (intro mult_right_mono) auto
  then have km: "0 \<le> int (t - 1) * m" "int (t - 1) * m \<le> N" using m0 by simp_all
  have "round_currency (jsub (cents N) a) = cents (N - int (t - 1) * m)"
    using schedule_last_cents [OF N _ km] t 0 it by simp
  then show ?case using it t by (simp add: round_currency_def Let_def)
next
  case (Suc x)
  then have it: "i < t" by simp
  have m0: "0 \<le> m" "int t * m \<le> N" using monthly_cents_bounds [OF N t] m by auto
  have ij: "int i = int (i - 1) + 1" using Suc.prems by simp
  have "int i * m \<le> int t * m" "m \<le> int i * m" 
    using m0 it Suc.prems by (auto intro: mult_right_mono simp: mult_le_cancel_right1)
  then have le: "int i * m \<le> 2 ^ 30" "0 \<le> int i * m" "m \<le> 2 ^ 30" using m0 N by linarith+
  have split: "rat_of_int (int (i - 1) * m) / 100 + of_int m / 100 = of_int (int i * m) / 100"
    by (simp add: ij distrib_right add_divide_distrib)
  have k: "of_nat (i - 1) / 2 ^ 18 \<le> (11 / 2 ^ 18 :: rat)" using it t by simp
  have B: "\<bar>rat_of_int (int i * m) / 100\<bar> \<le> 2 ^ 30"
  proof -
    have "rat_of_int (int i * m) \<le> 2 ^ 30" "0 \<le> rat_of_int (int i * m)"
      using le by (metis of_int_le_iff of_int_numeral of_int_power, simp only: of_int_0_le_iff)
    then show ?thesis by (simp del: of_int_mult)
  qed
  have "\<bar>jadd a (cents m) - (of_int (int (i - 1) * m) / 100 + of_int m / 100)\<bar>
      \<le> of_nat (i - 1) / 2 ^ 18 + 1 / 2 ^ 20 + (2 ^ 30 + 1) / 2 ^ 53"
  proof (rule fl_sum_close [OF Suc.prems(3) cents_err])
    show "\<bar>m\<bar> \<le> 2 ^ 33" using le m0 by simp
    show "\<bar>rat_of_int (int (i - 1) * m) / 100 + of_int m / 100\<bar> \<le> 2 ^ 30" using B split by simp
    have "(11 / 2 ^ 18 :: rat) + 1 / 2 ^ 20 \<le> 1" by simp
    then show "of_nat (i - 1) / 2 ^ 18 + 1 / 2 ^ 20 \<le> (1 :: rat)" using k by linarith
  qed
  also have "of_nat (i - 1) / 2 ^ 18 + 1 / 2 ^ 20 + (2 ^ 30 + 1) / 2 ^ 53 \<le> (of_nat (i - 1) + 1) / (2 ^ 18 :: rat)"
    unfolding add_divide_distrib by simp
  also have "of_nat (i - 1) + 1 = (of_nat i :: rat)" using Suc.prems(1) by (simp add: of_nat_diff)
  finally have a': "\<bar>jadd a (cents m) - of_int (int (Suc i - 1) * m) / 100\<bar> \<le> of_nat (Suc i - 1) / 2 ^ 18"
    unfolding split by simp
  have "x = t - Suc i" "1 \<le> Suc i" "Suc i \<le> t" using Suc.hyps(2) it by auto
  from Suc.hyps(1) [OF this a'] \<open>x = t - Suc i\<close> show ?case
    using it Suc.hyps(2) [symmetric] by (simp add: upt_rec [of i] monthly_payment_cents m [symmetric] Let_def)
qed

lemma schedule_cents:
  assumes "0 \<le> N" "N \<le> 2 ^ 30" "0 < t" "t \<le> 12"
  shows "map pay_amount (generateScheduleFromDate tz (cents N) t start) =
           replicate (t - 1) (cents (monthly_cents N t)) @ [cents (N - int (t - 1) * monthly_cents N t)]"
  unfolding generateScheduleFromDate_def using assms by (intro schedule_loop_cents) simp_all

lemma schedule_loop_dates:
  "map dueDate (schedule_loop tz tot t start a is) = map (\<lambda>i. add_months_midnight tz start (int i)) is"
  "map paymentNumber (schedule_loop tz tot t start a is) = is"
  by (induction "is" arbitrary: a) (simp_all add: Let_def)

lemma schedule_dates:
  "map dueDate (generateScheduleFromDate tz tot t start) =
     map (\<lambda>i. add_months_midnight tz start (int i)) [1..<t + 1]"
  "map paymentNumber (generateScheduleFromDate tz tot t start) = [1..<t + 1]"
  unfolding generateScheduleFromDate_def by (rule schedule_loop_dates)+

lemma schedule_length [simp]: "length (generateScheduleFromDate tz tot t start) = t"
  using arg_cong [OF schedule_dates(2) [of tz tot t start], of length] by simp

lemma schedule_due:
  "i < t \<Longrightarrow> dueDate (generateScheduleFromDate tz tot t start ! i) = add_months_midnight tz start (int i + 1)"
  using arg_cong [OF schedule_dates(1) [of tz tot t start], of "\<lambda>xs. xs ! i"]
  by (simp add: add.commute del: upt_Suc)

section \<open>Properties\<close>

text \<open>C16: A purchase of \<open>c\<close> cents (DTO range) is split without a remainder: the guarantee is its
  20% and the loan its 80%, each rounded to the nearest cent, and the two add up to the
  purchase exactly, in spite of the binary rounding of 0.2, 0.8 and every product.\<close>

theorem quote_split:
  assumes "100 \<le> c" and "c \<le> 1000000"
  shows "\<exists>g l. q_guarantee (loan_terms tz now (cents c) rate term) = cents g \<and>
               q_loanAmount (loan_terms tz now (cents c) rate term) = cents l \<and>
               g + l = c \<and> \<bar>10 * g - 2 * c\<bar> \<le> 5 \<and> \<bar>10 * l - 8 * c\<bar> \<le> 5"
proof -
  have "q_guarantee (loan_terms tz now (cents c) rate term) = cents ((2 * c + 5) div 10)"
    "q_loanAmount (loan_terms tz now (cents c) rate term) = cents ((8 * c + 5) div 10)"
    using assms by (simp_all add: loan_terms_def Let_def quote_guarantee_cents quote_loan_cents)
  moreover have "\<bar>10 * ((2 * c + 5) div 10) - 2 * c\<bar> \<le> 5" "\<bar>10 * ((8 * c + 5) div 10) - 8 * c\<bar> \<le> 5"
    using div_bounds [of 10 "2 * c + 5"] div_bounds [of 10 "8 * c + 5"] by (simp_all add: abs_le_iff)
  ultimately show ?thesis using split_exact [of c] by blast
qed

theorem quote_split_witness:
  "\<exists>g l. q_guarantee (loan_terms 0 0 (cents 12345) 8 4) = cents g \<and>
         q_loanAmount (loan_terms 0 0 (cents 12345) 8 4) = cents l \<and>
         g + l = 12345 \<and> \<bar>10 * g - 2 * 12345\<bar> \<le> 5 \<and> \<bar>10 * l - 8 * 12345\<bar> \<le> 5"
  by (rule quote_split) simp_all

text \<open>C20: The total repayment of a quote is a whole number of cents that is within half a cent
  (plus a slack of a thousandth of a cent for binary rounding) of the exact loan plus simple
  interest for the term, and is never less than the loan.\<close>

theorem quote_total_exact:
  assumes "100 \<le> c" and "c \<le> 1000000" and "0 \<le> rate" "rate \<le> 100" and "term \<le> 12"
  shows "\<exists>l N. q_loanAmount (loan_terms tz now (cents c) rate term) = cents l \<and>
               q_totalRepayment (loan_terms tz now (cents c) rate term) = cents N \<and> l \<le> N \<and>
               \<bar>of_int N - of_int l * (1 + of_int rate * of_nat term / 1200)\<bar> \<le> (501 / 1000 :: rat)"
proof -
  have "0 \<le> (8 * c + 5) div 10" "(8 * c + 5) div 10 \<le> 10 ^ 6"
    using assms div_bounds [of 10 "8 * c + 5"] by simp_all
  from quote_total_cents [OF this assms(3,4,5)] show ?thesis
    using assms by (auto simp: loan_terms_def Let_def quote_loan_cents)
qed

theorem quote_total_exact_witness:
  "\<exists>l N. q_loanAmount (loan_terms 0 0 (cents 50000) 8 4) = cents l \<and>
         q_totalRepayment (loan_terms 0 0 (cents 50000) 8 4) = cents N \<and> l \<le> N \<and>
         \<bar>of_int N - of_int l * (1 + of_int 8 * of_nat 4 / 1200)\<bar> \<le> (501 / 1000 :: rat)"
  by (rule quote_total_exact) simp_all

text \<open>C1: A schedule for a total of \<open>N\<close> cents has \<open>t\<close> payments, numbered from 1, that add up to
  exactly \<open>N\<close> cents: \<open>t - 1\<close> equal payments of the monthly amount and a last one that is at
  least as large, by at most \<open>t\<close> cents.\<close>

theorem schedule_adds_up:
  assumes "0 \<le> N" "N \<le> 2 ^ 30" "0 < t" "t \<le> 12"
  shows "\<exists>m f. monthly_payment (cents N) t = cents m \<and> 0 \<le> m \<and> m \<le> f \<and> f \<le> m + int t \<and>
               int (t - 1) * m + f = N \<and>
               map pay_amount (generateScheduleFromDate tz (cents N) t start) =
                 replicate (t - 1) (cents m) @ [cents f] \<and>
               map paymentNumber (generateScheduleFromDate tz (cents N) t start) = [1..<t + 1]"
proof -
  define m where "m = monthly_cents N t"
  have b: "0 \<le> m" "int t * m \<le> N" "N \<le> int t * m + int t"
    using monthly_cents_bounds [OF assms] by (auto simp: m_def)
  have "int t * m = int (t - 1) * m + m"
    using assms(3) by (simp add: of_nat_diff left_diff_distrib)
  with b have "m \<le> N - int (t - 1) * m" "N - int (t - 1) * m \<le> m + int t" by linarith+
  with b show ?thesis
    using schedule_cents [OF assms, of tz start] schedule_dates(2) [of tz "cents N" t start]
    by (intro exI [of _ m] exI [of _ "N - int (t - 1) * m"])
      (simp add: m_def monthly_payment_cents del: upt_Suc)
qed

theorem schedule_adds_up_witness:
  "\<exists>m f. monthly_payment (cents 41067) 4 = cents m \<and> 0 \<le> m \<and> m \<le> f \<and> f \<le> m + int 4 \<and>
         int (4 - 1) * m + f = 41067 \<and>
         map pay_amount (generateScheduleFromDate 0 (cents 41067) 4 0) = replicate (4 - 1) (cents m) @ [cents f] \<and>
         map paymentNumber (generateScheduleFromDate 0 (cents 41067) 4 0) = [1..<4 + 1]"
  by (rule schedule_adds_up) simp_all

text \<open>The due dates of a schedule are a month apart, 28 to 31 days each, and the first one
  is more than 27 days after the start, whatever the start date and the server's offset
  (a day the month does not have overflows into the next month, as \<open>setMonth\<close> does).\<close>

theorem schedule_spacing:
  assumes "i + 1 < t"
  shows "28 * day_ms \<le> dueDate (generateScheduleFromDate tz tot t start ! (i + 1))
                       - dueDate (generateScheduleFromDate tz tot t start ! i) \<and>
         dueDate (generateScheduleFromDate tz tot t start ! (i + 1))
           - dueDate (generateScheduleFromDate tz tot t start ! i) \<le> 31 * day_ms \<and>
         start + 27 * day_ms < dueDate (generateScheduleFromDate tz tot t start ! 0)"
  using assms add_months_gap [of tz start "int i + 1"] add_months_after [of 1 tz start]
  by (simp add: schedule_due)

theorem schedule_spacing_witness:
  "28 * day_ms \<le> dueDate (generateScheduleFromDate 0 100 2 2678400000 ! (0 + 1))
                       - dueDate (generateScheduleFromDate 0 100 2 2678400000 ! 0) \<and>
   dueDate (generateScheduleFromDate 0 100 2 2678400000 ! (0 + 1))
     - dueDate (generateScheduleFromDate 0 100 2 2678400000 ! 0) \<le> 31 * day_ms \<and>
   2678400000 + 27 * day_ms < dueDate (generateScheduleFromDate 0 100 2 2678400000 ! 0)"
  by (rule schedule_spacing) simp

text \<open>Truncating the binary product loses a cent: a total of 4.35 due in a single payment has
  a monthly payment of 4.34, although its schedule asks for 4.35.\<close>

theorem monthly_payment_loses_a_cent:
  "monthly_payment (cents 435) 1 = cents 434 \<and>
   map pay_amount (generateScheduleFromDate tz (cents 435) 1 start) = [cents 435]"
proof
  show "monthly_payment (cents 435) 1 = cents 434" by code_simp
  show "map pay_amount (generateScheduleFromDate tz (cents 435) 1 start) = [cents 435]"
    using schedule_cents [of 435 1 tz start] by simp
qed

end
