(* ===== verification/Schema.thy ===== *)
theory Schema imports Binary64 CreditScoring begin

text \<open>
  The rows of the tables that several services share, with the columns the services read or
  write, and the oracle for database faults. Times are milliseconds since 1970.
\<close>

text \<open>
  Which calls fail, by the name of the call site: \<open>Some e\<close> is an error PostgREST returns
  instead of running the query.
\<close>

type_synonym faults = "string \<Rightarrow> db_error option"

definition no_faults :: faults where "no_faults = (\<lambda>_. None)"

lemma no_faults [simp]: "no_faults s = None"
  by (simp add: no_faults_def)

text \<open>
  \<open>loans.status\<close> is a text column without a check constraint. The services write and filter on
  the first six values; \<open>LoanOther\<close> is any other text, which only a foreign writer can store.
\<close>

datatype LoanStatus = LoanPending | LoanActive | LoanCompleted | LoanDefaulted | LoanUnderReview
  | LoanRejected | LoanOther string

record LoanRow =
  loan_pk :: string
  loan_id :: string
  loan_wallet :: string
  loan_vendor :: "string option"
  loan_amount :: num
  loan_principal :: num
  loan_guarantee :: num
  loan_rate :: int
  loan_total :: num
  loan_balance :: num
  loan_term :: nat
  loan_status :: LoanStatus
  loan_next_due :: "int option"
  loan_created :: int
  loan_completed :: "int option"
  loan_defaulted :: "int option"

record VendorRef =
  vendor_pk :: string
  vendor_name :: string
  vendor_verified :: bool

datatype TxStatus = TxPending | TxSuccess | TxFailed

datatype tx_kind = LoanCreate | LoanRepay | Deposit | Withdraw | VendorApprove | VendorSuspend

fun kind_name :: "tx_kind \<Rightarrow> string" where
  "kind_name LoanCreate = ''loan_create''"
| "kind_name LoanRepay = ''loan_repay''"
| "kind_name Deposit = ''deposit''"
| "kind_name Withdraw = ''withdraw''"
| "kind_name VendorApprove = ''vendor_approve''"
| "kind_name VendorSuspend = ''vendor_suspend''"

record TxRow =
  tx_pk :: string
  tx_wallet :: string
  tx_thash :: "string option"
  tx_lhash :: "string option"
  tx_type :: "string option"
  tx_status :: TxStatus
  tx_xdr :: string
  tx_error :: "string option"
  tx_submitted :: int
  tx_completed :: "int option"

record UserRow =
  user_pk :: string
  user_wallet :: string
  user_name :: "string option"
  user_display :: "string option"
  user_avatar :: "string option"
  user_status :: string
  user_role :: "string option"
  user_created :: int

end
