(* ===== verification/CacheStore.thy ===== *)
theory CacheStore imports Prelude begin

text \<open>
  The cache behind \<open>CACHE_MANAGER\<close>: a key-value store whose entries expire. Times and
  time-to-live values are in the store's own unit. The interface \<open>cache_store\<close> states what
  the services rely on; \<open>read_through\<close> is the lookup pattern they share (answer from the
  cache, else load and remember).
\<close>

type_synonym ('k, 'v) cache = "'k \<Rightarrow> ('v \<times> int) option"

definition cache_get :: "int \<Rightarrow> ('k, 'v) cache \<Rightarrow> 'k \<Rightarrow> 'v option" where
  "cache_get now c k = (case c k of Some (v, expires) \<Rightarrow> if now < expires then Some v else None | None \<Rightarrow> None)"

definition cache_set :: "int \<Rightarrow> int \<Rightarrow> 'k \<Rightarrow> 'v \<Rightarrow> ('k, 'v) cache \<Rightarrow> ('k, 'v) cache" where
  "cache_set now ttl k v c = c(k \<mapsto> (v, now + ttl))"

definition cache_del :: "'k \<Rightarrow> ('k, 'v) cache \<Rightarrow> ('k, 'v) cache" where
  "cache_del k c = c(k := None)"

locale cache_store =
  fixes get :: "int \<Rightarrow> 's \<Rightarrow> 'k \<Rightarrow> 'v option"
    and set_entry :: "int \<Rightarrow> int \<Rightarrow> 'k \<Rightarrow> 'v \<Rightarrow> 's \<Rightarrow> 's"
    and del :: "'k \<Rightarrow> 's \<Rightarrow> 's"
  assumes get_set_same: "0 < ttl \<Longrightarrow> get now (set_entry now ttl k v c) k = Some v"
    and get_set_cases: "get now' (set_entry now ttl k v c) k = Some w \<Longrightarrow> w = v \<and> now' < now + ttl"
    and get_set_other: "k' \<noteq> k \<Longrightarrow> get now' (set_entry now ttl k v c) k' = get now' c k'"
    and get_del_same: "get now (del k c) k = None"
    and get_del_other: "k' \<noteq> k \<Longrightarrow> get now (del k c) k' = get now c k'"
    and get_earlier: "now \<le> now' \<Longrightarrow> get now' c k = Some v \<Longrightarrow> get now c k = Some v"
begin

text \<open>The value a read-through lookup answers with, and the cache it leaves.\<close>

definition read_through :: "int \<Rightarrow> int \<Rightarrow> ('k \<Rightarrow> 'v option) \<Rightarrow> 'k \<Rightarrow> 's \<Rightarrow> 'v option \<times> 's" where
  "read_through now ttl load k c =
     (case get now c k of
        Some v \<Rightarrow> (Some v, c)
      | None \<Rightarrow> (case load k of Some v \<Rightarrow> (Some v, set_entry now ttl k v c) | None \<Rightarrow> (None, c)))"

definition satisfies :: "('k \<Rightarrow> 'v \<Rightarrow> bool) \<Rightarrow> int \<Rightarrow> 's \<Rightarrow> bool" where
  "satisfies P now c \<longleftrightarrow> (\<forall>k v. get now c k = Some v \<longrightarrow> P k v)"

lemma satisfies_later: "satisfies P now c \<Longrightarrow> now \<le> now' \<Longrightarrow> satisfies P now' c"
  using get_earlier unfolding satisfies_def by blast

lemma satisfies_set: "satisfies P now c \<Longrightarrow> P k v \<Longrightarrow> satisfies P now (set_entry now ttl k v c)"
  unfolding satisfies_def by (metis get_set_cases get_set_other)

lemma satisfies_del: "satisfies P now c \<Longrightarrow> satisfies P now (del k c)"
  unfolding satisfies_def by (metis get_del_other get_del_same option.distinct(1))

lemma satisfies_get: "satisfies P now c \<Longrightarrow> get now c k = Some v \<Longrightarrow> P k v"
  unfolding satisfies_def by blast

lemma read_through_sound:
  assumes "satisfies P now c" and "\<And>v. load k = Some v \<Longrightarrow> P k v"
  shows "(\<forall>v. fst (read_through now ttl load k c) = Some v \<longrightarrow> P k v) \<and>
         satisfies P now (snd (read_through now ttl load k c))"
  using assms satisfies_get satisfies_set
  by (auto simp: read_through_def split: option.splits)

lemma read_after_del: "fst (read_through now ttl load k (del k c)) = load k"
  by (simp add: read_through_def get_del_same split: option.splits)

lemma read_again:
  assumes "0 < ttl" and "fst (read_through now ttl load k c) = Some v"
  shows "get now (snd (read_through now ttl load k c)) k = Some v"
  using assms by (auto simp: read_through_def get_set_same split: option.splits)

end

interpretation mgr: cache_store cache_get cache_set cache_del
  by unfold_locales (auto simp: cache_get_def cache_set_def cache_del_def split: option.splits if_splits)

lemma mgr_satisfies_empty: "mgr.satisfies P now Map.empty"
  unfolding mgr.satisfies_def by (simp add: cache_get_def)

end
