(* ===== verification/Reputation.thy ===== *)
theory Reputation imports Schema CacheStore begin

text \<open>
  The reputation service (\<open>modules/reputation/reputation.service.ts\<close>): a score is read from the
  Redis cache, else from the \<open>reputation_cache\<close> table if it was synced less than an hour ago,
  else from the contract, and written back to both caches. Any exception on the way answers
  with score 0.
\<close>

record Reputation =
  rep_wallet :: string
  rep_score :: int
  rep_tier :: tier
  rep_rate :: int
  rep_limit :: int
  rep_updated :: int

record RepCacheRow =
  rc_user :: string
  rc_wallet :: string
  rc_score :: int
  rc_tier :: tier
  rc_synced :: int

record rep_state =
  rep_hot :: "(string, Reputation) cache"
  rep_rows :: "RepCacheRow list"
  rep_users :: "UserRow list"

text \<open>What a call depends on: the clock, the time-to-live, the contract client, and faults.\<close>

record rep_env =
  re_now :: int
  re_ttl :: int
  re_chain :: "string \<Rightarrow> exn + int option"
  re_faults :: faults
  re_redis_down :: "string \<Rightarrow> bool"

definition mapToReputation :: "string \<Rightarrow> int \<Rightarrow> int \<Rightarrow> Reputation" where
  "mapToReputation wallet score updated =
     (let t = (case find (\<lambda>t. minScore t \<le> clamp_score score) CREDIT_TIERS of
                 Some t \<Rightarrow> t | None \<Rightarrow> last CREDIT_TIERS)
      in \<lparr>rep_wallet = wallet, rep_score = score, rep_tier = tier_name t, rep_rate = interestRate t,
          rep_limit = maxCredit t, rep_updated = updated\<rparr>)"

definition fetchScoreFromBlockchain :: "rep_env \<Rightarrow> string \<Rightarrow> int" where
  "fetchScoreFromBlockchain env wallet =
     (case re_chain env wallet of Inr (Some s) \<Rightarrow> s | Inr None \<Rightarrow> 0 | Inl _ \<Rightarrow> 0)"

text \<open>\<open>upsert(..., onConflict: user_id)\<close>: replace the user's row or add one.\<close>

definition upsert_rep :: "RepCacheRow \<Rightarrow> RepCacheRow list \<Rightarrow> RepCacheRow list" where
  "upsert_rep r rows =
     (if \<exists>x \<in> set rows. rc_user x = rc_user r
      then update_where (\<lambda>x. rc_user x = rc_user r) (\<lambda>_. r) rows else rows @ [r])"

definition persistReputation :: "rep_env \<Rightarrow> Reputation \<Rightarrow> rep_state \<Rightarrow> rep_state" where
  "persistReputation env r st =
     (if re_redis_down env ''set'' then st
      else
        let st1 = st\<lparr>rep_hot := cache_set (re_now env) (re_ttl env) (rep_wallet r) r (rep_hot st)\<rparr>
        in case with_fault (re_faults env ''users.select'')
                  (single (filter (\<lambda>u. user_wallet u = rep_wallet r) (rep_users st))) of
             Inl _ \<Rightarrow> st1
           | Inr u \<Rightarrow>
               (case re_faults env ''reputation_cache.upsert'' of
                  Some _ \<Rightarrow> st1
                | None \<Rightarrow>
                    st1\<lparr>rep_rows := upsert_rep \<lparr>rc_user = user_pk u, rc_wallet = rep_wallet r,
                          rc_score = rep_score r, rc_tier = rep_tier r, rc_synced = rep_updated r\<rparr>
                          (rep_rows st)\<rparr>))"

definition fresh_minutes :: "rep_env \<Rightarrow> RepCacheRow \<Rightarrow> bool" where
  "fresh_minutes env row = (jdiv (of_int (re_now env - rc_synced row)) (of_int (1000 * 60)) < 60)"

definition getReputationScore :: "rep_env \<Rightarrow> string \<Rightarrow> rep_state \<Rightarrow> Reputation \<times> rep_state" where
  "getReputationScore env wallet st =
     (let fallback = (mapToReputation wallet 0 (re_now env), st);
          from_chain =
            (let r = mapToReputation wallet (fetchScoreFromBlockchain env wallet) (re_now env)
             in (r, persistReputation env r st))
      in if re_redis_down env ''get'' then fallback
         else case cache_get (re_now env) (rep_hot st) wallet of
           Some r \<Rightarrow> (r, st)
         | None \<Rightarrow>
             (case with_fault (re_faults env ''reputation_cache.select'')
                     (single (filter (\<lambda>x. rc_wallet x = wallet) (rep_rows st))) of
                Inl _ \<Rightarrow> from_chain
              | Inr row \<Rightarrow>
                  if fresh_minutes env row
                  then if re_redis_down env ''set'' then fallback
                       else let r = mapToReputation wallet (rc_score row) (rc_synced row)
                            in (r, st\<lparr>rep_hot := cache_set (re_now env) (re_ttl env) wallet r (rep_hot st)\<rparr>)
                  else from_chain))"

definition invalidateReputation :: "rep_env \<Rightarrow> string \<Rightarrow> rep_state \<Rightarrow> rep_state" where
  "invalidateReputation env wallet st =
     (if re_redis_down env ''del'' then st
      else let st1 = st\<lparr>rep_hot := cache_del wallet (rep_hot st)\<rparr>
           in case re_faults env ''reputation_cache.delete'' of
                Some _ \<Rightarrow> st1
              | None \<Rightarrow> st1\<lparr>rep_rows := delete_where (\<lambda>x. rc_wallet x = wallet) (rep_rows st)\<rparr>)"

section \<open>Terms of a reputation\<close>

lemma mapToReputation_fields [simp]:
  "rep_wallet (mapToReputation w s u) = w" "rep_score (mapToReputation w s u) = s"
  "rep_updated (mapToReputation w s u) = u"
  "rep_rate (mapToReputation w s u) = tier_rate s" "rep_limit (mapToReputation w s u) = tier_limit s"
  "rep_tier (mapToReputation w s u) = fst (resolveTier s)"
  by (simp_all add: mapToReputation_def Let_def tier_rate_def tier_limit_def resolveTier_def
      CREDIT_TIERS_def)

interpretation reputation_tiers:
  tier_policy "\<lambda>s. rep_rate (mapToReputation w s u)" "\<lambda>s. rep_limit (mapToReputation w s u)"
  for w u
  using scoring_tiers.tier_policy_axioms by simp

text \<open>A reputation is well formed for a wallet when its terms are those of its score.\<close>

definition rep_wf :: "string \<Rightarrow> Reputation \<Rightarrow> bool" where
  "rep_wf wallet r \<longleftrightarrow> rep_wallet r = wallet \<and>
     (rep_tier r, rep_rate r, rep_limit r) = resolveTier (rep_score r)"

lemma rep_wf_map [simp]: "rep_wf w (mapToReputation w s u)"
  by (simp add: rep_wf_def tier_rate_def tier_limit_def)

abbreviation rep_inv :: "int \<Rightarrow> rep_state \<Rightarrow> bool" where
  "rep_inv now st \<equiv> mgr.satisfies rep_wf now (rep_hot st)"

lemma persist_inv: "rep_inv (re_now env) st \<Longrightarrow> rep_wf (rep_wallet r) r \<Longrightarrow> rep_inv (re_now env) (persistReputation env r st)"
  by (auto simp: persistReputation_def Let_def mgr.satisfies_set split: sum.splits option.splits)

lemma getReputation_wf:
  assumes "rep_inv (re_now env) st"
  shows "rep_wf wallet (fst (getReputationScore env wallet st)) \<and>
         rep_inv (re_now env) (snd (getReputationScore env wallet st))"
  using assms mgr.satisfies_get [OF assms] persist_inv [OF assms]
  by (auto simp: getReputationScore_def Let_def mgr.satisfies_set split: option.splits sum.splits)

section \<open>Sequences of calls\<close>

text \<open>
  The states the service reaches from an empty hot cache, with a clock that does not run
  backwards and a fixed time-to-live, while the cache may evict any entry and other writers
  change the tables at will.
\<close>

inductive rep_reach :: "int \<Rightarrow> int \<Rightarrow> rep_state \<Rightarrow> bool" for ttl where
  start: "rep_hot st = Map.empty \<Longrightarrow> rep_reach ttl now st"
| get: "rep_reach ttl t st \<Longrightarrow> t \<le> re_now env \<Longrightarrow> re_ttl env = ttl \<Longrightarrow>
        rep_reach ttl (re_now env) (snd (getReputationScore env wallet st))"
| invalidate: "rep_reach ttl t st \<Longrightarrow> t \<le> re_now env \<Longrightarrow>
        rep_reach ttl (re_now env) (invalidateReputation env wallet st)"
| evict: "rep_reach ttl t st \<Longrightarrow> rep_reach ttl t (st\<lparr>rep_hot := cache_del k (rep_hot st)\<rparr>)"
| tables: "rep_reach ttl t st \<Longrightarrow> t \<le> t' \<Longrightarrow> rep_reach ttl t' (st\<lparr>rep_rows := rows, rep_users := us\<rparr>)"

definition aged :: "int \<Rightarrow> rep_state \<Rightarrow> bool" where
  "aged ttl st \<longleftrightarrow> (\<forall>k v e. rep_hot st k = Some (v, e) \<longrightarrow> e - rep_updated v < 3600000 + ttl)"

lemma fresh_bound: "fresh_minutes env row \<Longrightarrow> re_now env - rc_synced row < 3600000"
proof (rule ccontr)
  assume f: "fresh_minutes env row" and "\<not> re_now env - rc_synced row < 3600000"
  then have "(of_int 3600000 :: num) \<le> of_int (re_now env - rc_synced row)"
    by (simp only: of_int_le_iff)
  then have "fl 60 \<le> fl (of_int (re_now env - rc_synced row) / of_int (1000 * 60))"
    by (intro fl_mono) simp
  moreover have "fl 60 = 60" using fl_of_int [of 60] by simp
  ultimately show False using f unfolding fresh_minutes_def jdiv_def by linarith
qed

lemma aged_set: "aged ttl st \<Longrightarrow> now - rep_updated r < 3600000 \<Longrightarrow>
    aged ttl (st\<lparr>rep_hot := cache_set now ttl k r (rep_hot st)\<rparr>)"
  unfolding aged_def cache_set_def by auto

lemma aged_rows [simp]: "aged ttl (st\<lparr>rep_rows := rows\<rparr>) = aged ttl st"
  "aged ttl (st\<lparr>rep_users := us\<rparr>) = aged ttl st"
  by (simp_all add: aged_def)

lemma aged_del: "aged ttl st \<Longrightarrow> aged ttl (st\<lparr>rep_hot := cache_del k (rep_hot st)\<rparr>)"
  unfolding aged_def cache_del_def by auto

lemma aged_get:
  assumes "aged (re_ttl env) st"
  shows "aged (re_ttl env) (snd (getReputationScore env wallet st)) \<and>
         (0 \<le> re_ttl env \<longrightarrow>
          re_now env - rep_updated (fst (getReputationScore env wallet st)) < 3600000 + re_ttl env)"
proof -
  have hit: "re_now env - rep_updated r < 3600000 + re_ttl env"
    if "cache_get (re_now env) (rep_hot st) wallet = Some r" for r
    using that assms unfolding aged_def cache_get_def
    by (auto split: option.splits if_splits) (smt (verit))
  have p: "aged (re_ttl env) (persistReputation env r st)" if "rep_updated r = re_now env" for r
    using aged_set [OF assms, of "re_now env" r] that assms
    by (auto simp: persistReputation_def Let_def split: sum.splits option.splits)
  have s: "aged (re_ttl env) (st\<lparr>rep_hot := cache_set (re_now env) (re_ttl env) wallet
      (mapToReputation wallet (rc_score row) (rc_synced row)) (rep_hot st)\<rparr>)" if "fresh_minutes env row" for row
    using aged_set [OF assms, of "re_now env" "mapToReputation wallet (rc_score row) (rc_synced row)"]
      fresh_bound [OF that] by simp
  show ?thesis
    using assms hit p s fresh_bound
    by (auto simp: getReputationScore_def Let_def split: option.splits sum.splits) (smt (verit))+
qed

lemma rep_reach_inv: "rep_reach ttl now st \<Longrightarrow> rep_inv now st \<and> aged ttl st"
proof (induction rule: rep_reach.induct)
  case (start st now)
  then show ?case by (simp add: mgr_satisfies_empty aged_def)
next
  case (get t st env wallet)
  then show ?case
    using getReputation_wf [of env st wallet] aged_get [of env st wallet] mgr.satisfies_later by blast
next
  case (invalidate t st env wallet)
  then have "rep_inv (re_now env) st" using mgr.satisfies_later by blast
  with invalidate show ?case
    by (auto simp: invalidateReputation_def Let_def mgr.satisfies_del aged_del split: option.splits)
next
  case (evict t st k)
  then show ?case by (simp add: mgr.satisfies_del aged_del)
next
  case (tables t st t' rows us)
  then show ?case using mgr.satisfies_later by (auto simp: aged_def)
qed

section \<open>Properties\<close>

text \<open>C18: However calls to read and to invalidate scores interleave, and whatever other writers do
  to the tables, every reputation the service answers with belongs to the wallet asked for,
  carries the tier, rate and limit of exactly its own score, and is at most an hour plus the
  cache's time-to-live old.\<close>

theorem reputation_answers:
  assumes "rep_reach ttl t st" and "t \<le> re_now env" and "re_ttl env = ttl" and "0 \<le> ttl"
  shows "rep_wf wallet (fst (getReputationScore env wallet st)) \<and>
         re_now env - rep_updated (fst (getReputationScore env wallet st)) < 3600000 + ttl"
proof -
  have "rep_inv (re_now env) st" "aged ttl st"
    using rep_reach_inv [OF assms(1)] mgr.satisfies_later [OF _ assms(2)] by blast+
  with getReputation_wf aged_get assms show ?thesis by blast
qed

definition demo_env :: rep_env where
  "demo_env = \<lparr>re_now = 1000, re_ttl = 300, re_chain = (\<lambda>_. Inr (Some 80)), re_faults = no_faults,
     re_redis_down = (\<lambda>_. False)\<rparr>"

theorem reputation_answers_witness:
  "rep_wf ''GA'' (fst (getReputationScore demo_env ''GA'' \<lparr>rep_hot = Map.empty, rep_rows = [], rep_users = []\<rparr>)) \<and>
   re_now demo_env - rep_updated (fst (getReputationScore demo_env ''GA''
      \<lparr>rep_hot = Map.empty, rep_rows = [], rep_users = []\<rparr>)) < 3600000 + 300"
  by (rule reputation_answers [OF rep_reach.start [where now = 0]]) (simp_all add: demo_env_def)

text \<open>Losing the infrastructure never raises a credit limit: with Redis down, or with both
  caches empty and the contract failing, the answer is score 0 with the starter terms.\<close>

theorem reputation_fails_low:
  "(re_redis_down env ''get'' \<longrightarrow> rep_score (fst (getReputationScore env wallet st)) = 0) \<and>
   (cache_get (re_now env) (rep_hot st) wallet = None \<and>
    filter (\<lambda>x. rc_wallet x = wallet) (rep_rows st) = [] \<and> (\<exists>e. re_chain env wallet = Inl e) \<longrightarrow>
      rep_score (fst (getReputationScore env wallet st)) = 0 \<and>
      rep_limit (fst (getReputationScore env wallet st)) = 1000)"
  by (auto simp: getReputationScore_def Let_def single_def with_fault_def fetchScoreFromBlockchain_def
      tier_limit_def resolveTier_eq split: option.splits)

theorem reputation_fails_low_witness:
  "rep_score (fst (getReputationScore (demo_env\<lparr>re_chain := (\<lambda>_. Inl (JsError ''rpc''))\<rparr>) ''GA''
     \<lparr>rep_hot = Map.empty, rep_rows = [], rep_users = []\<rparr>)) = 0"
  using reputation_fails_low [of "demo_env\<lparr>re_chain := (\<lambda>_. Inl (JsError ''rpc''))\<rparr>" "''GA''"
     "\<lparr>rep_hot = Map.empty, rep_rows = [], rep_users = []\<rparr>"]
  by (simp add: cache_get_def)

end
