(* ===== verification/Contracts.thy ===== *)
theory Contracts imports Schema begin

text \<open>
  The clients of the deployed contracts (\<open>stellar/contracts/clients\<close>): which invocation each one
  builds, how it reads a value, and how its errors are classified. The Soroban RPC server and
  the Stellar SDK are a parameter, the record \<open>soroban\<close>: simulating a read answers with the
  native value or the message of the error it throws.
\<close>

section \<open>Soroban\<close>

text \<open>Contract arguments, and the native JavaScript values \<open>scValToNative\<close> makes of results.\<close>

datatype scval = ScString string | ScAddress string | ScI128 int | ScU32 int

datatype native = NBig int | NNum int | NStr string | NBool bool | NNull
  | NMap "(string \<times> native) list"

record invocation =
  inv_source :: string
  inv_contract :: string
  inv_fn :: string
  inv_args :: "scval list"

text \<open>
  \<open>sim_tx\<close> is \<open>simulateTransaction\<close> of a built transaction: it throws (\<open>Inl\<close> the message),
  reports a simulation error (\<open>Inr (Some e)\<close>) or succeeds; \<open>assemble\<close> is
  \<open>assembleTransaction(...).build().toXDR()\<close> and \<open>prepare\<close> \<open>prepareTransaction(...)\<close>, either of
  which may throw; \<open>random_key\<close> is the public key of \<open>Keypair.random()\<close>.
\<close>

record soroban =
  simulate :: "string \<Rightarrow> string \<Rightarrow> scval list \<Rightarrow> string + native"
  address_ok :: "string \<Rightarrow> bool"
  get_account :: "string \<Rightarrow> bool"
  sim_tx :: "invocation \<Rightarrow> string + string option"
  assemble :: "invocation \<Rightarrow> string + string"
  prepare :: "invocation \<Rightarrow> string + string"
  random_key :: string

text \<open>\<open>errors.ts\<close>: every contract error is a 503.\<close>

abbreviation not_configured :: exn where "not_configured \<equiv> unavailable ''BLOCKCHAIN_CONTRACT_NOT_CONFIGURED''"
abbreviation simulation_failed :: exn where "simulation_failed \<equiv> unavailable ''BLOCKCHAIN_SIMULATION_FAILED''"
abbreviation read_failed :: exn where "read_failed \<equiv> unavailable ''BLOCKCHAIN_CONTRACT_READ_FAILED''"
abbreviation tx_build_failed :: exn where "tx_build_failed \<equiv> unavailable ''BLOCKCHAIN_TX_BUILD_FAILED''"

definition ensureConfigured :: "string \<Rightarrow> unit result" where
  "ensureConfigured cid = ensure (cid \<noteq> []) not_configured"

text \<open>Dollars to the contract's 7-decimal integers: \<open>BigInt(Math.round(v * 10_000_000))\<close>.\<close>

definition toContractAmount :: "num \<Rightarrow> int" where
  "toContractAmount v = \<lfloor>math_round (jmul v 10000000)\<rfloor>"

text \<open>\<open>Number(v)\<close> of a contract integer; of anything else it is not a number (\<open>None\<close>).\<close>

definition number_of :: "native \<Rightarrow> int option" where
  "number_of v = (case v of NBig i \<Rightarrow> Some \<lfloor>fl (of_int i)\<rfloor> | NNum i \<Rightarrow> Some i
     | NBool b \<Rightarrow> Some (if b then 1 else 0) | NNull \<Rightarrow> Some 0 | _ \<Rightarrow> None)"

text \<open>\<open>String(v)\<close>.\<close>

definition native_text :: "native \<Rightarrow> string" where
  "native_text v = (case v of NStr s \<Rightarrow> s
     | NBig i \<Rightarrow> (if i < 0 then ''-'' else []) @ decimal (nat \<bar>i\<bar>)
     | NNum i \<Rightarrow> (if i < 0 then ''-'' else []) @ decimal (nat \<bar>i\<bar>)
     | NBool b \<Rightarrow> (if b then ''true'' else ''false'') | NNull \<Rightarrow> ''null'' | NMap _ \<Rightarrow> ''[object Object]'')"

definition contract_missing :: "string \<Rightarrow> bool" where
  "contract_missing msg \<longleftrightarrow> str_includes msg ''HostError'' \<or> str_includes msg ''Status(ContractError''"

section \<open>Reputation contract\<close>

text \<open>\<open>Inr None\<close> is \<open>null\<close>: no score on chain, also when the contract itself reports an error.\<close>

definition getScore :: "soroban \<Rightarrow> string \<Rightarrow> string \<Rightarrow> exn + int option" where
  "getScore sb cid wallet =
     andThen (ensureConfigured cid) (\<lambda>_.
       if \<not> address_ok sb wallet then Inl (JsError ''Unsupported address type'')
       else case simulate sb cid ''get_score'' [ScAddress wallet] of
         Inl msg \<Rightarrow> if contract_missing msg then Inr None else Inl read_failed
       | Inr NNull \<Rightarrow> Inr None
       | Inr v \<Rightarrow> Inr (number_of v))"

section \<open>Parameters contract\<close>

text \<open>\<open>None\<close> stands for a value \<open>Number\<close> turns into NaN.\<close>

record ProtocolParameters =
  interestRateBps :: "int option"
  gracePeriod :: "int option"
  minReputation :: "int option"

text \<open>\<open>raw[k] ?? d\<close>: the default replaces a missing or null field.\<close>

definition field_or :: "native \<Rightarrow> native \<Rightarrow> string \<Rightarrow> native" where
  "field_or d v k = (case v of
      NMap m \<Rightarrow> (case map_of m k of Some NNull \<Rightarrow> d | Some x \<Rightarrow> x | None \<Rightarrow> d) | _ \<Rightarrow> d)"

definition getAllParameters :: "soroban \<Rightarrow> string \<Rightarrow> ProtocolParameters result" where
  "getAllParameters sb cid =
     andThen (ensureConfigured cid) (\<lambda>_.
       case simulate sb cid ''get_all_parameters'' [] of
         Inl msg \<Rightarrow> Inl read_failed
       | Inr NNull \<Rightarrow> Inl read_failed
       | Inr raw \<Rightarrow> Inr \<lparr>interestRateBps = number_of (field_or (NNum 0) raw ''interest_rate_bps''),
           gracePeriod = number_of (field_or (NNum 0) raw ''grace_period''),
           minReputation = number_of (field_or (NNum 0) raw ''min_reputation'')\<rparr>)"

definition readU32 :: "soroban \<Rightarrow> string \<Rightarrow> string \<Rightarrow> exn + int option" where
  "readU32 sb cid meth =
     andThen (ensureConfigured cid) (\<lambda>_.
       case simulate sb cid meth [] of Inl msg \<Rightarrow> Inl read_failed | Inr v \<Rightarrow> Inr (number_of v))"

definition getInterestRateBps :: "soroban \<Rightarrow> string \<Rightarrow> exn + int option" where
  "getInterestRateBps sb cid = readU32 sb cid ''get_interest_rate_bps''"

definition getGracePeriod :: "soroban \<Rightarrow> string \<Rightarrow> exn + int option" where
  "getGracePeriod sb cid = readU32 sb cid ''get_grace_period''"

definition getMinReputation :: "soroban \<Rightarrow> string \<Rightarrow> exn + int option" where
  "getMinReputation sb cid = readU32 sb cid ''get_min_reputation''"

section \<open>Credit line contract\<close>

record CreateLoanParams =
  clp_loanId :: string
  clp_vendorId :: string
  clp_amount :: num
  clp_loanAmount :: num
  clp_guarantee :: num
  clp_interestRate :: int
  clp_term :: nat

definition create_loan_invocation :: "string \<Rightarrow> string \<Rightarrow> CreateLoanParams \<Rightarrow> invocation" where
  "create_loan_invocation cid borrower p =
     \<lparr>inv_source = borrower, inv_contract = cid, inv_fn = ''create_loan'',
      inv_args = [ScString (clp_loanId p), ScString (clp_vendorId p),
        ScI128 (toContractAmount (clp_amount p)), ScI128 (toContractAmount (clp_loanAmount p)),
        ScI128 (toContractAmount (clp_guarantee p)), ScU32 (clp_interestRate p),
        ScU32 (int (clp_term p))]\<rparr>"

definition buildCreateLoanTransaction :: "soroban \<Rightarrow> string \<Rightarrow> string \<Rightarrow> CreateLoanParams \<Rightarrow> string result" where
  "buildCreateLoanTransaction sb cid borrower p =
     andThen (ensureConfigured cid) (\<lambda>_.
       if \<not> get_account sb borrower then Inl (JsError ''Account not found'')
       else case prepare sb (create_loan_invocation cid borrower p) of
         Inl msg \<Rightarrow> Inl (JsError msg) | Inr xdr \<Rightarrow> Inr xdr)"

definition repay_invocation :: "string \<Rightarrow> string \<Rightarrow> string \<Rightarrow> string \<Rightarrow> num \<Rightarrow> invocation" where
  "repay_invocation cid source wallet loanId amt =
     \<lparr>inv_source = source, inv_contract = cid, inv_fn = ''repay_installment'',
      inv_args = [ScAddress wallet, ScString loanId, ScI128 (toContractAmount amt)]\<rparr>"

definition buildRepayLoanTx :: "soroban \<Rightarrow> string \<Rightarrow> string \<Rightarrow> string \<Rightarrow> num \<Rightarrow> string result" where
  "buildRepayLoanTx sb cid wallet loanId amt =
     andThen (ensureConfigured cid) (\<lambda>_.
       if \<not> address_ok sb wallet then Inl tx_build_failed
       else case prepare sb (repay_invocation cid (random_key sb) wallet loanId amt) of
         Inl msg \<Rightarrow> Inl tx_build_failed | Inr xdr \<Rightarrow> Inr xdr)"

section \<open>Vendor registry contract\<close>

record VendorInfo =
  vi_id :: string
  vi_name :: string
  vi_active :: bool

text \<open>\<open>Boolean(v)\<close>.\<close>

definition truthy :: "native \<Rightarrow> bool" where
  "truthy v = (case v of NBig i \<Rightarrow> i \<noteq> 0 | NNum i \<Rightarrow> i \<noteq> 0 | NStr s \<Rightarrow> s \<noteq> [] | NBool b \<Rightarrow> b
     | NNull \<Rightarrow> False | NMap _ \<Rightarrow> True)"

definition isVendorActive :: "soroban \<Rightarrow> string \<Rightarrow> string \<Rightarrow> bool result" where
  "isVendorActive sb cid vendorId =
     andThen (ensureConfigured cid) (\<lambda>_.
       case simulate sb cid ''is_vendor_active'' [ScString vendorId] of
         Inr v \<Rightarrow> Inr (truthy v)
       | Inl _ \<Rightarrow> (case simulate sb cid ''is_active'' [ScString vendorId] of
                    Inr v \<Rightarrow> Inr (truthy v) | Inl _ \<Rightarrow> Inl read_failed))"

definition getVendor_c :: "soroban \<Rightarrow> string \<Rightarrow> string \<Rightarrow> VendorInfo option result" where
  "getVendor_c sb cid vendorId =
     andThen (ensureConfigured cid) (\<lambda>_.
       case simulate sb cid ''get_vendor'' [ScString vendorId] of
         Inl msg \<Rightarrow> if contract_missing msg then Inr None else Inl read_failed
       | Inr raw \<Rightarrow>
           if \<not> truthy raw then Inr None
           else Inr (Some \<lparr>vi_id = native_text (field_or (field_or (NStr []) raw ''vendor_id'') raw ''id''),
                  vi_name = native_text (field_or (NStr []) raw ''name''),
                  vi_active = truthy (field_or (field_or (NBool False) raw ''is_active'') raw ''active'')\<rparr>))"

text \<open>
  \<open>approve_vendor\<close> and \<open>suspend_vendor\<close> are built, simulated and assembled the same way: a
  simulation error keeps its own code, anything else thrown on the way is a build failure.
\<close>

definition vendor_invocation :: "string \<Rightarrow> string \<Rightarrow> string \<Rightarrow> string \<Rightarrow> string \<Rightarrow> invocation" where
  "vendor_invocation cid source fn admin vendor =
     \<lparr>inv_source = source, inv_contract = cid, inv_fn = fn, inv_args = [ScAddress admin, ScString vendor]\<rparr>"

definition build_simulated :: "soroban \<Rightarrow> invocation \<Rightarrow> string result" where
  "build_simulated sb iv =
     (case sim_tx sb iv of
        Inl _ \<Rightarrow> Inl tx_build_failed
      | Inr (Some _) \<Rightarrow> Inl simulation_failed
      | Inr None \<Rightarrow> (case assemble sb iv of Inl _ \<Rightarrow> Inl tx_build_failed | Inr xdr \<Rightarrow> Inr xdr))"

definition buildApproveVendorXdr :: "soroban \<Rightarrow> string \<Rightarrow> string \<Rightarrow> string \<Rightarrow> string result" where
  "buildApproveVendorXdr sb cid admin vendor =
     andThen (ensureConfigured cid) (\<lambda>_.
       if \<not> address_ok sb admin then Inl tx_build_failed
       else build_simulated sb (vendor_invocation cid (random_key sb) ''approve_vendor'' admin vendor))"

definition buildSuspendVendorXdr :: "soroban \<Rightarrow> string \<Rightarrow> string \<Rightarrow> string \<Rightarrow> string result" where
  "buildSuspendVendorXdr sb cid admin vendor =
     andThen (ensureConfigured cid) (\<lambda>_.
       if \<not> address_ok sb admin then Inl tx_build_failed
       else build_simulated sb (vendor_invocation cid (random_key sb) ''suspend_vendor'' admin vendor))"

section \<open>Amounts on the wire\<close>

text \<open>A whole number of cents is converted to the contract's unit without loss.\<close>

lemma toContractAmount_cents_gen:
  assumes "\<bar>c\<bar> \<le> 10 ^ 7"
  shows "toContractAmount (cents c) = c * 100000"
proof -
  have "\<bar>rat_of_int c\<bar> \<le> 10 ^ 7"
    using assms by (metis of_int_abs of_int_le_iff of_int_numeral of_int_power)
  then have cr: "\<bar>rat_of_int c / 100\<bar> \<le> 10 ^ 5" by simp
  from fl_bound [OF this] have e: "\<bar>cents c - of_int c / 100\<bar> \<le> 10 ^ 5 / 2 ^ 53" by (simp only: cents_def)
  have "\<bar>cents c * 10000000 - of_int (c * 100000)\<bar> \<le> 10 ^ 12 / 2 ^ 53"
    using e unfolding abs_le_iff of_int_mult by simp
  moreover have "\<bar>rat_of_int (c * 100000)\<bar> \<le> 10 ^ 12" using cr by simp
  ultimately have "\<bar>fl (cents c * 10000000) - of_int (c * 100000)\<bar> \<le> 10 ^ 12 / 2 ^ 53 + (10 ^ 12 + 1) / 2 ^ 53"
    by (intro fl_close) simp_all
  also have "\<dots> < 1 / 2" by simp
  finally have "math_round (jmul (cents c) 10000000) = of_int (c * 100000)"
    unfolding jmul_def by (rule math_round_near)
  then show ?thesis unfolding toContractAmount_def by (simp del: of_int_mult)
qed

section \<open>Properties\<close>

text \<open>The amounts of a loan reach the contract exactly: for amounts that are whole cents (up to
  100,000 dollars), the \<open>create_loan\<close> call carries exactly 100,000 contract units per cent for
  each amount, whatever the binary rounding of the dollar values, and is sent by the
  borrower's own account.\<close>

theorem create_loan_amounts_exact:
  assumes "\<bar>c\<bar> \<le> 10 ^ 7" and "\<bar>l\<bar> \<le> 10 ^ 7" and "\<bar>g\<bar> \<le> 10 ^ 7"
  shows "inv_args (create_loan_invocation cid wallet
           \<lparr>clp_loanId = i, clp_vendorId = v, clp_amount = cents c, clp_loanAmount = cents l,
            clp_guarantee = cents g, clp_interestRate = r, clp_term = t\<rparr>) =
         [ScString i, ScString v, ScI128 (c * 100000), ScI128 (l * 100000), ScI128 (g * 100000),
          ScU32 r, ScU32 (int t)] \<and>
         inv_source (create_loan_invocation cid wallet
           \<lparr>clp_loanId = i, clp_vendorId = v, clp_amount = cents c, clp_loanAmount = cents l,
            clp_guarantee = cents g, clp_interestRate = r, clp_term = t\<rparr>) = wallet"
  using assms by (simp add: create_loan_invocation_def toContractAmount_cents_gen)

theorem create_loan_amounts_exact_witness:
  "inv_args (create_loan_invocation ''CC'' ''GA''
     \<lparr>clp_loanId = ''l'', clp_vendorId = ''v'', clp_amount = cents 12345, clp_loanAmount = cents 9876,
      clp_guarantee = cents 2469, clp_interestRate = 8, clp_term = 4\<rparr>) =
   [ScString ''l'', ScString ''v'', ScI128 (12345 * 100000), ScI128 (9876 * 100000), ScI128 (2469 * 100000),
    ScU32 8, ScU32 (int 4)] \<and>
   inv_source (create_loan_invocation ''CC'' ''GA''
     \<lparr>clp_loanId = ''l'', clp_vendorId = ''v'', clp_amount = cents 12345, clp_loanAmount = cents 9876,
      clp_guarantee = cents 2469, clp_interestRate = 8, clp_term = 4\<rparr>) = ''GA''"
  by (rule create_loan_amounts_exact) simp_all

end
