(* ===== verification/Pagination.thy ===== *)
theory Pagination imports Binary64 begin

text \<open>
  Paged queries: \<open>.range(offset, offset + limit - 1)\<close> with \<open>count: 'exact'\<close>, as the lists of loans,
  payments, notifications and audit records use it, and the contract that walking the pages
  visits every row exactly once.
\<close>

definition out_of_range :: db_error where
  "out_of_range = \<lparr>err_code = ''PGRST103'', err_message = ''Requested range not satisfiable''\<rparr>"

text \<open>
  The client sends \<open>offset\<close> and \<open>limit\<close>; PostgREST refuses negative ones, and an offset beyond the
  counted rows.
\<close>

definition range_query :: "int \<Rightarrow> int \<Rightarrow> 'r list \<Rightarrow> db_error + 'r list" where
  "range_query offset limit rows =
     (if offset < 0 \<or> limit < 0 \<or> int (length rows) < offset then Inl out_of_range
      else Inr (take (nat limit) (drop (nat offset) rows)))"

text \<open>\<open>limit > 0 ? Math.ceil(total / limit) : 0\<close>.\<close>

definition page_count :: "nat \<Rightarrow> int \<Rightarrow> int" where
  "page_count count limit = (if 0 < limit then \<lceil>jdiv (of_nat count) (of_int limit)\<rceil> else 0)"

lemma range_query_page: "k * n \<le> length rows \<Longrightarrow> range_query (int (k * n)) (int n) rows = Inr (take n (drop (k * n) rows))"
  by (simp add: range_query_def del: of_nat_mult)

lemma range_query_beyond: "length rows < k * n \<Longrightarrow> range_query (int (k * n)) (int n) rows = Inl out_of_range"
  by (simp add: range_query_def del: of_nat_mult)

lemma ceiling_fl:
  assumes "0 \<le> q" "q \<le> b" and "q \<le> of_int c" and "of_int c - 1 + d \<le> q" and "b / 2 ^ 53 < d" and "\<bar>c\<bar> \<le> 2 ^ 53"
  shows "\<lceil>fl q\<rceil> = c"
proof (rule ceiling_unique)
  have "\<bar>fl q - q\<bar> \<le> b / 2 ^ 53" using assms(1,2) by (intro fl_bound) simp
  then show "of_int c - 1 < fl q" using assms(4,5) unfolding abs_le_iff by linarith
  show "fl q \<le> of_int c"
    using fl_mono [OF assms(3)] assms(6) by (simp add: fl_of_int)
qed

text \<open>Rounding the quotient to a double does not change its ceiling.\<close>

lemma page_count_exact:
  assumes "count \<le> 10 ^ 9" and "0 < n" and "n \<le> 10 ^ 6"
  shows "page_count count (int n) = int ((count + n - 1) div n)"
proof -
  define c where "c = (count + n - 1) div n"
  have n: "0 < rat_of_nat n" "rat_of_nat n \<le> 10 ^ 6"
    using assms(2,3) of_nat_le_iff [where 'a = rat, of n "10 ^ 6"] by simp_all
  have cnt: "rat_of_nat count \<le> 10 ^ 9" using assms(1) of_nat_le_iff [where 'a = rat, of count "10 ^ 9"] by simp
  have "c * n + (count + n - 1) mod n = count + n - 1" by (simp add: c_def)
  moreover have "(count + n - 1) mod n < n" using assms(2) by simp
  ultimately have "count \<le> c * n" and "c * n + 1 \<le> count + n" using assms(2) by linarith+
  then have "rat_of_nat count \<le> rat_of_nat (c * n)" and "rat_of_nat (c * n + 1) \<le> rat_of_nat (count + n)"
    unfolding of_nat_le_iff .
  then have e: "rat_of_nat count \<le> rat_of_nat c * rat_of_nat n" "(rat_of_nat c - 1 + 1 / rat_of_nat n) * rat_of_nat n \<le> rat_of_nat count"
    using n(1) by (simp_all add: algebra_simps)
  have "\<lceil>fl (rat_of_nat count / rat_of_nat n)\<rceil> = int c"
  proof (rule ceiling_fl [where b = "10 ^ 9" and d = "1 / rat_of_nat n"])
    have "1 \<le> rat_of_nat n" using assms(2) by simp
    then have "10 ^ 9 * 1 \<le> 10 ^ 9 * rat_of_nat n" by simp
    with cnt show "rat_of_nat count / rat_of_nat n \<le> 10 ^ 9" unfolding pos_divide_le_eq [OF n(1)] by linarith
    have "c \<le> count + n - 1" by (simp add: c_def)
    with assms show "\<bar>int c\<bar> \<le> 2 ^ 53" by simp
    show "rat_of_nat count / rat_of_nat n \<le> rat_of_int (int c)" using e(1) n(1) by (simp add: pos_divide_le_eq)
    show "rat_of_int (int c) - 1 + 1 / rat_of_nat n \<le> rat_of_nat count / rat_of_nat n"
      using e(2) n(1) by (simp add: pos_le_divide_eq)
    have "(10 ^ 9 / 2 ^ 53 :: rat) < 1 / 10 ^ 6" by simp
    also have "\<dots> \<le> 1 / rat_of_nat n" using n by (intro divide_left_mono) simp_all
    finally show "10 ^ 9 / 2 ^ 53 < 1 / rat_of_nat n" .
  qed simp
  then show ?thesis using n(1) by (simp add: page_count_def jdiv_def c_def)
qed

section \<open>Walking the pages\<close>

text \<open>
  What a client of a paged list relies on: asking for page \<open>k\<close> of size \<open>n\<close>, while it starts within
  the rows, answers with that slice of a fixed sequence of rows.
\<close>

locale paged =
  fixes page :: "nat \<Rightarrow> exn + 'i list" and size :: nat and rows :: "'r list" and view :: "'r \<Rightarrow> 'i"
  assumes size_pos: "0 < size"
    and slice: "k * size \<le> length rows \<Longrightarrow> page k = Inr (map view (take size (drop (k * size) rows)))"
begin

definition items :: "nat \<Rightarrow> 'i list" where
  "items k = (case page k of Inr xs \<Rightarrow> xs | Inl _ \<Rightarrow> [])"

lemma walk: "m * size \<le> length rows + size \<Longrightarrow> concat (map items [0..<m]) = map view (take (m * size) rows)"
proof (induction m)
  case (Suc m)
  then have "m * size \<le> length rows" by simp
  from slice [OF this] have "items m = map view (take size (drop (m * size) rows))" by (simp add: items_def)
  with Suc show ?case by (simp add: add.commute [of size] take_add)
qed simp

lemma walk_all: "concat (map items [0..<(length rows + size - 1) div size]) = map view rows"
proof -
  let ?m = "(length rows + size - 1) div size"
  have "?m * size + (length rows + size - 1) mod size = length rows + size - 1" by simp
  moreover have "(length rows + size - 1) mod size < size" using size_pos by simp
  ultimately have "?m * size \<le> length rows + size" and "length rows \<le> ?m * size" using size_pos by linarith+
  with walk [of ?m] show ?thesis by simp
qed

end

end
