(* ===== verification/Loans.thy ===== *)
theory Loans imports LoanQuote Reputation Contracts Pagination "HOL-Library.Multiset" begin

text \<open>
  The loans service (\<open>modules/loans/loans.service.ts\<close>): creating, repaying, listing and
  assessing loans against the \<open>loans\<close> table, on top of the quote arithmetic, the reputation
  service, the credit policy and the credit line contract.
\<close>

record loans_state =
  ls_rep :: rep_state
  ls_vendors :: "VendorRef list"
  ls_loans :: "LoanRow list"
  ls_payments :: "string list"

text \<open>
  What a call depends on besides the state: reputation environment, server time zone, contract
  client, the random part of a provisional id and the row id the database generates.
  \<open>ls_payments\<close> names, for each row of \<open>loan_payments\<close>, the loan it belongs to.
\<close>

record loans_env =
  le_rep :: rep_env
  le_tz :: int
  le_soroban :: soroban
  le_contract :: string
  le_suffix :: string
  le_pk :: string
  le_faults :: faults

abbreviation le_now :: "loans_env \<Rightarrow> int" where "le_now env \<equiv> re_now (le_rep env)"

record LoanQuoteRequest =
  lq_amount :: num
  lq_vendor :: string
  lq_term :: nat

definition validateVendor :: "loans_env \<Rightarrow> string \<Rightarrow> VendorRef list \<Rightarrow> VendorRef result" where
  "validateVendor env vendorId vendors =
     (case with_fault (le_faults env ''vendors.select'')
             (single (filter (\<lambda>v. vendor_pk v = vendorId) vendors)) of
        Inl _ \<Rightarrow> Inl (not_found ''VENDOR_NOT_FOUND'')
      | Inr v \<Rightarrow> if vendor_verified v then Inr v else Inl (bad_request ''VENDOR_NOT_VERIFIED''))"

definition prepareLoanPreview ::
  "loans_env \<Rightarrow> string \<Rightarrow> LoanQuoteRequest \<Rightarrow> bool \<Rightarrow> loans_state \<Rightarrow> (VendorRef \<times> LoanQuote) result \<times> loans_state" where
  "prepareLoanPreview env wallet dto enforce st =
     (let (rep, rst) = getReputationScore (le_rep env) wallet (ls_rep st)
      in (andThen (validateVendor env (lq_vendor dto) (ls_vendors st)) (\<lambda>vendor.
            if enforce \<and> rep_score rep < MIN_LOAN_REPUTATION_SCORE
            then Inl (bad_request ''LOAN_REPUTATION_TOO_LOW'')
            else if of_int (rep_limit rep) < lq_amount dto
            then Inl (bad_request ''LOAN_AMOUNT_EXCEEDS_CREDIT'')
            else Inr (vendor, loan_terms (le_tz env) (le_now env) (lq_amount dto) (rep_rate rep) (lq_term dto))),
          st\<lparr>ls_rep := rst\<rparr>))"

definition calculateLoanQuote ::
  "loans_env \<Rightarrow> string \<Rightarrow> LoanQuoteRequest \<Rightarrow> loans_state \<Rightarrow> LoanQuote result \<times> loans_state" where
  "calculateLoanQuote env wallet dto st =
     (let (r, st1) = prepareLoanPreview env wallet dto False st
      in (andThen r (\<lambda>(vendor, terms). Inr terms), st1))"

text \<open>\<open>reduce((sum, loan) => sum + Number(loan.remaining_balance ?? 0), 0)\<close>.\<close>

definition sum_balances :: "LoanRow list \<Rightarrow> num" where
  "sum_balances rows = foldl (\<lambda>acc l. jadd acc (loan_balance l)) 0 rows"

definition active_loans_of :: "string \<Rightarrow> LoanRow list \<Rightarrow> LoanRow list" where
  "active_loans_of wallet rows = filter (\<lambda>l. loan_wallet l = wallet \<and> loan_status l = LoanActive) rows"

text \<open>A failed query for the active loans is read as no active loans (\<open>activeLoans ?? []\<close>).\<close>

definition runCreditAssessment ::
  "loans_env \<Rightarrow> string \<Rightarrow> num \<Rightarrow> loans_state \<Rightarrow> assessment \<times> loans_state" where
  "runCreditAssessment env wallet amt st =
     (let (rep, rst) = getReputationScore (le_rep env) wallet (ls_rep st);
          used = sum_balances (case le_faults env ''loans.active'' of
                   Some _ \<Rightarrow> [] | None \<Rightarrow> active_loans_of wallet (ls_loans st));
          util = (if 0 < rep_limit rep then jdiv used (of_int (rep_limit rep)) else 0)
      in (assess \<lparr>ap_amount = amt, ap_score = rep_score rep, ap_limit = rep_limit rep, ap_utilization = util\<rparr>,
          st\<lparr>ls_rep := rst\<rparr>))"

definition generateProvisionalLoanId :: "loans_env \<Rightarrow> string" where
  "generateProvisionalLoanId env = ''pending-'' @ decimal (nat (le_now env)) @ ''-'' @ le_suffix env"

text \<open>\<open>loans.loan_id\<close> is unique; the row id is the database's.\<close>

definition persistPendingLoan :: "loans_env \<Rightarrow> LoanRow \<Rightarrow> LoanRow list \<Rightarrow> db_error + LoanRow list" where
  "persistPendingLoan env r rows =
     with_fault (le_faults env ''loans.insert'') (insert_unique (\<lambda>a b. loan_id a = loan_id b) r rows)"

record CreateLoanResponse =
  cl_loanId :: string
  cl_xdr :: "string option"
  cl_terms :: LoanQuote
  cl_assessment :: assessment

definition new_loan_row ::
  "loans_env \<Rightarrow> string \<Rightarrow> string \<Rightarrow> VendorRef \<Rightarrow> LoanQuote \<Rightarrow> LoanStatus \<Rightarrow> LoanRow" where
  "new_loan_row env wallet lid vendor q status =
     \<lparr>loan_pk = le_pk env, loan_id = lid, loan_wallet = wallet, loan_vendor = Some (vendor_pk vendor),
      loan_amount = q_amount q, loan_principal = q_loanAmount q, loan_guarantee = q_guarantee q,
      loan_rate = q_interestRate q, loan_total = q_totalRepayment q, loan_balance = q_totalRepayment q,
      loan_term = q_term q, loan_status = status,
      loan_next_due = (case q_schedule q of [] \<Rightarrow> None | p # _ \<Rightarrow> Some (dueDate p)),
      loan_created = le_now env, loan_completed = None, loan_defaulted = None\<rparr>"

definition createLoan ::
  "loans_env \<Rightarrow> string \<Rightarrow> LoanQuoteRequest \<Rightarrow> loans_state \<Rightarrow> CreateLoanResponse result \<times> loans_state" where
  "createLoan env wallet dto st =
     (let (prev, st1) = prepareLoanPreview env wallet dto True st
      in case prev of Inl e \<Rightarrow> (Inl e, st1) | Inr (vendor, terms) \<Rightarrow>
        let lid = generateProvisionalLoanId env;
            (a, st2) = runCreditAssessment env wallet (lq_amount dto) st1
        in if assess_decision a = Rejected then (Inl (bad_request ''LOAN_ASSESSMENT_REJECTED''), st2)
           else
             let status = (if assess_decision a = Approved then LoanPending else LoanUnderReview);
                 xdr = (if status = LoanPending
                        then (case buildCreateLoanTransaction (le_soroban env) (le_contract env) wallet
                                \<lparr>clp_loanId = lid, clp_vendorId = vendor_pk vendor, clp_amount = lq_amount dto,
                                 clp_loanAmount = q_loanAmount terms, clp_guarantee = q_guarantee terms,
                                 clp_interestRate = q_interestRate terms, clp_term = q_term terms\<rparr> of
                              Inl _ \<Rightarrow> Inl (internal_error ''BLOCKCHAIN_CREATE_LOAN_XDR_FAILED'')
                            | Inr x \<Rightarrow> Inr (Some x))
                        else Inr None)
             in case xdr of Inl e \<Rightarrow> (Inl e, st2) | Inr x \<Rightarrow>
               (case persistPendingLoan env (new_loan_row env wallet lid vendor terms status) (ls_loans st2) of
                  Inl _ \<Rightarrow> (Inl (internal_error ''DATABASE_CREATE_LOAN_FAILED''), st2)
                | Inr rows \<Rightarrow>
                    (Inr \<lparr>cl_loanId = lid, cl_xdr = x, cl_terms = terms, cl_assessment = a\<rparr>,
                     st2\<lparr>ls_loans := rows\<rparr>)))"

section \<open>Repayment\<close>

definition find_loan :: "loans_env \<Rightarrow> string \<Rightarrow> string \<Rightarrow> LoanRow list \<Rightarrow> LoanRow result" where
  "find_loan env call pk rows =
     (case with_fault (le_faults env call) (single (filter (\<lambda>l. loan_pk l = pk) rows)) of
        Inl _ \<Rightarrow> Inl (not_found ''LOAN_NOT_FOUND'') | Inr l \<Rightarrow> Inr l)"

definition buildRepaymentXdr :: "loans_env \<Rightarrow> string \<Rightarrow> string \<Rightarrow> num \<Rightarrow> loans_state \<Rightarrow> string result" where
  "buildRepaymentXdr env wallet pk amt st =
     andThen (find_loan env ''loans.repayment'' pk (ls_loans st)) (\<lambda>loan.
       if loan_wallet loan \<noteq> wallet then Inl (not_found ''LOAN_NOT_FOUND'')
       else if loan_status loan \<noteq> LoanActive then Inl (bad_request ''LOAN_NOT_ACTIVE'')
       else if loan_balance loan < amt then Inl (bad_request ''LOAN_PAYMENT_EXCEEDS_BALANCE'')
       else buildRepayLoanTx (le_soroban env) (le_contract env) wallet (loan_id loan) amt)"

record PaymentPreview =
  pp_xdr :: string
  pp_amount :: num
  pp_current :: num
  pp_new :: num
  pp_completes :: bool

definition repay_balance :: "num \<Rightarrow> num \<Rightarrow> num" where
  "repay_balance remaining amt = jdiv (math_round (jmul (jsub remaining amt) 10000000)) 10000000"

definition repayLoan :: "loans_env \<Rightarrow> string \<Rightarrow> string \<Rightarrow> num \<Rightarrow> loans_state \<Rightarrow> PaymentPreview result" where
  "repayLoan env wallet pk amt st =
     andThen (find_loan env ''loans.balance'' pk (ls_loans st)) (\<lambda>loan.
     andThen (buildRepaymentXdr env wallet pk amt st) (\<lambda>xdr.
       let new = repay_balance (loan_balance loan) amt
       in Inr \<lparr>pp_xdr = xdr, pp_amount = amt, pp_current = loan_balance loan, pp_new = new,
               pp_completes = (new = 0)\<rparr>))"

section \<open>Listing\<close>

record LoanListItem =
  li_id :: string
  li_loanId :: string
  li_amount :: num
  li_loanAmount :: num
  li_guarantee :: num
  li_interestRate :: int
  li_totalRepayment :: num
  li_totalPaid :: num
  li_remaining :: num
  li_term :: nat
  li_status :: LoanStatus
  li_vendor :: "string option \<times> string option"
  li_nextDue :: "int option"
  li_nextAmount :: "num option"
  li_created :: int
  li_completed :: "int option"
  li_defaulted :: "int option"

definition normalizeVendor :: "VendorRef list \<Rightarrow> LoanRow \<Rightarrow> string option \<times> string option" where
  "normalizeVendor vendors l =
     (case filter (\<lambda>v. loan_vendor l = Some (vendor_pk v)) vendors of
        v # _ \<Rightarrow> (Some (vendor_pk v), Some (vendor_name v)) | [] \<Rightarrow> (loan_vendor l, None))"

definition mapLoanListItem :: "int \<Rightarrow> VendorRef list \<Rightarrow> nat \<Rightarrow> LoanRow \<Rightarrow> LoanListItem" where
  "mapLoanListItem tz vendors payments l =
     (let tot = loan_total l; rem = loan_balance l;
          sched = generateScheduleFromDate tz tot (loan_term l) (loan_created l);
          i = min payments (length sched - 1);
          nxt = (if i < length sched then Some (sched ! i) else None);
          show_next = (loan_status l = LoanActive \<and> 0 < rem)
      in \<lparr>li_id = loan_pk l, li_loanId = loan_id l, li_amount = loan_amount l,
          li_loanAmount = loan_principal l, li_guarantee = loan_guarantee l,
          li_interestRate = loan_rate l, li_totalRepayment = tot,
          li_totalPaid = round_currency (max 0 (jsub tot rem)), li_remaining = rem,
          li_term = loan_term l, li_status = loan_status l, li_vendor = normalizeVendor vendors l,
          li_nextDue = (if show_next then (case loan_next_due l of Some d \<Rightarrow> Some d
                          | None \<Rightarrow> map_option dueDate nxt) else None),
          li_nextAmount = (if show_next then Some (case nxt of
              Some p \<Rightarrow> round_currency (min (pay_amount p) rem) | None \<Rightarrow> round_currency rem) else None),
          li_created = loan_created l, li_completed = loan_completed l, li_defaulted = loan_defaulted l\<rparr>)"

definition LIST_STATUSES :: "LoanStatus list" where
  "LIST_STATUSES = [LoanActive, LoanCompleted, LoanDefaulted, LoanUnderReview, LoanRejected]"

record LoanListQuery =
  lq_status :: "LoanStatus option"
  lq_limit :: "nat option"
  lq_offset :: "nat option"

record LoanListResponse =
  lr_data :: "LoanListItem list"
  lr_limit :: nat
  lr_offset :: nat
  lr_total :: nat

text \<open>Newest first; the order of rows created at the same time is the table's.\<close>

definition getMyLoans :: "loans_env \<Rightarrow> string \<Rightarrow> LoanListQuery \<Rightarrow> loans_state \<Rightarrow> LoanListResponse result" where
  "getMyLoans env wallet q st =
     (let limit = (case lq_limit q of Some n \<Rightarrow> n | None \<Rightarrow> 20);
          offset = (case lq_offset q of Some n \<Rightarrow> n | None \<Rightarrow> 0);
          wanted = (case lq_status q of Some s \<Rightarrow> (\<lambda>x. x = s) | None \<Rightarrow> (\<lambda>x. x \<in> set LIST_STATUSES));
          rows = sort_key (\<lambda>l. - loan_created l)
                   (filter (\<lambda>l. loan_wallet l = wallet \<and> wanted (loan_status l)) (ls_loans st))
      in case with_fault (le_faults env ''loans.list'') (range_query (int offset) (int limit) rows) of
           Inl _ \<Rightarrow> Inl (internal_error ''USER_LOANS_QUERY_FAILED'')
         | Inr page \<Rightarrow> Inr \<lparr>lr_data = map (\<lambda>l. mapLoanListItem (le_tz env) (ls_vendors st)
                              (length (filter (\<lambda>p. p = loan_pk l) (ls_payments st))) l) page,
                          lr_limit = limit, lr_offset = offset, lr_total = length rows\<rparr>)"

section \<open>Credit and statistics\<close>

record AvailableCredit =
  ac_score :: int
  ac_tier :: tier
  ac_limit :: int
  ac_used :: num
  ac_available :: num
  ac_loans :: nat

definition getAvailableCredit :: "loans_env \<Rightarrow> string \<Rightarrow> loans_state \<Rightarrow> AvailableCredit result" where
  "getAvailableCredit env wallet st =
     (case re_chain (le_rep env) wallet of
        Inl _ \<Rightarrow> Inl (unavailable ''REPUTATION_CONTRACT_UNAVAILABLE'')
      | Inr sc \<Rightarrow>
          let score = (case sc of Some s \<Rightarrow> s | None \<Rightarrow> 0);
              (tier, rate, cap) = resolveTier score
          in case le_faults env ''loans.credit'' of
               Some _ \<Rightarrow> Inl (internal_error ''ACTIVE_LOANS_QUERY_FAILED'')
             | None \<Rightarrow>
                 let rows = active_loans_of wallet (ls_loans st);
                     used = jdiv (math_round (jmul (sum_balances rows) 100)) 100
                 in Inr \<lparr>ac_score = score, ac_tier = tier, ac_limit = cap, ac_used = used,
                         ac_available = max 0 (jdiv (math_round (jmul (jsub (of_int cap) used) 100)) 100),
                         ac_loans = length rows\<rparr>)"

record LoanStats =
  st_total :: nat
  st_active :: nat
  st_repaid :: nat
  st_defaulted :: nat
  st_volume :: num
  st_on_time :: num

definition on_time :: "LoanRow \<Rightarrow> bool" where
  "on_time l \<longleftrightarrow> loan_status l = LoanCompleted \<and>
     (case (loan_completed l, loan_next_due l) of (Some c, Some d) \<Rightarrow> c \<le> d | _ \<Rightarrow> False)"

definition getStats :: "loans_env \<Rightarrow> loans_state \<Rightarrow> LoanStats result" where
  "getStats env st =
     (case le_faults env ''loans.stats'' of
        Some _ \<Rightarrow> Inl (internal_error ''LOAN_STATS_QUERY_FAILED'')
      | None \<Rightarrow>
          let rows = ls_loans st;
              cnt = (\<lambda>s. length (filter (\<lambda>l. loan_status l = s) rows));
              repaid = cnt LoanCompleted;
              ot = length (filter on_time rows)
          in Inr \<lparr>st_total = length rows, st_active = cnt LoanActive, st_repaid = repaid,
                  st_defaulted = cnt LoanDefaulted,
                  st_volume = round_currency (foldl (\<lambda>acc l. jadd acc (loan_principal l)) 0 rows),
                  st_on_time = (if 0 < repaid
                    then jdiv (math_round (jmul (jdiv (of_nat ot) (of_nat repaid)) 10000)) 100 else 0)\<rparr>)"

section \<open>Assessment of an existing loan\<close>

definition set_status :: "LoanStatus \<Rightarrow> LoanRow \<Rightarrow> LoanRow" where
  "set_status s l = l\<lparr>loan_status := s\<rparr>"

record AssessLoanResponse =
  as_loanId :: string
  as_assessment :: assessment
  as_previous :: LoanStatus
  as_current :: LoanStatus

definition assessed_status :: "decision \<Rightarrow> LoanStatus" where
  "assessed_status d = (case d of Approved \<Rightarrow> LoanPending | Rejected \<Rightarrow> LoanRejected
     | ManualReview \<Rightarrow> LoanUnderReview)"

definition assessLoan ::
  "loans_env \<Rightarrow> string \<Rightarrow> string \<Rightarrow> loans_state \<Rightarrow> AssessLoanResponse result \<times> loans_state" where
  "assessLoan env wallet pk st =
     (case find_loan env ''loans.assess'' pk (ls_loans st) of
        Inl e \<Rightarrow> (Inl e, st)
      | Inr loan \<Rightarrow>
          if loan_wallet loan \<noteq> wallet then (Inl (not_found ''LOAN_NOT_FOUND''), st)
          else if loan_status loan \<notin> {LoanPending, LoanUnderReview}
          then (Inl (bad_request ''LOAN_ASSESSMENT_INVALID_STATUS''), st)
          else
            let (a, st1) = runCreditAssessment env wallet (loan_amount loan) st;
                new = assessed_status (assess_decision a)
            in case le_faults env ''loans.update'' of
                 Some _ \<Rightarrow> (Inl (internal_error ''LOAN_ASSESSMENT_UPDATE_FAILED''), st1)
               | None \<Rightarrow>
                   (Inr \<lparr>as_loanId = loan_id loan, as_assessment = a, as_previous = loan_status loan,
                         as_current = new\<rparr>,
                    st1\<lparr>ls_loans := update_where (\<lambda>l. loan_pk l = pk) (set_status new) (ls_loans st1)\<rparr>))"

section \<open>The repository of the reconciliation job (\<open>loans.repository.ts\<close>)\<close>

record ReconciliationLoanRow =
  rl_id :: string
  rl_loanId :: string
  rl_wallet :: string
  rl_amount :: num
  rl_status :: LoanStatus

definition findForReconciliation :: "faults \<Rightarrow> LoanRow list \<Rightarrow> ReconciliationLoanRow list result" where
  "findForReconciliation flt rows =
     (case flt ''loans.reconcile'' of
        Some e \<Rightarrow> Inl (JsError (err_message e))
      | None \<Rightarrow> Inr (map (\<lambda>l. \<lparr>rl_id = loan_pk l, rl_loanId = loan_id l, rl_wallet = loan_wallet l,
                   rl_amount = loan_amount l, rl_status = loan_status l\<rparr>) rows))"

definition resolveProvisionalId :: "faults \<Rightarrow> string \<Rightarrow> string \<Rightarrow> LoanStatus \<Rightarrow> LoanRow list \<Rightarrow> LoanRow list result" where
  "resolveProvisionalId flt pk chain_id status rows =
     (case flt ''loans.resolve'' of
        Some e \<Rightarrow> Inl (JsError (err_message e))
      | None \<Rightarrow>
          if (\<exists>l \<in> set rows. loan_pk l = pk) \<and> (\<exists>l \<in> set rows. loan_pk l \<noteq> pk \<and> loan_id l = chain_id)
          then Inl (JsError (err_message unique_violation))
          else Inr (update_where (\<lambda>l. loan_pk l = pk) (\<lambda>l. l\<lparr>loan_id := chain_id, loan_status := status\<rparr>) rows))"

definition updateStatus :: "faults \<Rightarrow> string \<Rightarrow> LoanStatus \<Rightarrow> LoanRow list \<Rightarrow> LoanRow list result" where
  "updateStatus flt pk status rows =
     (case flt ''loans.update_status'' of
        Some e \<Rightarrow> Inl (JsError (err_message e))
      | None \<Rightarrow> Inr (update_where (\<lambda>l. loan_pk l = pk) (set_status status) rows))"

section \<open>Lemmas\<close>

lemma validateVendor_Inr:
  "validateVendor env v vs = Inr vendor \<longleftrightarrow>
     le_faults env ''vendors.select'' = None \<and> filter (\<lambda>x. vendor_pk x = v) vs = [vendor] \<and> vendor_verified vendor"
  unfolding validateVendor_def
  by (cases "le_faults env ''vendors.select''"; cases "single (filter (\<lambda>x. vendor_pk x = v) vs)")
    (auto simp: single_Inr [symmetric])

lemma find_loan_Inr [table_simps]:
  "find_loan env call pk rows = Inr l \<longleftrightarrow>
     le_faults env call = None \<and> filter (\<lambda>x. loan_pk x = pk) rows = [l]"
  unfolding find_loan_def
  by (cases "le_faults env call"; cases "single (filter (\<lambda>x. loan_pk x = pk) rows)")
    (auto simp: single_Inr [symmetric])

lemma prepare_frame [simp]:
  "ls_loans (snd (prepareLoanPreview env w dto b st)) = ls_loans st"
  "ls_vendors (snd (prepareLoanPreview env w dto b st)) = ls_vendors st"
  by (simp_all add: prepareLoanPreview_def Let_def split_def)

lemma assessment_frame [simp]:
  "ls_loans (snd (runCreditAssessment env w a st)) = ls_loans st"
  by (simp add: runCreditAssessment_def Let_def split_def)

lemma prepare_Inr:
  assumes "fst (prepareLoanPreview env w dto b st) = Inr (vendor, terms)"
  shows "vendor \<in> set (ls_vendors st) \<and> vendor_pk vendor = lq_vendor dto \<and> vendor_verified vendor \<and>
         (b \<longrightarrow> 60 \<le> rep_score (fst (getReputationScore (le_rep env) w (ls_rep st)))) \<and>
         lq_amount dto \<le> of_int (rep_limit (fst (getReputationScore (le_rep env) w (ls_rep st)))) \<and>
         terms = loan_terms (le_tz env) (le_now env) (lq_amount dto)
                   (rep_rate (fst (getReputationScore (le_rep env) w (ls_rep st)))) (lq_term dto)"
proof -
  have "vendor \<in> set (ls_vendors st) \<and> vendor_pk vendor = lq_vendor dto"
    if "filter (\<lambda>x. vendor_pk x = lq_vendor dto) (ls_vendors st) = [vendor]"
    using arg_cong [OF that, of set] by auto
  with assms show ?thesis
    unfolding prepareLoanPreview_def Let_def split_def fst_conv andThen_Inr_iff validateVendor_Inr
      MIN_LOAN_REPUTATION_SCORE_def by (auto split: if_splits)
qed

lemma persist_Inr [table_simps]:
  "persistPendingLoan env r rows = Inr rows' \<longleftrightarrow>
     le_faults env ''loans.insert'' = None \<and> (\<forall>x \<in> set rows. loan_id x \<noteq> loan_id r) \<and> rows' = rows @ [r]"
  by (auto simp: persistPendingLoan_def insert_unique_Inr)

lemma new_loan_row_id [simp]: "loan_id (new_loan_row env w lid vendor q s) = lid"
  by (simp add: new_loan_row_def)

text \<open>The two shapes of an outcome of \<open>createLoan\<close>: nothing stored, or one row appended.\<close>

lemma createLoan_cases:
  "(\<exists>e. fst (createLoan env w dto st) = Inl e \<and> ls_loans (snd (createLoan env w dto st)) = ls_loans st) \<or>
   (\<exists>vendor terms a status x.
      fst (prepareLoanPreview env w dto True st) = Inr (vendor, terms) \<and>
      a = fst (runCreditAssessment env w (lq_amount dto) (snd (prepareLoanPreview env w dto True st))) \<and>
      assess_decision a \<noteq> Rejected \<and>
      status = (if assess_decision a = Approved then LoanPending else LoanUnderReview) \<and>
      (x = None \<longleftrightarrow> status = LoanUnderReview) \<and>
      fst (createLoan env w dto st) = Inr \<lparr>cl_loanId = generateProvisionalLoanId env, cl_xdr = x, cl_terms = terms,
        cl_assessment = a\<rparr> \<and>
      (\<forall>l \<in> set (ls_loans st). loan_id l \<noteq> generateProvisionalLoanId env) \<and>
      ls_loans (snd (createLoan env w dto st)) =
        ls_loans st @ [new_loan_row env w (generateProvisionalLoanId env) vendor terms status])"
proof (cases "fst (prepareLoanPreview env w dto True st)")
  case (Inl e)
  then show ?thesis by (simp add: createLoan_def Let_def split_def)
next
  case (Inr vt)
  obtain vendor terms where vt: "vt = (vendor, terms)" by (cases vt)
  define st1 where "st1 = snd (prepareLoanPreview env w dto True st)"
  define r where "r = runCreditAssessment env w (lq_amount dto) st1"
  have fr: "ls_loans (snd r) = ls_loans st" by (simp add: r_def st1_def)
  note unf = createLoan_def Let_def split_def Inr vt st1_def [symmetric] r_def [symmetric]
  define row where "row = new_loan_row env w (generateProvisionalLoanId env) vendor terms"
  have persist: "(\<exists>e. persistPendingLoan env (row s) (ls_loans st) = Inl e) \<or>
    persistPendingLoan env (row s) (ls_loans st) = Inr (ls_loans st @ [row s]) \<and>
    (\<forall>l \<in> set (ls_loans st). loan_id l \<noteq> generateProvisionalLoanId env)" for s
    by (auto simp: persistPendingLoan_def insert_unique_def with_fault_def row_def split: option.splits)
  show ?thesis
    apply (cases "assess_decision (fst r)")
      subgoal using fr by (simp add: unf)
     subgoal using fr persist [of LoanUnderReview] by (auto simp: unf row_def [symmetric])
    subgoal using fr persist [of LoanPending] by (auto simp: unf row_def [symmetric] split: sum.splits)
    done
qed

text \<open>Adding up whole-cent balances in binary64 drifts by far less than half a cent.\<close>

lemma cents_rel: "\<bar>n\<bar> \<le> 10 ^ 9 \<Longrightarrow> \<bar>cents n - of_int n / 100\<bar> \<le> 1 / 2 ^ 29"
proof -
  assume "\<bar>n\<bar> \<le> 10 ^ 9"
  then have "\<bar>rat_of_int n\<bar> \<le> 10 ^ 9" by (metis of_int_abs of_int_le_iff of_int_numeral of_int_power)
  then have "\<bar>rat_of_int n / 100\<bar> \<le> 10 ^ 7" by simp
  from fl_bound [OF this] have "\<bar>cents n - of_int n / 100\<bar> \<le> 10 ^ 7 / 2 ^ 53" by (simp only: cents_def)
  also have "\<dots> \<le> 1 / 2 ^ 29" by simp
  finally show ?thesis .
qed

lemma sum_cents_close:
  assumes "\<forall>b \<in> set bs. 0 \<le> b" and "sum_list bs \<le> 10 ^ 9" and "length bs \<le> 10000"
  shows "\<bar>foldl jadd 0 (map cents bs) - of_int (sum_list bs) / 100\<bar> \<le> of_nat (length bs) / 2 ^ 28"
  using assms
proof (induction bs rule: rev_induct)
  case Nil
  then show ?case by simp
next
  case (snoc b bs)
  have pos: "0 \<le> sum_list bs" "0 \<le> b" using snoc.prems by (auto intro: sum_list_nonneg)
  have le: "sum_list bs \<le> 10 ^ 9" "b \<le> 10 ^ 9" "sum_list bs + b \<le> 10 ^ 9" using snoc.prems pos by auto
  have IH: "\<bar>foldl jadd 0 (map cents bs) - of_int (sum_list bs) / 100\<bar> \<le> of_nat (length bs) / 2 ^ 28"
    using snoc le by simp
  have cb: "\<bar>cents b - of_int b / 100\<bar> \<le> 1 / 2 ^ 29" using le pos by (intro cents_rel) simp
  have "rat_of_int (sum_list bs + b) \<le> 10 ^ 9" "0 \<le> rat_of_int (sum_list bs + b)"
    using le(3) pos by (metis of_int_le_iff of_int_numeral of_int_power, simp)
  then have B: "\<bar>rat_of_int (sum_list bs) / 100 + of_int b / 100\<bar> \<le> 10 ^ 7" by simp
  have n: "of_nat (length bs) \<le> (10000 :: rat)" using snoc.prems(3) by simp
  have "\<bar>jadd (foldl jadd 0 (map cents bs)) (cents b) - (of_int (sum_list bs) / 100 + of_int b / 100)\<bar>
      \<le> of_nat (length bs) / 2 ^ 28 + 1 / 2 ^ 29 + (10 ^ 7 + 1) / 2 ^ 53"
    by (rule fl_sum_close [OF IH cb B]) (use n in simp)
  also have "\<dots> \<le> (of_nat (length bs) + 1) / 2 ^ 28" unfolding add_divide_distrib by simp
  finally show ?case by (simp add: add_divide_distrib add.commute)
qed

lemma sum_balances_eq: "map loan_balance rows = map cents bs \<Longrightarrow> sum_balances rows = foldl jadd 0 (map cents bs)"
  unfolding sum_balances_def by (metis foldl_map)

lemma sum_round_cents:
  assumes "\<forall>b \<in> set bs. 0 \<le> b" and "sum_list bs \<le> 10 ^ 9" and "length bs \<le> 10000"
  shows "round_currency (foldl jadd 0 (map cents bs)) = cents (sum_list bs)"
proof (rule round_currency_near)
  have n: "of_nat (length bs) / 2 ^ 28 \<le> (10000 / 2 ^ 28 :: rat)" using assms(3) by simp
  then have "\<bar>foldl jadd 0 (map cents bs) - of_int (sum_list bs) / 100\<bar> \<le> 10000 / 2 ^ 28"
    using sum_cents_close [OF assms] by linarith
  then show "\<bar>foldl jadd 0 (map cents bs) * 100 - of_int (sum_list bs)\<bar> \<le> 1 / 100"
    unfolding abs_le_iff by simp
  show "\<bar>sum_list bs\<bar> \<le> 2 ^ 33" using assms sum_list_nonneg [of bs] by simp
qed simp

lemma int_minus_cents:
  assumes "0 \<le> k" "k \<le> 10 ^ 4" and "0 \<le> n" "n \<le> 10 ^ 9"
  shows "round_currency (jsub (of_int k) (cents n)) = cents (100 * k - n)"
proof (rule round_currency_near)
  have c: "\<bar>cents n - of_int n / 100\<bar> \<le> 1 / 2 ^ 29" using assms by (intro cents_rel) simp
  have r: "rat_of_int n \<le> 10 ^ 9" "0 \<le> rat_of_int n" "rat_of_int k \<le> 10 ^ 4" "0 \<le> rat_of_int k"
    using assms by (metis of_int_le_iff of_int_numeral of_int_power, simp,
        metis of_int_le_iff of_int_numeral of_int_power, simp)
  have z: "\<bar>rat_of_int k - of_int k\<bar> \<le> 0" by simp
  have "\<bar>jsub (of_int k) (cents n) - (of_int k - of_int n / 100)\<bar> \<le> 0 + 1 / 2 ^ 29 + (10 ^ 8 + 1) / 2 ^ 53"
    by (rule fl_diff_close [OF z c]) (use r in simp_all)
  also have "\<dots> \<le> 1 / 2 ^ 20" by simp
  finally show "\<bar>jsub (of_int k) (cents n) * 100 - of_int (100 * k - n)\<bar> \<le> 1 / 100"
    unfolding abs_le_iff by simp
  show "\<bar>100 * k - n\<bar> \<le> 2 ^ 33" using assms by simp
qed simp

lemma repay_balance_cents:
  assumes "0 \<le> p" "p \<le> b" "b \<le> 10 ^ 7"
  shows "repay_balance (cents b) (cents p) = cents (b - p)"
proof -
  have r: "rat_of_int b \<le> 10 ^ 7" "0 \<le> rat_of_int p" "rat_of_int p \<le> of_int b"
    using assms by (metis of_int_le_iff of_int_numeral of_int_power, simp_all)
  have cb: "\<bar>cents b - of_int b / 100\<bar> \<le> 10 ^ 5 / 2 ^ 53" and cp: "\<bar>cents p - of_int p / 100\<bar> \<le> 10 ^ 5 / 2 ^ 53"
    unfolding cents_def by (rule fl_bound, use r in simp)+
  have "\<bar>jsub (cents b) (cents p) - (of_int b / 100 - of_int p / 100)\<bar>
      \<le> 10 ^ 5 / 2 ^ 53 + 10 ^ 5 / 2 ^ 53 + (10 ^ 5 + 1) / 2 ^ 53"
    by (rule fl_diff_close [OF cb cp]) (use r in simp_all)
  then have "\<bar>jsub (cents b) (cents p) * 10000000 - of_int ((b - p) * 100000)\<bar> \<le> 1 / 1000"
    unfolding abs_le_iff by simp
  moreover have "\<bar>rat_of_int ((b - p) * 100000)\<bar> \<le> 10 ^ 12" using r by simp
  ultimately have "\<bar>fl (jsub (cents b) (cents p) * 10000000) - of_int ((b - p) * 100000)\<bar>
      \<le> 1 / 1000 + (10 ^ 12 + 1) / 2 ^ 53" by (intro fl_close) simp_all
  also have "\<dots> < 1 / 2" by simp
  finally have "math_round (jmul (jsub (cents b) (cents p)) 10000000) = of_int ((b - p) * 100000)"
    unfolding jmul_def by (rule math_round_near)
  moreover have "rat_of_int ((b - p) * 100000) / 10000000 = of_int (b - p) / 100" unfolding of_int_mult by simp
  ultimately show ?thesis unfolding repay_balance_def jdiv_def by (simp only: cents_def)
qed

section \<open>Properties\<close>

text \<open>C4: Creating a loan either throws and leaves the \<open>loans\<close> table as it was, or appends
  exactly one row, for a verified vendor, a score of at least 60 and an amount within the
  tier's limit. The row owes the whole total of its quote and carries an unused provisional
  id; it is \<open>pending\<close> with a transaction to sign exactly when the assessment approves, and
  \<open>under_review\<close> without one when it asks for a manual review.\<close>

theorem createLoan_outcome:
  "(\<exists>e. fst (createLoan env w dto st) = Inl e \<and> ls_loans (snd (createLoan env w dto st)) = ls_loans st) \<or>
   (\<exists>r row vendor. fst (createLoan env w dto st) = Inr r \<and>
      ls_loans (snd (createLoan env w dto st)) = ls_loans st @ [row] \<and>
      vendor \<in> set (ls_vendors st) \<and> vendor_verified vendor \<and> loan_vendor row = Some (lq_vendor dto) \<and>
      60 \<le> rep_score (fst (getReputationScore (le_rep env) w (ls_rep st))) \<and>
      lq_amount dto \<le> of_int (rep_limit (fst (getReputationScore (le_rep env) w (ls_rep st)))) \<and>
      loan_wallet row = w \<and> loan_amount row = lq_amount dto \<and> loan_balance row = loan_total row \<and>
      loan_total row = q_totalRepayment (cl_terms r) \<and>
      loan_id row = cl_loanId r \<and> loan_id row \<notin> loan_id ` set (ls_loans st) \<and>
      (loan_status row = LoanPending \<longleftrightarrow> cl_xdr r \<noteq> None) \<and>
      (loan_status row = LoanPending \<longleftrightarrow> assess_decision (cl_assessment r) = Approved) \<and>
      (loan_status row = LoanUnderReview \<longleftrightarrow> assess_decision (cl_assessment r) = ManualReview))"
  using createLoan_cases [of env w dto st]
proof (elim disjE exE conjE)
  fix vendor terms a status x
  assume a: "fst (prepareLoanPreview env w dto True st) = Inr (vendor, terms)"
    "assess_decision a \<noteq> Rejected"
    "status = (if assess_decision a = Approved then LoanPending else LoanUnderReview)"
    "(x = None) = (status = LoanUnderReview)"
    "fst (createLoan env w dto st) = Inr \<lparr>cl_loanId = generateProvisionalLoanId env, cl_xdr = x,
       cl_terms = terms, cl_assessment = a\<rparr>"
    "\<forall>l \<in> set (ls_loans st). loan_id l \<noteq> generateProvisionalLoanId env"
    "ls_loans (snd (createLoan env w dto st)) =
       ls_loans st @ [new_loan_row env w (generateProvisionalLoanId env) vendor terms status]"
  note v = prepare_Inr [OF a(1)]
  show ?thesis
    apply (rule disjI2, intro exI conjI)
                  apply (rule a(5), rule a(7))
    using v a(2-4,6) by (cases "assess_decision a"; force simp: new_loan_row_def loan_terms_def Let_def)+
qed blast

text \<open>A repayment is only prepared for an active loan of the caller and an amount within its
  remaining balance; for whole-cent amounts the previewed balance is exactly the difference,
  and the preview says that the loan completes exactly when the payment covers the balance.\<close>

theorem repayLoan_preview:
  assumes "repayLoan env w pk (cents p) st = Inr r" and "loan \<in> set (ls_loans st)"
    and "loan_pk loan = pk" and "loan_balance loan = cents b" and "0 < p" and "0 \<le> b" "b \<le> 10 ^ 7" "p \<le> 10 ^ 7"
  shows "loan_status loan = LoanActive \<and> loan_wallet loan = w \<and> p \<le> b \<and>
         pp_new r = cents (b - p) \<and> (pp_completes r \<longleftrightarrow> p = b)"
proof -
  from assms(1) obtain l xdr where l: "filter (\<lambda>x. loan_pk x = pk) (ls_loans st) = [l]"
    and x: "buildRepaymentXdr env w pk (cents p) st = Inr xdr"
    and r: "pp_new r = repay_balance (loan_balance l) (cents p)" "pp_completes r = (pp_new r = 0)"
    by (auto simp: repayLoan_def andThen_Inr_iff find_loan_Inr Let_def)
  have "loan \<in> set (filter (\<lambda>x. loan_pk x = pk) (ls_loans st))" using assms(2,3) by simp
  with l have "l = loan" by simp
  with l x have ok: "loan_wallet loan = w" "loan_status loan = LoanActive" "cents p \<le> cents b"
    using assms(4) by (auto simp: buildRepaymentXdr_def andThen_Inr_iff find_loan_Inr split: if_splits)
  note r = r [unfolded \<open>l = loan\<close> assms(4)]
  have pb: "p \<le> b"
  proof (rule ccontr)
    assume "\<not> p \<le> b"
    then have "cents b \<le> cents p" by (simp add: cents_mono)
    with ok(3) have "cents b = cents p" by simp
    then have "b = p" using assms(5-8) by (intro cents_inj [of b p]) simp_all
    with \<open>\<not> p \<le> b\<close> show False by simp
  qed
  have n: "pp_new r = cents (b - p)" unfolding r(1) using pb assms(5-7) by (intro repay_balance_cents) simp_all
  moreover have "cents (b - p) = 0 \<longleftrightarrow> b = p"
    using cents_inj [of "b - p" 0] pb assms(5-7) by auto
  ultimately show ?thesis using ok pb r(2) by auto
qed

definition demo_soroban :: soroban where
  "demo_soroban = \<lparr>simulate = (\<lambda>_ _ _. Inr (NNum 80)), address_ok = (\<lambda>_. True), get_account = (\<lambda>_. True),
     sim_tx = (\<lambda>_. Inr None), assemble = (\<lambda>iv. Inr (inv_fn iv)), prepare = (\<lambda>iv. Inr (inv_fn iv)),
     random_key = ''GRANDOM''\<rparr>"

definition demo_loans_env :: loans_env where
  "demo_loans_env = \<lparr>le_rep = demo_env, le_tz = 0, le_soroban = demo_soroban, le_contract = ''CC'',
     le_suffix = ''ab12'', le_pk = ''pk2'', le_faults = no_faults\<rparr>"

definition demo_loan :: LoanRow where
  "demo_loan = \<lparr>loan_pk = ''pk1'', loan_id = ''7'', loan_wallet = ''GA'', loan_vendor = Some ''v'',
     loan_amount = cents 50000, loan_principal = cents 40000, loan_guarantee = cents 10000, loan_rate = 8,
     loan_total = cents 41067, loan_balance = cents 41067, loan_term = 4, loan_status = LoanActive,
     loan_next_due = None, loan_created = 0, loan_completed = None, loan_defaulted = None\<rparr>"

definition demo_loans :: loans_state where
  "demo_loans = \<lparr>ls_rep = \<lparr>rep_hot = Map.empty, rep_rows = [], rep_users = []\<rparr>,
     ls_vendors = [\<lparr>vendor_pk = ''v'', vendor_name = ''School'', vendor_verified = True\<rparr>],
     ls_loans = [demo_loan], ls_payments = []\<rparr>"

lemmas demo_loan_defs = demo_soroban_def demo_loans_env_def demo_loan_def demo_loans_def demo_env_def

theorem repayLoan_preview_witness:
  "\<exists>r. repayLoan demo_loans_env ''GA'' ''pk1'' (cents 41067) demo_loans = Inr r \<and>
       pp_new r = cents 0 \<and> pp_completes r"
proof -
  have "\<exists>r. repayLoan demo_loans_env ''GA'' ''pk1'' (cents 41067) demo_loans = Inr r"
    by (simp add: demo_loan_defs repayLoan_def buildRepaymentXdr_def find_loan_def single_def
        buildRepayLoanTx_def ensureConfigured_def repay_invocation_def Let_def)
  then obtain r where r: "repayLoan demo_loans_env ''GA'' ''pk1'' (cents 41067) demo_loans = Inr r" by blast
  have "demo_loan \<in> set (ls_loans demo_loans)" "loan_pk demo_loan = ''pk1''" "loan_balance demo_loan = cents 41067"
    by (simp_all add: demo_loans_def demo_loan_def)
  from repayLoan_preview [OF r this] r show ?thesis by simp
qed

text \<open>Available credit is exact in cents: for balances that are whole cents, the credit used is
  the exact sum of the active balances of that wallet (no drift from adding them in binary),
  and the credit available is the limit of the score's tier minus that sum, never negative.\<close>

theorem available_credit_exact:
  assumes "re_chain (le_rep env) w = Inr (Some s)" and "le_faults env ''loans.credit'' = None"
    and "map loan_balance (active_loans_of w (ls_loans st)) = map cents bs"
    and "\<forall>b \<in> set bs. 0 \<le> b" and "sum_list bs \<le> 10 ^ 9" and "length bs \<le> 10000"
  shows "\<exists>r. getAvailableCredit env w st = Inr r \<and> ac_used r = cents (sum_list bs) \<and>
             ac_available r = cents (max 0 (100 * tier_limit s - sum_list bs)) \<and>
             ac_limit r = tier_limit s \<and> ac_score r = s \<and> ac_loans r = length bs"
proof -
  have u: "jdiv (math_round (jmul (sum_balances (active_loans_of w (ls_loans st))) 100)) 100 = cents (sum_list bs)"
    using sum_round_cents [OF assms(4-6)] sum_balances_eq [OF assms(3)] by (simp add: round_currency_def)
  have "0 \<le> tier_limit s" "tier_limit s \<le> 10 ^ 4"
    using scoring_tiers.limit_ge [of s] scoring_tiers.limit_le [of s] by simp_all
  then have a: "jdiv (math_round (jmul (jsub (of_int (tier_limit s)) (cents (sum_list bs))) 100)) 100
      = cents (100 * tier_limit s - sum_list bs)"
    using int_minus_cents [of "tier_limit s" "sum_list bs"] assms(4,5) sum_list_nonneg [of bs]
    by (simp add: round_currency_def)
  have m: "max 0 (cents n) = cents (max 0 n)" for n
    using cents_mono [of n 0] cents_nonneg [of n] by (auto simp: max_def)
  have len: "length (active_loans_of w (ls_loans st)) = length bs" using arg_cong [OF assms(3), of length] by simp
  obtain t r c where res: "resolveTier s = (t, r, c)" by (cases "resolveTier s")
  then have c: "tier_limit s = c" by (simp add: tier_limit_def)
  show ?thesis using u a m len by (simp add: getAvailableCredit_def assms(1,2) res Let_def c)
qed

theorem available_credit_exact_witness:
  "\<exists>r. getAvailableCredit demo_loans_env ''GA'' demo_loans = Inr r \<and> ac_used r = cents (sum_list [41067]) \<and>
       ac_available r = cents (max 0 (100 * tier_limit 80 - sum_list [41067])) \<and>
       ac_limit r = tier_limit 80 \<and> ac_score r = 80 \<and> ac_loans r = length [41067 :: int]"
  by (rule available_credit_exact) (simp_all add: demo_loan_defs active_loans_of_def)

text \<open>Re-assessing a loan throws and changes no loan, or changes only the status of the caller's
  loan, from pending or under review to pending, under review or rejected as decided.\<close>

theorem assessLoan_outcome:
  "(\<exists>e. fst (assessLoan env w pk st) = Inl e \<and> ls_loans (snd (assessLoan env w pk st)) = ls_loans st) \<or>
   (\<exists>r loan. fst (assessLoan env w pk st) = Inr r \<and> loan \<in> set (ls_loans st) \<and> loan_pk loan = pk \<and>
      loan_wallet loan = w \<and> loan_status loan \<in> {LoanPending, LoanUnderReview} \<and>
      as_current r = assessed_status (assess_decision (as_assessment r)) \<and>
      as_current r \<in> {LoanPending, LoanUnderReview, LoanRejected} \<and>
      ls_loans (snd (assessLoan env w pk st)) =
        map (\<lambda>l. if loan_pk l = pk then l\<lparr>loan_status := as_current r\<rparr> else l) (ls_loans st))"
proof (cases "find_loan env ''loans.assess'' pk (ls_loans st)")
  case (Inl e)
  then show ?thesis by (simp add: assessLoan_def)
next
  case (Inr loan)
  then have "set (filter (\<lambda>x. loan_pk x = pk) (ls_loans st)) = {loan}" by (simp add: find_loan_Inr)
  then have m: "loan \<in> set (ls_loans st)" "loan_pk loan = pk" by auto
  have s: "assessed_status d \<in> {LoanPending, LoanUnderReview, LoanRejected}" for d
    by (simp add: assessed_status_def split: decision.splits)
  show ?thesis
    using m s [of "assess_decision (fst (runCreditAssessment env w (loan_amount loan) st))"]
    by (auto simp: assessLoan_def Inr Let_def split_def update_where_def set_status_def split: option.splits)
qed

definition listed_loans :: "string \<Rightarrow> LoanRow list \<Rightarrow> LoanRow list" where
  "listed_loans w rows = sort_key (\<lambda>l. - loan_created l) (filter (\<lambda>l. loan_wallet l = w \<and> loan_status l \<in> set LIST_STATUSES) rows)"

definition loans_page :: "loans_env \<Rightarrow> string \<Rightarrow> loans_state \<Rightarrow> nat \<Rightarrow> nat \<Rightarrow> LoanListItem list result" where
  "loans_page env w st n k =
     andThen (getMyLoans env w \<lparr>lq_status = None, lq_limit = Some n, lq_offset = Some (k * n)\<rparr> st) (\<lambda>r. Inr (lr_data r))"

definition loan_item :: "loans_env \<Rightarrow> loans_state \<Rightarrow> LoanRow \<Rightarrow> LoanListItem" where
  "loan_item env st l = mapLoanListItem (le_tz env) (ls_vendors st) (length (filter (\<lambda>p. p = loan_pk l) (ls_payments st))) l"

text \<open>The clamp makes the instance total: the route's validation demands a limit of at least one.\<close>

interpretation my_loans:
  paged "loans_page (env\<lparr>le_faults := no_faults\<rparr>) w st (Suc n)" "Suc n" "listed_loans w (ls_loans st)" "loan_item env st"
  for env w st n
proof
  fix k assume "k * Suc n \<le> length (listed_loans w (ls_loans st))"
  from range_query_page [OF this]
  show "loans_page (env\<lparr>le_faults := no_faults\<rparr>) w st (Suc n) k =
    Inr (map (loan_item env st) (take (Suc n) (drop (k * Suc n) (listed_loans w (ls_loans st)))))"
    by (simp add: loans_page_def getMyLoans_def listed_loans_def Let_def loan_item_def [abs_def] del: of_nat_mult of_nat_Suc mult_Suc_right)
qed simp

text \<open>The pages of a wallet's loans partition them: fetching as many pages as the total says
  returns every loan of the wallet with a listed status exactly once, newest first; a page that
  starts beyond the last loan is a server error, not an empty page.\<close>

theorem getMyLoans_pages:
  assumes "0 < n"
  shows "\<exists>rows. mset rows = mset (filter (\<lambda>l. loan_wallet l = w \<and> loan_status l \<in> set LIST_STATUSES) (ls_loans st)) \<and>
    sorted (map (\<lambda>l. - loan_created l) rows) \<and>
    concat (map (\<lambda>k. case loans_page (env\<lparr>le_faults := no_faults\<rparr>) w st n k of Inr xs \<Rightarrow> map li_id xs | Inl _ \<Rightarrow> [])
      [0..<(length rows + n - 1) div n]) = map loan_pk rows \<and>
    (length rows < k * n \<longrightarrow> loans_page env w st n k = Inl (internal_error ''USER_LOANS_QUERY_FAILED''))"
proof (intro exI conjI impI)
  let ?rows = "listed_loans w (ls_loans st)"
  from assms obtain m where n: "n = Suc m" using gr0_conv_Suc by blast
  show "mset ?rows = mset (filter (\<lambda>l. loan_wallet l = w \<and> loan_status l \<in> set LIST_STATUSES) (ls_loans st))"
    by (simp add: listed_loans_def)
  show "sorted (map (\<lambda>l. - loan_created l) ?rows)" by (simp add: listed_loans_def)
  have "map li_id (concat (map (my_loans.items env w st m) [0..<(length ?rows + n - 1) div n])) = map loan_pk ?rows"
    unfolding n my_loans.walk_all by (simp add: loan_item_def mapLoanListItem_def Let_def o_def)
  then show "concat (map (\<lambda>k. case loans_page (env\<lparr>le_faults := no_faults\<rparr>) w st n k of Inr xs \<Rightarrow> map li_id xs | Inl _ \<Rightarrow> [])
      [0..<(length ?rows + n - 1) div n]) = map loan_pk ?rows"
    unfolding n map_concat my_loans.items_def map_map o_def
    by (auto intro: arg_cong [where f = concat] split: sum.splits elim!: trans [rotated])
  assume "length ?rows < k * n"
  from range_query_beyond [OF this] show "loans_page env w st n k = Inl (internal_error ''USER_LOANS_QUERY_FAILED'')"
    by (cases "le_faults env ''loans.list''")
      (simp_all add: loans_page_def getMyLoans_def listed_loans_def Let_def del: of_nat_mult)
qed

theorem getMyLoans_pages_witness:
  "\<exists>rows. mset rows = mset (filter (\<lambda>l. loan_wallet l = ''GA'' \<and> loan_status l \<in> set LIST_STATUSES) (ls_loans demo_loans)) \<and>
    sorted (map (\<lambda>l. - loan_created l) rows) \<and>
    concat (map (\<lambda>k. case loans_page (demo_loans_env\<lparr>le_faults := no_faults\<rparr>) ''GA'' demo_loans 2 k of Inr xs \<Rightarrow> map li_id xs | Inl _ \<Rightarrow> [])
      [0..<(length rows + 2 - 1) div 2]) = map loan_pk rows"
  using getMyLoans_pages [of 2 "''GA''" demo_loans demo_loans_env 0] by auto

text \<open>When the query for the active loans fails, the assessment goes ahead as if no credit were
  in use: the decision is the one of a wallet that owes nothing.\<close>

theorem assessment_fails_open:
  assumes "le_faults env ''loans.active'' \<noteq> None"
  shows "fst (runCreditAssessment env w a st) =
         fst (runCreditAssessment (env\<lparr>le_faults := no_faults\<rparr>) w a (st\<lparr>ls_loans := []\<rparr>))"
  using assms by (auto simp: runCreditAssessment_def Let_def split_def active_loans_of_def)

theorem assessment_fails_open_witness:
  "assess_decision (fst (runCreditAssessment (demo_loans_env\<lparr>le_faults := (\<lambda>_. Some pgrst116)\<rparr>) ''GA'' 100
     (demo_loans\<lparr>ls_loans := replicate 20 demo_loan\<rparr>))) =
   assess_decision (fst (runCreditAssessment (demo_loans_env\<lparr>le_faults := no_faults\<rparr>) ''GA'' 100 (demo_loans\<lparr>ls_loans := []\<rparr>)))"
  using assessment_fails_open [of "demo_loans_env\<lparr>le_faults := (\<lambda>_. Some pgrst116)\<rparr>" "''GA''" 100
      "demo_loans\<lparr>ls_loans := replicate 20 demo_loan\<rparr>"]
  by simp

end
