(* ===== verification/ClaimOnce.thy ===== *)
theory ClaimOnce imports Prelude begin

text \<open>
  Operations that at most one of several racing callers can win: a conditional update that
  matches a row only until it is taken, an insert under a unique index. A claim \<open>c\<close> is for the
  resource \<open>key c\<close>; the interface \<open>claim_once\<close> states the laws such an operation obeys, and
  \<open>wins_le_1\<close> draws the consequence for every interleaving of claims with other steps.
\<close>

datatype ('c, 's) event = Claim 'c | Other "'s \<Rightarrow> 's"

locale claim_once =
  fixes claim :: "'c \<Rightarrow> 's \<Rightarrow> 's option" and key :: "'c \<Rightarrow> 'k" and admissible :: "'c \<Rightarrow> bool"
    and taken :: "'k \<Rightarrow> 's \<Rightarrow> bool"
  assumes claim_free: "admissible c \<Longrightarrow> claim c s = Some s' \<Longrightarrow> \<not> taken (key c) s"
    and claim_takes: "admissible c \<Longrightarrow> claim c s = Some s' \<Longrightarrow> taken (key c) s'"
    and claim_keeps: "admissible c \<Longrightarrow> claim c s = Some s' \<Longrightarrow> taken k s \<Longrightarrow> taken k s'"
begin

primrec run :: "('c, 's) event list \<Rightarrow> 's \<Rightarrow> 's" where
  "run [] s = s"
| "run (e # es) s = run es (case e of Claim c \<Rightarrow> (case claim c s of Some s' \<Rightarrow> s' | None \<Rightarrow> s) | Other f \<Rightarrow> f s)"

primrec wins :: "'k \<Rightarrow> ('c, 's) event list \<Rightarrow> 's \<Rightarrow> nat" where
  "wins k [] s = 0"
| "wins k (e # es) s =
     (case e of
        Claim c \<Rightarrow> (case claim c s of Some s' \<Rightarrow> (if key c = k then 1 else 0) + wins k es s' | None \<Rightarrow> wins k es s)
      | Other f \<Rightarrow> wins k es (f s))"

text \<open>Admissible claims, and other steps that do not give the resource back.\<close>

definition keeps :: "'k \<Rightarrow> ('c, 's) event list \<Rightarrow> bool" where
  "keeps k es \<longleftrightarrow> (\<forall>e \<in> set es. case e of Claim c \<Rightarrow> admissible c | Other f \<Rightarrow> (\<forall>s. taken k s \<longrightarrow> taken k (f s)))"

lemma keeps_Nil: "keeps k []"
  by (simp add: keeps_def)

lemma keeps_Cons: "keeps k (e # es) \<longleftrightarrow>
    (case e of Claim c \<Rightarrow> admissible c | Other f \<Rightarrow> (\<forall>s. taken k s \<longrightarrow> taken k (f s))) \<and> keeps k es"
  by (auto simp: keeps_def)

lemma wins_taken: "taken k s \<Longrightarrow> keeps k es \<Longrightarrow> wins k es s = 0 \<and> taken k (run es s)"
  by (induction es arbitrary: s)
    (auto simp: keeps_Cons claim_keeps dest: claim_free split: event.splits option.splits)

lemma wins_le_1: "keeps k es \<Longrightarrow> wins k es s \<le> 1"
proof (induction es arbitrary: s)
  case (Cons e es)
  then have IH: "wins k es s' \<le> 1" for s' by (simp add: keeps_Cons)
  show ?case
  proof (cases e)
    case (Claim c)
    then show ?thesis
      using IH Cons.prems wins_taken claim_takes by (auto simp: keeps_Cons split: option.splits)
  next
    case (Other f)
    then show ?thesis using IH [of "f s"] by simp
  qed
qed simp

lemma wins_pos_taken: "keeps k es \<Longrightarrow> 0 < wins k es s \<Longrightarrow> taken k (run es s)"
proof (induction es arbitrary: s)
  case (Cons e es)
  show ?case
  proof (cases e)
    case (Claim c)
    then show ?thesis
      using Cons wins_taken claim_takes by (auto simp: keeps_Cons split: option.splits if_splits)
  next
    case (Other f)
    then show ?thesis using Cons by (auto simp: keeps_Cons)
  qed
qed simp

end

end
