(* ===== verification/Transactions.thy ===== *)
theory Transactions imports Schema CacheStore ClaimOnce Contracts begin

text \<open>
  Submitting signed transactions and reading their status
  (\<open>modules/transactions/transactions.service.ts\<close>). Parsing an XDR envelope, hashing it,
  encoding a contract address, submitting to Horizon and reading from it are parameters.
\<close>

section \<open>Declared types and their allowlist\<close>

record TransactionTypeAllowlist =
  al_functions :: "string list"
  al_contract_key :: string

fun TRANSACTION_TYPE_ALLOWLIST :: "tx_kind \<Rightarrow> TransactionTypeAllowlist" where
  "TRANSACTION_TYPE_ALLOWLIST LoanCreate =
     \<lparr>al_functions = [''create_loan''], al_contract_key = ''CREDIT_LINE_CONTRACT_ID''\<rparr>"
| "TRANSACTION_TYPE_ALLOWLIST LoanRepay =
     \<lparr>al_functions = [''repay_loan'', ''repay_installment''], al_contract_key = ''CREDIT_LINE_CONTRACT_ID''\<rparr>"
| "TRANSACTION_TYPE_ALLOWLIST Deposit =
     \<lparr>al_functions = [''deposit''], al_contract_key = ''LIQUIDITY_POOL_CONTRACT_ID''\<rparr>"
| "TRANSACTION_TYPE_ALLOWLIST Withdraw =
     \<lparr>al_functions = [''withdraw''], al_contract_key = ''LIQUIDITY_POOL_CONTRACT_ID''\<rparr>"
| "TRANSACTION_TYPE_ALLOWLIST VendorApprove =
     \<lparr>al_functions = [''approve_vendor''], al_contract_key = ''VENDOR_REGISTRY_CONTRACT_ID''\<rparr>"
| "TRANSACTION_TYPE_ALLOWLIST VendorSuspend =
     \<lparr>al_functions = [''suspend_vendor''], al_contract_key = ''VENDOR_REGISTRY_CONTRACT_ID''\<rparr>"

section \<open>Parsed transactions\<close>

text \<open>
  What the service reads of a parsed operation. A contract address is a buffer, an object with a
  \<open>value()\<close> that is a buffer or not, or anything else; an authorization entry names the switch
  of its credentials and the addresses behind \<open>account()\<close> and \<open>address()\<close>, or throws.
\<close>

datatype raw_address = RawBuffer "nat list" | RawValue "nat list option" | RawOpaque

datatype auth_entry = AuthEntry "string option" "string option" "string option" | AuthThrows

datatype operation =
  InvokeHostFunction (fn_name: "string option") (fn_address: "raw_address option") (fn_auth: "auth_entry list")
| OtherOperation string

record InnerTransaction =
  tr_source :: string
  tr_operations :: "operation list"

datatype transaction = PlainTx InnerTransaction | FeeBumpTx string InnerTransaction

fun getInnerTransaction :: "transaction \<Rightarrow> InnerTransaction" where
  "getInnerTransaction (FeeBumpTx _ t) = t"
| "getInnerTransaction (PlainTx t) = t"

text \<open>A rejected request: what Horizon or the network reported.\<close>

record horizon_error =
  he_codes :: "(string option \<times> string list) option"
  he_message :: "string option"
  he_status :: "nat option"

record HorizonTransactionRecord =
  ht_hash :: string
  ht_successful :: bool
  ht_ledger :: int
  ht_operation_count :: int
  ht_source :: string
  ht_fee :: string
  ht_memo_type :: string
  ht_memo :: "string option"
  ht_created_at :: int
  ht_result_xdr :: string

record tx_env =
  te_parse :: "string \<Rightarrow> transaction option"
  te_hash :: "transaction \<Rightarrow> string"
  te_encode :: "nat list \<Rightarrow> string option"
  te_config :: "string \<Rightarrow> string option"
  te_submit :: "transaction \<Rightarrow> horizon_error option"
  te_lookup :: "string \<Rightarrow> horizon_error + HorizonTransactionRecord"
  te_result :: "string \<Rightarrow> (string \<times> string list) option"
  te_now :: int
  te_pk :: string
  te_faults :: faults

definition parseXdr :: "tx_env \<Rightarrow> string \<Rightarrow> transaction result" where
  "parseXdr env xdr = (case te_parse env xdr of
     Some t \<Rightarrow> Inr t | None \<Rightarrow> Inl (bad_request ''TRANSACTION_INVALID_XDR''))"

definition address_bytes :: "raw_address \<Rightarrow> nat list option" where
  "address_bytes a = (case a of RawBuffer b \<Rightarrow> Some b | RawValue b \<Rightarrow> b | RawOpaque \<Rightarrow> None)"

record invocation_attributes =
  ia_function :: "string option"
  ia_contract :: "string option"
  ia_auth :: "auth_entry list"

definition extractInvocationAttributes :: "tx_env \<Rightarrow> operation \<Rightarrow> invocation_attributes" where
  "extractInvocationAttributes env op =
     (case op of
        InvokeHostFunction f a au \<Rightarrow>
          \<lparr>ia_function = f,
           ia_contract = (case a of None \<Rightarrow> None | Some raw \<Rightarrow>
              (case address_bytes raw of
                 Some b \<Rightarrow> if length b = 32 then te_encode env b else None | None \<Rightarrow> None)),
           ia_auth = au\<rparr>
      | OtherOperation _ \<Rightarrow> \<lparr>ia_function = None, ia_contract = None, ia_auth = []\<rparr>)"

definition check_operation :: "tx_env \<Rightarrow> tx_kind \<Rightarrow> operation \<Rightarrow> unit result" where
  "check_operation env type op =
     (case op of
        OtherOperation _ \<Rightarrow> Inl (bad_request ''TRANSACTION_OPERATION_NOT_ALLOWED'')
      | InvokeHostFunction _ _ _ \<Rightarrow>
          let iv = extractInvocationAttributes env op; allow = TRANSACTION_TYPE_ALLOWLIST type
          in case present (ia_function iv) of
               None \<Rightarrow> Inl (bad_request ''TRANSACTION_TYPE_MISMATCH'')
             | Some f \<Rightarrow>
                 if f \<notin> set (al_functions allow) then Inl (bad_request ''TRANSACTION_TYPE_MISMATCH'')
                 else case present (te_config env (al_contract_key allow)) of
                   None \<Rightarrow> Inl (unavailable ''TRANSACTION_CONTRACT_NOT_CONFIGURED'')
                 | Some expected \<Rightarrow>
                     (case present (ia_contract iv) of
                        None \<Rightarrow> Inl (bad_request ''TRANSACTION_TYPE_MISMATCH'')
                      | Some c \<Rightarrow> if c = trim expected then Inr ()
                                  else Inl (bad_request ''TRANSACTION_TYPE_MISMATCH'')))"

fun check_operations :: "tx_env \<Rightarrow> tx_kind \<Rightarrow> operation list \<Rightarrow> unit result" where
  "check_operations env type [] = Inr ()"
| "check_operations env type (op # ops) =
     andThen (check_operation env type op) (\<lambda>_. check_operations env type ops)"

definition assertOperationAllowlist :: "tx_env \<Rightarrow> transaction \<Rightarrow> tx_kind \<Rightarrow> unit result" where
  "assertOperationAllowlist env t type =
     (let ops = tr_operations (getInnerTransaction t)
      in if ops = [] then Inl (bad_request ''TRANSACTION_TYPE_MISMATCH'') else check_operations env type ops)"

definition auth_address :: "auth_entry \<Rightarrow> string option" where
  "auth_address e = (case e of AuthThrows \<Rightarrow> None
     | AuthEntry switch account address \<Rightarrow>
         present (if switch = Some ''sorobanCredentialsAccount'' then account else address))"

fun add_addresses :: "string list \<Rightarrow> auth_entry list \<Rightarrow> string list" where
  "add_addresses acc [] = acc"
| "add_addresses acc (e # es) =
     add_addresses (case auth_address e of
        Some a \<Rightarrow> if a \<in> set acc then acc else acc @ [a] | None \<Rightarrow> acc) es"

definition collectAuthorizedAddresses :: "tx_env \<Rightarrow> transaction \<Rightarrow> string list" where
  "collectAuthorizedAddresses env t =
     foldl (\<lambda>acc op. case op of OtherOperation _ \<Rightarrow> acc
              | _ \<Rightarrow> add_addresses acc (ia_auth (extractInvocationAttributes env op)))
       [] (tr_operations (getInnerTransaction t))"

definition assertWalletAuthorizes :: "tx_env \<Rightarrow> transaction \<Rightarrow> string \<Rightarrow> unit result" where
  "assertWalletAuthorizes env t wallet =
     (if tr_source (getInnerTransaction t) = wallet then Inr ()
      else if wallet \<in> set (collectAuthorizedAddresses env t) then Inr ()
      else Inl (bad_request ''TRANSACTION_SOURCE_MISMATCH''))"

section \<open>Error classification\<close>

definition HORIZON_ERROR_MAP :: "(string \<times> string) list" where
  "HORIZON_ERROR_MAP =
     [(''op_bad_auth'', ''Invalid transaction signature. Please re-sign and try again.''),
      (''op_no_source_account'', ''Source account not found on the Stellar network.''),
      (''op_underfunded'', ''Insufficient balance to complete one or more operations in this transaction.''),
      (''tx_bad_seq'', ''Transaction sequence number is outdated. Please rebuild the transaction.''),
      (''tx_insufficient_balance'', ''Insufficient balance to cover this transaction.''),
      (''tx_bad_auth'', ''Invalid transaction signature. Please re-sign and try again.''),
      (''tx_failed'', ''Transaction failed on the Stellar network.''),
      (''tx_too_late'', ''Transaction expired before it could be submitted.''),
      (''tx_too_early'', ''Transaction time bounds not yet valid.''),
      (''tx_insufficient_fee'', ''Transaction fee is too low to be accepted by the network.''),
      (''tx_no_account'', ''Source account does not exist on the Stellar network.'')]"

definition isUniqueViolationError :: "db_error \<Rightarrow> bool" where
  "isUniqueViolationError e \<longleftrightarrow> err_code e = ''23505'' \<or>
     str_includes (to_lower (err_message e)) ''duplicate key value violates unique constraint''"

definition isUnknownColumnError :: "db_error \<Rightarrow> bool" where
  "isUnknownColumnError e \<longleftrightarrow>
     str_includes (to_lower (err_message e)) ''column'' \<and> str_includes (to_lower (err_message e)) ''does not exist''"

definition isHorizonNotFoundError :: "horizon_error \<Rightarrow> bool" where
  "isHorizonNotFoundError e \<longleftrightarrow> he_status e = Some 404"

record error_description =
  ed_status :: nat
  ed_code :: string
  ed_message :: string

fun join_comma :: "string list \<Rightarrow> string" where
  "join_comma [] = []"
| "join_comma [x] = x"
| "join_comma (x # xs) = x @ '', '' @ join_comma xs"

definition describeHorizonError :: "horizon_error \<Rightarrow> error_description" where
  "describeHorizonError e =
     (case he_codes e of
        Some (tx, ops) \<Rightarrow>
          let codes = filter (\<lambda>c. c \<noteq> []) ((case tx of Some c \<Rightarrow> [c] | None \<Rightarrow> []) @ ops)
          in (case find (\<lambda>c. map_of HORIZON_ERROR_MAP c \<noteq> None) codes of
                Some c \<Rightarrow> \<lparr>ed_status = 400, ed_code = ''STELLAR_'' @ to_upper c,
                            ed_message = the (map_of HORIZON_ERROR_MAP c)\<rparr>
              | None \<Rightarrow> \<lparr>ed_status = 400, ed_code = ''STELLAR_TRANSACTION_FAILED'',
                          ed_message = ''Transaction rejected by the Stellar network: '' @ join_comma codes\<rparr>)
      | None \<Rightarrow>
          let m = to_lower (case he_message e of Some m \<Rightarrow> m | None \<Rightarrow> ''Unknown error'')
          in if str_includes m ''timeout'' \<or> str_includes m ''network''
             then \<lparr>ed_status = 503, ed_code = ''STELLAR_NETWORK_UNAVAILABLE'',
                   ed_message = ''Stellar network is temporarily unavailable. Please try again later.''\<rparr>
             else \<lparr>ed_status = 500, ed_code = ''STELLAR_SUBMISSION_FAILED'',
                   ed_message = ''Failed to submit transaction to the Stellar network. Please try again.''\<rparr>)"

definition handleHorizonError :: "horizon_error \<Rightarrow> exn" where
  "handleHorizonError e = (let d = describeHorizonError e in HttpExn (ed_status d) (ed_code d))"

section \<open>The transactions table\<close>

datatype lookup_column = ColHash | ColTransactionHash

definition col_of :: "lookup_column \<Rightarrow> TxRow \<Rightarrow> string option" where
  "col_of c r = (case c of ColHash \<Rightarrow> tx_lhash r | ColTransactionHash \<Rightarrow> tx_thash r)"

record TransactionRecord =
  rec_column :: lookup_column
  rec_hash :: string
  rec_type :: "string option"
  rec_status :: TxStatus
  rec_submitted :: int
  rec_completed :: "int option"

definition find_in_column ::
  "tx_env \<Rightarrow> string \<Rightarrow> lookup_column \<Rightarrow> string \<Rightarrow> TxRow list \<Rightarrow> db_error + TxRow option" where
  "find_in_column env call c hash rows =
     with_fault (te_faults env call) (maybe_single (filter (\<lambda>r. col_of c r = Some hash) rows))"

definition record_of :: "lookup_column \<Rightarrow> string \<Rightarrow> TxRow \<Rightarrow> TransactionRecord" where
  "record_of c hash r =
     \<lparr>rec_column = c, rec_hash = to_lower (case col_of c r of Some h \<Rightarrow> h | None \<Rightarrow> hash),
      rec_type = tx_type r, rec_status = tx_status r, rec_submitted = tx_submitted r,
      rec_completed = tx_completed r\<rparr>"

definition findTransactionRecord :: "tx_env \<Rightarrow> string \<Rightarrow> TxRow list \<Rightarrow> TransactionRecord option result" where
  "findTransactionRecord env hash rows =
     (let lookup_failed = Inl (internal_error ''TRANSACTION_LOOKUP_DB_FAILED'');
          second = (case find_in_column env ''find.transaction_hash'' ColTransactionHash hash rows of
              Inl e \<Rightarrow> if isUnknownColumnError e then Inr None else lookup_failed
            | Inr (Some r) \<Rightarrow> Inr (Some (record_of ColTransactionHash hash r))
            | Inr None \<Rightarrow> Inr None)
      in case find_in_column env ''find.hash'' ColHash hash rows of
           Inl e \<Rightarrow> if isUnknownColumnError e then second else lookup_failed
         | Inr (Some r) \<Rightarrow> Inr (Some (record_of ColHash hash r))
         | Inr None \<Rightarrow> second)"

definition tx_clash :: "TxRow \<Rightarrow> TxRow \<Rightarrow> bool" where
  "tx_clash a b \<longleftrightarrow> tx_thash a \<noteq> None \<and> tx_thash a = tx_thash b \<or> tx_lhash a \<noteq> None \<and> tx_lhash a = tx_lhash b"

definition new_tx_row :: "tx_env \<Rightarrow> lookup_column \<Rightarrow> string \<Rightarrow> string \<Rightarrow> tx_kind \<Rightarrow> string \<Rightarrow> TxRow" where
  "new_tx_row env c wallet hash type xdr =
     \<lparr>tx_pk = te_pk env, tx_wallet = wallet,
      tx_thash = (if c = ColTransactionHash then Some hash else None),
      tx_lhash = (if c = ColHash then Some hash else None),
      tx_type = Some (kind_name type), tx_status = TxPending, tx_xdr = xdr, tx_error = None,
      tx_submitted = te_now env, tx_completed = None\<rparr>"

text \<open>\<open>throw new Error(error.message)\<close> keeps the message and loses the code.\<close>

definition rethrown :: "db_error \<Rightarrow> db_error" where
  "rethrown e = e\<lparr>err_code := []\<rparr>"

definition persistTransactionRecord ::
  "tx_env \<Rightarrow> string \<Rightarrow> string \<Rightarrow> tx_kind \<Rightarrow> string \<Rightarrow> TxRow list \<Rightarrow> db_error + (lookup_column \<times> TxRow list)" where
  "persistTransactionRecord env wallet hash type xdr rows =
     (case with_fault (te_faults env ''insert.transaction_hash'')
             (insert_unique tx_clash (new_tx_row env ColTransactionHash wallet hash type xdr) rows) of
        Inr rows' \<Rightarrow> Inr (ColTransactionHash, rows')
      | Inl e \<Rightarrow>
          if \<not> isUnknownColumnError e then Inl (rethrown e)
          else (case with_fault (te_faults env ''insert.hash'')
                       (insert_unique tx_clash (new_tx_row env ColHash wallet hash type xdr) rows) of
                  Inr rows' \<Rightarrow> Inr (ColHash, rows') | Inl e' \<Rightarrow> Inl (rethrown e')))"

definition mark_failed_row :: "int \<Rightarrow> string \<Rightarrow> TxRow \<Rightarrow> TxRow" where
  "mark_failed_row now msg r = r\<lparr>tx_status := TxFailed, tx_error := Some msg, tx_completed := Some now\<rparr>"

definition markTransactionFailed ::
  "tx_env \<Rightarrow> lookup_column \<Rightarrow> string \<Rightarrow> horizon_error \<Rightarrow> TxRow list \<Rightarrow> TxRow list" where
  "markTransactionFailed env c hash e rows =
     (let d = describeHorizonError e
      in if ed_status d = 503 then rows
         else case te_faults env ''update.failed'' of
           Some _ \<Rightarrow> rows
         | None \<Rightarrow> update_where (\<lambda>r. col_of c r = Some hash) (mark_failed_row (te_now env) (ed_message d)) rows)"

section \<open>Submitting\<close>

record SubmitResponse =
  sr_hash :: string
  sr_status :: TxStatus
  sr_duplicate :: bool

text \<open>The trace says whether the request reached Horizon.\<close>

record submit_outcome =
  so_result :: "SubmitResponse result"
  so_rows :: "TxRow list"
  so_submitted :: bool

definition submitTransaction :: "tx_env \<Rightarrow> string \<Rightarrow> string \<Rightarrow> tx_kind \<Rightarrow> TxRow list \<Rightarrow> submit_outcome" where
  "submitTransaction env wallet xdr type rows =
     (let stop = (\<lambda>r. \<lparr>so_result = r, so_rows = rows, so_submitted = False\<rparr>)
      in case andThen (parseXdr env xdr) (\<lambda>t.
                andThen (assertOperationAllowlist env t type) (\<lambda>_.
                andThen (assertWalletAuthorizes env t wallet) (\<lambda>_. Inr t))) of
           Inl e \<Rightarrow> stop (Inl e)
         | Inr t \<Rightarrow>
             let h = te_hash env t;
                 duplicate = (\<lambda>r. \<lparr>sr_hash = h, sr_status = rec_status r, sr_duplicate = True\<rparr>)
             in case findTransactionRecord env h rows of
                  Inl e \<Rightarrow> stop (Inl e)
                | Inr (Some r) \<Rightarrow> stop (Inr (duplicate r))
                | Inr None \<Rightarrow>
                    (case persistTransactionRecord env wallet h type xdr rows of
                       Inl e \<Rightarrow>
                         let failed = Inl (internal_error ''TRANSACTION_PERSISTENCE_FAILED'')
                         in if isUniqueViolationError e
                            then (case findTransactionRecord env h rows of
                                    Inl e' \<Rightarrow> stop (Inl e')
                                  | Inr (Some r) \<Rightarrow> stop (Inr (duplicate r))
                                  | Inr None \<Rightarrow> stop failed)
                            else stop failed
                     | Inr (c, rows') \<Rightarrow>
                         (case te_submit env t of
                            Some e \<Rightarrow> \<lparr>so_result = Inl (handleHorizonError e),
                                        so_rows = markTransactionFailed env c h e rows', so_submitted = True\<rparr>
                          | None \<Rightarrow> \<lparr>so_result = Inr \<lparr>sr_hash = h, sr_status = TxPending, sr_duplicate = False\<rparr>,
                                      so_rows = rows', so_submitted = True\<rparr>)))"

section \<open>Reading the status\<close>

record TransactionResultDetails =
  rd_ledger :: int
  rd_operationCount :: int
  rd_sourceAccount :: string
  rd_feeCharged :: string
  rd_memoType :: string
  rd_memo :: "string option"
  rd_createdAt :: int

record TransactionErrorDetails =
  er_code :: string
  er_message :: string
  er_operationCodes :: "string list option"

record TransactionStatusResponse =
  ts_hash :: string
  ts_status :: TxStatus
  ts_type :: "string option"
  ts_result :: "TransactionResultDetails option"
  ts_error :: "TransactionErrorDetails option"
  ts_submittedAt :: "int option"
  ts_confirmedAt :: "int option"
  ts_lastCheckedAt :: int

definition buildPendingTransactionResponse :: "tx_env \<Rightarrow> string \<Rightarrow> TransactionRecord \<Rightarrow> TransactionStatusResponse" where
  "buildPendingTransactionResponse env hash r =
     \<lparr>ts_hash = hash, ts_status = TxPending, ts_type = rec_type r, ts_result = None, ts_error = None,
      ts_submittedAt = Some (rec_submitted r), ts_confirmedAt = None, ts_lastCheckedAt = te_now env\<rparr>"

definition extractSuccessDetails :: "HorizonTransactionRecord \<Rightarrow> TransactionResultDetails" where
  "extractSuccessDetails t =
     \<lparr>rd_ledger = ht_ledger t, rd_operationCount = ht_operation_count t, rd_sourceAccount = ht_source t,
      rd_feeCharged = ht_fee t, rd_memoType = ht_memo_type t, rd_memo = ht_memo t,
      rd_createdAt = ht_created_at t\<rparr>"

definition is_lower_or_digit :: "char \<Rightarrow> bool" where
  "is_lower_or_digit c = (let n = of_char c :: nat in (97 \<le> n \<and> n \<le> 122) \<or> (48 \<le> n \<and> n \<le> 57))"

definition is_upper :: "char \<Rightarrow> bool" where
  "is_upper c = (let n = of_char c :: nat in 65 \<le> n \<and> n \<le> 90)"

fun snake_split :: "string \<Rightarrow> string" where
  "snake_split (x # y # zs) =
     (if is_lower_or_digit x \<and> is_upper y then x # CHR ''_'' # snake_split (y # zs) else x # snake_split (y # zs))"
| "snake_split s = s"

definition toSnakeCase :: "string \<Rightarrow> string" where
  "toSnakeCase s = to_lower (map (\<lambda>c. if c = CHR ''-'' then CHR ''_'' else c) (snake_split s))"

definition humanizeCode :: "string \<Rightarrow> string" where
  "humanizeCode code =
     (case trim (map (\<lambda>c. if c = CHR ''_'' then CHR '' '' else c) code) of
        [] \<Rightarrow> ''.'' | c # cs \<Rightarrow> upper_char c # cs @ ''.'')"

definition extractFailureDetails :: "tx_env \<Rightarrow> string \<Rightarrow> TransactionErrorDetails" where
  "extractFailureDetails env xdr =
     (case te_result env xdr of
        None \<Rightarrow> \<lparr>er_code = ''tx_failed'', er_message = the (map_of HORIZON_ERROR_MAP ''tx_failed''),
                 er_operationCodes = None\<rparr>
      | Some (tx, ops) \<Rightarrow>
          let txc = toSnakeCase tx; opcs = map toSnakeCase ops;
              primary = (case opcs of c # _ \<Rightarrow> c | [] \<Rightarrow> txc)
          in \<lparr>er_code = txc,
              er_message = (case map_of HORIZON_ERROR_MAP primary of Some m \<Rightarrow> m
                 | None \<Rightarrow> (case map_of HORIZON_ERROR_MAP txc of Some m \<Rightarrow> m | None \<Rightarrow> humanizeCode primary)),
              er_operationCodes = (if opcs = [] then None else Some opcs)\<rparr>)"

definition buildFinalizedTransactionResponse ::
  "tx_env \<Rightarrow> HorizonTransactionRecord \<Rightarrow> TransactionRecord option \<Rightarrow> TransactionStatusResponse" where
  "buildFinalizedTransactionResponse env t r =
     \<lparr>ts_hash = to_lower (ht_hash t), ts_status = (if ht_successful t then TxSuccess else TxFailed),
      ts_type = Option.bind r rec_type,
      ts_result = (if ht_successful t then Some (extractSuccessDetails t) else None),
      ts_error = (if ht_successful t then None else Some (extractFailureDetails env (ht_result_xdr t))),
      ts_submittedAt = map_option rec_submitted r, ts_confirmedAt = Some (ht_created_at t),
      ts_lastCheckedAt = te_now env\<rparr>"

definition finalize_row :: "TransactionStatusResponse \<Rightarrow> TxRow \<Rightarrow> TxRow" where
  "finalize_row resp r =
     r\<lparr>tx_status := ts_status resp, tx_error := map_option er_message (ts_error resp),
       tx_completed := ts_confirmedAt resp\<rparr>"

definition persistFinalizedTransaction ::
  "tx_env \<Rightarrow> TransactionRecord option \<Rightarrow> TransactionStatusResponse \<Rightarrow> TxRow list \<Rightarrow> TxRow list" where
  "persistFinalizedTransaction env rec resp rows =
     (case rec of None \<Rightarrow> rows
      | Some r \<Rightarrow>
          (case te_faults env ''update.finalized'' of
             Some _ \<Rightarrow> rows
           | None \<Rightarrow> update_where (\<lambda>x. col_of (rec_column r) x = Some (rec_hash r)) (finalize_row resp) rows))"

definition handleHorizonLookupError :: "horizon_error \<Rightarrow> exn" where
  "handleHorizonLookupError e =
     (let m = to_lower (case he_message e of Some m \<Rightarrow> m | None \<Rightarrow> [])
      in if he_status e \<in> {Some 502, Some 503, Some 504} \<or> str_includes m ''timeout'' \<or>
            str_includes m ''network'' \<or> str_includes m ''socket''
         then unavailable ''HORIZON_UNAVAILABLE'' else internal_error ''TRANSACTION_STATUS_LOOKUP_FAILED'')"

record tx_state =
  txs_rows :: "TxRow list"
  txs_cache :: "(string, TransactionStatusResponse) cache"

text \<open>Time-to-live 0: the cache manager keeps the entry without expiry (\<open>forever\<close>).\<close>

definition forever :: int where "forever = 10 ^ 15"

definition getTransactionStatus ::
  "tx_env \<Rightarrow> string \<Rightarrow> tx_state \<Rightarrow> TransactionStatusResponse result \<times> tx_state" where
  "getTransactionStatus env hash st =
     (let h = to_lower hash
      in case cache_get (te_now env) (txs_cache st) h of
           Some r \<Rightarrow> (Inr r, st)
         | None \<Rightarrow>
             (case findTransactionRecord env h (txs_rows st) of
                Inl e \<Rightarrow> (Inl e, st)
              | Inr rec \<Rightarrow>
                  (case te_lookup env h of
                     Inr t \<Rightarrow>
                       let resp = buildFinalizedTransactionResponse env t rec
                       in (Inr resp, \<lparr>txs_rows = persistFinalizedTransaction env rec resp (txs_rows st),
                                      txs_cache = cache_set (te_now env) forever h resp (txs_cache st)\<rparr>)
                   | Inl e \<Rightarrow>
                       (if isHorizonNotFoundError e
                        then (case rec of
                                Some r \<Rightarrow> Inr (buildPendingTransactionResponse env h r)
                              | None \<Rightarrow> Inl (not_found ''TRANSACTION_NOT_FOUND''))
                        else Inl (handleHorizonLookupError e), st))))"

section \<open>Lemmas\<close>

definition hash_taken :: "string \<Rightarrow> TxRow list \<Rightarrow> bool" where
  "hash_taken h rows \<longleftrightarrow> (\<exists>r \<in> set rows. tx_thash r = Some h \<or> tx_lhash r = Some h)"

text \<open>The unique indexes of the table.\<close>

definition tx_unique :: "TxRow list \<Rightarrow> bool" where
  "tx_unique rows \<longleftrightarrow> (\<forall>c h. length (filter (\<lambda>r. col_of c r = Some h) rows) \<le> 1)"

text \<open>The column exists, so PostgREST never reports it as unknown.\<close>

definition has_columns :: "tx_env \<Rightarrow> bool" where
  "has_columns env \<longleftrightarrow> (\<forall>call e. te_faults env call = Some e \<longrightarrow> \<not> isUnknownColumnError e)"

lemma unique_not_unknown [simp]: "\<not> isUnknownColumnError unique_violation"
  "\<not> isUnknownColumnError pgrst116"
  by (simp_all add: isUnknownColumnError_def unique_violation_def pgrst116_def str_includes_def
      to_lower_def lower_char_def Let_def sublist_code)

lemma unique_is_unique [simp]: "isUniqueViolationError (rethrown unique_violation)"
  by (simp add: isUniqueViolationError_def rethrown_def unique_violation_def str_includes_def
      to_lower_def lower_char_def Let_def sublist_code)

lemma persist_tx_Inr:
  assumes "has_columns env"
  shows "persistTransactionRecord env w h ty xdr rows = Inr (c, rows') \<longleftrightarrow>
    te_faults env ''insert.transaction_hash'' = None \<and> c = ColTransactionHash \<and>
    (\<forall>r \<in> set rows. tx_thash r \<noteq> Some h) \<and> rows' = rows @ [new_tx_row env ColTransactionHash w h ty xdr]"
proof (cases "te_faults env ''insert.transaction_hash''")
  case None
  then show ?thesis
    by (auto simp: persistTransactionRecord_def insert_unique_def tx_clash_def new_tx_row_def)
next
  case (Some e)
  then show ?thesis using assms by (simp add: persistTransactionRecord_def has_columns_def)
qed

record persist_request =
  pr_env :: tx_env
  pr_wallet :: string
  pr_hash :: string
  pr_type :: tx_kind
  pr_xdr :: string

definition persist_claim :: "persist_request \<Rightarrow> TxRow list \<Rightarrow> TxRow list option" where
  "persist_claim q rows =
     (case persistTransactionRecord (pr_env q) (pr_wallet q) (pr_hash q) (pr_type q) (pr_xdr q) rows of
        Inr (_, rows') \<Rightarrow> Some rows' | Inl _ \<Rightarrow> None)"

definition hash_recorded :: "string \<Rightarrow> TxRow list \<Rightarrow> bool" where
  "hash_recorded h rows \<longleftrightarrow> (\<exists>r \<in> set rows. tx_thash r = Some h)"

lemma persist_claim_Some:
  assumes "has_columns (pr_env q)"
  shows "persist_claim q rows = Some rows' \<longleftrightarrow>
    te_faults (pr_env q) ''insert.transaction_hash'' = None \<and> \<not> hash_recorded (pr_hash q) rows \<and>
    rows' = rows @ [new_tx_row (pr_env q) ColTransactionHash (pr_wallet q) (pr_hash q) (pr_type q) (pr_xdr q)]"
proof -
  note P = persist_tx_Inr [OF assms, of "pr_wallet q" "pr_hash q" "pr_type q" "pr_xdr q" rows]
  show ?thesis
  proof (cases "persistTransactionRecord (pr_env q) (pr_wallet q) (pr_hash q) (pr_type q) (pr_xdr q) rows")
    case (Inl e)
    then show ?thesis using P [of ColTransactionHash rows'] by (auto simp: persist_claim_def hash_recorded_def)
  next
    case (Inr cr)
    then show ?thesis
      using P [of "fst cr" "snd cr"] by (cases cr) (auto simp: persist_claim_def hash_recorded_def)
  qed
qed

interpretation submit: claim_once persist_claim pr_hash "\<lambda>q. has_columns (pr_env q)" hash_recorded
  by unfold_locales (auto simp: persist_claim_Some hash_recorded_def new_tx_row_def)

lemma check_operation_Inr:
  "check_operation env ty op = Inr u \<longleftrightarrow>
     (\<exists>f a au. op = InvokeHostFunction f a au \<and>
        (\<exists>n \<in> set (al_functions (TRANSACTION_TYPE_ALLOWLIST ty)). present f = Some n) \<and>
        (\<exists>c e. present (te_config env (al_contract_key (TRANSACTION_TYPE_ALLOWLIST ty))) = Some e \<and>
           present (ia_contract (extractInvocationAttributes env op)) = Some c \<and> c = trim e))"
  by (auto simp: check_operation_def Let_def extractInvocationAttributes_def
      split: operation.splits option.splits if_splits)

lemma check_operations_Inr: "check_operations env ty ops = Inr u \<longleftrightarrow> (\<forall>op \<in> set ops. check_operation env ty op = Inr ())"
  by (induction ops) (auto simp: andThen_Inr_iff)

definition guards :: "tx_env \<Rightarrow> string \<Rightarrow> string \<Rightarrow> tx_kind \<Rightarrow> transaction result" where
  "guards env wallet xdr type =
     andThen (parseXdr env xdr) (\<lambda>t.
     andThen (assertOperationAllowlist env t type) (\<lambda>_.
     andThen (assertWalletAuthorizes env t wallet) (\<lambda>_. Inr t)))"

lemma guards_Inr:
  "guards env w xdr ty = Inr t \<longleftrightarrow>
     te_parse env xdr = Some t \<and> tr_operations (getInnerTransaction t) \<noteq> [] \<and>
     (\<forall>op \<in> set (tr_operations (getInnerTransaction t)). check_operation env ty op = Inr ()) \<and>
     (tr_source (getInnerTransaction t) = w \<or> w \<in> set (collectAuthorizedAddresses env t))"
  by (auto simp: guards_def andThen_Inr_iff parseXdr_def assertOperationAllowlist_def Let_def
      check_operations_Inr assertWalletAuthorizes_def split: option.splits if_splits)

lemma submit_unfold:
  "submitTransaction env w xdr ty rows =
     (case guards env w xdr ty of
        Inl e \<Rightarrow> \<lparr>so_result = Inl e, so_rows = rows, so_submitted = False\<rparr>
      | Inr t \<Rightarrow> submitTransaction env w xdr ty rows)"
  by (simp add: submitTransaction_def guards_def Let_def split: sum.splits)

text \<open>The only way to Horizon: the guards pass, no record is found, and one is persisted.\<close>

lemma submit_reaches:
  assumes "so_submitted (submitTransaction env w xdr ty rows)"
  shows "\<exists>t c rows'. guards env w xdr ty = Inr t \<and> findTransactionRecord env (te_hash env t) rows = Inr None \<and>
    persistTransactionRecord env w (te_hash env t) ty xdr rows = Inr (c, rows') \<and>
    so_rows (submitTransaction env w xdr ty rows) =
      (case te_submit env t of None \<Rightarrow> rows' | Some e \<Rightarrow> markTransactionFailed env c (te_hash env t) e rows') \<and>
    so_result (submitTransaction env w xdr ty rows) =
      (case te_submit env t of
         None \<Rightarrow> Inr \<lparr>sr_hash = te_hash env t, sr_status = TxPending, sr_duplicate = False\<rparr>
       | Some e \<Rightarrow> Inl (handleHorizonError e))"
  using assms
  by (auto simp: submitTransaction_def guards_def [symmetric] Let_def
      split: sum.splits option.splits if_splits)

lemma find_column_unique:
  assumes "tx_unique rows" and "r \<in> set rows" and "col_of c r = Some h"
  shows "filter (\<lambda>x. col_of c x = Some h) rows = [r]"
proof -
  have "length (filter (\<lambda>x. col_of c x = Some h) rows) \<le> 1" using assms(1) by (simp add: tx_unique_def)
  moreover have "r \<in> set (filter (\<lambda>x. col_of c x = Some h) rows)" using assms(2,3) by simp
  ultimately show ?thesis by (cases "filter (\<lambda>x. col_of c x = Some h) rows") auto
qed

lemma find_column_cases:
  assumes "tx_unique rows" and "te_faults env call = None"
  shows "(\<exists>r \<in> set rows. col_of c r = Some h \<and> find_in_column env call c h rows = Inr (Some r)) \<or>
         (\<forall>r \<in> set rows. col_of c r \<noteq> Some h) \<and> find_in_column env call c h rows = Inr None"
proof (cases "\<exists>r \<in> set rows. col_of c r = Some h")
  case True
  then obtain r where r: "r \<in> set rows" "col_of c r = Some h" by blast
  from find_column_unique [OF assms(1) r] have "find_in_column env call c h rows = Inr (Some r)"
    by (simp add: find_in_column_def assms(2) maybe_single_def)
  with r show ?thesis by blast
next
  case False
  then have "filter (\<lambda>r. col_of c r = Some h) rows = []" by (simp add: filter_empty_conv)
  with False show ?thesis by (simp add: find_in_column_def assms(2) maybe_single_def)
qed

lemma find_record_recorded:
  assumes "tx_unique rows" and "te_faults env ''find.hash'' = None" "te_faults env ''find.transaction_hash'' = None"
    and "hash_taken h rows"
  shows "\<exists>r c. r \<in> set rows \<and> col_of c r = Some h \<and> findTransactionRecord env h rows = Inr (Some (record_of c h r))"
  using find_column_cases [OF assms(1,2), of ColHash h]
proof (elim disjE bexE conjE)
  fix r assume "r \<in> set rows" "col_of ColHash r = Some h" "find_in_column env ''find.hash'' ColHash h rows = Inr (Some r)"
  then show ?thesis
    by (intro exI [of _ r] exI [of _ ColHash]) (simp add: findTransactionRecord_def)
next
  assume n: "\<forall>r \<in> set rows. col_of ColHash r \<noteq> Some h" "find_in_column env ''find.hash'' ColHash h rows = Inr None"
  then obtain r where "r \<in> set rows" "col_of ColTransactionHash r = Some h"
    using assms(4) by (auto simp: hash_taken_def col_of_def)
  with find_column_cases [OF assms(1,3), of ColTransactionHash h] obtain r'
    where "r' \<in> set rows" "col_of ColTransactionHash r' = Some h"
      "find_in_column env ''find.transaction_hash'' ColTransactionHash h rows = Inr (Some r')" by blast
  with n(2) show ?thesis
    by (intro exI [of _ r'] exI [of _ ColTransactionHash]) (simp add: findTransactionRecord_def)
qed

section \<open>Properties\<close>

text \<open>C2: Nothing reaches Horizon unless it is the caller's and of the declared type: every
  operation invokes a function the type allows on exactly the contract configured for it, and
  the wallet is the source or an authorizer of the transaction.\<close>

theorem submit_only_authorized:
  assumes "so_submitted (submitTransaction env w xdr ty rows)"
  shows "\<exists>t. te_parse env xdr = Some t \<and> tr_operations (getInnerTransaction t) \<noteq> [] \<and>
    (\<forall>op \<in> set (tr_operations (getInnerTransaction t)). \<exists>n id.
       fn_name op = Some n \<and> n \<in> set (al_functions (TRANSACTION_TYPE_ALLOWLIST ty)) \<and>
       te_config env (al_contract_key (TRANSACTION_TYPE_ALLOWLIST ty)) = Some id \<and>
       ia_contract (extractInvocationAttributes env op) = Some (trim id)) \<and>
    (tr_source (getInnerTransaction t) = w \<or> w \<in> set (collectAuthorizedAddresses env t))"
proof -
  from submit_reaches [OF assms] obtain t where t: "guards env w xdr ty = Inr t" by blast
  have "\<exists>n id. fn_name op = Some n \<and> n \<in> set (al_functions (TRANSACTION_TYPE_ALLOWLIST ty)) \<and>
      te_config env (al_contract_key (TRANSACTION_TYPE_ALLOWLIST ty)) = Some id \<and>
      ia_contract (extractInvocationAttributes env op) = Some (trim id)"
    if "check_operation env ty op = Inr ()" for op
    using that by (auto simp: check_operation_Inr present_Some)
  with t show ?thesis unfolding guards_Inr by blast
qed

definition demo_inner :: InnerTransaction where
  "demo_inner = \<lparr>tr_source = ''GA'', tr_operations =
     [InvokeHostFunction (Some ''repay_installment'') (Some (RawBuffer (replicate 32 7))) []]\<rparr>"

definition demo_tx_env :: tx_env where
  "demo_tx_env = \<lparr>te_parse = (\<lambda>x. if x = ''AAAA'' then Some (PlainTx demo_inner) else None),
     te_hash = (\<lambda>_. ''abcd''), te_encode = (\<lambda>b. Some ''CCREDIT''), te_config = (\<lambda>_. Some '' CCREDIT''),
     te_submit = (\<lambda>_. None), te_lookup = (\<lambda>_. Inl \<lparr>he_codes = None, he_message = None, he_status = Some 404\<rparr>),
     te_result = (\<lambda>_. None), te_now = 5000, te_pk = ''t1'', te_faults = no_faults\<rparr>"

lemma demo_submits: "so_submitted (submitTransaction demo_tx_env ''GA'' ''AAAA'' LoanRepay [])"
  by (simp add: demo_tx_env_def demo_inner_def submitTransaction_def parseXdr_def Let_def
      assertOperationAllowlist_def check_operation_def extractInvocationAttributes_def address_bytes_def
      present_def trim_def is_space_def assertWalletAuthorizes_def findTransactionRecord_def
      find_in_column_def maybe_single_def persistTransactionRecord_def insert_unique_def)

theorem submit_only_authorized_witness:
  "\<exists>t. te_parse demo_tx_env ''AAAA'' = Some t \<and> tr_operations (getInnerTransaction t) \<noteq> []"
  using submit_only_authorized [OF demo_submits] by blast

text \<open>A hash that is already recorded is never submitted again: with the unique indexes in
  place and the lookups working, the answer of a valid request is the recorded status, marked
  as a duplicate, and no row changes.\<close>

theorem submit_idempotent:
  assumes "guards env w xdr ty = Inr t" and "hash_taken (te_hash env t) rows" and "tx_unique rows"
    and "te_faults env ''find.hash'' = None" and "te_faults env ''find.transaction_hash'' = None"
  shows "\<not> so_submitted (submitTransaction env w xdr ty rows) \<and>
    so_rows (submitTransaction env w xdr ty rows) = rows \<and>
    (\<exists>r \<in> set rows. (tx_thash r = Some (te_hash env t) \<or> tx_lhash r = Some (te_hash env t)) \<and>
       so_result (submitTransaction env w xdr ty rows) =
         Inr \<lparr>sr_hash = te_hash env t, sr_status = tx_status r, sr_duplicate = True\<rparr>)"
proof -
  from find_record_recorded [OF assms(3-5,2)] obtain r c where r: "r \<in> set rows" "col_of c r = Some (te_hash env t)"
    and f: "findTransactionRecord env (te_hash env t) rows = Inr (Some (record_of c (te_hash env t) r))" by blast
  have "tx_thash r = Some (te_hash env t) \<or> tx_lhash r = Some (te_hash env t)"
    using r(2) by (cases c) (simp_all add: col_of_def)
  with r(1) f show ?thesis
    by (auto simp: submitTransaction_def guards_def [symmetric] assms(1) Let_def record_of_def)
qed

theorem submit_idempotent_witness:
  "\<not> so_submitted (submitTransaction demo_tx_env ''GA'' ''AAAA'' LoanRepay
     (so_rows (submitTransaction demo_tx_env ''GA'' ''AAAA'' LoanRepay [])))"
proof -
  obtain t c rows' where g: "guards demo_tx_env ''GA'' ''AAAA'' LoanRepay = Inr t"
    and p: "persistTransactionRecord demo_tx_env ''GA'' (te_hash demo_tx_env t) LoanRepay ''AAAA'' [] = Inr (c, rows')"
    and s: "so_rows (submitTransaction demo_tx_env ''GA'' ''AAAA'' LoanRepay []) = rows'"
    using submit_reaches [OF demo_submits] by (auto simp: demo_tx_env_def)
  have "has_columns demo_tx_env" by (simp add: has_columns_def demo_tx_env_def)
  from persist_tx_Inr [OF this] p have r: "rows' = [new_tx_row demo_tx_env ColTransactionHash ''GA'' (te_hash demo_tx_env t) LoanRepay ''AAAA'']"
    by auto
  show ?thesis unfolding s
    by (rule submit_idempotent [OF g, THEN conjunct1])
      (simp_all add: r hash_taken_def tx_unique_def new_tx_row_def demo_tx_env_def)
qed

text \<open>C15: However concurrent submissions of one hash interleave with each other and with any steps
  that do not delete its record, at most one of them is persisted, and only a persisted
  submission goes on to Horizon.\<close>

theorem submit_at_most_once:
  assumes "submit.keeps h es"
  shows "submit.wins h es rows \<le> 1 \<and>
    (so_submitted (submitTransaction env w xdr ty rows') \<longrightarrow>
       (\<exists>t c rows''. persistTransactionRecord env w (te_hash env t) ty xdr rows' = Inr (c, rows'')))"
  using submit.wins_le_1 [OF assms] submit_reaches [of env w xdr ty rows'] by blast

theorem submit_at_most_once_witness:
  "submit.wins ''abcd'' [Claim \<lparr>pr_env = demo_tx_env, pr_wallet = ''GA'', pr_hash = ''abcd'', pr_type = LoanRepay, pr_xdr = ''AAAA''\<rparr>,
     Claim \<lparr>pr_env = demo_tx_env, pr_wallet = ''GB'', pr_hash = ''abcd'', pr_type = LoanRepay, pr_xdr = ''AAAA''\<rparr>] [] \<le> 1"
  by (rule submit_at_most_once [where w = w and xdr = x and ty = ty and rows' = r and env = e, THEN conjunct1])
    (simp only: submit.keeps_Cons submit.keeps_Nil event.case, simp add: has_columns_def demo_tx_env_def)

text \<open>The record of a submitted transaction tells what became of it: it stays pending exactly
  when Horizon accepted the transaction or the network outcome is unknown (503), is failed
  with the mapped message otherwise, and no other row changes.\<close>

theorem submit_records_outcome:
  assumes "so_submitted (submitTransaction env w xdr ty rows)" and "has_columns env"
    and "te_faults env ''update.failed'' = None" and "te_parse env xdr = Some t"
  shows "\<exists>row. so_rows (submitTransaction env w xdr ty rows) = rows @ [row] \<and>
    tx_wallet row = w \<and> tx_thash row = Some (te_hash env t) \<and> tx_type row = Some (kind_name ty) \<and>
    tx_status row = (case te_submit env t of None \<Rightarrow> TxPending
       | Some e \<Rightarrow> if ed_status (describeHorizonError e) = 503 then TxPending else TxFailed) \<and>
    tx_error row = (case te_submit env t of None \<Rightarrow> None
       | Some e \<Rightarrow> if ed_status (describeHorizonError e) = 503 then None
                   else Some (ed_message (describeHorizonError e)))"
proof -
  from submit_reaches [OF assms(1)] obtain t' c rows' where t': "guards env w xdr ty = Inr t'"
    and p: "persistTransactionRecord env w (te_hash env t') ty xdr rows = Inr (c, rows')"
    and s: "so_rows (submitTransaction env w xdr ty rows) =
      (case te_submit env t' of None \<Rightarrow> rows' | Some e \<Rightarrow> markTransactionFailed env c (te_hash env t') e rows')"
    by blast
  have tt: "t' = t" using t' assms(4) by (simp add: guards_Inr)
  define row where "row = new_tx_row env ColTransactionHash w (te_hash env t) ty xdr"
  from p persist_tx_Inr [OF assms(2)] have c: "c = ColTransactionHash" and rows': "rows' = rows @ [row]"
    and new: "\<forall>r \<in> set rows. tx_thash r \<noteq> Some (te_hash env t)" by (auto simp: tt row_def)
  have row: "tx_wallet row = w" "tx_thash row = Some (te_hash env t)" "tx_type row = Some (kind_name ty)"
    "tx_status row = TxPending" "tx_error row = None" by (simp_all add: row_def new_tx_row_def)
  have upd: "update_where (\<lambda>r. col_of c r = Some (te_hash env t)) f (rows @ [row]) = rows @ [f row]" for f
    using new row(2) by (auto simp: update_where_def c col_of_def map_idI)
  show ?thesis
    unfolding s tt rows' markTransactionFailed_def Let_def assms(3) option.case upd
    using row by (auto simp: mark_failed_row_def split: option.splits)
qed

theorem submit_records_outcome_witness:
  "\<exists>row. so_rows (submitTransaction demo_tx_env ''GA'' ''AAAA'' LoanRepay []) = [row] \<and> tx_status row = TxPending"
  using submit_records_outcome [OF demo_submits, of "PlainTx demo_inner"]
  by (auto simp: demo_tx_env_def has_columns_def)

text \<open>A status read from Horizon is final: once it has been answered, every later request for
  that hash gets the very same answer, without Horizon or the database.\<close>

theorem status_final:
  assumes "cache_get (te_now env) (txs_cache st) (to_lower h) = None"
    and "getTransactionStatus env h st = (Inr r, st')" and "ts_status r \<noteq> TxPending"
    and "te_now env' < te_now env + forever"
  shows "getTransactionStatus env' h st' = (Inr r, st')"
proof -
  have "txs_cache st' = cache_set (te_now env) forever (to_lower h) r (txs_cache st)"
    using assms(1-3)
    by (auto simp: getTransactionStatus_def Let_def buildPendingTransactionResponse_def
        split: option.splits sum.splits if_splits)
  then have "cache_get (te_now env') (txs_cache st') (to_lower h) = Some r"
    using assms(4) by (simp add: cache_get_def cache_set_def)
  then show ?thesis by (simp add: getTransactionStatus_def Let_def)
qed

definition demo_horizon :: HorizonTransactionRecord where
  "demo_horizon = \<lparr>ht_hash = ''ABCD'', ht_successful = True, ht_ledger = 5, ht_operation_count = 1, ht_source = ''GA'',
     ht_fee = ''100'', ht_memo_type = ''none'', ht_memo = None, ht_created_at = 4000, ht_result_xdr = []\<rparr>"

definition demo_final_env :: tx_env where
  "demo_final_env = demo_tx_env\<lparr>te_lookup := (\<lambda>_. Inr demo_horizon)\<rparr>"

theorem status_final_witness:
  "\<exists>r st'. getTransactionStatus demo_final_env ''abcd'' \<lparr>txs_rows = [], txs_cache = Map.empty\<rparr> = (Inr r, st') \<and>
     getTransactionStatus (demo_tx_env\<lparr>te_now := 900000\<rparr>) ''abcd'' st' = (Inr r, st')"
proof -
  define out where "out = getTransactionStatus demo_final_env ''abcd'' \<lparr>txs_rows = [], txs_cache = Map.empty\<rparr>"
  have "fst out = Inr (buildFinalizedTransactionResponse demo_final_env demo_horizon None)"
    by (simp add: out_def getTransactionStatus_def Let_def cache_get_def findTransactionRecord_def
        find_in_column_def maybe_single_def demo_final_env_def demo_tx_env_def)
  moreover define r where "r = buildFinalizedTransactionResponse demo_final_env demo_horizon None"
  ultimately have r: "out = (Inr r, snd out)" "ts_status r \<noteq> TxPending"
    by (metis prod.collapse) (simp add: r_def buildFinalizedTransactionResponse_def demo_horizon_def)
  have first: "getTransactionStatus demo_final_env ''abcd'' \<lparr>txs_rows = [], txs_cache = Map.empty\<rparr> = (Inr r, snd out)"
    unfolding out_def [symmetric] by (rule r(1))
  have "getTransactionStatus (demo_tx_env\<lparr>te_now := 900000\<rparr>) ''abcd'' (snd out) = (Inr r, snd out)"
    by (rule status_final [OF _ first r(2)])
      (simp_all add: cache_get_def demo_final_env_def demo_tx_env_def forever_def)
  with r(1) show ?thesis unfolding out_def by blast
qed

end
