(* ===== verification/StatusChecker.thy ===== *)
theory StatusChecker imports Transactions Loans begin

text \<open>
  The job that settles pending transactions
  (\<open>jobs/transaction-status-checker/transaction-status-checker.service.ts\<close>): it asks Horizon
  about each pending transaction, marks it \<open>success\<close> or \<open>failed\<close>, and applies the follow-up to
  the loans (activation of a created loan, reduction of the balance by a repayment).
\<close>

text \<open>
  A Horizon answer (a found transaction with its result codes: the code of the transaction and
  the codes as JSON text, if there are any), and what the job reads of a stored envelope: whether its first operation is
  a contract invocation, its function name and its arguments as native values (\<open>None\<close> where
  \<open>scValToNative\<close> throws).
\<close>

datatype horizon_reply = HFound bool "(string option \<times> string) option" | HNotFound
  | HError (he_network: bool) (he_code: "nat option") (he_text: string)

datatype stored_call = NotInvocation | StoredCall "string option" "native option list option"

record Notification =
  n_wallet :: string
  n_type :: string
  n_title :: string
  n_hash :: "string option"
  n_tx_type :: "string option"
  n_loan :: "string option"

record checker_state =
  ck_tx :: "TxRow list"
  ck_loans :: "LoanRow list"
  ck_notes :: "Notification list"
  ck_running :: bool

text \<open>Horizon answers per hash and attempt; faults are per transaction row.\<close>

record checker_env =
  ce_now :: int
  ce_horizon :: "string option \<Rightarrow> nat \<Rightarrow> horizon_reply"
  ce_parse :: "string \<Rightarrow> stored_call option"
  ce_faults :: "string \<Rightarrow> faults"

section \<open>Asking Horizon\<close>

definition isTransientHorizonError :: "bool \<Rightarrow> nat option \<Rightarrow> string \<Rightarrow> bool" where
  "isTransientHorizonError network code msg \<longleftrightarrow>
     network \<or> (case code of Some c \<Rightarrow> c = 429 \<or> 500 \<le> c | None \<Rightarrow> False) \<or>
     (let m = to_lower msg
      in str_includes m ''timeout'' \<or> str_includes m ''rate limit'' \<or> str_includes m ''throttl'' \<or>
         str_includes m ''temporar'' \<or> str_includes m ''network'')"

definition maxAttempts :: nat where "maxAttempts = 3"

definition extractHorizonError :: "(string option \<times> string) option \<Rightarrow> string option" where
  "extractHorizonError codes =
     (case codes of None \<Rightarrow> None
      | Some (t, json) \<Rightarrow> (case present t of Some c \<Rightarrow> Some c | None \<Rightarrow> Some json))"

datatype status_result = StatusUnknown | StatusFound bool "string option"

function ask_horizon :: "checker_env \<Rightarrow> string option \<Rightarrow> nat \<Rightarrow> status_result result" where
  "ask_horizon env h attempt =
     (if attempt < maxAttempts
      then (case ce_horizon env h (attempt + 1) of
              HFound ok codes \<Rightarrow> Inr (StatusFound ok (extractHorizonError codes))
            | HNotFound \<Rightarrow> Inr StatusUnknown
            | HError network code msg \<Rightarrow>
                if \<not> isTransientHorizonError network code msg \<or> maxAttempts \<le> attempt + 1
                then Inl (JsError msg)
                else ask_horizon env h (attempt + 1))
      else Inr StatusUnknown)"
  by pat_completeness auto
termination by (relation "measure (\<lambda>(env, h, attempt). maxAttempts - attempt)") auto

declare ask_horizon.simps [simp del]

definition checkTransactionStatus :: "checker_env \<Rightarrow> string option \<Rightarrow> status_result result" where
  "checkTransactionStatus env h = ask_horizon env h 0"

section \<open>Follow-up actions\<close>

record TransactionMetadata =
  md_loanId :: "native option"
  md_amount :: "num option"

definition arg_at :: "native option list \<Rightarrow> nat \<Rightarrow> native option" where
  "arg_at args i = (if i < length args then args ! i else None)"

definition parseTransactionMetadata :: "checker_env \<Rightarrow> string \<Rightarrow> TransactionMetadata option" where
  "parseTransactionMetadata env xdr =
     (if xdr = [] then None
      else case ce_parse env xdr of
        Some (StoredCall (Some (c # cs)) (Some args)) \<Rightarrow>
          if c # cs = ''create_loan'' then Some \<lparr>md_loanId = arg_at args 0, md_amount = None\<rparr>
          else if c # cs = ''repay_loan''
          then Some \<lparr>md_loanId = arg_at args 1,
                     md_amount = (case arg_at args 2 of
                        Some (NBig i) \<Rightarrow> Some (jdiv (fl (of_int i)) 10000000)
                      | Some (NNum i) \<Rightarrow> Some (jdiv (of_int i) 10000000) | _ \<Rightarrow> None)\<rparr>
          else None
      | _ \<Rightarrow> None)"

record FollowUpResult =
  fu_loanId :: "string option"
  fu_remaining :: "num option"
  fu_status :: "LoanStatus option"

definition no_follow_up :: FollowUpResult where
  "no_follow_up = \<lparr>fu_loanId = None, fu_remaining = None, fu_status = None\<rparr>"

definition loan_of :: "string \<Rightarrow> string \<Rightarrow> LoanRow \<Rightarrow> bool" where
  "loan_of lid wallet l \<longleftrightarrow> loan_id l = lid \<and> loan_wallet l = wallet"

definition activatePendingLoan :: "faults \<Rightarrow> string \<Rightarrow> string \<Rightarrow> LoanRow list \<Rightarrow> FollowUpResult \<times> LoanRow list" where
  "activatePendingLoan flt lid wallet loans =
     (let only = no_follow_up\<lparr>fu_loanId := Some lid\<rparr>
      in case with_fault (flt ''activate.select'') (single (filter (loan_of lid wallet) loans)) of
           Inl _ \<Rightarrow> (only, loans)
         | Inr l \<Rightarrow>
             if loan_status l \<noteq> LoanPending then (only\<lparr>fu_status := Some (loan_status l)\<rparr>, loans)
             else (case flt ''activate.update'' of
                     Some _ \<Rightarrow> (only, loans)
                   | None \<Rightarrow> (only\<lparr>fu_status := Some LoanActive\<rparr>,
                       update_where (\<lambda>x. loan_of lid wallet x \<and> loan_status x = LoanPending)
                         (set_status LoanActive) loans)))"

definition repaid_balance :: "num \<Rightarrow> num \<Rightarrow> num" where
  "repaid_balance current amt = max 0 (jdiv (math_round (jmul (jsub current amt) 100)) 100)"

definition repay_row :: "int \<Rightarrow> num \<Rightarrow> LoanStatus \<Rightarrow> LoanStatus \<Rightarrow> LoanRow \<Rightarrow> LoanRow" where
  "repay_row now balance old new l =
     (let l1 = l\<lparr>loan_balance := balance\<rparr>
      in if new = old then l1 else l1\<lparr>loan_status := new, loan_completed := Some now\<rparr>)"

definition applyLoanRepayment ::
  "int \<Rightarrow> faults \<Rightarrow> string \<Rightarrow> string \<Rightarrow> num \<Rightarrow> LoanRow list \<Rightarrow> FollowUpResult \<times> LoanRow list" where
  "applyLoanRepayment now flt lid wallet amt loans =
     (let only = no_follow_up\<lparr>fu_loanId := Some lid\<rparr>
      in case with_fault (flt ''repay.select'') (single (filter (loan_of lid wallet) loans)) of
           Inl _ \<Rightarrow> (only, loans)
         | Inr l \<Rightarrow>
             let new = repaid_balance (loan_balance l) amt;
                 status = (if new = 0 then LoanCompleted else loan_status l)
             in (case flt ''repay.update'' of
                   Some _ \<Rightarrow> (only, loans)
                 | None \<Rightarrow> (only\<lparr>fu_remaining := Some new, fu_status := Some status\<rparr>,
                     update_where (loan_of lid wallet) (repay_row now new (loan_status l) status) loans)))"

definition applyFollowUpActions ::
  "checker_env \<Rightarrow> TxRow \<Rightarrow> bool \<Rightarrow> LoanRow list \<Rightarrow> FollowUpResult \<times> LoanRow list" where
  "applyFollowUpActions env tx ok loans =
     (let flt = ce_faults env (tx_pk tx)
      in if \<not> ok then (no_follow_up, loans)
         else case parseTransactionMetadata env (tx_xdr tx) of
           None \<Rightarrow> (no_follow_up, loans)
         | Some m \<Rightarrow>
             (case md_loanId m of
                None \<Rightarrow> (no_follow_up, loans)
              | Some v \<Rightarrow>
                  if \<not> truthy v then (no_follow_up, loans)
                  else let lid = native_text v
                       in if tx_type tx = Some ''loan_create''
                          then activatePendingLoan flt lid (tx_wallet tx) loans
                          else case (tx_type tx = Some ''loan_repay'', md_amount m) of
                            (True, Some amt) \<Rightarrow> applyLoanRepayment (ce_now env) flt lid (tx_wallet tx) amt loans
                          | _ \<Rightarrow> (no_follow_up\<lparr>fu_loanId := Some lid\<rparr>, loans)))"

section \<open>Finalizing a transaction\<close>

text \<open>The payload's type and title; a null type makes \<open>transaction.type.replace\<close> throw.\<close>

definition notification_payload :: "TxRow \<Rightarrow> bool \<Rightarrow> (string \<times> string) option" where
  "notification_payload tx ok =
     (if \<not> ok then (case tx_type tx of None \<Rightarrow> None | Some _ \<Rightarrow> Some (''transaction_failed'', ''Transaction Failed''))
      else if tx_type tx = Some ''loan_create'' then Some (''loan_create_success'', ''Loan Activated'')
      else if tx_type tx = Some ''loan_repay'' then Some (''loan_repay_success'', ''Loan Payment Confirmed'')
      else (case tx_type tx of None \<Rightarrow> None | Some _ \<Rightarrow> Some (''transaction_success'', ''Transaction Confirmed'')))"

definition createNotification ::
  "checker_env \<Rightarrow> TxRow \<Rightarrow> bool \<Rightarrow> FollowUpResult \<Rightarrow> Notification list \<Rightarrow> Notification list" where
  "createNotification env tx ok fu notes =
     (case notification_payload tx ok of
        None \<Rightarrow> notes
      | Some (t, title) \<Rightarrow>
          (case ce_faults env (tx_pk tx) ''notifications.insert'' of
             Some _ \<Rightarrow> notes
           | None \<Rightarrow> notes @ [\<lparr>n_wallet = tx_wallet tx, n_type = t, n_title = title, n_hash = tx_thash tx,
                              n_tx_type = tx_type tx, n_loan = fu_loanId fu\<rparr>]))"

definition awaiting :: "string option \<Rightarrow> TxRow \<Rightarrow> bool" where
  "awaiting h r \<longleftrightarrow> h \<noteq> None \<and> tx_thash r = h \<and> tx_status r = TxPending"

definition settle_row :: "int \<Rightarrow> bool \<Rightarrow> string option \<Rightarrow> TxRow \<Rightarrow> TxRow" where
  "settle_row now ok msg r =
     (let r1 = r\<lparr>tx_status := (if ok then TxSuccess else TxFailed), tx_completed := Some now\<rparr>
      in case present msg of Some m \<Rightarrow> r1\<lparr>tx_error := Some m\<rparr> | None \<Rightarrow> r1)"

text \<open>
  The conditional update: \<open>.eq('status', 'pending') ... .single()\<close>. It fails, changing nothing,
  unless exactly one pending row has the hash.
\<close>

definition claim_pending :: "checker_env \<Rightarrow> TxRow \<Rightarrow> bool \<Rightarrow> string option \<Rightarrow> TxRow list \<Rightarrow> db_error + TxRow list" where
  "claim_pending env tx ok msg rows =
     (case with_fault (ce_faults env (tx_pk tx) ''finalize'') (single (filter (awaiting (tx_thash tx)) rows)) of
        Inl e \<Rightarrow> Inl e
      | Inr _ \<Rightarrow> Inr (update_where (awaiting (tx_thash tx)) (settle_row (ce_now env) ok msg) rows))"

definition finalizeTransaction ::
  "checker_env \<Rightarrow> TxRow \<Rightarrow> bool \<Rightarrow> string option \<Rightarrow> checker_state \<Rightarrow> unit result \<times> checker_state" where
  "finalizeTransaction env tx ok msg st =
     (case claim_pending env tx ok msg (ck_tx st) of
        Inl e \<Rightarrow> (Inl (JsError (err_message e)), st)
      | Inr rows \<Rightarrow>
          let (fu, loans) = applyFollowUpActions env tx ok (ck_loans st)
          in (if notification_payload tx ok = None then Inl (JsError ''type is null'') else Inr (), st\<lparr>ck_tx := rows, ck_loans := loans,
                         ck_notes := createNotification env tx ok fu (ck_notes st)\<rparr>))"

section \<open>The cycle\<close>

definition fetchPendingTransactions :: "checker_env \<Rightarrow> TxRow list \<Rightarrow> TxRow list result" where
  "fetchPendingTransactions env rows =
     (case ce_faults env [] ''fetch'' of
        Some e \<Rightarrow> Inl (JsError (err_message e))
      | None \<Rightarrow> Inr (take 100 (sort_key tx_submitted (filter (\<lambda>r. tx_status r = TxPending) rows))))"

definition retention_ms :: int where "retention_ms = 7 * 24 * 60 * 60 * 1000"

definition cleanupOldTransactions :: "checker_env \<Rightarrow> TxRow list \<Rightarrow> TxRow list" where
  "cleanupOldTransactions env rows =
     (case ce_faults env [] ''cleanup'' of
        Some _ \<Rightarrow> rows
      | None \<Rightarrow> delete_where (\<lambda>r. tx_submitted r < ce_now env - retention_ms \<and> tx_status r \<noteq> TxPending) rows)"

definition processTransaction :: "checker_env \<Rightarrow> TxRow \<Rightarrow> checker_state \<Rightarrow> checker_state" where
  "processTransaction env tx st =
     (case checkTransactionStatus env (tx_thash tx) of
        Inl _ \<Rightarrow> st
      | Inr StatusUnknown \<Rightarrow> st
      | Inr (StatusFound ok msg) \<Rightarrow> snd (finalizeTransaction env tx ok msg st))"

definition checkTransactions :: "checker_env \<Rightarrow> checker_state \<Rightarrow> checker_state" where
  "checkTransactions env st =
     (if ck_running st then st
      else
        let st1 = (case fetchPendingTransactions env (ck_tx st) of
                     Inl _ \<Rightarrow> st
                   | Inr [] \<Rightarrow> st\<lparr>ck_tx := cleanupOldTransactions env (ck_tx st)\<rparr>
                   | Inr pending \<Rightarrow> fold (processTransaction env) pending st)
        in st1\<lparr>ck_tx := cleanupOldTransactions env (ck_tx st1), ck_running := False\<rparr>)"

section \<open>Balances\<close>

lemma math_round_cents: "\<bar>n\<bar> \<le> 10 ^ 9 \<Longrightarrow> \<lfloor>jmul (cents n) 100 + 1 / 2\<rfloor> = n"
proof -
  assume n: "\<bar>n\<bar> \<le> 10 ^ 9"
  have "cents \<lfloor>jmul (cents n) 100 + 1 / 2\<rfloor> = cents n"
    using round_currency_of_cents [of n] n by (simp add: round_currency_cents)
  moreover have "\<bar>jmul (cents n) 100 - of_int n\<bar> \<le> 1"
  proof -
    have r: "\<bar>rat_of_int n\<bar> \<le> 10 ^ 9" using n by (metis of_int_abs of_int_le_iff of_int_numeral of_int_power)
    have "\<bar>cents n * 100 - of_int n\<bar> \<le> 100 / 2 ^ 29" using cents_rel [OF n] unfolding abs_le_iff by linarith
    from fl_close [OF this r] show ?thesis by (simp add: jmul_def)
  qed
  then have "\<bar>rat_of_int \<lfloor>jmul (cents n) 100 + 1 / 2\<rfloor>\<bar> \<le> of_int (10 ^ 9 + 3)"
    using rat_abs_int_le [OF n] unfolding abs_le_iff by simp linarith
  then have "\<bar>\<lfloor>jmul (cents n) 100 + 1 / 2\<rfloor>\<bar> \<le> 10 ^ 9 + 3" by (simp only: of_int_abs [symmetric] of_int_le_iff)
  ultimately show ?thesis using n by (intro cents_inj) simp_all
qed

lemma max_cents: "max 0 (cents n) = cents (max 0 n)"
  using cents_mono [of n 0] cents_nonneg [of n] by (auto simp: max_def)

lemma repaid_balance_le:
  assumes "0 \<le> a" and "0 \<le> n" "n \<le> 10 ^ 9"
  shows "\<exists>k. repaid_balance (cents n) a = cents k \<and> 0 \<le> k \<and> k \<le> n"
proof -
  define k where "k = \<lfloor>jmul (jsub (cents n) a) 100 + 1 / 2\<rfloor>"
  have "jsub (cents n) a \<le> cents n"
    using fl_mono [of "cents n - a" "cents n"] assms(1) by (simp add: jsub_def cents_def)
  then have "k \<le> \<lfloor>jmul (cents n) 100 + 1 / 2\<rfloor>"
    unfolding k_def by (intro floor_mono add_right_mono jmul_mono) simp_all
  then have "k \<le> n" using math_round_cents [of n] assms by simp
  moreover have "repaid_balance (cents n) a = cents (max 0 k)"
    by (simp add: repaid_balance_def math_round_def k_def max_cents)
  ultimately show ?thesis using assms(2) by (intro exI [of _ "max 0 k"]) simp
qed

text \<open>A repayment of whole cents is subtracted exactly.\<close>

lemma repaid_balance_cents:
  assumes "0 \<le> n" "n \<le> 10 ^ 9" and "0 \<le> p" "p \<le> 10 ^ 9"
  shows "repaid_balance (cents n) (cents p) = cents (max 0 (n - p))"
proof -
  have c: "\<bar>cents n - of_int n / 100\<bar> \<le> 1 / 2 ^ 29" "\<bar>cents p - of_int p / 100\<bar> \<le> 1 / 2 ^ 29"
    using assms by (intro cents_rel; simp)+
  have r: "0 \<le> rat_of_int n" "rat_of_int n \<le> 10 ^ 9" "0 \<le> rat_of_int p" "rat_of_int p \<le> 10 ^ 9"
    using assms rat_abs_int_le [of n "10 ^ 9"] rat_abs_int_le [of p "10 ^ 9"] by simp_all
  have "\<bar>jsub (cents n) (cents p) - (of_int n / 100 - of_int p / 100)\<bar> \<le> 1 / 2 ^ 29 + 1 / 2 ^ 29 + (10 ^ 7 + 1) / 2 ^ 53"
    by (rule fl_diff_close [OF c]) (use r in \<open>simp_all add: abs_le_iff\<close>)
  also have "\<dots> \<le> 1 / 2 ^ 20" by simp
  finally have "\<bar>jsub (cents n) (cents p) * 100 - of_int (n - p)\<bar> \<le> 1 / 100"
    unfolding abs_le_iff by simp
  then have "round_currency (jsub (cents n) (cents p)) = cents (n - p)"
    by (rule round_currency_near) (use assms in simp_all)
  then show ?thesis by (simp add: repaid_balance_def round_currency_def max_cents)
qed

text \<open>The amount of a call in contract units is read back as the double of its whole cents.\<close>

lemma units_cents: "0 \<le> p \<Longrightarrow> p \<le> 10 ^ 9 \<Longrightarrow> jdiv (fl (of_int (p * 100000))) 10000000 = cents p"
proof -
  assume "0 \<le> p" "p \<le> 10 ^ 9"
  then have "fl (of_int (p * 100000)) = of_int (p * 100000)" by (intro fl_of_int) simp
  moreover have "rat_of_int (p * 100000) / 10000000 = of_int p / 100" unfolding of_int_mult by simp
  ultimately show ?thesis by (simp only: jdiv_def cents_def)
qed

section \<open>What a cycle may do to a row\<close>

definition tx_step :: "TxRow \<Rightarrow> TxRow \<Rightarrow> bool" where
  "tx_step r r' \<longleftrightarrow> r' = r \<or>
     tx_status r = TxPending \<and> tx_status r' \<noteq> TxPending \<and> tx_pk r' = tx_pk r \<and> tx_wallet r' = tx_wallet r \<and>
     tx_thash r' = tx_thash r \<and> tx_lhash r' = tx_lhash r \<and> tx_type r' = tx_type r \<and> tx_xdr r' = tx_xdr r \<and>
     tx_submitted r' = tx_submitted r"

definition loan_ok :: "LoanRow \<Rightarrow> bool" where
  "loan_ok l \<longleftrightarrow> (\<exists>n. loan_balance l = cents n \<and> 0 \<le> n \<and> n \<le> 10 ^ 9)"

definition loan_step :: "LoanRow \<Rightarrow> LoanRow \<Rightarrow> bool" where
  "loan_step l l' \<longleftrightarrow>
     loan_pk l' = loan_pk l \<and> loan_id l' = loan_id l \<and> loan_wallet l' = loan_wallet l \<and>
     loan_total l' = loan_total l \<and> loan_ok l' \<and> loan_balance l' \<le> loan_balance l \<and>
     (loan_status l' = loan_status l \<or> loan_status l = LoanPending \<and> loan_status l' = LoanActive \<or>
      loan_status l' = LoanCompleted \<and> loan_balance l' = 0)"

lemma tx_step_refl [simp]: "tx_step r r"
  by (simp add: tx_step_def)

lemma tx_step_trans: "tx_step a b \<Longrightarrow> tx_step b c \<Longrightarrow> tx_step a c"
  by (auto simp: tx_step_def)

lemma loan_step_refl: "loan_ok l \<Longrightarrow> loan_step l l"
  by (simp add: loan_step_def)

lemma loan_ok_nonneg: "loan_ok l \<Longrightarrow> 0 \<le> loan_balance l"
  by (auto simp: loan_ok_def cents_nonneg)

lemma loan_step_trans: "loan_step a b \<Longrightarrow> loan_step b c \<Longrightarrow> loan_step a c"
  using loan_ok_nonneg [of c] unfolding loan_step_def by auto

lemma list_all2_update_where:
  assumes "\<And>x. x \<in> set xs \<Longrightarrow> P x \<Longrightarrow> R x (f x)" and "\<And>x. x \<in> set xs \<Longrightarrow> R x x"
  shows "list_all2 R xs (update_where P f xs)"
  using assms by (induction xs) (auto simp: update_where_def)

lemma settle_step: "tx_status r = TxPending \<Longrightarrow> tx_step r (settle_row now ok msg r)"
  by (auto simp: tx_step_def settle_row_def Let_def split: option.splits)

lemma claim_pending_step: "claim_pending env tx ok msg rows = Inr rows' \<Longrightarrow> list_all2 tx_step rows rows'"
  by (auto simp: claim_pending_def awaiting_def intro!: list_all2_update_where settle_step split: sum.splits)

lemma process_tx_step: "list_all2 tx_step (ck_tx st) (ck_tx (processTransaction env tx st))"
proof -
  have [simp]: "list_all2 tx_step rows rows" for rows by (simp add: list_all2_refl)
  show ?thesis
    by (auto simp: processTransaction_def finalizeTransaction_def Let_def split_def claim_pending_step
        split: sum.splits status_result.splits)
qed

lemma fold_list_all2:
  assumes "\<And>x st. list_all2 R (g st) (g (f x st))" and "\<And>a b c. R a b \<Longrightarrow> R b c \<Longrightarrow> R a c"
    and "\<And>x. R x x"
  shows "list_all2 R (g st) (g (fold f xs st))"
proof (induction xs arbitrary: st)
  case (Cons x xs)
  show ?case using list_all2_trans [of R R R, OF assms(2) assms(1) Cons.IH] by simp
qed (simp add: list_all2_refl assms(3))

text \<open>The stored envelopes repay no negative amount. The code does not check it.\<close>

definition nonneg_amounts :: "checker_env \<Rightarrow> bool" where
  "nonneg_amounts env \<longleftrightarrow> (\<forall>xdr m a. parseTransactionMetadata env xdr = Some m \<longrightarrow> md_amount m = Some a \<longrightarrow> 0 \<le> a)"

definition loans_ok :: "LoanRow list \<Rightarrow> bool" where
  "loans_ok loans \<longleftrightarrow> (\<forall>l \<in> set loans. loan_ok l)"

lemma loans_refl: "loans_ok loans \<Longrightarrow> list_all2 loan_step loans loans"
  by (simp add: list_all2_conv_all_nth loans_ok_def loan_step_refl)

lemma activate_step:
  assumes "loans_ok loans"
  shows "list_all2 loan_step loans (snd (activatePendingLoan flt lid w loans))"
proof -
  have "loan_step x (set_status LoanActive x)" if "x \<in> set loans" "loan_status x = LoanPending" for x
    using that assms by (auto simp: loan_step_def set_status_def loans_ok_def loan_ok_def)
  then have "list_all2 loan_step loans (update_where (\<lambda>x. loan_of lid w x \<and> loan_status x = LoanPending)
      (set_status LoanActive) loans)"
    using assms by (intro list_all2_update_where) (auto simp: loans_ok_def loan_step_refl)
  then show ?thesis
    using loans_refl [OF assms] by (auto simp: activatePendingLoan_def Let_def split: sum.splits option.splits)
qed

lemma repay_step:
  assumes "loans_ok loans" and "0 \<le> a"
  shows "list_all2 loan_step loans (snd (applyLoanRepayment now flt lid w a loans))"
proof -
  have refl: "list_all2 loan_step loans loans"
    using assms(1) by (simp add: list_all2_conv_all_nth loans_ok_def loan_step_refl)
  show ?thesis
  proof (cases "with_fault (flt ''repay.select'') (single (filter (loan_of lid w) loans))")
    case (Inl e)
    then show ?thesis using refl by (simp add: applyLoanRepayment_def)
  next
    case (Inr l)
    then have f: "filter (loan_of lid w) loans = [l]" by (simp add: single_Inr)
    then have l: "set (filter (loan_of lid w) loans) = {l}" by simp
    then have "l \<in> set loans" by auto
    then obtain n where n: "loan_balance l = cents n" "0 \<le> n" "n \<le> 10 ^ 9"
      using assms(1) by (auto simp: loans_ok_def loan_ok_def)
    obtain k where k: "repaid_balance (cents n) a = cents k" "0 \<le> k" "k \<le> n"
      using repaid_balance_le [OF assms(2) n(2,3)] by blast
    have "loan_step x (repay_row now (cents k) (loan_status l) (if cents k = 0 then LoanCompleted else loan_status l) x)"
      if "x \<in> set loans" "loan_of lid w x" for x
    proof -
      have "x = l" using l that by auto
      then show ?thesis
        using n k cents_mono [OF k(3)] by (auto simp: loan_step_def repay_row_def Let_def loan_ok_def)
    qed
    then have "list_all2 loan_step loans (update_where (loan_of lid w)
        (repay_row now (cents k) (loan_status l) (if cents k = 0 then LoanCompleted else loan_status l)) loans)"
      using assms(1) by (intro list_all2_update_where) (auto simp: loans_ok_def loan_step_refl)
    then show ?thesis
      using refl Inr n(1) k(1) by (auto simp: applyLoanRepayment_def Let_def split: option.splits)
  qed
qed

lemma follow_up_step:
  assumes "nonneg_amounts env" and "loans_ok loans"
  shows "list_all2 loan_step loans (snd (applyFollowUpActions env tx ok loans))"
proof -
  have refl: "list_all2 loan_step loans loans"
    using assms(2) by (simp add: list_all2_conv_all_nth loans_ok_def loan_step_refl)
  have "0 \<le> a" if "parseTransactionMetadata env x = Some m" "md_amount m = Some a" for x m a
    using assms(1) that unfolding nonneg_amounts_def by blast
  then show ?thesis
    using refl activate_step [OF assms(2)] repay_step [OF assms(2)]
    by (auto simp: applyFollowUpActions_def Let_def split: option.splits bool.splits)
qed

lemma loans_ok_step: "list_all2 loan_step loans loans' \<Longrightarrow> loans_ok loans'"
  by (auto simp: loans_ok_def list_all2_conv_all_nth in_set_conv_nth loan_step_def)

lemma process_loans_step:
  assumes "nonneg_amounts env" and "loans_ok (ck_loans st)"
  shows "list_all2 loan_step (ck_loans st) (ck_loans (processTransaction env tx st))"
proof -
  have refl: "list_all2 loan_step (ck_loans st) (ck_loans st)"
    using assms(2) by (simp add: list_all2_conv_all_nth loans_ok_def loan_step_refl)
  then show ?thesis
    using follow_up_step [OF assms]
    by (auto simp: processTransaction_def finalizeTransaction_def Let_def split_def
        split: sum.splits status_result.splits)
qed

lemma fold_loans_step:
  assumes "nonneg_amounts env" and "loans_ok (ck_loans st)"
  shows "list_all2 loan_step (ck_loans st) (ck_loans (fold (processTransaction env) txs st))"
  using assms(2)
proof (induction txs arbitrary: st)
  case Nil
  then show ?case by (simp add: list_all2_conv_all_nth loans_ok_def loan_step_refl)
next
  case (Cons tx txs)
  have s: "list_all2 loan_step (ck_loans st) (ck_loans (processTransaction env tx st))"
    by (rule process_loans_step [OF assms(1) Cons.prems])
  from list_all2_trans [of loan_step loan_step loan_step, OF loan_step_trans s Cons.IH [OF loans_ok_step [OF s]]]
  show ?case by simp
qed

text \<open>Settling is a claim on the pending row of a hash.\<close>

record settle_request =
  sq_env :: checker_env
  sq_tx :: TxRow
  sq_ok :: bool
  sq_msg :: "string option"

definition settle_claim :: "settle_request \<Rightarrow> TxRow list \<Rightarrow> TxRow list option" where
  "settle_claim q rows =
     (case claim_pending (sq_env q) (sq_tx q) (sq_ok q) (sq_msg q) rows of Inr rows' \<Rightarrow> Some rows' | Inl _ \<Rightarrow> None)"

definition not_awaiting :: "string option \<Rightarrow> TxRow list \<Rightarrow> bool" where
  "not_awaiting h rows \<longleftrightarrow> (\<forall>r \<in> set rows. \<not> awaiting h r)"

lemma settle_claim_Some:
  "settle_claim q rows = Some rows' \<Longrightarrow>
     (\<exists>r. filter (awaiting (tx_thash (sq_tx q))) rows = [r]) \<and>
     rows' = update_where (awaiting (tx_thash (sq_tx q))) (settle_row (ce_now (sq_env q)) (sq_ok q) (sq_msg q)) rows"
  by (auto simp: settle_claim_def claim_pending_def single_Inr split: sum.splits)

lemma settle_row_settled: "\<not> awaiting h (settle_row now ok msg r)"
  by (simp add: awaiting_def settle_row_def Let_def split: option.splits)

interpretation settle: claim_once settle_claim "\<lambda>q. tx_thash (sq_tx q)" "\<lambda>_. True" not_awaiting
proof
  fix c s s'
  assume s: "settle_claim c s = Some s'"
  from settle_claim_Some [OF this] obtain r where "filter (awaiting (tx_thash (sq_tx c))) s = [r]" by blast
  then have "set (filter (awaiting (tx_thash (sq_tx c))) s) = {r}" by simp
  then show "\<not> not_awaiting (tx_thash (sq_tx c)) s" by (auto simp: not_awaiting_def)
  show "not_awaiting (tx_thash (sq_tx c)) s'"
    using settle_claim_Some [OF s] settle_row_settled by (auto simp: not_awaiting_def update_where_def)
next
  fix c s s' k
  assume s: "settle_claim c s = Some s'" and "not_awaiting k s"
  then show "not_awaiting k s'"
    using settle_claim_Some [OF s] settle_row_settled by (auto simp: not_awaiting_def update_where_def)
qed

section \<open>Properties\<close>

text \<open>C17: A cycle settles transactions and deletes old ones, nothing else: a row changes only from
  pending to success or failed, keeping its hash, owner, type and envelope; a settled row
  never changes again; and a row disappears only when it is settled and more than seven days
  old, so a pending transaction is never lost.\<close>

theorem checker_transactions:
  "\<exists>rows. list_all2 tx_step (ck_tx st) rows \<and>
     (ck_tx (checkTransactions env st) = rows \<or>
      ck_tx (checkTransactions env st) =
        filter (\<lambda>r. tx_status r = TxPending \<or> ce_now env - retention_ms \<le> tx_submitted r) rows)"
proof -
  have [simp]: "list_all2 tx_step rows rows" for rows by (simp add: list_all2_refl)
  have f: "list_all2 tx_step (ck_tx st) (ck_tx (fold (processTransaction env) txs st))" for txs
    by (rule fold_list_all2 [of _ ck_tx]) (use process_tx_step tx_step_trans in \<open>auto simp: list_all2_refl\<close>)
  have c: "cleanupOldTransactions env rows = rows \<or> cleanupOldTransactions env rows =
      filter (\<lambda>r. tx_status r = TxPending \<or> ce_now env - retention_ms \<le> tx_submitted r) rows" for rows
    by (auto simp: cleanupOldTransactions_def delete_where_def not_less intro!: filter_cong split: option.splits)
  have cc: "cleanupOldTransactions env (cleanupOldTransactions env rows) = cleanupOldTransactions env rows" for rows
    by (simp add: cleanupOldTransactions_def delete_where_def split: option.splits)
  show ?thesis
  proof (cases "ck_running st")
    case True
    then show ?thesis by (intro exI [of _ "ck_tx st"]) (simp add: checkTransactions_def)
  next
    case False
    show ?thesis
    proof (cases "fetchPendingTransactions env (ck_tx st)")
      case (Inl e)
      then show ?thesis using False c [of "ck_tx st"]
        by (intro exI [of _ "ck_tx st"]) (simp add: checkTransactions_def Let_def)
    next
      case (Inr pending)
      then show ?thesis
        using False c [of "ck_tx st"] c [of "ck_tx (fold (processTransaction env) pending st)"] f [of pending]
        by (cases pending; intro exI [of _ "ck_tx (fold (processTransaction env) pending st)"])
          (simp_all add: checkTransactions_def Let_def cc)
    qed
  qed
qed

text \<open>As long as no confirmed repayment has a negative amount, a cycle moves loans forward only: every loan keeps
  its identity, total and owner, its balance never grows or goes below zero, and its status
  changes only from pending to active, or to completed with a balance of zero.\<close>

theorem checker_loans:
  assumes "nonneg_amounts env" and "loans_ok (ck_loans st)"
  shows "list_all2 loan_step (ck_loans st) (ck_loans (checkTransactions env st)) \<and>
         loans_ok (ck_loans (checkTransactions env st))"
proof -
  have refl: "list_all2 loan_step (ck_loans st) (ck_loans st)"
    using assms(2) by (simp add: list_all2_conv_all_nth loans_ok_def loan_step_refl)
  have "list_all2 loan_step (ck_loans st) (ck_loans (checkTransactions env st))"
  proof (cases "fetchPendingTransactions env (ck_tx st)")
    case (Inl e)
    then show ?thesis using refl by (simp add: checkTransactions_def Let_def)
  next
    case (Inr pending)
    then show ?thesis using refl fold_loans_step [OF assms, of pending]
      by (cases pending) (simp_all add: checkTransactions_def Let_def)
  qed
  then show ?thesis using loans_ok_step by blast
qed

text \<open>The owner is told that a loan is active although it is not: a confirmed \<open>loan_create\<close>
  transaction sends the notification \<open>Loan Activated\<close> even when no loan could be activated
  (it is missing, or still under review).\<close>

theorem loan_activated_notice:
  assumes "claim_pending env tx True msg (ck_tx st) = Inr rows" and "tx_type tx = Some ''loan_create''"
    and "ce_faults env (tx_pk tx) ''notifications.insert'' = None"
    and "\<forall>l \<in> set (ck_loans st). loan_wallet l = tx_wallet tx \<longrightarrow> loan_status l = LoanUnderReview"
  shows "ck_loans (snd (finalizeTransaction env tx True msg st)) = ck_loans st \<and>
    (\<exists>n. ck_notes (snd (finalizeTransaction env tx True msg st)) = ck_notes st @ [n] \<and>
         n_wallet n = tx_wallet tx \<and> n_title n = ''Loan Activated'')"
proof -
  have a: "snd (activatePendingLoan flt lid (tx_wallet tx) (ck_loans st)) = ck_loans st" for flt lid
  proof -
    have "update_where (\<lambda>x. loan_of lid (tx_wallet tx) x \<and> loan_status x = LoanPending) (set_status LoanActive)
        (ck_loans st) = ck_loans st"
      using assms(4) by (intro update_where_id) (auto simp: loan_of_def)
    then show ?thesis by (auto simp: activatePendingLoan_def Let_def split: sum.splits option.splits)
  qed
  have "snd (applyFollowUpActions env tx True (ck_loans st)) = ck_loans st"
    using a by (simp add: applyFollowUpActions_def Let_def assms(2) split: option.splits)
  then show ?thesis
    using assms(1-3) by (simp add: finalizeTransaction_def Let_def split_def createNotification_def notification_payload_def)
qed

definition demo_ck_env :: checker_env where
  "demo_ck_env = \<lparr>ce_now = 5000, ce_horizon = (\<lambda>_ _. HFound True None),
     ce_parse = (\<lambda>x. if x = ''AAAA''
        then Some (StoredCall (Some ''repay_loan'') (Some [Some (NStr ''GA''), Some (NStr ''7''), Some (NBig 1000000000)]))
        else None), ce_faults = (\<lambda>_. no_faults)\<rparr>"

definition demo_tx :: TxRow where
  "demo_tx = \<lparr>tx_pk = ''t1'', tx_wallet = ''GA'', tx_thash = Some ''abcd'', tx_lhash = None, tx_type = Some ''loan_repay'',
     tx_status = TxPending, tx_xdr = ''AAAA'', tx_error = None, tx_submitted = 4000, tx_completed = None\<rparr>"

definition demo_ck :: checker_state where
  "demo_ck = \<lparr>ck_tx = [demo_tx], ck_loans = [demo_loan], ck_notes = [], ck_running = False\<rparr>"

lemma demo_nonneg: "nonneg_amounts demo_ck_env"
proof -
  have "0 \<le> jdiv (fl 1000000000) 10000000" by (simp add: jdiv_def fl_nonneg)
  then show ?thesis
    by (auto simp: nonneg_amounts_def demo_ck_env_def parseTransactionMetadata_def arg_at_def split: if_splits)
qed

theorem checker_loans_witness:
  "loans_ok (ck_loans (checkTransactions demo_ck_env demo_ck))"
proof -
  have "loans_ok (ck_loans demo_ck)"
    by (auto simp: demo_ck_def loans_ok_def loan_ok_def demo_loan_def intro: exI [of _ 41067])
  from checker_loans [OF demo_nonneg this] show ?thesis by blast
qed

text \<open>C5: A confirmed repayment of \<open>p\<close> cents is booked exactly and once: settling the pending
  \<open>repay_loan\<close> transaction of a loan's owner leaves the balance \<open>n - p\<close> cents (never below
  zero), completes the loan exactly when the payment covers the balance, and however often
  and by whomever the hash is settled, at most one attempt books it.\<close>

theorem repayment_booked_once:
  assumes "filter (loan_of lid w) loans = [l]" and "loan_balance l = cents n" "0 \<le> n" "n \<le> 10 ^ 9"
    and "0 \<le> p" "p \<le> 10 ^ 9" and "flt ''repay.select'' = None" "flt ''repay.update'' = None"
    and "settle.keeps h es"
  shows "snd (applyLoanRepayment now flt lid w (jdiv (fl (of_int (p * 100000))) 10000000) loans) =
           update_where (loan_of lid w)
             (repay_row now (cents (max 0 (n - p))) (loan_status l)
                (if n \<le> p then LoanCompleted else loan_status l)) loans \<and>
         settle.wins h es rows \<le> 1"
proof -
  have z: "cents (max 0 (n - p)) = 0 \<longleftrightarrow> n \<le> p"
    using cents_inj [of "max 0 (n - p)" 0] assms(3-6) by auto
  show ?thesis
    using repaid_balance_cents [OF assms(3-6)] settle.wins_le_1 [OF assms(9)] z
    unfolding units_cents [OF assms(5,6)]
    by (simp add: applyLoanRepayment_def assms(1,2,7,8) single_def Let_def)
qed

theorem repayment_booked_once_witness:
  "snd (applyLoanRepayment 9 no_faults ''7'' ''GA'' (jdiv (fl (of_int (10000 * 100000))) 10000000) [demo_loan]) =
     update_where (loan_of ''7'' ''GA'')
       (repay_row 9 (cents (max 0 (41067 - 10000))) LoanActive (if 41067 \<le> (10000 :: int) then LoanCompleted else LoanActive)) [demo_loan] \<and>
   settle.wins (Some ''abcd'') [Claim \<lparr>sq_env = demo_ck_env, sq_tx = demo_tx, sq_ok = True, sq_msg = None\<rparr>,
     Claim \<lparr>sq_env = demo_ck_env, sq_tx = demo_tx, sq_ok = False, sq_msg = None\<rparr>] [demo_tx] \<le> 1"
proof -
  have k: "settle.keeps (Some ''abcd'') [Claim \<lparr>sq_env = demo_ck_env, sq_tx = demo_tx, sq_ok = True, sq_msg = None\<rparr>,
     Claim \<lparr>sq_env = demo_ck_env, sq_tx = demo_tx, sq_ok = False, sq_msg = None\<rparr>]"
    by (simp only: settle.keeps_Cons settle.keeps_Nil event.case simp_thms)
  have l: "loan_status demo_loan = LoanActive" "filter (loan_of ''7'' ''GA'') [demo_loan] = [demo_loan]"
    "loan_balance demo_loan = cents 41067" by (simp_all add: demo_loan_def loan_of_def)
  show ?thesis
    using repayment_booked_once [OF l(2,3) _ _ _ _ _ _ k, where p = 10000 and flt = no_faults] l(1) by simp
qed

text \<open>C23: The repayments the API itself builds are never booked: they invoke
  \<open>repay_installment\<close>, which the submission allowlist accepts for type \<open>loan_repay\<close> but the
  follow-up does not recognise, so the transaction is settled and no loan changes.\<close>

theorem api_repayment_not_booked:
  assumes "ce_parse env (tx_xdr tx) = Some (StoredCall (Some (inv_fn (repay_invocation cid src w lid amt))) args)"
  shows "inv_fn (repay_invocation cid src w lid amt) \<in> set (al_functions (TRANSACTION_TYPE_ALLOWLIST LoanRepay)) \<and>
         ck_loans (snd (finalizeTransaction env tx True msg st)) = ck_loans st \<and>
         (claim_pending env tx True msg (ck_tx st) = Inr rows \<longrightarrow>
            ck_tx (snd (finalizeTransaction env tx True msg st)) = rows)"
proof -
  have "parseTransactionMetadata env (tx_xdr tx) = None"
    using assms by (auto simp: parseTransactionMetadata_def repay_invocation_def split: option.splits)
  then show ?thesis
    by (simp add: repay_invocation_def finalizeTransaction_def Let_def split_def applyFollowUpActions_def split: sum.splits)
qed

theorem api_repayment_not_booked_witness:
  "ck_loans (snd (finalizeTransaction (demo_ck_env\<lparr>ce_parse := (\<lambda>_. Some (StoredCall (Some ''repay_installment'') None))\<rparr>)
     demo_tx True None demo_ck)) = [demo_loan]"
  using api_repayment_not_booked [of "demo_ck_env\<lparr>ce_parse := (\<lambda>_. Some (StoredCall (Some ''repay_installment'') None))\<rparr>"
      demo_tx "''CC''" "''GR''" "''GA''" "''7''" 1 None None demo_ck]
  by (simp add: repay_invocation_def demo_ck_def)

text \<open>
  A settled row takes no part in the later cycles: without the rows of a hash, none of which is
  pending, every cycle does the same to the loans, the notifications and the other rows.
\<close>

definition without :: "string \<Rightarrow> TxRow list \<Rightarrow> TxRow list" where
  "without h rows = filter (\<lambda>r. tx_thash r \<noteq> Some h) rows"

definition same_but :: "string \<Rightarrow> checker_state \<Rightarrow> checker_state \<Rightarrow> bool" where
  "same_but h st st0 \<longleftrightarrow> (\<forall>r \<in> set (ck_tx st). tx_thash r = Some h \<longrightarrow> tx_status r \<noteq> TxPending) \<and>
     ck_tx st0 = without h (ck_tx st) \<and> ck_loans st0 = ck_loans st \<and> ck_notes st0 = ck_notes st \<and> ck_running st0 = ck_running st"

lemma settle_row_thash [simp]: "tx_thash (settle_row now ok msg r) = tx_thash r"
  by (simp add: settle_row_def Let_def split: option.split)

lemma settle_row_not_pending: "tx_status (settle_row now ok msg r) \<noteq> TxPending"
  by (simp add: settle_row_def Let_def split: option.split)

lemma pending_without:
  assumes "\<forall>r \<in> set rows. tx_thash r = Some h \<longrightarrow> tx_status r \<noteq> TxPending" and "\<And>r. P r \<Longrightarrow> tx_status r = TxPending"
  shows "filter P (without h rows) = filter P rows"
  using assms(1) assms(2) by (induction rows) (auto simp: without_def)

lemma without_update:
  "(\<And>r. tx_thash (f r) = tx_thash r) \<Longrightarrow> without h (update_where P f rows) = update_where P f (without h rows)"
  by (induction rows) (auto simp: without_def update_where_def)

lemma process_without:
  assumes "same_but h st st0"
  shows "same_but h (processTransaction env tx st) (processTransaction env tx st0)"
proof -
  note s = assms [unfolded same_but_def]
  have f: "filter (awaiting (tx_thash tx)) (ck_tx st0) = filter (awaiting (tx_thash tx)) (ck_tx st)"
    using pending_without [of "ck_tx st" h "awaiting (tx_thash tx)"] s by (simp add: awaiting_def)
  have "same_but h (snd (finalizeTransaction env tx ok msg st)) (snd (finalizeTransaction env tx ok msg st0))" for ok msg
  proof (cases "with_fault (ce_faults env (tx_pk tx) ''finalize'') (single (filter (awaiting (tx_thash tx)) (ck_tx st)))")
    case (Inl e)
    with f assms show ?thesis by (simp add: finalizeTransaction_def claim_pending_def)
  next
    case (Inr r)
    let ?u = "update_where (awaiting (tx_thash tx)) (settle_row (ce_now env) ok msg)"
    have "\<forall>r \<in> set (?u (ck_tx st)). tx_thash r = Some h \<longrightarrow> tx_status r \<noteq> TxPending"
      using s settle_row_not_pending by (auto simp: set_update_where)
    moreover have "?u (ck_tx st0) = without h (?u (ck_tx st))" using s by (simp add: without_update)
    ultimately show ?thesis using s f Inr
      by (simp add: finalizeTransaction_def claim_pending_def same_but_def Let_def split_def)
  qed
  with assms show ?thesis by (auto simp: processTransaction_def split: sum.split status_result.split)
qed

lemma cleanup_without:
  "same_but h st st0 \<Longrightarrow>
     same_but h (st\<lparr>ck_tx := cleanupOldTransactions env (ck_tx st), ck_running := b\<rparr>)
       (st0\<lparr>ck_tx := cleanupOldTransactions env (ck_tx st0), ck_running := b\<rparr>)"
  by (auto simp: same_but_def cleanupOldTransactions_def delete_where_def without_def conj_commute split: option.split)

lemma cycle_without:
  assumes "same_but h st st0"
  shows "same_but h (checkTransactions env st) (checkTransactions env st0)"
proof -
  note s = assms [unfolded same_but_def]
  have p: "fetchPendingTransactions env (ck_tx st0) = fetchPendingTransactions env (ck_tx st)"
    using pending_without [of "ck_tx st" h "\<lambda>r. tx_status r = TxPending"] s
    by (simp add: fetchPendingTransactions_def split: option.split)
  have fold: "same_but h a a0 \<Longrightarrow> same_but h (fold (processTransaction env) txs a) (fold (processTransaction env) txs a0)" for txs a a0
    by (induction txs arbitrary: a a0) (simp_all add: process_without)
  have idle: "same_but h (st\<lparr>ck_tx := cleanupOldTransactions env (ck_tx st)\<rparr>) (st0\<lparr>ck_tx := cleanupOldTransactions env (ck_tx st0)\<rparr>)"
    using cleanup_without [OF assms, where env = env and b = "ck_running st"] s by (simp add: same_but_def)
  show ?thesis
  proof (cases "ck_running st")
    case True
    with s assms show ?thesis by (simp add: checkTransactions_def)
  next
    case False
    with s have running: "\<not> ck_running st" "\<not> ck_running st0" by simp_all
    show ?thesis
    proof (cases "fetchPendingTransactions env (ck_tx st)")
      case (Inl e)
      with running cleanup_without [OF assms] show ?thesis by (simp add: checkTransactions_def Let_def p)
    next
      case (Inr txs)
      with running cleanup_without [OF idle] cleanup_without [OF fold [OF assms, of txs]] show ?thesis
        by (cases txs) (simp_all add: checkTransactions_def Let_def p)
    qed
  qed
qed

lemma cycles_without:
  "same_but h st st0 \<Longrightarrow> same_but h (fold checkTransactions envs st) (fold checkTransactions envs st0)"
  by (induction envs arbitrary: st st0) (simp_all add: cycle_without)

lemma cycles_idle:
  assumes "\<forall>r \<in> set (ck_tx st). tx_status r \<noteq> TxPending"
  shows "ck_loans (fold checkTransactions envs st) = ck_loans st \<and> ck_notes (fold checkTransactions envs st) = ck_notes st"
  using assms
proof (induction envs arbitrary: st)
  case (Cons env envs)
  have c: "set (cleanupOldTransactions env rows) \<subseteq> set rows" for rows
    by (auto simp: cleanupOldTransactions_def delete_where_def split: option.splits)
  from Cons.prems have "filter (\<lambda>r. tx_status r = TxPending) (ck_tx st) = []" by simp
  then have "fetchPendingTransactions env (ck_tx st) = Inr [] \<or> (\<exists>e. fetchPendingTransactions env (ck_tx st) = Inl e)"
    by (simp add: fetchPendingTransactions_def split: option.split)
  then have "ck_loans (checkTransactions env st) = ck_loans st \<and> ck_notes (checkTransactions env st) = ck_notes st \<and>
      set (ck_tx (checkTransactions env st)) \<subseteq> set (ck_tx st)"
    by (auto simp: checkTransactions_def Let_def dest: subsetD [OF c] subsetD [OF subset_trans [OF c c]])
  with Cons.IH [of "checkTransactions env st"] Cons.prems show ?case by (simp add: subset_iff)
qed simp

text \<open>C24: Reading the status takes the follow-up away for good: when anybody asks for the status of a
  transaction Horizon knows before the job gets to it, the request settles its row without a follow-up, and in
  any number of later cycles, whatever their environments, the job does to the loans, the notifications and the other
  rows exactly what it does when there is no such transaction; so with no other row pending, no loan
  ever changes and nobody is notified.\<close>

theorem status_read_skips_follow_up:
  assumes "te_lookup te h = Inr t" and "filter (\<lambda>r. tx_thash r = Some h) rows = [tx]" and "\<forall>r \<in> set rows. tx_lhash r \<noteq> Some h"
    and "to_lower h = h" and "te_faults te = no_faults" and "cache_get (te_now te) cache h = None"
    and "run = (\<lambda>rows. fold checkTransactions envs \<lparr>ck_tx = rows, ck_loans = loans, ck_notes = notes, ck_running = False\<rparr>)"
    and "read = txs_rows (snd (getTransactionStatus te h \<lparr>txs_rows = rows, txs_cache = cache\<rparr>))"
  shows "ck_loans (run read) = ck_loans (run (without h rows)) \<and> ck_notes (run read) = ck_notes (run (without h rows)) \<and>
    without h (ck_tx (run read)) = ck_tx (run (without h rows)) \<and>
    ((\<forall>r \<in> set rows. tx_thash r \<noteq> Some h \<longrightarrow> tx_status r \<noteq> TxPending) \<longrightarrow>
       ck_loans (run read) = loans \<and> ck_notes (run read) = notes)"
proof -
  have l: "filter (\<lambda>r. tx_lhash r = Some h) rows = []" using assms(3) by (simp add: filter_empty_conv)
  have f: "findTransactionRecord te h rows = Inr (Some (record_of ColTransactionHash h tx))"
    using assms(2) l by (simp add: findTransactionRecord_def find_in_column_def assms(5) col_of_def maybe_single_def)
  have "tx \<in> set (filter (\<lambda>r. tx_thash r = Some h) rows)" unfolding assms(2) by simp
  then have h: "tx_thash tx = Some h" by simp
  define resp where "resp = buildFinalizedTransactionResponse te t (Some (record_of ColTransactionHash h tx))"
  have r: "read = update_where (\<lambda>x. tx_thash x = Some h) (finalize_row resp) rows"
    by (simp add: getTransactionStatus_def assms(1,4-6,8) f Let_def persistFinalizedTransaction_def record_of_def h col_of_def resp_def)
  have k: "tx_thash (finalize_row resp x) = tx_thash x" "tx_status (finalize_row resp x) \<noteq> TxPending" for x
    by (simp_all add: finalize_row_def resp_def buildFinalizedTransactionResponse_def)
  have w: "without h read = without h rows"
    unfolding r by (induction rows) (auto simp: without_def update_where_def k)
  have settled: "\<forall>x \<in> set read. tx_thash x = Some h \<longrightarrow> tx_status x \<noteq> TxPending"
    unfolding r using k by (auto simp: set_update_where)
  then have "same_but h \<lparr>ck_tx = read, ck_loans = loans, ck_notes = notes, ck_running = False\<rparr>
      \<lparr>ck_tx = without h rows, ck_loans = loans, ck_notes = notes, ck_running = False\<rparr>"
    by (simp add: same_but_def w)
  from cycles_without [OF this, of envs] have same: "same_but h (run read) (run (without h rows))" unfolding assms(7) .
  have "ck_loans (run (without h rows)) = loans \<and> ck_notes (run (without h rows)) = notes"
    if "\<forall>r \<in> set rows. tx_thash r \<noteq> Some h \<longrightarrow> tx_status r \<noteq> TxPending"
  proof -
    have "\<forall>r \<in> set (without h rows). tx_status r \<noteq> TxPending" using that by (simp add: without_def)
    with cycles_idle [of "\<lparr>ck_tx = without h rows, ck_loans = loans, ck_notes = notes, ck_running = False\<rparr>" envs] show ?thesis
      by (simp add: assms(7))
  qed
  with same show ?thesis by (simp add: same_but_def)
qed

text \<open>
  A confirmed repayment of 100: the cycle books it, but once its status was read not even three cycles do.
\<close>

theorem status_read_skips_follow_up_witness:
  "ck_loans (fold checkTransactions (replicate 3 demo_ck_env)
     \<lparr>ck_tx = txs_rows (snd (getTransactionStatus demo_final_env ''abcd'' \<lparr>txs_rows = [demo_tx], txs_cache = Map.empty\<rparr>)),
      ck_loans = [demo_loan], ck_notes = [], ck_running = False\<rparr>) = [demo_loan]"
proof -
  obtain t where t: "te_lookup demo_final_env ''abcd'' = Inr t" by (simp add: demo_final_env_def)
  have tx: "filter (\<lambda>r. tx_thash r = Some ''abcd'') [demo_tx] = [demo_tx]" "\<forall>r \<in> set [demo_tx]. tx_lhash r \<noteq> Some ''abcd''"
    "\<forall>r \<in> set [demo_tx]. tx_thash r \<noteq> Some ''abcd'' \<longrightarrow> tx_status r \<noteq> TxPending"
    by (simp_all add: demo_tx_def)
  have env: "to_lower ''abcd'' = ''abcd''" "te_faults demo_final_env = no_faults"
    "cache_get (te_now demo_final_env) (Map.empty :: (string, TransactionStatusResponse) cache) ''abcd'' = None"
    by (simp_all add: demo_final_env_def demo_tx_env_def cache_get_def to_lower_def lower_char_def Let_def)
  from status_read_skips_follow_up [OF t tx(1,2) env refl refl, of "replicate 3 demo_ck_env" "[demo_loan]" "[]"] tx(3)
  show ?thesis by blast
qed

theorem loan_activated_notice_witness:
  "ck_loans (snd (finalizeTransaction demo_ck_env (demo_tx\<lparr>tx_type := Some ''loan_create''\<rparr>) True None
     \<lparr>ck_tx = [demo_tx], ck_loans = [demo_loan\<lparr>loan_status := LoanUnderReview\<rparr>], ck_notes = [], ck_running = False\<rparr>)) =
   [demo_loan\<lparr>loan_status := LoanUnderReview\<rparr>]"
proof -
  have "\<exists>rows. claim_pending demo_ck_env (demo_tx\<lparr>tx_type := Some ''loan_create''\<rparr>) True None [demo_tx] = Inr rows"
    by (simp add: claim_pending_def demo_tx_def demo_ck_env_def awaiting_def single_def)
  then obtain rows where "claim_pending demo_ck_env (demo_tx\<lparr>tx_type := Some ''loan_create''\<rparr>) True None [demo_tx] = Inr rows"
    by blast
  then show ?thesis
    using loan_activated_notice [of demo_ck_env "demo_tx\<lparr>tx_type := Some ''loan_create''\<rparr>" None
        "\<lparr>ck_tx = [demo_tx], ck_loans = [demo_loan\<lparr>loan_status := LoanUnderReview\<rparr>], ck_notes = [], ck_running = False\<rparr>" rows]
    by (simp add: demo_ck_env_def demo_loan_def)
qed

end
