(* ===== verification/AuthNonce.thy ===== *)
theory AuthNonce imports Schema Calendar ClaimOnce begin

text \<open>
  Wallet authentication by a signed challenge (\<open>generateNonce\<close> and \<open>verifySignature\<close> of
  \<open>modules/auth/auth.service.ts\<close>). Hashing, signature verification, the transaction codec,
  randomness, \<open>JSON.parse\<close> and \<open>Date.parse\<close> are parameters of the environment; the challenge
  text is built byte by byte.
\<close>

section \<open>Text of times and of the challenge\<close>

definition pad :: "nat \<Rightarrow> int \<Rightarrow> string" where
  "pad n i = (let d = decimal (nat i) in replicate (n - length d) CHR ''0'' @ d)"

text \<open>\<open>Date.toISOString\<close> for years 0 to 9999.\<close>

definition toISOString :: "int \<Rightarrow> string" where
  "toISOString t =
     (let d = t div day_ms; ms = t mod day_ms; m = month_of_day d
      in pad 4 (m div 12) @ ''-'' @ pad 2 (m mod 12 + 1) @ ''-'' @ pad 2 (date_of_day d) @ ''T'' @
         pad 2 (ms div 3600000) @ '':'' @ pad 2 (ms div 60000 mod 60) @ '':'' @ pad 2 (ms div 1000 mod 60) @
         ''.'' @ pad 3 (ms mod 1000) @ ''Z'')"

definition hex_digit :: "nat \<Rightarrow> char" where
  "hex_digit n = char_of (if n < 10 then 48 + n else 87 + n)"

text \<open>A character inside a JSON string literal, as \<open>JSON.stringify\<close> writes it.\<close>

definition json_char :: "char \<Rightarrow> string" where
  "json_char c =
     (let n = of_char c :: nat
      in if n = 34 \<or> n = 92 then [char_of (92 :: nat), c]
         else if n = 8 then [char_of (92 :: nat), CHR ''b''] else if n = 9 then [char_of (92 :: nat), CHR ''t'']
         else if n = 10 then [char_of (92 :: nat), CHR ''n''] else if n = 12 then [char_of (92 :: nat), CHR ''f'']
         else if n = 13 then [char_of (92 :: nat), CHR ''r'']
         else if n < 32 then char_of (92 :: nat) # ''u00'' @ [hex_digit (n div 16), hex_digit (n mod 16)]
         else [c])"

definition json_string :: "string \<Rightarrow> string" where
  "json_string s = char_of (34 :: nat) # concat (map json_char s) @ [char_of (34 :: nat)]"

definition newline :: string where "newline = [char_of (10 :: nat)]"

definition json_field :: "string \<times> string \<Rightarrow> string" where
  "json_field kv = ''  '' @ json_string (fst kv) @ '': '' @ json_string (snd kv)"

fun json_fields :: "(string \<times> string) list \<Rightarrow> string" where
  "json_fields [] = []"
| "json_fields [kv] = json_field kv"
| "json_fields (kv # kvs) = json_field kv @ '','' @ newline @ json_fields kvs"

definition NONCE_EXPIRATION_SECONDS :: int where "NONCE_EXPIRATION_SECONDS = 300"
definition SEP_53_PREFIX :: string where "SEP_53_PREFIX = ''Stellar Signed Message:'' @ newline"
definition CHALLENGE_VERSION :: string where "CHALLENGE_VERSION = ''1.0.0''"
definition CHALLENGE_STATEMENT :: string where
  "CHALLENGE_STATEMENT =
     ''StepFi requests that you sign this message to authenticate your wallet. '' @
     ''This message does not trigger any blockchain transaction.''"
definition CHALLENGE_DATA_NAME :: string where "CHALLENGE_DATA_NAME = ''stepfi_auth_challenge''"

text \<open>\<open>2026-10-31T00:00:00.000Z\<close>.\<close>

definition LEGACY_RAW_SIGNATURES_SUNSET :: int where
  "LEGACY_RAW_SIGNATURES_SUNSET = (month_start (12 * 2026 + 9) + 30) * day_ms"

section \<open>State and environment\<close>

record NonceRow =
  nn_id :: string
  nn_wallet :: string
  nn_nonce :: string
  nn_expires :: int
  nn_issued :: "int option"
  nn_hash :: "string option"
  nn_used :: "int option"

record ChallengeEnvelope =
  env_domain :: string
  env_address :: string
  env_uri :: string
  env_version :: string
  env_nonce :: string
  env_issuedAt :: string
  env_expirationTime :: string
  env_networkPassphrase :: string

datatype SignatureType = RawSig | Sep0043 | EnvelopeSig | Sep0010

record VerifyRequest =
  vr_wallet :: string
  vr_nonce :: string
  vr_signature :: "string option"
  vr_type :: "SignatureType option"
  vr_message :: "string option"
  vr_signedXdr :: "string option"

datatype challenge_op = ManageData string "string option" | OtherChallengeOp

text \<open>A parsed challenge transaction; the value of \<open>manageData\<close> is in hexadecimal.\<close>

record ChallengeTx =
  ct_source :: string
  ct_sequence :: string
  ct_ops :: "challenge_op list"
  ct_max_time :: "int option"
  ct_hash :: string
  ct_signatures :: "string list"

text \<open>
  \<open>au_json\<close> answers with the eight string fields of an object, or \<open>None\<close> where the text is not
  such an object; \<open>au_build_tx\<close> encodes the unsigned challenge transaction.
\<close>

record auth_env =
  au_now :: int
  au_domain :: string
  au_uri :: string
  au_network :: string
  au_allow_legacy :: bool
  au_sunset :: int
  au_random :: string
  au_row_id :: string
  au_sha256 :: "string \<Rightarrow> string"
  au_digest :: "string \<Rightarrow> string"
  au_valid_key :: "string \<Rightarrow> bool"
  au_verify :: "string \<Rightarrow> string \<Rightarrow> string \<Rightarrow> bool"
  au_base64 :: "string \<Rightarrow> string"
  au_json :: "string \<Rightarrow> ChallengeEnvelope option"
  au_date_parse :: "string \<Rightarrow> int option"
  au_build_tx :: "ChallengeTx \<Rightarrow> string"
  au_parse_tx :: "string \<Rightarrow> ChallengeTx option"
  au_faults :: faults

abbreviation signature_invalid :: exn where "signature_invalid \<equiv> unauthorized ''AUTH_SIGNATURE_INVALID''"
abbreviation nonce_not_found :: exn where "nonce_not_found \<equiv> unauthorized ''AUTH_NONCE_NOT_FOUND''"
abbreviation nonce_expired :: exn where "nonce_expired \<equiv> unauthorized ''AUTH_NONCE_EXPIRED''"
abbreviation challenge_mismatch :: exn where "challenge_mismatch \<equiv> unauthorized ''AUTH_CHALLENGE_MISMATCH''"

section \<open>Configuration\<close>

definition parseBooleanEnv :: "string option \<Rightarrow> bool \<Rightarrow> bool" where
  "parseBooleanEnv value dflt =
     (case value of None \<Rightarrow> dflt
      | Some v \<Rightarrow> if trim v = [] then dflt
                  else to_lower (trim v) \<in> {''true'', ''1'', ''yes'', ''on''})"

text \<open>\<open>parse\<close> is \<open>new Date(raw).getTime()\<close>, \<open>None\<close> for an invalid date.\<close>

definition resolveLegacySunset :: "(string \<Rightarrow> int option) \<Rightarrow> string option \<Rightarrow> int" where
  "resolveLegacySunset parse raw =
     (case raw of None \<Rightarrow> LEGACY_RAW_SIGNATURES_SUNSET
      | Some r \<Rightarrow> if trim r = [] then LEGACY_RAW_SIGNATURES_SUNSET
                  else (case parse r of Some t \<Rightarrow> t | None \<Rightarrow> LEGACY_RAW_SIGNATURES_SUNSET))"

text \<open>\<open>apiUrl.replace(/\/+$/, '')\<close>.\<close>

definition strip_slashes :: "string \<Rightarrow> string" where
  "strip_slashes s = rev (dropWhile (\<lambda>c. c = CHR ''/'') (rev s))"

lemma strip_slashes_end: "strip_slashes s = [] \<or> last (strip_slashes s) \<noteq> CHR ''/''"
  using hd_dropWhile [of "\<lambda>c. c = CHR ''/''" "rev s"] by (cases "dropWhile (\<lambda>c. c = CHR ''/'') (rev s)") (auto simp: strip_slashes_def last_rev)

text \<open>\<open>host\<close> is \<open>new URL(apiUrl).host\<close>, \<open>None\<close> where the constructor throws.\<close>

definition resolveHost :: "(string \<Rightarrow> string option) \<Rightarrow> string \<Rightarrow> string" where
  "resolveHost host apiUrl =
     (case host apiUrl of Some h \<Rightarrow> h
      | None \<Rightarrow> let b = takeWhile (\<lambda>c. c \<noteq> CHR ''/'') apiUrl in if b = [] then ''localhost'' else b)"

definition DEFAULT_NETWORK_PASSPHRASE :: string where
  "DEFAULT_NETWORK_PASSPHRASE = ''Test SDF Network ; September 2015''"

text \<open>The constructor reads the settings of the process; \<open>??\<close> replaces a missing one only.\<close>

definition setting_or :: "string option \<Rightarrow> string \<Rightarrow> string" where
  "setting_or v d = (case v of Some s \<Rightarrow> s | None \<Rightarrow> d)"

definition configured :: "(string \<Rightarrow> string option) \<Rightarrow> (string \<Rightarrow> string option) \<Rightarrow> auth_env \<Rightarrow> auth_env" where
  "configured get host env =
     (let apiUrl = strip_slashes (setting_or (get ''API_URL'') ''http://localhost:3000'');
          apiPrefix = setting_or (get ''API_PREFIX'') ''api/v1''
      in env\<lparr>au_domain := setting_or (get ''AUTH_CHALLENGE_DOMAIN'') (resolveHost host apiUrl),
             au_uri := apiUrl @ ''/'' @ apiPrefix @ ''/auth/verify'',
             au_network := setting_or (get ''STELLAR_NETWORK_PASSPHRASE'') DEFAULT_NETWORK_PASSPHRASE,
             au_allow_legacy := parseBooleanEnv (get ''AUTH_ALLOW_LEGACY_RAW_SIGNATURES'') True,
             au_sunset := resolveLegacySunset (au_date_parse env) (get ''AUTH_LEGACY_SIGNATURES_SUNSET'')\<rparr>)"

section \<open>Issuing a challenge\<close>

definition buildChallengeMessage :: "auth_env \<Rightarrow> string \<Rightarrow> string \<Rightarrow> int \<Rightarrow> int \<Rightarrow> string" where
  "buildChallengeMessage env wallet nonce issued expires =
     ''{'' @ newline @ json_fields
       [(''domain'', au_domain env), (''address'', wallet), (''statement'', CHALLENGE_STATEMENT),
        (''uri'', au_uri env), (''version'', CHALLENGE_VERSION), (''nonce'', nonce),
        (''issuedAt'', toISOString issued), (''expirationTime'', toISOString expires),
        (''networkPassphrase'', au_network env)] @ newline @ ''}''"

definition challenge_tx :: "string \<Rightarrow> int \<Rightarrow> string \<Rightarrow> ChallengeTx" where
  "challenge_tx wallet expires message_hash =
     \<lparr>ct_source = wallet, ct_sequence = ''0'',
      ct_ops = [ManageData CHALLENGE_DATA_NAME (Some message_hash)],
      ct_max_time = Some (expires div 1000), ct_hash = [], ct_signatures = []\<rparr>"

record NonceResponse =
  nr_nonce :: string
  nr_expiresAt :: int
  nr_message :: string
  nr_challengeXdr :: string

definition generateNonce :: "auth_env \<Rightarrow> string \<Rightarrow> NonceRow list \<Rightarrow> NonceResponse result \<times> NonceRow list" where
  "generateNonce env wallet rows =
     (let nonce = au_random env; issued = au_now env;
          expires = au_now env + NONCE_EXPIRATION_SECONDS * 1000;
          msg = buildChallengeMessage env wallet nonce issued expires;
          mh = au_sha256 env msg;
          xdr = au_build_tx env (challenge_tx wallet expires mh)
      in case au_faults env ''nonces.insert'' of
           Some _ \<Rightarrow> (Inl (internal_error ''DATABASE_NONCE_INSERT_FAILED''), rows)
         | None \<Rightarrow> (Inr \<lparr>nr_nonce = nonce, nr_expiresAt = expires, nr_message = msg, nr_challengeXdr = xdr\<rparr>,
                    rows @ [\<lparr>nn_id = au_row_id env, nn_wallet = wallet, nn_nonce = nonce, nn_expires = expires,
                             nn_issued = Some issued, nn_hash = Some mh, nn_used = None\<rparr>]))"

section \<open>Verifying\<close>

definition verifySep0010Challenge :: "auth_env \<Rightarrow> VerifyRequest \<Rightarrow> NonceRow \<Rightarrow> unit result" where
  "verifySep0010Challenge env dto stored =
     (case vr_signedXdr dto of None \<Rightarrow> Inl signature_invalid | Some [] \<Rightarrow> Inl signature_invalid
      | Some xdr \<Rightarrow>
     (case nn_hash stored of None \<Rightarrow> Inl signature_invalid | Some [] \<Rightarrow> Inl signature_invalid
      | Some mh \<Rightarrow>
     (case au_parse_tx env xdr of None \<Rightarrow> Inl signature_invalid
      | Some t \<Rightarrow>
          if ct_source t \<noteq> vr_wallet dto \<or> ct_sequence t \<noteq> ''0'' then Inl challenge_mismatch
          else (case ct_ops t of
            [ManageData name value] \<Rightarrow>
              if name \<noteq> CHALLENGE_DATA_NAME then Inl challenge_mismatch
              else if value \<noteq> Some mh then Inl challenge_mismatch
              else (case ct_max_time t of None \<Rightarrow> Inl nonce_expired
                | Some mt \<Rightarrow>
                    if mt * 1000 \<le> au_now env then Inl nonce_expired
                    else if \<exists>s \<in> set (ct_signatures t). au_verify env (vr_wallet dto) (ct_hash t) s
                    then Inr () else Inl signature_invalid)
          | _ \<Rightarrow> Inl challenge_mismatch))))"

definition resolveChallengeMessage :: "auth_env \<Rightarrow> VerifyRequest \<Rightarrow> NonceRow \<Rightarrow> string result" where
  "resolveChallengeMessage env dto stored =
     (case vr_message dto of
        Some (c # cs) \<Rightarrow> Inr (c # cs)
      | _ \<Rightarrow>
          (case (nn_issued stored, nn_hash stored) of
             (Some issued, Some (h # hs)) \<Rightarrow>
               Inr (buildChallengeMessage env (vr_wallet dto) (vr_nonce dto) issued (nn_expires stored))
           | _ \<Rightarrow> Inl signature_invalid))"

definition parseChallengeEnvelope :: "auth_env \<Rightarrow> string \<Rightarrow> ChallengeEnvelope result" where
  "parseChallengeEnvelope env message =
     (case au_json env message of Some e \<Rightarrow> Inr e | None \<Rightarrow> Inl signature_invalid)"

definition assertChallengeBinding :: "auth_env \<Rightarrow> string \<Rightarrow> NonceRow \<Rightarrow> VerifyRequest \<Rightarrow> unit result" where
  "assertChallengeBinding env message stored dto =
     (case nn_hash stored of None \<Rightarrow> Inl signature_invalid | Some [] \<Rightarrow> Inl signature_invalid
      | Some mh \<Rightarrow>
          if au_sha256 env message \<noteq> mh then Inl challenge_mismatch
          else andThen (parseChallengeEnvelope env message) (\<lambda>e.
            if env_domain e \<noteq> au_domain env then Inl (unauthorized ''AUTH_CHALLENGE_DOMAIN_MISMATCH'')
            else if env_uri e \<noteq> au_uri env then Inl (unauthorized ''AUTH_CHALLENGE_URI_MISMATCH'')
            else if env_networkPassphrase e \<noteq> au_network env
            then Inl (unauthorized ''AUTH_CHALLENGE_NETWORK_MISMATCH'')
            else if env_address e \<noteq> vr_wallet dto \<or> env_nonce e \<noteq> vr_nonce dto \<or>
                    env_version e \<noteq> CHALLENGE_VERSION
            then Inl challenge_mismatch
            else (case au_date_parse env (env_expirationTime e) of
                    None \<Rightarrow> Inl nonce_expired
                  | Some t \<Rightarrow> if t \<le> au_now env then Inl nonce_expired else Inr ())))"

definition verifyLegacyRawSignature :: "auth_env \<Rightarrow> string \<Rightarrow> string \<Rightarrow> string \<Rightarrow> unit result" where
  "verifyLegacyRawSignature env wallet nonce sig =
     (if \<not> au_allow_legacy env then Inl (unauthorized ''AUTH_LEGACY_SIGNATURE_DISABLED'')
      else if au_sunset env \<le> au_now env then Inl (unauthorized ''AUTH_LEGACY_SIGNATURE_DISABLED'')
      else if au_verify env wallet nonce sig then Inr () else Inl signature_invalid)"

text \<open>The checks after the nonce is claimed; they read the row as it was selected.\<close>

definition check_signature :: "auth_env \<Rightarrow> VerifyRequest \<Rightarrow> NonceRow \<Rightarrow> unit result" where
  "check_signature env dto stored =
     (if nn_expires stored < au_now env then Inl nonce_expired
      else if \<not> au_valid_key env (vr_wallet dto) then Inl signature_invalid
      else
        let ty = (case vr_type dto of Some t \<Rightarrow> t | None \<Rightarrow> RawSig)
        in if ty = Sep0010 then verifySep0010Challenge env dto stored
           else (case vr_signature dto of None \<Rightarrow> Inl signature_invalid | Some [] \<Rightarrow> Inl signature_invalid
             | Some s \<Rightarrow>
                 let sig = au_base64 env s
                 in if ty = RawSig then verifyLegacyRawSignature env (vr_wallet dto) (vr_nonce dto) sig
                    else andThen (resolveChallengeMessage env dto stored) (\<lambda>message.
                         andThen (assertChallengeBinding env message stored dto) (\<lambda>_.
                           let signed = (if ty = Sep0043 then au_digest env (SEP_53_PREFIX @ message) else message)
                           in if au_verify env (vr_wallet dto) signed sig then Inr () else Inl signature_invalid))))"

definition find_nonce :: "auth_env \<Rightarrow> VerifyRequest \<Rightarrow> NonceRow list \<Rightarrow> NonceRow result" where
  "find_nonce env dto rows =
     (case with_fault (au_faults env ''nonces.select'')
             (single (filter (\<lambda>r. nn_wallet r = vr_wallet dto \<and> nn_nonce r = vr_nonce dto \<and> nn_used r = None) rows)) of
        Inl _ \<Rightarrow> Inl nonce_not_found | Inr r \<Rightarrow> Inr r)"

text \<open>\<open>UPDATE ... WHERE id = ? AND used_at IS NULL\<close>, counting the rows it changed.\<close>

definition claim_nonce :: "auth_env \<Rightarrow> string \<Rightarrow> NonceRow list \<Rightarrow> (nat \<times> NonceRow list) result" where
  "claim_nonce env rid rows =
     (case au_faults env ''nonces.claim'' of
        Some _ \<Rightarrow> Inl (internal_error ''DATABASE_NONCE_CLAIM_FAILED'')
      | None \<Rightarrow> Inr (length (filter (\<lambda>r. nn_id r = rid \<and> nn_used r = None) rows),
                    update_where (\<lambda>r. nn_id r = rid \<and> nn_used r = None) (\<lambda>r. r\<lparr>nn_used := Some (au_now env)\<rparr>) rows))"

definition verifySignature :: "auth_env \<Rightarrow> VerifyRequest \<Rightarrow> NonceRow list \<Rightarrow> unit result \<times> NonceRow list" where
  "verifySignature env dto rows =
     (case find_nonce env dto rows of
        Inl e \<Rightarrow> (Inl e, rows)
      | Inr stored \<Rightarrow>
          (case claim_nonce env (nn_id stored) rows of
             Inl e \<Rightarrow> (Inl e, rows)
           | Inr (n, rows') \<Rightarrow>
               (if n = 0 then Inl nonce_not_found else check_signature env dto stored, rows')))"

section \<open>Claiming\<close>

definition unused :: "string \<Rightarrow> NonceRow \<Rightarrow> bool" where
  "unused rid r \<longleftrightarrow> nn_id r = rid \<and> nn_used r = None"

definition nonce_burned :: "string \<Rightarrow> NonceRow list \<Rightarrow> bool" where
  "nonce_burned rid rows \<longleftrightarrow> (\<forall>r \<in> set rows. \<not> unused rid r)"

definition nonce_claim :: "auth_env \<times> string \<Rightarrow> NonceRow list \<Rightarrow> NonceRow list option" where
  "nonce_claim q rows =
     (case claim_nonce (fst q) (snd q) rows of Inr (n, rows') \<Rightarrow> if n = 0 then None else Some rows' | Inl _ \<Rightarrow> None)"

lemma claim_nonce_Inr:
  "claim_nonce env rid rows = Inr (n, rows') \<longleftrightarrow>
     au_faults env ''nonces.claim'' = None \<and> n = length (filter (unused rid) rows) \<and>
     rows' = update_where (unused rid) (\<lambda>r. r\<lparr>nn_used := Some (au_now env)\<rparr>) rows"
  unfolding claim_nonce_def unused_def [abs_def] by (auto split: option.splits)

lemma unused_claimed [simp]: "\<not> unused k (r\<lparr>nn_used := Some t\<rparr>)"
  by (simp add: unused_def)

lemma claimed_burned: "nonce_burned rid (update_where (unused rid) (\<lambda>r. r\<lparr>nn_used := Some t\<rparr>) rows)"
  by (auto simp: nonce_burned_def update_where_def)

lemma burned_keeps: "nonce_burned k rows \<Longrightarrow> nonce_burned k (update_where (unused rid) (\<lambda>r. r\<lparr>nn_used := Some t\<rparr>) rows)"
  by (auto simp: nonce_burned_def update_where_def)

lemma nonce_claim_Some:
  "nonce_claim q rows = Some rows' \<longleftrightarrow>
     au_faults (fst q) ''nonces.claim'' = None \<and> \<not> nonce_burned (snd q) rows \<and>
     rows' = update_where (unused (snd q)) (\<lambda>r. r\<lparr>nn_used := Some (au_now (fst q))\<rparr>) rows"
proof -
  have "length (filter (unused (snd q)) rows) = 0 \<longleftrightarrow> nonce_burned (snd q) rows"
    by (simp add: nonce_burned_def filter_empty_conv)
  then show ?thesis
    by (auto simp: nonce_claim_def claim_nonce_Inr split: sum.splits)
      (auto simp: claim_nonce_def split: option.splits)
qed

interpretation nonce: claim_once nonce_claim snd "\<lambda>_. True" nonce_burned
proof
  fix c s s'
  assume "nonce_claim c s = Some s'"
  then show "\<not> nonce_burned (snd c) s" "nonce_burned (snd c) s'" "nonce_burned k s \<Longrightarrow> nonce_burned k s'" for k
    by (simp_all add: nonce_claim_Some claimed_burned burned_keeps)
qed

lemma find_nonce_Inr:
  "find_nonce env dto rows = Inr stored \<longleftrightarrow> au_faults env ''nonces.select'' = None \<and>
     filter (\<lambda>r. nn_wallet r = vr_wallet dto \<and> nn_nonce r = vr_nonce dto \<and> nn_used r = None) rows = [stored]"
  unfolding find_nonce_def by (auto simp: single_Inr split: sum.splits) (simp add: single_def)

lemma find_nonce_stored:
  assumes "find_nonce env dto rows = Inr stored"
  shows "stored \<in> set rows \<and> nn_wallet stored = vr_wallet dto \<and> nn_nonce stored = vr_nonce dto \<and> nn_used stored = None"
proof -
  have "set (filter (\<lambda>r. nn_wallet r = vr_wallet dto \<and> nn_nonce r = vr_nonce dto \<and> nn_used r = None) rows) = {stored}"
    using assms by (simp add: find_nonce_Inr)
  then show ?thesis by auto
qed

lemma verify_Inr:
  assumes "fst (verifySignature env dto rows) = Inr ()"
  shows "\<exists>stored. find_nonce env dto rows = Inr stored \<and> check_signature env dto stored = Inr () \<and>
    nonce_claim (env, nn_id stored) rows = Some (snd (verifySignature env dto rows))"
  using assms by (auto simp: verifySignature_def nonce_claim_def split: sum.splits if_splits)

lemma verify_burns:
  assumes "find_nonce env dto rows = Inr stored" and "au_faults env ''nonces.claim'' = None"
  shows "snd (verifySignature env dto rows) =
    update_where (unused (nn_id stored)) (\<lambda>r. r\<lparr>nn_used := Some (au_now env)\<rparr>) rows"
  using assms claim_nonce_Inr [of env "nn_id stored" rows]
  by (auto simp: verifySignature_def split: sum.splits) (auto simp: claim_nonce_def)

text \<open>What a signature has to be a signature of, per scheme.\<close>

definition bound_message :: "auth_env \<Rightarrow> VerifyRequest \<Rightarrow> NonceRow \<Rightarrow> string \<Rightarrow> bool" where
  "bound_message env dto stored m \<longleftrightarrow>
     nn_hash stored = Some (au_sha256 env m) \<and>
     (\<exists>e t. au_json env m = Some e \<and> env_domain e = au_domain env \<and> env_uri e = au_uri env \<and>
        env_networkPassphrase e = au_network env \<and> env_address e = vr_wallet dto \<and>
        env_nonce e = vr_nonce dto \<and> au_date_parse env (env_expirationTime e) = Some t \<and> au_now env < t)"

lemma assertChallengeBinding_Inr:
  "assertChallengeBinding env m stored dto = Inr u \<Longrightarrow> bound_message env dto stored m"
  by (auto simp: assertChallengeBinding_def parseChallengeEnvelope_def bound_message_def andThen_Inr_iff
      split: option.splits list.splits if_splits)

lemma sep0010_Inr:
  "verifySep0010Challenge env dto stored = Inr u \<Longrightarrow>
     \<exists>xdr t mh mt s. vr_signedXdr dto = Some xdr \<and> nn_hash stored = Some mh \<and> au_parse_tx env xdr = Some t \<and>
       ct_source t = vr_wallet dto \<and> ct_sequence t = ''0'' \<and> ct_ops t = [ManageData CHALLENGE_DATA_NAME (Some mh)] \<and>
       ct_max_time t = Some mt \<and> au_now env < mt * 1000 \<and> s \<in> set (ct_signatures t) \<and>
       au_verify env (vr_wallet dto) (ct_hash t) s"
  unfolding verifySep0010Challenge_def
  by (simp split: option.splits list.splits if_splits challenge_op.splits) blast

section \<open>Properties\<close>

text \<open>C3: A wallet is authenticated only by its own fresh challenge: a successful verification
  consumed an unused, unexpired nonce of that very wallet, and the wallet's key signed either
  a message with the stored digest that names this domain, URI, network, wallet and nonce and
  is not expired, or a zero-sequence transaction of the wallet that carries the stored digest,
  or the bare nonce - the last only while the legacy scheme is allowed and before its sunset.\<close>

theorem verify_sound:
  assumes "fst (verifySignature env dto rows) = Inr ()"
  shows "\<exists>stored \<in> set rows. nn_wallet stored = vr_wallet dto \<and> nn_nonce stored = vr_nonce dto \<and>
    nn_used stored = None \<and> au_now env \<le> nn_expires stored \<and>
    nonce_burned (nn_id stored) (snd (verifySignature env dto rows)) \<and>
    ((\<exists>m sig. bound_message env dto stored m \<and>
        (au_verify env (vr_wallet dto) m sig \<or> au_verify env (vr_wallet dto) (au_digest env (SEP_53_PREFIX @ m)) sig)) \<or>
     (\<exists>t :: ChallengeTx. \<exists>mh s. nn_hash stored = Some mh \<and> ct_source t = vr_wallet dto \<and> ct_sequence t = ''0'' \<and>
        ct_ops t = [ManageData CHALLENGE_DATA_NAME (Some mh)] \<and> au_verify env (vr_wallet dto) (ct_hash t) s) \<or>
     (\<exists>sig. au_verify env (vr_wallet dto) (vr_nonce dto) sig \<and> au_allow_legacy env \<and> au_now env < au_sunset env))"
proof -
  from verify_Inr [OF assms] obtain stored where f: "find_nonce env dto rows = Inr stored"
    and c: "check_signature env dto stored = Inr ()"
    and n: "nonce_claim (env, nn_id stored) rows = Some (snd (verifySignature env dto rows))" by blast
  have b: "nonce_burned (nn_id stored) (snd (verifySignature env dto rows))"
    using nonce.claim_takes [OF _ n] by simp
  have e: "au_now env \<le> nn_expires stored" using c by (simp add: check_signature_def split: if_splits)
  have "(\<exists>m sig. bound_message env dto stored m \<and>
        (au_verify env (vr_wallet dto) m sig \<or> au_verify env (vr_wallet dto) (au_digest env (SEP_53_PREFIX @ m)) sig)) \<or>
     (\<exists>t :: ChallengeTx. \<exists>mh s. nn_hash stored = Some mh \<and> ct_source t = vr_wallet dto \<and> ct_sequence t = ''0'' \<and>
        ct_ops t = [ManageData CHALLENGE_DATA_NAME (Some mh)] \<and> au_verify env (vr_wallet dto) (ct_hash t) s) \<or>
     (\<exists>sig. au_verify env (vr_wallet dto) (vr_nonce dto) sig \<and> au_allow_legacy env \<and> au_now env < au_sunset env)"
  proof (cases "vr_type dto = Some Sep0010")
    case True
    then have "verifySep0010Challenge env dto stored = Inr ()"
      using c by (simp add: check_signature_def Let_def split: if_splits)
    from sep0010_Inr [OF this] show ?thesis by blast
  next
    case False
    then show ?thesis
      using c unfolding check_signature_def Let_def
      by (auto simp: andThen_Inr_iff verifyLegacyRawSignature_def not_le
          dest!: assertChallengeBinding_Inr split: if_splits option.splits list.splits)
  qed
  then show ?thesis
    using find_nonce_stored [OF f] b e by (intro bexI [of _ stored] conjI) blast+
qed

text \<open>C14: A nonce authenticates at most once. However concurrent verifications interleave with each
  other and with steps that do not clear \<open>used_at\<close>, at most one of them claims the row, and a
  verification succeeds only by claiming it.\<close>

theorem nonce_single_use:
  assumes "nonce.keeps rid es"
  shows "nonce.wins rid es rows \<le> 1 \<and>
    (fst (verifySignature env dto rows') = Inr () \<longrightarrow>
       (\<exists>stored \<in> set rows'. nonce_claim (env, nn_id stored) rows' = Some (snd (verifySignature env dto rows'))))"
  using nonce.wins_le_1 [OF assms] verify_Inr [of env dto rows'] find_nonce_stored by blast

text \<open>The nonce is burned whatever the outcome: once a verification has found and claimed it,
  every later request with that wallet and nonce is refused as not found, also when the
  first one failed on the signature or on expiry.\<close>

theorem nonce_burned_after_attempt:
  assumes "find_nonce env dto rows = Inr stored" and "au_faults env ''nonces.claim'' = None"
    and "vr_wallet dto' = vr_wallet dto" and "vr_nonce dto' = vr_nonce dto"
  shows "verifySignature env' dto' (snd (verifySignature env dto rows)) =
           (Inl nonce_not_found, snd (verifySignature env dto rows))"
proof -
  define P where "P = (\<lambda>r :: NonceRow. nn_wallet r = vr_wallet dto \<and> nn_nonce r = vr_nonce dto \<and> nn_used r = None)"
  have fP: "filter P rows = [stored]" using assms(1) by (simp add: find_nonce_Inr P_def)
  have "\<not> P r'" if r': "r' \<in> set (update_where (unused (nn_id stored)) (\<lambda>r. r\<lparr>nn_used := Some (au_now env)\<rparr>) rows)" for r'
  proof
    assume P: "P r'"
    from r' obtain r where r: "r \<in> set rows"
      "r' = (if unused (nn_id stored) r then r\<lparr>nn_used := Some (au_now env)\<rparr> else r)" by (auto simp: update_where_def)
    then have "r' = r" "\<not> unused (nn_id stored) r" using P by (auto simp: P_def split: if_splits)
    with P r(1) have "r \<in> set (filter P rows)" by simp
    then have "r = stored" using fP by simp
    then show False using \<open>\<not> unused (nn_id stored) r\<close> P \<open>r' = r\<close> by (simp add: unused_def P_def)
  qed
  then have e: "filter P (snd (verifySignature env dto rows)) = []"
    unfolding verify_burns [OF assms(1,2)] by (simp add: filter_empty_conv)
  have "find_nonce env' dto' (snd (verifySignature env dto rows)) = Inl nonce_not_found"
    using e unfolding P_def find_nonce_def assms(3,4) by (simp add: single_def with_fault_def split: option.splits)
  then show ?thesis by (simp add: verifySignature_def)
qed

text \<open>
  The laws of the parameters an honest login relies on: the JSON text of the challenge parses
  back to its fields, \<open>Date.parse\<close> inverts \<open>toISOString\<close>, a digest is not the empty string.
\<close>

definition codec_laws :: "auth_env \<Rightarrow> string \<Rightarrow> string \<Rightarrow> int \<Rightarrow> int \<Rightarrow> bool" where
  "codec_laws env w n i x \<longleftrightarrow>
     au_json env (buildChallengeMessage env w n i x) =
        Some \<lparr>env_domain = au_domain env, env_address = w, env_uri = au_uri env, env_version = CHALLENGE_VERSION,
              env_nonce = n, env_issuedAt = toISOString i, env_expirationTime = toISOString x,
              env_networkPassphrase = au_network env\<rparr> \<and>
     au_date_parse env (toISOString x) = Some x \<and> au_sha256 env (buildChallengeMessage env w n i x) \<noteq> []"

text \<open>C19: An honest wallet can log in: within five minutes of \<open>generateNonce\<close>, a signature of the
  issued message by the wallet's key is accepted, whether the client echoes the message or
  leaves it to be rebuilt from the stored row.\<close>

theorem honest_login:
  assumes "generateNonce env w rows = (Inr r, rows')" and "au_faults env = no_faults"
    and "codec_laws env w (au_random env) (au_now env) (au_now env + NONCE_EXPIRATION_SECONDS * 1000)"
    and "\<forall>x \<in> set rows. nn_id x \<noteq> au_row_id env \<and> nn_nonce x \<noteq> au_random env"
    and "au_now env \<le> now" "now < au_now env + 300000" and "au_valid_key env w" and "sig \<noteq> []"
    and "au_verify env w (nr_message r) (au_base64 env sig)" and "m = None \<or> m = Some (nr_message r)"
  shows "fst (verifySignature (env\<lparr>au_now := now\<rparr>)
    \<lparr>vr_wallet = w, vr_nonce = nr_nonce r, vr_signature = Some sig, vr_type = Some EnvelopeSig,
     vr_message = m, vr_signedXdr = None\<rparr> rows') = Inr ()"
proof -
  define env' where "env' = env\<lparr>au_now := now\<rparr>"
  define dto where "dto = \<lparr>vr_wallet = w, vr_nonce = nr_nonce r, vr_signature = Some sig,
    vr_type = Some EnvelopeSig, vr_message = m, vr_signedXdr = None\<rparr>"
  define x where "x = au_now env + NONCE_EXPIRATION_SECONDS * 1000"
  define msg where "msg = buildChallengeMessage env w (au_random env) (au_now env) x"
  define row where "row = \<lparr>nn_id = au_row_id env, nn_wallet = w, nn_nonce = au_random env, nn_expires = x,
    nn_issued = Some (au_now env), nn_hash = Some (au_sha256 env msg), nn_used = None\<rparr>"
  have r: "nr_nonce r = au_random env" "nr_message r = msg" and rows': "rows' = rows @ [row]"
    using assms(1,2) by (auto simp: generateNonce_def Let_def msg_def x_def row_def)
  have laws: "au_json env msg = Some \<lparr>env_domain = au_domain env, env_address = w, env_uri = au_uri env,
      env_version = CHALLENGE_VERSION, env_nonce = au_random env, env_issuedAt = toISOString (au_now env),
      env_expirationTime = toISOString x, env_networkPassphrase = au_network env\<rparr>"
    "au_date_parse env (toISOString x) = Some x" "au_sha256 env msg \<noteq> []"
    using assms(3) by (simp_all add: codec_laws_def msg_def x_def)
  have x: "now < x" using assms(6) by (simp add: x_def NONCE_EXPIRATION_SECONDS_def)
  have msg': "buildChallengeMessage env' w (au_random env) (au_now env) x = msg"
    by (simp add: msg_def env'_def buildChallengeMessage_def)
  have "filter (\<lambda>r. nn_wallet r = w \<and> nn_nonce r = au_random env \<and> nn_used r = None) rows = []"
    using assms(4) by (auto simp: filter_empty_conv)
  then have f: "find_nonce env' dto rows' = Inr row"
    by (simp add: find_nonce_Inr env'_def dto_def assms(2) rows' r row_def)
  have "filter (unused (au_row_id env)) rows = []"
    using assms(4) by (auto simp: filter_empty_conv unused_def)
  then have c: "\<exists>rows''. claim_nonce env' (nn_id row) rows' = Inr (1, rows'')"
    by (simp add: claim_nonce_Inr env'_def assms(2) rows' row_def unused_def)
  obtain h hs where h: "au_sha256 env msg = h # hs" using laws(3) by (cases "au_sha256 env msg") auto
  have "msg \<noteq> []" by (simp add: msg_def buildChallengeMessage_def)
  then have res: "resolveChallengeMessage env' dto row = Inr msg"
    using assms(10) r msg' h by (cases msg) (auto simp: resolveChallengeMessage_def dto_def row_def)
  have "assertChallengeBinding env' msg row dto = Inr ()"
    using laws x h r
    by (simp add: assertChallengeBinding_def parseChallengeEnvelope_def env'_def dto_def row_def)
  with res have "check_signature env' dto row = Inr ()"
    using x assms(7-9) r by (cases sig) (auto simp: check_signature_def Let_def dto_def env'_def row_def)
  with f c show ?thesis
    unfolding env'_def [symmetric] dto_def [symmetric] by (auto simp: verifySignature_def)
qed

section \<open>A concrete environment\<close>

definition demo_auth :: auth_env where
  "demo_auth = \<lparr>au_now = 1000000, au_domain = ''stepfi'', au_uri = ''https://stepfi/verify'', au_network = ''Test'',
     au_allow_legacy = True, au_sunset = LEGACY_RAW_SIGNATURES_SUNSET, au_random = ''n1'', au_row_id = ''r1'',
     au_sha256 = (\<lambda>m. ''h''), au_digest = (\<lambda>m. m), au_valid_key = (\<lambda>_. True), au_verify = (\<lambda>k m s. s = ''good''),
     au_base64 = (\<lambda>s. s), au_json = (\<lambda>_. None), au_date_parse = (\<lambda>_. None), au_build_tx = (\<lambda>_. ''XDR''),
     au_parse_tx = (\<lambda>_. None), au_faults = no_faults\<rparr>"

definition demo_nonce :: NonceRow where
  "demo_nonce = \<lparr>nn_id = ''r1'', nn_wallet = ''GA'', nn_nonce = ''n1'', nn_expires = 1300000, nn_issued = Some 1000000,
     nn_hash = Some ''h'', nn_used = None\<rparr>"

definition demo_verify :: VerifyRequest where
  "demo_verify = \<lparr>vr_wallet = ''GA'', vr_nonce = ''n1'', vr_signature = Some ''good'', vr_type = None,
     vr_message = None, vr_signedXdr = None\<rparr>"

lemma sunset_value: "LEGACY_RAW_SIGNATURES_SUNSET = 1793404800000"
  by code_simp

lemma demo_verifies: "fst (verifySignature demo_auth demo_verify [demo_nonce]) = Inr ()"
  by (simp add: verifySignature_def find_nonce_def single_def claim_nonce_def check_signature_def
      verifyLegacyRawSignature_def demo_auth_def demo_verify_def demo_nonce_def sunset_value Let_def)

theorem verify_sound_witness:
  "\<exists>stored \<in> set [demo_nonce]. nonce_burned (nn_id stored) (snd (verifySignature demo_auth demo_verify [demo_nonce]))"
  using verify_sound [OF demo_verifies] by blast

theorem nonce_single_use_witness:
  "nonce.wins ''r1'' [Claim (demo_auth, ''r1''), Claim (demo_auth, ''r1'')] [demo_nonce] \<le> 1"
  by (rule nonce_single_use [THEN conjunct1]) (simp only: nonce.keeps_Cons nonce.keeps_Nil event.case simp_thms)

theorem nonce_burned_after_attempt_witness:
  "fst (verifySignature demo_auth demo_verify (snd (verifySignature demo_auth demo_verify [demo_nonce]))) =
     Inl nonce_not_found"
proof -
  have "find_nonce demo_auth demo_verify [demo_nonce] = Inr demo_nonce"
    by (simp add: find_nonce_def single_def demo_auth_def demo_verify_def demo_nonce_def)
  from nonce_burned_after_attempt [OF this] show ?thesis by (simp add: demo_auth_def)
qed

definition demo_login :: auth_env where
  "demo_login = demo_auth\<lparr>au_json := (\<lambda>_. Some \<lparr>env_domain = ''stepfi'', env_address = ''GA'', env_uri = ''https://stepfi/verify'',
       env_version = CHALLENGE_VERSION, env_nonce = ''n1'', env_issuedAt = toISOString 1000000,
       env_expirationTime = toISOString 1300000, env_networkPassphrase = ''Test''\<rparr>),
     au_date_parse := (\<lambda>_. Some 1300000)\<rparr>"

theorem honest_login_witness:
  "\<exists>r rows. generateNonce demo_login ''GA'' [] = (Inr r, rows) \<and>
     fst (verifySignature (demo_login\<lparr>au_now := 1200000\<rparr>)
       \<lparr>vr_wallet = ''GA'', vr_nonce = nr_nonce r, vr_signature = Some ''good'', vr_type = Some EnvelopeSig,
        vr_message = None, vr_signedXdr = None\<rparr> rows) = Inr ()"
proof -
  have "\<exists>r rows. generateNonce demo_login ''GA'' [] = (Inr r, rows)"
    by (simp add: generateNonce_def Let_def demo_login_def demo_auth_def)
  then obtain r rows where g: "generateNonce demo_login ''GA'' [] = (Inr r, rows)" by blast
  have "fst (verifySignature (demo_login\<lparr>au_now := 1200000\<rparr>)
       \<lparr>vr_wallet = ''GA'', vr_nonce = nr_nonce r, vr_signature = Some ''good'', vr_type = Some EnvelopeSig,
        vr_message = None, vr_signedXdr = None\<rparr> rows) = Inr ()"
    by (rule honest_login [OF g])
      (simp_all add: demo_login_def demo_auth_def codec_laws_def NONCE_EXPIRATION_SECONDS_def)
  with g show ?thesis by blast
qed

end
