(* ===== verification/Users.thy ===== *)
theory Users imports Schema CacheStore ClaimOnce begin

text \<open>
  Accounts: the users repository (\<open>database/repositories/users.repository.ts\<close>), the users
  service (\<open>modules/users/users.service.ts\<close>), the cached account state
  (\<open>modules/auth/user-status.service.ts\<close>) and the guards that decide on it
  (\<open>jwt.strategy.ts\<close>, \<open>roles.guard.ts\<close>, the two \<open>admin.guard.ts\<close>, \<open>admin-roles.controller.ts\<close>).
\<close>

record PrefRow =
  pr_user :: string
  pr_notifications :: bool
  pr_language :: string
  pr_theme :: string

record users_db =
  ud_users :: "UserRow list"
  ud_prefs :: "PrefRow list"

text \<open>A call: its clock, the faults of its queries, and the key a new row is given.\<close>

record user_env =
  ue_now :: int
  ue_faults :: faults
  ue_pk :: string

abbreviation query_error :: exn where "query_error \<equiv> internal_error ''DATABASE_QUERY_ERROR''"

definition of_wallet :: "string \<Rightarrow> UserRow \<Rightarrow> bool" where
  "of_wallet w u \<longleftrightarrow> user_wallet u = w"

text \<open>The unique indexes of \<open>users\<close>, and the row of an insert that gives only these columns.\<close>

definition user_clash :: "UserRow \<Rightarrow> UserRow \<Rightarrow> bool" where
  "user_clash a b \<longleftrightarrow> user_wallet a = user_wallet b \<or> user_name a \<noteq> None \<and> user_name a = user_name b"

definition new_user :: "user_env \<Rightarrow> string \<Rightarrow> UserRow" where
  "new_user env w = \<lparr>user_pk = ue_pk env, user_wallet = w, user_name = None, user_display = None,
     user_avatar = None, user_status = ''active'', user_role = None, user_created = ue_now env\<rparr>"

section \<open>Repository\<close>

definition findByWallet :: "user_env \<Rightarrow> string \<Rightarrow> users_db \<Rightarrow> (UserRow \<times> PrefRow option) option result" where
  "findByWallet env w db =
     (case with_fault (ue_faults env ''users.find'') (maybe_single (filter (of_wallet w) (ud_users db))) of
        Inl _ \<Rightarrow> Inl query_error
      | Inr None \<Rightarrow> Inr None
      | Inr (Some u) \<Rightarrow> Inr (Some (u, find (\<lambda>p. pr_user p = user_pk u) (ud_prefs db))))"

definition create :: "user_env \<Rightarrow> string \<Rightarrow> users_db \<Rightarrow> (UserRow \<times> users_db) result" where
  "create env w db =
     (case with_fault (ue_faults env ''users.insert'') (insert_unique user_clash (new_user env w) (ud_users db)) of
        Inl _ \<Rightarrow> Inl query_error
      | Inr us \<Rightarrow> Inr (new_user env w, db\<lparr>ud_users := us\<rparr>))"

definition createDefaultPreferences :: "user_env \<Rightarrow> string \<Rightarrow> users_db \<Rightarrow> (PrefRow \<times> users_db) result" where
  "createDefaultPreferences env uid db =
     (let p = \<lparr>pr_user = uid, pr_notifications = True, pr_language = ''en'', pr_theme = ''dark''\<rparr>
      in case with_fault (ue_faults env ''prefs.insert'')
                (insert_unique (\<lambda>a b. pr_user a = pr_user b) p (ud_prefs db)) of
           Inl _ \<Rightarrow> Inl query_error
         | Inr ps \<Rightarrow> Inr (p, db\<lparr>ud_prefs := ps\<rparr>))"

text \<open>
  The fields of an update are optional, and \<open>@IsOptional\<close> lets \<open>null\<close> pass like \<open>undefined\<close>: \<open>None\<close> is a
  field that is not given, \<open>Some None\<close> a \<open>null\<close>. A \<open>null\<close> the code dereferences is a \<open>TypeError\<close>.
\<close>

record UpdatePreferences =
  up_notifications :: "bool option option"
  up_theme :: "string option option"
  up_language :: "string option option"

record UpdateUser =
  uu_name :: "string option option"
  uu_avatar :: "string option option"
  uu_preferences :: "UpdatePreferences option option"

abbreviation type_error :: exn where "type_error \<equiv> JsError ''TypeError''"

definition or_else :: "'a option \<Rightarrow> 'a \<Rightarrow> 'a" where
  "or_else x y = (case x of Some v \<Rightarrow> v | None \<Rightarrow> y)"

definition or_kept :: "'a option option \<Rightarrow> 'a \<Rightarrow> 'a" where
  "or_kept x y = (case x of Some (Some v) \<Rightarrow> v | _ \<Rightarrow> y)"

text \<open>An upsert on the wallet writes the columns the payload names, in a new row or over the old one.\<close>

definition set_profile :: "UpdateUser \<Rightarrow> UserRow \<Rightarrow> UserRow" where
  "set_profile d u = u\<lparr>user_display := or_else (uu_name d) (user_display u),
     user_avatar := or_else (uu_avatar d) (user_avatar u)\<rparr>"

definition set_prefs :: "UpdatePreferences \<Rightarrow> PrefRow \<Rightarrow> PrefRow" where
  "set_prefs d p = p\<lparr>pr_notifications := or_kept (up_notifications d) (pr_notifications p),
     pr_theme := or_kept (up_theme d) (pr_theme p), pr_language := or_kept (up_language d) (pr_language p)\<rparr>"

text \<open>The columns of the preferences are \<open>NOT NULL\<close>.\<close>

definition null_pref :: "UpdatePreferences \<Rightarrow> bool" where
  "null_pref d \<longleftrightarrow> up_notifications d = Some None \<or> up_theme d = Some None \<or> up_language d = Some None"

definition upsert_by :: "('r \<Rightarrow> bool) \<Rightarrow> ('r \<Rightarrow> 'r) \<Rightarrow> 'r \<Rightarrow> 'r list \<Rightarrow> 'r list" where
  "upsert_by P f fresh rows = (if \<exists>r \<in> set rows. P r then update_where P f rows else rows @ [f fresh])"

definition update :: "user_env \<Rightarrow> string \<Rightarrow> UpdateUser \<Rightarrow> users_db \<Rightarrow> UserRow result \<times> users_db" where
  "update env w d db =
     (let us = upsert_by (of_wallet w) (set_profile d) (new_user env w) (ud_users db)
      in case with_fault (ue_faults env ''users.upsert'') (single (filter (of_wallet w) us)) of
           Inl _ \<Rightarrow> (Inl (internal_error ''DATABASE_USER_UPDATE_FAILED''), db)
         | Inr u \<Rightarrow>
             let db1 = db\<lparr>ud_users := us\<rparr>
             in case uu_preferences d of
                  None \<Rightarrow> (Inr u, db1)
                | Some None \<Rightarrow> (Inl type_error, db1)
                | Some (Some p) \<Rightarrow>
                    (if ue_faults env ''prefs.upsert'' \<noteq> None \<or> null_pref p
                     then (Inl (internal_error ''DATABASE_PREFERENCES_UPDATE_FAILED''), db1)
                     else (Inr u, db1\<lparr>ud_prefs := upsert_by (\<lambda>x. pr_user x = user_pk u) (set_prefs p)
                                 \<lparr>pr_user = user_pk u, pr_notifications = True, pr_language = ''en'', pr_theme = ''dark''\<rparr>
                                 (ud_prefs db1)\<rparr>)))"

definition findRoleByWallet :: "user_env \<Rightarrow> string \<Rightarrow> UserRow list \<Rightarrow> string option result" where
  "findRoleByWallet env w us =
     (case with_fault (ue_faults env ''role.find'') (maybe_single (filter (of_wallet w) us)) of
        Inl _ \<Rightarrow> Inl query_error
      | Inr None \<Rightarrow> Inr None
      | Inr (Some u) \<Rightarrow> Inr (user_role u))"

definition role_unset :: "string \<Rightarrow> UserRow \<Rightarrow> bool" where
  "role_unset w u \<longleftrightarrow> user_wallet u = w \<and> user_role u = None"

definition set_role :: "string option \<Rightarrow> UserRow \<Rightarrow> UserRow" where
  "set_role r u = u\<lparr>user_role := r\<rparr>"

text \<open>\<open>UPDATE users SET role WHERE wallet AND role IS NULL\<close>, returning the updated row.\<close>

definition setRoleIfUnset ::
  "user_env \<Rightarrow> string \<Rightarrow> string \<Rightarrow> UserRow list \<Rightarrow> ((string \<times> string) option \<times> UserRow list) result" where
  "setRoleIfUnset env w role us =
     (case with_fault (ue_faults env ''role.set'') (maybe_single (filter (role_unset w) us)) of
        Inl _ \<Rightarrow> Inl (internal_error ''DATABASE_ROLE_UPDATE_FAILED'')
      | Inr None \<Rightarrow> Inr (None, us)
      | Inr (Some u) \<Rightarrow> Inr (Some (user_wallet u, role), update_where (role_unset w) (set_role (Some role)) us))"

definition forceSetRole ::
  "user_env \<Rightarrow> string \<Rightarrow> string option \<Rightarrow> UserRow list \<Rightarrow> ((string \<times> string option) option \<times> UserRow list) result" where
  "forceSetRole env w role us =
     (case with_fault (ue_faults env ''role.force'') (maybe_single (filter (of_wallet w) us)) of
        Inl _ \<Rightarrow> Inl (internal_error ''DATABASE_ROLE_UPDATE_FAILED'')
      | Inr None \<Rightarrow> Inr (None, us)
      | Inr (Some u) \<Rightarrow> Inr (Some (user_wallet u, role), update_where (of_wallet w) (set_role role) us))"

definition checkUsernameExists :: "user_env \<Rightarrow> string \<Rightarrow> UserRow list \<Rightarrow> bool result" where
  "checkUsernameExists env username us =
     (case with_fault (ue_faults env ''username.find'') (maybe_single (filter (\<lambda>u. user_name u = Some username) us)) of
        Inl _ \<Rightarrow> Inl (internal_error ''DATABASE_QUERY_ERROR'') | Inr u \<Rightarrow> Inr (u \<noteq> None))"

definition createProfile ::
  "user_env \<Rightarrow> string \<Rightarrow> string \<Rightarrow> string \<Rightarrow> string option \<Rightarrow> UserRow list \<Rightarrow> (UserRow \<times> UserRow list) result" where
  "createProfile env w username display avatar us =
     (let u = (new_user env w)\<lparr>user_name := Some username, user_display := Some display, user_avatar := avatar\<rparr>
      in case ue_faults env ''users.profile'' of
           Some e \<Rightarrow>
             if err_code e = ''23505'' \<or> str_includes (err_message e) ''duplicate key'' \<or>
                str_includes (err_message e) ''unique constraint''
             then (if str_includes (err_message e) ''username'' then Inl (conflict ''AUTH_USERNAME_TAKEN'')
                   else Inl (conflict ''AUTH_WALLET_EXISTS''))
             else Inl (internal_error ''DATABASE_INSERT_ERROR'')
         | None \<Rightarrow>
             if \<exists>x \<in> set us. user_wallet x = w then Inl (conflict ''AUTH_WALLET_EXISTS'')
             else if \<exists>x \<in> set us. user_name x = Some username then Inl (conflict ''AUTH_USERNAME_TAKEN'')
             else Inr (u, us @ [u]))"

definition deleteUserById :: "user_env \<Rightarrow> string \<Rightarrow> UserRow list \<Rightarrow> UserRow list" where
  "deleteUserById env uid us =
     (case ue_faults env ''users.delete'' of Some _ \<Rightarrow> us | None \<Rightarrow> delete_where (\<lambda>u. user_pk u = uid) us)"

section \<open>Names without markup\<close>

text \<open>
  The two replacements of \<open>updateProfile\<close>. \<open>after_char c s\<close> is what follows the first \<open>c\<close> in \<open>s\<close>;
  \<open>after_text\<close> the same for a text, ignoring case.
\<close>

fun after_char :: "char \<Rightarrow> string \<Rightarrow> string option" where
  "after_char c [] = None"
| "after_char c (x # xs) = (if x = c then Some xs else after_char c xs)"

fun after_text :: "string list \<Rightarrow> string \<Rightarrow> string option" where
  "after_text ts s =
     (case find (\<lambda>t. prefix t (to_lower s)) ts of
        Some t \<Rightarrow> Some (drop (length t) s)
      | None \<Rightarrow> (case s of [] \<Rightarrow> None | _ # xs \<Rightarrow> after_text ts xs))"

declare after_text.simps [simp del]

text \<open>\<open>/<(script|style)[^>]*>[\s\S]*?<\/(script|style)>/gi\<close> matched at the head of a text: what is left after it.\<close>

definition script_match :: "string \<Rightarrow> string option" where
  "script_match s =
     (case find (\<lambda>t. prefix t (to_lower s)) [''<script'', ''<style''] of
        None \<Rightarrow> None
      | Some t \<Rightarrow> (case after_char (CHR ''>'') (drop (length t) s) of
          None \<Rightarrow> None
        | Some rest \<Rightarrow> after_text [''</script>'', ''</style>''] rest))"

lemma after_char_length: "after_char c s = Some r \<Longrightarrow> length r < length s"
  by (induction s) (auto split: if_splits)

lemma after_text_length: "after_text ts s = Some r \<Longrightarrow> length r \<le> length s"
proof (induction ts s rule: after_text.induct)
  case (1 ts s)
  note unfold = after_text.simps [of ts s]
  show ?case
  proof (cases "find (\<lambda>t. prefix t (to_lower s)) ts")
    case None
    with 1 unfold show ?thesis by (cases s) (auto intro: le_SucI)
  next
    case (Some t)
    with 1(2) unfold show ?thesis by auto
  qed
qed

lemma script_match_length: "script_match s = Some r \<Longrightarrow> length r < length s"
  by (auto simp: script_match_def split: option.splits dest!: after_char_length after_text_length)

function strip_scripts :: "string \<Rightarrow> string" where
  "strip_scripts s =
     (case script_match s of
        Some rest \<Rightarrow> strip_scripts rest
      | None \<Rightarrow> (case s of [] \<Rightarrow> [] | c # cs \<Rightarrow> c # strip_scripts cs))"
  by pat_completeness auto
termination
  by (relation "measure length") (auto dest: script_match_length)

declare strip_scripts.simps [simp del]

text \<open>\<open>/<[^>]*>/g\<close>.\<close>

function strip_tags :: "string \<Rightarrow> string" where
  "strip_tags [] = []"
| "strip_tags (c # cs) =
     (if c = CHR ''<'' then (case after_char (CHR ''>'') cs of Some rest \<Rightarrow> strip_tags rest | None \<Rightarrow> c # strip_tags cs)
      else c # strip_tags cs)"
  by pat_completeness auto
termination
  by (relation "measure length") (auto dest: after_char_length)

definition sanitize_name :: "string \<Rightarrow> string" where
  "sanitize_name s = trim (strip_tags (strip_scripts s))"

text \<open>A tag: an opening bracket with a closing one somewhere behind it.\<close>

definition has_tag :: "string \<Rightarrow> bool" where
  "has_tag s \<longleftrightarrow> (\<exists>a b c. s = a @ CHR ''<'' # b @ CHR ''>'' # c)"

lemma has_tag_simps:
  "\<not> has_tag []" "has_tag (c # cs) \<longleftrightarrow> (c = CHR ''<'' \<and> CHR ''>'' \<in> set cs) \<or> has_tag cs"
proof -
  show "\<not> has_tag []" by (simp add: has_tag_def)
  show "has_tag (c # cs) \<longleftrightarrow> (c = CHR ''<'' \<and> CHR ''>'' \<in> set cs) \<or> has_tag cs"
    unfolding has_tag_def Cons_eq_append_conv in_set_conv_decomp by auto metis+
qed

lemma after_char_None: "after_char c s = None \<longleftrightarrow> c \<notin> set s"
  by (induction s) auto

lemma strip_tags_subset: "set (strip_tags s) \<subseteq> set s"
proof (induction s rule: strip_tags.induct)
  case (2 c cs)
  have "set r \<subseteq> set cs" if "after_char (CHR ''>'') cs = Some r" for r
    using that by (induction cs) (auto split: if_splits)
  with 2 show ?case by (auto split: option.splits) blast
qed simp

lemma strip_tags_no_tag: "\<not> has_tag (strip_tags s)"
proof (induction s rule: strip_tags.induct)
  case (2 c cs)
  then show ?case
    using strip_tags_subset [of cs] by (auto simp: has_tag_simps after_char_None split: option.splits)
qed (simp add: has_tag_simps)

lemma has_tag_dropWhile: "has_tag (dropWhile P s) \<Longrightarrow> has_tag s"
  by (metis has_tag_def append.assoc takeWhile_dropWhile_id)

lemma trim_no_tag: "\<not> has_tag s \<Longrightarrow> \<not> has_tag (trim s)"
proof -
  assume n: "\<not> has_tag s"
  define t where "t = dropWhile is_space s"
  have "t = trim s @ rev (takeWhile is_space (rev t))"
    unfolding trim_def t_def by (metis rev_append rev_rev_ident takeWhile_dropWhile_id)
  moreover have "\<not> has_tag t" using n has_tag_dropWhile unfolding t_def by blast
  ultimately show ?thesis by (metis has_tag_def append.assoc append_Cons)
qed

lemma sanitize_name_no_tag: "\<not> has_tag (sanitize_name s)"
  by (simp add: sanitize_name_def trim_no_tag strip_tags_no_tag)

section \<open>Service\<close>

record UserPreferences =
  pp_notifications :: bool
  pp_theme :: string
  pp_language :: string

record UserProfile =
  pf_wallet :: string
  pf_name :: "string option"
  pf_avatar :: "string option"
  pf_role :: "string option"
  pf_preferences :: UserPreferences
  pf_created :: int

record UpdateUserProfile =
  uf_wallet :: string
  uf_name :: "string option"
  uf_avatar :: "string option"
  uf_preferences :: UserPreferences
  uf_updated :: int

definition mapPreferences :: "PrefRow \<Rightarrow> UserPreferences" where
  "mapPreferences p = \<lparr>pp_notifications = pr_notifications p, pp_theme = pr_theme p, pp_language = pr_language p\<rparr>"

definition profile_of :: "UserRow \<Rightarrow> PrefRow \<Rightarrow> UserProfile" where
  "profile_of u p = \<lparr>pf_wallet = user_wallet u, pf_name = user_display u, pf_avatar = user_avatar u,
     pf_role = user_role u, pf_preferences = mapPreferences p, pf_created = user_created u\<rparr>"

text \<open>
  Both times of an account default to the time of its insertion. No statement writes \<open>updated_at\<close> and no
  migration adds the trigger a comment speaks of, so it stays what \<open>created_at\<close> is.
\<close>

definition updated_profile_of :: "UserRow \<Rightarrow> PrefRow \<Rightarrow> UpdateUserProfile" where
  "updated_profile_of u p = \<lparr>uf_wallet = user_wallet u, uf_name = user_display u, uf_avatar = user_avatar u,
     uf_preferences = mapPreferences p, uf_updated = user_created u\<rparr>"

definition getOrCreateProfile :: "user_env \<Rightarrow> string \<Rightarrow> users_db \<Rightarrow> UserProfile result \<times> users_db" where
  "getOrCreateProfile env w db =
     (let with_default = (\<lambda>u db. case createDefaultPreferences env (user_pk u) db of
            Inl e \<Rightarrow> (Inl e, db) | Inr (p, db') \<Rightarrow> (Inr (profile_of u p), db'))
      in case findByWallet env w db of
           Inl e \<Rightarrow> (Inl e, db)
         | Inr (Some (u, Some p)) \<Rightarrow> (Inr (profile_of u p), db)
         | Inr (Some (u, None)) \<Rightarrow> with_default u db
         | Inr None \<Rightarrow> (case create env w db of Inl e \<Rightarrow> (Inl e, db) | Inr (u, db') \<Rightarrow> with_default u db'))"

definition updateProfile :: "user_env \<Rightarrow> string \<Rightarrow> UpdateUser \<Rightarrow> users_db \<Rightarrow> UpdateUserProfile result \<times> users_db" where
  "updateProfile env w d db =
     (if uu_avatar d = Some None then (Inl type_error, db)
      else if \<exists>a \<in> set_option (or_else (uu_avatar d) None). \<not> starts_with a ''https://''
      then (Inl (bad_request ''USERS_AVATAR_INVALID_SCHEME''), db)
      else if uu_name d = Some None then (Inl type_error, db)
      else
        case update env w (d\<lparr>uu_name := map_option (map_option sanitize_name) (uu_name d)\<rparr>) db of
          (Inl e, db') \<Rightarrow> (Inl e, db')
        | (Inr u, db') \<Rightarrow>
            (case findByWallet env w db' of
               Inl e \<Rightarrow> (Inl e, db')
             | Inr found \<Rightarrow>
                 (Inr (updated_profile_of u (case found of
                    Some (_, Some p) \<Rightarrow> p
                  | _ \<Rightarrow> \<lparr>pr_user = user_pk u, pr_notifications = True, pr_language = ''en'', pr_theme = ''system''\<rparr>)), db')))"

section \<open>Account state\<close>

text \<open>
  \<open>UserStatusService\<close> keeps its own map of status and role. Both \<open>AuthModule\<close> and \<open>AdminModule\<close>
  list it as a provider, so there are two instances: \<open>ua_cache\<close> serves the JWT strategy, the roles
  guard and the users service, \<open>ua_admin\<close> the admin guard and the admin controller.
\<close>

type_synonym state_cache = "(string, string \<times> string option) cache"

record access_state =
  ua_users :: "UserRow list"
  ua_cache :: state_cache
  ua_admin :: state_cache

definition USER_STATUS_CACHE_TTL_MS :: int where "USER_STATUS_CACHE_TTL_MS = 30000"

definition read_user_state :: "faults \<Rightarrow> UserRow list \<Rightarrow> string \<Rightarrow> string \<times> string option" where
  "read_user_state flt us w =
     (case with_fault (flt ''users.state'') (maybe_single (filter (of_wallet w) us)) of
        Inr (Some u) \<Rightarrow> (if user_status u = [] then ''active'' else user_status u, user_role u)
      | _ \<Rightarrow> (''active'', None))"

definition getUserState ::
  "user_env \<Rightarrow> string \<Rightarrow> UserRow list \<Rightarrow> state_cache \<Rightarrow> (string \<times> string option) \<times> state_cache" where
  "getUserState env w us c =
     (case cache_get (ue_now env) c w of
        Some s \<Rightarrow> (s, c)
      | None \<Rightarrow>
          let s = read_user_state (ue_faults env) us w
          in (s, cache_set (ue_now env) USER_STATUS_CACHE_TTL_MS w s c))"

text \<open>\<open>UserStatusService\<close>: the two parts of the state, and dropping what is cached.\<close>

definition cached_status :: "user_env \<Rightarrow> string \<Rightarrow> UserRow list \<Rightarrow> state_cache \<Rightarrow> string \<times> state_cache" where
  [simp]: "cached_status env w us c = apfst fst (getUserState env w us c)"

definition cached_role :: "user_env \<Rightarrow> string \<Rightarrow> UserRow list \<Rightarrow> state_cache \<Rightarrow> string option \<times> state_cache" where
  [simp]: "cached_role env w us c = apfst snd (getUserState env w us c)"

definition invalidate :: "string \<Rightarrow> state_cache \<Rightarrow> state_cache" where
  [simp]: "invalidate w c = cache_del w c"

definition ensureNotBlocked :: "user_env \<Rightarrow> string \<Rightarrow> UserRow list \<Rightarrow> state_cache \<Rightarrow> unit result \<times> state_cache" where
  "ensureNotBlocked env w us c =
     (let (status, c') = cached_status env w us c
      in (if status = ''blocked'' then Inl (unauthorized ''AUTH_USER_BLOCKED'') else Inr (), c'))"

definition setRole :: "user_env \<Rightarrow> string \<Rightarrow> string \<Rightarrow> access_state \<Rightarrow> (string \<times> string) result \<times> access_state" where
  "setRole env w role st =
     (case setRoleIfUnset env w role (ua_users st) of
        Inl e \<Rightarrow> (Inl e, st)
      | Inr (Some r, us) \<Rightarrow> (Inr r, st\<lparr>ua_users := us, ua_cache := invalidate w (ua_cache st)\<rparr>)
      | Inr (None, _) \<Rightarrow>
          (case findRoleByWallet env w (ua_users st) of
             Inl e \<Rightarrow> (Inl e, st)
           | Inr r \<Rightarrow> (Inl (if r \<noteq> None \<and> r \<noteq> Some [] then conflict ''USERS_ROLE_ALREADY_SET''
                            else not_found ''USERS_NOT_FOUND''), st)))"

definition resetUserRole ::
  "user_env \<Rightarrow> string \<Rightarrow> string option \<Rightarrow> access_state \<Rightarrow> (string \<times> string option) result \<times> access_state" where
  "resetUserRole env w role st =
     (case forceSetRole env w role (ua_users st) of
        Inl e \<Rightarrow> (Inl e, st)
      | Inr (None, _) \<Rightarrow> (Inl (not_found ''USERS_NOT_FOUND''), st)
      | Inr (Some r, us) \<Rightarrow> (Inr r, st\<lparr>ua_users := us, ua_admin := invalidate w (ua_admin st)\<rparr>))"

section \<open>Guards\<close>

record JwtPayload =
  jp_wallet :: string
  jp_type :: string
  jp_role :: "string option"

record request_user =
  ru_wallet :: string
  ru_role :: "string option"

definition validate :: "user_env \<Rightarrow> JwtPayload \<Rightarrow> access_state \<Rightarrow> request_user result \<times> access_state" where
  "validate env p st =
     (if jp_type p \<noteq> ''access'' then (Inl (unauthorized ''AUTH_TOKEN_INVALID''), st)
      else let (r, c) = ensureNotBlocked env (jp_wallet p) (ua_users st) (ua_cache st)
           in (andThen r (\<lambda>_. Inr \<lparr>ru_wallet = jp_wallet p, ru_role = jp_role p\<rparr>), st\<lparr>ua_cache := c\<rparr>))"

text \<open>\<open>service\<close> tells whether \<open>UserStatusService\<close> is provided in the module of the guard.\<close>

definition rolesGuard ::
  "user_env \<Rightarrow> bool \<Rightarrow> string list \<Rightarrow> request_user option \<Rightarrow> access_state \<Rightarrow> unit result \<times> access_state" where
  "rolesGuard env service required user st =
     (let denied = Inl (forbidden ''AUTH_ROLE_FORBIDDEN'')
      in if required = [] then (Inr (), st)
         else case user of
           None \<Rightarrow> (denied, st)
         | Some u \<Rightarrow>
             let (role, st') = (if service \<and> ru_wallet u \<noteq> []
                                then (let (r, c) = cached_role env (ru_wallet u) (ua_users st) (ua_cache st)
                                      in (r, st\<lparr>ua_cache := c\<rparr>))
                                else (ru_role u, st))
             in (case role of None \<Rightarrow> denied
                 | Some r \<Rightarrow> if r \<noteq> [] \<and> r \<in> set required then Inr () else denied, st'))"

text \<open>The guard of the \<open>/admin\<close> routes, with the services of its module.\<close>

definition adminGuard :: "user_env \<Rightarrow> request_user option \<Rightarrow> access_state \<Rightarrow> unit result \<times> access_state" where
  "adminGuard env user st =
     (case user of
        None \<Rightarrow> (Inl (unauthorized ''AUTH_TOKEN_INVALID''), st)
      | Some u \<Rightarrow>
          if ru_wallet u = [] then (Inl (unauthorized ''AUTH_TOKEN_INVALID''), st)
          else let ((status, role), c) = getUserState env (ru_wallet u) (ua_users st) (ua_admin st)
               in (if status = ''blocked'' then Inl (unauthorized ''AUTH_USER_BLOCKED'')
                   else if role \<noteq> Some ''admin'' then Inl (forbidden ''ADMIN_FORBIDDEN'') else Inr (), st\<lparr>ua_admin := c\<rparr>))"

text \<open>The guard of the vendor administration routes: an allowlist in the environment.\<close>

definition adminWalletsGuard :: "string option \<Rightarrow> request_user option \<Rightarrow> unit result" where
  "adminWalletsGuard setting user =
     (case user of
        None \<Rightarrow> Inl (unauthorized ''AUTH_TOKEN_INVALID'')
      | Some u \<Rightarrow>
          if ru_wallet u = [] then Inl (unauthorized ''AUTH_TOKEN_INVALID'')
          else if ru_wallet u \<in> set (filter (\<lambda>w. w \<noteq> []) (map trim (split_on (CHR '','') (or_else setting []))))
          then Inr () else Inl (forbidden ''ADMIN_ACCESS_REQUIRED''))"

lemma set_upsert_by:
  "x \<in> set (upsert_by P f fresh rows) \<Longrightarrow> (\<exists>y. x = f y) \<or> x \<in> set rows \<and> \<not> P x"
  by (auto simp: upsert_by_def set_update_where split: if_split_asm)

section \<open>Choosing a role\<close>

lemma filter_singleD: "filter P xs = [x] \<Longrightarrow> x \<in> set xs \<and> P x"
  by (metis list.set_intros(1) mem_Collect_eq set_filter)

text \<open>A request to set a role is a claim of the wallet's role.\<close>

definition role_claim :: "user_env \<times> string \<times> string \<Rightarrow> UserRow list \<Rightarrow> UserRow list option" where
  "role_claim r us = (case r of (env, w, role) \<Rightarrow>
     (case setRoleIfUnset env w role us of Inr (Some _, us') \<Rightarrow> Some us' | _ \<Rightarrow> None))"

definition role_settled :: "string \<Rightarrow> UserRow list \<Rightarrow> bool" where
  "role_settled w us \<longleftrightarrow> (\<forall>u \<in> set us. \<not> role_unset w u)"

lemma role_claim_Some:
  "role_claim (env, w, role) us = Some us' \<longleftrightarrow>
     ue_faults env ''role.set'' = None \<and> (\<exists>u. filter (role_unset w) us = [u]) \<and>
     us' = update_where (role_unset w) (set_role (Some role)) us"
  by (auto simp: role_claim_def setRoleIfUnset_def with_fault_def maybe_single_def
      split: option.splits sum.splits list.splits)

lemma role_settled_claim:
  "role_settled k (update_where (role_unset w) (set_role (Some r)) us) \<longleftrightarrow> k = w \<or> role_settled k us"
proof -
  have e: "role_unset k (if role_unset w u then set_role (Some r) u else u) \<longleftrightarrow> k \<noteq> w \<and> role_unset k u" for u
    by (auto simp: role_unset_def set_role_def)
  show ?thesis unfolding role_settled_def set_update_where ball_simps(9) e by blast
qed

interpretation role: claim_once role_claim "\<lambda>r. fst (snd r)" "\<lambda>_. True" role_settled
proof
  fix c :: "user_env \<times> string \<times> string" and s s' assume "role_claim c s = Some s'"
  moreover obtain env w r where c: "c = (env, w, r)" by (cases c)
  ultimately obtain u where u: "filter (role_unset w) s = [u]" and s': "s' = update_where (role_unset w) (set_role (Some r)) s"
    by (auto simp: role_claim_Some)
  have "u \<in> set (filter (role_unset w) s)" by (simp add: u)
  then show "\<not> role_settled (fst (snd c)) s" by (simp add: role_settled_def c) blast
  show "role_settled (fst (snd c)) s'" by (simp add: c s' role_settled_claim)
next
  fix c :: "user_env \<times> string \<times> string" and s s' k assume a: "role_claim c s = Some s'" "role_settled k s"
  obtain env w r where "c = (env, w, r)" by (cases c)
  with a show "role_settled k s'" by (simp add: role_claim_Some role_settled_claim)
qed

section \<open>Staleness of the cached state\<close>

text \<open>
  The caches the service reaches while the table of users evolves as \<open>hist\<close> and its queries fail
  as \<open>flts\<close>, both by the time of the call; entries may be dropped at any moment.
\<close>

inductive cache_reach :: "(int \<Rightarrow> UserRow list) \<Rightarrow> (int \<Rightarrow> faults) \<Rightarrow> int \<Rightarrow> state_cache \<Rightarrow> bool" for hist flts where
  start: "cache_reach hist flts t Map.empty"
| check: "cache_reach hist flts t c \<Longrightarrow> t \<le> ue_now env \<Longrightarrow> ue_faults env = flts (ue_now env) \<Longrightarrow>
          cache_reach hist flts (ue_now env) (snd (getUserState env w (hist (ue_now env)) c))"
| dropped: "cache_reach hist flts t c \<Longrightarrow> t \<le> t' \<Longrightarrow> cache_reach hist flts t' (cache_del w c)"

definition recent :: "(int \<Rightarrow> UserRow list) \<Rightarrow> (int \<Rightarrow> faults) \<Rightarrow> int \<Rightarrow> string \<Rightarrow> string \<times> string option \<Rightarrow> bool" where
  "recent hist flts now w s \<longleftrightarrow>
     (\<exists>t. now - USER_STATUS_CACHE_TTL_MS < t \<and> t \<le> now \<and> s = read_user_state (flts t) (hist t) w)"

lemma later_read: "\<exists>t0 \<le> t. P t0 \<Longrightarrow> t \<le> t' \<Longrightarrow> \<exists>t0 \<le> (t' :: int). P t0"
  using order.trans by blast

lemma cache_reach_entries:
  "cache_reach hist flts t c \<Longrightarrow> c w = Some (s, e) \<Longrightarrow>
     \<exists>t0 \<le> t. e = t0 + USER_STATUS_CACHE_TTL_MS \<and> s = read_user_state (flts t0) (hist t0) w"
proof (induction arbitrary: w s e rule: cache_reach.induct)
  case (check t c env w')
  show ?case
  proof (cases "snd (getUserState env w' (hist (ue_now env)) c) = c")
    case True
    with check show ?thesis by (metis order.trans)
  next
    case False
    define v where "v = (read_user_state (flts (ue_now env)) (hist (ue_now env)) w', ue_now env + USER_STATUS_CACHE_TTL_MS)"
    from False have "snd (getUserState env w' (hist (ue_now env)) c) = c(w' \<mapsto> v)"
      using check.hyps(3) by (simp add: getUserState_def cache_set_def Let_def v_def split: option.splits)
    with check.prems have "(c(w' \<mapsto> v)) w = Some (s, e)" by (simp only:)
    then consider "w = w'" "v = (s, e)" | "c w = Some (s, e)" by (cases "w = w'") simp_all
    then show ?thesis
    proof cases
      case 1
      then show ?thesis unfolding v_def by blast
    next
      case 2
      from later_read [OF check.IH [OF this] check.hyps(2)] show ?thesis .
    qed
  qed
next
  case (dropped t c t' w')
  then have "c w = Some (s, e)" by (simp add: cache_del_def split: if_splits)
  from later_read [OF dropped.IH [OF this] dropped.hyps(2)] show ?case .
qed simp

lemma getUserState_recent:
  assumes "cache_reach hist flts t c" and "t \<le> ue_now env" and "ue_faults env = flts (ue_now env)"
  shows "recent hist flts (ue_now env) w (fst (getUserState env w (hist (ue_now env)) c))"
proof (cases "cache_get (ue_now env) c w")
  case None
  then show ?thesis
    using assms(3) by (auto simp: recent_def getUserState_def Let_def USER_STATUS_CACHE_TTL_MS_def intro!: exI [of _ "ue_now env"])
next
  case (Some s)
  then obtain e where e: "c w = Some (s, e)" "ue_now env < e" by (auto simp: cache_get_def split: option.splits if_splits)
  from cache_reach_entries [OF assms(1) e(1)] obtain t0 where
    "t0 \<le> t" "e = t0 + USER_STATUS_CACHE_TTL_MS" "s = read_user_state (flts t0) (hist t0) w" by blast
  with e(2) assms(2) Some show ?thesis by (auto simp: recent_def getUserState_def intro!: exI [of _ t0])
qed

text \<open>\<open>CHECK (role IN ('sponsor', 'vendor', 'mentor'))\<close> on \<open>users.role\<close>.\<close>

definition role_check :: "UserRow \<Rightarrow> bool" where
  "role_check u \<longleftrightarrow> user_role u \<in> {None, Some ''sponsor'', Some ''vendor'', Some ''mentor''}"

lemma read_user_state_role:
  "snd (read_user_state flt us w) = Some r \<Longrightarrow>
     flt ''users.state'' = None \<and> (\<exists>u. filter (of_wallet w) us = [u] \<and> user_role u = Some r)"
  by (auto simp: read_user_state_def with_fault_def maybe_single_def split: option.splits list.splits)

lemma read_user_state_blocked:
  "flt ''users.state'' = None \<Longrightarrow> filter (of_wallet w) us = [u] \<Longrightarrow> user_status u = ''blocked'' \<Longrightarrow>
     fst (read_user_state flt us w) = ''blocked''"
  by (simp add: read_user_state_def with_fault_def maybe_single_def)

section \<open>Properties\<close>

text \<open>C28: A wallet chooses its role once: however requests to set it interleave, with each other and
  with steps that do not clear it, at most one succeeds; and a request succeeds only by filling
  an empty role with the role asked for.\<close>

theorem role_chosen_once:
  assumes "role.keeps w es"
  shows "role.wins w es us \<le> 1 \<and>
    (setRole env w' r st = (Inr x, st') \<longrightarrow>
       x = (w', r) \<and> role_claim (env, w', r) (ua_users st) = Some (ua_users st'))"
proof -
  have "x = (w', r) \<and> role_claim (env, w', r) (ua_users st) = Some (ua_users st')" if "setRole env w' r st = (Inr x, st')"
  proof -
    from that obtain us where u: "setRoleIfUnset env w' r (ua_users st) = Inr (Some x, us)" "ua_users st' = us"
      by (auto simp: setRole_def split: sum.splits option.splits prod.splits)
    then obtain u where f: "filter (role_unset w') (ua_users st) = [u]" "x = (user_wallet u, r)"
      by (auto simp: setRoleIfUnset_def with_fault_def maybe_single_def split: option.splits sum.splits list.splits)
    from filter_singleD [OF f(1)] have "user_wallet u = w'" by (simp add: role_unset_def)
    then show ?thesis using u f by (simp add: role_claim_def)
  qed
  then show ?thesis using role.wins_le_1 [OF assms] by blast
qed

definition demo_uenv :: user_env where
  "demo_uenv = \<lparr>ue_now = 50000, ue_faults = no_faults, ue_pk = ''u1''\<rparr>"

definition demo_user :: UserRow where
  "demo_user = (new_user demo_uenv ''GA'')\<lparr>user_role := Some ''vendor''\<rparr>"

theorem role_chosen_once_witness:
  "role.wins ''GA'' [Claim (demo_uenv, ''GA'', ''vendor''), Claim (demo_uenv, ''GA'', ''sponsor'')] [new_user demo_uenv ''GA''] \<le> 1"
  by (rule role_chosen_once [where env = e and w' = v and r = r and st = s and x = x and st' = s', THEN conjunct1])
    (simp only: role.keeps_Cons role.keeps_Nil event.case)

text \<open>A request passes the roles guard only if the database gave its wallet one of the required
  roles at some moment of the last 30 seconds; and a wallet that has been blocked for 30 seconds
  is turned away by the JWT strategy, as long as the reads of its row did not fail.\<close>

theorem access_recent:
  assumes "cache_reach hist flts t (ua_cache st)" and "t \<le> ue_now env" and "ue_faults env = flts (ue_now env)"
    and "ua_users st = hist (ue_now env)"
  shows "(fst (rolesGuard env True required (Some u) st) = Inr () \<and> required \<noteq> [] \<and> ru_wallet u \<noteq> [] \<longrightarrow>
            (\<exists>t0 x. ue_now env - 30000 < t0 \<and> t0 \<le> ue_now env \<and> filter (of_wallet (ru_wallet u)) (hist t0) = [x] \<and>
                    (\<exists>r \<in> set required. user_role x = Some r))) \<and>
         (jp_type p = ''access'' \<and>
          (\<forall>t0. ue_now env - 30000 < t0 \<and> t0 \<le> ue_now env \<longrightarrow> flts t0 ''users.state'' = None \<and>
             (\<exists>x. filter (of_wallet (jp_wallet p)) (hist t0) = [x] \<and> user_status x = ''blocked'')) \<longrightarrow>
          fst (validate env p st) = Inl (unauthorized ''AUTH_USER_BLOCKED''))"
proof -
  have rec: "recent hist flts (ue_now env) w (fst (getUserState env w (ua_users st) (ua_cache st)))" for w
    using getUserState_recent [OF assms(1-3)] assms(4) by simp
  show ?thesis
  proof (intro conjI impI; elim conjE)
    assume a: "fst (rolesGuard env True required (Some u) st) = Inr ()" "required \<noteq> []" "ru_wallet u \<noteq> []"
    then obtain r where r: "snd (fst (getUserState env (ru_wallet u) (ua_users st) (ua_cache st))) = Some r" "r \<in> set required"
      by (auto simp: rolesGuard_def Let_def split_def split: option.splits if_splits)
    from rec [of "ru_wallet u"] r(1) obtain t0 where "ue_now env - 30000 < t0" "t0 \<le> ue_now env"
      "snd (read_user_state (flts t0) (hist t0) (ru_wallet u)) = Some r"
      unfolding recent_def USER_STATUS_CACHE_TTL_MS_def by metis
    with read_user_state_role [OF this(3)] r(2) show "\<exists>t0 x. ue_now env - 30000 < t0 \<and> t0 \<le> ue_now env \<and>
      filter (of_wallet (ru_wallet u)) (hist t0) = [x] \<and> (\<exists>r \<in> set required. user_role x = Some r)" by blast
  next
    assume ty: "jp_type p = ''access''" and b: "\<forall>t0. ue_now env - 30000 < t0 \<and> t0 \<le> ue_now env \<longrightarrow>
      flts t0 ''users.state'' = None \<and> (\<exists>x. filter (of_wallet (jp_wallet p)) (hist t0) = [x] \<and> user_status x = ''blocked'')"
    from rec [of "jp_wallet p"] obtain t0 where t0: "ue_now env - 30000 < t0" "t0 \<le> ue_now env"
      "fst (getUserState env (jp_wallet p) (ua_users st) (ua_cache st)) = read_user_state (flts t0) (hist t0) (jp_wallet p)"
      unfolding recent_def USER_STATUS_CACHE_TTL_MS_def by blast
    with b read_user_state_blocked have "fst (fst (getUserState env (jp_wallet p) (ua_users st) (ua_cache st))) = ''blocked''"
      by metis
    then show "fst (validate env p st) = Inl (unauthorized ''AUTH_USER_BLOCKED'')"
      by (simp add: validate_def ty ensureNotBlocked_def Let_def split_def)
  qed
qed

theorem access_recent_witness:
  "\<exists>t0 x. 50000 - 30000 < t0 \<and> t0 \<le> (50000 :: int) \<and> filter (of_wallet ''GA'') ((\<lambda>_. [demo_user]) t0) = [x] \<and>
     (\<exists>r \<in> set [''vendor'']. user_role x = Some r)"
proof -
  have "cache_reach (\<lambda>_. [demo_user]) (\<lambda>_. no_faults) 0 (ua_cache \<lparr>ua_users = [demo_user], ua_cache = Map.empty, ua_admin = Map.empty\<rparr>)"
    by (simp add: cache_reach.start)
  from access_recent [OF this, of demo_uenv "[''vendor'']" "\<lparr>ru_wallet = ''GA'', ru_role = None\<rparr>"]
  show ?thesis by (simp add: demo_uenv_def demo_user_def new_user_def rolesGuard_def Let_def getUserState_def
      cache_get_def read_user_state_def of_wallet_def maybe_single_def split_def)
qed

text \<open>Nobody reaches the \<open>/admin\<close> routes: the guard asks for the role \<open>admin\<close>, which the check
  constraint on \<open>users.role\<close> does not allow, so it refuses every request as long as the rows
  satisfy their constraint.\<close>

theorem admin_routes_unreachable:
  assumes "cache_reach hist flts t (ua_admin st)" and "t \<le> ue_now env" and "ue_faults env = flts (ue_now env)"
    and "ua_users st = hist (ue_now env)" and "\<forall>t0. \<forall>x \<in> set (hist t0). role_check x"
  shows "fst (adminGuard env user st) \<noteq> Inr ()"
proof
  assume "fst (adminGuard env user st) = Inr ()"
  then obtain w where w: "snd (fst (getUserState env w (ua_users st) (ua_admin st))) = Some ''admin''"
    by (auto simp: adminGuard_def Let_def split_def split: option.splits if_splits)
  from getUserState_recent [OF assms(1-3), of w] obtain t0 where
    "snd (read_user_state (flts t0) (hist t0) w) = Some ''admin''"
    using w assms(4) unfolding recent_def by metis
  from read_user_state_role [OF this] obtain x where "filter (of_wallet w) (hist t0) = [x]" "user_role x = Some ''admin''" by blast
  moreover from filter_singleD [OF this(1)] have "x \<in> set (hist t0)" by blast
  ultimately show False using assms(5) by (fastforce simp: role_check_def)
qed

theorem admin_routes_unreachable_witness:
  "fst (adminGuard demo_uenv (Some \<lparr>ru_wallet = ''GA'', ru_role = Some ''admin''\<rparr>)
     \<lparr>ua_users = [demo_user], ua_cache = Map.empty, ua_admin = Map.empty\<rparr>) \<noteq> Inr ()"
  by (rule admin_routes_unreachable [where hist = "\<lambda>_. [demo_user]" and flts = "\<lambda>_. no_faults" and t = 0])
    (simp_all add: cache_reach.start demo_uenv_def demo_user_def role_check_def)

text \<open>An admin who resets a role does not take it away at once: the controller invalidates the
  cache of its own module, and the roles guard of the others keeps granting the old role from
  its cache.\<close>

theorem admin_reset_keeps_old_role:
  assumes "resetUserRole env w role st = (Inr x, st')" and "cache_get (ue_now env') (ua_cache st) w = Some (s, Some old)"
    and "old \<in> set required" and "old \<noteq> []" and "w \<noteq> []"
  shows "fst (rolesGuard env' True required (Some \<lparr>ru_wallet = w, ru_role = None\<rparr>) st') = Inr ()"
proof -
  have "ua_cache st' = ua_cache st"
    using assms(1) by (auto simp: resetUserRole_def split: sum.splits option.splits prod.splits)
  then show ?thesis using assms(2-5) by (auto simp: rolesGuard_def Let_def getUserState_def)
qed

theorem admin_reset_keeps_old_role_witness:
  "fst (rolesGuard demo_uenv True [''vendor''] (Some \<lparr>ru_wallet = ''GA'', ru_role = None\<rparr>)
     (snd (resetUserRole demo_uenv ''GA'' None
        \<lparr>ua_users = [demo_user], ua_cache = [''GA'' \<mapsto> ((''active'', Some ''vendor''), 60000)], ua_admin = Map.empty\<rparr>))) = Inr ()"
  by (rule admin_reset_keeps_old_role [where env = demo_uenv and w = "''GA''" and role = None and old = "''vendor''" and s = "''active''"
        and x = "(''GA'', None)"
        and st = "\<lparr>ua_users = [demo_user], ua_cache = [''GA'' \<mapsto> ((''active'', Some ''vendor''), 60000)], ua_admin = Map.empty\<rparr>"])
    (simp_all add: demo_uenv_def demo_user_def new_user_def resetUserRole_def forceSetRole_def of_wallet_def maybe_single_def cache_get_def)

text \<open>Updating a profile stores and answers a display name without any HTML tag, whatever was
  submitted, and leaves the rows of all other wallets as they were.\<close>

theorem profile_name_clean:
  assumes "fst (updateProfile env w d db) = Inr r" and "uu_name d = Some (Some n)"
  shows "uf_name r = Some (sanitize_name n) \<and> \<not> has_tag (sanitize_name n) \<and>
    (\<forall>u \<in> set (ud_users (snd (updateProfile env w d db))). user_wallet u = w \<longrightarrow> user_display u = Some (sanitize_name n)) \<and>
    filter (\<lambda>u. user_wallet u \<noteq> w) (ud_users (snd (updateProfile env w d db))) =
    filter (\<lambda>u. user_wallet u \<noteq> w) (ud_users db)"
proof -
  define d' where "d' = d\<lparr>uu_name := map_option (map_option sanitize_name) (uu_name d)\<rparr>"
  define us where "us = upsert_by (of_wallet w) (set_profile d') (new_user env w) (ud_users db)"
  obtain u db' where u: "update env w d' db = (Inr u, db')" and r: "uf_name r = user_display u"
    and db': "ud_users (snd (updateProfile env w d db)) = ud_users db'"
    using assms(1) by (auto simp: updateProfile_def d'_def updated_profile_of_def split: if_splits sum.splits prod.splits)
  from u have uf: "filter (of_wallet w) us = [u]" and us: "ud_users db' = us"
    by (auto simp: update_def Let_def us_def table_simps split: sum.splits option.splits if_splits)
  have disp: "user_display x = Some (sanitize_name n)" if "x \<in> set us" "user_wallet x = w" for x
  proof -
    have p: "user_display (set_profile d' y) = Some (sanitize_name n)" "user_wallet (set_profile d' y) = user_wallet y" for y
      by (simp_all add: set_profile_def d'_def assms(2) or_else_def)
    from set_upsert_by [OF that(1) [unfolded us_def]] that(2) p show ?thesis by (auto simp: of_wallet_def)
  qed
  from filter_singleD [OF uf] have "u \<in> set us" "user_wallet u = w" by (simp_all add: of_wallet_def)
  then have "user_display u = Some (sanitize_name n)" by (rule disp)
  moreover have "filter (\<lambda>u. user_wallet u \<noteq> w) us = filter (\<lambda>u. user_wallet u \<noteq> w) (ud_users db)"
  proof -
    have "filter (\<lambda>u. user_wallet u \<noteq> w) (update_where (of_wallet w) (set_profile d') (ud_users db)) =
        filter (\<lambda>u. user_wallet u \<noteq> w) (ud_users db)"
      by (rule filter_update_where_frame) (simp add: of_wallet_def set_profile_def)
    then show ?thesis by (simp add: us_def upsert_by_def set_profile_def new_user_def)
  qed
  ultimately show ?thesis using r db' us disp sanitize_name_no_tag by simp
qed

theorem profile_name_clean_witness:
  "\<not> has_tag (sanitize_name ''<b>Ann</b>'')"
proof -
  have "\<exists>r. fst (updateProfile demo_uenv ''GA'' \<lparr>uu_name = Some (Some ''<b>Ann</b>''), uu_avatar = None, uu_preferences = None\<rparr>
      \<lparr>ud_users = [demo_user], ud_prefs = []\<rparr>) = Inr r"
    by (simp add: updateProfile_def update_def upsert_by_def Let_def demo_user_def demo_uenv_def new_user_def of_wallet_def
        update_where_def set_profile_def single_def findByWallet_def maybe_single_def or_else_def)
  then show ?thesis using profile_name_clean by fastforce
qed

end
