(* ===== verification/AuthSession.thy ===== *)
theory AuthSession imports Users AuthNonce begin

text \<open>
  Sessions (\<open>modules/auth/auth.service.ts\<close>): minting a pair of tokens, rotating a refresh token,
  what happens when one is presented again, and registration; with the hourly jobs that delete
  old sessions and nonces (\<open>jobs/session-cleanup\<close>, \<open>jobs/nonce-cleanup\<close>). JWT signing and verification and SHA-256 are parameters.
\<close>

record SessionRow =
  se_pk :: string
  se_user :: string
  se_hash :: string
  se_family :: string
  se_expires :: int

record RefreshTokenPayload =
  rt_type :: "string option"
  rt_wallet :: "string option"
  rt_fam :: "string option"

text \<open>An audit event of a replay: the wallet, the family, and how many sessions were revoked.\<close>

record session_state =
  ss_users :: "UserRow list"
  ss_profiles :: "string list"
  ss_sessions :: "SessionRow list"
  ss_audit :: "(string \<times> string \<times> nat) list"

text \<open>
  \<open>sn_sign_refresh wallet family\<close> and \<open>sn_sign_access wallet role\<close> are the tokens signed by this
  call, at its time; \<open>sn_verify\<close> is \<open>jwtService.verify\<close> with the refresh secret, \<open>None\<close> when it
  throws.
\<close>

record session_env =
  sn_users :: user_env
  sn_sign_access :: "string \<Rightarrow> string option \<Rightarrow> string"
  sn_sign_refresh :: "string \<Rightarrow> string \<Rightarrow> string"
  sn_verify :: "string \<Rightarrow> RefreshTokenPayload option"
  sn_sha256 :: "string \<Rightarrow> string"
  sn_uuid :: string
  sn_pk :: string
  sn_audit_down :: bool

abbreviation sn_now :: "session_env \<Rightarrow> int" where "sn_now env \<equiv> ue_now (sn_users env)"
abbreviation sn_faults :: "session_env \<Rightarrow> faults" where "sn_faults env \<equiv> ue_faults (sn_users env)"

record AuthResponse =
  ar_access :: string
  ar_refresh :: string
  ar_expiresIn :: nat
  ar_tokenType :: string

definition ACCESS_TOKEN_EXPIRATION_SECONDS :: nat where "ACCESS_TOKEN_EXPIRATION_SECONDS = 900"
definition REFRESH_TOKEN_EXPIRATION_MS :: int where "REFRESH_TOKEN_EXPIRATION_MS = 7 * 24 * 60 * 60 * 1000"

section \<open>Minting tokens\<close>

text \<open>The learner profile is created on the way; its errors are not looked at.\<close>

definition ensure_learner_profile :: "faults \<Rightarrow> string \<Rightarrow> string list \<Rightarrow> string list" where
  "ensure_learner_profile flt w ps =
     (if w \<in> set ps \<or> flt ''learner_profiles.insert'' \<noteq> None then ps else ps @ [w])"

definition findOrCreateUser ::
  "session_env \<Rightarrow> string \<Rightarrow> session_state \<Rightarrow> (string \<times> string option) result \<times> session_state" where
  "findOrCreateUser env w st =
     (let us = upsert_by (of_wallet w) (\<lambda>u. u) (new_user (sn_users env) w) (ss_users st)
      in case with_fault (sn_faults env ''users.touch'') (single (filter (of_wallet w) us)) of
           Inl _ \<Rightarrow> (Inl (internal_error ''DATABASE_USER_UPSERT_FAILED''), st)
         | Inr u \<Rightarrow>
             if user_status u = ''blocked'' then (Inl (unauthorized ''AUTH_USER_BLOCKED''), st\<lparr>ss_users := us\<rparr>)
             else (Inr (user_pk u, user_role u),
                   st\<lparr>ss_users := us, ss_profiles := ensure_learner_profile (sn_faults env) w (ss_profiles st)\<rparr>))"

definition generateTokens ::
  "session_env \<Rightarrow> string \<Rightarrow> string option \<Rightarrow> session_state \<Rightarrow> AuthResponse result \<times> session_state" where
  "generateTokens env w familyId st =
     (case findOrCreateUser env w st of
        (Inl e, st1) \<Rightarrow> (Inl e, st1)
      | (Inr (uid, role), st1) \<Rightarrow>
          let fam = or_else familyId (sn_uuid env);
              refresh = sn_sign_refresh env w fam;
              row = \<lparr>se_pk = sn_pk env, se_user = uid, se_hash = sn_sha256 env refresh, se_family = fam,
                     se_expires = sn_now env + REFRESH_TOKEN_EXPIRATION_MS\<rparr>
          in case sn_faults env ''sessions.insert'' of
               Some _ \<Rightarrow> (Inl (internal_error ''DATABASE_SESSION_CREATE_FAILED''), st1)
             | None \<Rightarrow>
                 (Inr \<lparr>ar_access = sn_sign_access env w role, ar_refresh = refresh,
                       ar_expiresIn = ACCESS_TOKEN_EXPIRATION_SECONDS, ar_tokenType = ''Bearer''\<rparr>,
                  st1\<lparr>ss_sessions := ss_sessions st1 @ [row]\<rparr>))"

section \<open>Refreshing\<close>

definition handleRefreshReplay :: "session_env \<Rightarrow> RefreshTokenPayload \<Rightarrow> session_state \<Rightarrow> session_state" where
  "handleRefreshReplay env p st =
     (case rt_fam p of
        None \<Rightarrow> st
      | Some [] \<Rightarrow> st
      | Some fam \<Rightarrow>
          let failed = (sn_faults env ''sessions.revoke'' \<noteq> None);
              rows = (if failed then ss_sessions st else delete_where (\<lambda>s. se_family s = fam) (ss_sessions st));
              n = (if failed then 0 else length (filter (\<lambda>s. se_family s = fam) (ss_sessions st)))
          in st\<lparr>ss_sessions := rows,
                ss_audit := (if sn_audit_down env then ss_audit st
                             else ss_audit st @ [(or_else (rt_wallet p) ''unknown'', fam, n)])\<rparr>)"

text \<open>
  \<open>refreshTokens\<close> in two steps, between which other requests may run: finding the session of the
  token, and replacing it.
\<close>

definition refresh_select ::
  "session_env \<Rightarrow> string \<Rightarrow> session_state \<Rightarrow> (RefreshTokenPayload \<times> SessionRow) result \<times> session_state" where
  "refresh_select env token st =
     (case sn_verify env token of
        None \<Rightarrow> (Inl (unauthorized ''AUTH_REFRESH_TOKEN_INVALID''), st)
      | Some p \<Rightarrow>
          if rt_type p \<noteq> Some ''refresh'' then (Inl (unauthorized ''AUTH_REFRESH_TOKEN_INVALID''), st)
          else case with_fault (sn_faults env ''sessions.select'')
                      (single (filter (\<lambda>s. se_hash s = sn_sha256 env token) (ss_sessions st))) of
            Inl _ \<Rightarrow>
              (Inl (unauthorized (if rt_fam p = None \<or> rt_fam p = Some [] then ''AUTH_SESSION_NOT_FOUND''
                                  else ''AUTH_REFRESH_TOKEN_REUSED'')),
               handleRefreshReplay env p st)
          | Inr s \<Rightarrow> if se_expires s < sn_now env then (Inl (unauthorized ''AUTH_SESSION_EXPIRED''), st)
                     else (Inr (p, s), st))"

definition delete_session :: "session_env \<Rightarrow> SessionRow \<Rightarrow> session_state \<Rightarrow> session_state" where
  "delete_session env s st =
     (case sn_faults env ''sessions.delete'' of
        Some _ \<Rightarrow> st
      | None \<Rightarrow> st\<lparr>ss_sessions := delete_where (\<lambda>x. se_pk x = se_pk s) (ss_sessions st)\<rparr>)"

definition refresh_rotate ::
  "session_env \<Rightarrow> RefreshTokenPayload \<times> SessionRow \<Rightarrow> session_state \<Rightarrow> AuthResponse result \<times> session_state" where
  "refresh_rotate env found st =
     (case found of (p, s) \<Rightarrow>
        let st1 = delete_session env s st
        in case rt_wallet p of
             None \<Rightarrow> (Inl (internal_error ''DATABASE_USER_UPSERT_FAILED''), st1)
           | Some w \<Rightarrow> generateTokens env w (Some (se_family s)) st1)"

definition refreshTokens :: "session_env \<Rightarrow> string \<Rightarrow> session_state \<Rightarrow> AuthResponse result \<times> session_state" where
  "refreshTokens env token st =
     (case refresh_select env token st of
        (Inl e, st1) \<Rightarrow> (Inl e, st1)
      | (Inr found, st1) \<Rightarrow> refresh_rotate env found st1)"

section \<open>Registering\<close>

record RegisterRequest =
  rg_wallet :: string
  rg_username :: string
  rg_displayName :: string

text \<open>
  \<open>avatar\<close> is the outcome of uploading the profile image, when there is one. Deleting the user
  again takes its sessions along (\<open>ON DELETE CASCADE\<close>).
\<close>

definition drop_user :: "session_env \<Rightarrow> string \<Rightarrow> session_state \<Rightarrow> session_state" where
  "drop_user env uid st =
     (let us = deleteUserById (sn_users env) uid (ss_users st)
      in if sn_faults env ''users.delete'' \<noteq> None then st
         else st\<lparr>ss_users := us, ss_sessions := delete_where (\<lambda>s. se_user s = uid) (ss_sessions st)\<rparr>)"

definition register ::
  "session_env \<Rightarrow> string option result \<Rightarrow> RegisterRequest \<Rightarrow> session_state \<Rightarrow>
   (UserRow \<times> AuthResponse) result \<times> session_state" where
  "register env avatar dto st =
     (case avatar of
        Inl e \<Rightarrow> (Inl e, st)
      | Inr url \<Rightarrow>
          (case createProfile (sn_users env) (rg_wallet dto) (rg_username dto) (rg_displayName dto) url (ss_users st) of
             Inl e \<Rightarrow> (Inl e, st)
           | Inr (u, us) \<Rightarrow>
               (case generateTokens env (rg_wallet dto) None (st\<lparr>ss_users := us\<rparr>) of
                  (Inl e, st1) \<Rightarrow> (Inl e, drop_user env (user_pk u) st1)
                | (Inr tokens, st1) \<Rightarrow> (Inr (u, tokens), st1))))"

section \<open>Cleaning up\<close>

definition cleanup_cutoff :: "int \<Rightarrow> int" where
  "cleanup_cutoff now = now - 60 * 60 * 1000"

definition cleanupExpiredSessions :: "session_env \<Rightarrow> SessionRow list \<Rightarrow> SessionRow list" where
  "cleanupExpiredSessions env rows =
     (case sn_faults env ''sessions.cleanup'' of
        Some _ \<Rightarrow> rows
      | None \<Rightarrow> delete_where (\<lambda>s. se_expires s < cleanup_cutoff (sn_now env)) rows)"

definition cleanupExpiredNonces :: "faults \<Rightarrow> int \<Rightarrow> NonceRow list \<Rightarrow> NonceRow list" where
  "cleanupExpiredNonces flt now rows =
     (case flt ''nonces.cleanup'' of
        Some _ \<Rightarrow> rows
      | None \<Rightarrow> delete_where (\<lambda>n. nn_expires n < cleanup_cutoff now) rows)"

section \<open>What the steps do\<close>

lemma findOrCreateUser_Inr:
  assumes "findOrCreateUser env w st = (Inr (uid, role), st1)"
  shows "ss_sessions st1 = ss_sessions st \<and> ss_audit st1 = ss_audit st \<and>
    (\<exists>u. filter (of_wallet w) (ss_users st1) = [u] \<and> user_pk u = uid \<and> user_role u = role \<and> user_status u \<noteq> ''blocked'')"
  using assms by (auto simp: findOrCreateUser_def Let_def table_simps split: sum.splits if_splits)

lemma generateTokens_Inr:
  assumes "generateTokens env w fam st = (Inr r, st')"
  shows "\<exists>u. filter (of_wallet w) (ss_users st') = [u] \<and> user_status u \<noteq> ''blocked'' \<and>
    ar_refresh r = sn_sign_refresh env w (or_else fam (sn_uuid env)) \<and>
    ar_access r = sn_sign_access env w (user_role u) \<and>
    ss_sessions st' = ss_sessions st @
      [\<lparr>se_pk = sn_pk env, se_user = user_pk u, se_hash = sn_sha256 env (ar_refresh r),
        se_family = or_else fam (sn_uuid env), se_expires = sn_now env + REFRESH_TOKEN_EXPIRATION_MS\<rparr>]"
proof -
  from assms obtain uid role st1 where f: "findOrCreateUser env w st = (Inr (uid, role), st1)"
    by (auto simp: generateTokens_def split: prod.splits sum.splits)
  from findOrCreateUser_Inr [OF f] assms f show ?thesis
    by (auto simp: generateTokens_def Let_def split: option.splits)
qed

lemma refresh_select_Inr:
  "refresh_select env token st = (Inr (p, s), st1) \<Longrightarrow>
     sn_verify env token = Some p \<and> rt_type p = Some ''refresh'' \<and> sn_now env \<le> se_expires s \<and> st1 = st \<and>
     sn_faults env ''sessions.select'' = None \<and>
     filter (\<lambda>s. se_hash s = sn_sha256 env token) (ss_sessions st) = [s]"
  by (auto simp: refresh_select_def table_simps split: option.splits if_splits sum.splits)

lemma refresh_rotate_Inr:
  assumes "refresh_rotate env (p, s) st = (Inr r, st')"
  shows "\<exists>w. rt_wallet p = Some w \<and> generateTokens env w (Some (se_family s)) (delete_session env s st) = (Inr r, st')"
  using assms by (auto simp: refresh_rotate_def Let_def split: option.splits)

lemma rotate_adds:
  assumes "refresh_rotate env (p, s) st = (Inr r, st')"
  shows "\<exists>x. ss_sessions st' = ss_sessions (delete_session env s st) @ [x] \<and> se_family x = se_family s \<and> se_pk x = sn_pk env"
proof -
  from refresh_rotate_Inr [OF assms] obtain w where
    "generateTokens env w (Some (se_family s)) (delete_session env s st) = (Inr r, st')" by blast
  from generateTokens_Inr [OF this] show ?thesis by (auto simp: or_else_def)
qed

lemma refreshTokens_Inr:
  assumes "refreshTokens env token st = (Inr r, st')"
  shows "\<exists>p s. refresh_select env token st = (Inr (p, s), st) \<and> refresh_rotate env (p, s) st = (Inr r, st')"
  using assms by (auto simp: refreshTokens_def split: prod.splits sum.splits dest: refresh_select_Inr)

lemma refresh_missing:
  assumes "sn_verify env token = Some p" and "rt_type p = Some ''refresh''" and "rt_fam p = Some fam" and "fam \<noteq> []"
    and "sn_faults env ''sessions.select'' \<noteq> None \<or>
         (\<forall>s \<in> set (ss_sessions st). se_hash s \<noteq> sn_sha256 env token)"
  shows "refreshTokens env token st = (Inl (unauthorized ''AUTH_REFRESH_TOKEN_REUSED''), handleRefreshReplay env p st)"
proof -
  have "filter (\<lambda>s. se_hash s = sn_sha256 env token) (ss_sessions st) = []"
    if "\<forall>s \<in> set (ss_sessions st). se_hash s \<noteq> sn_sha256 env token" using that by (simp add: filter_empty_conv)
  with assms show ?thesis
    by (auto simp: refreshTokens_def refresh_select_def single_def with_fault_def split: option.splits)
qed

lemma replay_sessions:
  assumes "rt_fam p = Some fam" and "fam \<noteq> []" and "sn_faults env ''sessions.revoke'' = None"
  shows "ss_sessions (handleRefreshReplay env p st) = filter (\<lambda>s. se_family s \<noteq> fam) (ss_sessions st)"
  using assms by (cases fam) (simp_all add: handleRefreshReplay_def Let_def delete_where_def)

section \<open>Properties\<close>

text \<open>C25: A refresh token is exchanged only while it is live: it verifies as a refresh token, exactly
  one session has its hash and is not expired, and its wallet is not blocked. That session is
  replaced by one of the same family for the new token, seven days from now.\<close>

theorem refresh_sound:
  assumes "refreshTokens env token st = (Inr r, st')" and "sn_faults env ''sessions.delete'' = None"
  shows "\<exists>p s w u. sn_verify env token = Some p \<and> rt_type p = Some ''refresh'' \<and> rt_wallet p = Some w \<and>
    filter (\<lambda>s. se_hash s = sn_sha256 env token) (ss_sessions st) = [s] \<and> sn_now env \<le> se_expires s \<and>
    filter (of_wallet w) (ss_users st') = [u] \<and> user_status u \<noteq> ''blocked'' \<and>
    ss_sessions st' = filter (\<lambda>x. se_pk x \<noteq> se_pk s) (ss_sessions st) @
      [\<lparr>se_pk = sn_pk env, se_user = user_pk u, se_hash = sn_sha256 env (ar_refresh r), se_family = se_family s,
        se_expires = sn_now env + 7 * 24 * 60 * 60 * 1000\<rparr>]"
proof -
  from refreshTokens_Inr [OF assms(1)] obtain p s where sel: "refresh_select env token st = (Inr (p, s), st)"
    and rot: "refresh_rotate env (p, s) st = (Inr r, st')" by blast
  from refresh_rotate_Inr [OF rot] obtain w where w: "rt_wallet p = Some w"
    and g: "generateTokens env w (Some (se_family s)) (delete_session env s st) = (Inr r, st')" by blast
  have d: "ss_sessions (delete_session env s st) = filter (\<lambda>x. se_pk x \<noteq> se_pk s) (ss_sessions st)"
    by (simp add: delete_session_def assms(2) delete_where_def)
  from refresh_select_Inr [OF sel] generateTokens_Inr [OF g] w d show ?thesis
    by (auto simp: or_else_def REFRESH_TOKEN_EXPIRATION_MS_def)
qed

text \<open>C26: A rotated refresh token is a tripwire: presenting it again after it was exchanged, whatever
  happened in between short of its hash being stored anew, is refused and revokes every session
  of its family, the exchanged one included, and no session of any other family.\<close>

theorem replay_revokes_family:
  assumes "refreshTokens env token st = (Inr r, st')" and "sn_faults env ''sessions.delete'' = None"
    and "sn_verify env token = Some p" and "rt_fam p = Some fam" and "fam \<noteq> []"
    and "\<forall>s \<in> set (ss_sessions st''). se_hash s = sn_sha256 env token \<longrightarrow> s \<in> set (ss_sessions st')"
    and "sn_sha256 env (ar_refresh r) \<noteq> sn_sha256 env token"
    and "sn_verify env' = sn_verify env" and "sn_sha256 env' = sn_sha256 env" and "sn_faults env' ''sessions.revoke'' = None"
  shows "fst (refreshTokens env' token st'') = Inl (unauthorized ''AUTH_REFRESH_TOKEN_REUSED'') \<and>
    ss_sessions (snd (refreshTokens env' token st'')) = filter (\<lambda>s. se_family s \<noteq> fam) (ss_sessions st'')"
proof -
  from refresh_sound [OF assms(1,2)] obtain q s w u where
    q: "sn_verify env token = Some q" "rt_type q = Some ''refresh''" "rt_wallet q = Some w" and
    f: "filter (\<lambda>s. se_hash s = sn_sha256 env token) (ss_sessions st) = [s]" "sn_now env \<le> se_expires s" and
    u: "filter (of_wallet w) (ss_users st') = [u]" "user_status u \<noteq> ''blocked''" and
    s': "ss_sessions st' = filter (\<lambda>x. se_pk x \<noteq> se_pk s) (ss_sessions st) @
      [\<lparr>se_pk = sn_pk env, se_user = user_pk u, se_hash = sn_sha256 env (ar_refresh r), se_family = se_family s,
        se_expires = sn_now env + 7 * 24 * 60 * 60 * 1000\<rparr>]"
    by blast
  from q assms(3) have ty: "rt_type p = Some ''refresh''" by simp
  have gone: "se_hash x \<noteq> sn_sha256 env token" if "x \<in> set (ss_sessions st')" for x
  proof
    assume h: "se_hash x = sn_sha256 env token"
    with that s' assms(7) have "x \<in> set (ss_sessions st)" "se_pk x \<noteq> se_pk s" by auto
    with h have "x \<in> set (filter (\<lambda>s. se_hash s = sn_sha256 env token) (ss_sessions st))" by simp
    with f(1) \<open>se_pk x \<noteq> se_pk s\<close> show False by simp
  qed
  have "\<forall>x \<in> set (ss_sessions st''). se_hash x \<noteq> sn_sha256 env' token"
    using gone assms(6) by (auto simp: assms(9))
  with refresh_missing [of env' token p fam st''] ty assms(3-5,8) replay_sessions [OF assms(4,5,10)] show ?thesis by simp
qed

definition demo_senv :: session_env where
  "demo_senv = \<lparr>sn_users = demo_uenv, sn_sign_access = (\<lambda>w r. ''A'' @ w), sn_sign_refresh = (\<lambda>w f. ''R2''),
     sn_verify = (\<lambda>t. Some \<lparr>rt_type = Some ''refresh'', rt_wallet = Some ''GA'', rt_fam = Some ''f1''\<rparr>),
     sn_sha256 = (\<lambda>s. s), sn_uuid = ''f2'', sn_pk = ''s2'', sn_audit_down = False\<rparr>"

definition demo_session :: SessionRow where
  "demo_session = \<lparr>se_pk = ''s1'', se_user = ''u1'', se_hash = ''R1'', se_family = ''f1'', se_expires = 60000\<rparr>"

definition demo_sessions :: session_state where
  "demo_sessions = \<lparr>ss_users = [demo_user], ss_profiles = [''GA''], ss_sessions = [demo_session], ss_audit = []\<rparr>"

lemmas demo_session_defs = demo_senv_def demo_session_def demo_sessions_def demo_user_def new_user_def demo_uenv_def

definition demo_tokens :: AuthResponse where
  "demo_tokens = \<lparr>ar_access = ''AGA'', ar_refresh = ''R2'', ar_expiresIn = 900, ar_tokenType = ''Bearer''\<rparr>"

definition demo_rotated :: session_state where
  "demo_rotated = demo_sessions\<lparr>ss_sessions := [\<lparr>se_pk = ''s2'', se_user = ''u1'', se_hash = ''R2'', se_family = ''f1'',
     se_expires = 50000 + 7 * 24 * 60 * 60 * 1000\<rparr>]\<rparr>"

lemma demo_refresh: "refreshTokens demo_senv ''R1'' demo_sessions = (Inr demo_tokens, demo_rotated)"
  by (simp add: refreshTokens_def refresh_select_def refresh_rotate_def delete_session_def generateTokens_def
      findOrCreateUser_def upsert_by_def ensure_learner_profile_def Let_def of_wallet_def single_def delete_where_def
      update_where_def or_else_def ACCESS_TOKEN_EXPIRATION_SECONDS_def REFRESH_TOKEN_EXPIRATION_MS_def demo_tokens_def
      demo_rotated_def demo_session_defs)

theorem refresh_sound_witness:
  "\<exists>p s w u. sn_verify demo_senv ''R1'' = Some p \<and> rt_type p = Some ''refresh'' \<and> rt_wallet p = Some w \<and>
    filter (\<lambda>s. se_hash s = sn_sha256 demo_senv ''R1'') (ss_sessions demo_sessions) = [s] \<and> sn_now demo_senv \<le> se_expires s \<and>
    filter (of_wallet w) (ss_users demo_rotated) = [u] \<and> user_status u \<noteq> ''blocked'' \<and>
    ss_sessions demo_rotated = filter (\<lambda>x. se_pk x \<noteq> se_pk s) (ss_sessions demo_sessions) @
      [\<lparr>se_pk = sn_pk demo_senv, se_user = user_pk u, se_hash = sn_sha256 demo_senv (ar_refresh demo_tokens),
        se_family = se_family s, se_expires = sn_now demo_senv + 7 * 24 * 60 * 60 * 1000\<rparr>]"
  by (rule refresh_sound [OF demo_refresh]) (simp add: demo_session_defs)

theorem replay_revokes_family_witness:
  "fst (refreshTokens demo_senv ''R1'' demo_rotated) = Inl (unauthorized ''AUTH_REFRESH_TOKEN_REUSED'') \<and>
   ss_sessions (snd (refreshTokens demo_senv ''R1'' demo_rotated)) = filter (\<lambda>s. se_family s \<noteq> ''f1'') (ss_sessions demo_rotated)"
  by (rule replay_revokes_family [OF demo_refresh, where p = "\<lparr>rt_type = Some ''refresh'', rt_wallet = Some ''GA'', rt_fam = Some ''f1''\<rparr>"])
    (simp_all add: demo_session_defs demo_tokens_def)

text \<open>Two requests that race with the same refresh token both succeed: if both find the session
  before either deletes it, each mints a token, and the family ends with two live sessions, so
  a thief who wins the race goes unnoticed.\<close>

theorem refresh_race_forks_family:
  assumes "refresh_select env token st = (Inr (p, s), st)"
    and "refresh_rotate env (p, s) st = (Inr r, st1)" and "refresh_rotate env' (p, s) st1 = (Inr r', st2)"
    and "sn_pk env \<noteq> se_pk s"
  shows "2 \<le> length (filter (\<lambda>x. se_family x = se_family s) (ss_sessions st2))"
proof -
  from rotate_adds [OF assms(2)] obtain x where
    x: "ss_sessions st1 = ss_sessions (delete_session env s st) @ [x]" "se_family x = se_family s" "se_pk x = sn_pk env" by blast
  from rotate_adds [OF assms(3)] obtain y where
    y: "ss_sessions st2 = ss_sessions (delete_session env' s st1) @ [y]" "se_family y = se_family s" by blast
  have "x \<in> set (ss_sessions (delete_session env' s st1))"
    using x assms(4) by (simp add: delete_session_def split: option.splits)
  then have "filter (\<lambda>x. se_family x = se_family s) (ss_sessions (delete_session env' s st1)) \<noteq> []"
    using x(2) by (auto simp: filter_empty_conv)
  then have "1 \<le> length (filter (\<lambda>x. se_family x = se_family s) (ss_sessions (delete_session env' s st1)))"
    by (cases "filter (\<lambda>x. se_family x = se_family s) (ss_sessions (delete_session env' s st1))") simp_all
  then show ?thesis by (simp add: y)
qed

text \<open>A failing query is taken for theft: when the lookup of the session fails, a client that
  presents its current, unused token is refused for reuse and loses every session of its family.\<close>

theorem lookup_failure_revokes:
  assumes "sn_faults env ''sessions.select'' = Some e" and "sn_faults env ''sessions.revoke'' = None"
    and "sn_verify env token = Some p" and "rt_type p = Some ''refresh''" and "rt_fam p = Some fam" and "fam \<noteq> []"
  shows "fst (refreshTokens env token st) = Inl (unauthorized ''AUTH_REFRESH_TOKEN_REUSED'') \<and>
    ss_sessions (snd (refreshTokens env token st)) = filter (\<lambda>s. se_family s \<noteq> fam) (ss_sessions st)"
  using refresh_missing [of env token p fam st] replay_sessions [OF assms(5,6,2)] assms by simp

text \<open>Registering needs no signature: for any wallet that has no account yet and a free username,
  the request alone answers with an access token for that wallet.\<close>

theorem register_without_signature:
  assumes "sn_faults env = no_faults" and "\<forall>u \<in> set (ss_users st). user_wallet u \<noteq> rg_wallet dto \<and> user_name u \<noteq> Some (rg_username dto)"
  shows "\<exists>u t. fst (register env (Inr None) dto st) = Inr (u, t) \<and> user_wallet u = rg_wallet dto \<and>
    ar_access t = sn_sign_access env (rg_wallet dto) None \<and>
    (\<exists>s \<in> set (ss_sessions (snd (register env (Inr None) dto st))). se_hash s = sn_sha256 env (ar_refresh t))"
proof -
  define u where "u = (new_user (sn_users env) (rg_wallet dto))\<lparr>user_name := Some (rg_username dto),
    user_display := Some (rg_displayName dto), user_avatar := None\<rparr>"
  have c: "createProfile (sn_users env) (rg_wallet dto) (rg_username dto) (rg_displayName dto) None (ss_users st) =
      Inr (u, ss_users st @ [u])"
    using assms by (auto simp: createProfile_def u_def Let_def)
  have u: "user_wallet u = rg_wallet dto" "user_status u = ''active''" "user_role u = None"
    by (simp_all add: u_def new_user_def)
  have w: "filter (of_wallet (rg_wallet dto)) (ss_users st) = []" using assms(2) by (simp add: filter_empty_conv of_wallet_def)
  have i: "update_where P (\<lambda>u. u) us = us" for P and us :: "UserRow list" by (simp add: update_where_def)
  have "findOrCreateUser env (rg_wallet dto) (st\<lparr>ss_users := ss_users st @ [u]\<rparr>) =
      (Inr (user_pk u, None), st\<lparr>ss_users := ss_users st @ [u],
         ss_profiles := ensure_learner_profile no_faults (rg_wallet dto) (ss_profiles st)\<rparr>)"
    by (simp add: findOrCreateUser_def upsert_by_def i w u of_wallet_def single_def assms(1))
  then show ?thesis
    by (simp add: register_def c generateTokens_def Let_def assms(1) u)
qed

lemma filter_delete_where:
  "filter P rows = [s] \<Longrightarrow> \<not> Q s \<Longrightarrow> filter P (delete_where Q rows) = [s]"
proof -
  assume a: "filter P rows = [s]" "\<not> Q s"
  have "filter P (delete_where Q rows) = filter (\<lambda>r. \<not> Q r) (filter P rows)"
    unfolding delete_where_def filter_filter by (rule filter_cong) auto
  with a show ?thesis by simp
qed

text \<open>The hourly clean-ups never take away a login that could still succeed: a refresh token whose
  session was found before the job ran is found after it, and a verification that would have
  been accepted is accepted, as long as the clock of the job is at most an hour ahead.\<close>

theorem cleanup_keeps_usable:
  assumes "sn_now job \<le> sn_now env + 3600000" and "now \<le> au_now aenv + 3600000"
  shows "(fst (refresh_select env token st) = Inr x \<longrightarrow>
            fst (refresh_select env token (st\<lparr>ss_sessions := cleanupExpiredSessions job (ss_sessions st)\<rparr>)) = Inr x) \<and>
         (fst (verifySignature aenv dto rows) = Inr () \<longrightarrow>
            fst (verifySignature aenv dto (cleanupExpiredNonces flt now rows)) = Inr ())"
proof (intro conjI impI)
  assume "fst (refresh_select env token st) = Inr x"
  then obtain p s st1 where x: "x = (p, s)" "refresh_select env token st = (Inr (p, s), st1)" by (metis prod.collapse)
  note sel = refresh_select_Inr [OF x(2)]
  have "filter (\<lambda>s. se_hash s = sn_sha256 env token) (cleanupExpiredSessions job (ss_sessions st)) = [s]"
    using sel assms(1) by (auto simp: cleanupExpiredSessions_def cleanup_cutoff_def intro!: filter_delete_where split: option.split)
  with sel x show "fst (refresh_select env token (st\<lparr>ss_sessions := cleanupExpiredSessions job (ss_sessions st)\<rparr>)) = Inr x"
    by (auto simp: refresh_select_def single_def with_fault_def split: option.splits)
next
  assume "fst (verifySignature aenv dto rows) = Inr ()"
  then obtain stored n rows' where f: "find_nonce aenv dto rows = Inr stored" and c: "claim_nonce aenv (nn_id stored) rows = Inr (n, rows')"
    and s: "check_signature aenv dto stored = Inr ()"
    by (auto simp: verifySignature_def split: sum.splits prod.splits if_splits)
  have alive: "\<not> nn_expires stored < cleanup_cutoff now"
    using s assms(2) by (auto simp: check_signature_def cleanup_cutoff_def split: if_splits)
  have f': "filter (\<lambda>r. nn_wallet r = vr_wallet dto \<and> nn_nonce r = vr_nonce dto \<and> nn_used r = None) rows = [stored]"
    using f by (simp add: find_nonce_Inr)
  have "filter (\<lambda>r. nn_wallet r = vr_wallet dto \<and> nn_nonce r = vr_nonce dto \<and> nn_used r = None)
      (cleanupExpiredNonces flt now rows) = [stored]"
    using f' alive by (auto simp: cleanupExpiredNonces_def intro!: filter_delete_where split: option.split)
  then have g: "find_nonce aenv dto (cleanupExpiredNonces flt now rows) = Inr stored"
    using f by (simp add: find_nonce_Inr)
  have "stored \<in> set (cleanupExpiredNonces flt now rows)" "nn_used stored = None"
    using filter_singleD [OF f'] alive by (auto simp: cleanupExpiredNonces_def split: option.split)
  then have "filter (\<lambda>r. nn_id r = nn_id stored \<and> nn_used r = None) (cleanupExpiredNonces flt now rows) \<noteq> []"
    by (auto simp: filter_empty_conv)
  with g s c show "fst (verifySignature aenv dto (cleanupExpiredNonces flt now rows)) = Inr ()"
    by (auto simp: verifySignature_def claim_nonce_def split: option.splits)
qed

theorem cleanup_keeps_usable_witness:
  "fst (refresh_select demo_senv ''R1'' (demo_sessions\<lparr>ss_sessions := cleanupExpiredSessions demo_senv [demo_session]\<rparr>)) =
   Inr (\<lparr>rt_type = Some ''refresh'', rt_wallet = Some ''GA'', rt_fam = Some ''f1''\<rparr>, demo_session)"
proof -
  have "fst (refresh_select demo_senv ''R1'' demo_sessions) =
      Inr (\<lparr>rt_type = Some ''refresh'', rt_wallet = Some ''GA'', rt_fam = Some ''f1''\<rparr>, demo_session)"
    by (simp add: refresh_select_def single_def demo_session_defs)
  with cleanup_keeps_usable [of demo_senv demo_senv "au_now demo_auth" demo_auth "''R1''" demo_sessions
      "(\<lparr>rt_type = Some ''refresh'', rt_wallet = Some ''GA'', rt_fam = Some ''f1''\<rparr>, demo_session)"]
  show ?thesis by (simp add: demo_sessions_def)
qed

theorem refresh_race_forks_family_witness:
  "\<exists>st2. 2 \<le> length (filter (\<lambda>x. se_family x = ''f1'') (ss_sessions st2)) \<and>
     snd (refresh_rotate (demo_senv\<lparr>sn_pk := ''s3'', sn_sign_refresh := (\<lambda>w f. ''R3'')\<rparr>)
       (\<lparr>rt_type = Some ''refresh'', rt_wallet = Some ''GA'', rt_fam = Some ''f1''\<rparr>, demo_session) demo_rotated) = st2"
proof -
  define p where "p = \<lparr>rt_type = Some ''refresh'', rt_wallet = Some ''GA'', rt_fam = Some ''f1''\<rparr>"
  define env where "env = demo_senv\<lparr>sn_pk := ''s3'', sn_sign_refresh := (\<lambda>w f. ''R3'')\<rparr>"
  note defs = refresh_rotate_def delete_session_def generateTokens_def findOrCreateUser_def upsert_by_def
    ensure_learner_profile_def Let_def of_wallet_def single_def delete_where_def update_where_def or_else_def
    ACCESS_TOKEN_EXPIRATION_SECONDS_def REFRESH_TOKEN_EXPIRATION_MS_def demo_tokens_def demo_rotated_def demo_session_defs
  have s: "refresh_select demo_senv ''R1'' demo_sessions = (Inr (p, demo_session), demo_sessions)"
    by (simp add: refresh_select_def single_def demo_session_defs p_def)
  have a: "refresh_rotate demo_senv (p, demo_session) demo_sessions = (Inr demo_tokens, demo_rotated)"
    by (simp add: defs p_def)
  obtain r st2 where b: "refresh_rotate env (p, demo_session) demo_rotated = (Inr r, st2)"
    by (simp add: defs p_def env_def)
  from refresh_race_forks_family [OF s a b] show ?thesis using b by (simp add: demo_session_defs p_def env_def)
qed

theorem lookup_failure_revokes_witness:
  "ss_sessions (snd (refreshTokens (demo_senv\<lparr>sn_users := demo_uenv\<lparr>ue_faults := (\<lambda>_. None)(''sessions.select'' := Some pgrst116)\<rparr>\<rparr>)
     ''R1'' demo_sessions)) = []"
  using lookup_failure_revokes [of "demo_senv\<lparr>sn_users := demo_uenv\<lparr>ue_faults := (\<lambda>_. None)(''sessions.select'' := Some pgrst116)\<rparr>\<rparr>"
      pgrst116 "''R1''" "\<lparr>rt_type = Some ''refresh'', rt_wallet = Some ''GA'', rt_fam = Some ''f1''\<rparr>" "''f1''" demo_sessions]
  by (simp add: demo_session_defs)

theorem register_without_signature_witness:
  "\<exists>u t. fst (register demo_senv (Inr None) \<lparr>rg_wallet = ''GB'', rg_username = ''bob'', rg_displayName = ''Bob''\<rparr> demo_sessions) = Inr (u, t) \<and>
     user_wallet u = ''GB'' \<and> ar_access t = ''AGB'' \<and>
     (\<exists>s \<in> set (ss_sessions (snd (register demo_senv (Inr None) \<lparr>rg_wallet = ''GB'', rg_username = ''bob'', rg_displayName = ''Bob''\<rparr>
        demo_sessions))). se_hash s = sn_sha256 demo_senv (ar_refresh t))"
  using register_without_signature [of demo_senv demo_sessions "\<lparr>rg_wallet = ''GB'', rg_username = ''bob'', rg_displayName = ''Bob''\<rparr>"]
  by (simp add: demo_session_defs)

end
