(* ===== verification/RateLimit.thy ===== *)
theory RateLimit imports Prelude begin

text \<open>
  Rate limits. The interface \<open>rate_limiter\<close> states what the counters of the program have in
  common; the two wallet throttlers (\<open>modules/transactions/wallet-throttler.guard.ts\<close>,
  \<open>modules/auth/auth-throttler.guard.ts\<close>) are instances, and so are the counters of the API key
  guard. Times are milliseconds.
\<close>

locale rate_limiter =
  fixes attempt :: "int \<Rightarrow> 'k \<Rightarrow> 's \<Rightarrow> bool \<times> 's"
    and live :: "int \<Rightarrow> 'k \<Rightarrow> 's \<Rightarrow> bool"
    and count :: "'k \<Rightarrow> 's \<Rightarrow> nat"
    and limit :: nat and window :: int
  assumes live_admits: "live now k s \<Longrightarrow> fst (attempt now k s) \<longleftrightarrow> count k s < limit"
    and live_counts: "live now k s \<Longrightarrow> fst (attempt now k s) \<Longrightarrow> count k (snd (attempt now k s)) = Suc (count k s)"
    and live_keeps: "live now k s \<Longrightarrow> count k s \<le> count k (snd (attempt now k s))"
    and live_stays: "live now k s \<Longrightarrow> live now' k s \<Longrightarrow> now' < now + window \<Longrightarrow> live now' k (snd (attempt now k s))"
    and opens: "\<not> live now k s \<Longrightarrow> count k (snd (attempt now k s)) = 1"
    and opens_live: "\<not> live now k s \<Longrightarrow> now \<le> now' \<Longrightarrow> now' < now + window \<Longrightarrow> live now' k (snd (attempt now k s))"
    and live_earlier: "live now' k s \<Longrightarrow> now \<le> now' \<Longrightarrow> live now k s"
    and limit_pos: "0 < limit"
begin

text \<open>How many of the attempts of one key, at the times of a list, are admitted.\<close>

primrec admitted :: "'k \<Rightarrow> int list \<Rightarrow> 's \<Rightarrow> nat" where
  "admitted k [] s = 0"
| "admitted k (t # ts) s = (if fst (attempt t k s) then 1 else 0) + admitted k ts (snd (attempt t k s))"

primrec after :: "'k \<Rightarrow> int list \<Rightarrow> 's \<Rightarrow> 's" where
  "after k [] s = s"
| "after k (t # ts) s = after k ts (snd (attempt t k s))"

lemma admitted_live:
  "\<forall>t \<in> set ts. live t k s \<and> t0 \<le> t \<and> t < t0 + window \<Longrightarrow> admitted k ts s \<le> limit - count k s"
proof (induction ts arbitrary: s)
  case (Cons t ts)
  let ?s = "snd (attempt t k s)"
  have l: "live t k s" using Cons.prems by simp
  have "\<forall>u \<in> set ts. live u k ?s \<and> t0 \<le> u \<and> u < t0 + window"
    using Cons.prems live_stays [OF l] by fastforce
  then have "admitted k ts ?s \<le> limit - count k ?s" by (rule Cons.IH)
  then show ?case using live_admits [OF l] live_counts [OF l] live_keeps [OF l] by auto
qed simp

text \<open>Two windows can touch a stretch of the length of one, so twice the limit is the bound.\<close>

lemma admitted_window:
  assumes "sorted ts" and "\<forall>t \<in> set ts. t0 \<le> t \<and> t < t0 + window"
  shows "admitted k ts s \<le> 2 * limit"
proof -
  have "admitted k ts s \<le> 2 * limit - min limit (count k s)"
    if "sorted ts" "\<forall>t \<in> set ts. t0 \<le> t \<and> t < t0 + window" for ts s
    using that
  proof (induction ts arbitrary: s)
    case (Cons t ts)
    let ?s = "snd (attempt t k s)"
    show ?case
    proof (cases "live t k s")
      case True
      have "admitted k ts ?s \<le> 2 * limit - min limit (count k ?s)" using Cons by simp
      then show ?thesis using live_admits [OF True] live_counts [OF True] live_keeps [OF True] by auto
    next
      case False
      have "\<forall>u \<in> set ts. live u k ?s \<and> t0 \<le> u \<and> u < t0 + window"
        using Cons.prems opens_live [OF False] by fastforce
      then have "admitted k ts ?s \<le> limit - 1" using admitted_live [of ts k ?s t0] opens [OF False] by simp
      then show ?thesis using limit_pos by (cases "fst (attempt t k s)") auto
    qed
  qed simp
  with assms show ?thesis by (meson diff_le_self order.trans)
qed

lemma admitted_first_window:
  assumes "\<not> live t k s" and "\<forall>u \<in> set ts. t \<le> u \<and> u < t + window"
  shows "admitted k (t # ts) s \<le> limit"
proof -
  have "\<forall>u \<in> set ts. live u k (snd (attempt t k s)) \<and> t \<le> u \<and> u < t + window" using assms opens_live by blast
  then have "admitted k ts (snd (attempt t k s)) \<le> limit - 1"
    using admitted_live [of ts k "snd (attempt t k s)" t] opens [OF assms(1)] by simp
  then show ?thesis using limit_pos by auto
qed

end

section \<open>Wallet throttlers\<close>

type_synonym hits = "string \<Rightarrow> (nat \<times> int) option"

record throttled_request =
  tq_body_wallet :: "string option"
  tq_user_wallet :: "string option"
  tq_ip :: "string option"
  tq_forwarded :: "string option"

definition client_tracker :: "string option \<Rightarrow> throttled_request \<Rightarrow> string" where
  "client_tracker wallet req =
     (if wallet \<noteq> None \<and> wallet \<noteq> Some [] then ''wallet:'' @ the wallet
      else if tq_ip req \<noteq> None \<and> tq_ip req \<noteq> Some [] then the (tq_ip req)
      else if tq_forwarded req \<noteq> None \<and> tq_forwarded req \<noteq> Some []
           then trim (hd (split_on (CHR '','') (the (tq_forwarded req))))
      else ''unknown'')"

text \<open>\<open>AuthWalletThrottlerGuard\<close> prefers the wallet of the body, \<open>WalletThrottlerGuard\<close> the one of the token.\<close>

definition auth_getTracker :: "throttled_request \<Rightarrow> string" where
  "auth_getTracker req =
     client_tracker (if tq_body_wallet req \<noteq> None then tq_body_wallet req else tq_user_wallet req) req"

definition wallet_getTracker :: "throttled_request \<Rightarrow> string" where
  "wallet_getTracker req =
     client_tracker (if tq_user_wallet req \<noteq> None then tq_user_wallet req else tq_body_wallet req) req"

definition window_attempt :: "nat \<Rightarrow> int \<Rightarrow> int \<Rightarrow> string \<Rightarrow> hits \<Rightarrow> bool \<times> hits" where
  "window_attempt limit ttl now k hits =
     (let fresh = (True, hits(k \<mapsto> (1, now + ttl)))
      in case hits k of
           None \<Rightarrow> fresh
         | Some (n, e) \<Rightarrow> if e < now then fresh else (n + 1 \<le> limit, hits(k \<mapsto> (n + 1, e))))"

definition auth_canActivate :: "int \<Rightarrow> throttled_request \<Rightarrow> hits \<Rightarrow> unit result \<times> hits" where
  "auth_canActivate now req hits =
     (let (ok, hits') = window_attempt 5 60000 now (auth_getTracker req) hits
      in (if ok then Inr () else Inl (too_many_requests ''ThrottlerException''), hits'))"

definition wallet_canActivate :: "int \<Rightarrow> throttled_request \<Rightarrow> hits \<Rightarrow> unit result \<times> hits" where
  "wallet_canActivate now req hits =
     (let (ok, hits') = window_attempt 10 60000 now (wallet_getTracker req) hits
      in (if ok then Inr () else Inl (too_many_requests ''ThrottlerException''), hits'))"

definition window_live :: "int \<Rightarrow> string \<Rightarrow> hits \<Rightarrow> bool" where
  "window_live now k hits = (case hits k of None \<Rightarrow> False | Some (_, e) \<Rightarrow> now \<le> e)"

definition window_count :: "string \<Rightarrow> hits \<Rightarrow> nat" where
  "window_count k hits = (case hits k of None \<Rightarrow> 0 | Some (n, _) \<Rightarrow> n)"

lemma window_limiter: "0 < limit \<Longrightarrow> rate_limiter (window_attempt limit ttl) window_live window_count limit ttl"
  by unfold_locales
    (auto simp: window_attempt_def window_live_def window_count_def Let_def split: option.splits prod.splits if_splits)

interpretation auth_throttle: rate_limiter "window_attempt 5 60000" window_live window_count 5 60000
  by (rule window_limiter) simp

interpretation wallet_throttle: rate_limiter "window_attempt 10 60000" window_live window_count 10 60000
  by (rule window_limiter) simp

text \<open>Requests through the guard: how many of those of one tracker pass.\<close>

fun passed :: "(int \<Rightarrow> throttled_request \<Rightarrow> hits \<Rightarrow> unit result \<times> hits) \<Rightarrow> (int \<times> throttled_request) list \<Rightarrow> hits \<Rightarrow> nat" where
  "passed guard [] hits = 0"
| "passed guard ((t, req) # rs) hits =
     (case guard t req hits of (r, hits') \<Rightarrow> (if r = Inr () then 1 else 0) + passed guard rs hits')"

lemma passed_auth:
  "\<forall>(t, req) \<in> set rs. auth_getTracker req = k \<Longrightarrow>
     passed auth_canActivate rs hits = auth_throttle.admitted k (map fst rs) hits"
  by (induction rs arbitrary: hits) (auto simp: auth_canActivate_def split_def Let_def split: prod.splits)

lemma passed_wallet:
  "\<forall>(t, req) \<in> set rs. wallet_getTracker req = k \<Longrightarrow>
     passed wallet_canActivate rs hits = wallet_throttle.admitted k (map fst rs) hits"
  by (induction rs arbitrary: hits) (auto simp: wallet_canActivate_def split_def Let_def split: prod.splits)

section \<open>Properties\<close>

text \<open>The wallet throttlers bound bursts: of the requests of one tracker in any 60 seconds, at
  most 10 pass \<open>POST /auth/verify\<close> and at most 20 \<open>POST /transactions/submit\<close>, twice the limit of
  a window.\<close>

theorem throttle_bound:
  assumes "sorted (map fst rs)" and "\<forall>(t, req) \<in> set rs. t0 \<le> t \<and> t < t0 + 60000"
  shows "((\<forall>(t, req) \<in> set rs. auth_getTracker req = k) \<longrightarrow> passed auth_canActivate rs hits \<le> 10) \<and>
         ((\<forall>(t, req) \<in> set rs. wallet_getTracker req = k) \<longrightarrow> passed wallet_canActivate rs hits \<le> 20)"
proof -
  have b: "\<forall>t \<in> set (map fst rs). t0 \<le> t \<and> t < t0 + 60000" using assms(2) by auto
  show ?thesis
    using passed_auth passed_wallet auth_throttle.admitted_window [OF assms(1) b, of k hits]
      wallet_throttle.admitted_window [OF assms(1) b, of k hits] by auto
qed

text \<open>The bound is reached: ten requests pass within two milliseconds around the end of a window.\<close>

definition demo_request :: throttled_request where
  "demo_request = \<lparr>tq_body_wallet = Some ''GA'', tq_user_wallet = None, tq_ip = Some ''10.0.0.1'', tq_forwarded = None\<rparr>"

lemma throttle_burst:
  "passed auth_canActivate (replicate 5 (60000, demo_request) @ replicate 5 (60001, demo_request)) [''wallet:GA'' \<mapsto> (0, 60000)] = 10"
  by (simp add: eval_nat_numeral auth_canActivate_def window_attempt_def auth_getTracker_def client_tracker_def
      demo_request_def Let_def)

theorem throttle_bound_witness:
  "passed auth_canActivate (replicate 20 (5, demo_request)) Map.empty \<le> 10"
  using throttle_bound [of "replicate 20 (5, demo_request)" 0 "''wallet:GA''" Map.empty]
  by (simp add: map_replicate sorted_replicate auth_getTracker_def client_tracker_def demo_request_def)

end
