(* ===== verification/ApiKeys.thy ===== *)
theory ApiKeys imports Schema CacheStore RateLimit begin

text \<open>
  API keys: the guard (\<open>auth/guards/api-key.guard.ts\<close>) with its record, negative, rate and
  last-use caches, and the three operations of the vendors service on keys
  (\<open>modules/vendors/vendors.service.ts\<close>, \<open>createApiKey\<close> to \<open>revokeApiKey\<close>).
\<close>

record ApiKeyRecord =
  ky_pk :: string
  ky_vendor :: string
  ky_name :: string
  ky_prefix :: string
  ky_hash :: string
  ky_permissions :: "string list"
  ky_active :: bool
  ky_last_used :: "int option"
  ky_expires :: "int option"
  ky_created :: int
  ky_updated :: int

text \<open>The vendor rows a key operation looks at: id and wallet.\<close>

type_synonym vendor_wallets = "(string \<times> string option) list"

text \<open>One cache, its keys told apart by their prefix.\<close>

record key_state =
  ks_rows :: "ApiKeyRecord list"
  ks_record :: "(string, ApiKeyRecord) cache"
  ks_negative :: "(string, bool) cache"
  ks_rate :: "(string, nat) cache"
  ks_ip :: "(string, nat) cache"
  ks_used :: "(string, bool) cache"

text \<open>
  \<open>ke_unit\<close> is how many milliseconds one unit of a time-to-live lasts in the cache; \<open>ke_down op\<close>
  tells which cache calls throw.
\<close>

record key_env =
  ke_now :: int
  ke_unit :: int
  ke_faults :: faults
  ke_down :: "string \<Rightarrow> bool"
  ke_sha256 :: "string \<Rightarrow> string"
  ke_random :: string
  ke_pk :: string

definition API_KEY_CACHE_TTL_SECONDS :: int where "API_KEY_CACHE_TTL_SECONDS = 60"
definition API_KEY_LAST_USED_TTL_SECONDS :: int where "API_KEY_LAST_USED_TTL_SECONDS = 300"
definition API_KEY_RATE_LIMIT_WINDOW_SECONDS :: int where "API_KEY_RATE_LIMIT_WINDOW_SECONDS = 60"
definition API_KEY_RATE_LIMIT_MAX_REQUESTS :: nat where "API_KEY_RATE_LIMIT_MAX_REQUESTS = 60"
definition API_KEY_NEGATIVE_CACHE_TTL_SECONDS :: int where "API_KEY_NEGATIVE_CACHE_TTL_SECONDS = 30"
definition API_KEY_IP_RATE_LIMIT_WINDOW_SECONDS :: int where "API_KEY_IP_RATE_LIMIT_WINDOW_SECONDS = 60"
definition API_KEY_IP_RATE_LIMIT_MAX_REQUESTS :: nat where "API_KEY_IP_RATE_LIMIT_MAX_REQUESTS = 30"

abbreviation key_unauthorized :: exn where "key_unauthorized \<equiv> unauthorized ''API_KEY_UNAUTHORIZED''"
abbreviation key_rate_limited :: exn where "key_rate_limited \<equiv> too_many_requests ''API_KEY_RATE_LIMITED''"

section \<open>Counters\<close>

definition counter_count :: "string \<Rightarrow> (string, nat) cache \<Rightarrow> nat" where
  "counter_count k c = (case c k of Some (n, _) \<Rightarrow> n | None \<Rightarrow> 0)"

definition counter_live :: "int \<Rightarrow> string \<Rightarrow> (string, nat) cache \<Rightarrow> bool" where
  "counter_live now k c \<longleftrightarrow> cache_get now c k \<noteq> None"

text \<open>Read the counter, refuse at the limit, else store it back one higher for a full window.\<close>

definition counter_attempt :: "nat \<Rightarrow> int \<Rightarrow> int \<Rightarrow> string \<Rightarrow> (string, nat) cache \<Rightarrow> bool \<times> (string, nat) cache" where
  "counter_attempt limit ttl now k c =
     (let current = (case cache_get now c k of Some n \<Rightarrow> n | None \<Rightarrow> 0)
      in if limit \<le> current then (False, c) else (True, cache_set now ttl k (current + 1) c))"

lemma counter_limiter: "0 < limit \<Longrightarrow> rate_limiter (counter_attempt limit ttl) counter_live counter_count limit ttl"
  by unfold_locales
    (auto simp: counter_attempt_def counter_live_def counter_count_def cache_get_def cache_set_def Let_def
      split: option.splits prod.splits if_splits)

definition enforce :: "key_env \<Rightarrow> string \<Rightarrow> nat \<Rightarrow> int \<Rightarrow> string \<Rightarrow> (string, nat) cache \<Rightarrow> unit result \<times> (string, nat) cache" where
  "enforce env which limit ttl k c =
     (if ke_down env (which @ ''.get'') then (Inr (), c)
      else case counter_attempt limit (ttl * ke_unit env) (ke_now env) k c of
             (False, _) \<Rightarrow> (Inl key_rate_limited, c)
           | (True, c') \<Rightarrow> (Inr (), if ke_down env (which @ ''.set'') then c else c'))"

definition enforceRateLimit :: "key_env \<Rightarrow> string \<Rightarrow> key_state \<Rightarrow> unit result \<times> key_state" where
  "enforceRateLimit env keyId st =
     (let (r, c) = enforce env ''rate'' API_KEY_RATE_LIMIT_MAX_REQUESTS API_KEY_RATE_LIMIT_WINDOW_SECONDS keyId (ks_rate st)
      in (r, st\<lparr>ks_rate := c\<rparr>))"

definition enforceIpRateLimit :: "key_env \<Rightarrow> string \<Rightarrow> key_state \<Rightarrow> unit result \<times> key_state" where
  "enforceIpRateLimit env ip st =
     (if ip = [] \<or> ip = ''unknown'' then (Inr (), st)
      else let (r, c) = enforce env ''ip'' API_KEY_IP_RATE_LIMIT_MAX_REQUESTS API_KEY_IP_RATE_LIMIT_WINDOW_SECONDS ip (ks_ip st)
           in (r, st\<lparr>ks_ip := c\<rparr>))"

section \<open>The guard\<close>

datatype header = NoHeader | OneHeader string | ManyHeaders "string list"

record key_request =
  kq_key :: header
  kq_forwarded :: header
  kq_ip :: "string option"

definition first_address :: "string \<Rightarrow> string" where
  "first_address s = trim (hd (split_on (CHR '','') s))"

definition getClientIp :: "key_request \<Rightarrow> string" where
  "getClientIp req =
     (let direct = (case kq_ip req of Some (c # cs) \<Rightarrow> c # cs | _ \<Rightarrow> ''unknown'')
      in case kq_forwarded req of
           OneHeader s \<Rightarrow> if s \<noteq> [] then first_address s else direct
         | ManyHeaders (s # _) \<Rightarrow> first_address s
         | _ \<Rightarrow> direct)"

text \<open>Not awaited and never fails the request.\<close>

definition maybeUpdateLastUsed :: "key_env \<Rightarrow> string \<Rightarrow> key_state \<Rightarrow> key_state" where
  "maybeUpdateLastUsed env keyId st =
     (if ke_down env ''used.get'' \<or> cache_get (ke_now env) (ks_used st) keyId \<noteq> None then st
      else
        let st1 = (case ke_faults env ''api_keys.touch'' of
                     Some _ \<Rightarrow> st
                   | None \<Rightarrow> st\<lparr>ks_rows := update_where (\<lambda>k. ky_pk k = keyId) (\<lambda>k. k\<lparr>ky_last_used := Some (ke_now env), ky_updated := ke_now env\<rparr>) (ks_rows st)\<rparr>)
        in if ke_down env ''used.set'' then st1
           else st1\<lparr>ks_used := cache_set (ke_now env) (API_KEY_LAST_USED_TTL_SECONDS * ke_unit env) keyId True (ks_used st1)\<rparr>)"

definition remember_key :: "key_env \<Rightarrow> string \<Rightarrow> ApiKeyRecord \<Rightarrow> key_state \<Rightarrow> key_state" where
  "remember_key env h key st =
     (if ke_down env ''record.check'' \<or> cache_get (ke_now env) (ks_record st) h \<noteq> None \<or> ke_down env ''record.set'' then st
      else st\<lparr>ks_record := cache_set (ke_now env) (API_KEY_CACHE_TTL_SECONDS * ke_unit env) h key (ks_record st)\<rparr>)"

text \<open>From the record on: state and expiry, the cache, the rate, the permissions.\<close>

definition admit_key :: "key_env \<Rightarrow> string list \<Rightarrow> string \<Rightarrow> ApiKeyRecord \<Rightarrow> key_state \<Rightarrow> ApiKeyRecord result \<times> key_state" where
  "admit_key env required h key st =
     (if \<not> ky_active key then (Inl key_unauthorized, st)
      else if (case ky_expires key of Some e \<Rightarrow> e < ke_now env | None \<Rightarrow> False) then (Inl key_unauthorized, st)
      else case enforceRateLimit env (ky_pk key) (remember_key env h key st) of
        (Inl e, st1) \<Rightarrow> (Inl e, st1)
      | (Inr _, st1) \<Rightarrow>
          if required \<noteq> [] \<and> (\<forall>p \<in> set required. p \<notin> set (ky_permissions key))
          then (Inl (forbidden ''API_KEY_INSUFFICIENT_PERMISSIONS''), st1)
          else (Inr key, maybeUpdateLastUsed env (ky_pk key) st1))"

definition load_key :: "key_env \<Rightarrow> string \<Rightarrow> key_state \<Rightarrow> ApiKeyRecord result \<times> key_state" where
  "load_key env h st =
     (case with_fault (ke_faults env ''api_keys.select'') (single (filter (\<lambda>k. ky_hash k = h) (ks_rows st))) of
        Inl _ \<Rightarrow>
          (Inl key_unauthorized,
           if ke_down env ''negative.set'' then st
           else st\<lparr>ks_negative := cache_set (ke_now env) (API_KEY_NEGATIVE_CACHE_TTL_SECONDS * ke_unit env) h True (ks_negative st)\<rparr>)
      | Inr key \<Rightarrow> (Inr key, st))"

definition count_and_load :: "key_env \<Rightarrow> string \<Rightarrow> string \<Rightarrow> key_state \<Rightarrow> ApiKeyRecord result \<times> key_state" where
  "count_and_load env ip h st =
     (case enforceIpRateLimit env ip st of (Inl e, st1) \<Rightarrow> (Inl e, st1) | (Inr _, st1) \<Rightarrow> load_key env h st1)"

text \<open>
  The lookup of an unknown record. A negative hit counts against the address and is refused; when
  that count is exhausted its 429 is caught on the spot, and the second count answers instead.
\<close>

definition find_key :: "key_env \<Rightarrow> string \<Rightarrow> string \<Rightarrow> key_state \<Rightarrow> ApiKeyRecord result \<times> key_state" where
  "find_key env ip h st =
     (if \<not> ke_down env ''negative.get'' \<and> cache_get (ke_now env) (ks_negative st) h = Some True
      then (case enforceIpRateLimit env ip st of
              (Inr _, st1) \<Rightarrow> (Inl key_unauthorized, st1)
            | (Inl _, st1) \<Rightarrow> count_and_load env ip h st1)
      else count_and_load env ip h st)"

definition canActivate :: "key_env \<Rightarrow> string list \<Rightarrow> key_request \<Rightarrow> key_state \<Rightarrow> ApiKeyRecord result \<times> key_state" where
  "canActivate env required req st =
     (let ip = getClientIp req
      in case kq_key req of
           OneHeader (c # cs) \<Rightarrow>
             let h = ke_sha256 env (c # cs);
                 cached = (if ke_down env ''record.get'' then None else cache_get (ke_now env) (ks_record st) h)
             in (case cached of
                   Some key \<Rightarrow> admit_key env required h key st
                 | None \<Rightarrow> (case find_key env ip h st of
                     (Inl e, st1) \<Rightarrow> (Inl e, st1)
                   | (Inr key, st1) \<Rightarrow> admit_key env required h key st1))
         | _ \<Rightarrow> (case enforceIpRateLimit env ip st of
                   (Inl e, st1) \<Rightarrow> (Inl e, st1) | (Inr _, st1) \<Rightarrow> (Inl key_unauthorized, st1)))"

section \<open>Managing keys\<close>

definition findVendorByWallet :: "key_env \<Rightarrow> string \<Rightarrow> vendor_wallets \<Rightarrow> string option result" where
  "findVendorByWallet env w vs =
     (case with_fault (ke_faults env ''vendors.find'') (single (filter (\<lambda>v. snd v = Some w) vs)) of
        Inr v \<Rightarrow> Inr (Some (fst v))
      | Inl e \<Rightarrow> if err_code e = ''PGRST116'' then Inr None else Inl (internal_error ''DATABASE_QUERY_ERROR''))"

definition requireVendor :: "key_env \<Rightarrow> string \<Rightarrow> vendor_wallets \<Rightarrow> string result" where
  "requireVendor env w vs =
     andThen (findVendorByWallet env w vs)
       (\<lambda>v. case v of None \<Rightarrow> Inl (not_found ''VENDOR_NOT_FOUND'') | Some i \<Rightarrow> Inr i)"

text \<open>What a vendor sees of its keys: all but the hash.\<close>

record ApiKeyResponse =
  kr_pk :: string
  kr_vendor :: string
  kr_name :: string
  kr_prefix :: string
  kr_permissions :: "string list"
  kr_active :: bool
  kr_last_used :: "int option"
  kr_expires :: "int option"
  kr_created :: int
  kr_updated :: int

definition mapApiKeyToDto :: "ApiKeyRecord \<Rightarrow> ApiKeyResponse" where
  "mapApiKeyToDto k =
     \<lparr>kr_pk = ky_pk k, kr_vendor = ky_vendor k, kr_name = ky_name k, kr_prefix = ky_prefix k, kr_permissions = ky_permissions k,
      kr_active = ky_active k, kr_last_used = ky_last_used k, kr_expires = ky_expires k, kr_created = ky_created k,
      kr_updated = ky_updated k\<rparr>"

record CreateApiKey =
  ck_name :: string
  ck_permissions :: "string list"
  ck_expiresAt :: "int option"

definition createApiKey ::
  "key_env \<Rightarrow> string \<Rightarrow> CreateApiKey \<Rightarrow> vendor_wallets \<Rightarrow> key_state \<Rightarrow> (ApiKeyResponse \<times> string) result \<times> key_state" where
  "createApiKey env w dto vs st =
     (case requireVendor env w vs of
        Inl e \<Rightarrow> (Inl e, st)
      | Inr v \<Rightarrow>
          let raw = ''sfi_'' @ ke_random env;
              key = \<lparr>ky_pk = ke_pk env, ky_vendor = v, ky_name = ck_name dto, ky_prefix = take 8 raw,
                     ky_hash = ke_sha256 env raw, ky_permissions = ck_permissions dto, ky_active = True,
                     ky_last_used = None, ky_expires = ck_expiresAt dto, ky_created = ke_now env, ky_updated = ke_now env\<rparr>
          in case with_fault (ke_faults env ''api_keys.insert'')
                    (insert_unique (\<lambda>a b. ky_hash a = ky_hash b) key (ks_rows st)) of
               Inl _ \<Rightarrow> (Inl (internal_error ''DATABASE_API_KEY_CREATE_FAILED''), st)
             | Inr rows \<Rightarrow> (Inr (mapApiKeyToDto key, raw), st\<lparr>ks_rows := rows\<rparr>))"

definition listApiKeys :: "key_env \<Rightarrow> string \<Rightarrow> vendor_wallets \<Rightarrow> key_state \<Rightarrow> ApiKeyResponse list result" where
  "listApiKeys env w vs st =
     andThen (requireVendor env w vs) (\<lambda>v.
       case ke_faults env ''api_keys.list'' of
         Some _ \<Rightarrow> Inl (internal_error ''DATABASE_QUERY_ERROR'')
       | None \<Rightarrow> Inr (map mapApiKeyToDto (sort_key (\<lambda>k. - ky_created k) (filter (\<lambda>k. ky_vendor k = v) (ks_rows st)))))"

definition revokeApiKey :: "key_env \<Rightarrow> string \<Rightarrow> string \<Rightarrow> vendor_wallets \<Rightarrow> key_state \<Rightarrow> unit result \<times> key_state" where
  "revokeApiKey env w keyId vs st =
     (case requireVendor env w vs of
        Inl e \<Rightarrow> (Inl e, st)
      | Inr v \<Rightarrow>
          (case with_fault (ke_faults env ''api_keys.find'')
                  (single (filter (\<lambda>k. ky_pk k = keyId \<and> ky_vendor k = v) (ks_rows st))) of
             Inl _ \<Rightarrow> (Inl (not_found ''API_KEY_NOT_FOUND''), st)
           | Inr key \<Rightarrow>
               (case ke_faults env ''api_keys.revoke'' of
                  Some _ \<Rightarrow> (Inl (internal_error ''DATABASE_API_KEY_REVOKE_FAILED''), st)
                | None \<Rightarrow>
                    let st1 = st\<lparr>ks_rows := update_where (\<lambda>k. ky_pk k = keyId)
                                       (\<lambda>k. k\<lparr>ky_active := False, ky_updated := ke_now env\<rparr>) (ks_rows st)\<rparr>;
                        st2 = (if ky_hash key = [] then st1 else st1\<lparr>ks_record := cache_del (ky_hash key) (ks_record st1)\<rparr>);
                        st3 = st2\<lparr>ks_rate := cache_del keyId (ks_rate st2)\<rparr>;
                        st4 = st3\<lparr>ks_used := cache_del keyId (ks_used st3)\<rparr>
                    in (Inr (), if ky_hash key \<noteq> [] \<and> ke_down env ''record.del'' then st1
                                else if ke_down env ''rate.del'' then st2
                                else if ke_down env ''used.del'' then st3 else st4))))"

section \<open>What the steps do\<close>

text \<open>Counting and looking up touch neither the rows nor the cached records.\<close>

definition same_keys :: "key_state \<Rightarrow> key_state \<Rightarrow> bool" where
  "same_keys st st' \<longleftrightarrow> ks_rows st' = ks_rows st \<and> ks_record st' = ks_record st"

lemma same_keys_trans: "same_keys a b \<Longrightarrow> same_keys b c \<Longrightarrow> same_keys a c"
  by (simp add: same_keys_def)

lemma enforceRate_same: "same_keys st (snd (enforceRateLimit env i st))"
  by (simp add: enforceRateLimit_def split_def Let_def same_keys_def)

lemma enforceIp_same: "same_keys st (snd (enforceIpRateLimit env ip st))"
  by (simp add: enforceIpRateLimit_def split_def Let_def same_keys_def)

lemma load_key_same: "same_keys st (snd (load_key env h st))"
  by (simp add: load_key_def same_keys_def split: sum.splits)

lemma count_and_load_same: "same_keys st (snd (count_and_load env ip h st))"
  using enforceIp_same [of st env ip] load_key_same same_keys_trans
  by (cases "enforceIpRateLimit env ip st"; cases "fst (enforceIpRateLimit env ip st)") (auto simp: count_and_load_def)

lemma find_key_same: "same_keys st (snd (find_key env ip h st))"
  using enforceIp_same [of st env ip] count_and_load_same same_keys_trans
  by (cases "enforceIpRateLimit env ip st"; cases "fst (enforceIpRateLimit env ip st)") (auto simp: find_key_def)

lemma load_key_Inr: "fst (load_key env h st) = Inr key \<Longrightarrow> key \<in> set (ks_rows st) \<and> ky_hash key = h"
  by (auto simp: load_key_def table_simps split: sum.splits dest: filter_eq_ConsD)

lemma count_and_load_Inr: "fst (count_and_load env ip h st) = Inr key \<Longrightarrow> key \<in> set (ks_rows st) \<and> ky_hash key = h"
  using enforceIp_same [of st env ip]
  by (cases "enforceIpRateLimit env ip st"; cases "fst (enforceIpRateLimit env ip st)")
    (auto simp: count_and_load_def same_keys_def dest!: load_key_Inr)

lemma find_key_Inr: "fst (find_key env ip h st) = Inr key \<Longrightarrow> key \<in> set (ks_rows st) \<and> ky_hash key = h"
  using enforceIp_same [of st env ip]
  by (cases "enforceIpRateLimit env ip st"; cases "fst (enforceIpRateLimit env ip st)")
    (auto simp: find_key_def same_keys_def dest!: count_and_load_Inr split: if_splits)

definition key_expired :: "int \<Rightarrow> ApiKeyRecord \<Rightarrow> bool" where
  "key_expired now key \<longleftrightarrow> (\<exists>e. ky_expires key = Some e \<and> e < now)"

lemma admit_key_Inr:
  "fst (admit_key env required h key st) = Inr k \<Longrightarrow>
     k = key \<and> ky_active key \<and> \<not> key_expired (ke_now env) key \<and>
     (required = [] \<or> (\<exists>p \<in> set required. p \<in> set (ky_permissions key)))"
  by (auto simp: admit_key_def key_expired_def split: if_splits prod.splits sum.splits option.splits)

lemma touch_record: "ks_record (maybeUpdateLastUsed env i st) = ks_record st"
  by (simp add: maybeUpdateLastUsed_def Let_def split: option.splits)

lemma touch_rows: "map (\<lambda>k. (ky_hash k, ky_active k)) (ks_rows (maybeUpdateLastUsed env i st)) = map (\<lambda>k. (ky_hash k, ky_active k)) (ks_rows st)"
  by (auto simp: maybeUpdateLastUsed_def Let_def map_update_where_frame split: option.splits)

text \<open>Admission stores at most the record it admits, under the hash it came with.\<close>

lemma admit_key_effect:
  "(ks_record (snd (admit_key env required h key st)) = ks_record st \<or>
    ky_active key \<and> \<not> key_expired (ke_now env) key \<and>
    ks_record (snd (admit_key env required h key st)) =
      cache_set (ke_now env) (API_KEY_CACHE_TTL_SECONDS * ke_unit env) h key (ks_record st)) \<and>
   map (\<lambda>k. (ky_hash k, ky_active k)) (ks_rows (snd (admit_key env required h key st))) =
   map (\<lambda>k. (ky_hash k, ky_active k)) (ks_rows st)"
proof -
  have r: "ks_record (remember_key env h key st) = ks_record st \<or>
      ks_record (remember_key env h key st) = cache_set (ke_now env) (API_KEY_CACHE_TTL_SECONDS * ke_unit env) h key (ks_record st)"
    "ks_rows (remember_key env h key st) = ks_rows st" by (auto simp: remember_key_def)
  from enforceRate_same [of "remember_key env h key st" env "ky_pk key"] r show ?thesis
    by (cases "enforceRateLimit env (ky_pk key) (remember_key env h key st)")
      (auto simp: admit_key_def same_keys_def key_expired_def touch_record touch_rows split: sum.splits option.splits)
qed

text \<open>A hash is dead when no row with it is active and no record is cached for it.\<close>

definition key_dead :: "string \<Rightarrow> key_state \<Rightarrow> bool" where
  "key_dead h st \<longleftrightarrow> ks_record st h = None \<and> (\<forall>k \<in> set (ks_rows st). ky_hash k = h \<longrightarrow> \<not> ky_active k)"

lemma key_dead_same: "same_keys st st' \<Longrightarrow> key_dead h st' = key_dead h st"
  by (simp add: same_keys_def key_dead_def)

lemma dead_rows_cong:
  assumes "map (\<lambda>k. (ky_hash k, ky_active k)) rows' = map (\<lambda>k. (ky_hash k, ky_active k)) rows"
  shows "(\<forall>k \<in> set rows'. ky_hash k = h \<longrightarrow> \<not> ky_active k) \<longleftrightarrow> (\<forall>k \<in> set rows. ky_hash k = h \<longrightarrow> \<not> ky_active k)"
proof -
  have e: "(\<forall>k \<in> set rows. ky_hash k = h \<longrightarrow> \<not> ky_active k) \<longleftrightarrow> (h, True) \<notin> set (map (\<lambda>k. (ky_hash k, ky_active k)) rows)" for rows
    by (induction rows) auto
  show ?thesis unfolding e assms ..
qed

lemma dead_admit:
  assumes "key_dead h st" and "ky_hash key = h' \<and> key \<in> set (ks_rows st) \<or> ks_record st h' \<noteq> None"
  shows "key_dead h (snd (admit_key env required h' key st))"
proof -
  note e = admit_key_effect [of env required h' key st]
  have n: "ks_record st h = None" using assms(1) by (simp add: key_dead_def)
  have d: "h' \<noteq> h" if "ky_active key"
  proof
    assume "h' = h"
    with assms(2) n that assms(1) show False by (simp add: key_dead_def)
  qed
  from conjunct1 [OF e] have "ks_record (snd (admit_key env required h' key st)) h = None"
  proof (elim disjE conjE)
    assume a: "ky_active key" and r: "ks_record (snd (admit_key env required h' key st)) =
      cache_set (ke_now env) (API_KEY_CACHE_TTL_SECONDS * ke_unit env) h' key (ks_record st)"
    show ?thesis unfolding r using d [OF a] n by (simp add: cache_set_def)
  qed (simp add: n)
  moreover have "\<forall>k \<in> set (ks_rows (snd (admit_key env required h' key st))). ky_hash k = h \<longrightarrow> \<not> ky_active k"
    using dead_rows_cong [OF conjunct2 [OF e], of h] assms(1) unfolding key_dead_def by blast
  ultimately show ?thesis unfolding key_dead_def by blast
qed

lemma canActivate_cases:
  obtains (refused) e st1 where "canActivate env required req st = (Inl e, st1)" "same_keys st st1"
  | (admitted) c cs key st1 where "kq_key req = OneHeader (c # cs)"
      "canActivate env required req st = admit_key env required (ke_sha256 env (c # cs)) key st1" "same_keys st st1"
      "ky_hash key = ke_sha256 env (c # cs) \<and> key \<in> set (ks_rows st) \<or>
       cache_get (ke_now env) (ks_record st) (ke_sha256 env (c # cs)) = Some key"
proof (cases "\<exists>c cs. kq_key req = OneHeader (c # cs)")
  case False
  have "canActivate env required req st = (case enforceIpRateLimit env (getClientIp req) st of
      (Inl e, st1) \<Rightarrow> (Inl e, st1) | (Inr _, st1) \<Rightarrow> (Inl key_unauthorized, st1))"
    using False by (auto simp: canActivate_def Let_def split: header.splits list.splits)
  then show ?thesis
    using refused enforceIp_same [of st env "getClientIp req"]
    by (cases "enforceIpRateLimit env (getClientIp req) st"; cases "fst (enforceIpRateLimit env (getClientIp req) st)") auto
next
  case True
  then obtain c cs where k: "kq_key req = OneHeader (c # cs)" by blast
  define h where "h = ke_sha256 env (c # cs)"
  have top: "canActivate env required req st =
      (case (if ke_down env ''record.get'' then None else cache_get (ke_now env) (ks_record st) h) of
         Some key \<Rightarrow> admit_key env required h key st
       | None \<Rightarrow> (case find_key env (getClientIp req) h st of
           (Inl e, st1) \<Rightarrow> (Inl e, st1) | (Inr key, st1) \<Rightarrow> admit_key env required h key st1))"
    unfolding h_def canActivate_def Let_def by (simp add: k)
  show ?thesis
  proof (cases "if ke_down env ''record.get'' then None else cache_get (ke_now env) (ks_record st) h")
    case (Some key)
    then have "cache_get (ke_now env) (ks_record st) h = Some key" by (simp split: if_splits)
    moreover have "canActivate env required req st = admit_key env required h key st"
      unfolding top Some by simp
    ultimately show ?thesis using admitted [OF k, of key st] by (simp add: h_def same_keys_def)
  next
    case None
    obtain r st1 where f: "find_key env (getClientIp req) h st = (r, st1)" by fastforce
    with find_key_same [of st env "getClientIp req" h] have s: "same_keys st st1" by simp
    have e: "canActivate env required req st = (case r of Inl e \<Rightarrow> (Inl e, st1) | Inr key \<Rightarrow> admit_key env required h key st1)"
      unfolding top None by (simp add: f)
    show ?thesis
    proof (cases r)
      case (Inl x)
      with e s show ?thesis using refused by simp
    next
      case (Inr key)
      with find_key_Inr [of env "getClientIp req" h st key] f have "key \<in> set (ks_rows st) \<and> ky_hash key = h" by simp
      with Inr e s show ?thesis using admitted [OF k, of key st1] by (simp add: h_def)
    qed
  qed
qed

lemma dead_canActivate: "key_dead h st \<Longrightarrow> key_dead h (snd (canActivate env required req st))"
proof (cases rule: canActivate_cases [of env required req st])
  case (refused e st1)
  then show "key_dead h st \<Longrightarrow> ?thesis" by (simp add: key_dead_same)
next
  case (admitted c cs key st1)
  assume d: "key_dead h st"
  have "ky_hash key = ke_sha256 env (c # cs) \<and> key \<in> set (ks_rows st1) \<or> ks_record st1 (ke_sha256 env (c # cs)) \<noteq> None"
    using admitted(3,4) by (auto simp: same_keys_def cache_get_def split: option.splits)
  with dead_admit [of h st1] d admitted(2,3) show ?thesis by (simp add: key_dead_same)
qed

lemma dead_refused:
  assumes "key_dead (ke_sha256 env raw) st" and "kq_key req = OneHeader raw"
  shows "\<exists>e. fst (canActivate env required req st) = Inl e"
proof (cases rule: canActivate_cases [of env required req st])
  case (admitted c cs key st1)
  then have "\<not> ky_active key" using assms by (auto simp: key_dead_def cache_get_def)
  then show ?thesis using admitted(2) by (simp add: admit_key_def)
qed simp

lemma dead_requests: "key_dead h st \<Longrightarrow> key_dead h (fold (\<lambda>(env, req, required) st. snd (canActivate env required req st)) reqs st)"
  by (induction reqs arbitrary: st) (auto simp: dead_canActivate split: prod.splits)

lemma revoke_dead:
  assumes "revokeApiKey env w i vs st = (Inr (), st')" and "distinct (map ky_hash (ks_rows st))" and "\<not> ke_down env ''record.del''"
  shows "\<exists>key \<in> set (ks_rows st). ky_pk key = i \<and> (ky_hash key \<noteq> [] \<longrightarrow> key_dead (ky_hash key) st')"
proof -
  from assms(1) obtain v key where f: "filter (\<lambda>k. ky_pk k = i \<and> ky_vendor k = v) (ks_rows st) = [key]"
    and rows: "ks_rows st' = update_where (\<lambda>k. ky_pk k = i) (\<lambda>k. k\<lparr>ky_active := False, ky_updated := ke_now env\<rparr>) (ks_rows st)"
    and c: "ky_hash key \<noteq> [] \<longrightarrow> ks_record st' = cache_del (ky_hash key) (ks_record st)"
    using assms(3) by (auto simp: revokeApiKey_def Let_def table_simps split: sum.splits option.splits if_splits)
  from filter_eq_ConsD [OF f] have key: "key \<in> set (ks_rows st)" "ky_pk key = i" by auto
  have "\<not> ky_active k'" if "k' \<in> set (ks_rows st')" "ky_hash k' = ky_hash key" for k'
  proof -
    from that(1) rows obtain k where k: "k \<in> set (ks_rows st)" "k' = (if ky_pk k = i then k\<lparr>ky_active := False, ky_updated := ke_now env\<rparr> else k)"
      by (auto simp: set_update_where)
    with that(2) key(1) assms(2) have "k = key" by (auto simp: distinct_map inj_on_def split: if_splits)
    with k key show ?thesis by simp
  qed
  with key c show ?thesis by (auto simp: key_dead_def cache_del_def)
qed

section \<open>Properties\<close>

text \<open>C27: The guard admits only live keys: the header carried a text with the hash of the record it
  answers with, the record is active and not expired, grants one of the required permissions,
  and comes from the table or from a cache entry stored less than a time-to-live ago.\<close>

theorem api_key_admits:
  assumes "canActivate env required req st = (Inr key, st')" and "mgr.satisfies (\<lambda>h k. ky_hash k = h) (ke_now env) (ks_record st)"
  shows "(\<exists>raw. kq_key req = OneHeader raw \<and> raw \<noteq> [] \<and> ky_hash key = ke_sha256 env raw) \<and>
    ky_active key \<and> \<not> key_expired (ke_now env) key \<and>
    (required = [] \<or> (\<exists>p \<in> set required. p \<in> set (ky_permissions key))) \<and>
    (key \<in> set (ks_rows st) \<or> cache_get (ke_now env) (ks_record st) (ky_hash key) = Some key) \<and>
    mgr.satisfies (\<lambda>h k. ky_hash k = h) (ke_now env) (ks_record st')"
proof (cases rule: canActivate_cases [of env required req st])
  case (refused e st1)
  with assms(1) show ?thesis by simp
next
  case (admitted c cs k st1)
  have a: "admit_key env required (ke_sha256 env (c # cs)) k st1 = (Inr key, st')" using admitted(2) assms(1) by simp
  have hk: "ky_hash k = ke_sha256 env (c # cs)" using admitted(4) mgr.satisfies_get [OF assms(2)] by blast
  have "mgr.satisfies (\<lambda>h k. ky_hash k = h) (ke_now env) (ks_record st')"
    using admit_key_effect [of env required "ke_sha256 env (c # cs)" k st1] a assms(2) admitted(3) hk
    by (auto simp: same_keys_def mgr.satisfies_set)
  with admit_key_Inr [of env required "ke_sha256 env (c # cs)" k st1 key] a admitted(1,4) hk show ?thesis by auto
qed

text \<open>A revoked key stays refused: once \<open>revokeApiKey\<close> has succeeded, with its cache delete, no
  sequence of complete requests, whatever their keys and times, makes the guard admit it again.\<close>

theorem revoked_key_refused:
  assumes "revokeApiKey env w i vs st = (Inr (), st')" and "distinct (map ky_hash (ks_rows st))" and "\<not> ke_down env ''record.del''"
    and "\<forall>key \<in> set (ks_rows st). ky_pk key = i \<longrightarrow> ky_hash key = ke_sha256 env' raw" and "ke_sha256 env' raw \<noteq> []"
    and "kq_key req = OneHeader raw"
  shows "\<exists>e. fst (canActivate env' required req
    (fold (\<lambda>(env, req, required) st. snd (canActivate env required req st)) reqs st')) = Inl e"
proof -
  from revoke_dead [OF assms(1-3)] assms(4,5) have "key_dead (ke_sha256 env' raw) st'" by auto
  then show ?thesis using dead_refused [OF dead_requests assms(6)] by blast
qed

text \<open>C36: A created key works: the text shown once to the vendor is admitted by the guard of a request that
  needs one of its permissions, as long as it has not expired, the database answers and the
  address of the client is within its limit; what the vendor is shown of the key names it.\<close>

theorem created_key_admitted:
  assumes "createApiKey env w dto vs st = (Inr (shown, raw), st')"
    and "kq_key req = OneHeader raw" and "ke_sha256 env' = ke_sha256 env"
    and "required = [] \<or> (\<exists>p \<in> set required. p \<in> set (ck_permissions dto))"
    and "case ck_expiresAt dto of Some e \<Rightarrow> ke_now env' \<le> e | None \<Rightarrow> True"
    and "ke_faults env' ''api_keys.select'' = None" and "fst (enforceIpRateLimit env' (getClientIp req) st') = Inr ()"
    and "ks_record st (ke_sha256 env raw) = None" and "ks_negative st (ke_sha256 env raw) = None" and "ks_rate st (ke_pk env) = None"
  shows "\<exists>key. fst (canActivate env' required req st') = Inr key \<and> mapApiKeyToDto key = shown \<and> ky_hash key = ke_sha256 env raw \<and>
    kr_prefix shown = take 8 raw \<and> kr_pk shown = ke_pk env"
proof -
  from assms(1) obtain v key where k: "raw = ''sfi_'' @ ke_random env" "shown = mapApiKeyToDto key"
    and key: "key = \<lparr>ky_pk = ke_pk env, ky_vendor = v, ky_name = ck_name dto, ky_prefix = take 8 raw,
        ky_hash = ke_sha256 env raw, ky_permissions = ck_permissions dto, ky_active = True,
        ky_last_used = None, ky_expires = ck_expiresAt dto, ky_created = ke_now env, ky_updated = ke_now env\<rparr>"
    and new: "insert_unique (\<lambda>a b. ky_hash a = ky_hash b) key (ks_rows st) = Inr (ks_rows st')"
    and caches: "ks_record st' = ks_record st" "ks_negative st' = ks_negative st" "ks_rate st' = ks_rate st"
    by (auto simp: createApiKey_def Let_def with_fault_def split: sum.splits option.splits)
  from new have rows: "ks_rows st' = ks_rows st @ [key]" and fresh: "\<forall>k \<in> set (ks_rows st). ky_hash k \<noteq> ke_sha256 env raw"
    by (auto simp: insert_unique_def key split: if_splits)
  from fresh have one: "filter (\<lambda>k. ky_hash k = ke_sha256 env raw) (ks_rows st') = [key]"
    by (simp add: rows key filter_empty_conv)
  obtain st1 where ip: "enforceIpRateLimit env' (getClientIp req) st' = (Inr (), st1)"
    using assms(7) by (cases "enforceIpRateLimit env' (getClientIp req) st'") auto
  have same: "same_keys st' st1" using enforceIp_same [of st' env' "getClientIp req"] ip by simp
  have caches1: "ks_record st1 = ks_record st" "ks_negative st1 = ks_negative st" "ks_rate st1 = ks_rate st"
    using ip caches by (auto simp: enforceIpRateLimit_def split_def Let_def split: if_splits)
  have found: "find_key env' (getClientIp req) (ke_sha256 env raw) st' = (Inr key, st1)"
    using same one caches assms(6,9) ip
    by (simp add: find_key_def count_and_load_def load_key_def with_fault_def single_def same_keys_def cache_get_def)
  have admitted: "fst (admit_key env' required (ke_sha256 env raw) key st1) = Inr key"
  proof -
    have "ks_rate (remember_key env' (ke_sha256 env raw) key st1) (ky_pk key) = None"
      using caches1 assms(10) by (simp add: remember_key_def key)
    then have "fst (enforceRateLimit env' (ky_pk key) (remember_key env' (ke_sha256 env raw) key st1)) = Inr ()"
      by (simp add: enforceRateLimit_def enforce_def counter_attempt_def cache_get_def Let_def API_KEY_RATE_LIMIT_MAX_REQUESTS_def)
    moreover have "ky_active key" "\<not> (case ky_expires key of Some e \<Rightarrow> e < ke_now env' | None \<Rightarrow> False)"
      "\<not> (required \<noteq> [] \<and> (\<forall>p \<in> set required. p \<notin> set (ky_permissions key)))"
      using assms(4,5) by (auto simp: key split: option.splits)
    ultimately show ?thesis
      by (cases "enforceRateLimit env' (ky_pk key) (remember_key env' (ke_sha256 env raw) key st1)") (auto simp: admit_key_def)
  qed
  obtain c cs where raw: "raw = c # cs" using k(1) by simp
  have "canActivate env' required req st' = admit_key env' required (ke_sha256 env raw) key st1"
    using found caches assms(3,8) by (simp add: canActivate_def Let_def cache_get_def assms(2) raw)
  with admitted show ?thesis by (simp add: k(2)) (simp add: mapApiKeyToDto_def key)
qed

text \<open>A request in flight can bring a revoked key back: if the guard has read the row before the
  revocation and goes on after it, it caches the record as active, and the key is admitted from
  the cache until the entry expires.\<close>

theorem revocation_race:
  assumes "ky_active key" and "\<not> key_expired (ke_now env) key" and "ke_down env = (\<lambda>_. False)"
    and "cache_get (ke_now env) (ks_record st) h = None"
    and "h = ke_sha256 env' (c # cs)" and "kq_key req = OneHeader (c # cs)" and "ke_down env' = (\<lambda>_. False)"
    and "ke_now env' < ke_now env + 60 * ke_unit env" and "\<not> key_expired (ke_now env') key"
    and "counter_count (ky_pk key) (ks_rate st) < 59" and "0 < ke_unit env" and "ke_now env \<le> ke_now env'"
  shows "fst (canActivate env' [] req (snd (admit_key env [] h key st))) = Inr key"
proof -
  define st1 where "st1 = snd (admit_key env [] h key st)"
  have q: "counter_count (ky_pk key) (ks_rate st1) \<le> 59 \<and> ks_record st1 = cache_set (ke_now env) (60 * ke_unit env) h key (ks_record st)"
    using assms(1-4,10)
    by (auto simp: st1_def admit_key_def key_expired_def remember_key_def enforceRateLimit_def enforce_def counter_attempt_def
        counter_count_def cache_get_def cache_set_def Let_def API_KEY_RATE_LIMIT_MAX_REQUESTS_def API_KEY_CACHE_TTL_SECONDS_def
        maybeUpdateLastUsed_def split: option.splits if_splits prod.splits)
  have "cache_get (ke_now env') (ks_record st1) h = Some key"
    using q assms(8) by (simp add: cache_get_def cache_set_def)
  moreover have "fst (admit_key env' [] h key st1) = Inr key"
    using assms(1,9,7) q
    by (auto simp: admit_key_def key_expired_def remember_key_def enforceRateLimit_def enforce_def counter_attempt_def
        counter_count_def cache_get_def cache_set_def Let_def API_KEY_RATE_LIMIT_MAX_REQUESTS_def
        split: option.splits if_splits prod.splits)
  ultimately show ?thesis using assms(5,6,7) by (simp add: canActivate_def Let_def st1_def)
qed

text \<open>Requests at the times of a list, each less than \<open>w\<close> after the one before.\<close>

primrec spaced :: "int \<Rightarrow> int \<Rightarrow> int list \<Rightarrow> bool" where
  "spaced w t [] = True"
| "spaced w t (u # us) = (u < t + w \<and> spaced w u us)"

definition rate_run :: "key_env \<Rightarrow> string \<Rightarrow> int list \<Rightarrow> key_state \<Rightarrow> key_state" where
  "rate_run env i ts st = fold (\<lambda>t st. snd (enforceRateLimit (env\<lparr>ke_now := t\<rparr>) i st)) ts st"

lemma rate_step:
  assumes "ke_down env = (\<lambda>_. False)"
  shows "cache_get t (ks_rate st) i = None \<Longrightarrow>
           ks_rate (snd (enforceRateLimit (env\<lparr>ke_now := t\<rparr>) i st)) i = Some (1, t + 60 * ke_unit env)"
    and "ks_rate st i = Some (n, e) \<Longrightarrow> t < e \<Longrightarrow> n < 60 \<Longrightarrow>
           ks_rate (snd (enforceRateLimit (env\<lparr>ke_now := t\<rparr>) i st)) i = Some (Suc n, t + 60 * ke_unit env)"
  using assms by (simp_all add: enforceRateLimit_def enforce_def counter_attempt_def cache_get_def cache_set_def Let_def
      API_KEY_RATE_LIMIT_MAX_REQUESTS_def API_KEY_RATE_LIMIT_WINDOW_SECONDS_def)

lemma rate_run_counts:
  assumes "ke_down env = (\<lambda>_. False)"
  shows "ks_rate st i = Some (n, t + 60 * ke_unit env) \<Longrightarrow> spaced (60 * ke_unit env) t ts \<Longrightarrow> n + length ts \<le> 60 \<Longrightarrow>
     ks_rate (rate_run env i ts st) i = Some (n + length ts, last (t # ts) + 60 * ke_unit env)"
proof (induction ts arbitrary: n t st)
  case Nil
  then show ?case by (simp add: rate_run_def)
next
  case (Cons u us)
  have "ks_rate (snd (enforceRateLimit (env\<lparr>ke_now := u\<rparr>) i st)) i = Some (Suc n, u + 60 * ke_unit env)"
    using rate_step(2) [OF assms Cons.prems(1), of u] Cons.prems(2,3) by simp
  from Cons.IH [OF this] Cons.prems(2,3) show ?case by (simp add: rate_run_def)
qed

text \<open>A slow client is locked out: the counter of a key is renewed by every request and never
  decays, so after 60 requests that each came within the window of the one before - one every
  59 seconds is enough - the next one is refused, however few fell into any single window.\<close>

theorem steady_client_limited:
  assumes "ke_down env = (\<lambda>_. False)" and "cache_get t (ks_rate st) i = None"
    and "spaced (60 * ke_unit env) t ts" and "length ts = 59" and "now < last (t # ts) + 60 * ke_unit env"
  shows "fst (enforceRateLimit (env\<lparr>ke_now := now\<rparr>) i (rate_run env i (t # ts) st)) = Inl key_rate_limited"
proof -
  have "ks_rate (rate_run env i (t # ts) st) i = Some (60, last (t # ts) + 60 * ke_unit env)"
    using rate_run_counts [OF assms(1) rate_step(1) [OF assms(1,2)] assms(3)] assms(4) by (simp add: rate_run_def)
  then show ?thesis using assms(1,5)
    by (simp add: enforceRateLimit_def enforce_def counter_attempt_def cache_get_def Let_def
        API_KEY_RATE_LIMIT_MAX_REQUESTS_def API_KEY_RATE_LIMIT_WINDOW_SECONDS_def)
qed

definition demo_kenv :: key_env where
  "demo_kenv = \<lparr>ke_now = 1000, ke_unit = 1000, ke_faults = no_faults, ke_down = (\<lambda>_. False), ke_sha256 = (\<lambda>s. ''h'' @ s),
     ke_random = ''00'', ke_pk = ''k1''\<rparr>"

definition demo_key :: ApiKeyRecord where
  "demo_key = \<lparr>ky_pk = ''k1'', ky_vendor = ''v1'', ky_name = ''pos'', ky_prefix = ''sfi_00'', ky_hash = ''hsfi_00'',
     ky_permissions = [''loans:read''], ky_active = True, ky_last_used = None, ky_expires = None, ky_created = 0, ky_updated = 0\<rparr>"

definition demo_keys :: key_state where
  "demo_keys = \<lparr>ks_rows = [demo_key], ks_record = Map.empty, ks_negative = Map.empty, ks_rate = Map.empty, ks_ip = Map.empty,
     ks_used = Map.empty\<rparr>"

definition demo_key_request :: key_request where
  "demo_key_request = \<lparr>kq_key = OneHeader ''sfi_00'', kq_forwarded = NoHeader, kq_ip = Some ''10.0.0.1''\<rparr>"

lemmas demo_key_defs = demo_kenv_def demo_key_def demo_keys_def demo_key_request_def

theorem steady_client_limited_witness:
  "fst (enforceRateLimit (demo_kenv\<lparr>ke_now := 59000\<rparr>) ''k1'' (rate_run demo_kenv ''k1'' (0 # replicate 59 0) demo_keys)) = Inl key_rate_limited"
proof -
  have "spaced (60 * ke_unit demo_kenv) 0 (replicate n 0)" for n by (induction n) (simp_all add: demo_kenv_def)
  then show ?thesis by (intro steady_client_limited) (simp_all add: demo_key_defs cache_get_def)
qed

lemma demo_admitted: "\<exists>st'. canActivate demo_kenv [''loans:read''] demo_key_request demo_keys = (Inr demo_key, st')"
  by (simp add: canActivate_def find_key_def count_and_load_def load_key_def enforceIpRateLimit_def enforceRateLimit_def
      enforce_def counter_attempt_def cache_get_def admit_key_def remember_key_def single_def Let_def demo_key_defs
      API_KEY_RATE_LIMIT_MAX_REQUESTS_def API_KEY_IP_RATE_LIMIT_MAX_REQUESTS_def getClientIp_def)

theorem api_key_admits_witness: "ky_active demo_key \<and> \<not> key_expired 1000 demo_key"
proof -
  from demo_admitted obtain st' where a: "canActivate demo_kenv [''loans:read''] demo_key_request demo_keys = (Inr demo_key, st')" by blast
  have "mgr.satisfies (\<lambda>h k. ky_hash k = h) (ke_now demo_kenv) (ks_record demo_keys)"
    by (simp add: demo_keys_def mgr_satisfies_empty)
  from api_key_admits [OF a this] show ?thesis by (simp add: demo_kenv_def)
qed

theorem revoked_key_refused_witness:
  "\<exists>e. fst (canActivate demo_kenv [] demo_key_request
    (fold (\<lambda>(env, req, required) st. snd (canActivate env required req st)) [(demo_kenv, demo_key_request, [])]
      (snd (revokeApiKey demo_kenv ''GV'' ''k1'' [(''v1'', Some ''GV'')] demo_keys)))) = Inl e"
proof -
  obtain st' where r: "revokeApiKey demo_kenv ''GV'' ''k1'' [(''v1'', Some ''GV'')] demo_keys = (Inr (), st')"
    by (simp add: revokeApiKey_def requireVendor_def findVendorByWallet_def single_def Let_def demo_key_defs)
  show ?thesis
    unfolding r snd_conv
    by (rule revoked_key_refused [OF r, where raw = "''sfi_00''"]) (simp_all add: demo_key_defs)
qed

theorem created_key_admitted_witness:
  "\<exists>key. fst (canActivate demo_kenv [''loans:read''] demo_key_request
      (snd (createApiKey demo_kenv ''GV'' \<lparr>ck_name = ''pos'', ck_permissions = [''loans:read''], ck_expiresAt = None\<rparr>
        [(''v1'', Some ''GV'')] (demo_keys\<lparr>ks_rows := []\<rparr>)))) = Inr key \<and> kr_prefix (mapApiKeyToDto key) = ''sfi_00''"
proof -
  let ?st = "demo_keys\<lparr>ks_rows := []\<rparr>"
  let ?dto = "\<lparr>ck_name = ''pos'', ck_permissions = [''loans:read''], ck_expiresAt = None\<rparr>"
  obtain shown st' where c: "createApiKey demo_kenv ''GV'' ?dto [(''v1'', Some ''GV'')] ?st = (Inr (shown, ''sfi_00''), st')"
    and st': "ks_ip st' = Map.empty"
    by (simp add: createApiKey_def requireVendor_def findVendorByWallet_def single_def insert_unique_def Let_def demo_key_defs)
  have "fst (enforceIpRateLimit demo_kenv (getClientIp demo_key_request) st') = Inr ()"
    using st' by (simp add: enforceIpRateLimit_def enforce_def counter_attempt_def cache_get_def Let_def demo_key_defs getClientIp_def
        API_KEY_IP_RATE_LIMIT_MAX_REQUESTS_def)
  from created_key_admitted [OF c _ _ _ _ _ this, of "[''loans:read'']"] show ?thesis
    unfolding c by (auto simp: demo_key_defs)
qed

theorem revocation_race_witness:
  "fst (canActivate (demo_kenv\<lparr>ke_now := 30000\<rparr>) [] demo_key_request
     (snd (admit_key demo_kenv [] ''hsfi_00'' demo_key (demo_keys\<lparr>ks_rows := [demo_key\<lparr>ky_active := False\<rparr>]\<rparr>)))) = Inr demo_key"
  by (rule revocation_race [where c = "CHR ''s''" and cs = "''fi_00''"])
    (simp_all add: demo_key_defs cache_get_def key_expired_def counter_count_def)

end
