(* ===== verification/Indexer.thy ===== *)
theory Indexer imports Contracts Reputation begin

text \<open>
  The blockchain indexer (\<open>indexer/event-parser.service.ts\<close>, \<open>indexer/indexer.service.ts\<close>): parsing
  contract events, writing them to the index tables, and moving the cursor of each contract.
\<close>

section \<open>Events\<close>

text \<open>
  An event as the RPC server delivers it, with its topics and value decoded by \<open>scValToNative\<close>
  (\<open>None\<close> where that throws).
\<close>

record raw_event =
  rv_id :: string
  rv_ledger :: int
  rv_topics :: "native option list"
  rv_value :: "native option"

datatype event_payload =
    EvLoanCreated (pl_loan: string) (pl_wallet: string) (pl_principal: num) (pl_interest: num) (pl_due: "int option")
  | EvLoanRepaid (pl_loan: string) (pl_tx: string) (pl_amount: num) (pl_paid: int)
  | EvLoanDefaulted (pl_loan: string)
  | EvScoreChanged (pl_wallet: string) (pl_old: "int option") (pl_new: "int option") (pl_reason: string)

record ParsedContractEvent =
  pv_id :: string
  pv_hash :: string
  pv_ledger :: int
  pv_payload :: event_payload

definition scValToString :: "native option list \<Rightarrow> nat \<Rightarrow> string" where
  "scValToString topics i =
     (if i < length topics then (case topics ! i of Some v \<Rightarrow> native_text v | None \<Rightarrow> []) else [])"

text \<open>A value that is not an object counts as an empty one.\<close>

definition scValToNativeMap :: "native option \<Rightarrow> native" where
  "scValToNativeMap v = (case v of Some (NMap m) \<Rightarrow> NMap m | _ \<Rightarrow> NMap [])"

text \<open>
  \<open>BigInt(v)\<close>: \<open>None\<close> when it throws; the parse of a text is the parameter \<open>text\<close>.
\<close>

definition bigint_of :: "(string \<Rightarrow> int option) \<Rightarrow> native \<Rightarrow> int option" where
  "bigint_of text v = (case v of NBig i \<Rightarrow> Some i | NNum i \<Rightarrow> Some i | NBool b \<Rightarrow> Some (if b then 1 else 0)
     | NStr s \<Rightarrow> text s | _ \<Rightarrow> None)"

definition stroopsToDecimal :: "(string \<Rightarrow> int option) \<Rightarrow> native \<Rightarrow> num option" where
  "stroopsToDecimal text v = map_option (\<lambda>i. jdiv (fl (of_int i)) 10000000) (bigint_of text v)"

text \<open>\<open>new Date(Number(v) * 1000).toISOString()\<close>: \<open>None\<close> when the date is out of range.\<close>

definition date_of_seconds :: "native \<Rightarrow> int option" where
  "date_of_seconds v = (case number_of v of
      Some s \<Rightarrow> if \<bar>s * 1000\<bar> \<le> 8640000000000000 then Some (s * 1000) else None | None \<Rightarrow> None)"

definition parseLoanCreated :: "(string \<Rightarrow> int option) \<Rightarrow> raw_event \<Rightarrow> event_payload option" where
  "parseLoanCreated text raw =
     (let v = scValToNativeMap (rv_value raw); due = field_or NNull v ''due_date''
      in case (stroopsToDecimal text (field_or (NNum 0) v ''principal''), stroopsToDecimal text (field_or (NNum 0) v ''interest'')) of
           (Some p, Some i) \<Rightarrow>
             let mk = EvLoanCreated (native_text (field_or (NStr []) v ''loan_id'')) (scValToString (rv_topics raw) 1) p i
             in if truthy due then map_option (\<lambda>d. mk (Some d)) (date_of_seconds due) else Some (mk None)
         | _ \<Rightarrow> None)"

definition parseLoanRepaid :: "(string \<Rightarrow> int option) \<Rightarrow> int \<Rightarrow> raw_event \<Rightarrow> event_payload option" where
  "parseLoanRepaid text now raw =
     (let v = scValToNativeMap (rv_value raw); paid = field_or NNull v ''paid_at''
      in case stroopsToDecimal text (field_or (NNum 0) v ''amount'') of
           None \<Rightarrow> None
         | Some a \<Rightarrow>
             let mk = EvLoanRepaid (scValToString (rv_topics raw) 1) (rv_id raw) a
             in if truthy paid then map_option mk (date_of_seconds paid) else Some (mk now))"

definition parseLoanDefaulted :: "raw_event \<Rightarrow> event_payload" where
  "parseLoanDefaulted raw = EvLoanDefaulted (scValToString (rv_topics raw) 1)"

definition parseScoreChanged :: "raw_event \<Rightarrow> event_payload" where
  "parseScoreChanged raw =
     (let v = scValToNativeMap (rv_value raw)
      in EvScoreChanged (scValToString (rv_topics raw) 1) (number_of (field_or (NNum 0) v ''old_score''))
           (number_of (field_or (NNum 0) v ''new_score'')) (native_text (field_or (NStr ''unknown'') v ''reason'')))"

text \<open>The transaction hash of a parsed event is the id of the event.\<close>

definition parseEvent :: "(string \<Rightarrow> int option) \<Rightarrow> int \<Rightarrow> raw_event \<Rightarrow> ParsedContractEvent option" where
  "parseEvent text now raw =
     (let name = scValToString (rv_topics raw) 0;
          payload = (if name = ''LOAN_CREATED'' then parseLoanCreated text raw
                     else if name = ''LOAN_REPAID'' then parseLoanRepaid text now raw
                     else if name = ''LOAN_DEFAULTED'' then Some (parseLoanDefaulted raw)
                     else if name = ''SCORE_CHANGED'' \<or> name = ''SCORE_UPDATED'' then Some (parseScoreChanged raw)
                     else None)
      in map_option (\<lambda>p. \<lparr>pv_id = rv_id raw, pv_hash = rv_id raw, pv_ledger = rv_ledger raw, pv_payload = p\<rparr>) payload)"

section \<open>The index tables\<close>

record LoanIndexRow =
  lx_loan :: string
  lx_wallet :: string
  lx_status :: string
  lx_principal :: num
  lx_interest :: num
  lx_due :: int
  lx_event :: string
  lx_hash :: "string option"
  lx_ledger :: int

record PaymentRow =
  pm_loan :: string
  pm_tx :: string
  pm_amount :: num
  pm_paid :: int

record ReputationHistoryRow =
  hs_event :: string
  hs_wallet :: string
  hs_old :: int
  hs_new :: int
  hs_change :: int
  hs_reason :: string
  hs_hash :: "string option"
  hs_ledger :: int

record index_state =
  ix_loans :: "LoanIndexRow list"
  ix_payments :: "PaymentRow list"
  ix_history :: "ReputationHistoryRow list"
  ix_cache :: "RepCacheRow list"
  ix_cursor :: "string \<rightharpoonup> int"
  ix_running :: bool

text \<open>
  A cycle: \<open>ie_faults k\<close> are the faults of the queries for the event or contract \<open>k\<close>,
  \<open>ie_latest\<close> the newest ledger (or the error of asking for it), and \<open>ie_events c from\<close> what
  \<open>getEvents\<close> answers for contract \<open>c\<close>: the message of an error, or a page of at most 100 events.
\<close>

record index_env =
  ie_now :: int
  ie_faults :: "string \<Rightarrow> faults"
  ie_bigint :: "string \<Rightarrow> int option"
  ie_latest :: "string + int"
  ie_events :: "string \<Rightarrow> int \<Rightarrow> string + raw_event list"
  ie_loan_contract :: string
  ie_reputation_contract :: string

section \<open>Persisting an event\<close>

definition persistLoanCreated :: "index_env \<Rightarrow> ParsedContractEvent \<Rightarrow> index_state \<Rightarrow> index_state result" where
  "persistLoanCreated env ev st =
     (case pv_payload ev of
        EvLoanCreated lid w p i due \<Rightarrow>
          let r = (case due of
                None \<Rightarrow> Inl not_null_violation
              | Some d \<Rightarrow>
                  if \<exists>x \<in> set (ix_loans st). lx_event x = pv_id ev then Inr (ix_loans st)
                  else insert_unique (\<lambda>a b. lx_loan a = lx_loan b)
                    \<lparr>lx_loan = lid, lx_wallet = w, lx_status = ''active'', lx_principal = p, lx_interest = i, lx_due = d,
                     lx_event = pv_id ev, lx_hash = Some (pv_hash ev), lx_ledger = pv_ledger ev\<rparr> (ix_loans st))
          in (case with_fault (ie_faults env (pv_id ev) ''loan_index.upsert'') r of
                Inr rows \<Rightarrow> Inr (st\<lparr>ix_loans := rows\<rparr>)
              | Inl e \<Rightarrow> if err_code e = ''23505'' then Inr st else Inl (JsError (err_message e)))
      | _ \<Rightarrow> Inr st)"

definition total_paid :: "string \<Rightarrow> PaymentRow list \<Rightarrow> num" where
  "total_paid lid ps = foldl (\<lambda>s p. jadd s (pm_amount p)) 0 (filter (\<lambda>p. pm_loan p = lid) ps)"

definition recompute_status :: "index_env \<Rightarrow> string \<Rightarrow> string \<Rightarrow> index_state \<Rightarrow> index_state" where
  "recompute_status env ev lid st =
     (case ie_faults env ev ''payment_index.select'' of
        Some _ \<Rightarrow> st
      | None \<Rightarrow>
          (case with_fault (ie_faults env ev ''loan_index.select'') (single (filter (\<lambda>l. lx_loan l = lid) (ix_loans st))) of
             Inl _ \<Rightarrow> st
           | Inr l \<Rightarrow>
               let status = (if jadd (lx_principal l) (lx_interest l) \<le> total_paid lid (ix_payments st) then ''paid'' else ''active'')
               in (case ie_faults env ev ''loan_index.update'' of
                     Some _ \<Rightarrow> st
                   | None \<Rightarrow> st\<lparr>ix_loans := update_where (\<lambda>l. lx_loan l = lid) (\<lambda>l. l\<lparr>lx_status := status\<rparr>) (ix_loans st)\<rparr>)))"

definition persistLoanRepaid :: "index_env \<Rightarrow> ParsedContractEvent \<Rightarrow> index_state \<Rightarrow> index_state result" where
  "persistLoanRepaid env ev st =
     (case pv_payload ev of
        EvLoanRepaid lid tx a paid \<Rightarrow>
          (case with_fault (ie_faults env (pv_id ev) ''payment_index.insert'')
                  (insert_unique (\<lambda>x y. pm_tx x = pm_tx y \<and> pm_loan x = pm_loan y)
                    \<lparr>pm_loan = lid, pm_tx = tx, pm_amount = a, pm_paid = paid\<rparr> (ix_payments st)) of
             Inr ps \<Rightarrow> Inr (recompute_status env (pv_id ev) lid (st\<lparr>ix_payments := ps\<rparr>))
           | Inl e \<Rightarrow> if err_code e = ''23505'' then Inr st else Inl (JsError (err_message e)))
      | _ \<Rightarrow> Inr st)"

definition persistLoanDefaulted :: "index_env \<Rightarrow> ParsedContractEvent \<Rightarrow> index_state \<Rightarrow> index_state result" where
  "persistLoanDefaulted env ev st =
     (case pv_payload ev of
        EvLoanDefaulted lid \<Rightarrow>
          (case ie_faults env (pv_id ev) ''loan_index.default'' of
             Some e \<Rightarrow> Inl (JsError (err_message e))
           | None \<Rightarrow> Inr (st\<lparr>ix_loans := update_where (\<lambda>l. lx_loan l = lid) (\<lambda>l. l\<lparr>lx_status := ''defaulted''\<rparr>) (ix_loans st)\<rparr>))
      | _ \<Rightarrow> Inr st)"

definition persistScoreChanged :: "index_env \<Rightarrow> ParsedContractEvent \<Rightarrow> index_state \<Rightarrow> index_state result" where
  "persistScoreChanged env ev st =
     (case pv_payload ev of
        EvScoreChanged w old new reason \<Rightarrow>
          let r = (case (old, new) of
                (Some o', Some n') \<Rightarrow> insert_unique (\<lambda>a b. hs_event a = hs_event b)
                   \<lparr>hs_event = pv_id ev, hs_wallet = w, hs_old = o', hs_new = n', hs_change = n' - o', hs_reason = reason,
                    hs_hash = Some (pv_hash ev), hs_ledger = pv_ledger ev\<rparr> (ix_history st)
              | _ \<Rightarrow> Inl not_null_violation)
          in (case with_fault (ie_faults env (pv_id ev) ''history.insert'') r of
                Inl e \<Rightarrow> if err_code e = ''23505'' then Inr st else Inl (JsError (err_message e))
              | Inr rows \<Rightarrow>
                  let st1 = st\<lparr>ix_history := rows\<rparr>
                  in (case (ie_faults env (pv_id ev) ''cache.update'', new) of
                        (None, Some n') \<Rightarrow> if n' < 0 then Inr st1 else Inr (st1\<lparr>ix_cache := update_where (\<lambda>r. rc_wallet r = w)
                           (\<lambda>r. r\<lparr>rc_score := n', rc_synced := ie_now env\<rparr>) (ix_cache st1)\<rparr>)
                      | _ \<Rightarrow> Inr st1))
      | _ \<Rightarrow> Inr st)"

definition persistEvent :: "index_env \<Rightarrow> ParsedContractEvent \<Rightarrow> index_state \<Rightarrow> index_state result" where
  "persistEvent env ev st =
     (case pv_payload ev of
        EvLoanCreated _ _ _ _ _ \<Rightarrow> persistLoanCreated env ev st
      | EvLoanRepaid _ _ _ _ \<Rightarrow> persistLoanRepaid env ev st
      | EvLoanDefaulted _ \<Rightarrow> persistLoanDefaulted env ev st
      | EvScoreChanged _ _ _ _ \<Rightarrow> persistScoreChanged env ev st)"

section \<open>The cursor\<close>

definition LEDGER_RETENTION_BUFFER :: int where "LEDGER_RETENTION_BUFFER = 100000"
definition CATCH_UP_BUFFER :: int where "CATCH_UP_BUFFER = 1000"

definition getCursor :: "index_env \<Rightarrow> string \<Rightarrow> index_state \<Rightarrow> int" where
  "getCursor env c st =
     (case ie_faults env c ''indexer_state.select'' of
        Some _ \<Rightarrow> 0 | None \<Rightarrow> (case ix_cursor st c of Some n \<Rightarrow> n | None \<Rightarrow> 0))"

definition updateCursor :: "index_env \<Rightarrow> string \<Rightarrow> int \<Rightarrow> index_state \<Rightarrow> index_state result" where
  "updateCursor env c n st =
     (case ie_faults env c ''indexer_state.upsert'' of
        Some e \<Rightarrow> Inl (JsError (err_message e)) | None \<Rightarrow> Inr (st\<lparr>ix_cursor := (ix_cursor st)(c \<mapsto> n)\<rparr>))"

definition healStaleCursor :: "index_env \<Rightarrow> string \<Rightarrow> int \<Rightarrow> int \<Rightarrow> index_state \<Rightarrow> (int \<times> index_state) result" where
  "healStaleCursor env c start latest st =
     (if latest - LEDGER_RETENTION_BUFFER \<le> start then Inr (start, st)
      else let catchUp = latest - CATCH_UP_BUFFER
           in andThen (updateCursor env c (catchUp - 1) st) (\<lambda>st'. Inr (catchUp, st')))"

text \<open>The first number of \<open>/(\d+)\s*-\s*(\d+)/\<close> in a message.\<close>

definition is_digit :: "char \<Rightarrow> bool" where
  "is_digit c = (let n = of_char c :: nat in 48 \<le> n \<and> n \<le> 57)"

definition digits_value :: "string \<Rightarrow> int" where
  "digits_value s = foldl (\<lambda>n c. 10 * n + (int (of_char c) - 48)) 0 s"

definition range_at :: "string \<Rightarrow> int option" where
  "range_at s =
     (let ds = takeWhile is_digit s; rest = dropWhile is_space (dropWhile is_digit s)
      in case rest of
           c # tail \<Rightarrow> (if ds \<noteq> [] \<and> c = CHR ''-'' \<and> (\<exists>d \<in> set (take 1 (dropWhile is_space tail)). is_digit d)
                        then Some (digits_value ds) else None)
         | [] \<Rightarrow> None)"

fun first_range :: "string \<Rightarrow> int option" where
  "first_range [] = None"
| "first_range (c # cs) = (case range_at (c # cs) of Some n \<Rightarrow> Some n | None \<Rightarrow> first_range cs)"

definition recoverFromRangeError :: "index_env \<Rightarrow> string \<Rightarrow> string \<Rightarrow> index_state \<Rightarrow> (bool \<times> index_state) result" where
  "recoverFromRangeError env c msg st =
     (if \<not> str_includes msg ''startLedger must be within'' then Inr (False, st)
      else case first_range msg of
        None \<Rightarrow> Inr (False, st)
      | Some n \<Rightarrow> andThen (updateCursor env c (n - 1) st) (\<lambda>st'. Inr (True, st')))"

section \<open>A cycle\<close>

definition fetchEvents :: "index_env \<Rightarrow> string \<Rightarrow> int \<Rightarrow> int \<Rightarrow> string + raw_event list" where
  "fetchEvents env c start latest = (if latest < start then Inr [] else ie_events env c start)"

text \<open>One event of the page: a failure is logged and the next one is taken.\<close>

definition index_event :: "index_env \<Rightarrow> raw_event \<Rightarrow> index_state \<times> int \<Rightarrow> index_state \<times> int" where
  "index_event env raw acc =
     (case parseEvent (ie_bigint env) (ie_now env) raw of
        None \<Rightarrow> acc
      | Some ev \<Rightarrow> (case persistEvent env ev (fst acc) of
          Inl _ \<Rightarrow> acc | Inr st \<Rightarrow> (st, max (snd acc) (pv_ledger ev))))"

text \<open>The page is stored and the cursor moved past it.\<close>

definition index_page :: "index_env \<Rightarrow> string \<Rightarrow> int \<Rightarrow> int \<Rightarrow> raw_event list \<Rightarrow> index_state \<Rightarrow> unit result \<times> index_state" where
  "index_page env c start latest events st =
     (let (st', maxLedger) = fold (index_event env) events (st, start);
          target = (if events = [] then latest else max maxLedger latest)
      in case updateCursor env c target st' of Inl e \<Rightarrow> (Inl e, st') | Inr st'' \<Rightarrow> (Inr (), st''))"

definition index_range :: "index_env \<Rightarrow> string \<Rightarrow> int \<Rightarrow> int \<Rightarrow> index_state \<Rightarrow> unit result \<times> index_state" where
  "index_range env c start latest st =
     (case fetchEvents env c start latest of
        Inl msg \<Rightarrow>
          (case recoverFromRangeError env c msg st of
             Inl e \<Rightarrow> (Inl e, st)
           | Inr (recovered, st') \<Rightarrow> (if recovered then Inr () else Inl (JsError msg), st'))
      | Inr events \<Rightarrow> index_page env c start latest events st)"

definition indexContract :: "index_env \<Rightarrow> string \<Rightarrow> index_state \<Rightarrow> unit result \<times> index_state" where
  "indexContract env c st =
     (if c = [] then (Inr (), st)
      else
        let cursor = getCursor env c st; start = (if 0 < cursor then cursor + 1 else 1)
        in case ie_latest env of
             Inl _ \<Rightarrow> (Inr (), st)
           | Inr latest \<Rightarrow>
               (case healStaleCursor env c start latest st of
                  Inl e \<Rightarrow> (Inl e, st)
                | Inr (start', st') \<Rightarrow> index_range env c start' latest st'))"

definition runIndexer :: "index_env \<Rightarrow> index_state \<Rightarrow> index_state" where
  "runIndexer env st =
     (if ix_running st then st
      else (snd (indexContract env (ie_reputation_contract env) (snd (indexContract env (ie_loan_contract env)
              (st\<lparr>ix_running := True\<rparr>)))))\<lparr>ix_running := False\<rparr>)"


section \<open>What a cycle can do to the tables\<close>

text \<open>
  An abstract view of the writes: a loan row is added under fresh keys and as \<open>active\<close>, a payment
  is added under a fresh key, the status of a loan is set, to \<open>paid\<close> only when its payments cover
  it, a history row is added under a fresh key; the score cache and the cursor may change freely.
\<close>

definition covered :: "PaymentRow list \<Rightarrow> LoanIndexRow \<Rightarrow> bool" where
  "covered ps l \<longleftrightarrow> jadd (lx_principal l) (lx_interest l) \<le> total_paid (lx_loan l) ps"

inductive index_effect :: "index_state \<Rightarrow> index_state \<Rightarrow> bool" where
  Created: "\<forall>x \<in> set (ix_loans st). lx_loan x \<noteq> lx_loan r \<and> lx_event x \<noteq> lx_event r \<Longrightarrow> lx_status r = ''active'' \<Longrightarrow>
     index_effect st (st\<lparr>ix_loans := ix_loans st @ [r]\<rparr>)"
| Payment: "\<forall>x \<in> set (ix_payments st). (pm_tx x, pm_loan x) \<noteq> (pm_tx p, pm_loan p) \<Longrightarrow>
     index_effect st (st\<lparr>ix_payments := ix_payments st @ [p]\<rparr>)"
| Status: "\<forall>l \<in> set (ix_loans st). lx_loan l = lid \<longrightarrow> s = ''paid'' \<longrightarrow> covered (ix_payments st) l \<Longrightarrow>
     index_effect st (st\<lparr>ix_loans := update_where (\<lambda>l. lx_loan l = lid) (\<lambda>l. l\<lparr>lx_status := s\<rparr>) (ix_loans st)\<rparr>)"
| History: "\<forall>x \<in> set (ix_history st). hs_event x \<noteq> hs_event h \<Longrightarrow>
     index_effect st (st\<lparr>ix_history := ix_history st @ [h]\<rparr>)"
| Other: "ix_loans st' = ix_loans st \<Longrightarrow> ix_payments st' = ix_payments st \<Longrightarrow> ix_history st' = ix_history st \<Longrightarrow>
     index_effect st st'"

abbreviation index_effects :: "index_state \<Rightarrow> index_state \<Rightarrow> bool" where
  "index_effects \<equiv> index_effect\<^sup>*\<^sup>*"

lemma effect1: "index_effect a b \<Longrightarrow> index_effects a b"
  by (rule r_into_rtranclp)

text \<open>The keys of the index tables stay unique.\<close>

definition keys_unique :: "index_state \<Rightarrow> bool" where
  "keys_unique st \<longleftrightarrow> distinct (map lx_loan (ix_loans st)) \<and> distinct (map lx_event (ix_loans st)) \<and>
     distinct (map (\<lambda>p. (pm_tx p, pm_loan p)) (ix_payments st)) \<and> distinct (map hs_event (ix_history st))"

text \<open>
  A loan marked paid was covered when it was marked: by the payments stored up to then, which
  later ones only follow.
\<close>

definition paid_covered :: "index_state \<Rightarrow> bool" where
  "paid_covered st \<longleftrightarrow> (\<forall>l \<in> set (ix_loans st). lx_status l = ''paid'' \<longrightarrow>
     (\<exists>n \<le> length (ix_payments st). covered (take n (ix_payments st)) l))"

lemma total_paid_append:
  "total_paid lid (ps @ [p]) =
     (if pm_loan p = lid then jadd (total_paid lid ps) (pm_amount p) else total_paid lid ps)"
  by (simp add: total_paid_def)

lemma total_paid_fl: "fl (total_paid lid ps) = total_paid lid ps"
  by (induction ps rule: rev_induct) (simp_all add: total_paid_append jadd_def, simp add: total_paid_def)

lemma total_paid_grows: "0 \<le> pm_amount p \<Longrightarrow> total_paid lid ps \<le> total_paid lid (ps @ [p])"
  using fl_mono [of "total_paid lid ps" "total_paid lid ps + pm_amount p"]
  by (simp add: total_paid_append jadd_def total_paid_fl)

lemma total_paid_later:
  "\<forall>p \<in> set ps. pm_loan p = lid \<longrightarrow> 0 \<le> pm_amount p \<Longrightarrow> total_paid lid (take n ps) \<le> total_paid lid ps"
proof (induction ps rule: rev_induct)
  case (snoc p ps)
  show ?case
  proof (cases "n \<le> length ps")
    case True
    with snoc have "total_paid lid (take n (ps @ [p])) \<le> total_paid lid ps" by simp
    also have "total_paid lid ps \<le> total_paid lid (ps @ [p])"
      using total_paid_grows [of p lid ps] snoc.prems by (cases "pm_loan p = lid") (simp_all add: total_paid_append)
    finally show ?thesis .
  qed simp
qed simp

lemma covered_status [simp]: "covered ps (l\<lparr>lx_status := s\<rparr>) = covered ps l"
  by (simp add: covered_def)

lemma effect_keys: "index_effect st st' \<Longrightarrow> keys_unique st \<Longrightarrow> keys_unique st'"
  by (induction rule: index_effect.induct) (auto simp: keys_unique_def map_update_where_frame)

lemma effect_paid: "index_effect st st' \<Longrightarrow> paid_covered st \<Longrightarrow> paid_covered st'"
proof (induction rule: index_effect.induct)
  case (Payment st p)
  have "\<exists>n \<le> length (ix_payments st @ [p]). covered (take n (ix_payments st @ [p])) l"
    if "n \<le> length (ix_payments st)" "covered (take n (ix_payments st)) l" for n l
    using that by (intro exI [of _ n]) simp
  with Payment.prems show ?case by (fastforce simp: paid_covered_def)
next
  case (Status st lid s)
  have now: "\<exists>n \<le> length (ix_payments st). covered (take n (ix_payments st)) l" if "covered (ix_payments st) l" for l
    using that by (intro exI [of _ "length (ix_payments st)"]) simp
  have "\<exists>n \<le> length (ix_payments st). covered (take n (ix_payments st)) l"
    if l: "l \<in> set (update_where (\<lambda>l. lx_loan l = lid) (\<lambda>l. l\<lparr>lx_status := s\<rparr>) (ix_loans st))" "lx_status l = ''paid''" for l
  proof -
    from l(1) obtain k where k: "k \<in> set (ix_loans st)" "l = (if lx_loan k = lid then k\<lparr>lx_status := s\<rparr> else k)"
      by (auto simp: set_update_where)
    show ?thesis
    proof (cases "lx_loan k = lid")
      case True
      with Status.hyps k l(2) have "covered (ix_payments st) k" by auto
      with True k(2) show ?thesis using now [of k] by simp
    next
      case False
      with k l(2) Status.prems show ?thesis by (simp add: paid_covered_def)
    qed
  qed
  then show ?case by (simp add: paid_covered_def)
qed (auto simp: paid_covered_def)

lemma effects_keys: "index_effects st st' \<Longrightarrow> keys_unique st \<Longrightarrow> keys_unique st'"
  by (induction rule: rtranclp_induct) (auto dest: effect_keys)

lemma effects_paid: "index_effects st st' \<Longrightarrow> paid_covered st \<Longrightarrow> paid_covered st'"
  by (induction rule: rtranclp_induct) (auto dest: effect_paid)


section \<open>Every operation refines the effects\<close>

lemma persistLoanCreated_effects:
  assumes "persistLoanCreated env ev st = Inr st'" shows "index_effects st st'"
  using assms
  by (auto simp: persistLoanCreated_def insert_unique_Inr Let_def
      intro!: effect1 index_effect.Created split: event_payload.splits option.splits sum.splits if_splits)

lemma filter_single_eq: "filter P xs = [r] \<Longrightarrow> x \<in> set xs \<Longrightarrow> P x \<Longrightarrow> x = r"
  using set_filter [of P xs] by auto

lemma recompute_effects: "index_effects st (recompute_status env k lid st)"
  unfolding recompute_status_def Let_def
  by (auto simp: single_Inr covered_def dest: filter_single_eq intro!: effect1 index_effect.Status
      split: option.splits sum.splits)

lemma persistLoanRepaid_Inr:
  assumes "persistLoanRepaid env ev st = Inr st'" and "pv_payload ev = EvLoanRepaid lid tx a paid"
  shows "st' = st \<or> (\<forall>x \<in> set (ix_payments st). (pm_tx x, pm_loan x) \<noteq> (tx, lid)) \<and>
     st' = recompute_status env (pv_id ev) lid
       (st\<lparr>ix_payments := ix_payments st @ [\<lparr>pm_loan = lid, pm_tx = tx, pm_amount = a, pm_paid = paid\<rparr>]\<rparr>)"
proof (cases "with_fault (ie_faults env (pv_id ev) ''payment_index.insert'')
     (insert_unique (\<lambda>x y. pm_tx x = pm_tx y \<and> pm_loan x = pm_loan y)
        \<lparr>pm_loan = lid, pm_tx = tx, pm_amount = a, pm_paid = paid\<rparr> (ix_payments st))")
  case (Inl e)
  with assms show ?thesis by (simp add: persistLoanRepaid_def split: if_splits)
next
  case (Inr ps)
  with assms show ?thesis by (auto simp: persistLoanRepaid_def insert_unique_Inr)
qed

lemma persistLoanRepaid_effects:
  assumes "persistLoanRepaid env ev st = Inr st'"
  shows "index_effects st st'"
proof (cases "pv_payload ev")
  case (EvLoanRepaid lid tx a paid)
  let ?p = "\<lparr>pm_loan = lid, pm_tx = tx, pm_amount = a, pm_paid = paid\<rparr>"
  from persistLoanRepaid_Inr [OF assms EvLoanRepaid] show ?thesis
  proof
    assume *: "(\<forall>x \<in> set (ix_payments st). (pm_tx x, pm_loan x) \<noteq> (tx, lid)) \<and>
      st' = recompute_status env (pv_id ev) lid (st\<lparr>ix_payments := ix_payments st @ [?p]\<rparr>)"
    then have 1: "index_effect st (st\<lparr>ix_payments := ix_payments st @ [?p]\<rparr>)"
      by (intro index_effect.Payment) simp
    with * 1 show ?thesis
      by (metis recompute_effects converse_rtranclp_into_rtranclp)
  qed simp
qed (use assms in \<open>simp_all add: persistLoanRepaid_def\<close>)

lemma persistLoanDefaulted_effects:
  assumes "persistLoanDefaulted env ev st = Inr st'" shows "index_effects st st'"
  using assms
  by (auto simp: persistLoanDefaulted_def intro!: effect1 index_effect.Status
      split: event_payload.splits option.splits)

lemma persistScoreChanged_effects:
  assumes "persistScoreChanged env ev st = Inr st'" shows "index_effects st st'"
proof -
  have other: "index_effects (s::index_state) (s\<lparr>ix_cache := c\<rparr>)" for s c
    by (rule effect1, rule index_effect.Other) simp_all
  have history: "\<forall>x \<in> set (ix_history st). hs_event x \<noteq> hs_event h \<Longrightarrow>
      index_effects st (st\<lparr>ix_history := ix_history st @ [h]\<rparr>)" for h
    by (auto intro: effect1 index_effect.History)
  from assms show ?thesis
    by (auto simp: persistScoreChanged_def insert_unique_Inr Let_def
        intro!: history rtranclp_trans [OF history other] split: event_payload.splits option.splits sum.splits if_splits)
qed

lemma persistEvent_effects:
  assumes "persistEvent env ev st = Inr st'"
  shows "index_effects st st'"
  using assms unfolding persistEvent_def
  by (auto split: event_payload.splits
      dest: persistLoanCreated_effects persistLoanRepaid_effects persistLoanDefaulted_effects persistScoreChanged_effects)


section \<open>A cycle refines the effects\<close>

lemma other_effects:
  "ix_loans st' = ix_loans st \<Longrightarrow> ix_payments st' = ix_payments st \<Longrightarrow> ix_history st' = ix_history st \<Longrightarrow> index_effects st st'"
  by (rule effect1, rule index_effect.Other)

lemma updateCursor_effects: "updateCursor env c n st = Inr st' \<Longrightarrow> index_effects st st'"
  by (auto simp: updateCursor_def intro: other_effects split: option.splits)

lemma healStaleCursor_effects: "healStaleCursor env c s l st = Inr (s', st') \<Longrightarrow> index_effects st st'"
  by (auto simp: healStaleCursor_def Let_def andThen_def dest: updateCursor_effects split: if_splits sum.splits)

lemma recoverFromRangeError_effects: "recoverFromRangeError env c msg st = Inr (b, st') \<Longrightarrow> index_effects st st'"
  by (auto simp: recoverFromRangeError_def andThen_def dest: updateCursor_effects split: if_splits sum.splits option.splits)

lemma index_event_effects: "index_effects (fst acc) (fst (index_event env raw acc))"
  by (auto simp: index_event_def dest: persistEvent_effects split: option.splits sum.splits)

lemma fold_event_effects: "index_effects (fst acc) (fst (fold (index_event env) page acc))"
proof (induction page arbitrary: acc)
  case (Cons raw page)
  from rtranclp_trans [OF index_event_effects Cons.IH] show ?case by simp
qed simp

lemma index_page_effects: "index_effects st (snd (index_page env c start latest page st))"
proof -
  obtain st' m where f: "fold (index_event env) page (st, start) = (st', m)" by fastforce
  from fold_event_effects [of "(st, start)" env page] f have "index_effects st st'" by simp
  with f show ?thesis
    by (auto simp: index_page_def dest!: updateCursor_effects split: sum.split)
qed

lemma index_range_effects: "index_effects st (snd (index_range env c start latest st))"
proof (cases "fetchEvents env c start latest")
  case (Inl msg)
  then show ?thesis
    by (auto simp: index_range_def dest: recoverFromRangeError_effects split: sum.split)
next
  case (Inr page)
  then show ?thesis by (simp add: index_range_def index_page_effects)
qed

lemma indexContract_effects: "index_effects st (snd (indexContract env c st))"
  using index_range_effects
  by (auto simp: indexContract_def Let_def dest!: healStaleCursor_effects intro: rtranclp_trans split: sum.split)

text \<open>States the indexer reaches from empty tables; the score cache is also written by others.\<close>

inductive indexed :: "index_state \<Rightarrow> bool" where
  Empty: "ix_loans st = [] \<Longrightarrow> ix_payments st = [] \<Longrightarrow> ix_history st = [] \<Longrightarrow> indexed st"
| Cycle: "indexed st \<Longrightarrow> indexed (runIndexer env st)"
| Elsewhere: "indexed st \<Longrightarrow> indexed (st\<lparr>ix_cache := rows\<rparr>)"

lemma runIndexer_effects: "index_effects st (runIndexer env st)"
proof (cases "ix_running st")
  case False
  let ?s0 = "st\<lparr>ix_running := True\<rparr>"
  let ?s1 = "snd (indexContract env (ie_loan_contract env) ?s0)"
  let ?s2 = "snd (indexContract env (ie_reputation_contract env) ?s1)"
  have "index_effects st ?s0" by (rule other_effects) simp_all
  also have "index_effects ?s0 ?s1" by (rule indexContract_effects)
  also have "index_effects ?s1 ?s2" by (rule indexContract_effects)
  also have "index_effects ?s2 (?s2\<lparr>ix_running := False\<rparr>)" by (rule other_effects) simp_all
  finally show ?thesis using False by (simp add: runIndexer_def)
qed (simp add: runIndexer_def)

lemma indexed_inv: "indexed st \<Longrightarrow> keys_unique st \<and> paid_covered st"
proof (induction rule: indexed.induct)
  case (Cycle st env)
  with runIndexer_effects [of st env] effects_keys effects_paid show ?case by blast
qed (auto simp: keys_unique_def paid_covered_def)


section \<open>Properties\<close>

definition clean_env :: "raw_event list \<Rightarrow> index_env" where
  "clean_env page = \<lparr>ie_now = 1700000000000, ie_faults = (\<lambda>_. no_faults), ie_bigint = (\<lambda>_. None), ie_latest = Inr 500,
     ie_events = (\<lambda>c _. if c = ''CL'' then Inr page else Inr []), ie_loan_contract = ''CL'', ie_reputation_contract = ''CR''\<rparr>"

definition empty_index :: index_state where
  "empty_index = \<lparr>ix_loans = [], ix_payments = [], ix_history = [], ix_cache = [], ix_cursor = (\<lambda>_. None), ix_running = False\<rparr>"

definition created_event :: "string \<Rightarrow> native \<Rightarrow> raw_event" where
  "created_event i due = \<lparr>rv_id = i, rv_ledger = 400, rv_topics = [Some (NStr ''LOAN_CREATED''), Some (NStr ''GA'')],
     rv_value = Some (NMap [(''loan_id'', NStr ''L1''), (''principal'', NBig 10000000), (''interest'', NBig 0), (''due_date'', due)])\<rparr>"

definition repaid_event :: "string \<Rightarrow> int \<Rightarrow> raw_event" where
  "repaid_event i amount = \<lparr>rv_id = i, rv_ledger = 401, rv_topics = [Some (NStr ''LOAN_REPAID''), Some (NStr ''L1'')],
     rv_value = Some (NMap [(''amount'', NBig amount), (''paid_at'', NBig 1700000000)])\<rparr>"

lemma fl_int_numeral: "numeral n \<le> (2::int) ^ 53 \<Longrightarrow> fl (numeral n) = numeral n"
  using fl_of_int [of "numeral n"] by simp

lemma fl_1: "fl 1 = 1"
  using fl_of_int [of 1] by simp

lemmas parse_defs = parseEvent_def parseLoanCreated_def parseLoanRepaid_def parseLoanDefaulted_def scValToString_def
  scValToNativeMap_def stroopsToDecimal_def bigint_of_def date_of_seconds_def number_of_def field_or_def truthy_def
  native_text_def jdiv_def fl_int_numeral fl_1 Let_def

lemma parse_created [simp]:
  "parseEvent txt now (created_event i (NBig 1700000000)) =
     Some \<lparr>pv_id = i, pv_hash = i, pv_ledger = 400,
           pv_payload = EvLoanCreated ''L1'' ''GA'' 1 0 (Some 1700000000000)\<rparr>"
  by (simp add: created_event_def parse_defs)

lemma parse_undated [simp]:
  "parseEvent txt now (created_event i NNull) =
     Some \<lparr>pv_id = i, pv_hash = i, pv_ledger = 400, pv_payload = EvLoanCreated ''L1'' ''GA'' 1 0 None\<rparr>"
  by (simp add: created_event_def parse_defs)

lemma parse_repaid [simp]:
  "parseEvent txt now (repaid_event i 10000000) =
     Some \<lparr>pv_id = i, pv_hash = i, pv_ledger = 401, pv_payload = EvLoanRepaid ''L1'' i 1 1700000000000\<rparr>"
  by (simp add: repaid_event_def parse_defs)

lemmas index_defs = index_event_def persistEvent_def persistLoanCreated_def persistLoanRepaid_def
  persistLoanDefaulted_def persistScoreChanged_def recompute_status_def total_paid_def insert_unique_def
  single_def update_where_def unique_violation_def not_null_violation_def

text \<open>C29: Whatever the RPC server delivers and whichever queries fail, from empty tables every loan id, every
  loan event, every (transaction, loan) payment and every reputation event is stored at most once,
  and a loan is marked paid only when the payments stored for it by then cover principal and interest;
  the payments stored for it still do, as long as none of them is negative.\<close>

theorem indexed_once_paid_only_when_covered:
  assumes "indexed st"
  shows "distinct (map lx_loan (ix_loans st)) \<and> distinct (map lx_event (ix_loans st)) \<and>
    distinct (map (\<lambda>p. (pm_tx p, pm_loan p)) (ix_payments st)) \<and> distinct (map hs_event (ix_history st)) \<and>
    (\<forall>l \<in> set (ix_loans st). lx_status l = ''paid'' \<longrightarrow>
       (\<exists>n \<le> length (ix_payments st). jadd (lx_principal l) (lx_interest l) \<le> total_paid (lx_loan l) (take n (ix_payments st))) \<and>
       ((\<forall>p \<in> set (ix_payments st). pm_loan p = lx_loan l \<longrightarrow> 0 \<le> pm_amount p) \<longrightarrow>
          jadd (lx_principal l) (lx_interest l) \<le> total_paid (lx_loan l) (ix_payments st)))"
proof -
  have "jadd (lx_principal l) (lx_interest l) \<le> total_paid (lx_loan l) (ix_payments st)"
    if "jadd (lx_principal l) (lx_interest l) \<le> total_paid (lx_loan l) (take n (ix_payments st))"
      "\<forall>p \<in> set (ix_payments st). pm_loan p = lx_loan l \<longrightarrow> 0 \<le> pm_amount p" for l :: LoanIndexRow and n
    using total_paid_later [OF that(2)] that(1) by (rule order_trans [rotated])
  with indexed_inv [OF assms] show ?thesis
    unfolding keys_unique_def paid_covered_def covered_def by blast
qed

definition paid_page :: "raw_event list" where
  "paid_page = [created_event ''e1'' (NBig 1700000000), repaid_event ''e2'' 10000000, repaid_event ''e2'' 10000000]"

lemmas cycle_defs = runIndexer_def indexContract_def index_range_def index_page_def fetchEvents_def healStaleCursor_def
  updateCursor_def getCursor_def LEDGER_RETENTION_BUFFER_def CATCH_UP_BUFFER_def clean_env_def empty_index_def

lemma paid_run: "runIndexer (clean_env paid_page) empty_index =
   \<lparr>ix_loans = [\<lparr>lx_loan = ''L1'', lx_wallet = ''GA'', lx_status = ''paid'', lx_principal = 1, lx_interest = 0,
       lx_due = 1700000000000, lx_event = ''e1'', lx_hash = Some ''e1'', lx_ledger = 400\<rparr>],
    ix_payments = [\<lparr>pm_loan = ''L1'', pm_tx = ''e2'', pm_amount = 1, pm_paid = 1700000000000\<rparr>],
    ix_history = [], ix_cache = [], ix_cursor = [''CL'' \<mapsto> 500, ''CR'' \<mapsto> 500], ix_running = False\<rparr>"
  by (simp add: cycle_defs index_defs paid_page_def jadd_def fl_1)

theorem indexed_once_paid_only_when_covered_witness:
  "indexed (runIndexer (clean_env paid_page) empty_index) \<and>
   map lx_status (ix_loans (runIndexer (clean_env paid_page) empty_index)) = [''paid'']"
proof -
  let ?st = "runIndexer (clean_env paid_page) empty_index"
  have st: "indexed ?st"
    by (intro indexed.Cycle indexed.Empty) (simp_all add: empty_index_def)
  from indexed_once_paid_only_when_covered [OF st] st show ?thesis by (simp add: paid_run)
qed

lemma recompute_payments [simp]: "ix_payments (recompute_status env k lid st) = ix_payments st"
  by (simp add: recompute_status_def Let_def split: option.split sum.split)

lemma persistLoanRepaid_stored:
  assumes "persistLoanRepaid env ev st = Inr st'" and "pv_payload ev = EvLoanRepaid lid tx a paid"
    and "\<And>s e. ie_faults env (pv_id ev) s = Some e \<Longrightarrow> err_code e \<noteq> ''23505''"
  shows "\<exists>x \<in> set (ix_payments st'). pm_tx x = tx \<and> pm_loan x = lid"
proof (cases "ie_faults env (pv_id ev) ''payment_index.insert''")
  case None
  with assms(1,2) show ?thesis
    by (auto simp: persistLoanRepaid_def insert_unique_def split: if_splits)
next
  case (Some e)
  with assms show ?thesis by (auto simp: persistLoanRepaid_def)
qed

lemma persistScoreChanged_stored:
  assumes "persistScoreChanged env ev st = Inr st'" and "pv_payload ev = EvScoreChanged w old new reason"
    and "\<And>s e. ie_faults env (pv_id ev) s = Some e \<Longrightarrow> err_code e \<noteq> ''23505''"
  shows "(\<exists>x \<in> set (ix_history st'). pv_id ev = hs_event x) \<and> old \<noteq> None \<and> new \<noteq> None"
proof (cases "ie_faults env (pv_id ev) ''history.insert''")
  case None
  with assms(1,2) show ?thesis
    by (auto simp: persistScoreChanged_def insert_unique_def not_null_violation_def Let_def split: if_splits option.splits)
next
  case (Some e)
  with assms show ?thesis by (auto simp: persistScoreChanged_def)
qed

text \<open>Delivering an event again, once it was stored, changes nothing: not the payment total, not the status,
  not the history, not the score.\<close>

theorem event_replay_harmless:
  assumes "persistEvent env ev st = Inr st'"
    and "\<And>s e. ie_faults env (pv_id ev) s = Some e \<Longrightarrow> err_code e \<noteq> ''23505''"
    and "\<And>s. ie_faults env' (pv_id ev) s = None"
  shows "persistEvent env' ev st' = Inr st'"
proof (cases "pv_payload ev")
  case (EvLoanCreated lid w p i due)
  then have pe: "persistEvent e ev s = persistLoanCreated e ev s" for e s by (simp add: persistEvent_def)
  show ?thesis
  proof (cases "ie_faults env (pv_id ev) ''loan_index.upsert''")
    case None
    with assms(1,3) EvLoanCreated show ?thesis
      by (auto simp: pe persistLoanCreated_def insert_unique_def unique_violation_def not_null_violation_def Let_def
          split: option.splits if_splits)
  next
    case (Some e)
    with assms(1,2) EvLoanCreated show ?thesis by (auto simp: pe persistLoanCreated_def)
  qed
next
  case (EvLoanRepaid lid tx a paid)
  then have p: "persistEvent e ev s = persistLoanRepaid e ev s" for e s by (simp add: persistEvent_def)
  have "\<exists>x \<in> set (ix_payments st'). pm_tx x = tx \<and> pm_loan x = lid"
    by (rule persistLoanRepaid_stored [OF assms(1) [unfolded p] EvLoanRepaid]) (rule assms(2))
  with assms(3) EvLoanRepaid show ?thesis
    by (auto simp: p persistLoanRepaid_def insert_unique_def unique_violation_def)
next
  case (EvLoanDefaulted lid)
  with assms show ?thesis
    by (auto simp: persistEvent_def persistLoanDefaulted_def update_where_def split: option.splits)
next
  case (EvScoreChanged w old new reason)
  then have p: "persistEvent e ev s = persistScoreChanged e ev s" for e s by (simp add: persistEvent_def)
  have "(\<exists>x \<in> set (ix_history st'). pv_id ev = hs_event x) \<and> old \<noteq> None \<and> new \<noteq> None"
    by (rule persistScoreChanged_stored [OF assms(1) [unfolded p] EvScoreChanged]) (rule assms(2))
  with assms(3) EvScoreChanged show ?thesis
    by (auto simp: p persistScoreChanged_def insert_unique_def unique_violation_def)
qed


definition loan_L1 :: LoanIndexRow where
  "loan_L1 = \<lparr>lx_loan = ''L1'', lx_wallet = ''GA'', lx_status = ''active'', lx_principal = 2, lx_interest = 0,
     lx_due = 1700000000000, lx_event = ''e1'', lx_hash = Some ''e1'', lx_ledger = 400\<rparr>"

definition repaid_L1 :: ParsedContractEvent where
  "repaid_L1 = \<lparr>pv_id = ''e2'', pv_hash = ''e2'', pv_ledger = 401, pv_payload = EvLoanRepaid ''L1'' ''e2'' 1 1700000000000\<rparr>"

definition defaulted_L1 :: ParsedContractEvent where
  "defaulted_L1 = \<lparr>pv_id = ''e3'', pv_hash = ''e3'', pv_ledger = 402, pv_payload = EvLoanDefaulted ''L1''\<rparr>"

lemmas L1_defs = loan_L1_def repaid_L1_def defaulted_L1_def clean_env_def empty_index_def

lemma fl_2: "fl 2 = 2"
  using fl_of_int [of 2] by simp

theorem event_replay_harmless_witness:
  "persistEvent (clean_env []) repaid_L1 (empty_index\<lparr>ix_loans := [loan_L1],
       ix_payments := [\<lparr>pm_loan = ''L1'', pm_tx = ''e2'', pm_amount = 1, pm_paid = 1700000000000\<rparr>]\<rparr>) =
   Inr (empty_index\<lparr>ix_loans := [loan_L1],
       ix_payments := [\<lparr>pm_loan = ''L1'', pm_tx = ''e2'', pm_amount = 1, pm_paid = 1700000000000\<rparr>]\<rparr>)"
  by (rule event_replay_harmless [where env = "clean_env []" and st = "empty_index\<lparr>ix_loans := [loan_L1]\<rparr>"])
    (simp_all add: index_defs L1_defs jadd_def fl_1 fl_2)

lemma repaid_new:
  assumes "ie_faults env (pv_id ev) ''payment_index.insert'' = None" and "pv_payload ev = EvLoanRepaid lid tx a paid"
    and "\<forall>p \<in> set (ix_payments st). (pm_tx p, pm_loan p) \<noteq> (tx, lid)"
  shows "persistEvent env ev st = Inr (recompute_status env (pv_id ev) lid
    (st\<lparr>ix_payments := ix_payments st @ [\<lparr>pm_loan = lid, pm_tx = tx, pm_amount = a, pm_paid = paid\<rparr>]\<rparr>))"
proof -
  let ?p = "\<lparr>pm_loan = lid, pm_tx = tx, pm_amount = a, pm_paid = paid\<rparr>"
  from assms(3) have "insert_unique (\<lambda>x y. pm_tx x = pm_tx y \<and> pm_loan x = pm_loan y) ?p (ix_payments st) = Inr (ix_payments st @ [?p])"
    by (auto simp: insert_unique_Inr)
  with assms(1,2) show ?thesis by (simp add: persistEvent_def persistLoanRepaid_def)
qed

lemma repaid_known:
  assumes "ie_faults env (pv_id ev) ''payment_index.insert'' = None" and "pv_payload ev = EvLoanRepaid lid tx a paid"
    and "p \<in> set (ix_payments st)" and "pm_tx p = tx" and "pm_loan p = lid"
  shows "persistEvent env ev st = Inr st"
proof -
  let ?p = "\<lparr>pm_loan = lid, pm_tx = tx, pm_amount = a, pm_paid = paid\<rparr>"
  from assms(3-5) have "insert_unique (\<lambda>x y. pm_tx x = pm_tx y \<and> pm_loan x = pm_loan y) ?p (ix_payments st) = Inl unique_violation"
    by (auto simp: insert_unique_def)
  with assms(1,2) show ?thesis
    by (simp add: persistEvent_def persistLoanRepaid_def unique_violation_def)
qed

lemma ball_update_where:
  "(\<forall>x \<in> set (update_where P f t). Q x) \<longleftrightarrow> (\<forall>x \<in> set t. if P x then Q (f x) else Q x)"
  by (auto simp: update_where_def)

lemma recompute_loans:
  assumes "filter (\<lambda>l. lx_loan l = lid) (ix_loans st) = [l]" and "\<And>k s. ie_faults env k s = None"
  shows "ix_loans (recompute_status env k lid st) = update_where (\<lambda>l. lx_loan l = lid)
    (\<lambda>l'. l'\<lparr>lx_status := if covered (ix_payments st) l then ''paid'' else ''active''\<rparr>) (ix_loans st)"
proof -
  have "l \<in> set (filter (\<lambda>l. lx_loan l = lid) (ix_loans st))" by (simp add: assms(1))
  then have "lx_loan l = lid" by simp
  with assms show ?thesis by (simp add: recompute_status_def single_def covered_def Let_def)
qed

text \<open>Delivering a page again is not harmless: a default followed by a repayment leaves the loan paid or
  active, and the same two events once more leave it defaulted, because the repayment, being known, no
  longer recomputes the status.\<close>

theorem page_replay_flips_status:
  assumes "\<And>k s. ie_faults env k s = None"
    and "pv_payload d = EvLoanDefaulted lid" and "pv_payload r = EvLoanRepaid lid tx a paid"
    and "filter (\<lambda>l. lx_loan l = lid) (ix_loans st) = [l]"
    and "\<forall>p \<in> set (ix_payments st). (pm_tx p, pm_loan p) \<noteq> (tx, lid)"
    and "persistEvent env d st = Inr s1" and "persistEvent env r s1 = Inr s2"
    and "persistEvent env d s2 = Inr s3" and "persistEvent env r s3 = Inr s4"
  shows "(\<forall>x \<in> set (ix_loans s2). lx_loan x = lid \<longrightarrow> lx_status x \<noteq> ''defaulted'') \<and>
    (\<forall>x \<in> set (ix_loans s4). lx_loan x = lid \<longrightarrow> lx_status x = ''defaulted'')"
proof -
  let ?p = "\<lparr>pm_loan = lid, pm_tx = tx, pm_amount = a, pm_paid = paid\<rparr>"
  let ?d = "update_where (\<lambda>l. lx_loan l = lid) (\<lambda>l. l\<lparr>lx_status := ''defaulted''\<rparr>)"
  from assms(1,2,6) have s1: "s1 = st\<lparr>ix_loans := ?d (ix_loans st)\<rparr>"
    by (simp add: persistEvent_def persistLoanDefaulted_def)
  have "l \<in> set (filter (\<lambda>l. lx_loan l = lid) (ix_loans st))" by (simp add: assms(4))
  then have lid: "lx_loan l = lid" by simp
  have f: "filter (\<lambda>l. lx_loan l = lid) (?d (ix_loans st)) = [l\<lparr>lx_status := ''defaulted''\<rparr>]"
    using assms(4) lid by (simp add: filter_update_where) (simp add: update_where_def)
  have s2: "s2 = recompute_status env (pv_id r) lid (s1\<lparr>ix_payments := ix_payments st @ [?p]\<rparr>)"
    using repaid_new [OF assms(1) assms(3), of s1] assms(5,7) by (simp add: s1)
  have first: "\<forall>x \<in> set (ix_loans s2). lx_loan x = lid \<longrightarrow> lx_status x \<noteq> ''defaulted''"
  proof -
    have "ix_loans s2 = update_where (\<lambda>l. lx_loan l = lid) (\<lambda>l'. l'\<lparr>lx_status :=
        if covered (ix_payments st @ [?p]) (l\<lparr>lx_status := ''defaulted''\<rparr>) then ''paid'' else ''active''\<rparr>) (ix_loans s1)"
      unfolding s2 using recompute_loans [of lid "s1\<lparr>ix_payments := ix_payments st @ [?p]\<rparr>" "l\<lparr>lx_status := ''defaulted''\<rparr>" env] f assms(1)
      by (simp add: s1)
    then show ?thesis by (simp add: ball_update_where)
  qed
  from assms(1,2,8) have s3: "s3 = s2\<lparr>ix_loans := ?d (ix_loans s2)\<rparr>"
    by (simp add: persistEvent_def persistLoanDefaulted_def)
  have s4: "s4 = s3"
    using repaid_known [OF assms(1) assms(3), of ?p s3] assms(9) by (simp add: s3 s2 s1)
  have "\<forall>x \<in> set (ix_loans s4). lx_loan x = lid \<longrightarrow> lx_status x = ''defaulted''"
    unfolding s4 s3 by (simp add: ball_update_where)
  with first show ?thesis by (rule conjI)
qed

theorem page_replay_flips_status_witness:
  "\<exists>(s2 :: index_state) (s4 :: index_state). map lx_status (ix_loans s2) = [''active''] \<and> map lx_status (ix_loans s4) = [''defaulted''] \<and>
     (\<forall>x \<in> set (ix_loans s4). lx_loan x = ''L1'' \<longrightarrow> lx_status x = ''defaulted'')"
proof -
  let ?st = "empty_index\<lparr>ix_loans := [loan_L1]\<rparr>" and ?env = "clean_env []"
  let ?step = "\<lambda>e s. projr (persistEvent ?env e s)"
  let ?s1 = "?step defaulted_L1 ?st" let ?s2 = "?step repaid_L1 ?s1"
  let ?s3 = "?step defaulted_L1 ?s2" let ?s4 = "?step repaid_L1 ?s3"
  note sims = index_defs L1_defs jadd_def fl_1 fl_2
  have "(\<forall>x \<in> set (ix_loans ?s2). lx_loan x = ''L1'' \<longrightarrow> lx_status x \<noteq> ''defaulted'') \<and>
    (\<forall>x \<in> set (ix_loans ?s4). lx_loan x = ''L1'' \<longrightarrow> lx_status x = ''defaulted'')"
    by (rule page_replay_flips_status [where env = ?env and d = defaulted_L1 and r = repaid_L1 and st = ?st and l = loan_L1
          and tx = "''e2''" and a = 1 and paid = 1700000000000 and ?s1.0 = ?s1 and ?s3.0 = ?s3])
      (simp_all add: sims)
  then have "\<forall>x \<in> set (ix_loans ?s4). lx_loan x = ''L1'' \<longrightarrow> lx_status x = ''defaulted''" by (rule conjunct2)
  moreover have "map lx_status (ix_loans ?s2) = [''active'']" by (simp add: sims)
  moreover have "map lx_status (ix_loans ?s4) = [''defaulted'']" by (simp add: sims)
  ultimately show ?thesis by (intro exI conjI) assumption+
qed

lemma persist_loan_events:
  assumes "persistEvent env ev st = Inr st'"
  shows "lx_event ` set (ix_loans st') \<subseteq> insert (pv_id ev) (lx_event ` set (ix_loans st))"
proof -
  have r: "lx_event ` set (ix_loans (recompute_status env k lid s)) \<subseteq> lx_event ` set (ix_loans s)" for k lid s
    by (auto simp: recompute_status_def Let_def set_update_where split: option.splits sum.splits)
  show ?thesis
  proof (cases "pv_payload ev")
    case (EvLoanRepaid lid tx a paid)
    with assms have "persistLoanRepaid env ev st = Inr st'" by (simp add: persistEvent_def)
    from persistLoanRepaid_Inr [OF this EvLoanRepaid] show ?thesis
      using r [of "pv_id ev" lid "st\<lparr>ix_payments := ix_payments st @ [\<lparr>pm_loan = lid, pm_tx = tx, pm_amount = a, pm_paid = paid\<rparr>]\<rparr>"]
      by auto
  qed (use assms in \<open>auto simp: persistEvent_def persistLoanCreated_def persistLoanDefaulted_def persistScoreChanged_def
      insert_unique_Inr set_update_where Let_def split: option.splits sum.splits if_splits\<close>)
qed

lemma persist_undated:
  "persistEvent env ev st = Inr st' \<Longrightarrow> pv_payload ev = EvLoanCreated lid w p i None \<Longrightarrow> st' = st"
  by (auto simp: persistEvent_def persistLoanCreated_def split: sum.splits if_splits)

lemma parseEvent_id: "parseEvent txt now raw = Some ev \<Longrightarrow> pv_id ev = rv_id raw \<and> pv_ledger ev = rv_ledger raw"
  by (auto simp: parseEvent_def Let_def)

text \<open>An event that cannot be stored is lost, not retried: \<open>due_date\<close> is not nullable, so a loan whose
  event carries none fails to insert, yet the cycle moves the cursor to at least the latest ledger,
  beyond the event.\<close>

theorem undated_loan_lost:
  assumes "ie_events env c start = Inr page" and "raw \<in> set page" and "start \<le> latest" and "rv_ledger raw \<le> latest"
    and "parseEvent (ie_bigint env) (ie_now env) raw = Some ev"
    and "pv_payload ev = EvLoanCreated lid w p i None"
    and "\<forall>x \<in> set page. rv_id x = rv_id raw \<longrightarrow> x = raw"
    and "\<forall>l \<in> set (ix_loans st). lx_event l \<noteq> rv_id raw"
    and "index_range env c start latest st = (Inr (), st')"
  shows "(\<forall>l \<in> set (ix_loans st'). lx_event l \<noteq> rv_id raw) \<and>
    (\<exists>n. ix_cursor st' c = Some n \<and> latest \<le> n \<and> rv_ledger raw \<le> n)"
proof -
  let ?absent = "\<lambda>s. \<forall>l \<in> set (ix_loans s). lx_event l \<noteq> rv_id raw"
  have one: "?absent (fst (index_event env x acc))" if "x \<in> set page" and "?absent (fst acc)" for x acc
  proof (cases "x = raw")
    case True
    with assms(5,6) that(2) show ?thesis
      by (auto simp: index_event_def dest: persist_undated split: sum.split)
  next
    case False
    with assms(7) that(1) have "rv_id x \<noteq> rv_id raw" by blast
    show ?thesis
    proof (cases "parseEvent (ie_bigint env) (ie_now env) x")
      case (Some e)
      with that(2) \<open>rv_id x \<noteq> rv_id raw\<close> show ?thesis
        using parseEvent_id [OF Some] persist_loan_events [of env e "fst acc"]
        by (cases "persistEvent env e (fst acc)") (auto simp: index_event_def)
    qed (use that(2) in \<open>simp add: index_event_def\<close>)
  qed
  have "?absent (fst (fold (index_event env) xs acc))" if "set xs \<subseteq> set page" and "?absent (fst acc)" for xs acc
    using that
  proof (induction xs arbitrary: acc)
    case (Cons x xs)
    from Cons.prems have "?absent (fst (index_event env x acc))" by (intro one) auto
    with Cons.prems(1) show ?case by (simp add: Cons.IH)
  qed simp
  from this [of page "(st, start)"] assms(8) have fold: "?absent (fst (fold (index_event env) page (st, start)))" by simp
  obtain s m where f: "fold (index_event env) page (st, start) = (s, m)" by fastforce
  from assms(1,3) have "index_range env c start latest st = index_page env c start latest page st"
    by (simp add: index_range_def fetchEvents_def)
  moreover from assms(2) have "page \<noteq> []" by auto
  ultimately have "updateCursor env c (max m latest) s = Inr st'"
    using assms(9) f by (cases "updateCursor env c (max m latest) s") (simp_all add: index_page_def)
  then have "st' = s\<lparr>ix_cursor := (ix_cursor s)(c \<mapsto> max m latest)\<rparr>"
    by (simp add: updateCursor_def split: option.splits)
  with fold f assms(4) show ?thesis by simp
qed


theorem undated_loan_lost_witness:
  "\<exists>(st' :: index_state) n. ix_loans st' = [] \<and> ix_cursor st' ''CL'' = Some n \<and> 400 \<le> n"
proof -
  let ?raw = "created_event ''e1'' NNull"
  let ?env = "clean_env [?raw]"
  let ?st' = "empty_index\<lparr>ix_cursor := [''CL'' \<mapsto> 500]\<rparr>"
  have run: "index_range ?env ''CL'' 1 500 empty_index = (Inr (), ?st')"
    by (simp add: cycle_defs index_defs not_null_violation_def)
  have "(\<forall>l \<in> set (ix_loans ?st'). lx_event l \<noteq> rv_id ?raw) \<and>
    (\<exists>n. ix_cursor ?st' ''CL'' = Some n \<and> 500 \<le> n \<and> rv_ledger ?raw \<le> n)"
    by (rule undated_loan_lost [where page = "[?raw]", OF _ _ _ _ parse_undated _ _ _ run])
      (simp_all add: clean_env_def empty_index_def created_event_def)
  then have "ix_loans ?st' = [] \<and> ix_cursor ?st' ''CL'' = Some 500 \<and> (400::int) \<le> 500" by (simp add: empty_index_def)
  then show ?thesis by blast
qed

end
