(* ===== verification/Reconciliation.thy ===== *)
theory Reconciliation imports Loans Transactions Indexer begin

text \<open>
  The reconciliation job: \<open>indexer/authoritative-state.reader.ts\<close> collects what the index tables say,
  \<open>modules/transactions/transactions.repository.ts\<close> and \<open>modules/loans/loans.repository.ts\<close> write, and
  \<open>jobs/state-reconciliation/state-reconciliation.processor.ts\<close> compares and repairs.
\<close>

section \<open>What the index tables say\<close>

record AuthoritativeLoan =
  al_loanId :: string
  al_wallet :: string
  al_status :: string
  al_principal :: num

record AuthoritativeLiquidityPosition =
  ap_wallet :: string
  ap_amount :: num

record AuthoritativeReputation =
  ar_wallet :: string
  ar_score :: int

record AuthoritativeState =
  as_loans :: "AuthoritativeLoan list"
  as_positions :: "AuthoritativeLiquidityPosition list"
  as_reputations :: "AuthoritativeReputation list"
  as_hashes :: "string list"

record InvestmentIndexRow =
  iv_wallet :: string
  iv_amount :: num

text \<open>The members of a \<open>Set\<close> or the keys of a \<open>Map\<close>, in the order they first appear.\<close>

fun in_order :: "'a list \<Rightarrow> 'a list" where
  "in_order [] = []"
| "in_order (x # xs) = x # filter (\<lambda>y. y \<noteq> x) (in_order xs)"

definition latest_reputations :: "ReputationHistoryRow list \<Rightarrow> AuthoritativeReputation list" where
  "latest_reputations hs =
     (let rows = sort_key (\<lambda>h. - hs_ledger h) hs
      in map (\<lambda>w. \<lparr>ar_wallet = w, ar_score = (case find (\<lambda>h. hs_wallet h = w) rows of Some h \<Rightarrow> hs_new h | None \<Rightarrow> 0)\<rparr>)
           (in_order (map hs_wallet rows)))"

definition liquidity_by_wallet :: "InvestmentIndexRow list \<Rightarrow> AuthoritativeLiquidityPosition list" where
  "liquidity_by_wallet ivs =
     map (\<lambda>w. \<lparr>ap_wallet = w, ap_amount = foldl (\<lambda>s i. jadd s (iv_amount i)) 0 (filter (\<lambda>i. iv_wallet i = w) ivs)\<rparr>)
       (in_order (map iv_wallet ivs))"

definition nonempty :: "string option list \<Rightarrow> string list" where
  "nonempty xs = concat (map (\<lambda>x. case x of Some (c # cs) \<Rightarrow> [c # cs] | _ \<Rightarrow> []) xs)"

definition read_state :: "faults \<Rightarrow> index_state \<Rightarrow> InvestmentIndexRow list \<Rightarrow> AuthoritativeState result" where
  "read_state flt ix ivs =
     (if flt ''loan_index.select'' \<noteq> None \<or> flt ''investments_index.select'' \<noteq> None \<or>
         flt ''reputation_history.select'' \<noteq> None \<or> flt ''payment_index.select'' \<noteq> None
      then Inl (JsError ''Failed to read authoritative indexed state'')
      else Inr \<lparr>as_loans = map (\<lambda>l. \<lparr>al_loanId = lx_loan l, al_wallet = lx_wallet l, al_status = lx_status l,
                                     al_principal = lx_principal l\<rparr>) (ix_loans ix),
                as_positions = liquidity_by_wallet ivs,
                as_reputations = latest_reputations (ix_history ix),
                as_hashes = in_order (nonempty (map lx_hash (ix_loans ix) @
                  map hs_hash (sort_key (\<lambda>h. - hs_ledger h) (ix_history ix)) @
                  map (\<lambda>p. Some (pm_tx p)) (ix_payments ix)))\<rparr>)"

section \<open>The rows to repair\<close>

record LiquidityRow =
  lp_pk :: string
  lp_wallet :: string
  lp_amount :: num

datatype DriftType = MissingLoanRow | StaleLoanStatus | ProvisionalLoanId | OrphanedPendingTransaction
  | MissingTransactionRow | StaleLiquidityPosition | StaleReputation

definition DRIFT_TYPES :: "DriftType list" where
  "DRIFT_TYPES = [MissingLoanRow, StaleLoanStatus, ProvisionalLoanId, OrphanedPendingTransaction,
     MissingTransactionRow, StaleLiquidityPosition, StaleReputation]"

record DriftItem =
  di_type :: DriftType
  di_key :: string
  di_repaired :: bool

record recon_state =
  rs_loans :: "LoanRow list"
  rs_txs :: "TxRow list"
  rs_positions :: "LiquidityRow list"
  rs_cache :: "RepCacheRow list"
  rs_running :: bool

text \<open>\<open>rn_faults k\<close> are the faults of the queries about the row or key \<open>k\<close>, \<open>rn_pk k\<close> the id of a row inserted for it.\<close>

record recon_env =
  rn_now :: int
  rn_faults :: "string \<Rightarrow> faults"
  rn_pk :: "string \<Rightarrow> string"

type_synonym acc = "recon_state \<times> DriftItem list"

text \<open>A loop with \<open>await\<close>: the first exception ends it, what was written before stays.\<close>

fun for_each :: "('a \<Rightarrow> acc \<Rightarrow> unit result \<times> acc) \<Rightarrow> 'a list \<Rightarrow> acc \<Rightarrow> unit result \<times> acc" where
  "for_each f [] acc = (Inr (), acc)"
| "for_each f (x # xs) acc = (case f x acc of (Inl e, acc') \<Rightarrow> (Inl e, acc') | (Inr _, acc') \<Rightarrow> for_each f xs acc')"

definition then_do :: "unit result \<times> acc \<Rightarrow> (acc \<Rightarrow> unit result \<times> acc) \<Rightarrow> unit result \<times> acc" where
  "then_do r f = (case r of (Inl e, acc) \<Rightarrow> (Inl e, acc) | (Inr _, acc) \<Rightarrow> f acc)"

section \<open>The transactions repository\<close>

record ReconciliationTransaction =
  rt_id :: string
  rt_hash :: string
  rt_status :: TxStatus
  rt_submitted :: int

definition recon_tx :: "TxRow \<Rightarrow> ReconciliationTransaction list" where
  "recon_tx r =
     (case (case tx_thash r of Some h \<Rightarrow> Some h | None \<Rightarrow> tx_lhash r) of
        Some (c # cs) \<Rightarrow> [\<lparr>rt_id = tx_pk r, rt_hash = c # cs, rt_status = tx_status r, rt_submitted = tx_submitted r\<rparr>]
      | _ \<Rightarrow> [])"

definition findTransactions :: "faults \<Rightarrow> TxRow list \<Rightarrow> ReconciliationTransaction list result" where
  "findTransactions flt rows =
     (case flt ''transactions.reconcile'' of
        Some e \<Rightarrow> Inl (JsError (err_message e)) | None \<Rightarrow> Inr (concat (map recon_tx rows)))"

definition update_tx :: "faults \<Rightarrow> string \<Rightarrow> (TxRow \<Rightarrow> TxRow) \<Rightarrow> TxRow list \<Rightarrow> TxRow list result" where
  "update_tx flt pk f rows =
     (case flt ''transactions.update'' of
        Some e \<Rightarrow> Inl (JsError (err_message e)) | None \<Rightarrow> Inr (update_where (\<lambda>r. tx_pk r = pk) f rows))"

definition succeeded :: "int \<Rightarrow> TxRow \<Rightarrow> TxRow" where
  "succeeded now r = r\<lparr>tx_status := TxSuccess, tx_completed := Some now, tx_error := None\<rparr>"

definition orphaned :: "int \<Rightarrow> TxRow \<Rightarrow> TxRow" where
  "orphaned now r = r\<lparr>tx_status := TxFailed, tx_completed := Some now,
     tx_error := Some ''Reconciliation: transaction not found in authoritative indexed events''\<rparr>"

definition markSucceeded :: "faults \<Rightarrow> int \<Rightarrow> string \<Rightarrow> TxRow list \<Rightarrow> TxRow list result" where
  "markSucceeded flt now pk rows = update_tx flt pk (succeeded now) rows"

definition markOrphaned :: "faults \<Rightarrow> int \<Rightarrow> string \<Rightarrow> TxRow list \<Rightarrow> TxRow list result" where
  "markOrphaned flt now pk rows = update_tx flt pk (orphaned now) rows"

text \<open>
  The backfill upserts with \<open>onConflict: 'transaction_hash'\<close>. The only unique index on that column is
  partial (\<open>20260825000001_add_unique_transaction_hash.sql\<close>), and PostgreSQL accepts no partial index
  for a conflict target that does not repeat its predicate: the statement is refused with 42P10 while it
  is planned, whatever the table holds, so the insert of the row never happens.
\<close>

definition no_arbiter :: db_error where
  "no_arbiter = \<lparr>err_code = ''42P10'',
     err_message = ''there is no unique or exclusion constraint matching the ON CONFLICT specification''\<rparr>"

definition backfill :: "faults \<Rightarrow> string \<Rightarrow> TxRow list \<Rightarrow> TxRow list result" where
  "backfill flt hash rows =
     Inl (JsError (''Failed to backfill indexed transaction: '' @
       err_message (case flt ''transactions.upsert'' of Some e \<Rightarrow> e | None \<Rightarrow> no_arbiter)))"

section \<open>Repairing\<close>

definition loan_status_of :: "string \<Rightarrow> LoanStatus" where
  "loan_status_of s =
     (if s = ''pending'' then LoanPending else if s = ''active'' then LoanActive
      else if s = ''completed'' then LoanCompleted else if s = ''defaulted'' then LoanDefaulted
      else if s = ''under_review'' then LoanUnderReview else if s = ''rejected'' then LoanRejected
      else LoanOther s)"

definition provisional :: "ReconciliationLoanRow \<Rightarrow> bool" where
  "provisional r \<longleftrightarrow> starts_with (rl_loanId r) ''loan_'' \<or> starts_with (rl_loanId r) ''pending_'' \<or>
     starts_with (rl_loanId r) ''pending-''"

text \<open>A \<open>Map\<close> made from a list of pairs keeps the last value of a key.\<close>

definition last_with :: "('a \<Rightarrow> bool) \<Rightarrow> 'a list \<Rightarrow> 'a option" where
  "last_with P xs = find P (rev xs)"

definition amount_matches :: "AuthoritativeLoan \<Rightarrow> ReconciliationLoanRow \<Rightarrow> bool" where
  "amount_matches c r \<longleftrightarrow> \<bar>jsub (rl_amount r) (al_principal c)\<bar> < fl (1 / 1000000) \<or>
     \<bar>jsub (jmul (rl_amount r) (fl (8 / 10))) (al_principal c)\<bar> < fl (1 / 1000000)"

definition provisional_match :: "ReconciliationLoanRow list \<Rightarrow> AuthoritativeLoan \<Rightarrow> ReconciliationLoanRow option" where
  "provisional_match rows c =
     (let candidates = filter (\<lambda>r. provisional r \<and> rl_wallet r = al_wallet c) rows
      in case find (amount_matches c) candidates of
           Some r \<Rightarrow> Some r
         | None \<Rightarrow> (case candidates of [r] \<Rightarrow> Some r | _ \<Rightarrow> None))"

definition reconcileLoan ::
  "recon_env \<Rightarrow> ReconciliationLoanRow list \<Rightarrow> AuthoritativeLoan \<Rightarrow> acc \<Rightarrow> unit result \<times> acc" where
  "reconcileLoan env rows c acc =
     (let (st, items) = acc; status = loan_status_of (al_status c); flt = rn_faults env (al_loanId c)
      in case last_with (\<lambda>r. rl_loanId r = al_loanId c) rows of
           Some row \<Rightarrow>
             if rl_status row = status then (Inr (), acc)
             else (case updateStatus flt (rl_id row) status (rs_loans st) of
                     Inl e \<Rightarrow> (Inl e, acc)
                   | Inr ls \<Rightarrow> (Inr (), st\<lparr>rs_loans := ls\<rparr>,
                       items @ [\<lparr>di_type = StaleLoanStatus, di_key = al_loanId c, di_repaired = True\<rparr>]))
         | None \<Rightarrow>
             (case provisional_match rows c of
                Some row \<Rightarrow>
                  (case resolveProvisionalId flt (rl_id row) (al_loanId c) status (rs_loans st) of
                     Inl e \<Rightarrow> (Inl e, acc)
                   | Inr ls \<Rightarrow> (Inr (), st\<lparr>rs_loans := ls\<rparr>,
                       items @ [\<lparr>di_type = ProvisionalLoanId, di_key = rl_loanId row, di_repaired = True\<rparr>]))
              | None \<Rightarrow> (Inr (), st, items @ [\<lparr>di_type = MissingLoanRow, di_key = al_loanId c, di_repaired = False\<rparr>])))"

definition reconcileLoans ::
  "recon_env \<Rightarrow> AuthoritativeState \<Rightarrow> ReconciliationLoanRow list \<Rightarrow> acc \<Rightarrow> unit result \<times> acc" where
  "reconcileLoans env chain rows acc = for_each (reconcileLoan env rows) (as_loans chain) acc"

definition chain_hashes :: "AuthoritativeState \<Rightarrow> string list" where
  "chain_hashes chain = in_order (map to_lower (as_hashes chain))"

definition reconcileHash ::
  "recon_env \<Rightarrow> ReconciliationTransaction list \<Rightarrow> string \<Rightarrow> acc \<Rightarrow> unit result \<times> acc" where
  "reconcileHash env rows h acc =
     (let (st, items) = acc; flt = rn_faults env h
      in case last_with (\<lambda>r. to_lower (rt_hash r) = h) rows of
           None \<Rightarrow>
             (case backfill flt h (rs_txs st) of
                Inl e \<Rightarrow> (Inl e, acc)
              | Inr txs \<Rightarrow> (Inr (), st\<lparr>rs_txs := txs\<rparr>,
                  items @ [\<lparr>di_type = MissingTransactionRow, di_key = h, di_repaired = True\<rparr>]))
         | Some row \<Rightarrow>
             if rt_status row \<noteq> TxPending then (Inr (), acc)
             else (case markSucceeded flt (rn_now env) (rt_id row) (rs_txs st) of
                     Inl e \<Rightarrow> (Inl e, acc)
                   | Inr txs \<Rightarrow> (Inr (), st\<lparr>rs_txs := txs\<rparr>,
                       items @ [\<lparr>di_type = OrphanedPendingTransaction, di_key = h, di_repaired = True\<rparr>])))"

definition reconcilePending ::
  "recon_env \<Rightarrow> string list \<Rightarrow> ReconciliationTransaction \<Rightarrow> acc \<Rightarrow> unit result \<times> acc" where
  "reconcilePending env hashes row acc =
     (let (st, items) = acc
      in if rt_status row = TxPending \<and> to_lower (rt_hash row) \<notin> set hashes \<and>
            rt_submitted row < rn_now env - 30 * 60 * 1000
         then (case markOrphaned (rn_faults env (rt_id row)) (rn_now env) (rt_id row) (rs_txs st) of
                 Inl e \<Rightarrow> (Inl e, acc)
               | Inr txs \<Rightarrow> (Inr (), st\<lparr>rs_txs := txs\<rparr>,
                   items @ [\<lparr>di_type = OrphanedPendingTransaction, di_key = rt_hash row, di_repaired = True\<rparr>]))
         else (Inr (), acc))"

definition reconcileTransactions ::
  "recon_env \<Rightarrow> AuthoritativeState \<Rightarrow> ReconciliationTransaction list \<Rightarrow> acc \<Rightarrow> unit result \<times> acc" where
  "reconcileTransactions env chain rows acc =
     then_do (for_each (reconcileHash env rows) (chain_hashes chain) acc)
       (for_each (reconcilePending env (chain_hashes chain)) rows)"

definition reconcilePosition ::
  "recon_env \<Rightarrow> LiquidityRow list \<Rightarrow> AuthoritativeLiquidityPosition \<Rightarrow> acc \<Rightarrow> unit result \<times> acc" where
  "reconcilePosition env rows p acc =
     (let (st, items) = acc; flt = rn_faults env (ap_wallet p); row = last_with (\<lambda>r. lp_wallet r = ap_wallet p) rows
      in case row of
           Some r \<Rightarrow>
             if lp_amount r = ap_amount p then (Inr (), acc)
             else (case flt ''positions.update'' of
                     Some e \<Rightarrow> (Inl (JsError (err_message e)), acc)
                   | None \<Rightarrow> (Inr (), st\<lparr>rs_positions := update_where (\<lambda>x. lp_pk x = lp_pk r)
                         (\<lambda>x. x\<lparr>lp_wallet := ap_wallet p, lp_amount := ap_amount p\<rparr>) (rs_positions st)\<rparr>,
                       items @ [\<lparr>di_type = StaleLiquidityPosition, di_key = ap_wallet p, di_repaired = True\<rparr>]))
         | None \<Rightarrow>
             (case flt ''positions.insert'' of
                Some e \<Rightarrow> (Inl (JsError (err_message e)), acc)
              | None \<Rightarrow> (Inr (), st\<lparr>rs_positions := rs_positions st @
                    [\<lparr>lp_pk = rn_pk env (ap_wallet p), lp_wallet = ap_wallet p, lp_amount = ap_amount p\<rparr>]\<rparr>,
                  items @ [\<lparr>di_type = StaleLiquidityPosition, di_key = ap_wallet p, di_repaired = True\<rparr>])))"

definition reconcileLiquidity :: "recon_env \<Rightarrow> AuthoritativeState \<Rightarrow> acc \<Rightarrow> unit result \<times> acc" where
  "reconcileLiquidity env chain acc =
     (case rn_faults env [] ''positions.select'' of
        Some e \<Rightarrow> (Inl (JsError (err_message e)), acc)
      | None \<Rightarrow> for_each (reconcilePosition env (rs_positions (fst acc))) (as_positions chain) acc)"

definition reconcileScore ::
  "recon_env \<Rightarrow> RepCacheRow list \<Rightarrow> AuthoritativeReputation \<Rightarrow> acc \<Rightarrow> unit result \<times> acc" where
  "reconcileScore env rows r acc =
     (let (st, items) = acc
      in case last_with (\<lambda>x. rc_wallet x = ar_wallet r) rows of
           None \<Rightarrow> (Inr (), st, items @ [\<lparr>di_type = StaleReputation, di_key = ar_wallet r, di_repaired = False\<rparr>])
         | Some row \<Rightarrow>
             if rc_score row = ar_score r then (Inr (), acc)
             else (case rn_faults env (ar_wallet r) ''cache.update'' of
                     Some e \<Rightarrow> (Inl (JsError (err_message e)), acc)
                   | None \<Rightarrow> (Inr (), st\<lparr>rs_cache := update_where (\<lambda>x. rc_wallet x = ar_wallet r)
                         (\<lambda>x. x\<lparr>rc_score := ar_score r, rc_synced := rn_now env\<rparr>) (rs_cache st)\<rparr>,
                       items @ [\<lparr>di_type = StaleReputation, di_key = ar_wallet r, di_repaired = True\<rparr>])))"

definition reconcileReputation :: "recon_env \<Rightarrow> AuthoritativeState \<Rightarrow> acc \<Rightarrow> unit result \<times> acc" where
  "reconcileReputation env chain acc =
     (case rn_faults env [] ''cache.select'' of
        Some e \<Rightarrow> (Inl (JsError (err_message e)), acc)
      | None \<Rightarrow> for_each (reconcileScore env (rs_cache (fst acc))) (as_reputations chain) acc)"

section \<open>A cycle\<close>

record DriftReport =
  dr_started :: int
  dr_drift :: nat
  dr_repaired :: nat
  dr_byType :: "DriftType \<Rightarrow> nat"
  dr_items :: "DriftItem list"

definition drift_report :: "int \<Rightarrow> DriftItem list \<Rightarrow> DriftReport" where
  "drift_report now items =
     \<lparr>dr_started = now, dr_drift = length items, dr_repaired = length (filter di_repaired items),
      dr_byType = (\<lambda>t. length (filter (\<lambda>i. di_type i = t) items)), dr_items = items\<rparr>"

definition reconcile ::
  "recon_env \<Rightarrow> index_state \<Rightarrow> InvestmentIndexRow list \<Rightarrow> recon_state \<Rightarrow> DriftReport result \<times> recon_state" where
  "reconcile env ix ivs st =
     (case (read_state (rn_faults env []) ix ivs, findForReconciliation (rn_faults env []) (rs_loans st),
            findTransactions (rn_faults env []) (rs_txs st)) of
        (Inr chain, Inr loans, Inr txs) \<Rightarrow>
          (case then_do (then_do (then_do (reconcileLoans env chain loans (st, []))
                   (reconcileTransactions env chain txs)) (reconcileLiquidity env chain)) (reconcileReputation env chain) of
             (Inl e, st', _) \<Rightarrow> (Inl e, st')
           | (Inr _, st', items) \<Rightarrow> (Inr (drift_report (rn_now env) items), st'))
      | (Inl e, _) \<Rightarrow> (Inl e, st)
      | (_, Inl e, _) \<Rightarrow> (Inl e, st)
      | (_, _, Inl e) \<Rightarrow> (Inl e, st))"

definition runScheduled :: "recon_env \<Rightarrow> index_state \<Rightarrow> InvestmentIndexRow list \<Rightarrow> recon_state \<Rightarrow> recon_state" where
  "runScheduled env ix ivs st =
     (if rs_running st then st
      else (snd (reconcile env ix ivs (st\<lparr>rs_running := True\<rparr>)))\<lparr>rs_running := False\<rparr>)"


section \<open>Loops that repair\<close>

text \<open>
  A loop over records with different keys, each step of which repairs its own record and leaves the repaired
  ones repaired; \<open>inv ps\<close> is what holds after the records \<open>ps\<close>.
\<close>

locale repair_loop =
  fixes step :: "'a \<Rightarrow> acc \<Rightarrow> unit result \<times> acc"
    and key :: "'a \<Rightarrow> string"
    and inv :: "'a list \<Rightarrow> acc \<Rightarrow> bool"
    and fixed :: "'a \<Rightarrow> acc \<Rightarrow> bool"
  assumes step: "inv ps acc \<Longrightarrow> \<forall>p \<in> set ps. key p \<noteq> key x \<Longrightarrow>
      fst (step x acc) = Inr () \<and> inv (x # ps) (snd (step x acc)) \<and> fixed x (snd (step x acc))"
    and frame: "inv ps acc \<Longrightarrow> \<forall>p \<in> set ps. key p \<noteq> key x \<Longrightarrow> y \<in> set ps \<Longrightarrow> fixed y acc \<Longrightarrow> fixed y (snd (step x acc))"
begin

lemma loop:
  assumes "inv ps acc" and "distinct (map key xs)" and "key ` set xs \<inter> key ` set ps = {}" and "\<forall>y \<in> set ps. fixed y acc"
  shows "fst (for_each step xs acc) = Inr () \<and> inv (rev xs @ ps) (snd (for_each step xs acc)) \<and>
    (\<forall>y \<in> set xs \<union> set ps. fixed y (snd (for_each step xs acc)))"
  using assms
proof (induction xs arbitrary: ps acc)
  case (Cons x xs)
  from Cons.prems(3) have "key x \<notin> key ` set ps" by auto
  then have x: "\<forall>p \<in> set ps. key p \<noteq> key x" by (metis imageI)
  obtain r acc' where s: "step x acc = (r, acc')" by (cases "step x acc")
  with step [OF Cons.prems(1) x] have r: "r = Inr ()" and i: "inv (x # ps) acc'" and f: "fixed x acc'" by auto
  from frame [OF Cons.prems(1) x] Cons.prems(4) s f have "\<forall>y \<in> set (x # ps). fixed y acc'" by auto
  with Cons.prems i have "fst (for_each step xs acc') = Inr () \<and> inv (rev xs @ x # ps) (snd (for_each step xs acc')) \<and>
    (\<forall>y \<in> set xs \<union> set (x # ps). fixed y (snd (for_each step xs acc')))"
    by (intro Cons.IH) auto
  with s r show ?case by simp
qed auto

lemma repaired:
  assumes "inv [] acc" and "distinct (map key xs)"
  shows "fst (for_each step xs acc) = Inr () \<and> (\<forall>y \<in> set xs. fixed y (snd (for_each step xs acc)))"
  using loop [of "[]" acc xs] assms by simp

end

lemma for_each_frame:
  assumes "\<And>x acc. g (fst (snd (f x acc))) = g (fst acc)"
  shows "g (fst (snd (for_each f xs acc))) = g (fst acc)"
proof (induction xs arbitrary: acc)
  case (Cons x xs)
  obtain r acc' where s: "f x acc = (r, acc')" by (cases "f x acc")
  with assms [of x acc] Cons.IH [of acc'] show ?case by (cases r) auto
qed simp

lemma find_SomeD: "find P xs = Some x \<Longrightarrow> x \<in> set xs \<and> P x"
  by (induction xs) (auto split: if_splits)

lemma last_with_Some: "last_with P xs = Some x \<Longrightarrow> x \<in> set xs \<and> P x"
  by (auto simp: last_with_def dest: find_SomeD)

lemma last_with_None: "last_with P xs = None \<longleftrightarrow> (\<forall>x \<in> set xs. \<not> P x)"
  by (auto simp: last_with_def find_None_iff)

definition unfailing :: "recon_env \<Rightarrow> bool" where
  "unfailing env \<longleftrightarrow> (\<forall>k s. rn_faults env k s = None)"

lemma unfailingD [simp]: "unfailing env \<Longrightarrow> rn_faults env k s = None"
  by (simp add: unfailing_def)

text \<open>Scores.\<close>

definition score_inv :: "recon_env \<Rightarrow> RepCacheRow list \<Rightarrow> AuthoritativeReputation list \<Rightarrow> acc \<Rightarrow> bool" where
  "score_inv env rows ps acc \<longleftrightarrow> unfailing env \<and> distinct (map rc_wallet rows) \<and>
     rc_wallet ` set (rs_cache (fst acc)) \<subseteq> rc_wallet ` set rows \<and>
     (\<forall>x \<in> set (rs_cache (fst acc)). (\<forall>p \<in> set ps. ar_wallet p \<noteq> rc_wallet x) \<longrightarrow> x \<in> set rows)"

definition score_fixed :: "AuthoritativeReputation \<Rightarrow> acc \<Rightarrow> bool" where
  "score_fixed r acc \<longleftrightarrow> (\<forall>x \<in> set (rs_cache (fst acc)). rc_wallet x = ar_wallet r \<longrightarrow> rc_score x = ar_score r)"

lemma distinct_key: "distinct (map key xs) \<Longrightarrow> x \<in> set xs \<Longrightarrow> y \<in> set xs \<Longrightarrow> key x = key y \<Longrightarrow> x = y"
  by (metis distinct_map inj_onD)

interpretation scores: repair_loop "reconcileScore env rows" ar_wallet "score_inv env rows" score_fixed for env rows
proof
  fix ps and acc :: acc and x :: AuthoritativeReputation
  assume inv: "score_inv env rows ps acc" and x: "\<forall>p \<in> set ps. ar_wallet p \<noteq> ar_wallet x"
  obtain st items where acc: "acc = (st, items)" by fastforce
  show "fst (reconcileScore env rows x acc) = Inr () \<and> score_inv env rows (x # ps) (snd (reconcileScore env rows x acc)) \<and>
      score_fixed x (snd (reconcileScore env rows x acc))"
  proof (cases "last_with (\<lambda>r. rc_wallet r = ar_wallet x) rows")
    case None
    with inv have "\<forall>y \<in> set (rs_cache st). rc_wallet y \<noteq> ar_wallet x"
      by (fastforce simp: last_with_None score_inv_def acc)
    with None inv show ?thesis
      by (auto simp: reconcileScore_def acc score_inv_def score_fixed_def)
  next
    case (Some row)
    then have row: "row \<in> set rows" "rc_wallet row = ar_wallet x" by (auto dest: last_with_Some)
    have "y = row" if "y \<in> set (rs_cache st)" "rc_wallet y = ar_wallet x" for y
      using that inv x row distinct_key [of rc_wallet rows y row] by (auto simp: score_inv_def acc)
    with Some inv row show ?thesis
      by (auto simp: reconcileScore_def acc score_inv_def score_fixed_def set_update_where intro: rev_image_eqI)
  qed
next
  fix ps and acc :: acc and x y :: AuthoritativeReputation
  assume "score_inv env rows ps acc" "\<forall>p \<in> set ps. ar_wallet p \<noteq> ar_wallet x" "y \<in> set ps" "score_fixed y acc"
  then show "score_fixed y (snd (reconcileScore env rows x acc))"
    by (cases acc) (auto simp: reconcileScore_def score_inv_def score_fixed_def set_update_where split: option.splits)
qed


text \<open>Liquidity positions.\<close>

definition position_inv :: "recon_env \<Rightarrow> LiquidityRow list \<Rightarrow> AuthoritativeLiquidityPosition list \<Rightarrow> acc \<Rightarrow> bool" where
  "position_inv env rows ps acc \<longleftrightarrow> unfailing env \<and> distinct (map lp_pk rows) \<and> distinct (map lp_wallet rows) \<and>
     (\<forall>w. \<forall>r \<in> set rows. lp_pk r \<noteq> rn_pk env w) \<and>
     (\<forall>x \<in> set rows. (\<forall>p \<in> set ps. ap_wallet p \<noteq> lp_wallet x) \<longrightarrow> x \<in> set (rs_positions (fst acc))) \<and>
     (\<forall>x \<in> set (rs_positions (fst acc)). (\<forall>p \<in> set ps. ap_wallet p \<noteq> lp_wallet x) \<longrightarrow> x \<in> set rows) \<and>
     (\<forall>x \<in> set (rs_positions (fst acc)). \<forall>r \<in> set rows. lp_wallet x \<noteq> lp_wallet r \<longrightarrow> lp_pk x \<noteq> lp_pk r)"

definition position_fixed :: "AuthoritativeLiquidityPosition \<Rightarrow> acc \<Rightarrow> bool" where
  "position_fixed p acc \<longleftrightarrow> (\<exists>x \<in> set (rs_positions (fst acc)). lp_wallet x = ap_wallet p) \<and>
     (\<forall>x \<in> set (rs_positions (fst acc)). lp_wallet x = ap_wallet p \<longrightarrow> lp_amount x = ap_amount p)"

lemma set_update_single:
  assumes "x \<in> set t" and "P x" and "\<And>y. y \<in> set t \<Longrightarrow> P y \<Longrightarrow> y = x"
  shows "set (update_where P f t) = insert (f x) (set t - {x})"
proof -
  from assms have "set t \<inter> {r. P r} = {x}" "set t \<inter> {r. \<not> P r} = set t - {x}" by blast+
  then show ?thesis by (simp add: update_where_def)
qed

lemma position_inv_mono: "position_inv env rows ps acc \<Longrightarrow> position_inv env rows (x # ps) acc"
  by (simp add: position_inv_def)

interpretation positions: repair_loop "reconcilePosition env rows" ap_wallet "position_inv env rows" position_fixed for env rows
proof
  fix ps and acc :: acc and x :: AuthoritativeLiquidityPosition
  assume inv: "position_inv env rows ps acc" and x: "\<forall>p \<in> set ps. ap_wallet p \<noteq> ap_wallet x"
  obtain st items where acc: "acc = (st, items)" by fastforce
  show "fst (reconcilePosition env rows x acc) = Inr () \<and> position_inv env rows (x # ps) (snd (reconcilePosition env rows x acc)) \<and>
      position_fixed x (snd (reconcilePosition env rows x acc))"
  proof (cases "last_with (\<lambda>r. lp_wallet r = ap_wallet x) rows")
    case None
    then have none: "\<forall>y \<in> set rows. lp_wallet y \<noteq> ap_wallet x" by (simp add: last_with_None)
    have absent: "\<forall>y \<in> set (rs_positions st). lp_wallet y \<noteq> ap_wallet x"
    proof (intro ballI notI)
      fix y assume y: "y \<in> set (rs_positions st)" "lp_wallet y = ap_wallet x"
      with x have "\<forall>p \<in> set ps. ap_wallet p \<noteq> lp_wallet y" by auto
      with inv y have "y \<in> set rows" unfolding position_inv_def acc fst_conv by blast
      with none y show False by simp
    qed
    from None inv have res: "reconcilePosition env rows x acc = (Inr (), st\<lparr>rs_positions := rs_positions st @
        [\<lparr>lp_pk = rn_pk env (ap_wallet x), lp_wallet = ap_wallet x, lp_amount = ap_amount x\<rparr>]\<rparr>,
        items @ [\<lparr>di_type = StaleLiquidityPosition, di_key = ap_wallet x, di_repaired = True\<rparr>])"
      by (simp add: reconcilePosition_def acc position_inv_def)
    have "position_fixed x (snd (reconcilePosition env rows x acc))"
      using absent by (simp add: res position_fixed_def)
    moreover have "position_inv env rows (x # ps) (snd (reconcilePosition env rows x acc))"
      unfolding res using inv none by (simp add: position_inv_def acc) metis
    ultimately show ?thesis by (simp add: res)
  next
    case (Some row)
    then have row: "row \<in> set rows" "lp_wallet row = ap_wallet x" by (auto dest: last_with_Some)
    have in_st: "row \<in> set (rs_positions st)" using inv x row by (auto simp: position_inv_def acc)
    have only: "y = row" if "y \<in> set (rs_positions st)" "lp_wallet y = ap_wallet x" for y
      using that inv x row distinct_key [of lp_wallet rows y row] by (auto simp: position_inv_def acc)
    have pk: "y = row" if "y \<in> set (rs_positions st)" "lp_pk y = lp_pk row" for y
    proof (rule only)
      from inv row(1) that show "lp_wallet y = ap_wallet x"
        unfolding position_inv_def acc fst_conv row(2) [symmetric] by blast
    qed (rule that)
    show ?thesis
    proof (cases "lp_amount row = ap_amount x")
      case True
      with Some have res: "reconcilePosition env rows x acc = (Inr (), acc)"
        by (simp add: reconcilePosition_def acc)
      have "position_fixed x acc"
        using row in_st only True unfolding position_fixed_def acc fst_conv by metis
      with position_inv_mono [OF inv] show ?thesis by (simp add: res)
    next
      case False
      let ?ps' = "update_where (\<lambda>x. lp_pk x = lp_pk row) (\<lambda>y. y\<lparr>lp_wallet := ap_wallet x, lp_amount := ap_amount x\<rparr>) (rs_positions st)"
      have set': "set ?ps' = insert (row\<lparr>lp_wallet := ap_wallet x, lp_amount := ap_amount x\<rparr>) (set (rs_positions st) - {row})"
        by (rule set_update_single [OF in_st]) (rule refl, rule pk)
      from False Some inv have res: "reconcilePosition env rows x acc = (Inr (), st\<lparr>rs_positions := ?ps'\<rparr>,
          items @ [\<lparr>di_type = StaleLiquidityPosition, di_key = ap_wallet x, di_repaired = True\<rparr>])"
        by (simp add: reconcilePosition_def acc position_inv_def)
      have "position_fixed x (snd (reconcilePosition env rows x acc))"
        using only by (auto simp: res position_fixed_def set')
      moreover have "position_inv env rows (x # ps) (snd (reconcilePosition env rows x acc))"
      proof -
        have "\<forall>r \<in> set rows. ap_wallet x \<noteq> lp_wallet r \<longrightarrow> lp_pk row \<noteq> lp_pk r"
          using inv row distinct_key [of lp_pk rows row] unfolding position_inv_def by metis
        moreover have "z \<noteq> row" if "ap_wallet x \<noteq> lp_wallet z" for z using that row(2) by auto
        ultimately show ?thesis unfolding res using inv row by (simp add: position_inv_def acc set')
      qed
      ultimately show ?thesis by (simp add: res)
    qed
  qed
next
  fix ps and acc :: acc and x y :: AuthoritativeLiquidityPosition
  assume inv: "position_inv env rows ps acc" and x: "\<forall>p \<in> set ps. ap_wallet p \<noteq> ap_wallet x" and y: "y \<in> set ps" "position_fixed y acc"
  obtain st items where acc: "acc = (st, items)" by fastforce
  from x y(1) have xy: "ap_wallet y \<noteq> ap_wallet x" by blast
  show "position_fixed y (snd (reconcilePosition env rows x acc))"
  proof (cases "last_with (\<lambda>r. lp_wallet r = ap_wallet x) rows")
    case None
    with inv y(2) xy show ?thesis
      by (simp add: reconcilePosition_def acc position_inv_def position_fixed_def)
  next
    case (Some row)
    then have row: "row \<in> set rows" "lp_wallet row = ap_wallet x" by (auto dest: last_with_Some)
    have other: "lp_pk z \<noteq> lp_pk row" if "z \<in> set (rs_positions st)" "lp_wallet z = ap_wallet y" for z
      using that inv row xy unfolding position_inv_def acc fst_conv by metis
    show ?thesis
    proof (cases "lp_amount row = ap_amount x")
      case True
      with Some y(2) show ?thesis by (simp add: reconcilePosition_def acc)
    next
      case False
      let ?ps' = "update_where (\<lambda>x. lp_pk x = lp_pk row) (\<lambda>y. y\<lparr>lp_wallet := ap_wallet x, lp_amount := ap_amount x\<rparr>) (rs_positions st)"
      from False Some inv have res: "snd (reconcilePosition env rows x acc) = (st\<lparr>rs_positions := ?ps'\<rparr>,
          items @ [\<lparr>di_type = StaleLiquidityPosition, di_key = ap_wallet x, di_repaired = True\<rparr>])"
        by (simp add: reconcilePosition_def acc position_inv_def)
      from y(2) obtain z where z: "z \<in> set (rs_positions st)" "lp_wallet z = ap_wallet y"
        by (auto simp: position_fixed_def acc)
      with other have "z \<in> set ?ps'" by (fastforce simp: update_where_def)
      moreover have "lp_amount u = ap_amount y" if "u \<in> set ?ps'" "lp_wallet u = ap_wallet y" for u
        using that y(2) xy by (auto simp: position_fixed_def acc update_where_def split: if_splits)
      ultimately show ?thesis unfolding res position_fixed_def using z by auto
    qed
  qed
qed


text \<open>Loans.\<close>

definition loan_inv :: "recon_env \<Rightarrow> ReconciliationLoanRow list \<Rightarrow> AuthoritativeLoan list \<Rightarrow> acc \<Rightarrow> bool" where
  "loan_inv env rows ps acc \<longleftrightarrow> unfailing env \<and> distinct (map rl_id rows) \<and> distinct (map rl_loanId rows) \<and>
     (\<forall>l \<in> set (rs_loans (fst acc)). (\<exists>r \<in> set rows. rl_loanId r = loan_id l) \<or> (\<exists>c \<in> set ps. al_loanId c = loan_id l)) \<and>
     (\<forall>r \<in> set rows. \<not> provisional r \<longrightarrow> (\<forall>c \<in> set ps. al_loanId c \<noteq> rl_loanId r) \<longrightarrow>
        (\<forall>l \<in> set (rs_loans (fst acc)). loan_pk l = rl_id r \<longrightarrow> loan_status l = rl_status r))"

definition loan_fixed :: "ReconciliationLoanRow list \<Rightarrow> AuthoritativeLoan \<Rightarrow> acc \<Rightarrow> bool" where
  "loan_fixed rows c acc \<longleftrightarrow> (\<forall>r \<in> set rows. \<not> provisional r \<longrightarrow> rl_loanId r = al_loanId c \<longrightarrow>
     (\<forall>l \<in> set (rs_loans (fst acc)). loan_pk l = rl_id r \<longrightarrow> loan_status l = loan_status_of (al_status c)))"

lemma provisional_match_Some:
  "provisional_match rows c = Some r \<Longrightarrow> r \<in> set rows \<and> provisional r \<and> rl_wallet r = al_wallet c"
proof -
  define cs where "cs = filter (\<lambda>r. provisional r \<and> rl_wallet r = al_wallet c) rows"
  assume "provisional_match rows c = Some r"
  then have "r \<in> set cs"
    unfolding provisional_match_def Let_def cs_def [symmetric]
    by (auto dest: find_SomeD split: option.splits list.splits)
  then show ?thesis by (simp add: cs_def)
qed

text \<open>A step on a chain loan changes nothing, sets the status of the row with its id, or renames a provisional row.\<close>

lemma reconcileLoan_step:
  assumes inv: "loan_inv env rows ps (st, items)" and x: "\<forall>p \<in> set ps. al_loanId p \<noteq> al_loanId x"
  obtains (same) items' where "reconcileLoan env rows x (st, items) = (Inr (), st, items')"
      and "\<forall>r \<in> set rows. rl_loanId r = al_loanId x \<longrightarrow> rl_status r = loan_status_of (al_status x)"
    | (status) row items' where "row \<in> set rows" and "rl_loanId row = al_loanId x"
      and "reconcileLoan env rows x (st, items) = (Inr (), st\<lparr>rs_loans :=
         update_where (\<lambda>l. loan_pk l = rl_id row) (set_status (loan_status_of (al_status x))) (rs_loans st)\<rparr>, items')"
    | (renamed) row items' where "row \<in> set rows" and "provisional row" and "\<forall>r \<in> set rows. rl_loanId r \<noteq> al_loanId x"
      and "reconcileLoan env rows x (st, items) = (Inr (), st\<lparr>rs_loans := update_where (\<lambda>l. loan_pk l = rl_id row)
         (\<lambda>l. l\<lparr>loan_id := al_loanId x, loan_status := loan_status_of (al_status x)\<rparr>) (rs_loans st)\<rparr>, items')"
proof (cases "last_with (\<lambda>r. rl_loanId r = al_loanId x) rows")
  case (Some row)
  then have row: "row \<in> set rows" "rl_loanId row = al_loanId x" by (auto dest: last_with_Some)
  have only: "\<forall>r \<in> set rows. rl_loanId r = al_loanId x \<longrightarrow> r = row"
    using inv row distinct_key [of rl_loanId rows] unfolding loan_inv_def by metis
  show thesis
  proof (cases "rl_status row = loan_status_of (al_status x)")
    case True
    with Some only show thesis by (intro same) (auto simp: reconcileLoan_def)
  next
    case False
    with Some inv row show thesis
      by (intro status [OF row]) (simp add: reconcileLoan_def loan_inv_def updateStatus_def)
  qed
next
  case None
  then have none: "\<forall>r \<in> set rows. rl_loanId r \<noteq> al_loanId x" by (simp add: last_with_None)
  show thesis
  proof (cases "provisional_match rows x")
    case None': (Some row)
    have "\<not> (\<exists>l \<in> set (rs_loans st). loan_pk l \<noteq> rl_id row \<and> loan_id l = al_loanId x)"
      using inv none x unfolding loan_inv_def fst_conv by metis
    with None None' inv provisional_match_Some [OF None'] none show thesis
      by (intro renamed [of row]) (auto simp: reconcileLoan_def loan_inv_def resolveProvisionalId_def)
  next
    case None': None
    with None none show thesis by (intro same) (auto simp: reconcileLoan_def)
  qed
qed


lemma loan_inv_mono: "loan_inv env rows ps acc \<Longrightarrow> loan_inv env rows (x # ps) acc"
  by (simp add: loan_inv_def) blast

interpretation loans: repair_loop "reconcileLoan env rows" al_loanId "loan_inv env rows" "loan_fixed rows" for env rows
proof
  fix ps and acc :: acc and x :: AuthoritativeLoan
  assume inv: "loan_inv env rows ps acc" and x: "\<forall>p \<in> set ps. al_loanId p \<noteq> al_loanId x"
  obtain st items where acc: "acc = (st, items)" by fastforce
  have ids: "rl_id r \<noteq> rl_id r'" if "r \<in> set rows" "r' \<in> set rows" "r \<noteq> r'" for r r'
    using that inv distinct_key [of rl_id rows r r'] by (auto simp: loan_inv_def)
  from inv [unfolded acc] x show "fst (reconcileLoan env rows x acc) = Inr () \<and> loan_inv env rows (x # ps) (snd (reconcileLoan env rows x acc)) \<and>
      loan_fixed rows x (snd (reconcileLoan env rows x acc))"
  proof (cases rule: reconcileLoan_step)
    case (same items')
    have "loan_fixed rows x (st, items)"
      using inv x same(2) by (simp add: acc loan_inv_def loan_fixed_def)
    moreover have "loan_inv env rows (x # ps) (snd (reconcileLoan env rows x acc)) =
        loan_inv env rows (x # ps) acc" by (simp add: acc same loan_inv_def)
    ultimately show ?thesis
      using loan_inv_mono [OF inv, of x] by (simp add: acc same(1) loan_fixed_def)
  next
    case (status row items')
    have "rl_id row \<noteq> rl_id r" if "r \<in> set rows" "rl_loanId r \<noteq> al_loanId x" for r
      using ids [of row r] that status(1,2) by blast
    then have "loan_inv env rows (x # ps) (snd (reconcileLoan env rows x acc))"
      using inv status by (simp add: acc loan_inv_def ball_update_where set_status_def) metis
    moreover have "loan_fixed rows x (snd (reconcileLoan env rows x acc))"
    proof -
      have "rl_id r = rl_id row" if "r \<in> set rows" "rl_loanId r = al_loanId x" for r
        using that status(1,2) inv distinct_key [of rl_loanId rows r row] by (simp add: loan_inv_def)
      then show ?thesis
        unfolding acc status(3) loan_fixed_def by (auto simp: update_where_def set_status_def)
    qed
    ultimately show ?thesis by (simp add: acc status)
  next
    case (renamed row items')
    have "rl_id row \<noteq> rl_id r" if "r \<in> set rows" "\<not> provisional r" for r
      using ids [of row r] that renamed(1,2) by metis
    then have "loan_inv env rows (x # ps) (snd (reconcileLoan env rows x acc))"
      using inv renamed by (simp add: acc loan_inv_def ball_update_where) metis
    moreover have "loan_fixed rows x (snd (reconcileLoan env rows x acc))"
      using renamed by (simp add: loan_fixed_def)
    ultimately show ?thesis by (simp add: acc renamed)
  qed
next
  fix ps and acc :: acc and x y :: AuthoritativeLoan
  assume inv: "loan_inv env rows ps acc" and x: "\<forall>p \<in> set ps. al_loanId p \<noteq> al_loanId x" and y: "y \<in> set ps" "loan_fixed rows y acc"
  obtain st items where acc: "acc = (st, items)" by fastforce
  have ids: "rl_id r \<noteq> rl_id r'" if "r \<in> set rows" "r' \<in> set rows" "r \<noteq> r'" for r r'
    using that inv distinct_key [of rl_id rows r r'] by (auto simp: loan_inv_def)
  from x y(1) have xy: "al_loanId y \<noteq> al_loanId x" by blast
  from inv [unfolded acc] x show "loan_fixed rows y (snd (reconcileLoan env rows x acc))"
  proof (cases rule: reconcileLoan_step)
    case (same items')
    with y show ?thesis by (simp add: acc loan_fixed_def)
  next
    case (status row items')
    have "rl_id row \<noteq> rl_id r" if "r \<in> set rows" "rl_loanId r = al_loanId y" for r
      using ids [of row r] that status(1,2) xy by metis
    with y(2) show ?thesis
      unfolding acc status(3) loan_fixed_def fst_conv snd_conv
      by (auto simp: ball_update_where set_status_def)
  next
    case (renamed row items')
    have "rl_id row \<noteq> rl_id r" if "r \<in> set rows" "\<not> provisional r" for r
      using ids [of row r] that renamed(1,2) by metis
    with y(2) show ?thesis
      unfolding acc renamed(4) loan_fixed_def fst_conv snd_conv by (auto simp: ball_update_where)
  qed
qed


section \<open>What each loop touches\<close>

lemma reconcileLoan_frame:
  "rs_txs (fst (snd (reconcileLoan env rows x acc))) = rs_txs (fst acc) \<and>
   rs_positions (fst (snd (reconcileLoan env rows x acc))) = rs_positions (fst acc) \<and>
   rs_cache (fst (snd (reconcileLoan env rows x acc))) = rs_cache (fst acc)"
  by (cases acc) (simp add: reconcileLoan_def Let_def split: option.split sum.split)

lemma reconcileHash_frame:
  "rs_loans (fst (snd (reconcileHash env rows x acc))) = rs_loans (fst acc) \<and>
   rs_positions (fst (snd (reconcileHash env rows x acc))) = rs_positions (fst acc) \<and>
   rs_cache (fst (snd (reconcileHash env rows x acc))) = rs_cache (fst acc)"
  by (cases acc) (simp add: reconcileHash_def Let_def split: option.split sum.split)

lemma reconcilePending_frame:
  "rs_loans (fst (snd (reconcilePending env hs x acc))) = rs_loans (fst acc) \<and>
   rs_positions (fst (snd (reconcilePending env hs x acc))) = rs_positions (fst acc) \<and>
   rs_cache (fst (snd (reconcilePending env hs x acc))) = rs_cache (fst acc)"
  by (cases acc) (simp add: reconcilePending_def Let_def split: sum.split)

lemma reconcilePosition_frame:
  "rs_loans (fst (snd (reconcilePosition env rows x acc))) = rs_loans (fst acc) \<and>
   rs_txs (fst (snd (reconcilePosition env rows x acc))) = rs_txs (fst acc) \<and>
   rs_cache (fst (snd (reconcilePosition env rows x acc))) = rs_cache (fst acc)"
  by (cases acc) (simp add: reconcilePosition_def Let_def split: option.split)

lemma reconcileScore_frame:
  "rs_loans (fst (snd (reconcileScore env rows x acc))) = rs_loans (fst acc) \<and>
   rs_txs (fst (snd (reconcileScore env rows x acc))) = rs_txs (fst acc) \<and>
   rs_positions (fst (snd (reconcileScore env rows x acc))) = rs_positions (fst acc)"
  by (cases acc) (simp add: reconcileScore_def Let_def split: option.split)

lemma reconcileLoans_frame [simp]:
  "rs_txs (fst (snd (reconcileLoans env chain rows acc))) = rs_txs (fst acc)"
  "rs_positions (fst (snd (reconcileLoans env chain rows acc))) = rs_positions (fst acc)"
  "rs_cache (fst (snd (reconcileLoans env chain rows acc))) = rs_cache (fst acc)"
  unfolding reconcileLoans_def by (rule for_each_frame, simp add: reconcileLoan_frame)+

lemma hashes_frame [simp]:
  "rs_loans (fst (snd (for_each (reconcileHash env rows) hs acc))) = rs_loans (fst acc)"
  "rs_positions (fst (snd (for_each (reconcileHash env rows) hs acc))) = rs_positions (fst acc)"
  "rs_cache (fst (snd (for_each (reconcileHash env rows) hs acc))) = rs_cache (fst acc)"
  by (rule for_each_frame, simp add: reconcileHash_frame)+

lemma pending_frame [simp]:
  "rs_loans (fst (snd (for_each (reconcilePending env hs) rows acc))) = rs_loans (fst acc)"
  "rs_positions (fst (snd (for_each (reconcilePending env hs) rows acc))) = rs_positions (fst acc)"
  "rs_cache (fst (snd (for_each (reconcilePending env hs) rows acc))) = rs_cache (fst acc)"
  by (rule for_each_frame, simp add: reconcilePending_frame)+

lemma then_do_frame:
  "g (fst (snd r)) = c \<Longrightarrow> (\<And>a. g (fst (snd (f a))) = g (fst a)) \<Longrightarrow> g (fst (snd (then_do r f))) = c"
  by (auto simp: then_do_def split: prod.split sum.split)

lemma then_do_ok: "fst r = Inr () \<Longrightarrow> (\<And>a. fst (f a) = Inr ()) \<Longrightarrow> fst (then_do r f) = Inr ()"
  by (cases r) (simp add: then_do_def)

lemma then_do_Inr [simp]: "fst r = Inr () \<Longrightarrow> then_do r f = f (snd r)"
  by (cases r) (simp add: then_do_def)

lemma reconcileTransactions_frame [simp]:
  "rs_loans (fst (snd (reconcileTransactions env chain rows acc))) = rs_loans (fst acc)"
  "rs_positions (fst (snd (reconcileTransactions env chain rows acc))) = rs_positions (fst acc)"
  "rs_cache (fst (snd (reconcileTransactions env chain rows acc))) = rs_cache (fst acc)"
  unfolding reconcileTransactions_def by (rule then_do_frame, simp, simp)+

lemma reconcileLiquidity_frame [simp]:
  "rs_loans (fst (snd (reconcileLiquidity env chain acc))) = rs_loans (fst acc)"
  "rs_txs (fst (snd (reconcileLiquidity env chain acc))) = rs_txs (fst acc)"
  "rs_cache (fst (snd (reconcileLiquidity env chain acc))) = rs_cache (fst acc)"
  unfolding reconcileLiquidity_def
  by (auto split: option.split intro!: for_each_frame simp: reconcilePosition_frame)

lemma reconcileReputation_frame [simp]:
  "rs_loans (fst (snd (reconcileReputation env chain acc))) = rs_loans (fst acc)"
  "rs_txs (fst (snd (reconcileReputation env chain acc))) = rs_txs (fst acc)"
  "rs_positions (fst (snd (reconcileReputation env chain acc))) = rs_positions (fst acc)"
  unfolding reconcileReputation_def
  by (auto split: option.split intro!: for_each_frame simp: reconcileScore_frame)

lemma for_each_ok: "(\<And>x acc. fst (f x acc) = Inr ()) \<Longrightarrow> fst (for_each f xs acc) = Inr ()"
proof (induction xs arbitrary: acc)
  case (Cons x xs)
  obtain r acc' where s: "f x acc = (r, acc')" by (cases "f x acc")
  with Cons.prems [of x acc] have "r = Inr ()" by simp
  with s Cons show ?case by simp
qed simp

lemma for_each_ok_on: "(\<And>x acc. x \<in> set xs \<Longrightarrow> fst (f x acc) = Inr ()) \<Longrightarrow> fst (for_each f xs acc) = Inr ()"
proof (induction xs arbitrary: acc)
  case (Cons x xs)
  obtain r acc' where s: "f x acc = (r, acc')" by (cases "f x acc")
  with Cons.prems [of x acc] have "r = Inr ()" by simp
  with s Cons show ?case by simp
qed simp

lemma for_each_fails:
  assumes "x \<in> set xs" and "\<And>acc. \<exists>e. fst (f x acc) = Inl e"
  shows "\<exists>e. fst (for_each f xs acc) = Inl e"
  using assms(1)
proof (induction xs arbitrary: acc)
  case (Cons y ys)
  obtain r acc' where s: "f y acc = (r, acc')" by (cases "f y acc")
  show ?case
  proof (cases r)
    case (Inr u)
    with assms(2) [of acc] Cons.prems s have "x \<in> set ys" by auto
    from Cons.IH [OF this] s Inr show ?thesis by simp
  qed (simp add: s)
qed simp

lemma then_do_Inl: "\<exists>e. fst r = Inl e \<Longrightarrow> then_do r f = r"
  by (cases r) (auto simp: then_do_def)

lemma in_order_set [simp]: "set (in_order xs) = set xs"
  by (induction xs) auto

text \<open>Whether the table has a row with a hash, in either column, upper and lower case being the same.\<close>

definition recorded :: "TxRow list \<Rightarrow> string \<Rightarrow> bool" where
  "recorded rows h \<longleftrightarrow> (\<exists>r \<in> set rows. \<exists>t \<in> set (recon_tx r). to_lower (rt_hash t) = to_lower h)"

lemma recorded_last:
  "last_with (\<lambda>t. to_lower (rt_hash t) = to_lower h) (concat (map recon_tx rows)) = None \<longleftrightarrow> \<not> recorded rows h"
  by (auto simp: last_with_None recorded_def)

lemma recorded_lower [simp]: "recorded rows (to_lower h) = recorded rows h"
  by (simp add: recorded_def)

lemma reconcileTransactions_ok:
  assumes "unfailing env" and "\<forall>h \<in> set (as_hashes chain). recorded rows h"
  shows "fst (reconcileTransactions env chain (concat (map recon_tx rows)) acc) = Inr ()"
proof -
  let ?rows = "concat (map recon_tx rows)"
  have "fst (reconcileHash env ?rows h acc) = Inr ()" if "h \<in> set (chain_hashes chain)" for h acc
  proof -
    from that obtain k where k: "k \<in> set (as_hashes chain)" "h = to_lower k" by (auto simp: chain_hashes_def)
    with assms(2) recorded_last [of k rows] obtain t where "last_with (\<lambda>t. to_lower (rt_hash t) = h) ?rows = Some t" by auto
    with assms(1) show ?thesis
      by (cases acc) (auto simp: reconcileHash_def markSucceeded_def update_tx_def Let_def)
  qed
  then have 1: "fst (for_each (reconcileHash env ?rows) (chain_hashes chain) a) = Inr ()" for a by (rule for_each_ok_on)
  have 2: "fst (for_each (reconcilePending env hs) ?rows a) = Inr ()" for hs a
    by (rule for_each_ok)
      (use assms in \<open>auto simp: reconcilePending_def markOrphaned_def update_tx_def Let_def split: prod.split\<close>)
  show ?thesis unfolding reconcileTransactions_def by (rule then_do_ok [OF 1 2])
qed

lemma reconcileTransactions_stops:
  assumes "h \<in> set (as_hashes chain)" and "\<not> recorded rows h"
  shows "\<exists>e. fst (for_each (reconcileHash env (concat (map recon_tx rows))) (chain_hashes chain) acc) = Inl e"
proof (rule for_each_fails)
  show "to_lower h \<in> set (chain_hashes chain)" using assms(1) by (simp add: chain_hashes_def)
  have "last_with (\<lambda>r. to_lower (rt_hash r) = to_lower h) (concat (map recon_tx rows)) = None"
    using assms(2) by (simp only: recorded_last not_False_eq_True)
  then show "\<exists>e. fst (reconcileHash env (concat (map recon_tx rows)) (to_lower h) acc) = Inl e" for acc
    by (cases acc) (simp add: reconcileHash_def backfill_def)
qed

text \<open>The loop over the hashes settles pending rows as successful, and does nothing else to the table.\<close>

definition only_succeeded :: "int \<Rightarrow> TxRow list \<Rightarrow> TxRow list \<Rightarrow> bool" where
  "only_succeeded now rows rows' \<longleftrightarrow> list_all2 (\<lambda>r r'. r' = r \<or> r' = succeeded now r) rows rows'"

lemma only_succeeded_refl [simp]: "only_succeeded now rows rows"
  by (simp add: only_succeeded_def list_all2_refl)

lemma only_succeeded_trans: "only_succeeded now a b \<Longrightarrow> only_succeeded now b c \<Longrightarrow> only_succeeded now a c"
  unfolding only_succeeded_def
  by (rule list_all2_trans [where bs = b]) (auto simp: succeeded_def)

lemma only_succeeded_update: "only_succeeded now rows (update_where P (succeeded now) rows)"
  by (simp add: only_succeeded_def update_where_def list_all2_map2 list_all2_refl)

lemma hashes_only_succeed:
  "only_succeeded (rn_now env) (rs_txs (fst acc)) (rs_txs (fst (snd (for_each (reconcileHash env rows) hs acc))))"
proof (induction hs arbitrary: acc)
  case (Cons h hs)
  obtain r acc' where s: "reconcileHash env rows h acc = (r, acc')" by (cases "reconcileHash env rows h acc")
  have "only_succeeded (rn_now env) (rs_txs (fst acc)) (rs_txs (fst acc'))"
    using s by (cases acc) (auto simp: reconcileHash_def backfill_def markSucceeded_def update_tx_def Let_def only_succeeded_update
        split: option.splits if_splits)
  from only_succeeded_trans [OF this Cons.IH] this s show ?case by (cases r) auto
qed simp

section \<open>Properties\<close>

lemma in_order_distinct [simp]: "distinct (in_order xs)"
  by (induction xs) auto

lemma latest_distinct: "distinct (map ar_wallet (latest_reputations hs))"
  by (simp add: latest_reputations_def Let_def comp_def)

lemma liquidity_distinct: "distinct (map ap_wallet (liquidity_by_wallet ivs))"
  by (simp add: liquidity_by_wallet_def comp_def)

definition chain_of :: "index_state \<Rightarrow> InvestmentIndexRow list \<Rightarrow> AuthoritativeState" where
  "chain_of ix ivs = \<lparr>as_loans = map (\<lambda>l. \<lparr>al_loanId = lx_loan l, al_wallet = lx_wallet l, al_status = lx_status l,
                                     al_principal = lx_principal l\<rparr>) (ix_loans ix),
                as_positions = liquidity_by_wallet ivs,
                as_reputations = latest_reputations (ix_history ix),
                as_hashes = in_order (nonempty (map lx_hash (ix_loans ix) @
                  map hs_hash (sort_key (\<lambda>h. - hs_ledger h) (ix_history ix)) @
                  map (\<lambda>p. Some (pm_tx p)) (ix_payments ix)))\<rparr>"

lemma read_state_ok: "unfailing env \<Longrightarrow> read_state (rn_faults env []) ix ivs = Inr (chain_of ix ivs)"
  by (simp add: read_state_def chain_of_def)

definition loan_view :: "LoanRow \<Rightarrow> ReconciliationLoanRow" where
  "loan_view l = \<lparr>rl_id = loan_pk l, rl_loanId = loan_id l, rl_wallet = loan_wallet l,
     rl_amount = loan_amount l, rl_status = loan_status l\<rparr>"

lemma findForReconciliation_ok: "unfailing env \<Longrightarrow> findForReconciliation (rn_faults env []) ls = Inr (map loan_view ls)"
  by (simp add: findForReconciliation_def loan_view_def)

lemma reconcile_loans_ok:
  assumes "unfailing env" and "distinct (map loan_pk (rs_loans st))" and "distinct (map loan_id (rs_loans st))"
    and "distinct (map lx_loan (ix_loans ix))"
  shows "fst (reconcileLoans env (chain_of ix ivs) (map loan_view (rs_loans st)) (st, [])) = Inr () \<and>
    (\<forall>y \<in> set (as_loans (chain_of ix ivs)). loan_fixed (map loan_view (rs_loans st)) y
       (snd (reconcileLoans env (chain_of ix ivs) (map loan_view (rs_loans st)) (st, []))))"
proof -
  have "loan_inv env (map loan_view (rs_loans st)) [] (st, [])"
    using assms distinct_key [OF assms(2)] by (auto simp: loan_inv_def loan_view_def comp_def)
  moreover have "distinct (map al_loanId (as_loans (chain_of ix ivs)))"
    using assms(4) by (simp add: chain_of_def comp_def)
  ultimately show ?thesis unfolding reconcileLoans_def by (rule loans.repaired)
qed

lemma reconcile_scores_ok:
  assumes "unfailing env" and "distinct (map rc_wallet (rs_cache (fst acc)))"
  shows "fst (reconcileReputation env (chain_of ix ivs) acc) = Inr () \<and>
    (\<forall>y \<in> set (latest_reputations (ix_history ix)). score_fixed y (snd (reconcileReputation env (chain_of ix ivs) acc)))"
proof -
  have "score_inv env (rs_cache (fst acc)) [] acc" using assms by (simp add: score_inv_def)
  from scores.repaired [OF this latest_distinct] assms(1) show ?thesis
    by (simp add: reconcileReputation_def chain_of_def)
qed

lemma reconcile_positions_ok:
  assumes "unfailing env" and "distinct (map lp_pk (rs_positions (fst acc)))"
    and "distinct (map lp_wallet (rs_positions (fst acc)))" and "\<forall>w. \<forall>r \<in> set (rs_positions (fst acc)). lp_pk r \<noteq> rn_pk env w"
  shows "fst (reconcileLiquidity env (chain_of ix ivs) acc) = Inr () \<and>
    (\<forall>y \<in> set (liquidity_by_wallet ivs). position_fixed y (snd (reconcileLiquidity env (chain_of ix ivs) acc)))"
proof -
  have "x = y" if "x \<in> set (rs_positions (fst acc))" "y \<in> set (rs_positions (fst acc))" "lp_pk x = lp_pk y" for x y
    using distinct_key [OF assms(2)] that by blast
  then have "position_inv env (rs_positions (fst acc)) [] acc"
    using assms unfolding position_inv_def by auto
  from positions.repaired [OF this liquidity_distinct] assms(1) show ?thesis
    by (simp add: reconcileLiquidity_def chain_of_def)
qed


definition latest_score :: "string \<Rightarrow> ReputationHistoryRow list \<Rightarrow> int option" where
  "latest_score w hs = map_option hs_new (find (\<lambda>h. hs_wallet h = w) (sort_key (\<lambda>h. - hs_ledger h) hs))"

definition invested :: "string \<Rightarrow> InvestmentIndexRow list \<Rightarrow> num" where
  "invested w ivs = foldl (\<lambda>s i. jadd s (iv_amount i)) 0 (filter (\<lambda>i. iv_wallet i = w) ivs)"

lemma latest_score_entry:
  assumes "latest_score w hs = Some s"
  shows "\<lparr>ar_wallet = w, ar_score = s\<rparr> \<in> set (latest_reputations hs)"
proof -
  from assms obtain h where h: "find (\<lambda>h. hs_wallet h = w) (sort_key (\<lambda>h. - hs_ledger h) hs) = Some h" "hs_new h = s"
    by (auto simp: latest_score_def)
  from find_SomeD [OF h(1)] have "w \<in> hs_wallet ` set hs" by auto
  with h show ?thesis by (auto simp: latest_reputations_def Let_def)
qed

text \<open>
  The three stages on an index and a database: the loans, the hashes and the rest. Here no query
  fails but the backfill, which always does.
\<close>

lemma reconcile_run:
  assumes "unfailing env"
  shows "reconcile env ix ivs st =
    (let r = then_do (then_do (then_do (reconcileLoans env (chain_of ix ivs) (map loan_view (rs_loans st)) (st, []))
               (reconcileTransactions env (chain_of ix ivs) (concat (map recon_tx (rs_txs st)))))
               (reconcileLiquidity env (chain_of ix ivs))) (reconcileReputation env (chain_of ix ivs))
     in case r of (Inl e, st', _) \<Rightarrow> (Inl e, st') | (Inr _, st', items) \<Rightarrow> (Inr (drift_report (rn_now env) items), st'))"
  unfolding reconcile_def findTransactions_def
  using assms by (simp add: read_state_ok findForReconciliation_ok)

lemma reconcile_repairs:
  assumes "unfailing env"
    and "distinct (map loan_pk (rs_loans st))" and "distinct (map loan_id (rs_loans st))"
    and "distinct (map lx_loan (ix_loans ix))" and "distinct (map rc_wallet (rs_cache st))"
    and "distinct (map lp_pk (rs_positions st))" and "distinct (map lp_wallet (rs_positions st))"
    and "\<forall>w. \<forall>r \<in> set (rs_positions st). lp_pk r \<noteq> rn_pk env w"
    and "\<forall>h \<in> set (as_hashes (chain_of ix ivs)). recorded (rs_txs st) h"
  shows "\<exists>rep st'. reconcile env ix ivs st = (Inr rep, st') \<and>
    rs_loans st' = rs_loans (fst (snd (reconcileLoans env (chain_of ix ivs) (map loan_view (rs_loans st)) (st, [])))) \<and>
    (\<forall>r \<in> set (rs_cache st'). \<forall>s. latest_score (rc_wallet r) (ix_history ix) = Some s \<longrightarrow> rc_score r = s) \<and>
    (\<forall>i \<in> set ivs. \<exists>p \<in> set (rs_positions st'). lp_wallet p = iv_wallet i \<and> lp_amount p = invested (iv_wallet i) ivs)"
proof -
  let ?chain = "chain_of ix ivs" and ?txs = "concat (map recon_tx (rs_txs st))"
  define r1 where "r1 = reconcileLoans env ?chain (map loan_view (rs_loans st)) (st, [])"
  define r2 where "r2 = reconcileTransactions env ?chain ?txs (snd r1)"
  define r3 where "r3 = reconcileLiquidity env ?chain (snd r2)"
  define r4 where "r4 = reconcileReputation env ?chain (snd r3)"
  have ok1: "fst r1 = Inr ()" using reconcile_loans_ok [OF assms(1-4)] unfolding r1_def by auto
  have ok2: "fst r2 = Inr ()" unfolding r2_def by (rule reconcileTransactions_ok [OF assms(1,9)])
  have pos: "rs_positions (fst (snd r2)) = rs_positions st" by (simp add: r2_def r1_def)
  have ok3: "fst r3 = Inr ()" and fix3: "\<forall>y \<in> set (liquidity_by_wallet ivs). position_fixed y (snd r3)"
    using reconcile_positions_ok [of env "snd r2" ix ivs] assms(1,6-8) unfolding r3_def pos by auto
  have cache: "rs_cache (fst (snd r3)) = rs_cache st" by (simp add: r3_def r2_def r1_def)
  have ok4: "fst r4 = Inr ()" and fix4: "\<forall>y \<in> set (latest_reputations (ix_history ix)). score_fixed y (snd r4)"
    using reconcile_scores_ok [of env "snd r3" ix ivs] assms(1,5) unfolding r4_def cache by auto
  have run: "reconcile env ix ivs st = (Inr (drift_report (rn_now env) (snd (snd r4))), fst (snd r4))"
    using ok1 ok2 ok3 ok4 unfolding reconcile_run [OF assms(1)]
    by (cases r4) (simp add: r1_def r2_def r3_def r4_def)
  have loans: "rs_loans (fst (snd r4)) = rs_loans (fst (snd r1))" by (simp add: r4_def r3_def r2_def)
  have "rc_score r = s" if "r \<in> set (rs_cache (fst (snd r4)))" "latest_score (rc_wallet r) (ix_history ix) = Some s" for r s
    using fix4 latest_score_entry [OF that(2)] that(1) by (fastforce simp: score_fixed_def)
  moreover have "\<exists>p \<in> set (rs_positions (fst (snd r4))). lp_wallet p = iv_wallet i \<and> lp_amount p = invested (iv_wallet i) ivs"
    if "i \<in> set ivs" for i
  proof -
    have "\<lparr>ap_wallet = iv_wallet i, ap_amount = invested (iv_wallet i) ivs\<rparr> \<in> set (liquidity_by_wallet ivs)"
      using that by (auto simp: liquidity_by_wallet_def invested_def)
    with fix3 show ?thesis by (fastforce simp: position_fixed_def r4_def)
  qed
  moreover note run loans
  ultimately show ?thesis unfolding r1_def by (intro exI [of _ "drift_report (rn_now env) (snd (snd r4))"] exI [of _ "fst (snd r4)"]) simp
qed

lemma reconcile_stops:
  assumes "unfailing env"
    and "distinct (map loan_pk (rs_loans st))" and "distinct (map loan_id (rs_loans st))"
    and "distinct (map lx_loan (ix_loans ix))"
    and "h \<in> set (as_hashes (chain_of ix ivs))" and "\<not> recorded (rs_txs st) h"
  shows "\<exists>e st'. reconcile env ix ivs st = (Inl e, st') \<and>
    rs_loans st' = rs_loans (fst (snd (reconcileLoans env (chain_of ix ivs) (map loan_view (rs_loans st)) (st, [])))) \<and>
    rs_cache st' = rs_cache st \<and> rs_positions st' = rs_positions st \<and> only_succeeded (rn_now env) (rs_txs st) (rs_txs st')"
proof -
  let ?chain = "chain_of ix ivs" and ?txs = "concat (map recon_tx (rs_txs st))"
  define r1 where "r1 = reconcileLoans env ?chain (map loan_view (rs_loans st)) (st, [])"
  define r2 where "r2 = for_each (reconcileHash env ?txs) (chain_hashes ?chain) (snd r1)"
  have ok1: "fst r1 = Inr ()" using reconcile_loans_ok [OF assms(1-4)] unfolding r1_def by auto
  have "\<exists>e. fst r2 = Inl e" unfolding r2_def by (rule reconcileTransactions_stops [OF assms(5,6)])
  then obtain e st' items where r2: "r2 = (Inl e, st', items)" by (metis prod.collapse)
  have t: "reconcileTransactions env ?chain ?txs (snd r1) = (Inl e, st', items)"
    unfolding reconcileTransactions_def r2_def [symmetric] by (simp add: r2 then_do_def)
  have "reconcile env ix ivs st = (Inl e, st')"
    unfolding reconcile_run [OF assms(1)] r1_def [symmetric] then_do_Inr [OF ok1] t by (simp add: then_do_def)
  moreover have f: "fst (snd r2) = st'" by (simp add: r2)
  have "rs_loans st' = rs_loans (fst (snd r1))" "rs_cache st' = rs_cache st" "rs_positions st' = rs_positions st"
    unfolding f [symmetric] by (simp_all add: r2_def r1_def)
  moreover have "only_succeeded (rn_now env) (rs_txs st) (rs_txs st')"
    using hashes_only_succeed [of env "snd r1" ?txs "chain_hashes ?chain"] unfolding r2_def [symmetric] f by (simp add: r1_def)
  ultimately show ?thesis by (simp add: r1_def)
qed

text \<open>C30: What a cycle repairs when no query fails but the backfill, which always does: every row that has
  the final (not provisional) id of an indexed loan takes the indexed status; if every indexed event has a
  row in the table of transactions, the cycle returns a report, every cached score is the newest
  indexed one and every investor has a liquidity position with the sum invested; but one event without a
  row makes the cycle throw, and then no score, no position and no orphaned transaction is repaired:
  pending rows of indexed events are settled as successful at most, and no row is added.\<close>

theorem reconcile_cycle:
  assumes "unfailing env"
    and "distinct (map loan_pk (rs_loans st))" and "distinct (map loan_id (rs_loans st))"
    and "distinct (map lx_loan (ix_loans ix))" and "distinct (map rc_wallet (rs_cache st))"
    and "distinct (map lp_pk (rs_positions st))" and "distinct (map lp_wallet (rs_positions st))"
    and "\<forall>w. \<forall>r \<in> set (rs_positions st). lp_pk r \<noteq> rn_pk env w"
  shows "\<exists>r st'. reconcile env ix ivs st = (r, st') \<and>
    (\<forall>l \<in> set (rs_loans st). \<forall>c \<in> set (ix_loans ix). loan_id l = lx_loan c \<longrightarrow> \<not> provisional (loan_view l) \<longrightarrow>
       (\<forall>l' \<in> set (rs_loans st'). loan_pk l' = loan_pk l \<longrightarrow> loan_status l' = loan_status_of (lx_status c))) \<and>
    (if \<forall>h \<in> set (as_hashes (chain_of ix ivs)). recorded (rs_txs st) h
     then (\<exists>rep. r = Inr rep) \<and>
       (\<forall>c \<in> set (rs_cache st'). \<forall>s. latest_score (rc_wallet c) (ix_history ix) = Some s \<longrightarrow> rc_score c = s) \<and>
       (\<forall>i \<in> set ivs. \<exists>p \<in> set (rs_positions st'). lp_wallet p = iv_wallet i \<and> lp_amount p = invested (iv_wallet i) ivs)
     else (\<exists>e. r = Inl e) \<and> rs_cache st' = rs_cache st \<and> rs_positions st' = rs_positions st \<and>
       only_succeeded (rn_now env) (rs_txs st) (rs_txs st'))"
proof -
  let ?ls = "rs_loans (fst (snd (reconcileLoans env (chain_of ix ivs) (map loan_view (rs_loans st)) (st, []))))"
  have loans: "\<forall>l \<in> set (rs_loans st). \<forall>c \<in> set (ix_loans ix). loan_id l = lx_loan c \<longrightarrow> \<not> provisional (loan_view l) \<longrightarrow>
      (\<forall>l' \<in> set ?ls. loan_pk l' = loan_pk l \<longrightarrow> loan_status l' = loan_status_of (lx_status c))"
    using reconcile_loans_ok [OF assms(1-4), of ivs] by (auto simp: chain_of_def loan_fixed_def loan_view_def)
  show ?thesis
  proof (cases "\<forall>h \<in> set (as_hashes (chain_of ix ivs)). recorded (rs_txs st) h")
    case True
    from reconcile_repairs [OF assms True] obtain rep st' where run: "reconcile env ix ivs st = (Inr rep, st')" "rs_loans st' = ?ls"
      and fixed: "\<forall>c \<in> set (rs_cache st'). \<forall>s. latest_score (rc_wallet c) (ix_history ix) = Some s \<longrightarrow> rc_score c = s"
        "\<forall>i \<in> set ivs. \<exists>p \<in> set (rs_positions st'). lp_wallet p = iv_wallet i \<and> lp_amount p = invested (iv_wallet i) ivs"
      by (elim exE conjE)
    show ?thesis unfolding run(1) if_P [OF True]
      by (intro exI [of _ "Inr rep"] exI [of _ st'] conjI refl loans [folded run(2)] exI [of _ rep] fixed)
  next
    case False
    then obtain h where h: "h \<in> set (as_hashes (chain_of ix ivs))" "\<not> recorded (rs_txs st) h" by blast
    from reconcile_stops [OF assms(1-4) h] obtain e st' where run: "reconcile env ix ivs st = (Inl e, st')" "rs_loans st' = ?ls"
      and same: "rs_cache st' = rs_cache st" "rs_positions st' = rs_positions st" "only_succeeded (rn_now env) (rs_txs st) (rs_txs st')"
      by (elim exE conjE)
    show ?thesis unfolding run(1) if_not_P [OF False]
      by (intro exI [of _ "Inl e"] exI [of _ st'] conjI refl loans [folded run(2)] exI [of _ e] same)
  qed
qed

definition demo_recon_env :: recon_env where
  "demo_recon_env = \<lparr>rn_now = 1700000000000, rn_faults = (\<lambda>_. no_faults), rn_pk = (\<lambda>w. CHR ''n'' # w)\<rparr>"

definition demo_index :: index_state where
  "demo_index = empty_index\<lparr>ix_loans := [loan_L1\<lparr>lx_status := ''paid''\<rparr>],
     ix_history := [\<lparr>hs_event = ''e7'', hs_wallet = ''GA'', hs_old = 50, hs_new = 70, hs_change = 20, hs_reason = ''repaid'',
       hs_hash = Some ''e7'', hs_ledger = 7\<rparr>]\<rparr>"

definition demo_recon :: recon_state where
  "demo_recon = \<lparr>rs_loans = [demo_loan\<lparr>loan_id := ''L1''\<rparr>], rs_txs = [], rs_positions = [],
     rs_cache = [\<lparr>rc_user = ''u1'', rc_wallet = ''GA'', rc_score = 50, rc_tier = Bronze, rc_synced = 0\<rparr>], rs_running = False\<rparr>"

lemma demo_unfailing: "unfailing demo_recon_env"
  by (simp add: unfailing_def demo_recon_env_def)

text \<open>An index with an event the table does not have: the loan is repaired, the cycle throws.\<close>

theorem reconcile_cycle_witness:
  "\<exists>e (st' :: recon_state). reconcile demo_recon_env demo_index [\<lparr>iv_wallet = ''GI'', iv_amount = 5\<rparr>] demo_recon = (Inl e, st') \<and>
     rs_positions st' = [] \<and> (\<forall>l \<in> set (rs_loans st'). loan_pk l = loan_pk demo_loan \<longrightarrow> loan_status l = LoanOther ''paid'')"
proof -
  let ?ivs = "[\<lparr>iv_wallet = ''GI'', iv_amount = 5\<rparr>] :: InvestmentIndexRow list"
  have "''e7'' \<in> set (as_hashes (chain_of demo_index ?ivs))"
    by (simp add: chain_of_def demo_index_def empty_index_def nonempty_def)
  moreover have "\<not> recorded (rs_txs demo_recon) ''e7''" by (simp add: recorded_def demo_recon_def)
  ultimately have no: "\<not> (\<forall>h \<in> set (as_hashes (chain_of demo_index ?ivs)). recorded (rs_txs demo_recon) h)" by blast
  have d: "distinct (map loan_pk (rs_loans demo_recon))" "distinct (map loan_id (rs_loans demo_recon))"
    "distinct (map lx_loan (ix_loans demo_index))" "distinct (map rc_wallet (rs_cache demo_recon))"
    "distinct (map lp_pk (rs_positions demo_recon))" "distinct (map lp_wallet (rs_positions demo_recon))"
    "\<forall>w. \<forall>r \<in> set (rs_positions demo_recon). lp_pk r \<noteq> rn_pk demo_recon_env w"
    by (simp_all add: demo_recon_def demo_index_def empty_index_def)
  from reconcile_cycle [OF demo_unfailing d, of ?ivs, unfolded if_not_P [OF no]]
  obtain e st' where r: "reconcile demo_recon_env demo_index ?ivs demo_recon = (Inl e, st')" "rs_positions st' = rs_positions demo_recon"
    and l: "\<forall>l \<in> set (rs_loans demo_recon). \<forall>c \<in> set (ix_loans demo_index). loan_id l = lx_loan c \<longrightarrow> \<not> provisional (loan_view l) \<longrightarrow>
       (\<forall>l' \<in> set (rs_loans st'). loan_pk l' = loan_pk l \<longrightarrow> loan_status l' = loan_status_of (lx_status c))" by metis
  have "\<forall>l' \<in> set (rs_loans st'). loan_pk l' = loan_pk demo_loan \<longrightarrow> loan_status l' = LoanOther ''paid''"
    using l by (simp add: demo_recon_def demo_index_def empty_index_def loan_L1_def loan_view_def provisional_def starts_with_def loan_status_of_def)
  with r show ?thesis by (simp add: demo_recon_def)
qed

text \<open>The index calls a repaid loan \<open>paid\<close>, a status no other part of the program knows: reconciling
  writes it over the row, whose status is then none of those the loan list shows.\<close>

theorem repaid_loan_leaves_listing:
  assumes "unfailing env"
    and "distinct (map loan_pk (rs_loans st))" and "distinct (map loan_id (rs_loans st))"
    and "distinct (map lx_loan (ix_loans ix))" and "l \<in> set (rs_loans st)" and "c \<in> set (ix_loans ix)"
    and "loan_id l = lx_loan c" and "\<not> provisional (loan_view l)" and "lx_status c = ''paid''"
  shows "\<forall>l' \<in> set (rs_loans (fst (snd (reconcileLoans env (chain_of ix ivs) (map loan_view (rs_loans st)) (st, []))))).
    loan_pk l' = loan_pk l \<longrightarrow> loan_status l' \<notin> set LIST_STATUSES"
proof -
  have "loan_status l' = LoanOther ''paid''" if "loan_pk l' = loan_pk l"
    "l' \<in> set (rs_loans (fst (snd (reconcileLoans env (chain_of ix ivs) (map loan_view (rs_loans st)) (st, [])))))" for l'
    using reconcile_loans_ok [OF assms(1-4), of ivs] assms(5-9) that
    by (auto simp: chain_of_def loan_fixed_def loan_view_def loan_status_of_def)
  then show ?thesis by (auto simp: LIST_STATUSES_def)
qed

theorem repaid_loan_leaves_listing_witness:
  "\<forall>l' \<in> set (rs_loans (fst (snd (reconcileLoans demo_recon_env (chain_of demo_index []) (map loan_view (rs_loans demo_recon)) (demo_recon, []))))).
     loan_pk l' = loan_pk demo_loan \<longrightarrow> loan_status l' \<notin> set LIST_STATUSES"
  using repaid_loan_leaves_listing [OF demo_unfailing, of demo_recon demo_index "demo_loan\<lparr>loan_id := ''L1''\<rparr>" "loan_L1\<lparr>lx_status := ''paid''\<rparr>" "[]"]
  by (simp add: demo_recon_def demo_index_def empty_index_def loan_L1_def loan_view_def provisional_def starts_with_def)

text \<open>Two loans on chain can take the same provisional row: both are reported as repaired, and
  the first of them is left without a row.\<close>

theorem one_row_for_two_loans:
  assumes "unfailing env" and "rs_loans st = [p]" and "provisional (loan_view p)"
    and "as_loans chain = [c1, c2]" and "al_wallet c1 = loan_wallet p" and "al_wallet c2 = loan_wallet p"
    and "al_loanId c1 \<noteq> al_loanId c2" and "al_loanId c1 \<noteq> loan_id p" and "al_loanId c2 \<noteq> loan_id p"
  shows "\<exists>st' items. reconcileLoans env chain (map loan_view (rs_loans st)) (st, []) = (Inr (), st', items) \<and>
    map di_repaired items = [True, True] \<and> map loan_id (rs_loans st') = [al_loanId c2]"
proof -
  have m: "provisional_match [loan_view p] c = Some (loan_view p)" if "al_wallet c = loan_wallet p" for c
    using assms(3) that by (simp add: provisional_match_def loan_view_def)
  have n: "last_with (\<lambda>r. rl_loanId r = al_loanId c) [loan_view p] = None" if "al_loanId c \<noteq> loan_id p" for c
    using that by (simp add: last_with_None loan_view_def)
  show ?thesis
    unfolding reconcileLoans_def assms(2,4)
    using assms(1,2,7-9) m [OF assms(5)] m [OF assms(6)] n [OF assms(8)] n [OF assms(9)]
    by (simp add: reconcileLoan_def resolveProvisionalId_def) (simp add: loan_view_def update_where_def)
qed


definition provisional_loan :: LoanRow where
  "provisional_loan = demo_loan\<lparr>loan_id := ''pending-1''\<rparr>"

definition two_chain_loans :: AuthoritativeState where
  "two_chain_loans = \<lparr>as_loans = [\<lparr>al_loanId = ''L1'', al_wallet = ''GA'', al_status = ''active'', al_principal = 1\<rparr>,
     \<lparr>al_loanId = ''L2'', al_wallet = ''GA'', al_status = ''active'', al_principal = 2\<rparr>],
     as_positions = [], as_reputations = [], as_hashes = []\<rparr>"

theorem one_row_for_two_loans_witness:
  "\<exists>(st' :: recon_state) items. reconcileLoans demo_recon_env two_chain_loans (map loan_view [provisional_loan])
     (demo_recon\<lparr>rs_loans := [provisional_loan]\<rparr>, []) = (Inr (), st', items) \<and>
    map di_repaired items = [True, True] \<and> map loan_id (rs_loans st') = [''L2'']"
  using one_row_for_two_loans [OF demo_unfailing, of "demo_recon\<lparr>rs_loans := [provisional_loan]\<rparr>" provisional_loan two_chain_loans]
  by (simp add: two_chain_loans_def provisional_loan_def demo_loan_def loan_view_def provisional_def starts_with_def)

text \<open>Pending rows that the index does not know.\<close>

lemma reconcilePending_failed:
  assumes "unfailing env"
    and "(\<forall>x \<in> set (rs_txs (fst acc)). tx_pk x = k \<longrightarrow> tx_status x = TxFailed) \<or>
      rt_id row = k \<and> rt_status row = TxPending \<and> to_lower (rt_hash row) \<notin> set hs \<and> rt_submitted row < rn_now env - 30 * 60 * 1000"
  shows "\<forall>x \<in> set (rs_txs (fst (snd (reconcilePending env hs row acc)))). tx_pk x = k \<longrightarrow> tx_status x = TxFailed"
  using assms by (cases acc) (auto simp: reconcilePending_def markOrphaned_def update_tx_def update_where_def orphaned_def)

lemma pending_failed:
  assumes "unfailing env"
    and "(\<forall>x \<in> set (rs_txs (fst acc)). tx_pk x = k \<longrightarrow> tx_status x = TxFailed) \<or>
      (\<exists>row \<in> set rows. rt_id row = k \<and> rt_status row = TxPending \<and> to_lower (rt_hash row) \<notin> set hs \<and>
         rt_submitted row < rn_now env - 30 * 60 * 1000)"
  shows "\<forall>x \<in> set (rs_txs (fst (snd (for_each (reconcilePending env hs) rows acc)))). tx_pk x = k \<longrightarrow> tx_status x = TxFailed"
  using assms(2)
proof (induction rows arbitrary: acc)
  case (Cons row rows)
  obtain r acc' where s: "reconcilePending env hs row acc = (r, acc')" by (cases "reconcilePending env hs row acc")
  have r: "r = Inr ()" using s assms(1)
    by (cases acc) (auto simp: reconcilePending_def markOrphaned_def update_tx_def split: if_splits)
  have "(\<forall>x \<in> set (rs_txs (fst acc')). tx_pk x = k \<longrightarrow> tx_status x = TxFailed) \<or>
      (\<exists>row \<in> set rows. rt_id row = k \<and> rt_status row = TxPending \<and> to_lower (rt_hash row) \<notin> set hs \<and>
         rt_submitted row < rn_now env - 30 * 60 * 1000)"
    using reconcilePending_failed [OF assms(1), of acc k row hs] Cons.prems s by auto
  from Cons.IH [OF this] show ?case by (simp add: s r)
qed simp

text \<open>The indexer records the id of an event (\<open>ledger-operation-index\<close>, with hyphens) where the job expects
  the hash of a transaction (64 hexadecimal digits), so no submitted hash is ever found among them: with
  an event in the index the cycle stops before it looks at pending rows, and without one it marks every
  row failed that is still pending after 30 minutes, whatever became of it on chain.\<close>

theorem old_pending_marked_failed:
  assumes "unfailing env" and "as_hashes chain = []"
    and "r \<in> set (rs_txs (fst acc))" and "tx_thash r = Some h" and "h \<noteq> []"
    and "tx_status r = TxPending" and "tx_submitted r < rn_now env - 30 * 60 * 1000"
  shows "\<forall>x \<in> set (rs_txs (fst (snd (reconcileTransactions env chain (concat (map recon_tx (rs_txs (fst acc)))) acc)))).
    tx_pk x = tx_pk r \<longrightarrow> tx_status x = TxFailed"
proof -
  let ?rows = "concat (map recon_tx (rs_txs (fst acc)))"
  let ?row = "\<lparr>rt_id = tx_pk r, rt_hash = h, rt_status = TxPending, rt_submitted = tx_submitted r\<rparr>"
  have "recon_tx r = [?row]" using assms(4-6) by (simp add: recon_tx_def split: list.split)
  with assms(3) have row: "?row \<in> set ?rows" by force
  have none: "chain_hashes chain = []" by (simp add: chain_hashes_def assms(2))
  with row assms(7) have old: "\<exists>row \<in> set ?rows. rt_id row = tx_pk r \<and> rt_status row = TxPending \<and>
      to_lower (rt_hash row) \<notin> set (chain_hashes chain) \<and> rt_submitted row < rn_now env - 30 * 60 * 1000"
    by (intro bexI [OF _ row]) simp
  from pending_failed [OF assms(1) disjI2 [OF old]] show ?thesis
    by (simp add: reconcileTransactions_def none then_do_def)
qed

theorem old_pending_marked_failed_witness:
  "\<exists>(r :: TxRow) (st' :: recon_state). tx_status r = TxPending \<and> rs_txs st' \<noteq> [] \<and> (\<forall>x \<in> set (rs_txs st'). tx_pk x = ''t1'' \<longrightarrow> tx_status x = TxFailed)"
proof -
  let ?h = "''ab12''"
  let ?r = "\<lparr>tx_pk = ''t1'', tx_wallet = ''GA'', tx_thash = Some ?h, tx_lhash = None, tx_type = Some ''loan_repay'',
     tx_status = TxPending, tx_xdr = ''x'', tx_error = None, tx_submitted = 0, tx_completed = None\<rparr> :: TxRow"
  let ?acc = "(demo_recon\<lparr>rs_txs := [?r]\<rparr>, [] :: DriftItem list)"
  let ?chain = "\<lparr>as_loans = [], as_positions = [], as_reputations = [], as_hashes = []\<rparr> :: AuthoritativeState"
  let ?out = "fst (snd (reconcileTransactions demo_recon_env ?chain (concat (map recon_tx (rs_txs (fst ?acc)))) ?acc))"
  have "\<forall>x \<in> set (rs_txs ?out). tx_pk x = tx_pk ?r \<longrightarrow> tx_status x = TxFailed"
    by (rule old_pending_marked_failed [OF demo_unfailing]) (auto simp: demo_recon_env_def)
  then have "\<forall>x \<in> set (rs_txs ?out). tx_pk x = ''t1'' \<longrightarrow> tx_status x = TxFailed" by simp
  moreover have "rs_txs ?out \<noteq> []"
    by (simp add: reconcileTransactions_def chain_hashes_def reconcilePending_def
        markOrphaned_def update_tx_def recon_tx_def demo_recon_env_def then_do_def update_where_def Let_def)
  moreover have "tx_status ?r = TxPending" by simp
  ultimately show ?thesis by blast
qed

end
