(* ===== verification/Vendors.thy ===== *)
theory Vendors imports Loans Indexer ClaimOnce Pagination begin

text \<open>
  Vendors (\<open>modules/vendors/vendors.service.ts\<close>, \<open>database/repositories/vendors.repository.ts\<close>):
  registration, the approval and suspension calls, the dashboard with its loans and payments,
  and the product catalog. API keys of vendors are in \<open>ApiKeys\<close>.
\<close>

text \<open>The check constraint of \<open>vendors.status\<close> allows these four.\<close>

datatype VendorStatus = VendorPending | VendorApproved | VendorSuspended | VendorRejected

record VendorRow =
  vn_pk :: string
  vn_wallet :: "string option"
  vn_name :: string
  vn_type :: string
  vn_status :: VendorStatus
  vn_verified :: bool
  vn_website :: "string option"
  vn_country :: "string option"
  vn_city :: "string option"
  vn_description :: "string option"
  vn_created :: int

record VendorProductRow =
  vp_pk :: string
  vp_vendor :: string
  vp_name :: string
  vp_price :: num
  vp_category :: "string option"
  vp_description :: "string option"
  vp_created :: int
  vp_updated :: int

text \<open>
  \<open>ve_rank\<close> is the position of a status text in the collation of the database; \<open>ve_pk\<close> is the row
  id the database generates.
\<close>

record vendors_env =
  ve_now :: int
  ve_pk :: string
  ve_faults :: faults
  ve_soroban :: soroban
  ve_registry :: string
  ve_rank :: "LoanStatus \<Rightarrow> int"

record vendors_db =
  vd_vendors :: "VendorRow list"
  vd_products :: "VendorProductRow list"
  vd_loans :: "LoanRow list"
  vd_payments :: "PaymentRow list"

text \<open>What the loans service reads of a vendor.\<close>

definition vendor_ref :: "VendorRow \<Rightarrow> VendorRef" where
  "vendor_ref v = \<lparr>vendor_pk = vn_pk v, vendor_name = vn_name v, vendor_verified = vn_verified v\<rparr>"

section \<open>The repository\<close>

abbreviation vendor_query_error :: exn where "vendor_query_error \<equiv> internal_error ''DATABASE_QUERY_ERROR''"

text \<open>\<open>.single()\<close>, where no row (or more than one) is \<open>null\<close> and any other error throws.\<close>

definition single_or_null :: "db_error option \<Rightarrow> 'r list \<Rightarrow> 'r option result" where
  "single_or_null flt rows =
     (case with_fault flt (single rows) of
        Inr r \<Rightarrow> Inr (Some r)
      | Inl e \<Rightarrow> if err_code e = ''PGRST116'' then Inr None else Inl vendor_query_error)"

definition findVendorById :: "vendors_env \<Rightarrow> string \<Rightarrow> VendorRow list \<Rightarrow> VendorRow option result" where
  "findVendorById env i rows = single_or_null (ve_faults env ''vendors.byId'') (filter (\<lambda>v. vn_pk v = i) rows)"

definition findByWallet :: "vendors_env \<Rightarrow> string \<Rightarrow> VendorRow list \<Rightarrow> VendorRow option result" where
  "findByWallet env w rows =
     single_or_null (ve_faults env ''vendors.byWallet'') (filter (\<lambda>v. vn_wallet v = Some w) rows)"

record FindAllVendorsOptions =
  fa_limit :: int
  fa_offset :: int
  fa_verified :: "bool option"
  fa_type :: "string option"

definition vendor_matches :: "FindAllVendorsOptions \<Rightarrow> VendorRow \<Rightarrow> bool" where
  "vendor_matches q v \<longleftrightarrow>
     (case fa_verified q of None \<Rightarrow> True | Some b \<Rightarrow> vn_verified v = b) \<and>
     (case fa_type q of None \<Rightarrow> True | Some t \<Rightarrow> vn_type v = t)"

definition findAll :: "vendors_env \<Rightarrow> FindAllVendorsOptions \<Rightarrow> VendorRow list \<Rightarrow> (VendorRow list \<times> nat) result" where
  "findAll env q rows =
     (let hits = filter (vendor_matches q) rows
      in case with_fault (ve_faults env ''vendors.findAll'') (range_query (fa_offset q) (fa_limit q) hits) of
           Inl _ \<Rightarrow> Inl vendor_query_error
         | Inr page \<Rightarrow> Inr (page, length hits))"

section \<open>Listing, approval and suspension\<close>

record VendorResponse =
  vr_id :: string
  vr_wallet :: "string option"
  vr_name :: string
  vr_type :: string
  vr_status :: VendorStatus
  vr_verified :: bool
  vr_website :: "string option"
  vr_country :: "string option"
  vr_city :: "string option"
  vr_description :: "string option"
  vr_created :: int

definition mapToDto :: "VendorRow \<Rightarrow> VendorResponse" where
  "mapToDto v =
     \<lparr>vr_id = vn_pk v, vr_wallet = vn_wallet v, vr_name = vn_name v, vr_type = vn_type v, vr_status = vn_status v,
      vr_verified = vn_verified v, vr_website = vn_website v, vr_country = vn_country v, vr_city = vn_city v,
      vr_description = vn_description v, vr_created = vn_created v\<rparr>"

text \<open>An empty type is no filter (\<open>if (type)\<close>).\<close>

definition getAll :: "vendors_env \<Rightarrow> string option \<Rightarrow> VendorRow list \<Rightarrow> VendorResponse list result" where
  "getAll env typ rows =
     (let wanted = (case typ of Some (c # cs) \<Rightarrow> (\<lambda>v. vn_type v = c # cs) | _ \<Rightarrow> (\<lambda>_. True))
      in case ve_faults env ''vendors.list'' of
           Some _ \<Rightarrow> Inl (JsError ''Failed to list vendors.'')
         | None \<Rightarrow> Inr (map mapToDto (sort_key (\<lambda>v. - vn_created v) (filter wanted rows))))"

definition getRawById :: "vendors_env \<Rightarrow> string \<Rightarrow> VendorRow list \<Rightarrow> VendorRow result" where
  "getRawById env i rows =
     (case with_fault (ve_faults env ''vendors.select'') (single (filter (\<lambda>v. vn_pk v = i) rows)) of
        Inl _ \<Rightarrow> Inl (not_found ''VENDOR_NOT_FOUND'') | Inr v \<Rightarrow> Inr v)"

definition getById :: "vendors_env \<Rightarrow> string \<Rightarrow> VendorRow list \<Rightarrow> VendorResponse result" where
  "getById env i rows = andThen (getRawById env i rows) (\<lambda>v. Inr (mapToDto v))"

record VendorAction =
  va_xdr :: string
  va_vendor :: string
  va_status :: VendorStatus

definition approveVendor :: "vendors_env \<Rightarrow> string \<Rightarrow> string \<Rightarrow> VendorRow list \<Rightarrow> VendorAction result" where
  "approveVendor env admin i rows =
     andThen (getRawById env i rows) (\<lambda>v.
       if vn_status v \<noteq> VendorPending then Inl (conflict ''VENDOR_NOT_PENDING'')
       else andThen (buildApproveVendorXdr (ve_soroban env) (ve_registry env) admin (vn_pk v)) (\<lambda>xdr.
         Inr \<lparr>va_xdr = xdr, va_vendor = vn_pk v, va_status = vn_status v\<rparr>))"

definition suspendVendor :: "vendors_env \<Rightarrow> string \<Rightarrow> string \<Rightarrow> VendorRow list \<Rightarrow> VendorAction result" where
  "suspendVendor env admin i rows =
     andThen (getRawById env i rows) (\<lambda>v.
       if vn_status v \<noteq> VendorApproved then Inl (conflict ''VENDOR_NOT_APPROVED'')
       else andThen (buildSuspendVendorXdr (ve_soroban env) (ve_registry env) admin (vn_pk v)) (\<lambda>xdr.
         Inr \<lparr>va_xdr = xdr, va_vendor = vn_pk v, va_status = vn_status v\<rparr>))"

section \<open>Registration\<close>

record RegisterVendor =
  rv_name :: string
  rv_category :: string
  rv_country :: string
  rv_city :: "string option"
  rv_website :: "string option"
  rv_description :: "string option"

text \<open>The status is the default of the column.\<close>

definition new_vendor_row :: "vendors_env \<Rightarrow> string \<Rightarrow> RegisterVendor \<Rightarrow> VendorRow" where
  "new_vendor_row env w dto =
     \<lparr>vn_pk = ve_pk env, vn_wallet = Some w, vn_name = rv_name dto, vn_type = rv_category dto,
      vn_status = VendorPending, vn_verified = False, vn_website = rv_website dto,
      vn_country = Some (rv_country dto), vn_city = rv_city dto, vn_description = rv_description dto,
      vn_created = ve_now env\<rparr>"

text \<open>\<open>vendors.wallet_address\<close> is unique; null addresses do not clash.\<close>

definition same_wallet :: "VendorRow \<Rightarrow> VendorRow \<Rightarrow> bool" where
  "same_wallet a b \<longleftrightarrow> vn_pk a = vn_pk b \<or> vn_wallet a \<noteq> None \<and> vn_wallet a = vn_wallet b"

definition insert_vendor :: "vendors_env \<Rightarrow> string \<Rightarrow> RegisterVendor \<Rightarrow> VendorRow list \<Rightarrow> VendorResponse result \<times> VendorRow list" where
  "insert_vendor env w dto rows =
     (case with_fault (ve_faults env ''vendors.insert'') (insert_unique same_wallet (new_vendor_row env w dto) rows) of
        Inl _ \<Rightarrow> (Inl (internal_error ''DATABASE_VENDOR_CREATE_FAILED''), rows)
      | Inr rows' \<Rightarrow> (Inr (mapToDto (new_vendor_row env w dto)), rows'))"

definition registerVendor :: "vendors_env \<Rightarrow> string \<Rightarrow> RegisterVendor \<Rightarrow> VendorRow list \<Rightarrow> VendorResponse result \<times> VendorRow list" where
  "registerVendor env w dto rows =
     (case findByWallet env w rows of
        Inl e \<Rightarrow> (Inl e, rows)
      | Inr (Some _) \<Rightarrow> (Inl (conflict ''VENDOR_ALREADY_REGISTERED''), rows)
      | Inr None \<Rightarrow> insert_vendor env w dto rows)"

definition requireVendor :: "vendors_env \<Rightarrow> string \<Rightarrow> VendorRow list \<Rightarrow> VendorRow result" where
  "requireVendor env w rows =
     andThen (findByWallet env w rows) (\<lambda>v.
       case v of None \<Rightarrow> Inl (not_found ''VENDOR_NOT_FOUND'') | Some v \<Rightarrow> Inr v)"

section \<open>Dashboard, loans and payments\<close>

record VendorDashboard =
  db_loans :: nat
  db_received :: num
  db_borrowers :: nat
  db_default_rate :: num

definition sumPaymentsForLoans :: "vendors_env \<Rightarrow> string list \<Rightarrow> PaymentRow list \<Rightarrow> num result" where
  "sumPaymentsForLoans env ids payments =
     (if ids = [] then Inr 0
      else case ve_faults env ''payments.sum'' of
        Some _ \<Rightarrow> Inl vendor_query_error
      | None \<Rightarrow> Inr (foldl (\<lambda>s p. jadd s (pm_amount p)) 0 (filter (\<lambda>p. pm_loan p \<in> set ids) payments)))"

definition default_rate :: "nat \<Rightarrow> nat \<Rightarrow> num" where
  "default_rate defaulted n =
     (if n = 0 then 0
      else jdiv (math_round (jmul (jdiv (of_nat defaulted) (of_nat n)) 10000)) 100)"

definition vendor_loans :: "VendorRow \<Rightarrow> LoanRow list \<Rightarrow> LoanRow list" where
  "vendor_loans v loans = filter (\<lambda>l. loan_vendor l = Some (vn_pk v)) loans"

definition getDashboard :: "vendors_env \<Rightarrow> string \<Rightarrow> vendors_db \<Rightarrow> VendorDashboard result" where
  "getDashboard env w db =
     andThen (requireVendor env w (vd_vendors db)) (\<lambda>v.
       case ve_faults env ''loans.dashboard'' of
         Some _ \<Rightarrow> Inl vendor_query_error
       | None \<Rightarrow>
           let loans = vendor_loans v (vd_loans db);
               defaulted = length (filter (\<lambda>l. loan_status l = LoanDefaulted) loans);
               active = filter (\<lambda>l. loan_status l = LoanActive) loans
           in andThen (sumPaymentsForLoans env (map loan_id loans) (vd_payments db)) (\<lambda>received.
                Inr \<lparr>db_loans = length loans, db_received = received,
                     db_borrowers = length (remdups (map loan_wallet active)),
                     db_default_rate = default_rate defaulted (length loans)\<rparr>))"

record VendorLoan =
  vl_id :: string
  vl_loanId :: string
  vl_borrower :: string
  vl_amount :: num
  vl_loanAmount :: num
  vl_remaining :: num
  vl_status :: LoanStatus
  vl_nextDue :: "int option"
  vl_created :: int

definition mapLoanToDto :: "LoanRow \<Rightarrow> VendorLoan" where
  "mapLoanToDto l =
     \<lparr>vl_id = loan_pk l, vl_loanId = loan_id l, vl_borrower = loan_wallet l, vl_amount = loan_amount l,
      vl_loanAmount = loan_principal l, vl_remaining = loan_balance l, vl_status = loan_status l,
      vl_nextDue = loan_next_due l, vl_created = loan_created l\<rparr>"

record 'i vendor_page =
  pg_items :: "'i list"
  pg_total :: nat
  pg_page :: int
  pg_limit :: int
  pg_pages :: int

text \<open>A sort column that is not in the list is replaced; anything but \<open>asc\<close> is descending.\<close>

definition LOAN_SORT_COLUMNS :: "string list" where
  "LOAN_SORT_COLUMNS = [''created_at'', ''amount'', ''status'']"

definition loan_sort_key :: "vendors_env \<Rightarrow> string option \<Rightarrow> LoanRow \<Rightarrow> num" where
  "loan_sort_key env col l =
     (case col of
        Some c \<Rightarrow> if c \<in> set LOAN_SORT_COLUMNS \<and> c = ''amount'' then loan_amount l
                  else if c \<in> set LOAN_SORT_COLUMNS \<and> c = ''status'' then of_int (ve_rank env (loan_status l))
                  else of_int (loan_created l)
      | None \<Rightarrow> of_int (loan_created l))"

definition ordered_loans :: "vendors_env \<Rightarrow> string option \<Rightarrow> string option \<Rightarrow> VendorRow \<Rightarrow> LoanRow list \<Rightarrow> LoanRow list" where
  "ordered_loans env col order v loans =
     sort_key (\<lambda>l. (if order = Some ''asc'' then 1 else - 1) * loan_sort_key env col l) (vendor_loans v loans)"

definition getLoans ::
  "vendors_env \<Rightarrow> string \<Rightarrow> int \<Rightarrow> int \<Rightarrow> string option \<Rightarrow> string option \<Rightarrow> vendors_db \<Rightarrow> VendorLoan vendor_page result" where
  "getLoans env w page limit col order db =
     andThen (requireVendor env w (vd_vendors db)) (\<lambda>v.
       let rows = ordered_loans env col order v (vd_loans db)
       in case with_fault (ve_faults env ''loans.list'') (range_query ((page - 1) * limit) limit rows) of
            Inl _ \<Rightarrow> Inl vendor_query_error
          | Inr items \<Rightarrow> Inr \<lparr>pg_items = map mapLoanToDto items, pg_total = length rows, pg_page = page,
                              pg_limit = limit, pg_pages = page_count (length rows) limit\<rparr>)"

text \<open>The id and the timestamps of \<open>payment_index\<close> are left out of its rows.\<close>

record VendorPayment =
  vy_loanId :: string
  vy_amount :: num
  vy_txHash :: string
  vy_paidAt :: int

definition mapPaymentToDto :: "PaymentRow \<Rightarrow> VendorPayment" where
  "mapPaymentToDto p = \<lparr>vy_loanId = pm_loan p, vy_amount = pm_amount p, vy_txHash = pm_tx p, vy_paidAt = pm_paid p\<rparr>"

definition getPayments :: "vendors_env \<Rightarrow> string \<Rightarrow> int \<Rightarrow> int \<Rightarrow> vendors_db \<Rightarrow> VendorPayment vendor_page result" where
  "getPayments env w page limit db =
     andThen (requireVendor env w (vd_vendors db)) (\<lambda>v.
       case ve_faults env ''loans.ids'' of
         Some _ \<Rightarrow> Inl vendor_query_error
       | None \<Rightarrow>
           let ids = map loan_id (vendor_loans v (vd_loans db));
               rows = sort_key (\<lambda>p. - pm_paid p) (filter (\<lambda>p. pm_loan p \<in> set ids) (vd_payments db))
           in if ids = [] then Inr \<lparr>pg_items = [], pg_total = 0, pg_page = page, pg_limit = limit, pg_pages = 0\<rparr>
              else case with_fault (ve_faults env ''payments.list'') (range_query ((page - 1) * limit) limit rows) of
                     Inl _ \<Rightarrow> Inl vendor_query_error
                   | Inr items \<Rightarrow> Inr \<lparr>pg_items = map mapPaymentToDto items, pg_total = length rows, pg_page = page,
                                       pg_limit = limit, pg_pages = page_count (length rows) limit\<rparr>)"

section \<open>Products\<close>

record VendorProduct =
  vo_id :: string
  vo_vendor :: string
  vo_name :: string
  vo_price :: num
  vo_category :: "string option"
  vo_description :: "string option"
  vo_created :: int
  vo_updated :: int

definition mapProductToDto :: "VendorProductRow \<Rightarrow> VendorProduct" where
  "mapProductToDto p =
     \<lparr>vo_id = vp_pk p, vo_vendor = vp_vendor p, vo_name = vp_name p, vo_price = vp_price p,
      vo_category = vp_category p, vo_description = vp_description p, vo_created = vp_created p,
      vo_updated = vp_updated p\<rparr>"

definition getProducts :: "vendors_env \<Rightarrow> string \<Rightarrow> vendors_db \<Rightarrow> VendorProduct list result" where
  "getProducts env w db =
     andThen (requireVendor env w (vd_vendors db)) (\<lambda>v.
       case ve_faults env ''products.list'' of
         Some _ \<Rightarrow> Inl vendor_query_error
       | None \<Rightarrow> Inr (map mapProductToDto
           (sort_key (\<lambda>p. - vp_created p) (filter (\<lambda>p. vp_vendor p = vn_pk v) (vd_products db)))))"

record CreateVendorProduct =
  cp_name :: string
  cp_price :: num
  cp_category :: "string option"
  cp_description :: "string option"

text \<open>
  A field of an update that is not given is \<open>None\<close>, a \<open>null\<close> is \<open>Some None\<close>; the database refuses it for
  name and price, whose columns are \<open>NOT NULL\<close>.
\<close>

record UpdateVendorProduct =
  up_name :: "string option option"
  up_price :: "num option option"
  up_category :: "string option option"
  up_description :: "string option option"

definition new_product :: "vendors_env \<Rightarrow> VendorRow \<Rightarrow> CreateVendorProduct \<Rightarrow> VendorProductRow" where
  "new_product env v dto =
     \<lparr>vp_pk = ve_pk env, vp_vendor = vn_pk v, vp_name = cp_name dto, vp_price = cp_price dto,
      vp_category = cp_category dto, vp_description = cp_description dto, vp_created = ve_now env,
      vp_updated = ve_now env\<rparr>"

definition createProduct :: "vendors_env \<Rightarrow> string \<Rightarrow> CreateVendorProduct \<Rightarrow> vendors_db \<Rightarrow> VendorProduct result \<times> vendors_db" where
  "createProduct env w dto db =
     (case requireVendor env w (vd_vendors db) of
        Inl e \<Rightarrow> (Inl e, db)
      | Inr v \<Rightarrow>
          (case with_fault (ve_faults env ''products.insert'')
                  (insert_unique (\<lambda>a b. vp_pk a = vp_pk b) (new_product env v dto) (vd_products db)) of
             Inl _ \<Rightarrow> (Inl (internal_error ''DATABASE_PRODUCT_CREATE_FAILED''), db)
           | Inr rows \<Rightarrow> (Inr (mapProductToDto (new_product env v dto)), db\<lparr>vd_products := rows\<rparr>)))"

definition requireOwnedProduct :: "vendors_env \<Rightarrow> string \<Rightarrow> string \<Rightarrow> VendorProductRow list \<Rightarrow> unit result" where
  "requireOwnedProduct env vendor pid rows =
     (case with_fault (ve_faults env ''products.owner'') (maybe_single (filter (\<lambda>p. vp_pk p = pid) rows)) of
        Inl _ \<Rightarrow> Inl vendor_query_error
      | Inr None \<Rightarrow> Inl (not_found ''PRODUCT_NOT_FOUND'')
      | Inr (Some p) \<Rightarrow> if vp_vendor p \<noteq> vendor then Inl (forbidden ''PRODUCT_FORBIDDEN'') else Inr ())"

definition product_update :: "int \<Rightarrow> UpdateVendorProduct \<Rightarrow> VendorProductRow \<Rightarrow> VendorProductRow" where
  "product_update now dto p =
     (let p1 = p\<lparr>vp_updated := now\<rparr>;
          p2 = (case up_name dto of Some (Some x) \<Rightarrow> p1\<lparr>vp_name := x\<rparr> | _ \<Rightarrow> p1);
          p3 = (case up_price dto of Some (Some x) \<Rightarrow> p2\<lparr>vp_price := x\<rparr> | _ \<Rightarrow> p2);
          p4 = (case up_category dto of Some x \<Rightarrow> p3\<lparr>vp_category := x\<rparr> | None \<Rightarrow> p3)
      in case up_description dto of Some x \<Rightarrow> p4\<lparr>vp_description := x\<rparr> | None \<Rightarrow> p4)"

definition owned_product :: "string \<Rightarrow> string \<Rightarrow> VendorProductRow \<Rightarrow> bool" where
  "owned_product vendor pid p \<longleftrightarrow> vp_pk p = pid \<and> vp_vendor p = vendor"

text \<open>The checks and the write are separate statements; the write repeats the ownership filter.\<close>

definition write_product :: "vendors_env \<Rightarrow> string \<Rightarrow> string \<Rightarrow> UpdateVendorProduct \<Rightarrow> vendors_db \<Rightarrow> VendorProduct result \<times> vendors_db" where
  "write_product env vendor pid dto db =
     (let f = product_update (ve_now env) dto
      in case with_fault (ve_faults env ''products.update'') (single (filter (owned_product vendor pid) (vd_products db))) of
           Inl _ \<Rightarrow> (Inl (internal_error ''DATABASE_PRODUCT_UPDATE_FAILED''), db)
         | Inr p \<Rightarrow>
             if up_name dto = Some None \<or> up_price dto = Some None
             then (Inl (internal_error ''DATABASE_PRODUCT_UPDATE_FAILED''), db)
             else (Inr (mapProductToDto (f p)),
                      db\<lparr>vd_products := update_where (owned_product vendor pid) f (vd_products db)\<rparr>))"

definition updateProduct ::
  "vendors_env \<Rightarrow> string \<Rightarrow> string \<Rightarrow> UpdateVendorProduct \<Rightarrow> vendors_db \<Rightarrow> VendorProduct result \<times> vendors_db" where
  "updateProduct env w pid dto db =
     (case andThen (requireVendor env w (vd_vendors db)) (\<lambda>v.
             andThen (requireOwnedProduct env (vn_pk v) pid (vd_products db)) (\<lambda>_. Inr (vn_pk v))) of
        Inl e \<Rightarrow> (Inl e, db)
      | Inr vendor \<Rightarrow> write_product env vendor pid dto db)"

definition deleteProduct :: "vendors_env \<Rightarrow> string \<Rightarrow> string \<Rightarrow> vendors_db \<Rightarrow> unit result \<times> vendors_db" where
  "deleteProduct env w pid db =
     (case andThen (requireVendor env w (vd_vendors db)) (\<lambda>v.
             andThen (requireOwnedProduct env (vn_pk v) pid (vd_products db)) (\<lambda>_. Inr (vn_pk v))) of
        Inl e \<Rightarrow> (Inl e, db)
      | Inr vendor \<Rightarrow>
          (case ve_faults env ''products.delete'' of
             Some _ \<Rightarrow> (Inl (internal_error ''DATABASE_PRODUCT_DELETE_FAILED''), db)
           | None \<Rightarrow> (Inr (), db\<lparr>vd_products := delete_where (owned_product vendor pid) (vd_products db)\<rparr>)))"

section \<open>One profile per wallet\<close>

definition vendor_claim :: "vendors_env \<times> string \<times> RegisterVendor \<Rightarrow> VendorRow list \<Rightarrow> VendorRow list option" where
  "vendor_claim c rows = (case c of (env, w, dto) \<Rightarrow>
     (case insert_vendor env w dto rows of (Inr _, rows') \<Rightarrow> Some rows' | _ \<Rightarrow> None))"

definition wallet_taken :: "string \<Rightarrow> VendorRow list \<Rightarrow> bool" where
  "wallet_taken w rows \<longleftrightarrow> (\<exists>v \<in> set rows. vn_wallet v = Some w)"

lemma insert_vendor_Inr:
  "insert_vendor env w dto rows = (Inr x, rows') \<longleftrightarrow>
     ve_faults env ''vendors.insert'' = None \<and> (\<forall>v \<in> set rows. \<not> same_wallet (new_vendor_row env w dto) v) \<and>
     x = mapToDto (new_vendor_row env w dto) \<and> rows' = rows @ [new_vendor_row env w dto]"
  by (auto simp: insert_vendor_def insert_unique_def with_fault_def split: sum.splits option.splits if_splits)

lemma vendor_claim_Some:
  "vendor_claim (env, w, dto) rows = Some rows' \<longleftrightarrow> (\<exists>x. insert_vendor env w dto rows = (Inr x, rows'))"
  by (auto simp: vendor_claim_def split: prod.splits sum.splits)

lemma new_vendor_wallet [simp]: "vn_wallet (new_vendor_row env w dto) = Some w"
  by (simp add: new_vendor_row_def)

lemma vendor_claim_taken:
  assumes "vendor_claim (env, w, dto) rows = Some rows'"
  shows "\<not> wallet_taken w rows" and "wallet_taken k rows' \<longleftrightarrow> k = w \<or> wallet_taken k rows"
  using assms by (auto simp: vendor_claim_Some insert_vendor_Inr wallet_taken_def same_wallet_def)

interpretation vendor: claim_once vendor_claim "\<lambda>c. fst (snd c)" "\<lambda>_. True" wallet_taken
proof
  fix c :: "vendors_env \<times> string \<times> RegisterVendor" and s s' k
  assume cl: "vendor_claim c s = Some s'"
  obtain env w dto where c: "c = (env, w, dto)" by (cases c)
  note t = vendor_claim_taken [OF cl [unfolded c]]
  show "\<not> wallet_taken (fst (snd c)) s" "wallet_taken (fst (snd c)) s'" using t by (simp_all add: c)
  show "wallet_taken k s \<Longrightarrow> wallet_taken k s'" using t by simp
qed

text \<open>A wallet has one vendor profile: however registrations interleave, with each other and with
  steps that do not delete a profile, at most one of a wallet succeeds; and a registration that
  succeeds appends exactly the pending, unverified profile it answers with.\<close>

theorem one_profile_per_wallet:
  assumes "vendor.keeps w es"
  shows "vendor.wins w es rows \<le> 1 \<and>
    (registerVendor env w' dto rows = (Inr x, rows') \<longrightarrow>
       vendor_claim (env, w', dto) rows = Some rows' \<and> vr_status x = VendorPending \<and> \<not> vr_verified x \<and>
       (\<exists>v. rows' = rows @ [v] \<and> x = mapToDto v \<and> vn_wallet v = Some w' \<and> vn_type v = rv_category dto))"
proof -
  have "vendor_claim (env, w', dto) rows = Some rows' \<and> vr_status x = VendorPending \<and> \<not> vr_verified x \<and>
      (\<exists>v. rows' = rows @ [v] \<and> x = mapToDto v \<and> vn_wallet v = Some w' \<and> vn_type v = rv_category dto)"
    if "registerVendor env w' dto rows = (Inr x, rows')"
  proof -
    from that have "insert_vendor env w' dto rows = (Inr x, rows')"
      by (auto simp: registerVendor_def split: sum.splits option.splits)
    then show ?thesis by (auto simp: vendor_claim_Some insert_vendor_Inr mapToDto_def new_vendor_row_def)
  qed
  then show ?thesis using vendor.wins_le_1 [OF assms] by blast
qed

definition demo_venv :: vendors_env where
  "demo_venv = \<lparr>ve_now = 1000, ve_pk = ''v1'', ve_faults = no_faults, ve_soroban = le_soroban demo_loans_env,
     ve_registry = ''CV'', ve_rank = (\<lambda>_. 0)\<rparr>"

definition demo_profile :: RegisterVendor where
  "demo_profile = \<lparr>rv_name = ''School'', rv_category = ''school'', rv_country = ''Nigeria'', rv_city = None,
     rv_website = None, rv_description = None\<rparr>"

theorem one_profile_per_wallet_witness:
  "vendor.wins ''GV'' [Claim (demo_venv, ''GV'', demo_profile), Claim (demo_venv\<lparr>ve_pk := ''v2''\<rparr>, ''GV'', demo_profile)] [] \<le> 1"
  by (rule one_profile_per_wallet [where env = demo_venv and w' = w' and dto = demo_profile and x = x and rows' = "[]", THEN conjunct1])
    (simp only: vendor.keeps_Cons vendor.keeps_Nil event.case)

section \<open>Products\<close>

lemma requireVendor_Inr:
  "requireVendor env w rows = Inr v \<longleftrightarrow>
     ve_faults env ''vendors.byWallet'' = None \<and> filter (\<lambda>v. vn_wallet v = Some w) rows = [v]"
  unfolding requireVendor_def findByWallet_def single_or_null_def andThen_Inr_iff
  by (auto simp: single_def pgrst116_def with_fault_def split: sum.splits if_splits option.splits list.splits)

lemma requireOwned_Inr:
  "requireOwnedProduct env vendor pid rows = Inr u \<longleftrightarrow>
     ve_faults env ''products.owner'' = None \<and> (\<exists>p. filter (\<lambda>p. vp_pk p = pid) rows = [p] \<and> vp_vendor p = vendor)"
  unfolding requireOwnedProduct_def
  by (auto simp: maybe_single_def with_fault_def split: sum.splits option.splits if_splits list.splits)

lemma product_update_key [simp]: "vp_pk (product_update now dto p) = vp_pk p" "vp_vendor (product_update now dto p) = vp_vendor p"
  by (simp_all add: product_update_def Let_def split: option.split)

lemma write_product_frame:
  "vd_vendors (snd (write_product env vendor pid dto db)) = vd_vendors db \<and>
   filter (\<lambda>p. vp_vendor p \<noteq> vendor) (vd_products (snd (write_product env vendor pid dto db))) =
   filter (\<lambda>p. vp_vendor p \<noteq> vendor) (vd_products db)"
  unfolding write_product_def
  by (auto simp: Let_def owned_product_def intro!: filter_update_where_frame split: sum.split)

text \<open>The three writes of a wallet.\<close>

datatype product_request = CreateP CreateVendorProduct | UpdateP string UpdateVendorProduct | DeleteP string

definition product_request :: "vendors_env \<Rightarrow> string \<Rightarrow> product_request \<Rightarrow> vendors_db \<Rightarrow> exn option \<times> vendors_db" where
  "product_request env w r db =
     (case r of
        CreateP dto \<Rightarrow> (case createProduct env w dto db of (Inl e, db') \<Rightarrow> (Some e, db') | (Inr _, db') \<Rightarrow> (None, db'))
      | UpdateP pid dto \<Rightarrow> (case updateProduct env w pid dto db of (Inl e, db') \<Rightarrow> (Some e, db') | (Inr _, db') \<Rightarrow> (None, db'))
      | DeleteP pid \<Rightarrow> (case deleteProduct env w pid db of (Inl e, db') \<Rightarrow> (Some e, db') | (Inr _, db') \<Rightarrow> (None, db')))"

definition requested_product :: "product_request \<Rightarrow> string option" where
  "requested_product r = (case r of CreateP _ \<Rightarrow> None | UpdateP pid _ \<Rightarrow> Some pid | DeleteP pid \<Rightarrow> Some pid)"

text \<open>Products are changed by their own vendor only: a request of a wallet leaves the products of
  all other vendors as they are; it changes something only if the wallet has a vendor profile, and
  a successful update or deletion was of a product of that vendor.\<close>

theorem products_changed_by_owner:
  assumes "product_request env w r db = (e, db')"
  shows "(db' \<noteq> db \<or> e = None \<longrightarrow>
       (\<exists>v. filter (\<lambda>v. vn_wallet v = Some w) (vd_vendors db) = [v] \<and>
          filter (\<lambda>p. vp_vendor p \<noteq> vn_pk v) (vd_products db') = filter (\<lambda>p. vp_vendor p \<noteq> vn_pk v) (vd_products db) \<and>
          (\<forall>pid. requested_product r = Some pid \<longrightarrow>
             (\<exists>p. filter (\<lambda>p. vp_pk p = pid) (vd_products db) = [p] \<and> vp_vendor p = vn_pk v)))) \<and>
     vd_vendors db' = vd_vendors db"
proof (cases r)
  case (CreateP dto)
  with assms show ?thesis
    by (auto simp: product_request_def createProduct_def requested_product_def requireVendor_Inr insert_unique_def
        new_product_def with_fault_def split: sum.splits prod.splits option.splits if_splits)
next
  case (UpdateP pid dto)
  show ?thesis
  proof (cases "requireVendor env w (vd_vendors db)")
    case (Inr v)
    show ?thesis
    proof (cases "requireOwnedProduct env (vn_pk v) pid (vd_products db)")
      case (Inr u)
      from assms UpdateP \<open>requireVendor env w (vd_vendors db) = Inr v\<close> Inr
      have db': "db' = snd (write_product env (vn_pk v) pid dto db)"
        by (auto simp: product_request_def updateProduct_def split: sum.splits prod.splits)
      show ?thesis
        using write_product_frame [of env "vn_pk v" pid dto db] Inr \<open>requireVendor env w (vd_vendors db) = Inr v\<close> UpdateP
        by (auto simp: db' requireVendor_Inr requireOwned_Inr requested_product_def)
    qed (use assms UpdateP Inr in \<open>auto simp: product_request_def updateProduct_def\<close>)
  qed (use assms UpdateP in \<open>auto simp: product_request_def updateProduct_def\<close>)
next
  case (DeleteP pid)
  show ?thesis
  proof (cases "requireVendor env w (vd_vendors db)")
    case (Inr v)
    show ?thesis
    proof (cases "requireOwnedProduct env (vn_pk v) pid (vd_products db)")
      case (Inr u)
      have "filter (\<lambda>p. vp_vendor p \<noteq> vn_pk v) (delete_where (owned_product (vn_pk v) pid) (vd_products db)) =
          filter (\<lambda>p. vp_vendor p \<noteq> vn_pk v) (vd_products db)"
        by (auto simp: delete_where_def owned_product_def intro!: filter_cong)
      then show ?thesis
        using assms DeleteP Inr \<open>requireVendor env w (vd_vendors db) = Inr v\<close>
        by (auto simp: product_request_def deleteProduct_def requireVendor_Inr requireOwned_Inr requested_product_def
            split: option.splits)
    qed (use assms DeleteP Inr in \<open>auto simp: product_request_def deleteProduct_def\<close>)
  qed (use assms DeleteP in \<open>auto simp: product_request_def deleteProduct_def\<close>)
qed

definition demo_vendor :: VendorRow where
  "demo_vendor = new_vendor_row demo_venv ''GV'' demo_profile"

definition demo_vdb :: vendors_db where
  "demo_vdb = \<lparr>vd_vendors = [demo_vendor],
     vd_products = [new_product demo_venv demo_vendor \<lparr>cp_name = ''Course'', cp_price = 20, cp_category = None, cp_description = None\<rparr>],
     vd_loans = [], vd_payments = []\<rparr>"

theorem products_changed_by_owner_witness:
  "vd_products (snd (product_request demo_venv ''GV'' (DeleteP ''v1'') demo_vdb)) = [] \<and>
   (\<exists>v. filter (\<lambda>v. vn_wallet v = Some ''GV'') (vd_vendors demo_vdb) = [v] \<and>
      filter (\<lambda>p. vp_vendor p \<noteq> vn_pk v) (vd_products (snd (product_request demo_venv ''GV'' (DeleteP ''v1'') demo_vdb))) =
      filter (\<lambda>p. vp_vendor p \<noteq> vn_pk v) (vd_products demo_vdb))"
proof -
  have r: "product_request demo_venv ''GV'' (DeleteP ''v1'') demo_vdb = (None, demo_vdb\<lparr>vd_products := []\<rparr>)"
    by (simp add: product_request_def deleteProduct_def requireVendor_def findByWallet_def single_or_null_def single_def
        requireOwnedProduct_def maybe_single_def demo_vdb_def demo_vendor_def demo_venv_def demo_profile_def
        new_vendor_row_def new_product_def delete_where_def owned_product_def)
  from products_changed_by_owner [OF r] show ?thesis by (auto simp: r)
qed

section \<open>Figures and pages\<close>

lemma default_rate_close:
  assumes "d \<le> n" and "0 < n"
  shows "0 \<le> default_rate d n \<and> default_rate d n \<le> 100 \<and> \<bar>default_rate d n - 100 * of_nat d / of_nat n\<bar> \<le> 0.00501"
proof -
  define q where "q = rat_of_nat d / rat_of_nat n"
  define k where "k = \<lfloor>jmul (jdiv (of_nat d) (of_nat n)) 10000 + 1 / 2\<rfloor>"
  have q: "0 \<le> q" "q \<le> 1" using assms by (simp_all add: q_def)
  have x: "0 \<le> fl q" "fl q \<le> 1" using fl_mono [OF q(1)] fl_mono [OF q(2)] fl_of_int [of 1] by (simp_all add: fl_0)
  have y: "0 \<le> fl (fl q * 10000)" "fl (fl q * 10000) \<le> 10000"
    using fl_mono [of 0 "fl q * 10000"] fl_mono [of "fl q * 10000" 10000] x fl_of_int [of 10000] by (simp_all add: fl_0)
  have k: "k = \<lfloor>fl (fl q * 10000) + 1 / 2\<rfloor>" by (simp add: k_def q_def jmul_def jdiv_def)
  then have kb: "0 \<le> k" "k \<le> 10000" using y by linarith+
  have r: "default_rate d n = cents k"
    using assms(2) by (simp add: default_rate_def math_round_def k_def cents_def jdiv_def)
  have e1: "\<bar>fl q - q\<bar> \<le> 1 / 2 ^ 53" using q by (intro fl_bound) simp
  have e2: "\<bar>fl (fl q * 10000) - fl q * 10000\<bar> \<le> 10000 / 2 ^ 53" using x by (intro fl_bound) simp
  have e3: "\<bar>rat_of_int k - fl (fl q * 10000)\<bar> \<le> 1 / 2" unfolding k by linarith
  have "\<bar>rat_of_int k / 100\<bar> \<le> 100" using kb by simp
  from fl_bound [OF this] have e4: "\<bar>cents k - of_int k / 100\<bar> \<le> 100 / 2 ^ 53" by (simp only: cents_def)
  have "\<bar>cents k - 100 * q\<bar> \<le> 0.00501" using e1 e2 e3 e4 unfolding abs_le_iff by simp
  moreover have "0 \<le> cents k" "cents k \<le> 100"
    using kb cents_mono [of k 10000] cents_nonneg [of k] fl_of_int [of 100] by (simp_all add: cents_def)
  ultimately show ?thesis by (simp add: r q_def)
qed

text \<open>The dashboard is about the loans of this vendor: their number, the distinct borrowers among
  the active ones, the share in default as a percentage between 0 and 100, within half a
  hundredth of the exact one, and the sum of the payments of these loans, within a hundredth of
  a cent of the exact sum for up to ten thousand payments of whole cents.\<close>

theorem dashboard_figures:
  assumes "getDashboard env w db = Inr d"
  shows "\<exists>v loans. requireVendor env w (vd_vendors db) = Inr v \<and>
     loans = filter (\<lambda>l. loan_vendor l = Some (vn_pk v)) (vd_loans db) \<and>
     db_loans d = length loans \<and>
     db_borrowers d = card {loan_wallet l | l. l \<in> set loans \<and> loan_status l = LoanActive} \<and>
     0 \<le> db_default_rate d \<and> db_default_rate d \<le> 100 \<and>
     (loans \<noteq> [] \<longrightarrow> \<bar>db_default_rate d -
        100 * of_nat (length (filter (\<lambda>l. loan_status l = LoanDefaulted) loans)) / of_nat (length loans)\<bar> \<le> 0.00501) \<and>
     (\<forall>ps. map pm_amount (filter (\<lambda>p. pm_loan p \<in> loan_id ` set loans) (vd_payments db)) = map cents ps \<longrightarrow>
        (\<forall>p \<in> set ps. 0 \<le> p) \<longrightarrow> sum_list ps \<le> 10 ^ 9 \<longrightarrow> length ps \<le> 10000 \<longrightarrow>
        \<bar>db_received d - of_int (sum_list ps) / 100\<bar> \<le> 1 / 10000)"
proof -
  from assms obtain v received where v: "requireVendor env w (vd_vendors db) = Inr v"
    and rec: "sumPaymentsForLoans env (map loan_id (vendor_loans v (vd_loans db))) (vd_payments db) = Inr received"
    and d: "d = \<lparr>db_loans = length (vendor_loans v (vd_loans db)), db_received = received,
       db_borrowers = length (remdups (map loan_wallet (filter (\<lambda>l. loan_status l = LoanActive) (vendor_loans v (vd_loans db))))),
       db_default_rate = default_rate (length (filter (\<lambda>l. loan_status l = LoanDefaulted) (vendor_loans v (vd_loans db))))
         (length (vendor_loans v (vd_loans db)))\<rparr>"
    by (auto simp: getDashboard_def andThen_Inr_iff Let_def split: option.splits)
  let ?ls = "vendor_loans v (vd_loans db)"
  have b: "length (remdups (map loan_wallet (filter P ?ls))) = card {loan_wallet l | l. l \<in> set ?ls \<and> P l}" for P
    by (simp add: length_remdups_card_conv image_def Bex_def conj_commute)
  have rate: "0 \<le> db_default_rate d \<and> db_default_rate d \<le> 100" and
    close: "?ls \<noteq> [] \<Longrightarrow> \<bar>db_default_rate d - 100 * of_nat (length (filter (\<lambda>l. loan_status l = LoanDefaulted) ?ls)) / of_nat (length ?ls)\<bar> \<le> 0.00501"
    using default_rate_close [of "length (filter (\<lambda>l. loan_status l = LoanDefaulted) ?ls)" "length ?ls"]
    by (cases "?ls = []"; simp add: d default_rate_def [of _ 0])+
  have sum: "\<bar>received - of_int (sum_list ps) / 100\<bar> \<le> 1 / 10000"
    if p: "map pm_amount (filter (\<lambda>p. pm_loan p \<in> loan_id ` set ?ls) (vd_payments db)) = map cents ps"
      "\<forall>p \<in> set ps. 0 \<le> p" "sum_list ps \<le> 10 ^ 9" "length ps \<le> 10000" for ps
  proof (cases "?ls = []")
    case True
    with p(1) have "ps = []" by simp
    with rec True show ?thesis by (simp add: sumPaymentsForLoans_def)
  next
    case False
    then have "received = foldl (\<lambda>s p. jadd s (pm_amount p)) 0 (filter (\<lambda>p. pm_loan p \<in> loan_id ` set ?ls) (vd_payments db))"
      using rec by (auto simp: sumPaymentsForLoans_def split: option.splits)
    also have "\<dots> = foldl jadd 0 (map cents ps)" unfolding p(1) [symmetric] foldl_map ..
    finally have "\<bar>received - of_int (sum_list ps) / 100\<bar> \<le> of_nat (length ps) / 2 ^ 28"
      using sum_cents_close [OF p(2-4)] by simp
    also have "\<dots> \<le> 10000 / 2 ^ 28" using p(4) by (intro divide_right_mono) simp_all
    finally show ?thesis by simp
  qed
  show ?thesis
    using v rate close sum b [of "\<lambda>l. loan_status l = LoanActive"]
    by (intro exI [of _ v] exI [of _ "filter (\<lambda>l. loan_vendor l = Some (vn_pk v)) (vd_loans db)"]) (simp add: d vendor_loans_def)
qed

definition demo_db :: vendors_db where
  "demo_db = demo_vdb\<lparr>vd_loans := [demo_loan\<lparr>loan_vendor := Some ''v1'', loan_status := LoanDefaulted\<rparr>]\<rparr>"

lemma demo_dashboard: "getDashboard demo_venv ''GV'' demo_db =
    Inr \<lparr>db_loans = 1, db_received = 0, db_borrowers = 0, db_default_rate = 100\<rparr>"
proof -
  have "fl 1 = 1" "fl 100 = 100" "fl 10000 = 10000" using fl_of_int [of 1] fl_of_int [of 100] fl_of_int [of 10000] by simp_all
  moreover have "\<lfloor>20001 / 2 :: rat\<rfloor> = 10000" by (rule floor_unique) simp_all
  ultimately have "default_rate 1 1 = 100" by (simp add: default_rate_def jdiv_def jmul_def math_round_def)
  then show ?thesis
    by (simp add: getDashboard_def requireVendor_def findByWallet_def single_or_null_def single_def demo_db_def demo_vdb_def
        demo_vendor_def demo_venv_def demo_profile_def new_vendor_row_def vendor_loans_def sumPaymentsForLoans_def)
qed

theorem dashboard_figures_witness:
  "getDashboard demo_venv ''GV'' demo_db = Inr \<lparr>db_loans = 1, db_received = 0, db_borrowers = 0, db_default_rate = 100\<rparr> \<and>
   (\<exists>loans :: LoanRow list. 1 = length loans \<and> card {loan_wallet l | l. l \<in> set loans \<and> loan_status l = LoanActive} = 0)"
proof -
  from dashboard_figures [OF demo_dashboard] obtain loans :: "LoanRow list" where
    l: "1 = length loans" "0 = card {loan_wallet l | l. l \<in> set loans \<and> loan_status l = LoanActive}" by auto
  show ?thesis by (intro conjI demo_dashboard exI [of _ loans]) (use l in simp_all)
qed

text \<open>The list of loans as a paged one: the page after page \<open>k\<close> is \<open>k + 1\<close>, page numbers start at 1.\<close>

definition vendor_loans_page :: "vendors_env \<Rightarrow> string \<Rightarrow> string option \<Rightarrow> string option \<Rightarrow> vendors_db \<Rightarrow> nat \<Rightarrow> nat \<Rightarrow> VendorLoan list result" where
  "vendor_loans_page env w col order db n k =
     andThen (getLoans env w (int k + 1) (int n) col order db) (\<lambda>r. Inr (pg_items r))"

lemma vendor_loans_paged:
  assumes "requireVendor env w (vd_vendors db) = Inr v" and "ve_faults env ''loans.list'' = None" and "0 < n"
  shows "paged (vendor_loans_page env w col order db n) n (ordered_loans env col order v (vd_loans db)) mapLoanToDto"
proof
  fix k assume "k * n \<le> length (ordered_loans env col order v (vd_loans db))"
  from range_query_page [OF this] show "vendor_loans_page env w col order db n k =
      Inr (map mapLoanToDto (take n (drop (k * n) (ordered_loans env col order v (vd_loans db)))))"
    by (simp add: vendor_loans_page_def getLoans_def Let_def assms(1,2))
qed (rule assms(3))

text \<open>A vendor that walks as many pages of its loans as every page says there are sees each of its
  loans exactly once, in the order asked for, and no loan of another vendor.\<close>

theorem vendor_loans_pages:
  assumes "requireVendor env w (vd_vendors db) = Inr v" and "ve_faults env ''loans.list'' = None"
    and "0 < n" and "n \<le> 10 ^ 6" and "length (vd_loans db) \<le> 10 ^ 9"
  shows "\<exists>rows r. mset rows = mset (filter (\<lambda>l. loan_vendor l = Some (vn_pk v)) (vd_loans db)) \<and>
     getLoans env w 1 (int n) col order db = Inr r \<and> pg_total r = length rows \<and>
     concat (map (\<lambda>k. case getLoans env w (int k + 1) (int n) col order db of Inr r \<Rightarrow> pg_items r | Inl _ \<Rightarrow> [])
       [0..<nat (pg_pages r)]) = map mapLoanToDto rows \<and>
     sorted (map (\<lambda>l. (if order = Some ''asc'' then 1 else - 1) * loan_sort_key env col l) rows)"
proof -
  let ?rows = "ordered_loans env col order v (vd_loans db)"
  note p = vendor_loans_paged [OF assms(1-3), of col order]
  from range_query_page [of 0 n ?rows] obtain r where
    r: "getLoans env w 1 (int n) col order db = Inr r" "pg_total r = length ?rows" "pg_pages r = page_count (length ?rows) (int n)"
    by (simp add: getLoans_def Let_def assms(1,2))
  have "length ?rows \<le> 10 ^ 9" using le_trans [OF length_filter_le assms(5)] by (simp add: ordered_loans_def vendor_loans_def)
  then have pages: "nat (pg_pages r) = (length ?rows + n - 1) div n"
    using r(3) page_count_exact [of "length ?rows" n] assms(3,4) by simp
  have "paged.items (vendor_loans_page env w col order db n) = (\<lambda>k.
      case getLoans env w (int k + 1) (int n) col order db of Inr r \<Rightarrow> pg_items r | Inl _ \<Rightarrow> [])"
    by (rule ext) (simp add: paged.items_def [OF p] vendor_loans_page_def split: sum.split)
  with paged.walk_all [OF p] pages r show ?thesis
    by (intro exI [of _ ?rows] exI [of _ r]) (simp add: ordered_loans_def vendor_loans_def)
qed

theorem vendor_loans_pages_witness:
  "\<exists>rows r. mset rows = mset (filter (\<lambda>l. loan_vendor l = Some (vn_pk demo_vendor)) (vd_loans demo_db)) \<and>
     getLoans demo_venv ''GV'' 1 10 None None demo_db = Inr r \<and> pg_total r = length rows"
proof -
  have "requireVendor demo_venv ''GV'' (vd_vendors demo_db) = Inr demo_vendor"
    by (simp add: requireVendor_Inr demo_venv_def demo_db_def demo_vdb_def demo_vendor_def)
  from vendor_loans_pages [OF this, of 10 None None] show ?thesis by (auto simp: demo_db_def demo_vdb_def demo_venv_def)
qed

end
