(* ===== verification/StatusProcessor.thy ===== *)
theory StatusProcessor imports StatusChecker Vendors begin

text \<open>
  The queue worker that was written beside the status checker
  (\<open>jobs/transaction-status-checker/transaction-status-checker.processor.ts\<close>): the same cycle run
  by a BullMQ job, which also applies confirmed vendor approvals and suspensions. No module
  provides it, so the service of \<open>StatusChecker\<close> is the one that runs. Names that both have carry
  the suffix \<open>_q\<close> here.
\<close>

record queue_state =
  qs_tx :: "TxRow list"
  qs_loans :: "LoanRow list"
  qs_notes :: "Notification list"
  qs_vendors :: "VendorRow list"

section \<open>Asking Horizon\<close>

definition isTransientHorizonError_q :: "bool \<Rightarrow> nat option \<Rightarrow> string \<Rightarrow> bool" where
  "isTransientHorizonError_q network code msg \<longleftrightarrow>
     network \<or> code = Some 429 \<or> (\<exists>c. code = Some c \<and> 500 \<le> c) \<or>
     (\<exists>t \<in> set [''timeout'', ''rate limit'', ''throttl'', ''temporar'', ''network'']. str_includes (to_lower msg) t)"

definition extractHorizonError_q :: "(string option \<times> string) option \<Rightarrow> string option" where
  "extractHorizonError_q codes =
     (case codes of
        None \<Rightarrow> None
      | Some (Some (c # cs), json) \<Rightarrow> Some (c # cs)
      | Some (_, json) \<Rightarrow> Some json)"

text \<open>The attempts left, three at first; the last error is thrown.\<close>

fun attempts_q :: "checker_env \<Rightarrow> string option \<Rightarrow> nat \<Rightarrow> nat \<Rightarrow> status_result result" where
  "attempts_q env h done 0 = Inr StatusUnknown"
| "attempts_q env h done (Suc left) =
     (case ce_horizon env h (done + 1) of
        HFound ok codes \<Rightarrow> Inr (StatusFound ok (extractHorizonError_q codes))
      | HNotFound \<Rightarrow> Inr StatusUnknown
      | HError network code msg \<Rightarrow>
          if \<not> isTransientHorizonError_q network code msg \<or> left = 0 then Inl (JsError msg)
          else attempts_q env h (done + 1) left)"

definition checkTransactionStatus_q :: "checker_env \<Rightarrow> string option \<Rightarrow> status_result result" where
  "checkTransactionStatus_q env h = attempts_q env h 0 3"

section \<open>Follow-up actions\<close>

datatype vendor_action = ApproveVendor | SuspendVendor

record TransactionMetadata_q =
  mq_loanId :: "native option"
  mq_amount :: "num option"
  mq_vendorId :: "native option"
  mq_action :: "vendor_action option"

definition loan_metadata :: "native option \<Rightarrow> num option \<Rightarrow> TransactionMetadata_q" where
  "loan_metadata lid amt = \<lparr>mq_loanId = lid, mq_amount = amt, mq_vendorId = None, mq_action = None\<rparr>"

definition vendor_metadata :: "native option \<Rightarrow> vendor_action \<Rightarrow> TransactionMetadata_q" where
  "vendor_metadata v a = \<lparr>mq_loanId = None, mq_amount = None, mq_vendorId = v, mq_action = Some a\<rparr>"

text \<open>\<open>a ?? b\<close>.\<close>

definition nullish_or :: "native option \<Rightarrow> native option \<Rightarrow> native option" where
  "nullish_or a b = (case a of None \<Rightarrow> b | Some NNull \<Rightarrow> b | Some v \<Rightarrow> Some v)"

definition parseTransactionMetadata_q :: "checker_env \<Rightarrow> string \<Rightarrow> TransactionMetadata_q option" where
  "parseTransactionMetadata_q env xdr =
     (if xdr = [] then None
      else case ce_parse env xdr of
        Some (StoredCall (Some fn) (Some args)) \<Rightarrow>
          if fn = [] then None
          else if fn = ''create_loan'' then Some (loan_metadata (arg_at args 0) None)
          else if fn = ''repay_loan''
          then Some (loan_metadata (arg_at args 1)
                 (case arg_at args 2 of
                    Some (NBig i) \<Rightarrow> Some (jdiv (fl (of_int i)) 10000000)
                  | Some (NNum i) \<Rightarrow> Some (jdiv (of_int i) 10000000) | _ \<Rightarrow> None))
          else if fn = ''approve_vendor''
          then Some (vendor_metadata (nullish_or (arg_at args 1) (arg_at args 0)) ApproveVendor)
          else if fn = ''suspend_vendor''
          then Some (vendor_metadata (nullish_or (arg_at args 1) (arg_at args 0)) SuspendVendor)
          else None
      | _ \<Rightarrow> None)"

record FollowUpResult_q = FollowUpResult +
  fu_vendorId :: "string option"
  fu_vendorStatus :: "VendorStatus option"

definition no_follow_up_q :: FollowUpResult_q where
  "no_follow_up_q = FollowUpResult.extend no_follow_up (FollowUpResult_q.fields None None)"

definition set_vendor_status :: "VendorStatus \<Rightarrow> VendorRow \<Rightarrow> VendorRow" where
  "set_vendor_status s v = v\<lparr>vn_status := s\<rparr>"

text \<open>First by id; if that fails or finds no row, by wallet, ignoring the outcome.\<close>

definition updateVendorStatus ::
  "faults \<Rightarrow> native option \<Rightarrow> VendorStatus \<Rightarrow> VendorRow list \<Rightarrow> FollowUpResult_q \<times> VendorRow list" where
  "updateVendorStatus flt vid status rows =
     (case vid of
        None \<Rightarrow> (no_follow_up_q, rows)
      | Some v \<Rightarrow>
          if \<not> truthy v then (no_follow_up_q, rows)
          else let i = native_text v;
                   done = no_follow_up_q\<lparr>fu_vendorId := Some i, fu_vendorStatus := Some status\<rparr>;
                   by_id = (\<lambda>r. vn_pk r = i);
                   by_wallet = (\<lambda>r. vn_wallet r = Some i)
               in if flt ''vendors.byId'' = None \<and> (\<exists>r \<in> set rows. by_id r)
                  then (done, update_where by_id (set_vendor_status status) rows)
                  else if flt ''vendors.byWallet'' = None
                  then (done, update_where by_wallet (set_vendor_status status) rows)
                  else (done, rows))"

definition activatePendingLoan_q :: "faults \<Rightarrow> string \<Rightarrow> string \<Rightarrow> LoanRow list \<Rightarrow> FollowUpResult_q \<times> LoanRow list" where
  "activatePendingLoan_q flt lid wallet loans =
     (let only = no_follow_up_q\<lparr>fu_loanId := Some lid\<rparr>
      in case with_fault (flt ''activate.select'') (single (filter (loan_of lid wallet) loans)) of
           Inl _ \<Rightarrow> (only, loans)
         | Inr l \<Rightarrow>
             if loan_status l \<noteq> LoanPending then (only\<lparr>fu_status := Some (loan_status l)\<rparr>, loans)
             else if flt ''activate.update'' \<noteq> None then (only, loans)
             else (only\<lparr>fu_status := Some LoanActive\<rparr>,
                   update_where (\<lambda>x. loan_of lid wallet x \<and> loan_status x = LoanPending) (set_status LoanActive) loans))"

definition applyLoanRepayment_q ::
  "int \<Rightarrow> faults \<Rightarrow> string \<Rightarrow> string \<Rightarrow> num \<Rightarrow> LoanRow list \<Rightarrow> FollowUpResult_q \<times> LoanRow list" where
  "applyLoanRepayment_q now flt lid wallet amt loans =
     (let only = no_follow_up_q\<lparr>fu_loanId := Some lid\<rparr>
      in case with_fault (flt ''repay.select'') (single (filter (loan_of lid wallet) loans)) of
           Inl _ \<Rightarrow> (only, loans)
         | Inr l \<Rightarrow>
             let updated = max 0 (jdiv (math_round (jmul (jsub (loan_balance l) amt) 100)) 100);
                 status = (if updated = 0 then LoanCompleted else loan_status l);
                 payload = (\<lambda>r. if status \<noteq> loan_status l
                   then r\<lparr>loan_balance := updated, loan_status := status, loan_completed := Some now\<rparr>
                   else r\<lparr>loan_balance := updated\<rparr>)
             in if flt ''repay.update'' \<noteq> None then (only, loans)
                else (only\<lparr>fu_remaining := Some updated, fu_status := Some status\<rparr>,
                      update_where (loan_of lid wallet) payload loans))"

definition vendor_step :: "TxRow \<Rightarrow> TransactionMetadata_q option \<Rightarrow> VendorStatus option" where
  "vendor_step tx m =
     (let action = (case m of Some md \<Rightarrow> mq_action md | None \<Rightarrow> None)
      in if tx_type tx = Some ''vendor_approve'' \<or> action = Some ApproveVendor then Some VendorApproved
         else if tx_type tx = Some ''vendor_suspend'' \<or> action = Some SuspendVendor then Some VendorSuspended
         else None)"

definition applyFollowUpActions_q ::
  "checker_env \<Rightarrow> TxRow \<Rightarrow> bool \<Rightarrow> LoanRow list \<Rightarrow> VendorRow list \<Rightarrow> FollowUpResult_q \<times> LoanRow list \<times> VendorRow list" where
  "applyFollowUpActions_q env tx ok loans vendors =
     (if \<not> ok then (no_follow_up_q, loans, vendors)
      else
        let m = parseTransactionMetadata_q env (tx_xdr tx); flt = ce_faults env (tx_pk tx)
        in case vendor_step tx m of
             Some s \<Rightarrow>
               let (fu, vs) = updateVendorStatus flt (case m of Some md \<Rightarrow> mq_vendorId md | None \<Rightarrow> None) s vendors
               in (fu, loans, vs)
           | None \<Rightarrow>
               (case m of
                  None \<Rightarrow> (no_follow_up_q, loans, vendors)
                | Some md \<Rightarrow>
                    (case mq_loanId md of
                       None \<Rightarrow> (no_follow_up_q, loans, vendors)
                     | Some v \<Rightarrow>
                         if \<not> truthy v then (no_follow_up_q, loans, vendors)
                         else let lid = native_text v
                              in if tx_type tx = Some ''loan_create''
                                 then (let (fu, ls) = activatePendingLoan_q flt lid (tx_wallet tx) loans in (fu, ls, vendors))
                                 else if tx_type tx = Some ''loan_repay'' \<and> mq_amount md \<noteq> None
                                 then (let (fu, ls) = applyLoanRepayment_q (ce_now env) flt lid (tx_wallet tx) (the (mq_amount md)) loans
                                       in (fu, ls, vendors))
                                 else (no_follow_up_q\<lparr>fu_loanId := Some lid\<rparr>, loans, vendors))))"

section \<open>Finalizing a transaction\<close>

definition buildNotificationPayload_q :: "TxRow \<Rightarrow> bool \<Rightarrow> (string \<times> string) option" where
  "buildNotificationPayload_q tx ok =
     (case tx_type tx of
        None \<Rightarrow> None
      | Some t \<Rightarrow>
          if \<not> ok then Some (''transaction_failed'', ''Transaction Failed'')
          else if t = ''loan_create'' then Some (''loan_create_success'', ''Loan Activated'')
          else if t = ''loan_repay'' then Some (''loan_repay_success'', ''Loan Payment Confirmed'')
          else Some (''transaction_success'', ''Transaction Confirmed''))"

definition createNotification_q ::
  "checker_env \<Rightarrow> TxRow \<Rightarrow> bool \<Rightarrow> FollowUpResult_q \<Rightarrow> Notification list \<Rightarrow> unit result \<times> Notification list" where
  "createNotification_q env tx ok fu notes =
     (case buildNotificationPayload_q tx ok of
        None \<Rightarrow> (Inl (JsError ''type is null''), notes)
      | Some (t, title) \<Rightarrow>
          (Inr (), if ce_faults env (tx_pk tx) ''notifications.insert'' \<noteq> None then notes
             else notes @ [\<lparr>n_wallet = tx_wallet tx, n_type = t, n_title = title, n_hash = tx_thash tx,
                            n_tx_type = tx_type tx, n_loan = fu_loanId fu\<rparr>]))"

definition settled_row :: "int \<Rightarrow> bool \<Rightarrow> string option \<Rightarrow> TxRow \<Rightarrow> TxRow" where
  "settled_row now ok msg r =
     r\<lparr>tx_status := (if ok then TxSuccess else TxFailed), tx_completed := Some now,
       tx_error := (case msg of Some (c # cs) \<Rightarrow> Some (c # cs) | _ \<Rightarrow> tx_error r)\<rparr>"

definition finalizeTransaction_q ::
  "checker_env \<Rightarrow> TxRow \<Rightarrow> bool \<Rightarrow> string option \<Rightarrow> queue_state \<Rightarrow> unit result \<times> queue_state" where
  "finalizeTransaction_q env tx ok msg st =
     (case with_fault (ce_faults env (tx_pk tx) ''finalize'') (single (filter (awaiting (tx_thash tx)) (qs_tx st))) of
        Inl e \<Rightarrow> (Inl (JsError (err_message e)), st)
      | Inr _ \<Rightarrow>
          let rows = update_where (awaiting (tx_thash tx)) (settled_row (ce_now env) ok msg) (qs_tx st);
              (fu, loans, vendors) = applyFollowUpActions_q env tx ok (qs_loans st) (qs_vendors st);
              (r, notes) = createNotification_q env tx ok fu (qs_notes st)
          in (r, st\<lparr>qs_tx := rows, qs_loans := loans, qs_vendors := vendors, qs_notes := notes\<rparr>))"

section \<open>The job\<close>

definition fetchPendingTransactions_q :: "checker_env \<Rightarrow> TxRow list \<Rightarrow> TxRow list result" where
  "fetchPendingTransactions_q env rows =
     (case ce_faults env [] ''fetch'' of
        Some e \<Rightarrow> Inl (JsError (err_message e))
      | None \<Rightarrow> Inr (take 100 (sort_key tx_submitted (filter (\<lambda>r. tx_status r = TxPending) rows))))"

definition cleanupOldTransactions_q :: "checker_env \<Rightarrow> queue_state \<Rightarrow> queue_state" where
  "cleanupOldTransactions_q env st =
     (if ce_faults env [] ''cleanup'' \<noteq> None then st
      else st\<lparr>qs_tx := delete_where (\<lambda>r. tx_submitted r < ce_now env - 7 * 24 * 60 * 60 * 1000 \<and> tx_status r \<noteq> TxPending) (qs_tx st)\<rparr>)"

definition process_one :: "checker_env \<Rightarrow> TxRow \<Rightarrow> queue_state \<Rightarrow> queue_state" where
  "process_one env tx st =
     (case checkTransactionStatus_q env (tx_thash tx) of
        Inr (StatusFound ok msg) \<Rightarrow> snd (finalizeTransaction_q env tx ok msg st)
      | _ \<Rightarrow> st)"

definition process :: "checker_env \<Rightarrow> queue_state \<Rightarrow> queue_state" where
  "process env st =
     (let st1 = (case fetchPendingTransactions_q env (qs_tx st) of
                   Inl _ \<Rightarrow> st
                 | Inr pending \<Rightarrow> if pending = [] then cleanupOldTransactions_q env st
                                  else foldl (\<lambda>s tx. process_one env tx s) st pending)
      in cleanupOldTransactions_q env st1)"

section \<open>Against the service\<close>

text \<open>The two copies of a method compute the same.\<close>

lemma transient_same: "isTransientHorizonError_q n c m = isTransientHorizonError n c m"
  by (auto simp: isTransientHorizonError_q_def isTransientHorizonError_def Let_def split: option.splits)

lemma extract_same: "extractHorizonError_q codes = extractHorizonError codes"
  by (auto simp: extractHorizonError_q_def extractHorizonError_def present_def split: option.splits list.splits)

lemma attempts_same: "done + left = maxAttempts \<Longrightarrow> attempts_q env h done left = ask_horizon env h done"
proof (induction left arbitrary: "done")
  case 0
  then show ?case by (simp add: ask_horizon.simps [of env h])
next
  case (Suc n)
  then have "done < maxAttempts" "(maxAttempts \<le> done + 1) = (n = 0)" by auto
  with Suc show ?case
    by (subst ask_horizon.simps) (auto simp: transient_same extract_same split: horizon_reply.split)
qed

lemma status_same: "checkTransactionStatus_q env h = checkTransactionStatus env h"
  by (simp add: checkTransactionStatus_q_def checkTransactionStatus_def attempts_same maxAttempts_def)

lemma settled_same: "settled_row now ok msg = settle_row now ok msg"
  by (rule ext) (auto simp: settled_row_def settle_row_def Let_def present_def split: option.splits list.splits)

lemma truncate_q [simp]:
  "FollowUpResult.truncate no_follow_up_q = no_follow_up"
  "FollowUpResult.truncate (fu\<lparr>fu_loanId := l\<rparr>) = FollowUpResult.truncate fu\<lparr>fu_loanId := l\<rparr>"
  "FollowUpResult.truncate (fu\<lparr>fu_remaining := r\<rparr>) = FollowUpResult.truncate fu\<lparr>fu_remaining := r\<rparr>"
  "FollowUpResult.truncate (fu\<lparr>fu_status := s\<rparr>) = FollowUpResult.truncate fu\<lparr>fu_status := s\<rparr>"
  by (cases fu, simp add: FollowUpResult.defs no_follow_up_q_def no_follow_up_def)+

lemma truncate_loanId: "fu_loanId (FollowUpResult.truncate fu) = fu_loanId fu"
  by (cases fu) (simp add: FollowUpResult.defs)

lemma activate_same:
  "activatePendingLoan flt lid w loans =
     (FollowUpResult.truncate (fst (activatePendingLoan_q flt lid w loans)), snd (activatePendingLoan_q flt lid w loans))"
  by (auto simp: activatePendingLoan_q_def activatePendingLoan_def Let_def split: sum.split option.split)

lemma repay_row_same:
  "(\<lambda>r. if s \<noteq> old then r\<lparr>loan_balance := b, loan_status := s, loan_completed := Some now\<rparr> else r\<lparr>loan_balance := b\<rparr>) =
   repay_row now b old s"
  by (rule ext) (simp add: repay_row_def Let_def)

lemma repay_same:
  "applyLoanRepayment now flt lid w amt loans =
     (FollowUpResult.truncate (fst (applyLoanRepayment_q now flt lid w amt loans)), snd (applyLoanRepayment_q now flt lid w amt loans))"
  unfolding applyLoanRepayment_q_def applyLoanRepayment_def Let_def repay_row_same
  by (auto simp: repaid_balance_def split: sum.split option.split)

definition vendor_related :: "checker_env \<Rightarrow> TxRow \<Rightarrow> bool" where
  "vendor_related env tx \<longleftrightarrow> vendor_step tx (parseTransactionMetadata_q env (tx_xdr tx)) \<noteq> None"

lemma parse_same:
  "parseTransactionMetadata env xdr =
     (case parseTransactionMetadata_q env xdr of
        None \<Rightarrow> None
      | Some md \<Rightarrow> if mq_action md = None then Some \<lparr>md_loanId = mq_loanId md, md_amount = mq_amount md\<rparr> else None)"
proof (cases "ce_parse env xdr")
  case (Some call)
  then show ?thesis
  proof (cases call)
    case (StoredCall fn args)
    show ?thesis
    proof (cases "fn = None \<or> fn = Some [] \<or> args = None")
      case True
      then show ?thesis
        using Some StoredCall by (auto simp: parseTransactionMetadata_def parseTransactionMetadata_q_def split: option.split list.split)
    next
      case False
      then obtain c cs as where "fn = Some (c # cs)" "args = Some as" by (cases fn; cases "the fn"; cases args) auto
      then show ?thesis
        using Some StoredCall
        by (simp add: parseTransactionMetadata_def parseTransactionMetadata_q_def loan_metadata_def vendor_metadata_def)
    qed
  qed (simp add: parseTransactionMetadata_def parseTransactionMetadata_q_def)
qed (simp add: parseTransactionMetadata_def parseTransactionMetadata_q_def)

lemma follow_up_same:
  assumes "\<not> vendor_related env tx"
  shows "\<exists>fu. applyFollowUpActions_q env tx ok loans vendors = (fu, snd (applyFollowUpActions env tx ok loans), vendors) \<and>
    FollowUpResult.truncate fu = fst (applyFollowUpActions env tx ok loans)"
proof (cases "parseTransactionMetadata_q env (tx_xdr tx)")
  case None
  with assms show ?thesis
    by (auto simp: applyFollowUpActions_q_def applyFollowUpActions_def parse_same vendor_related_def)
next
  case (Some md)
  from assms have vs: "vendor_step tx (Some md) = None" by (simp add: vendor_related_def Some)
  then have act: "mq_action md = None"
    by (cases "mq_action md"; cases "the (mq_action md)") (auto simp: vendor_step_def split: if_splits)
  show ?thesis
    by (auto simp: applyFollowUpActions_q_def applyFollowUpActions_def parse_same Some vs act activate_same repay_same
        Let_def split_def split: option.splits bool.splits)
qed

lemma notification_same:
  "createNotification_q env tx ok fu notes =
     (if notification_payload tx ok = None then Inl (JsError ''type is null'') else Inr (),
      createNotification env tx ok (FollowUpResult.truncate fu) notes)"
  by (auto simp: createNotification_q_def createNotification_def buildNotificationPayload_q_def notification_payload_def
      truncate_loanId split: option.split)

text \<open>The tables the service has, while it is running.\<close>

definition service_view :: "queue_state \<Rightarrow> checker_state" where
  "service_view st = \<lparr>ck_tx = qs_tx st, ck_loans = qs_loans st, ck_notes = qs_notes st, ck_running = False\<rparr>"

lemma service_view_simps [simp]:
  "ck_tx (service_view st) = qs_tx st" "ck_loans (service_view st) = qs_loans st" "ck_notes (service_view st) = qs_notes st"
  "ck_running (service_view st) = False" "(service_view st)\<lparr>ck_running := False\<rparr> = service_view st"
  by (simp_all add: service_view_def)

lemma finalize_same:
  assumes "\<not> vendor_related env tx"
  shows "fst (finalizeTransaction_q env tx ok msg st) = fst (finalizeTransaction env tx ok msg (service_view st)) \<and>
    service_view (snd (finalizeTransaction_q env tx ok msg st)) = snd (finalizeTransaction env tx ok msg (service_view st)) \<and>
    qs_vendors (snd (finalizeTransaction_q env tx ok msg st)) = qs_vendors st"
proof -
  obtain fu where fu: "applyFollowUpActions_q env tx ok (qs_loans st) (qs_vendors st) =
      (fu, snd (applyFollowUpActions env tx ok (qs_loans st)), qs_vendors st)"
      "FollowUpResult.truncate fu = fst (applyFollowUpActions env tx ok (qs_loans st))"
    using follow_up_same [OF assms] by blast
  then show ?thesis
    by (cases "with_fault (ce_faults env (tx_pk tx) ''finalize'') (single (filter (awaiting (tx_thash tx)) (qs_tx st)))")
      (simp_all add: finalizeTransaction_q_def finalizeTransaction_def claim_pending_def service_view_def settled_same
        notification_same Let_def split_def)
qed

lemma process_one_same:
  assumes "\<not> vendor_related env tx"
  shows "service_view (process_one env tx st) = processTransaction env tx (service_view st) \<and>
    qs_vendors (process_one env tx st) = qs_vendors st"
  using finalize_same [OF assms]
  by (auto simp: process_one_def processTransaction_def status_same split: sum.split status_result.split)

lemma fold_same:
  assumes "\<forall>tx \<in> set txs. \<not> vendor_related env tx"
  shows "service_view (foldl (\<lambda>s tx. process_one env tx s) st txs) = fold (processTransaction env) txs (service_view st) \<and>
    qs_vendors (foldl (\<lambda>s tx. process_one env tx s) st txs) = qs_vendors st"
  using assms
proof (induction txs arbitrary: st)
  case (Cons tx txs)
  then have "\<not> vendor_related env tx" and "\<forall>tx \<in> set txs. \<not> vendor_related env tx" by simp_all
  from process_one_same [OF this(1), of st] Cons.IH [OF this(2), of "process_one env tx st"] show ?case by simp
qed simp

lemma cleanup_same:
  "service_view (cleanupOldTransactions_q env st) = (service_view st)\<lparr>ck_tx := cleanupOldTransactions env (qs_tx st)\<rparr>"
  "qs_vendors (cleanupOldTransactions_q env st) = qs_vendors st"
  by (simp_all add: cleanupOldTransactions_q_def cleanupOldTransactions_def service_view_def retention_ms_def split: option.split)

lemma fetch_same: "fetchPendingTransactions_q env rows = fetchPendingTransactions env rows"
  by (simp add: fetchPendingTransactions_q_def fetchPendingTransactions_def)

lemma fetched_rows:
  "fetchPendingTransactions env rows = Inr pending \<Longrightarrow> set pending \<subseteq> {r \<in> set rows. tx_status r = TxPending}"
  by (auto simp: fetchPendingTransactions_def split: option.splits dest!: in_set_takeD)

section \<open>Properties\<close>

text \<open>C31: As long as no vendor transaction is pending, the queue worker and the service are the same
  program: one cycle of either leaves the same transactions, loans and notifications, and the
  worker leaves the vendors alone. So an approval the service has settled, which never touches
  the vendors, is not applied by a later cycle of the worker either.\<close>

theorem worker_equals_service:
  assumes "\<forall>tx \<in> set (qs_tx st). tx_status tx = TxPending \<longrightarrow> \<not> vendor_related env tx"
  shows "service_view (process env st) = checkTransactions env (service_view st) \<and>
    qs_vendors (process env st) = qs_vendors st"
proof (cases "fetchPendingTransactions env (qs_tx st)")
  case (Inl e)
  then show ?thesis
    by (simp add: process_def fetch_same cleanup_same checkTransactions_def Let_def)
next
  case (Inr pending)
  with fetched_rows assms have p: "\<forall>tx \<in> set pending. \<not> vendor_related env tx" by blast
  have run: "ck_running (fold (processTransaction env) txs s) = ck_running s" for txs s
    by (induction txs arbitrary: s)
      (simp_all add: processTransaction_def finalizeTransaction_def Let_def split_def split: sum.split status_result.split)
  show ?thesis
  proof (cases pending)
    case Nil
    with Inr show ?thesis
      by (simp add: process_def fetch_same cleanup_same checkTransactions_def Let_def)
        (simp add: service_view_def cleanupOldTransactions_q_def cleanupOldTransactions_def retention_ms_def split: option.split)
  next
    case (Cons tx txs)
    let ?st1 = "foldl (\<lambda>s tx. process_one env tx s) st pending"
    have v: "service_view ?st1 = fold (processTransaction env) pending (service_view st)" "qs_vendors ?st1 = qs_vendors st"
      using fold_same [OF p, of st] by simp_all
    have "process env st = cleanupOldTransactions_q env ?st1"
      using Inr Cons by (simp add: process_def fetch_same)
    moreover have "checkTransactions env (service_view st) =
        (service_view ?st1)\<lparr>ck_tx := cleanupOldTransactions env (qs_tx ?st1), ck_running := False\<rparr>"
      using Inr Cons v(1) [symmetric] by (simp add: checkTransactions_def Let_def)
    ultimately show ?thesis by (simp add: cleanup_same v(2))
  qed
qed

section \<open>Vendors on credit\<close>

text \<open>The vendor table as the API and the worker leave it.\<close>

inductive vendors_reach :: "VendorRow list \<Rightarrow> bool" where
  Fresh: "vendors_reach []"
| Registered: "vendors_reach rows \<Longrightarrow> vendors_reach (snd (registerVendor env w dto rows))"
| Settled: "vendors_reach (qs_vendors st) \<Longrightarrow> vendors_reach (qs_vendors (process env st))"

definition unverified :: "VendorRow list \<Rightarrow> bool" where
  "unverified rows \<longleftrightarrow> (\<forall>v \<in> set rows. \<not> vn_verified v)"

lemma unverified_update [simp]: "unverified (update_where P (set_vendor_status s) rows) = unverified rows"
  by (induction rows) (auto simp: unverified_def update_where_def set_vendor_status_def)

lemma unverified_status: "unverified rows \<Longrightarrow> unverified (snd (updateVendorStatus flt v s rows))"
  by (simp add: updateVendorStatus_def Let_def split: option.split)

lemma unverified_follow_up: "unverified vs \<Longrightarrow> unverified (snd (snd (applyFollowUpActions_q env tx ok ls vs)))"
  by (auto simp: applyFollowUpActions_q_def Let_def split_def unverified_status split: option.split)

lemma unverified_one: "unverified (qs_vendors st) \<Longrightarrow> unverified (qs_vendors (process_one env tx st))"
  by (auto simp: process_one_def finalizeTransaction_q_def Let_def split_def unverified_follow_up
      split: sum.split status_result.split)

lemma unverified_fold: "unverified (qs_vendors st) \<Longrightarrow> unverified (qs_vendors (foldl (\<lambda>s tx. process_one env tx s) st txs))"
  by (induction txs arbitrary: st) (simp_all add: unverified_one)

lemma reach_unverified: "vendors_reach rows \<Longrightarrow> unverified rows"
proof (induction rule: vendors_reach.induct)
  case (Registered rows env w dto)
  then show ?case
    by (cases "registerVendor env w dto rows")
      (auto simp: registerVendor_def insert_vendor_def insert_unique_def with_fault_def unverified_def new_vendor_row_def
        split: sum.splits option.splits if_splits)
next
  case (Settled st env)
  then show ?case by (simp add: process_def cleanup_same unverified_fold split: sum.split)
qed (simp add: unverified_def)

text \<open>C34: Nobody can buy on credit at a vendor that registered through the API: registration leaves it
  unverified, approval changes its status only, and the loans service asks for the verified flag,
  so every quote and every loan is refused.\<close>

theorem registered_vendors_cannot_sell:
  assumes "vendors_reach rows" and "ls_vendors st = map vendor_ref rows"
  shows "\<exists>e \<in> {not_found ''VENDOR_NOT_FOUND'', bad_request ''VENDOR_NOT_VERIFIED''}.
    fst (calculateLoanQuote env w dto st) = Inl e \<and> fst (createLoan env w dto st) = Inl e \<and>
    ls_loans (snd (createLoan env w dto st)) = ls_loans st"
proof -
  have nv: "\<not> vendor_verified v" if "v \<in> set (ls_vendors st)" for v
    using that reach_unverified [OF assms(1)] by (auto simp: assms(2) unverified_def vendor_ref_def)
  have "\<exists>e \<in> {not_found ''VENDOR_NOT_FOUND'', bad_request ''VENDOR_NOT_VERIFIED''}. validateVendor env (lq_vendor dto) (ls_vendors st) = Inl e"
  proof (cases "validateVendor env (lq_vendor dto) (ls_vendors st)")
    case (Inl e)
    then show ?thesis by (auto simp: validateVendor_def split: sum.splits if_splits)
  next
    case (Inr v)
    then have "filter (\<lambda>v. vendor_pk v = lq_vendor dto) (ls_vendors st) = [v]" "vendor_verified v"
      by (simp_all add: validateVendor_Inr)
    then have "v \<in> set (filter (\<lambda>v. vendor_pk v = lq_vendor dto) (ls_vendors st))" "vendor_verified v" by simp_all
    with nv show ?thesis by simp
  qed
  then show ?thesis
    by (auto simp: calculateLoanQuote_def createLoan_def prepareLoanPreview_def Let_def split_def)
qed

definition demo_queue :: queue_state where
  "demo_queue = \<lparr>qs_tx = [demo_tx], qs_loans = [demo_loan], qs_notes = [], qs_vendors = [demo_vendor]\<rparr>"

theorem worker_equals_service_witness:
  "service_view (process demo_ck_env demo_queue) = checkTransactions demo_ck_env demo_ck \<and>
   qs_vendors (process demo_ck_env demo_queue) = [demo_vendor]"
proof -
  have "\<not> vendor_related demo_ck_env demo_tx"
    by (simp add: vendor_related_def vendor_step_def parseTransactionMetadata_q_def demo_ck_env_def demo_tx_def
        loan_metadata_def arg_at_def)
  then have "\<forall>tx \<in> set (qs_tx demo_queue). tx_status tx = TxPending \<longrightarrow> \<not> vendor_related demo_ck_env tx"
    by (simp add: demo_queue_def)
  from worker_equals_service [OF this] show ?thesis by (simp add: demo_queue_def demo_ck_def service_view_def)
qed

theorem registered_vendors_cannot_sell_witness:
  "snd (registerVendor demo_venv ''GV'' demo_profile []) = [demo_vendor] \<and>
   (\<exists>e. fst (createLoan demo_loans_env ''GA'' \<lparr>lq_amount = 100, lq_vendor = ''v1'', lq_term = 4\<rparr>
      (demo_loans\<lparr>ls_vendors := [vendor_ref demo_vendor]\<rparr>)) = Inl e)"
proof -
  have r: "snd (registerVendor demo_venv ''GV'' demo_profile []) = [demo_vendor]"
    by (simp add: registerVendor_def findByWallet_def single_or_null_def single_def pgrst116_def insert_vendor_def
        insert_unique_def demo_venv_def demo_vendor_def)
  have "vendors_reach [demo_vendor]" using vendors_reach.Registered [OF vendors_reach.Fresh, of demo_venv "''GV''" demo_profile] r by simp
  from registered_vendors_cannot_sell [OF this, of "demo_loans\<lparr>ls_vendors := [vendor_ref demo_vendor]\<rparr>" demo_loans_env "''GA''"
      "\<lparr>lq_amount = 100, lq_vendor = ''v1'', lq_term = 4\<rparr>"]
  show ?thesis unfolding r by auto
qed

end
