(* ===== verification/Liquidity.thy ===== *)
theory Liquidity imports Contracts CacheStore "HOL-Library.Signed_Division" begin

text \<open>
  The liquidity pool: its contract client (\<open>blockchain/contracts/liquidity-contract.client.ts\<close>) and
  the service that previews deposits and withdrawals and reports positions
  (\<open>modules/liquidity/liquidity.service.ts\<close>). Amounts and shares are integers of seven decimals on
  chain (stroops) and doubles in the API; reads within one request see one state of the chain.
\<close>

section \<open>Contract client\<close>

record pool_env =
  pe_soroban :: soroban
  pe_cid :: string
  pe_bigint :: "string \<Rightarrow> int option"

abbreviation SHARE_PRICE_BPS :: int where "SHARE_PRICE_BPS \<equiv> 10000"

text \<open>\<open>BigInt\<close> of a text is the parameter \<open>pe_bigint\<close>; of an object's text it always throws.\<close>

definition toBigInt :: "pool_env \<Rightarrow> native option \<Rightarrow> int result" where
  "toBigInt env v =
     (case v of
        Some (NBig i) \<Rightarrow> Inr i
      | Some (NNum i) \<Rightarrow> Inr i
      | Some (NStr s) \<Rightarrow> (case pe_bigint env s of Some i \<Rightarrow> Inr i | None \<Rightarrow> Inl (JsError ''Cannot convert to a BigInt''))
      | Some (NMap _) \<Rightarrow> Inl (JsError ''Cannot convert [object Object] to a BigInt'')
      | _ \<Rightarrow> Inl (JsError ''Unsupported contract numeric value''))"

text \<open>The texts of HTTP exceptions name none of these.\<close>

definition error_text :: "exn \<Rightarrow> string" where
  "error_text e = (case e of JsError m \<Rightarrow> m | HttpExn _ _ \<Rightarrow> [])"

definition isMissingProviderError :: "exn \<Rightarrow> bool" where
  "isMissingProviderError e \<longleftrightarrow> contract_missing (error_text e) \<or> str_includes (error_text e) ''Error(Contract''"

definition read_one :: "pool_env \<Rightarrow> string \<Rightarrow> scval list \<Rightarrow> int result" where
  "read_one env meth args =
     (case simulate (pe_soroban env) (pe_cid env) meth args of
        Inl msg \<Rightarrow> Inl (JsError msg) | Inr v \<Rightarrow> toBigInt env (Some v))"

fun readBigInt :: "pool_env \<Rightarrow> string list \<Rightarrow> scval list \<Rightarrow> bool \<Rightarrow> int result" where
  "readBigInt env [] args allow = Inl read_failed"
| "readBigInt env (m # ms) args allow =
     (case read_one env m args of
        Inr i \<Rightarrow> Inr i
      | Inl e \<Rightarrow> if allow \<and> isMissingProviderError e then Inl e else readBigInt env ms args allow)"

definition getLpShares :: "pool_env \<Rightarrow> string \<Rightarrow> int result" where
  "getLpShares env wallet =
     andThen (ensureConfigured (pe_cid env)) (\<lambda>_.
       if \<not> address_ok (pe_soroban env) wallet then Inl (JsError ''Unsupported address type'')
       else case readBigInt env [''get_lp_shares'', ''get_provider_shares'', ''provider_shares'', ''get_shares'', ''shares_of'']
                   [ScAddress wallet] True of
              Inr i \<Rightarrow> Inr i
            | Inl e \<Rightarrow> if isMissingProviderError e then Inr 0 else Inl e)"

text \<open>Whatever goes wrong, the next name is tried; with none left the fee is 0.\<close>

fun first_fee :: "pool_env \<Rightarrow> string list \<Rightarrow> int" where
  "first_fee env [] = 0"
| "first_fee env (m # ms) = (case readBigInt env [m] [] True of Inr i \<Rightarrow> i | Inl _ \<Rightarrow> first_fee env ms)"

definition getWithdrawalFeeBps :: "pool_env \<Rightarrow> int" where
  "getWithdrawalFeeBps env = first_fee env [''get_withdrawal_fee_bps'', ''withdrawal_fee_bps'', ''get_withdraw_fee_bps'']"

record PoolStats =
  ps_total :: int
  ps_locked :: int
  ps_available :: int
  ps_shares :: int
  ps_price :: int
  ps_fee :: int

definition share_price :: "int \<Rightarrow> int \<Rightarrow> int" where
  "share_price liquidity shares = (if 0 < shares then (liquidity * SHARE_PRICE_BPS) sdiv shares else 0)"

text \<open>\<open>raw[k]\<close>; reading a field of \<open>null\<close> throws.\<close>

definition raw_field :: "native \<Rightarrow> string \<Rightarrow> native option" where
  "raw_field v k = (case v of NMap m \<Rightarrow> map_of m k | _ \<Rightarrow> None)"

definition pool_stats_call :: "pool_env \<Rightarrow> PoolStats result" where
  "pool_stats_call env =
     (case simulate (pe_soroban env) (pe_cid env) ''get_pool_stats'' [] of
        Inl msg \<Rightarrow> Inl (JsError msg)
      | Inr raw \<Rightarrow>
          if raw = NNull then Inl (JsError ''Cannot read properties of null'')
          else
            andThen (toBigInt env (raw_field raw ''total_liquidity'')) (\<lambda>liquidity.
            andThen (toBigInt env (raw_field raw ''available_liquidity'')) (\<lambda>available.
            andThen (toBigInt env (raw_field raw ''total_shares'')) (\<lambda>shares.
            andThen (case raw_field raw ''locked_liquidity'' of
                       Some v \<Rightarrow> toBigInt env (Some v) | None \<Rightarrow> Inr (liquidity - available)) (\<lambda>locked.
            andThen (case raw_field raw ''share_price'' of
                       Some v \<Rightarrow> toBigInt env (Some v) | None \<Rightarrow> Inr (share_price liquidity shares)) (\<lambda>price.
              Inr \<lparr>ps_total = liquidity, ps_locked = locked, ps_available = available, ps_shares = shares,
                   ps_price = price, ps_fee = getWithdrawalFeeBps env\<rparr>))))))"

definition pool_stats_reads :: "pool_env \<Rightarrow> PoolStats result" where
  "pool_stats_reads env =
     andThen (readBigInt env [''get_total_liquidity'', ''total_liquidity''] [] False) (\<lambda>liquidity.
     andThen (readBigInt env [''get_available_liquidity'', ''available_liquidity'', ''liquid_assets''] [] False) (\<lambda>available.
     andThen (readBigInt env [''get_total_shares'', ''total_shares''] [] False) (\<lambda>shares.
       Inr \<lparr>ps_total = liquidity, ps_locked = (if available < liquidity then liquidity - available else 0),
            ps_available = available, ps_shares = shares, ps_price = share_price liquidity shares,
            ps_fee = getWithdrawalFeeBps env\<rparr>)))"

definition getPoolStats :: "pool_env \<Rightarrow> PoolStats result" where
  "getPoolStats env =
     andThen (ensureConfigured (pe_cid env)) (\<lambda>_.
       case pool_stats_call env of Inr s \<Rightarrow> Inr s | Inl _ \<Rightarrow> pool_stats_reads env)"

definition shares_to_amount :: "PoolStats \<Rightarrow> int \<Rightarrow> int" where
  "shares_to_amount s shares = (if ps_shares s \<le> 0 then 0 else (shares * ps_total s) sdiv ps_shares s)"

definition amount_to_shares :: "PoolStats \<Rightarrow> int \<Rightarrow> int" where
  "amount_to_shares s amt = (if ps_shares s \<le> 0 \<or> ps_total s \<le> 0 then amt else (amt * ps_shares s) sdiv ps_total s)"

definition calculateWithdrawal :: "pool_env \<Rightarrow> int \<Rightarrow> int result" where
  "calculateWithdrawal env shares =
     andThen (ensureConfigured (pe_cid env)) (\<lambda>_.
       case readBigInt env [''calculate_withdrawal''] [ScI128 shares] False of
         Inr i \<Rightarrow> Inr i
       | Inl _ \<Rightarrow> andThen (getPoolStats env) (\<lambda>s. Inr (shares_to_amount s shares)))"

definition calculateDeposit :: "pool_env \<Rightarrow> int \<Rightarrow> int result" where
  "calculateDeposit env amt =
     andThen (ensureConfigured (pe_cid env)) (\<lambda>_.
       case readBigInt env [''calculate_deposit'', ''calculate_deposit_shares'', ''preview_deposit''] [ScI128 amt] False of
         Inr i \<Rightarrow> Inr i
       | Inl _ \<Rightarrow> andThen (getPoolStats env) (\<lambda>s. Inr (amount_to_shares s amt)))"

definition pool_invocation :: "pool_env \<Rightarrow> string \<Rightarrow> string \<Rightarrow> int \<Rightarrow> invocation" where
  "pool_invocation env fn wallet n =
     \<lparr>inv_source = random_key (pe_soroban env), inv_contract = pe_cid env, inv_fn = fn,
      inv_args = [ScAddress wallet, ScI128 n]\<rparr>"

text \<open>Errors of the build reach the caller as they are, for the service to map.\<close>

definition buildUnsignedXdr :: "pool_env \<Rightarrow> string \<Rightarrow> string \<Rightarrow> num \<Rightarrow> string result" where
  "buildUnsignedXdr env fn wallet amt =
     andThen (ensureConfigured (pe_cid env)) (\<lambda>_.
       let iv = pool_invocation env fn wallet (toContractAmount amt)
       in if \<not> address_ok (pe_soroban env) wallet then Inl (JsError ''Unsupported address type'')
          else case sim_tx (pe_soroban env) iv of
            Inl msg \<Rightarrow> Inl (JsError msg)
          | Inr (Some e) \<Rightarrow> Inl (JsError (if e = [] then ''Unknown simulation error'' else e))
          | Inr None \<Rightarrow>
              (case assemble (pe_soroban env) iv of Inl msg \<Rightarrow> Inl (JsError msg) | Inr xdr \<Rightarrow> Inr xdr))"

text \<open>\<open>buildDepositTx\<close> and \<open>buildWithdrawTx\<close>: as \<open>build_simulated\<close> of \<open>Contracts\<close>.\<close>

definition buildDepositTx :: "pool_env \<Rightarrow> string \<Rightarrow> int \<Rightarrow> string result" where
  "buildDepositTx env wallet n =
     andThen (ensureConfigured (pe_cid env)) (\<lambda>_.
       if \<not> address_ok (pe_soroban env) wallet then Inl tx_build_failed
       else build_simulated (pe_soroban env) (pool_invocation env ''deposit'' wallet n))"

definition buildWithdrawTx :: "pool_env \<Rightarrow> string \<Rightarrow> int \<Rightarrow> string result" where
  "buildWithdrawTx env wallet n =
     andThen (ensureConfigured (pe_cid env)) (\<lambda>_.
       if \<not> address_ok (pe_soroban env) wallet then Inl tx_build_failed
       else build_simulated (pe_soroban env) (pool_invocation env ''withdraw'' wallet n))"

section \<open>Service\<close>

record InvestmentSummary =
  is_invested :: num
  is_value :: num
  is_earnings :: num
  is_percent :: num
  is_apy :: num
  is_pool :: num
  is_loans :: nat
  is_shares :: num

record PoolOverview =
  po_deposits :: num
  po_total :: num
  po_locked :: num
  po_available :: num
  po_shares :: num
  po_price :: num
  po_apy :: num
  po_utilization :: num
  po_investors :: nat
  po_loans :: nat

text \<open>\<open>lq_ttl\<close> is the cache lifetime in the store's unit; \<open>lq_positions\<close> are wallet and deposited amount.\<close>

record liquidity_env =
  lq_pool :: pool_env
  lq_now :: int
  lq_ttl :: int
  lq_faults :: faults

record liquidity_state =
  lq_loans :: "LoanRow list"
  lq_positions :: "(string \<times> num) list"
  lq_summaries :: "(string, InvestmentSummary) cache"
  lq_overview :: "(unit, PoolOverview) cache"

definition LP_FEE_RATIO :: num where "LP_FEE_RATIO = fl (85 / 100)"
definition MIN_DEPOSIT_AMOUNT :: num where "MIN_DEPOSIT_AMOUNT = 10"

definition toStroops :: "num \<Rightarrow> int" where
  "toStroops v = \<lfloor>math_round (jmul v 10000000)\<rfloor>"

definition roundTo7 :: "num \<Rightarrow> num" where
  "roundTo7 v = jdiv (math_round (jmul v 10000000)) 10000000"

definition fromStroops :: "int \<Rightarrow> num" where
  "fromStroops n = roundTo7 (jdiv (fl (of_int n)) 10000000)"

definition getTotalInvested :: "liquidity_env \<Rightarrow> string \<Rightarrow> (string \<times> num) list \<Rightarrow> num" where
  "getTotalInvested env wallet rows =
     (case with_fault (lq_faults env ''positions.select'') (single (filter (\<lambda>p. fst p = wallet) rows)) of
        Inl _ \<Rightarrow> 0 | Inr p \<Rightarrow> snd p)"

definition getActiveLoansStats :: "liquidity_env \<Rightarrow> LoanRow list \<Rightarrow> nat \<times> num \<times> num" where
  "getActiveLoansStats env loans =
     (let rows = (case lq_faults env ''loans.active'' of Some _ \<Rightarrow> [] | None \<Rightarrow> filter (\<lambda>l. loan_status l = LoanActive) loans)
      in if rows = [] then (0, 0, 0)
         else
           let amt = foldl (\<lambda>s l. jadd s (loan_principal l)) 0 rows;
               rate = (if 0 < amt
                 then foldl (\<lambda>s l. jadd s (jmul (of_int (loan_rate l)) (jdiv (loan_principal l) amt))) 0 rows else 0)
           in (length rows, jdiv (math_round (jmul (jmul rate LP_FEE_RATIO) 100)) 100, amt))"

definition getTotalUniqueInvestors :: "liquidity_env \<Rightarrow> (string \<times> num) list \<Rightarrow> nat" where
  "getTotalUniqueInvestors env rows =
     (case lq_faults env ''positions.count'' of Some _ \<Rightarrow> 0 | None \<Rightarrow> length rows)"

definition percent_of :: "num \<Rightarrow> num \<Rightarrow> num" where
  "percent_of a b = (if 0 < b then jdiv (math_round (jmul (jdiv a b) 10000)) 100 else 0)"

definition getInvestmentSummary ::
  "liquidity_env \<Rightarrow> string \<Rightarrow> liquidity_state \<Rightarrow> InvestmentSummary result \<times> liquidity_state" where
  "getInvestmentSummary env wallet st =
     (case cache_get (lq_now env) (lq_summaries st) wallet of
        Some s \<Rightarrow> (Inr s, st)
      | None \<Rightarrow>
          let summary =
            andThen (getLpShares (lq_pool env) wallet) (\<lambda>n.
            andThen (getPoolStats (lq_pool env)) (\<lambda>stats.
            andThen (if 0 < n then calculateWithdrawal (lq_pool env) n else Inr 0) (\<lambda>worth.
              let invested = getTotalInvested env wallet (lq_positions st);
                  (active, apy, _) = getActiveLoansStats env (lq_loans st);
                  earnings = roundTo7 (jsub (fromStroops worth) invested)
              in Inr \<lparr>is_invested = invested, is_value = fromStroops worth, is_earnings = earnings,
                      is_percent = percent_of earnings invested, is_apy = apy,
                      is_pool = fromStroops (ps_total stats), is_loans = active, is_shares = fromStroops n\<rparr>)))
          in case summary of
               Inl e \<Rightarrow> (Inl e, st)
             | Inr s \<Rightarrow> (Inr s, st\<lparr>lq_summaries := cache_set (lq_now env) (lq_ttl env) wallet s (lq_summaries st)\<rparr>))"

definition no_pool_stats :: PoolStats where
  "no_pool_stats = \<lparr>ps_total = 0, ps_locked = 0, ps_available = 0, ps_shares = 0, ps_price = SHARE_PRICE_BPS, ps_fee = 0\<rparr>"

definition display_price :: "PoolStats \<Rightarrow> num" where
  "display_price s = (if 0 < ps_shares s then roundTo7 (jdiv (fl (of_int (ps_price s))) 10000) else 1)"

text \<open>The overview of the pool falls back to zeros when the contract cannot be read.\<close>

definition getPoolOverview :: "liquidity_env \<Rightarrow> liquidity_state \<Rightarrow> PoolOverview \<times> liquidity_state" where
  "getPoolOverview env st =
     (case cache_get (lq_now env) (lq_overview st) () of
        Some v \<Rightarrow> (v, st)
      | None \<Rightarrow>
          let s = (case getPoolStats (lq_pool env) of Inr s \<Rightarrow> s | Inl _ \<Rightarrow> no_pool_stats);
              (active, apy, _) = getActiveLoansStats env (lq_loans st);
              tot = fromStroops (ps_total s); locked = fromStroops (ps_locked s);
              res = \<lparr>po_deposits = tot, po_total = tot, po_locked = locked, po_available = fromStroops (ps_available s),
                     po_shares = fromStroops (ps_shares s), po_price = display_price s, po_apy = apy,
                     po_utilization = percent_of locked tot,
                     po_investors = getTotalUniqueInvestors env (lq_positions st), po_loans = active\<rparr>
          in (res, st\<lparr>lq_overview := cache_set (lq_now env) (lq_ttl env) () res (lq_overview st)\<rparr>))"

section \<open>Errors of the pool contract\<close>

definition SOROBAN_ERROR_MAP :: "string \<Rightarrow> string option" where
  "SOROBAN_ERROR_MAP = map_of
     [(''100'', ''LIQUIDITY_INSUFFICIENT_BALANCE''), (''101'', ''LIQUIDITY_INVALID_AMOUNT''), (''102'', ''LIQUIDITY_POOL_LOCKED''),
      (''103'', ''LIQUIDITY_INSUFFICIENT_SHARES''), (''104'', ''LIQUIDITY_INSUFFICIENT_AVAILABLE_LIQUIDITY'')]"

definition digit :: "char \<Rightarrow> bool" where
  "digit c \<longleftrightarrow> (let n = of_char c :: nat in 48 \<le> n \<and> n \<le> 57)"

text \<open>The rest of \<open>s\<close> after a literal, if it starts with it.\<close>

fun after_literal :: "string \<Rightarrow> string \<Rightarrow> string option" where
  "after_literal [] s = Some s"
| "after_literal (c # cs) (x # xs) = (if x = c then after_literal cs xs else None)"
| "after_literal (c # cs) [] = None"

text \<open>\<open>(\d+)\<close>, followed by the literal.\<close>

definition digits_then :: "string \<Rightarrow> string \<Rightarrow> string option" where
  "digits_then lit s =
     (let d = takeWhile digit s
      in if d = [] then None
         else case after_literal lit (dropWhile digit s) of Some _ \<Rightarrow> Some d | None \<Rightarrow> None)"

text \<open>The four alternatives at one position, then the leftmost position that matches.\<close>

definition code_at :: "string \<Rightarrow> string option" where
  "code_at s =
     (case Option.bind (after_literal ''ErrorCode('' s) (digits_then '')'') of
        Some d \<Rightarrow> Some d
      | None \<Rightarrow>
        (case Option.bind (after_literal ''Error(Contract,'' s)
                (\<lambda>r. let r' = dropWhile is_space r
                     in digits_then '')'' (case after_literal ''#'' r' of Some x \<Rightarrow> x | None \<Rightarrow> r')) of
           Some d \<Rightarrow> Some d
         | None \<Rightarrow>
           (case Option.bind (after_literal ''ContractError('' s) (digits_then '')'') of
              Some d \<Rightarrow> Some d
            | None \<Rightarrow> Option.bind (after_literal ''#'' s) (digits_then []))))"

fun find_code :: "string \<Rightarrow> string option" where
  "find_code [] = None"
| "find_code (c # cs) = (case code_at (c # cs) of Some d \<Rightarrow> Some d | None \<Rightarrow> find_code cs)"

definition handleContractError :: "exn \<Rightarrow> exn" where
  "handleContractError e =
     (case Option.bind (find_code (error_text e)) SOROBAN_ERROR_MAP of
        Some code \<Rightarrow> bad_request code | None \<Rightarrow> bad_request ''BLOCKCHAIN_SIMULATION_FAILED'')"

definition buildDepositXdr :: "pool_env \<Rightarrow> string \<Rightarrow> num \<Rightarrow> string result" where
  "buildDepositXdr env wallet amt =
     (case buildUnsignedXdr env ''deposit'' wallet amt of Inr x \<Rightarrow> Inr x | Inl e \<Rightarrow> Inl (handleContractError e))"

definition buildWithdrawXdr :: "pool_env \<Rightarrow> string \<Rightarrow> num \<Rightarrow> string result" where
  "buildWithdrawXdr env wallet shares =
     (case buildUnsignedXdr env ''withdraw'' wallet shares of Inr x \<Rightarrow> Inr x | Inl e \<Rightarrow> Inl (handleContractError e))"

section \<open>Deposits and withdrawals\<close>

record DepositResponse =
  dr_xdr :: string
  dr_amount :: num
  dr_shares :: num
  dr_price :: num
  dr_newTotal :: num
  dr_total :: num

definition depositLiquidity :: "pool_env \<Rightarrow> string \<Rightarrow> num \<Rightarrow> DepositResponse result" where
  "depositLiquidity env wallet amt =
     (if amt < MIN_DEPOSIT_AMOUNT then Inl (bad_request ''VALIDATION_MINIMUM_DEPOSIT'')
      else
        andThen (getPoolStats env) (\<lambda>stats.
        andThen (calculateDeposit env (toStroops amt)) (\<lambda>received.
        andThen (buildDepositXdr env wallet amt) (\<lambda>xdr.
          Inr \<lparr>dr_xdr = xdr, dr_amount = amt, dr_shares = fromStroops received, dr_price = display_price stats,
               dr_newTotal = roundTo7 (jadd (fromStroops (ps_total stats)) amt), dr_total = fromStroops (ps_total stats)\<rparr>))))"

record WithdrawResponse =
  wr_xdr :: string
  wr_shares :: num
  wr_owned :: num
  wr_remaining :: num
  wr_price :: num
  wr_expected :: num
  wr_feeBps :: num
  wr_fee :: num
  wr_net :: num
  wr_available :: num

definition withdrawal_fee :: "int \<Rightarrow> int \<Rightarrow> int" where
  "withdrawal_fee expected bps = (expected * bps) sdiv SHARE_PRICE_BPS"

definition withdrawLiquidity :: "pool_env \<Rightarrow> string \<Rightarrow> num \<Rightarrow> WithdrawResponse result" where
  "withdrawLiquidity env wallet shares =
     (let requested = toStroops shares
      in if requested \<le> 0 then Inl (bad_request ''VALIDATION_INVALID_SHARES'')
         else
           andThen (getLpShares env wallet) (\<lambda>owned.
           andThen (getPoolStats env) (\<lambda>stats.
             if owned \<le> 0 \<or> owned < requested then Inl (bad_request ''LIQUIDITY_INSUFFICIENT_SHARES'')
             else andThen (calculateWithdrawal env requested) (\<lambda>expected.
               if ps_available stats < expected then Inl (payment_required ''LIQUIDITY_INSUFFICIENT_AVAILABLE_LIQUIDITY'')
               else
                 let fee = withdrawal_fee expected (ps_fee stats)
                 in andThen (buildWithdrawXdr env wallet shares) (\<lambda>xdr.
                   Inr \<lparr>wr_xdr = xdr, wr_shares = fromStroops requested, wr_owned = fromStroops owned,
                        wr_remaining = fromStroops (owned - requested),
                        wr_price = roundTo7 (jdiv (fl (of_int (ps_price stats))) 10000),
                        wr_expected = fromStroops expected, wr_feeBps = fl (of_int (ps_fee stats)),
                        wr_fee = fromStroops fee, wr_net = fromStroops (expected - fee),
                        wr_available = fromStroops (ps_available stats)\<rparr>)))))"

section \<open>Stroops\<close>

text \<open>A count of stroops survives the way to the API and back.\<close>

lemma stroops_roundtrip:
  assumes "\<bar>n\<bar> \<le> 10 ^ 15"
  shows "fromStroops n = fl (of_int n / 10000000)" and "toStroops (fromStroops n) = n"
proof -
  let ?x = "fl (rat_of_int n / 10000000)"
  have n: "\<bar>rat_of_int n\<bar> \<le> 10 ^ 15" using assms by (metis of_int_abs of_int_le_iff of_int_numeral of_int_power)
  have i: "fl (rat_of_int n) = of_int n" using assms by (intro fl_of_int) simp
  have "\<bar>rat_of_int n / 10000000\<bar> \<le> 10 ^ 8" using n by simp
  from fl_bound [OF this] have "\<bar>?x - of_int n / 10000000\<bar> \<le> 10 ^ 8 / 2 ^ 53" .
  then have "\<bar>?x * 10000000 - of_int n\<bar> \<le> 10 ^ 15 / 2 ^ 53" unfolding abs_le_iff by simp
  then have "\<bar>fl (?x * 10000000) - of_int n\<bar> \<le> 10 ^ 15 / 2 ^ 53 + (10 ^ 15 + 1) / 2 ^ 53" by (rule fl_close [OF _ n]) simp
  also have "\<dots> < 1 / 2" by simp
  finally have r: "math_round (jmul ?x 10000000) = of_int n" unfolding jmul_def by (rule math_round_near)
  show f: "fromStroops n = ?x" by (simp add: fromStroops_def roundTo7_def jdiv_def i r)
  show "toStroops (fromStroops n) = n" unfolding f toStroops_def r by simp
qed

lemma toStroops_contract: "toStroops = toContractAmount"
  by (rule ext) (simp add: toStroops_def toContractAmount_def)

section \<open>Shares and amounts\<close>

lemma sdiv_nonneg: "0 \<le> a \<Longrightarrow> 0 < b \<Longrightarrow> a sdiv b = a div (b :: int)"
  by (auto simp: signed_divide_int_def sgn_if)

text \<open>The share arithmetic the client falls back to gives nothing away: turning an amount into
  shares and back never yields more than the amount, shares within the supply are never worth
  more than the pool, and splitting a withdrawal in two never yields more than one.\<close>

theorem share_arithmetic_favours_pool:
  assumes "0 < ps_shares s" and "0 < ps_total s" and "0 \<le> a" and "0 \<le> x" and "0 \<le> y"
  shows "0 \<le> shares_to_amount s (amount_to_shares s a) \<and> shares_to_amount s (amount_to_shares s a) \<le> a \<and>
    (x \<le> ps_shares s \<longrightarrow> shares_to_amount s x \<le> ps_total s) \<and>
    shares_to_amount s x + shares_to_amount s y \<le> shares_to_amount s (x + y)"
proof -
  let ?S = "ps_shares s" and ?L = "ps_total s"
  have w: "shares_to_amount s z = z * ?L div ?S" if "0 \<le> z" for z
    using assms(1,2) that by (simp add: shares_to_amount_def sdiv_nonneg)
  have d: "amount_to_shares s a = a * ?S div ?L" using assms(1-3) by (simp add: amount_to_shares_def sdiv_nonneg)
  have d0: "0 \<le> a * ?S div ?L" using assms(1-3) by (simp add: pos_imp_zdiv_nonneg_iff)
  have "a * ?S div ?L * ?L \<le> a * ?S" using assms(2) by (metis div_mult_mod_eq le_add_same_cancel1 pos_mod_sign)
  then have "a * ?S div ?L * ?L div ?S \<le> a * ?S div ?S" using assms(1) by (rule zdiv_mono1)
  then have ub: "shares_to_amount s (amount_to_shares s a) \<le> a" using assms(1) d0 by (simp add: d w)
  have lb: "0 \<le> shares_to_amount s (amount_to_shares s a)"
    using assms(1,2) d0 by (simp add: d w pos_imp_zdiv_nonneg_iff)
  have pool: "shares_to_amount s x \<le> ?L" if "x \<le> ?S"
  proof -
    have "x * ?L \<le> ?S * ?L" using that assms(2) by (intro mult_right_mono) simp_all
    then have "x * ?L div ?S \<le> ?S * ?L div ?S" using assms(1) by (rule zdiv_mono1)
    then show ?thesis using assms(1,4) by (simp add: w)
  qed
  have "(x * ?L div ?S + y * ?L div ?S) * ?S \<le> (x + y) * ?L"
  proof -
    have "x * ?L div ?S * ?S \<le> x * ?L" "y * ?L div ?S * ?S \<le> y * ?L"
      using assms(1) by (metis div_mult_mod_eq le_add_same_cancel1 pos_mod_sign)+
    then show ?thesis unfolding distrib_right by linarith
  qed
  then have "(x * ?L div ?S + y * ?L div ?S) * ?S div ?S \<le> (x + y) * ?L div ?S" using assms(1) by (rule zdiv_mono1)
  then have "shares_to_amount s x + shares_to_amount s y \<le> shares_to_amount s (x + y)" using assms(1,4,5) by (simp add: w)
  with ub lb pool show ?thesis by blast
qed

theorem share_arithmetic_favours_pool_witness:
  "shares_to_amount \<lparr>ps_total = 108, ps_locked = 0, ps_available = 108, ps_shares = 100, ps_price = 10800, ps_fee = 0\<rparr>
     (amount_to_shares \<lparr>ps_total = 108, ps_locked = 0, ps_available = 108, ps_shares = 100, ps_price = 10800, ps_fee = 0\<rparr> 50) \<le> 50"
  using share_arithmetic_favours_pool [of "\<lparr>ps_total = 108, ps_locked = 0, ps_available = 108, ps_shares = 100, ps_price = 10800, ps_fee = 0\<rparr>" 50 1 1]
  by simp

section \<open>Previews\<close>

lemma buildWithdraw_Inr:
  "buildWithdrawXdr env w shares = Inr xdr \<Longrightarrow>
     assemble (pe_soroban env) (pool_invocation env ''withdraw'' w (toStroops shares)) = Inr xdr"
  by (auto simp: buildWithdrawXdr_def buildUnsignedXdr_def andThen_Inr_iff Let_def toStroops_contract
      split: sum.splits option.splits if_splits)

lemma withdraw_Inr:
  "withdrawLiquidity env w shares = Inr r \<Longrightarrow>
     (\<exists>owned stats expected xdr. 0 < toStroops shares \<and> getLpShares env w = Inr owned \<and> toStroops shares \<le> owned \<and>
        getPoolStats env = Inr stats \<and> calculateWithdrawal env (toStroops shares) = Inr expected \<and>
        expected \<le> ps_available stats \<and> buildWithdrawXdr env w shares = Inr xdr \<and> wr_xdr r = xdr \<and>
        wr_shares r = fromStroops (toStroops shares) \<and> wr_owned r = fromStroops owned \<and>
        wr_remaining r = fromStroops (owned - toStroops shares) \<and> wr_expected r = fromStroops expected \<and>
        wr_fee r = fromStroops (withdrawal_fee expected (ps_fee stats)) \<and>
        wr_net r = fromStroops (expected - withdrawal_fee expected (ps_fee stats)))"
  by (auto simp: withdrawLiquidity_def andThen_Inr_iff Let_def split: if_splits)

text \<open>C35: A withdrawal is prepared only for shares the wallet owns and an amount the pool has at hand;
  the transaction withdraws exactly the shares shown; for a fee rate between 0 and 100 percent,
  fee and net amount are the rounded-down fee and the rest of the expected amount, neither of
  them negative.\<close>

theorem withdraw_preview:
  assumes "withdrawLiquidity env w shares = Inr r"
  shows "\<exists>n owned stats expected fee. n = toStroops shares \<and> 0 < n \<and> getLpShares env w = Inr owned \<and> n \<le> owned \<and>
    getPoolStats env = Inr stats \<and> calculateWithdrawal env n = Inr expected \<and> expected \<le> ps_available stats \<and>
    assemble (pe_soroban env) (pool_invocation env ''withdraw'' w n) = Inr (wr_xdr r) \<and>
    wr_shares r = fromStroops n \<and> wr_remaining r = fromStroops (owned - n) \<and> wr_expected r = fromStroops expected \<and>
    wr_fee r = fromStroops fee \<and> wr_net r = fromStroops (expected - fee) \<and>
    (0 \<le> expected \<and> 0 \<le> ps_fee stats \<and> ps_fee stats \<le> 10000 \<longrightarrow>
       0 \<le> fee \<and> fee \<le> expected \<and> fee = expected * ps_fee stats div 10000)"
proof -
  from withdraw_Inr [OF assms] obtain owned stats expected xdr where
    r: "0 < toStroops shares" "getLpShares env w = Inr owned" "toStroops shares \<le> owned" "getPoolStats env = Inr stats"
      "calculateWithdrawal env (toStroops shares) = Inr expected" "expected \<le> ps_available stats"
      "buildWithdrawXdr env w shares = Inr xdr" "wr_xdr r = xdr" "wr_shares r = fromStroops (toStroops shares)"
      "wr_remaining r = fromStroops (owned - toStroops shares)" "wr_expected r = fromStroops expected"
      "wr_fee r = fromStroops (withdrawal_fee expected (ps_fee stats))"
      "wr_net r = fromStroops (expected - withdrawal_fee expected (ps_fee stats))" by blast
  let ?fee = "withdrawal_fee expected (ps_fee stats)"
  have fee: "0 \<le> expected \<and> 0 \<le> ps_fee stats \<and> ps_fee stats \<le> 10000 \<longrightarrow>
      0 \<le> ?fee \<and> ?fee \<le> expected \<and> ?fee = expected * ps_fee stats div 10000"
  proof (intro impI, elim conjE)
    assume b: "0 \<le> expected" "0 \<le> ps_fee stats" "ps_fee stats \<le> 10000"
    then have e: "?fee = expected * ps_fee stats div 10000" by (simp add: withdrawal_fee_def sdiv_nonneg)
    have "expected * ps_fee stats \<le> expected * 10000" using b by (intro mult_left_mono) simp_all
    then have "expected * ps_fee stats div 10000 \<le> expected" by simp
    then show "0 \<le> ?fee \<and> ?fee \<le> expected \<and> ?fee = expected * ps_fee stats div 10000"
      using b by (simp add: e pos_imp_zdiv_nonneg_iff)
  qed
  show ?thesis
    using r buildWithdraw_Inr [OF r(7)] fee
    by - (rule exI [of _ "toStroops shares"], rule exI [of _ owned], rule exI [of _ stats],
        rule exI [of _ expected], rule exI [of _ ?fee], intro conjI; (rule fee | simp))
qed

text \<open>What the API shows can be withdrawn: the shares of the investment summary are a double that
  stands for exactly the shares on chain (up to 100 million), so asking to withdraw them asks for
  all of them, and a preview that succeeds leaves none.\<close>

theorem shown_shares_withdraw_all:
  assumes "getLpShares (lq_pool env) w = Inr n" and "0 < n" and "n \<le> 10 ^ 15"
    and "cache_get (lq_now env) (lq_summaries st) w = None"
    and "fst (getInvestmentSummary env w st) = Inr s"
  shows "toStroops (is_shares s) = n \<and>
    (\<forall>r. withdrawLiquidity (lq_pool env) w (is_shares s) = Inr r \<longrightarrow>
       wr_remaining r = 0 \<and> wr_owned r = is_shares s \<and>
       assemble (pe_soroban (lq_pool env)) (pool_invocation (lq_pool env) ''withdraw'' w n) = Inr (wr_xdr r))"
proof -
  have s: "is_shares s = fromStroops n"
    using assms(1,4,5) by (auto simp: getInvestmentSummary_def andThen_def Let_def split_def split: sum.splits if_splits)
  have n: "toStroops (fromStroops n) = n" using stroops_roundtrip(2) [of n] assms(2,3) by simp
  have "fromStroops 0 = 0" using stroops_roundtrip(1) [of 0] by (simp add: fl_0)
  with n show ?thesis
    using assms(1) by (auto simp: s dest!: withdraw_Inr buildWithdraw_Inr)
qed

definition demo_chain :: soroban where
  "demo_chain = \<lparr>simulate = (\<lambda>_ m _.
       if m = ''get_lp_shares'' then Inr (NBig 5000000000)
       else if m = ''calculate_withdrawal'' then Inr (NBig 5400000000)
       else if m = ''get_withdrawal_fee_bps'' then Inr (NBig 50)
       else if m = ''get_pool_stats'' then Inr (NMap [(''total_liquidity'', NBig 10800000000),
         (''available_liquidity'', NBig 9000000000), (''total_shares'', NBig 10000000000)])
       else Inl ''no such function''),
     address_ok = (\<lambda>_. True), get_account = (\<lambda>_. True), sim_tx = (\<lambda>_. Inr None), assemble = (\<lambda>_. Inr ''AAAA''),
     prepare = (\<lambda>_. Inr ''AAAA''), random_key = ''GR''\<rparr>"

definition demo_pool :: pool_env where
  "demo_pool = \<lparr>pe_soroban = demo_chain, pe_cid = ''CP'', pe_bigint = (\<lambda>_. None)\<rparr>"

lemma demo_reads:
  "getLpShares demo_pool w = Inr 5000000000"
  "getPoolStats demo_pool = Inr \<lparr>ps_total = 10800000000, ps_locked = 1800000000, ps_available = 9000000000,
     ps_shares = 10000000000, ps_price = 10800, ps_fee = 50\<rparr>"
  "calculateWithdrawal demo_pool n = Inr 5400000000"
  by (simp_all add: getLpShares_def getPoolStats_def pool_stats_call_def calculateWithdrawal_def ensureConfigured_def
      read_one_def toBigInt_def raw_field_def getWithdrawalFeeBps_def share_price_def sdiv_nonneg demo_pool_def demo_chain_def)

lemma demo_withdraw: "withdrawLiquidity demo_pool ''GA'' (fromStroops 5000000000) =
    Inr \<lparr>wr_xdr = ''AAAA'', wr_shares = fromStroops 5000000000, wr_owned = fromStroops 5000000000,
      wr_remaining = fromStroops 0, wr_price = roundTo7 (jdiv (fl 10800) 10000), wr_expected = fromStroops 5400000000,
      wr_feeBps = fl 50, wr_fee = fromStroops 27000000, wr_net = fromStroops 5373000000, wr_available = fromStroops 9000000000\<rparr>"
  by (simp add: withdrawLiquidity_def stroops_roundtrip(2) demo_reads buildWithdrawXdr_def buildUnsignedXdr_def
      ensureConfigured_def withdrawal_fee_def sdiv_nonneg Let_def)
    (simp add: demo_pool_def demo_chain_def)

theorem withdraw_preview_witness:
  "\<exists>owned stats expected. getLpShares demo_pool ''GA'' = Inr owned \<and> 5000000000 \<le> owned \<and>
     getPoolStats demo_pool = Inr stats \<and> expected \<le> ps_available stats \<and> calculateWithdrawal demo_pool 5000000000 = Inr expected"
  using withdraw_preview [OF demo_withdraw] by (auto simp: stroops_roundtrip(2))

definition demo_liquidity :: liquidity_env where
  "demo_liquidity = \<lparr>lq_pool = demo_pool, lq_now = 0, lq_ttl = 60, lq_faults = no_faults\<rparr>"

definition empty_liquidity :: liquidity_state where
  "empty_liquidity = \<lparr>lq_loans = [], lq_positions = [], lq_summaries = Map.empty, lq_overview = Map.empty\<rparr>"

theorem shown_shares_withdraw_all_witness:
  "\<exists>s. fst (getInvestmentSummary demo_liquidity ''GA'' empty_liquidity) = Inr s \<and> toStroops (is_shares s) = 5000000000"
proof -
  have c: "cache_get (lq_now demo_liquidity) (lq_summaries empty_liquidity) ''GA'' = None"
    by (simp add: empty_liquidity_def cache_get_def)
  obtain s where s: "fst (getInvestmentSummary demo_liquidity ''GA'' empty_liquidity) = Inr s"
    by (simp add: getInvestmentSummary_def c demo_reads Let_def split_def) (simp add: demo_liquidity_def demo_reads)
  have "getLpShares (lq_pool demo_liquidity) ''GA'' = Inr 5000000000" by (simp add: demo_liquidity_def demo_reads)
  from shown_shares_withdraw_all [OF this _ _ c s] s show ?thesis by simp
qed

end
