(* ===== verification/PoolClient.thy ===== *)
theory PoolClient imports Liquidity begin

text \<open>
  The second client of the liquidity pool contract
  (\<open>stellar/contracts/clients/liquidity-pool.client.ts\<close>), which the sponsors use; the liquidity
  service has the one of \<open>Liquidity\<close>. Operations that both clients have carry the suffix \<open>_p\<close>
  here, and the last section shows that the two answer alike.
\<close>

definition toBigInt_p :: "pool_env \<Rightarrow> native option \<Rightarrow> int result" where
  "toBigInt_p env v =
     (case v of
        None \<Rightarrow> Inl (JsError ''Unsupported contract numeric value'')
      | Some w \<Rightarrow>
          (case w of
             NBig i \<Rightarrow> Inr i
           | NNum i \<Rightarrow> Inr i
           | NStr s \<Rightarrow> (case pe_bigint env s of None \<Rightarrow> Inl (JsError ''Cannot convert to a BigInt'') | Some i \<Rightarrow> Inr i)
           | NMap _ \<Rightarrow> Inl (JsError ''Cannot convert [object Object] to a BigInt'')
           | NBool _ \<Rightarrow> Inl (JsError ''Unsupported contract numeric value'')
           | NNull \<Rightarrow> Inl (JsError ''Unsupported contract numeric value'')))"

definition isMissingProviderError_p :: "exn \<Rightarrow> bool" where
  "isMissingProviderError_p e \<longleftrightarrow>
     (\<exists>t \<in> set [''HostError'', ''Status(ContractError'', ''Error(Contract'']. str_includes (error_text e) t)"

definition call_p :: "pool_env \<Rightarrow> scval list \<Rightarrow> string \<Rightarrow> int result" where
  "call_p env args meth =
     (case simulate (pe_soroban env) (pe_cid env) meth args of
        Inr v \<Rightarrow> toBigInt_p env (Some v) | Inl msg \<Rightarrow> Inl (JsError msg))"

text \<open>The loop ends at the first name that answers, or that fails in a way the caller asked to see.\<close>

definition ends_loop :: "pool_env \<Rightarrow> scval list \<Rightarrow> bool \<Rightarrow> string \<Rightarrow> bool" where
  "ends_loop env args allow meth =
     (case call_p env args meth of Inr _ \<Rightarrow> True | Inl e \<Rightarrow> allow \<and> isMissingProviderError_p e)"

definition readBigInt_p :: "pool_env \<Rightarrow> string list \<Rightarrow> scval list \<Rightarrow> bool \<Rightarrow> int result" where
  "readBigInt_p env methods args allow =
     (case find (ends_loop env args allow) methods of
        Some m \<Rightarrow> call_p env args m | None \<Rightarrow> Inl read_failed)"

definition getLpShares_p :: "pool_env \<Rightarrow> string \<Rightarrow> int result" where
  "getLpShares_p env wallet =
     (if pe_cid env = [] then Inl not_configured
      else if \<not> address_ok (pe_soroban env) wallet then Inl (JsError ''Unsupported address type'')
      else
        let r = readBigInt_p env [''get_lp_shares'', ''get_provider_shares'', ''provider_shares'', ''get_shares'', ''shares_of'']
                  [ScAddress wallet] True
        in case r of Inl e \<Rightarrow> if isMissingProviderError_p e then Inr 0 else Inl e | Inr i \<Rightarrow> Inr i)"

definition getWithdrawalFeeBps_p :: "pool_env \<Rightarrow> int" where
  "getWithdrawalFeeBps_p env =
     (let answers = (\<lambda>m. case readBigInt_p env [m] [] True of Inr _ \<Rightarrow> True | Inl _ \<Rightarrow> False)
      in case find answers [''get_withdrawal_fee_bps'', ''withdrawal_fee_bps'', ''get_withdraw_fee_bps''] of
           Some m \<Rightarrow> (case readBigInt_p env [m] [] True of Inr i \<Rightarrow> i | Inl _ \<Rightarrow> 0) | None \<Rightarrow> 0)"

definition stats_call_p :: "pool_env \<Rightarrow> native \<Rightarrow> PoolStats result" where
  "stats_call_p env raw =
     andThen (toBigInt_p env (raw_field raw ''total_liquidity'')) (\<lambda>liquidity.
     andThen (toBigInt_p env (raw_field raw ''available_liquidity'')) (\<lambda>available.
     andThen (toBigInt_p env (raw_field raw ''total_shares'')) (\<lambda>shares.
     andThen (if raw_field raw ''locked_liquidity'' \<noteq> None then toBigInt_p env (raw_field raw ''locked_liquidity'')
              else Inr (liquidity - available)) (\<lambda>locked.
     andThen (if raw_field raw ''share_price'' \<noteq> None then toBigInt_p env (raw_field raw ''share_price'')
              else Inr (if 0 < shares then (liquidity * 10000) sdiv shares else 0)) (\<lambda>price.
       Inr \<lparr>ps_total = liquidity, ps_locked = locked, ps_available = available, ps_shares = shares,
            ps_price = price, ps_fee = getWithdrawalFeeBps_p env\<rparr>)))))"

definition stats_reads_p :: "pool_env \<Rightarrow> PoolStats result" where
  "stats_reads_p env =
     andThen (readBigInt_p env [''get_total_liquidity'', ''total_liquidity''] [] False) (\<lambda>liquidity.
     andThen (readBigInt_p env [''get_available_liquidity'', ''available_liquidity'', ''liquid_assets''] [] False) (\<lambda>available.
     andThen (readBigInt_p env [''get_total_shares'', ''total_shares''] [] False) (\<lambda>shares.
       Inr \<lparr>ps_total = liquidity, ps_locked = max 0 (liquidity - available), ps_available = available, ps_shares = shares,
            ps_price = (if 0 < shares then (liquidity * 10000) sdiv shares else 0), ps_fee = getWithdrawalFeeBps_p env\<rparr>)))"

definition getPoolStats_p :: "pool_env \<Rightarrow> PoolStats result" where
  "getPoolStats_p env =
     (if pe_cid env = [] then Inl not_configured
      else case simulate (pe_soroban env) (pe_cid env) ''get_pool_stats'' [] of
        Inl _ \<Rightarrow> stats_reads_p env
      | Inr raw \<Rightarrow>
          (case stats_call_p env raw of Inr s \<Rightarrow> Inr s | Inl _ \<Rightarrow> stats_reads_p env))"

definition calculateWithdrawal_p :: "pool_env \<Rightarrow> int \<Rightarrow> int result" where
  "calculateWithdrawal_p env shares =
     (if pe_cid env = [] then Inl not_configured
      else case readBigInt_p env [''calculate_withdrawal''] [ScI128 shares] False of
        Inr i \<Rightarrow> Inr i
      | Inl _ \<Rightarrow> (case getPoolStats_p env of
                   Inl e \<Rightarrow> Inl e
                 | Inr s \<Rightarrow> Inr (if ps_shares s \<le> 0 then 0 else (shares * ps_total s) sdiv ps_shares s)))"

definition calculateDeposit_p :: "pool_env \<Rightarrow> int \<Rightarrow> int result" where
  "calculateDeposit_p env amt =
     (if pe_cid env = [] then Inl not_configured
      else case readBigInt_p env [''calculate_deposit'', ''calculate_deposit_shares'', ''preview_deposit''] [ScI128 amt] False of
        Inr i \<Rightarrow> Inr i
      | Inl _ \<Rightarrow> (case getPoolStats_p env of
                   Inl e \<Rightarrow> Inl e
                 | Inr s \<Rightarrow> Inr (if ps_shares s \<le> 0 \<or> ps_total s \<le> 0 then amt else (amt * ps_shares s) sdiv ps_total s)))"

text \<open>A simulation error keeps its own code, everything else that is thrown is a build failure.\<close>

definition buildDepositTx_p :: "pool_env \<Rightarrow> string \<Rightarrow> int \<Rightarrow> string result" where
  "buildDepositTx_p env wallet n =
     (let iv = \<lparr>inv_source = random_key (pe_soroban env), inv_contract = pe_cid env, inv_fn = ''deposit'',
                inv_args = [ScAddress wallet, ScI128 n]\<rparr>
      in if pe_cid env = [] then Inl not_configured
         else if \<not> address_ok (pe_soroban env) wallet then Inl tx_build_failed
         else case sim_tx (pe_soroban env) iv of
           Inl _ \<Rightarrow> Inl tx_build_failed
         | Inr (Some _) \<Rightarrow> Inl simulation_failed
         | Inr None \<Rightarrow> (case assemble (pe_soroban env) iv of Inr xdr \<Rightarrow> Inr xdr | Inl _ \<Rightarrow> Inl tx_build_failed))"

definition buildWithdrawTx_p :: "pool_env \<Rightarrow> string \<Rightarrow> int \<Rightarrow> string result" where
  "buildWithdrawTx_p env wallet n =
     (let iv = \<lparr>inv_source = random_key (pe_soroban env), inv_contract = pe_cid env, inv_fn = ''withdraw'',
                inv_args = [ScAddress wallet, ScI128 n]\<rparr>
      in if pe_cid env = [] then Inl not_configured
         else if \<not> address_ok (pe_soroban env) wallet then Inl tx_build_failed
         else case sim_tx (pe_soroban env) iv of
           Inl _ \<Rightarrow> Inl tx_build_failed
         | Inr (Some _) \<Rightarrow> Inl simulation_failed
         | Inr None \<Rightarrow> (case assemble (pe_soroban env) iv of Inr xdr \<Rightarrow> Inr xdr | Inl _ \<Rightarrow> Inl tx_build_failed))"

section \<open>Against the other client\<close>

lemma toBigInt_same: "toBigInt_p env v = toBigInt env v"
  by (auto simp: toBigInt_p_def toBigInt_def split: option.split native.split)

lemma missing_same: "isMissingProviderError_p e = isMissingProviderError e"
  by (auto simp: isMissingProviderError_p_def isMissingProviderError_def contract_missing_def)

lemma call_same: "call_p env args m = read_one env m args"
  by (simp add: call_p_def read_one_def toBigInt_same split: sum.split)

lemma read_same: "readBigInt_p env ms args allow = readBigInt env ms args allow"
  by (induction ms) (auto simp: readBigInt_p_def ends_loop_def call_same missing_same split: sum.splits)

lemma first_fee_find:
  "first_fee env ms =
     (case find (\<lambda>m. case readBigInt env [m] [] True of Inr _ \<Rightarrow> True | Inl _ \<Rightarrow> False) ms of
        Some m \<Rightarrow> (case readBigInt env [m] [] True of Inr i \<Rightarrow> i | Inl _ \<Rightarrow> 0) | None \<Rightarrow> 0)"
  by (induction ms) (auto simp del: readBigInt.simps split: sum.splits)

lemma fee_same: "getWithdrawalFeeBps_p env = getWithdrawalFeeBps env"
  by (simp only: getWithdrawalFeeBps_p_def getWithdrawalFeeBps_def read_same first_fee_find Let_def)

lemma reads_same: "stats_reads_p env = pool_stats_reads env"
  unfolding stats_reads_p_def pool_stats_reads_def read_same fee_same share_price_def
  by (intro arg_cong2 [where f = andThen] ext refl) (simp add: max_def)

lemma stats_same: "getPoolStats_p env = getPoolStats env"
proof (cases "simulate (pe_soroban env) (pe_cid env) ''get_pool_stats'' []")
  case (Inl m)
  then show ?thesis
    by (simp add: getPoolStats_p_def getPoolStats_def ensureConfigured_def ensure_def pool_stats_call_def reads_same)
next
  case (Inr raw)
  have f: "(if raw_field raw k \<noteq> None then toBigInt env (raw_field raw k) else d) =
      (case raw_field raw k of Some v \<Rightarrow> toBigInt env (Some v) | None \<Rightarrow> d)" for k d
    by (simp split: option.split)
  have "raw = NNull \<Longrightarrow> \<exists>e. stats_call_p env raw = Inl e" by (simp add: stats_call_p_def raw_field_def toBigInt_p_def)
  moreover have "raw \<noteq> NNull \<Longrightarrow> stats_call_p env raw = pool_stats_call env"
    unfolding stats_call_p_def pool_stats_call_def Inr toBigInt_same fee_same f share_price_def by simp
  ultimately show ?thesis
    using Inr by (auto simp: getPoolStats_p_def getPoolStats_def ensureConfigured_def ensure_def reads_same
        pool_stats_call_def split: sum.split)
qed

text \<open>The two clients of the pool contract are interchangeable: for every chain and every argument
  they give the same answer or the same error, in all six operations they share.\<close>

theorem pool_clients_agree:
  "getLpShares_p env w = getLpShares env w \<and> getPoolStats_p env = getPoolStats env \<and>
   calculateWithdrawal_p env n = calculateWithdrawal env n \<and> calculateDeposit_p env n = calculateDeposit env n \<and>
   buildDepositTx_p env w n = buildDepositTx env w n \<and> buildWithdrawTx_p env w n = buildWithdrawTx env w n"
proof (intro conjI)
  show "getLpShares_p env w = getLpShares env w"
    by (simp add: getLpShares_p_def getLpShares_def ensureConfigured_def ensure_def read_same missing_same Let_def
        del: readBigInt.simps)
  show "getPoolStats_p env = getPoolStats env" by (rule stats_same)
  show "calculateWithdrawal_p env n = calculateWithdrawal env n"
    unfolding calculateWithdrawal_p_def calculateWithdrawal_def stats_same read_same
    by (simp add: ensureConfigured_def ensure_def andThen_def shares_to_amount_def del: readBigInt.simps split: sum.split)
  show "calculateDeposit_p env n = calculateDeposit env n"
    unfolding calculateDeposit_p_def calculateDeposit_def stats_same read_same
    by (simp add: ensureConfigured_def ensure_def andThen_def amount_to_shares_def del: readBigInt.simps split: sum.split)
  show "buildDepositTx_p env w n = buildDepositTx env w n"
    by (auto simp: buildDepositTx_p_def buildDepositTx_def build_simulated_def pool_invocation_def ensureConfigured_def
        ensure_def Let_def split: sum.split option.split)
  show "buildWithdrawTx_p env w n = buildWithdrawTx env w n"
    by (auto simp: buildWithdrawTx_p_def buildWithdrawTx_def build_simulated_def pool_invocation_def ensureConfigured_def
        ensure_def Let_def split: sum.split option.split)
qed

end
