(* ===== verification/Sponsors.thy ===== *)
theory Sponsors imports PoolClient ClaimOnce begin

text \<open>
  Sponsors (\<open>modules/sponsors/sponsors.service.ts\<close>): registration of a sponsor pool, its figures,
  and deposits and withdrawals through the pool client of \<open>PoolClient\<close>.
\<close>

record SponsorPoolRow =
  sr_pk :: string
  sr_wallet :: string
  sr_org :: string
  sr_type :: string
  sr_website :: "string option"
  sr_description :: "string option"
  sr_deposited :: num
  sr_available :: num
  sr_locked :: num
  sr_created :: int

record CreateSponsor =
  cs_org :: string
  cs_type :: string
  cs_website :: "string option"
  cs_description :: "string option"

record sponsors_env =
  so_now :: int
  so_pk :: string
  so_faults :: faults
  so_pool :: pool_env

record SponsorResponse =
  sp_id :: string
  sp_wallet :: string
  sp_org :: string
  sp_type :: string
  sp_website :: "string option"
  sp_description :: "string option"
  sp_deposited :: num
  sp_available :: num
  sp_locked :: num
  sp_created :: int

definition sponsor_dto :: "SponsorPoolRow \<Rightarrow> SponsorResponse" where
  "sponsor_dto r =
     \<lparr>sp_id = sr_pk r, sp_wallet = sr_wallet r, sp_org = sr_org r, sp_type = sr_type r, sp_website = sr_website r,
      sp_description = sr_description r, sp_deposited = sr_deposited r, sp_available = sr_available r,
      sp_locked = sr_locked r, sp_created = sr_created r\<rparr>"

text \<open>The three amounts are column defaults.\<close>

definition new_sponsor :: "sponsors_env \<Rightarrow> string \<Rightarrow> CreateSponsor \<Rightarrow> SponsorPoolRow" where
  "new_sponsor env w dto =
     \<lparr>sr_pk = so_pk env, sr_wallet = w, sr_org = cs_org dto, sr_type = cs_type dto, sr_website = cs_website dto,
      sr_description = cs_description dto, sr_deposited = 0, sr_available = 0, sr_locked = 0, sr_created = so_now env\<rparr>"

definition same_sponsor :: "SponsorPoolRow \<Rightarrow> SponsorPoolRow \<Rightarrow> bool" where
  "same_sponsor a b \<longleftrightarrow> sr_pk a = sr_pk b \<or> sr_wallet a = sr_wallet b"

definition insert_sponsor :: "sponsors_env \<Rightarrow> string \<Rightarrow> CreateSponsor \<Rightarrow> SponsorPoolRow list \<Rightarrow> SponsorResponse result \<times> SponsorPoolRow list" where
  "insert_sponsor env w dto rows =
     (case with_fault (so_faults env ''sponsors.insert'') (insert_unique same_sponsor (new_sponsor env w dto) rows) of
        Inl _ \<Rightarrow> (Inl (JsError ''Failed to register sponsor.''), rows)
      | Inr rows' \<Rightarrow> (Inr (sponsor_dto (new_sponsor env w dto)), rows'))"

definition register :: "sponsors_env \<Rightarrow> string \<Rightarrow> CreateSponsor \<Rightarrow> SponsorPoolRow list \<Rightarrow> SponsorResponse result \<times> SponsorPoolRow list" where
  "register env w dto rows =
     (case with_fault (so_faults env ''sponsors.existing'') (maybe_single (filter (\<lambda>r. sr_wallet r = w) rows)) of
        Inl _ \<Rightarrow> (Inl (JsError ''Failed to check existing sponsor.''), rows)
      | Inr (Some _) \<Rightarrow> (Inl (conflict ''SPONSOR_ALREADY_REGISTERED''), rows)
      | Inr None \<Rightarrow> insert_sponsor env w dto rows)"

definition getMyPool :: "sponsors_env \<Rightarrow> string \<Rightarrow> SponsorPoolRow list \<Rightarrow> SponsorResponse result" where
  "getMyPool env w rows =
     (case with_fault (so_faults env ''sponsors.mine'') (single (filter (\<lambda>r. sr_wallet r = w) rows)) of
        Inl _ \<Rightarrow> Inl (not_found ''SPONSOR_NOT_FOUND'') | Inr r \<Rightarrow> Inr (sponsor_dto r))"

record SponsorStats =
  sp_sponsors :: nat
  sp_totalDeposited :: num
  sp_totalAvailable :: num
  sp_totalLocked :: num

definition getStats :: "sponsors_env \<Rightarrow> SponsorPoolRow list \<Rightarrow> SponsorStats result" where
  "getStats env rows =
     (case so_faults env ''sponsors.stats'' of
        Some _ \<Rightarrow> Inl (JsError ''Failed to aggregate sponsor stats.'')
      | None \<Rightarrow>
          let (d, a, l) = foldl (\<lambda>(d, a, l) r. (jadd d (sr_deposited r), jadd a (sr_available r), jadd l (sr_locked r))) (0, 0, 0) rows
          in Inr \<lparr>sp_sponsors = length rows, sp_totalDeposited = d, sp_totalAvailable = a, sp_totalLocked = l\<rparr>)"

section \<open>Pool\<close>

definition MIN_WITHDRAWAL_SHARES :: num where "MIN_WITHDRAWAL_SHARES = 1"

definition getActiveLoans :: "sponsors_env \<Rightarrow> LoanRow list \<Rightarrow> num \<times> num" where
  "getActiveLoans env loans =
     (let rows = (if so_faults env ''loans.active'' = None then filter (\<lambda>l. loan_status l = LoanActive) loans else [])
      in if rows = [] then (0, 0)
         else
           let amt = foldl (\<lambda>s l. jadd s (loan_principal l)) 0 rows;
               rate = (if 0 < amt
                 then foldl (\<lambda>s l. jadd s (jmul (of_int (loan_rate l)) (jdiv (loan_principal l) amt))) 0 rows else 0)
           in (amt, jdiv (math_round (jmul (jmul rate LP_FEE_RATIO) 100)) 100))"

record SponsorPool =
  sp_poolDeposited :: num
  sp_poolShares :: num
  sp_utilizationBps :: num
  sp_apyBps :: num

definition getPool :: "sponsors_env \<Rightarrow> LoanRow list \<Rightarrow> SponsorPool result" where
  "getPool env loans =
     andThen (getPoolStats_p (so_pool env)) (\<lambda>s.
       let (loaned, apy) = getActiveLoans env loans;
           deposited = jdiv (fl (of_int (ps_total s))) 10000000
       in Inr \<lparr>sp_poolDeposited = deposited, sp_poolShares = jdiv (fl (of_int (ps_shares s))) 10000000,
               sp_utilizationBps = (if 0 < deposited then math_round (jmul (jdiv loaned deposited) 10000) else 0),
               sp_apyBps = math_round (jmul apy 100)\<rparr>)"

definition buildDepositXdr :: "sponsors_env \<Rightarrow> string \<Rightarrow> num \<Rightarrow> string result" where
  "buildDepositXdr env w amt =
     (if amt \<le> 0 then Inl (bad_request ''VALIDATION_INVALID_AMOUNT'')
      else buildDepositTx_p (so_pool env) w \<lfloor>math_round (jmul amt 10000000)\<rfloor>)"

definition buildWithdrawXdr :: "sponsors_env \<Rightarrow> string \<Rightarrow> num \<Rightarrow> string result" where
  "buildWithdrawXdr env w shares =
     (if shares < MIN_WITHDRAWAL_SHARES then Inl (bad_request ''VALIDATION_INVALID_SHARES'')
      else buildWithdrawTx_p (so_pool env) w \<lfloor>math_round (jmul shares 10000000)\<rfloor>)"

definition deposit :: "sponsors_env \<Rightarrow> string \<Rightarrow> num \<Rightarrow> string result" where
  "deposit env w amt = buildDepositXdr env w amt"

section \<open>Properties\<close>

definition sponsor_claim :: "sponsors_env \<times> string \<times> CreateSponsor \<Rightarrow> SponsorPoolRow list \<Rightarrow> SponsorPoolRow list option" where
  "sponsor_claim c rows = (case c of (env, w, dto) \<Rightarrow>
     (case insert_sponsor env w dto rows of (Inr _, rows') \<Rightarrow> Some rows' | _ \<Rightarrow> None))"

definition sponsor_taken :: "string \<Rightarrow> SponsorPoolRow list \<Rightarrow> bool" where
  "sponsor_taken w rows \<longleftrightarrow> (\<exists>r \<in> set rows. sr_wallet r = w)"

lemma insert_sponsor_Inr:
  "insert_sponsor env w dto rows = (Inr x, rows') \<longleftrightarrow>
     so_faults env ''sponsors.insert'' = None \<and> (\<forall>r \<in> set rows. \<not> same_sponsor (new_sponsor env w dto) r) \<and>
     x = sponsor_dto (new_sponsor env w dto) \<and> rows' = rows @ [new_sponsor env w dto]"
  by (auto simp: insert_sponsor_def insert_unique_def with_fault_def split: sum.splits option.splits if_splits)

lemma sponsor_claim_taken:
  assumes "sponsor_claim (env, w, dto) rows = Some rows'"
  shows "\<not> sponsor_taken w rows" and "sponsor_taken k rows' \<longleftrightarrow> k = w \<or> sponsor_taken k rows"
  using assms
  by (auto simp: sponsor_claim_def insert_sponsor_Inr sponsor_taken_def same_sponsor_def new_sponsor_def
      split: prod.splits sum.splits)

interpretation sponsor: claim_once sponsor_claim "\<lambda>c. fst (snd c)" "\<lambda>_. True" sponsor_taken
proof
  fix c :: "sponsors_env \<times> string \<times> CreateSponsor" and s s' k
  assume cl: "sponsor_claim c s = Some s'"
  obtain env w dto where c: "c = (env, w, dto)" by (cases c)
  note t = sponsor_claim_taken [OF cl [unfolded c]]
  show "\<not> sponsor_taken (fst (snd c)) s" "sponsor_taken (fst (snd c)) s'" using t by (simp_all add: c)
  show "sponsor_taken k s \<Longrightarrow> sponsor_taken k s'" using t by simp
qed

text \<open>The table as the program leaves it: only registrations write it.\<close>

inductive sponsors_reach :: "SponsorPoolRow list \<Rightarrow> bool" where
  NoSponsor: "sponsors_reach []"
| Registered: "sponsors_reach rows \<Longrightarrow> sponsors_reach (snd (register env w dto rows))"

lemma reach_zero: "sponsors_reach rows \<Longrightarrow> r \<in> set rows \<Longrightarrow> sr_deposited r = 0 \<and> sr_available r = 0 \<and> sr_locked r = 0"
proof (induction arbitrary: r rule: sponsors_reach.induct)
  case (Registered rows env w dto)
  then have "r \<in> set rows \<or> r = new_sponsor env w dto"
    by (cases "register env w dto rows")
      (auto simp: register_def insert_sponsor_def insert_unique_def with_fault_def split: sum.splits option.splits if_splits)
  with Registered.IH show ?case by (auto simp: new_sponsor_def)
qed simp

text \<open>The figures of the sponsors never leave zero: no operation books a deposit on a sponsor pool, so
  the statistics count the sponsors and report nothing deposited, available or locked, and each
  sponsor is shown an empty pool, however much its transactions have deposited on chain.\<close>

theorem sponsor_figures_stay_zero:
  assumes "sponsors_reach rows" and "getStats env rows = Inr s"
  shows "sp_sponsors s = length rows \<and> sp_totalDeposited s = 0 \<and> sp_totalAvailable s = 0 \<and> sp_totalLocked s = 0 \<and>
    (\<forall>w p. getMyPool env w rows = Inr p \<longrightarrow> sp_wallet p = w \<and> sp_deposited p = 0 \<and> sp_available p = 0 \<and> sp_locked p = 0)"
proof -
  note z = reach_zero [OF assms(1)]
  have "foldl (\<lambda>(d, a, l) r. (jadd d (sr_deposited r), jadd a (sr_available r), jadd l (sr_locked r))) (0, 0, 0) rs = (0, 0, 0)"
    if "set rs \<subseteq> set rows" for rs
    using that by (induction rs) (auto simp: z jadd_def fl_0)
  from this [of rows] have f: "foldl (\<lambda>(d, a, l) r. (jadd d (sr_deposited r), jadd a (sr_available r), jadd l (sr_locked r))) (0, 0, 0) rows = (0, 0, 0)"
    by simp
  have "sp_wallet p = w \<and> sp_deposited p = 0 \<and> sp_available p = 0 \<and> sp_locked p = 0" if "getMyPool env w rows = Inr p" for w p
  proof -
    from that obtain r where r: "filter (\<lambda>r. sr_wallet r = w) rows = [r]" "p = sponsor_dto r"
      by (auto simp: getMyPool_def single_Inr split: sum.splits)
    then have "r \<in> set (filter (\<lambda>r. sr_wallet r = w) rows)" by simp
    then show ?thesis using z [of r] by (simp add: r(2) sponsor_dto_def)
  qed
  then show ?thesis using assms(2) f by (auto simp: getStats_def split: option.splits)
qed

definition demo_sponsors_env :: sponsors_env where
  "demo_sponsors_env = \<lparr>so_now = 0, so_pk = ''s1'', so_faults = no_faults, so_pool = demo_pool\<rparr>"

definition demo_org :: CreateSponsor where
  "demo_org = \<lparr>cs_org = ''Acme'', cs_type = ''company'', cs_website = None, cs_description = None\<rparr>"

theorem sponsor_figures_stay_zero_witness:
  "\<exists>s. getStats demo_sponsors_env (snd (register demo_sponsors_env ''GS'' demo_org [])) = Inr s \<and>
     sp_sponsors s = 1 \<and> sp_totalDeposited s = 0"
proof -
  let ?rows = "snd (register demo_sponsors_env ''GS'' demo_org [])"
  have r: "sponsors_reach ?rows" by (intro sponsors_reach.intros)
  have l: "length ?rows = 1"
    by (simp add: register_def maybe_single_def insert_sponsor_def insert_unique_def demo_sponsors_env_def)
  have f: "so_faults demo_sponsors_env = no_faults" by (simp add: demo_sponsors_env_def)
  obtain s where "getStats demo_sponsors_env ?rows = Inr s"
    by (cases "getStats demo_sponsors_env ?rows") (auto simp: getStats_def f split_def Let_def)
  with sponsor_figures_stay_zero [OF r this] l show ?thesis by auto
qed

end
