(* ===== verification/Vouching.thy ===== *)
theory Vouching imports Schema begin

text \<open>
  Vouches of mentors for learners (\<open>modules/vouching/vouching.service.ts\<close>): request, approval,
  revocation and the lists. Every operation is a read of \<open>vouches\<close> followed by a write, and the
  two are separate definitions, because requests interleave between them.
\<close>

datatype VouchStatus = VouchPending | VouchApproved | VouchRevoked | VouchExpired

record VouchRow =
  vw_pk :: string
  vw_mentor :: string
  vw_learner :: string
  vw_message :: "string option"
  vw_amount :: "num option"
  vw_status :: VouchStatus
  vw_created :: int
  vw_expires :: int

record vouch_env =
  vc_now :: int
  vc_pk :: string
  vc_faults :: faults
  vc_scores :: "(string \<times> int) list"

definition VOUCH_TTL_DAYS :: int where "VOUCH_TTL_DAYS = 90"

definition ACTIVE_STATUSES :: "VouchStatus list" where
  "ACTIVE_STATUSES = [VouchPending, VouchApproved]"

record VouchResponse =
  vu_id :: string
  vu_mentor :: string
  vu_learner :: string
  vu_message :: "string option"
  vu_status :: VouchStatus
  vu_created :: int
  vu_expires :: int

definition vouch_dto :: "VouchRow \<Rightarrow> VouchResponse" where
  "vouch_dto v = \<lparr>vu_id = vw_pk v, vu_mentor = vw_mentor v, vu_learner = vw_learner v, vu_message = vw_message v,
     vu_status = vw_status v, vu_created = vw_created v, vu_expires = vw_expires v\<rparr>"

definition between :: "string \<Rightarrow> string \<Rightarrow> VouchRow \<Rightarrow> bool" where
  "between mentor learner v \<longleftrightarrow> vw_mentor v = mentor \<and> vw_learner v = learner"

section \<open>Request\<close>

definition no_active_vouch :: "vouch_env \<Rightarrow> string \<Rightarrow> string \<Rightarrow> VouchRow list \<Rightarrow> unit result" where
  "no_active_vouch env learner mentor rows =
     (case vc_faults env ''vouches.existing'' of
        Some _ \<Rightarrow> Inl (JsError ''Failed to check existing vouches.'')
      | None \<Rightarrow>
          if filter (\<lambda>v. between mentor learner v \<and> vw_status v \<in> set ACTIVE_STATUSES) rows \<noteq> []
          then Inl (conflict ''VOUCH_ALREADY_EXISTS'') else Inr ())"

definition new_vouch :: "vouch_env \<Rightarrow> string \<Rightarrow> string \<Rightarrow> string option \<Rightarrow> VouchRow" where
  "new_vouch env learner mentor msg =
     \<lparr>vw_pk = vc_pk env, vw_mentor = mentor, vw_learner = learner, vw_message = msg, vw_amount = None,
      vw_status = VouchPending, vw_created = vc_now env,
      vw_expires = vc_now env + VOUCH_TTL_DAYS * 24 * 60 * 60 * 1000\<rparr>"

text \<open>Only the row ids are unique in \<open>vouches\<close>.\<close>

definition insert_vouch :: "vouch_env \<Rightarrow> string \<Rightarrow> string \<Rightarrow> string option \<Rightarrow> VouchRow list \<Rightarrow> VouchResponse result \<times> VouchRow list" where
  "insert_vouch env learner mentor msg rows =
     (case with_fault (vc_faults env ''vouches.insert'')
             (insert_unique (\<lambda>a b. vw_pk a = vw_pk b) (new_vouch env learner mentor msg) rows) of
        Inl _ \<Rightarrow> (Inl (JsError ''Failed to create vouch request.''), rows)
      | Inr rows' \<Rightarrow> (Inr (vouch_dto (new_vouch env learner mentor msg)), rows'))"

definition requestVouch :: "vouch_env \<Rightarrow> string \<Rightarrow> string \<Rightarrow> string option \<Rightarrow> VouchRow list \<Rightarrow> VouchResponse result \<times> VouchRow list" where
  "requestVouch env learner mentor msg rows =
     (case no_active_vouch env learner mentor rows of
        Inl e \<Rightarrow> (Inl e, rows) | Inr _ \<Rightarrow> insert_vouch env learner mentor msg rows)"

section \<open>Approval and revocation\<close>

definition find_pending :: "vouch_env \<Rightarrow> string \<Rightarrow> string \<Rightarrow> VouchRow list \<Rightarrow> VouchRow result" where
  "find_pending env mentor learner rows =
     (case with_fault (vc_faults env ''vouches.pending'')
             (maybe_single (filter (\<lambda>v. between mentor learner v \<and> vw_status v = VouchPending) rows)) of
        Inl _ \<Rightarrow> Inl (JsError ''Failed to find pending vouch.'')
      | Inr None \<Rightarrow> Inl (not_found ''VOUCH_NOT_FOUND'')
      | Inr (Some v) \<Rightarrow> Inr v)"

text \<open>The write is by id alone: \<open>.update({status}).eq('id', id).select().single()\<close>.\<close>

definition write_status :: "vouch_env \<Rightarrow> string \<Rightarrow> exn \<Rightarrow> VouchStatus \<Rightarrow> string \<Rightarrow> VouchRow list \<Rightarrow> VouchResponse result \<times> VouchRow list" where
  "write_status env call failed s pk rows =
     (case with_fault (vc_faults env call) (single (filter (\<lambda>v. vw_pk v = pk) rows)) of
        Inl _ \<Rightarrow> (Inl failed, rows)
      | Inr v \<Rightarrow> (Inr (vouch_dto (v\<lparr>vw_status := s\<rparr>)), update_where (\<lambda>v. vw_pk v = pk) (\<lambda>v. v\<lparr>vw_status := s\<rparr>) rows))"

definition approve_found :: "vouch_env \<Rightarrow> VouchRow \<Rightarrow> VouchRow list \<Rightarrow> VouchResponse result \<times> VouchRow list" where
  "approve_found env v = write_status env ''vouches.approve'' (JsError ''Failed to approve vouch.'') VouchApproved (vw_pk v)"

definition approveVouch :: "vouch_env \<Rightarrow> string \<Rightarrow> string \<Rightarrow> VouchRow list \<Rightarrow> VouchResponse result \<times> VouchRow list" where
  "approveVouch env mentor learner rows =
     (case find_pending env mentor learner rows of Inl e \<Rightarrow> (Inl e, rows) | Inr v \<Rightarrow> approve_found env v rows)"

definition find_own :: "vouch_env \<Rightarrow> string \<Rightarrow> string \<Rightarrow> VouchRow list \<Rightarrow> unit result" where
  "find_own env mentor pk rows =
     (case with_fault (vc_faults env ''vouches.byId'') (maybe_single (filter (\<lambda>v. vw_pk v = pk) rows)) of
        Inl _ \<Rightarrow> Inl (JsError ''Failed to load vouch.'')
      | Inr None \<Rightarrow> Inl (not_found ''VOUCH_NOT_FOUND'')
      | Inr (Some v) \<Rightarrow> if vw_mentor v \<noteq> mentor then Inl (forbidden ''VOUCH_FORBIDDEN'') else Inr ())"

definition revokeVouch :: "vouch_env \<Rightarrow> string \<Rightarrow> string \<Rightarrow> VouchRow list \<Rightarrow> VouchResponse result \<times> VouchRow list" where
  "revokeVouch env mentor pk rows =
     (case find_own env mentor pk rows of
        Inl e \<Rightarrow> (Inl e, rows)
      | Inr _ \<Rightarrow> write_status env ''vouches.revoke'' (JsError ''Failed to revoke vouch.'') VouchRevoked pk rows)"

section \<open>Lists\<close>

definition list_vouches :: "db_error option \<Rightarrow> (VouchRow \<Rightarrow> bool) \<Rightarrow> VouchRow list \<Rightarrow> VouchResponse list result" where
  "list_vouches flt P rows =
     (case flt of
        Some _ \<Rightarrow> Inl (JsError ''Failed to list vouches.'')
      | None \<Rightarrow> Inr (map vouch_dto (sort_key (\<lambda>v. - vw_created v) (filter P rows))))"

definition getMyVouches :: "vouch_env \<Rightarrow> string \<Rightarrow> VouchRow list \<Rightarrow> VouchResponse list result" where
  "getMyVouches env w = list_vouches (vc_faults env ''vouches.mine'') (\<lambda>v. vw_learner v = w)"

definition getMentorVouches :: "vouch_env \<Rightarrow> string \<Rightarrow> VouchRow list \<Rightarrow> VouchResponse list result" where
  "getMentorVouches env w = list_vouches (vc_faults env ''vouches.mentor'') (\<lambda>v. vw_mentor v = w)"

text \<open>The cached score of a wallet: 0 when there is none or it cannot be read.\<close>

definition getLearnerReputationScore :: "vouch_env \<Rightarrow> string \<Rightarrow> int" where
  "getLearnerReputationScore env w =
     (case with_fault (vc_faults env ''reputation.select'') (maybe_single (filter (\<lambda>r. fst r = w) (vc_scores env))) of
        Inr (Some r) \<Rightarrow> snd r | _ \<Rightarrow> 0)"

record VouchRequestItem =
  vq_learner :: string
  vq_score :: int
  vq_amount :: "num option"
  vq_purpose :: "string option"
  vq_requested :: int

definition getIncomingRequests :: "vouch_env \<Rightarrow> string \<Rightarrow> VouchRow list \<Rightarrow> VouchRequestItem list result" where
  "getIncomingRequests env mentor rows =
     (case vc_faults env ''vouches.incoming'' of
        Some _ \<Rightarrow> Inl (JsError ''Failed to fetch vouch requests.'')
      | None \<Rightarrow> Inr (map (\<lambda>v. \<lparr>vq_learner = vw_learner v, vq_score = getLearnerReputationScore env (vw_learner v),
                             vq_amount = vw_amount v, vq_purpose = vw_message v, vq_requested = vw_created v\<rparr>)
           (sort_key (\<lambda>v. - vw_created v) (filter (\<lambda>v. vw_mentor v = mentor \<and> vw_status v = VouchPending) rows))))"

section \<open>One active vouch\<close>

datatype vouch_op = RequestV vouch_env string string "string option" | ApproveV vouch_env string string
  | RevokeV vouch_env string string

definition vouch_do :: "vouch_op \<Rightarrow> VouchRow list \<Rightarrow> VouchRow list" where
  "vouch_do c rows =
     (case c of
        RequestV env learner mentor msg \<Rightarrow> snd (requestVouch env learner mentor msg rows)
      | ApproveV env mentor learner \<Rightarrow> snd (approveVouch env mentor learner rows)
      | RevokeV env mentor pk \<Rightarrow> snd (revokeVouch env mentor pk rows))"

definition active_between :: "string \<Rightarrow> string \<Rightarrow> VouchRow \<Rightarrow> bool" where
  "active_between m l v \<longleftrightarrow> between m l v \<and> vw_status v \<in> set ACTIVE_STATUSES"

definition vouches_ok :: "VouchRow list \<Rightarrow> bool" where
  "vouches_ok rows \<longleftrightarrow> distinct (map vw_pk rows) \<and> (\<forall>m l. length (filter (active_between m l) rows) \<le> 1)"

text \<open>What one operation does to a row: nothing, or a change of status by its mentor.\<close>

definition vouch_change :: "string \<Rightarrow> VouchRow \<Rightarrow> VouchRow \<Rightarrow> bool" where
  "vouch_change caller v v' \<longleftrightarrow> v' = v \<or>
     vw_mentor v = caller \<and>
     (vw_status v = VouchPending \<and> v' = v\<lparr>vw_status := VouchApproved\<rparr> \<or> v' = v\<lparr>vw_status := VouchRevoked\<rparr>)"

definition vouch_caller :: "vouch_op \<Rightarrow> string" where
  "vouch_caller c = (case c of RequestV _ learner _ _ \<Rightarrow> learner | ApproveV _ mentor _ \<Rightarrow> mentor | RevokeV _ mentor _ \<Rightarrow> mentor)"

lemma status_keeps_key [simp]: "vw_pk (v\<lparr>vw_status := s\<rparr>) = vw_pk v" "between m l (v\<lparr>vw_status := s\<rparr>) = between m l v"
  by (simp_all add: between_def)

lemma vouches_ok_narrow:
  assumes "vouches_ok rows" and "\<And>v. v \<in> set rows \<Longrightarrow> vw_pk (f v) = vw_pk v"
    and "\<And>v m l. v \<in> set rows \<Longrightarrow> active_between m l (f v) \<Longrightarrow> active_between m l v"
  shows "vouches_ok (map f rows)"
proof -
  have "map vw_pk (map f rows) = map vw_pk rows" using assms(2) by simp
  moreover have "length (filter (active_between m l) (map f rows)) \<le> length (filter (active_between m l) rows)" for m l
    using assms(3) by (induction rows) (auto simp: le_Suc_eq)
  ultimately show ?thesis using assms(1) unfolding vouches_ok_def by (metis le_trans)
qed

lemma update_as_map: "update_where P f rows = map (\<lambda>v. if P v then f v else v) rows"
  by (simp add: update_where_def)

lemma map_change:
  assumes "ys = map f rows" and "vouches_ok ys" and "\<And>x. x \<in> set rows \<Longrightarrow> R x (f x)"
  shows "vouches_ok ys \<and> (\<forall>v \<in> set rows. \<exists>v' \<in> set ys. R v v')"
  using assms by auto

lemma request_effect:
  "snd (requestVouch env learner mentor msg rows) = rows \<or>
   snd (requestVouch env learner mentor msg rows) = rows @ [new_vouch env learner mentor msg] \<and>
   (\<forall>v \<in> set rows. vw_pk v \<noteq> vc_pk env) \<and> filter (active_between mentor learner) rows = []"
  by (auto simp: requestVouch_def no_active_vouch_def insert_vouch_def insert_unique_def with_fault_def new_vouch_def
      filter_empty_conv active_between_def split: sum.splits option.splits if_splits)

lemma approve_effect:
  "snd (approveVouch env mentor learner rows) = rows \<or>
   (\<exists>v. v \<in> set rows \<and> between mentor learner v \<and> vw_status v = VouchPending \<and>
     filter (\<lambda>x. vw_pk x = vw_pk v) rows \<noteq> [] \<and>
     snd (approveVouch env mentor learner rows) = update_where (\<lambda>x. vw_pk x = vw_pk v) (\<lambda>x. x\<lparr>vw_status := VouchApproved\<rparr>) rows)"
proof (cases "find_pending env mentor learner rows")
  case (Inr v)
  then have "filter (\<lambda>v. between mentor learner v \<and> vw_status v = VouchPending) rows = [v]"
    by (auto simp: find_pending_def maybe_single_Some split: sum.splits option.splits)
  then have "v \<in> set (filter (\<lambda>v. between mentor learner v \<and> vw_status v = VouchPending) rows)" by simp
  with Inr show ?thesis
    by (auto simp: approveVouch_def approve_found_def write_status_def filter_empty_conv split: sum.splits)
qed (simp add: approveVouch_def)

lemma revoke_effect:
  "snd (revokeVouch env mentor pk rows) = rows \<or>
   (\<exists>v. filter (\<lambda>x. vw_pk x = pk) rows = [v] \<and> vw_mentor v = mentor \<and>
     snd (revokeVouch env mentor pk rows) = update_where (\<lambda>x. vw_pk x = pk) (\<lambda>x. x\<lparr>vw_status := VouchRevoked\<rparr>) rows)"
  by (auto simp: revokeVouch_def find_own_def write_status_def maybe_single_Some single_Inr
      split: sum.splits option.splits if_splits)

lemma vouch_do_ok:
  assumes "vouches_ok rows"
  shows "vouches_ok (vouch_do c rows) \<and>
    (\<forall>v \<in> set rows. \<exists>v' \<in> set (vouch_do c rows). vouch_change (vouch_caller c) v v')"
proof (cases c)
  case (RequestV env learner mentor msg)
  have same: "\<forall>v \<in> set rows. \<exists>v' \<in> set (rows @ xs). vouch_change (vouch_caller c) v v'" for xs
    by (auto simp: vouch_change_def)
  from request_effect [of env learner mentor msg rows] show ?thesis
  proof
    assume "snd (requestVouch env learner mentor msg rows) = rows"
    then show ?thesis using assms same [of "[]"] by (simp add: vouch_do_def RequestV)
  next
    assume r: "snd (requestVouch env learner mentor msg rows) = rows @ [new_vouch env learner mentor msg] \<and>
      (\<forall>v \<in> set rows. vw_pk v \<noteq> vc_pk env) \<and> filter (active_between mentor learner) rows = []"
    have "vw_pk (new_vouch env learner mentor msg) = vc_pk env"
      "active_between m l (new_vouch env learner mentor msg) \<longleftrightarrow> m = mentor \<and> l = learner" for m l
      by (auto simp: new_vouch_def active_between_def between_def ACTIVE_STATUSES_def)
    then have "vouches_ok (rows @ [new_vouch env learner mentor msg])"
      using assms r by (auto simp: vouches_ok_def)
    moreover have "vouch_do c rows = rows @ [new_vouch env learner mentor msg]" using r by (simp add: vouch_do_def RequestV)
    ultimately show ?thesis using same [of "[new_vouch env learner mentor msg]"] by simp
  qed
next
  case (ApproveV env mentor learner)
  from approve_effect [of env mentor learner rows] show ?thesis
  proof
    assume "snd (approveVouch env mentor learner rows) = rows"
    then show ?thesis using assms by (auto simp: vouch_do_def ApproveV vouch_change_def)
  next
    assume "\<exists>v. v \<in> set rows \<and> between mentor learner v \<and> vw_status v = VouchPending \<and>
      filter (\<lambda>x. vw_pk x = vw_pk v) rows \<noteq> [] \<and>
      snd (approveVouch env mentor learner rows) = update_where (\<lambda>x. vw_pk x = vw_pk v) (\<lambda>x. x\<lparr>vw_status := VouchApproved\<rparr>) rows"
    then obtain v where v: "v \<in> set rows" "between mentor learner v" "vw_status v = VouchPending"
      "vouch_do c rows = map (\<lambda>x. if vw_pk x = vw_pk v then x\<lparr>vw_status := VouchApproved\<rparr> else x) rows"
      by (auto simp: vouch_do_def ApproveV update_as_map)
    have u: "x = v" if "x \<in> set rows" "vw_pk x = vw_pk v" for x
      using assms that v(1) by (metis vouches_ok_def distinct_map inj_onD)
    have "vouches_ok (vouch_do c rows)" unfolding v(4)
      by (rule vouches_ok_narrow [OF assms]) (use u v in \<open>auto simp: active_between_def ACTIVE_STATUSES_def split: if_splits\<close>)
    then show ?thesis
    proof (rule map_change [OF v(4)])
      show "vouch_change (vouch_caller c) x (if vw_pk x = vw_pk v then x\<lparr>vw_status := VouchApproved\<rparr> else x)" if "x \<in> set rows" for x
        using u [OF that] v(2,3) by (auto simp: vouch_change_def vouch_caller_def ApproveV between_def)
    qed
  qed
next
  case (RevokeV env mentor pk)
  from revoke_effect [of env mentor pk rows] show ?thesis
  proof
    assume "snd (revokeVouch env mentor pk rows) = rows"
    then show ?thesis using assms by (auto simp: vouch_do_def RevokeV vouch_change_def)
  next
    assume "\<exists>v. filter (\<lambda>x. vw_pk x = pk) rows = [v] \<and> vw_mentor v = mentor \<and>
      snd (revokeVouch env mentor pk rows) = update_where (\<lambda>x. vw_pk x = pk) (\<lambda>x. x\<lparr>vw_status := VouchRevoked\<rparr>) rows"
    then obtain v where v: "filter (\<lambda>x. vw_pk x = pk) rows = [v]" "vw_mentor v = mentor"
      "vouch_do c rows = map (\<lambda>x. if vw_pk x = pk then x\<lparr>vw_status := VouchRevoked\<rparr> else x) rows"
      by (auto simp: vouch_do_def RevokeV update_as_map)
    have u: "vw_mentor x = mentor" if "x \<in> set rows" "vw_pk x = pk" for x
    proof -
      have "x \<in> set (filter (\<lambda>x. vw_pk x = pk) rows)" using that by simp
      then show ?thesis using v(1,2) by simp
    qed
    have "vouches_ok (vouch_do c rows)" unfolding v(3)
      by (rule vouches_ok_narrow [OF assms]) (auto simp: active_between_def ACTIVE_STATUSES_def split: if_splits)
    then show ?thesis
    proof (rule map_change [OF v(3)])
      show "vouch_change (vouch_caller c) x (if vw_pk x = pk then x\<lparr>vw_status := VouchRevoked\<rparr> else x)" if "x \<in> set rows" for x
        using u [OF that] by (auto simp: vouch_change_def vouch_caller_def RevokeV)
    qed
  qed
qed

lemma vouches_run_ok: "vouches_ok rows \<Longrightarrow> vouches_ok (fold vouch_do cs rows)"
  by (induction cs arbitrary: rows) (simp_all add: vouch_do_ok)

text \<open>C39: As long as the operations run one after the other, there is at most one active vouch between a
  mentor and a learner, and a vouch only changes its status, by its own mentor: pending to approved,
  or to revoked.\<close>

theorem vouch_lifecycle:
  "\<forall>m l. length (filter (active_between m l) (fold vouch_do cs [])) \<le> 1 \<and>
     (\<forall>v \<in> set (fold vouch_do cs []). \<exists>v' \<in> set (fold vouch_do (cs @ [c]) []).
        v' = v \<or> vw_mentor v = vouch_caller c \<and>
          (vw_status v = VouchPending \<and> v' = v\<lparr>vw_status := VouchApproved\<rparr> \<or> v' = v\<lparr>vw_status := VouchRevoked\<rparr>))"
proof -
  have "vouches_ok (fold vouch_do cs [])" by (rule vouches_run_ok) (simp add: vouches_ok_def)
  with vouch_do_ok [OF this, of c] show ?thesis by (auto simp: vouches_ok_def vouch_change_def)
qed

text \<open>Requests that race leave a vouch that can never be approved: if two requests for the same mentor
  both find no active vouch before either is stored, two pending rows are left, which no index
  forbids; the query for the pending one then fails with more than one row, so every approval is
  an error, and so is every new request.\<close>

theorem racing_requests_block_approval:
  assumes "no_active_vouch env l m rows = Inr ()" and "no_active_vouch env' l m rows = Inr ()"
    and "insert_vouch env l m msg rows = (Inr r, rows1)" and "insert_vouch env' l m msg' rows1 = (Inr r', rows2)"
  shows "2 \<le> length (filter (\<lambda>v. between m l v \<and> vw_status v = VouchPending) rows2) \<and>
    fst (approveVouch e m l rows2) = Inl (JsError ''Failed to find pending vouch.'') \<and>
    (\<exists>x. fst (requestVouch e l m msg'' rows2) = Inl x)"
proof -
  let ?P = "\<lambda>v. between m l v \<and> vw_status v = VouchPending"
  have n: "?P (new_vouch env0 l m t)" for env0 t by (simp add: new_vouch_def between_def)
  from assms(3,4) have r: "rows2 = rows @ [new_vouch env l m msg, new_vouch env' l m msg']"
    by (auto simp: insert_vouch_def insert_unique_def with_fault_def split: sum.splits option.splits if_splits)
  then have f: "filter ?P rows2 = filter ?P rows @ [new_vouch env l m msg, new_vouch env' l m msg']" using n by simp
  then obtain a b xs where "filter ?P rows2 = a # b # xs" by (cases "filter ?P rows") (auto, (metis list.exhaust append_Cons append_Nil))
  then have "fst (approveVouch e m l rows2) = Inl (JsError ''Failed to find pending vouch.'')"
    by (cases "vc_faults e ''vouches.pending''") (simp_all add: approveVouch_def find_pending_def maybe_single_def)
  moreover have "new_vouch env l m msg \<in> set (filter (\<lambda>v. between m l v \<and> vw_status v \<in> set ACTIVE_STATUSES) rows2)"
    using n [of env msg] by (simp add: r ACTIVE_STATUSES_def)
  then have "filter (\<lambda>v. between m l v \<and> vw_status v \<in> set ACTIVE_STATUSES) rows2 \<noteq> []" by (metis list.distinct(1) list.set_cases)
  then have "\<exists>x. fst (requestVouch e l m msg'' rows2) = Inl x"
    by (cases "vc_faults e ''vouches.existing''") (simp_all add: requestVouch_def no_active_vouch_def)
  ultimately show ?thesis using f by simp
qed

text \<open>A revocation can be undone by an approval in flight: the approval writes by id, so a vouch that
  its mentor revokes between the read and the write of the approval ends up approved.\<close>

theorem revoked_vouch_resurrected:
  assumes "find_pending env m l rows = Inr v" and "revokeVouch env' m (vw_pk v) rows = (Inr r, rows')"
    and "approve_found env v rows' = (Inr r', rows'')"
  shows "\<forall>x \<in> set rows''. vw_pk x = vw_pk v \<longrightarrow> vw_status x = VouchApproved"
  using assms(3) by (auto simp: approve_found_def write_status_def update_where_def split: sum.splits)

text \<open>The expiry of a vouch is never looked at: a pending vouch whose 90 days are over can still be
  approved by its mentor, and until then blocks every new request of its learner.\<close>

theorem expired_vouch_still_counts:
  assumes "filter (\<lambda>x. vw_pk x = vw_pk v) rows = [v]" and "filter (\<lambda>x. between m l x \<and> vw_status x = VouchPending) rows = [v]"
    and "vw_expires v < vc_now env" and "vc_faults env = no_faults"
  shows "fst (approveVouch env m l rows) = Inr (vouch_dto (v\<lparr>vw_status := VouchApproved\<rparr>)) \<and>
    fst (requestVouch env l m msg rows) = Inl (conflict ''VOUCH_ALREADY_EXISTS'')"
proof -
  have "v \<in> set (filter (\<lambda>x. between m l x \<and> vw_status x = VouchPending) rows)" using assms(2) by simp
  then have "filter (\<lambda>v. between m l v \<and> vw_status v \<in> set ACTIVE_STATUSES) rows \<noteq> []"
    by (auto simp: filter_empty_conv ACTIVE_STATUSES_def)
  then show ?thesis
    using assms by (simp add: approveVouch_def find_pending_def maybe_single_def approve_found_def write_status_def single_def
        requestVouch_def no_active_vouch_def)
qed

definition demo_vouch_env :: vouch_env where
  "demo_vouch_env = \<lparr>vc_now = 1000, vc_pk = ''w1'', vc_faults = no_faults, vc_scores = []\<rparr>"

theorem racing_requests_block_approval_witness:
  "\<exists>rows2. length rows2 = 2 \<and> fst (approveVouch demo_vouch_env ''GM'' ''GL'' rows2) = Inl (JsError ''Failed to find pending vouch.'')"
proof -
  let ?v = "new_vouch demo_vouch_env ''GL'' ''GM'' None" and ?env = "demo_vouch_env\<lparr>vc_pk := ''w2''\<rparr>"
  let ?w = "new_vouch ?env ''GL'' ''GM'' None"
  have c: "no_active_vouch demo_vouch_env ''GL'' ''GM'' [] = Inr ()" "no_active_vouch ?env ''GL'' ''GM'' [] = Inr ()"
    by (simp_all add: no_active_vouch_def demo_vouch_env_def)
  have i: "insert_vouch demo_vouch_env ''GL'' ''GM'' None [] = (Inr (vouch_dto ?v), [?v])"
    "insert_vouch ?env ''GL'' ''GM'' None [?v] = (Inr (vouch_dto ?w), [?v, ?w])"
    by (simp_all add: insert_vouch_def insert_unique_def new_vouch_def demo_vouch_env_def)
  show ?thesis
    using racing_requests_block_approval [OF c i, of demo_vouch_env] by (intro exI [of _ "[?v, ?w]"]) simp
qed

theorem vouch_lifecycle_witness:
  "length (filter (active_between ''GM'' ''GL'') (fold vouch_do [RequestV demo_vouch_env ''GL'' ''GM'' None] [])) \<le> 1"
  using vouch_lifecycle [of "[RequestV demo_vouch_env ''GL'' ''GM'' None]" "ApproveV demo_vouch_env ''GM'' ''GL''"] by blast

end
