(* ===== verification/Notifications.thy ===== *)
theory Notifications imports Schema Pagination begin

text \<open>
  The notifications of a wallet (\<open>modules/notifications/notifications.service.ts\<close>): the list with its
  pages and unread count, and marking as read.
\<close>

text \<open>\<open>nf_data\<close> holds the text fields of the \<open>data\<close> column.\<close>

record NotificationRow =
  nf_pk :: string
  nf_wallet :: string
  nf_type :: string
  nf_title :: string
  nf_data :: "(string \<times> string) list"
  nf_read :: bool
  nf_read_at :: "int option"
  nf_created :: int

record NotificationItem =
  ni_id :: string
  ni_type :: string
  ni_title :: string
  ni_data :: "(string \<times> string) list"
  ni_read :: bool
  ni_created :: int
  ni_read_at :: "int option"

record NotificationListQuery =
  nq_unread :: "bool option"
  nq_limit :: "nat option"
  nq_offset :: "nat option"

record NotificationList =
  nl_data :: "NotificationItem list"
  nl_limit :: nat
  nl_offset :: nat
  nl_total :: nat
  nl_unread :: nat

definition notification_item :: "NotificationRow \<Rightarrow> NotificationItem" where
  "notification_item n = \<lparr>ni_id = nf_pk n, ni_type = nf_type n, ni_title = nf_title n, ni_data = nf_data n,
     ni_read = nf_read n, ni_created = nf_created n, ni_read_at = nf_read_at n\<rparr>"

definition shown_to :: "string \<Rightarrow> bool option \<Rightarrow> NotificationRow list \<Rightarrow> NotificationRow list" where
  "shown_to w unread rows =
     sort_key (\<lambda>n. - nf_created n) (filter (\<lambda>n. nf_wallet n = w \<and> (unread = Some True \<longrightarrow> \<not> nf_read n)) rows)"

definition getNotifications :: "faults \<Rightarrow> string \<Rightarrow> NotificationListQuery \<Rightarrow> NotificationRow list \<Rightarrow> NotificationList result" where
  "getNotifications flt w q rows =
     (let limit = (case nq_limit q of Some n \<Rightarrow> n | None \<Rightarrow> 20);
          offset = (case nq_offset q of Some n \<Rightarrow> n | None \<Rightarrow> 0);
          hits = shown_to w (nq_unread q) rows
      in case with_fault (flt ''notifications.list'') (range_query (int offset) (int limit) hits) of
           Inl e \<Rightarrow> Inl (JsError (err_message e))
         | Inr page \<Rightarrow>
             (case flt ''notifications.unread'' of
                Some e \<Rightarrow> Inl (JsError (err_message e))
              | None \<Rightarrow> Inr \<lparr>nl_data = map notification_item page, nl_limit = limit, nl_offset = offset,
                             nl_total = length hits, nl_unread = length (shown_to w (Some True) rows)\<rparr>))"

definition mark_read :: "int \<Rightarrow> NotificationRow \<Rightarrow> NotificationRow" where
  "mark_read now n = n\<lparr>nf_read := True, nf_read_at := Some now\<rparr>"

text \<open>Both answer with the number of rows they changed.\<close>

definition markAsRead :: "faults \<Rightarrow> int \<Rightarrow> string \<Rightarrow> string \<Rightarrow> NotificationRow list \<Rightarrow> nat result \<times> NotificationRow list" where
  "markAsRead flt now w pk rows =
     (case with_fault (flt ''notifications.byId'') (single (filter (\<lambda>n. nf_pk n = pk) rows)) of
        Inl _ \<Rightarrow> (Inl (not_found ''NOTIFICATION_NOT_FOUND''), rows)
      | Inr n \<Rightarrow>
          if nf_wallet n \<noteq> w then (Inl (forbidden ''NOTIFICATION_FORBIDDEN''), rows)
          else if nf_read n then (Inr 0, rows)
          else (case flt ''notifications.update'' of
                  Some e \<Rightarrow> (Inl (JsError (err_message e)), rows)
                | None \<Rightarrow> (Inr 1, update_where (\<lambda>n. nf_pk n = pk) (mark_read now) rows)))"

definition unread_of :: "string \<Rightarrow> NotificationRow \<Rightarrow> bool" where
  "unread_of w n \<longleftrightarrow> nf_wallet n = w \<and> \<not> nf_read n"

definition markAllAsRead :: "faults \<Rightarrow> int \<Rightarrow> string \<Rightarrow> NotificationRow list \<Rightarrow> nat result \<times> NotificationRow list" where
  "markAllAsRead flt now w rows =
     (case flt ''notifications.updateAll'' of
        Some e \<Rightarrow> (Inl (JsError (err_message e)), rows)
      | None \<Rightarrow> (Inr (length (filter (unread_of w) rows)), update_where (unread_of w) (mark_read now) rows))"

section \<open>Properties\<close>

definition unread_count :: "string \<Rightarrow> NotificationRow list \<Rightarrow> nat" where
  "unread_count w rows = length (filter (unread_of w) rows)"

lemma unread_of_mark [simp]: "\<not> unread_of w (mark_read now n)"
  by (simp add: unread_of_def mark_read_def)

lemma mark_count:
  assumes "filter P rows = [n]" and "unread_of w n"
  shows "unread_count w (update_where P (mark_read now) rows) + 1 = unread_count w rows"
  using assms
proof (induction rows)
  case (Cons x rows)
  show ?case
  proof (cases "P x")
    case True
    with Cons.prems have e: "x = n" "\<forall>y \<in> set rows. \<not> P y" by (auto simp: filter_empty_conv)
    then have "update_where P (mark_read now) rows = rows" by (intro update_where_id) simp
    with True e Cons.prems(2) show ?thesis by (simp add: update_where_def unread_count_def)
  next
    case False
    with Cons show ?thesis by (auto simp: update_where_def unread_count_def)
  qed
qed simp

text \<open>The unread count is the number of unread notifications of the wallet, and marking keeps it true:
  marking one takes exactly as many off as it says, marking all leaves none, and neither touches
  a notification of another wallet.\<close>

theorem unread_count_exact:
  "(getNotifications flt w q rows = Inr r \<longrightarrow> nl_unread r = unread_count w rows) \<and>
    (markAsRead flt now w pk rows = (Inr k, rows') \<longrightarrow>
       unread_count w rows' + k = unread_count w rows \<and>
       filter (\<lambda>n. nf_wallet n \<noteq> w) rows' = filter (\<lambda>n. nf_wallet n \<noteq> w) rows) \<and>
    (markAllAsRead flt now w rows = (Inr j, rows'') \<longrightarrow>
       unread_count w rows'' = 0 \<and> j = unread_count w rows \<and>
       filter (\<lambda>n. nf_wallet n \<noteq> w) rows'' = filter (\<lambda>n. nf_wallet n \<noteq> w) rows)"
proof (intro conjI impI)
  assume "getNotifications flt w q rows = Inr r"
  then show "nl_unread r = unread_count w rows"
    by (auto simp: getNotifications_def shown_to_def unread_count_def unread_of_def [abs_def] Let_def
        split: sum.splits option.splits)
next
  assume a: "markAsRead flt now w pk rows = (Inr k, rows')"
  then obtain n where n: "filter (\<lambda>n. nf_pk n = pk) rows = [n]" "nf_wallet n = w"
    "nf_read n \<and> k = 0 \<and> rows' = rows \<or> \<not> nf_read n \<and> k = 1 \<and> rows' = update_where (\<lambda>n. nf_pk n = pk) (mark_read now) rows"
    by (auto simp: markAsRead_def single_Inr split: sum.splits option.splits if_splits)
  then show "unread_count w rows' + k = unread_count w rows"
    using mark_count [OF n(1), of w now] by (auto simp: unread_of_def)
  have "\<forall>x \<in> set (filter (\<lambda>n. nf_pk n = pk) rows). nf_wallet x = w" using n(1,2) by simp
  then have "filter (\<lambda>n. nf_wallet n \<noteq> w) (update_where (\<lambda>n. nf_pk n = pk) (mark_read now) rows) = filter (\<lambda>n. nf_wallet n \<noteq> w) rows"
    by (induction rows) (simp_all add: update_where_def mark_read_def)
  with n(3) show "filter (\<lambda>n. nf_wallet n \<noteq> w) rows' = filter (\<lambda>n. nf_wallet n \<noteq> w) rows" by auto
next
  assume "markAllAsRead flt now w rows = (Inr j, rows'')"
  then have r: "rows'' = update_where (unread_of w) (mark_read now) rows" and j: "j = length (filter (unread_of w) rows)"
    by (auto simp: markAllAsRead_def split: option.splits)
  show "unread_count w rows'' = 0"
    unfolding r unread_count_def by (auto simp: filter_empty_conv set_update_where)
  show "j = unread_count w rows" by (simp add: j unread_count_def)
  show "filter (\<lambda>n. nf_wallet n \<noteq> w) rows'' = filter (\<lambda>n. nf_wallet n \<noteq> w) rows"
    unfolding r by (rule filter_update_where_frame) (auto simp: unread_of_def mark_read_def)
qed

definition notifications_page :: "string \<Rightarrow> NotificationRow list \<Rightarrow> nat \<Rightarrow> nat \<Rightarrow> NotificationItem list result" where
  "notifications_page w rows n k =
     andThen (getNotifications no_faults w \<lparr>nq_unread = None, nq_limit = Some n, nq_offset = Some (k * n)\<rparr> rows) (\<lambda>r. Inr (nl_data r))"

interpretation inbox: paged "notifications_page w rows (Suc n)" "Suc n" "shown_to w None rows" notification_item for w rows n
proof
  fix k assume "k * Suc n \<le> length (shown_to w None rows)"
  from range_query_page [OF this] show "notifications_page w rows (Suc n) k =
      Inr (map notification_item (take (Suc n) (drop (k * Suc n) (shown_to w None rows))))"
    by (simp add: notifications_page_def getNotifications_def Let_def del: of_nat_mult of_nat_Suc mult_Suc_right)
qed simp

text \<open>Walking the pages of a wallet's notifications shows each of them exactly once, newest first.\<close>

theorem notifications_pages:
  "concat (map (inbox.items w rows n) [0..<(length (shown_to w None rows) + Suc n - 1) div Suc n]) =
     map notification_item (shown_to w None rows)"
  by (rule inbox.walk_all)

theorem unread_count_exact_witness:
  "unread_count ''GA'' (snd (markAsRead no_faults 5 ''GA'' ''n1''
     [\<lparr>nf_pk = ''n1'', nf_wallet = ''GA'', nf_type = ''t'', nf_title = ''T'', nf_data = [], nf_read = False, nf_read_at = None, nf_created = 1\<rparr>])) = 0"
proof -
  let ?n = "\<lparr>nf_pk = ''n1'', nf_wallet = ''GA'', nf_type = ''t'', nf_title = ''T'', nf_data = [], nf_read = False, nf_read_at = None, nf_created = 1\<rparr>"
  have m: "markAsRead no_faults 5 ''GA'' ''n1'' [?n] = (Inr 1, [mark_read 5 ?n])"
    by (simp add: markAsRead_def single_def update_where_def)
  have "unread_count ''GA'' [mark_read 5 ?n] + 1 = unread_count ''GA'' [?n]"
    using unread_count_exact [where flt = no_faults and w = "''GA''" and now = 5 and pk = "''n1''" and rows = "[?n]"
        and k = 1 and rows' = "[mark_read 5 ?n]"] m by blast
  then show ?thesis by (simp add: m) (simp add: unread_count_def)
qed

end
