(* ===== verification/Reminders.thy ===== *)
theory Reminders imports Notifications StatusChecker begin

text \<open>
  The daily reminders (\<open>jobs/loan-payment-reminder/loan-payment-reminder.service.ts\<close>): every active
  loan whose next payment is due in three days, in one day, or is past due gets a notification,
  at most one of each kind per UTC day.
\<close>

datatype ReminderType = Reminder3d | Reminder1d | Overdue

fun reminder_name :: "ReminderType \<Rightarrow> string" where
  "reminder_name Reminder3d = ''payment_reminder_3d''"
| "reminder_name Reminder1d = ''payment_reminder_1d''"
| "reminder_name Overdue = ''payment_overdue''"

fun REMINDER_TITLES :: "ReminderType \<Rightarrow> string" where
  "REMINDER_TITLES Reminder3d = ''Payment Due in 3 Days''"
| "REMINDER_TITLES Reminder1d = ''Payment Due Tomorrow''"
| "REMINDER_TITLES Overdue = ''Loan Payment Overdue''"

text \<open>The clock stands still during a run; \<open>rm_pk n\<close> is the id of the n-th notification.\<close>

record reminder_env =
  rm_now :: int
  rm_faults :: "string \<Rightarrow> faults"
  rm_vendors :: "VendorRef list"
  rm_pk :: "nat \<Rightarrow> string"

record ReminderCandidate =
  rk_loan :: LoanRow
  rk_due :: int
  rk_type :: ReminderType
  rk_days :: int

record ReminderSummary =
  rs_total :: nat
  rs_created :: nat
  rs_skipped :: nat
  rs_failed :: nat
  rs_breakdown :: "ReminderType \<Rightarrow> nat"

record reminder_state =
  rb_notes :: "NotificationRow list"
  rb_vendors :: "(string \<times> VendorRef) list"
  rb_summary :: ReminderSummary

section \<open>Candidates\<close>

definition utc_day :: "int \<Rightarrow> int" where "utc_day t = t div day_ms"

definition fetchActiveLoans :: "reminder_env \<Rightarrow> LoanRow list \<Rightarrow> LoanRow list result" where
  "fetchActiveLoans env loans =
     (case rm_faults env [] ''loans.select'' of
        Some e \<Rightarrow> Inl (JsError (err_message e))
      | None \<Rightarrow> Inr (filter (\<lambda>l. loan_status l = LoanActive \<and> loan_next_due l \<noteq> None) loans))"

text \<open>\<open>Math.round\<close> of the difference of two midnights is exact.\<close>

definition candidate :: "int \<Rightarrow> LoanRow \<Rightarrow> ReminderCandidate option" where
  "candidate now l =
     (case loan_next_due l of
        None \<Rightarrow> None
      | Some due \<Rightarrow>
          let days = utc_day due - utc_day now;
              kind = (if days = 3 then Some Reminder3d else if days = 1 then Some Reminder1d
                      else if days < 0 then Some Overdue else None)
          in map_option (\<lambda>k. \<lparr>rk_loan = l, rk_due = due, rk_type = k, rk_days = days\<rparr>) kind)"

definition identifyCandidates :: "int \<Rightarrow> LoanRow list \<Rightarrow> ReminderCandidate list" where
  "identifyCandidates now loans = List.map_filter (candidate now) loans"

section \<open>One reminder\<close>

definition same_reminder :: "string \<Rightarrow> string \<Rightarrow> int \<Rightarrow> NotificationRow \<Rightarrow> bool" where
  "same_reminder pk kind since n \<longleftrightarrow>
     nf_type n = kind \<and> map_of (nf_data n) ''loan_db_id'' = Some pk \<and> since \<le> nf_created n"

text \<open>A failing query counts as no duplicate.\<close>

definition isDuplicateReminder :: "reminder_env \<Rightarrow> string \<Rightarrow> ReminderType \<Rightarrow> NotificationRow list \<Rightarrow> bool" where
  "isDuplicateReminder env pk kind ns =
     (case rm_faults env pk ''notifications.count'' of
        Some _ \<Rightarrow> False
      | None \<Rightarrow> 0 < length (filter (same_reminder pk (reminder_name kind) (utc_day (rm_now env) * day_ms)) ns))"

definition getVendor :: "reminder_env \<Rightarrow> string option \<Rightarrow> (string \<times> VendorRef) list \<Rightarrow> VendorRef option \<times> (string \<times> VendorRef) list" where
  "getVendor env vid cache =
     (case present vid of
        None \<Rightarrow> (None, cache)
      | Some i \<Rightarrow>
          (case map_of cache i of
             Some v \<Rightarrow> (Some v, cache)
           | None \<Rightarrow>
               (case with_fault (rm_faults env i ''vendors.select'') (single (filter (\<lambda>v. vendor_pk v = i) (rm_vendors env))) of
                  Inl _ \<Rightarrow> (None, cache)
                | Inr v \<Rightarrow> (Some v, (i, v) # cache))))"

text \<open>The amounts, the due date and the message text are left out of the notification.\<close>

definition reminder_note :: "reminder_env \<Rightarrow> nat \<Rightarrow> ReminderCandidate \<Rightarrow> VendorRef option \<Rightarrow> NotificationRow" where
  "reminder_note env n c v =
     \<lparr>nf_pk = rm_pk env n, nf_wallet = loan_wallet (rk_loan c), nf_type = reminder_name (rk_type c),
      nf_title = REMINDER_TITLES (rk_type c),
      nf_data = [(''loan_db_id'', loan_pk (rk_loan c)), (''loan_id'', loan_id (rk_loan c))] @
        (case v of Some x \<Rightarrow> [(''vendor_id'', vendor_pk x), (''vendor_name'', vendor_name x)] | None \<Rightarrow> []),
      nf_read = False, nf_read_at = None, nf_created = rm_now env\<rparr>"

definition createNotification_r ::
  "reminder_env \<Rightarrow> ReminderCandidate \<Rightarrow> VendorRef option \<Rightarrow> NotificationRow list \<Rightarrow> unit result \<times> NotificationRow list" where
  "createNotification_r env c v ns =
     (case rm_faults env (loan_pk (rk_loan c)) ''notifications.insert'' of
        Some e \<Rightarrow> (Inl (JsError (err_message e)), ns)
      | None \<Rightarrow> (Inr (), ns @ [reminder_note env (length ns) c v]))"

definition remind :: "reminder_env \<Rightarrow> ReminderCandidate \<Rightarrow> reminder_state \<Rightarrow> reminder_state" where
  "remind env c st =
     (let (v, cache) = getVendor env (loan_vendor (rk_loan c)) (rb_vendors st); s = rb_summary st
      in if isDuplicateReminder env (loan_pk (rk_loan c)) (rk_type c) (rb_notes st)
         then st\<lparr>rb_vendors := cache, rb_summary := s\<lparr>rs_skipped := rs_skipped s + 1\<rparr>\<rparr>
         else case createNotification_r env c v (rb_notes st) of
           (Inl _, ns) \<Rightarrow> st\<lparr>rb_vendors := cache, rb_summary := s\<lparr>rs_failed := rs_failed s + 1\<rparr>\<rparr>
         | (Inr _, ns) \<Rightarrow> st\<lparr>rb_notes := ns, rb_vendors := cache, rb_summary := s\<lparr>rs_created := rs_created s + 1,
             rs_breakdown := (rs_breakdown s)(rk_type c := rs_breakdown s (rk_type c) + 1)\<rparr>\<rparr>)"

definition sendPaymentReminders :: "reminder_env \<Rightarrow> bool \<Rightarrow> LoanRow list \<Rightarrow> NotificationRow list \<Rightarrow> ReminderSummary \<times> NotificationRow list" where
  "sendPaymentReminders env running loans ns =
     (let none = \<lparr>rs_total = 0, rs_created = 0, rs_skipped = 0, rs_failed = 0, rs_breakdown = (\<lambda>_. 0)\<rparr>
      in if running then (none, ns)
         else case fetchActiveLoans env loans of
           Inl _ \<Rightarrow> (none, ns)
         | Inr [] \<Rightarrow> (none, ns)
         | Inr active \<Rightarrow>
             let cs = identifyCandidates (rm_now env) active;
                 st = fold (remind env) cs \<lparr>rb_notes = ns, rb_vendors = [], rb_summary = none\<lparr>rs_total := length cs\<rparr>\<rparr>
             in (rb_summary st, rb_notes st))"

section \<open>Once a day\<close>

text \<open>The reminders of a kind for a loan that the day of a time already has.\<close>

definition reminded :: "int \<Rightarrow> string \<Rightarrow> ReminderType \<Rightarrow> NotificationRow list \<Rightarrow> nat" where
  "reminded now pk kind ns = length (filter (same_reminder pk (reminder_name kind) (utc_day now * day_ms)) ns)"

lemma reminder_name_inj [simp]: "reminder_name a = reminder_name b \<longleftrightarrow> a = b"
  by (cases a; cases b) simp_all

lemma day_start: "utc_day t * day_ms \<le> t"
  by (simp add: utc_day_def) (metis day_ms_pos minus_mod_eq_div_mult pos_mod_sign diff_le_self le_add_same_cancel1 diff_add_cancel)

lemma reminder_note_same [simp]:
  "same_reminder pk (reminder_name kind) (utc_day (rm_now env) * day_ms) (reminder_note env n c v) \<longleftrightarrow>
     rk_type c = kind \<and> loan_pk (rk_loan c) = pk"
  using day_start [of "rm_now env"] by (auto simp: same_reminder_def reminder_note_def)

lemma remind_notes:
  "rb_notes (remind env c st) = rb_notes st \<or>
   (\<exists>v. rb_notes (remind env c st) = rb_notes st @ [reminder_note env (length (rb_notes st)) c v] \<and>
      \<not> isDuplicateReminder env (loan_pk (rk_loan c)) (rk_type c) (rb_notes st))"
  by (auto simp: remind_def Let_def split_def createNotification_r_def split: option.split prod.split sum.split)

text \<open>The part of the notifications of a run: those of its candidates, one per candidate at most.\<close>

lemma remind_reminded:
  assumes "\<And>pk. rm_faults env pk ''notifications.count'' = None"
  shows "reminded (rm_now env) pk kind (rb_notes (remind env c st)) \<le> max 1 (reminded (rm_now env) pk kind (rb_notes st)) \<and>
    reminded (rm_now env) pk kind (rb_notes st) \<le> reminded (rm_now env) pk kind (rb_notes (remind env c st))"
  using remind_notes [of env c st] assms
  by (auto simp: reminded_def isDuplicateReminder_def)

lemma remind_done:
  assumes "\<And>pk. rm_faults env pk ''notifications.count'' = None" and "\<And>pk. rm_faults env pk ''notifications.insert'' = None"
  shows "1 \<le> reminded (rm_now env) (loan_pk (rk_loan c)) (rk_type c) (rb_notes (remind env c st))"
  using assms by (auto simp: remind_def Let_def split_def createNotification_r_def isDuplicateReminder_def reminded_def Suc_le_eq
      split: option.split)

lemma run_reminded:
  assumes "\<And>pk. rm_faults env pk ''notifications.count'' = None"
  shows "reminded (rm_now env) pk kind (rb_notes (fold (remind env) cs st)) \<le> max 1 (reminded (rm_now env) pk kind (rb_notes st)) \<and>
    reminded (rm_now env) pk kind (rb_notes st) \<le> reminded (rm_now env) pk kind (rb_notes (fold (remind env) cs st))"
proof (induction cs arbitrary: st)
  case (Cons c cs)
  from Cons.IH [of "remind env c st"] remind_reminded [OF assms, of pk kind c st] show ?case by simp linarith
qed simp

lemma run_done:
  assumes "\<And>pk. rm_faults env pk ''notifications.count'' = None" and "\<And>pk. rm_faults env pk ''notifications.insert'' = None"
    and "c \<in> set cs"
  shows "1 \<le> reminded (rm_now env) (loan_pk (rk_loan c)) (rk_type c) (rb_notes (fold (remind env) cs st))"
  using assms(3)
proof (induction cs arbitrary: st)
  case (Cons d cs)
  show ?case
  proof (cases "c = d")
    case True
    then show ?thesis
      using remind_done [OF assms(1,2), where c = c and st = st] run_reminded [OF assms(1), of "loan_pk (rk_loan c)" "rk_type c" cs "remind env c st"]
      by simp
  next
    case False
    then show ?thesis using Cons by simp
  qed
qed simp

lemma reminded_day: "utc_day t = utc_day t' \<Longrightarrow> reminded t = reminded t'"
  by (intro ext) (simp add: reminded_def)

lemma candidate_day: "utc_day t = utc_day t' \<Longrightarrow> candidate t = candidate t'"
  by (rule ext) (simp add: candidate_def Let_def split: option.split)

lemma run_skips:
  assumes "\<And>pk. rm_faults env pk ''notifications.count'' = None"
    and "\<And>c. c \<in> set cs \<Longrightarrow> 1 \<le> reminded (rm_now env) (loan_pk (rk_loan c)) (rk_type c) (rb_notes st)"
  shows "rb_notes (fold (remind env) cs st) = rb_notes st"
  using assms(2)
proof (induction cs arbitrary: st)
  case (Cons c cs)
  have "1 \<le> reminded (rm_now env) (loan_pk (rk_loan c)) (rk_type c) (rb_notes st)" by (rule Cons.prems) simp
  then have "isDuplicateReminder env (loan_pk (rk_loan c)) (rk_type c) (rb_notes st)"
    by (auto simp: isDuplicateReminder_def assms(1) reminded_def Suc_le_eq)
  then have "rb_notes (remind env c st) = rb_notes st" by (simp add: remind_def Let_def split_def)
  moreover have "rb_notes (fold (remind env) cs (remind env c st)) = rb_notes (remind env c st)"
    by (rule Cons.IH) (unfold calculation, rule Cons.prems, simp)
  ultimately show ?case by simp
qed simp

lemma send_run:
  assumes "rm_faults env [] ''loans.select'' = None"
  shows "\<exists>st0. rb_notes st0 = ns \<and> snd (sendPaymentReminders env False loans ns) =
    rb_notes (fold (remind env) (identifyCandidates (rm_now env)
      (filter (\<lambda>l. loan_status l = LoanActive \<and> loan_next_due l \<noteq> None) loans)) st0)"
proof (cases "filter (\<lambda>l. loan_status l = LoanActive \<and> loan_next_due l \<noteq> None) loans")
  case Nil
  then show ?thesis
    by (intro exI [of _ "\<lparr>rb_notes = ns, rb_vendors = [], rb_summary = undefined\<rparr>"])
      (simp add: sendPaymentReminders_def fetchActiveLoans_def assms identifyCandidates_def map_filter_simps)
next
  case (Cons l ls)
  have "fetchActiveLoans env loans = Inr (l # ls)" unfolding fetchActiveLoans_def assms Cons by simp
  then show ?thesis unfolding Cons by (simp add: sendPaymentReminders_def Let_def) (metis reminder_state.select_convs(1))
qed

lemma candidate_Some:
  "candidate now l = Some c \<longleftrightarrow>
     (\<exists>due. loan_next_due l = Some due \<and> rk_loan c = l \<and> rk_due c = due \<and> rk_days c = utc_day due - utc_day now \<and>
        (rk_days c = 3 \<and> rk_type c = Reminder3d \<or> rk_days c = 1 \<and> rk_type c = Reminder1d \<or>
         rk_days c < 0 \<and> rk_type c = Overdue))"
  by (cases c) (auto simp: candidate_def Let_def split: option.split)

lemma applied_row:
  assumes "filter (loan_of lid w) loans = [l]" "repaid_balance (loan_balance l) amt \<noteq> 0" "loan_status l = LoanActive"
  shows "\<exists>l' \<in> set (snd (applyLoanRepayment now flt lid w amt loans)).
    loan_status l' = LoanActive \<and> loan_next_due l' = loan_next_due l \<and> loan_pk l' = loan_pk l"
proof -
  from assms(1) have "l \<in> set (filter (loan_of lid w) loans)" by simp
  then have l: "l \<in> set loans" "loan_of lid w l" by auto
  have "\<exists>l' \<in> set (snd (applyLoanRepayment now flt lid w amt loans)). l' = l \<or> l' = l\<lparr>loan_balance := repaid_balance (loan_balance l) amt\<rparr>"
    using l assms by (auto simp: applyLoanRepayment_def single_def Let_def with_fault_def update_where_def repay_row_def
        split: option.split intro!: image_eqI [of _ _ l])
  then show ?thesis by (rule bexE) (rule bexI, use assms(3) in auto)
qed

lemma run_reminds:
  assumes "\<And>pk s. rm_faults env pk s = None" and "l \<in> set loans" "loan_status l = LoanActive"
    and "candidate (rm_now env) l = Some c"
  shows "1 \<le> reminded (rm_now env) (loan_pk l) (rk_type c) (snd (sendPaymentReminders env False loans ns))"
proof -
  let ?active = "filter (\<lambda>l. loan_status l = LoanActive \<and> loan_next_due l \<noteq> None) loans"
  from assms(4) have c: "rk_loan c = l" "loan_next_due l \<noteq> None" by (auto simp: candidate_Some)
  then have "c \<in> set (identifyCandidates (rm_now env) ?active)"
    using assms(2-4) unfolding identifyCandidates_def map_filter_def by (auto intro: image_eqI [of _ _ l])
  from run_done [OF assms(1) assms(1) this] show ?thesis
    using send_run [OF assms(1), where loans = loans and ns = ns] c(1) by metis
qed

text \<open>C40: A run in which no query fails reminds of every active loan due in three days, due tomorrow, or
  overdue; a loan never gets a second reminder of a kind on one UTC day, and a second run on the
  same day changes nothing.\<close>

theorem reminders_once_a_day:
  assumes "\<And>pk s. rm_faults env pk s = None" and "\<And>pk s. rm_faults env' pk s = None"
    and "utc_day (rm_now env') = utc_day (rm_now env)"
    and "snd (sendPaymentReminders env False loans ns) = ns'"
  shows "(\<forall>l \<in> set loans. \<forall>due. loan_status l = LoanActive \<longrightarrow> loan_next_due l = Some due \<longrightarrow>
       (utc_day due - utc_day (rm_now env) = 3 \<longrightarrow> 1 \<le> reminded (rm_now env) (loan_pk l) Reminder3d ns') \<and>
       (utc_day due - utc_day (rm_now env) = 1 \<longrightarrow> 1 \<le> reminded (rm_now env) (loan_pk l) Reminder1d ns') \<and>
       (utc_day due < utc_day (rm_now env) \<longrightarrow> 1 \<le> reminded (rm_now env) (loan_pk l) Overdue ns')) \<and>
    (\<forall>pk kind. reminded (rm_now env) pk kind ns' \<le> max 1 (reminded (rm_now env) pk kind ns)) \<and>
    snd (sendPaymentReminders env' False loans ns') = ns'"
proof -
  let ?active = "filter (\<lambda>l. loan_status l = LoanActive \<and> loan_next_due l \<noteq> None) loans"
  let ?cs = "identifyCandidates (rm_now env) ?active"
  obtain st where st: "rb_notes st = ns" "ns' = rb_notes (fold (remind env) ?cs st)"
    using send_run [OF assms(1), where loans = loans and ns = ns] assms(4) by auto
  have once: "reminded (rm_now env) pk kind ns' \<le> max 1 (reminded (rm_now env) pk kind ns)" for pk kind
    using run_reminded [OF assms(1), where pk = pk and kind = kind and cs = ?cs and st = st] by (simp add: st)
  obtain st1 where st1: "rb_notes st1 = ns'" "snd (sendPaymentReminders env' False loans ns') =
      rb_notes (fold (remind env') (identifyCandidates (rm_now env') ?active) st1)"
    using send_run [OF assms(2), where loans = loans and ns = ns'] by auto
  have "identifyCandidates (rm_now env') ?active = ?cs"
    using candidate_day [OF assms(3)] by (simp add: identifyCandidates_def)
  then have again: "snd (sendPaymentReminders env' False loans ns') = ns'"
    unfolding st1(2) using run_done [OF assms(1) assms(1)] reminded_day [OF assms(3)]
    by (subst run_skips) (auto simp: assms(2) st1(1) st(2))
  have "1 \<le> reminded (rm_now env) (loan_pk l) k ns'"
    if "l \<in> set loans" "loan_status l = LoanActive" "loan_next_due l = Some due"
      "utc_day due - utc_day (rm_now env) = 3 \<and> k = Reminder3d \<or> utc_day due - utc_day (rm_now env) = 1 \<and> k = Reminder1d \<or>
       utc_day due < utc_day (rm_now env) \<and> k = Overdue" for l due k
  proof -
    from that(3,4) have "candidate (rm_now env) l =
        Some \<lparr>rk_loan = l, rk_due = due, rk_type = k, rk_days = utc_day due - utc_day (rm_now env)\<rparr>"
      by (auto simp: candidate_def Let_def)
    from run_reminds [OF assms(1) that(1,2) this, where ns = ns] show ?thesis by (simp add: assms(4))
  qed
  with once again show ?thesis by auto
qed

definition demo_reminder_env :: reminder_env where
  "demo_reminder_env = \<lparr>rm_now = 0, rm_faults = (\<lambda>_. no_faults), rm_vendors = [], rm_pk = (\<lambda>_. ''n'')\<rparr>"

definition due_loan :: "int \<Rightarrow> LoanRow" where
  "due_loan d = demo_loan\<lparr>loan_next_due := Some (d * day_ms)\<rparr>"

theorem reminders_once_a_day_witness:
  "snd (sendPaymentReminders demo_reminder_env False [due_loan 3, due_loan 1]
      (snd (sendPaymentReminders demo_reminder_env False [due_loan 3, due_loan 1] []))) =
    snd (sendPaymentReminders demo_reminder_env False [due_loan 3, due_loan 1] [])"
proof -
  have f: "rm_faults demo_reminder_env pk s = None" for pk s by (simp add: demo_reminder_env_def no_faults_def)
  show ?thesis by (rule reminders_once_a_day [OF f f refl refl, THEN conjunct2, THEN conjunct2])
qed

text \<open>\<open>next_payment_due\<close> is written when the loan is created and never advanced: once the first due
  day has passed, a loan is reported overdue on every following day, however much of it was repaid,
  until it is repaid in full.\<close>

theorem paid_instalment_still_overdue:
  assumes "filter (loan_of lid w) loans = [l]" and "loan_status l = LoanActive" and "loan_next_due l = Some due"
    and "\<And>pk s. rm_faults env pk s = None" and "utc_day due < utc_day (rm_now env)"
    and "repaid_balance (loan_balance l) amt \<noteq> 0"
  shows "1 \<le> reminded (rm_now env) (loan_pk l) Overdue
    (snd (sendPaymentReminders env False (snd (applyLoanRepayment now flt lid w amt loans)) ns))"
proof -
  obtain l' where l': "l' \<in> set (snd (applyLoanRepayment now flt lid w amt loans))" "loan_status l' = LoanActive"
    "loan_next_due l' = Some due" "loan_pk l' = loan_pk l"
    using applied_row [OF assms(1,6,2), where now = now and flt = flt] assms(3) by auto
  from l'(3) assms(5) have "candidate (rm_now env) l' =
      Some \<lparr>rk_loan = l', rk_due = due, rk_type = Overdue, rk_days = utc_day due - utc_day (rm_now env)\<rparr>"
    by (simp add: candidate_def Let_def)
  from run_reminds [OF assms(4) l'(1,2) this, where ns = ns] show ?thesis by (simp add: l'(4))
qed

theorem paid_instalment_still_overdue_witness:
  "1 \<le> reminded (5 * day_ms) (loan_pk demo_loan) Overdue
    (snd (sendPaymentReminders (demo_reminder_env\<lparr>rm_now := 5 * day_ms\<rparr>) False
      (snd (applyLoanRepayment 9 no_faults ''7'' ''GA'' (cents 41000) [due_loan 3])) []))"
proof -
  have "filter (loan_of ''7'' ''GA'') [due_loan 3] = [due_loan 3]" "loan_status (due_loan 3) = LoanActive"
    "loan_next_due (due_loan 3) = Some (3 * day_ms)" "loan_pk (due_loan 3) = loan_pk demo_loan"
    by (simp_all add: due_loan_def demo_loan_def loan_of_def)
  moreover have "repaid_balance (loan_balance (due_loan 3)) (cents 41000) \<noteq> 0" by code_simp
  ultimately show ?thesis
    using paid_instalment_still_overdue [where lid = "''7''" and w = "''GA''" and loans = "[due_loan 3]" and l = "due_loan 3"
        and due = "3 * day_ms" and env = "demo_reminder_env\<lparr>rm_now := 5 * day_ms\<rparr>" and amt = "cents 41000"
        and now = 9 and flt = no_faults and ns = "[]"]
    by (simp only: utc_day_def demo_reminder_env_def reminder_env.select_convs reminder_env.update_convs no_faults_def simp_thms)
      (simp add: day_ms_def)
qed

end
