(* ===== verification/Lending.thy ===== *)
theory Lending imports StatusChecker begin

text \<open>
  The loan book across components: the loans service (quotes, creation, assessment), the submission
  and status reads of transactions, and the job that settles them share the tables \<open>loans\<close> and
  \<open>transactions\<close>. This theory runs their operations one after the other in any order, states what
  the loan book promises as a small abstract machine, and shows that every run implements it.
\<close>

section \<open>The system\<close>

record lending =
  ln_loans :: loans_state
  ln_txs :: tx_state
  ln_notes :: "Notification list"

datatype lending_op =
    AskQuote loans_env string LoanQuoteRequest
  | AskLoan loans_env string LoanQuoteRequest
  | AskAssessment loans_env string string
  | Submit tx_env string string tx_kind
  | AskStatus tx_env string
  | Settle checker_env

definition checker_view :: "lending \<Rightarrow> checker_state" where
  "checker_view s = \<lparr>ck_tx = txs_rows (ln_txs s), ck_loans = ls_loans (ln_loans s), ck_notes = ln_notes s, ck_running = False\<rparr>"

fun lend :: "lending_op \<Rightarrow> lending \<Rightarrow> lending" where
  "lend (AskQuote env w dto) s = s\<lparr>ln_loans := snd (calculateLoanQuote env w dto (ln_loans s))\<rparr>"
| "lend (AskLoan env w dto) s = s\<lparr>ln_loans := snd (createLoan env w dto (ln_loans s))\<rparr>"
| "lend (AskAssessment env w pk) s = s\<lparr>ln_loans := snd (assessLoan env w pk (ln_loans s))\<rparr>"
| "lend (Submit env w xdr kind) s =
     s\<lparr>ln_txs := (ln_txs s)\<lparr>txs_rows := so_rows (submitTransaction env w xdr kind (txs_rows (ln_txs s)))\<rparr>\<rparr>"
| "lend (AskStatus env h) s = s\<lparr>ln_txs := snd (getTransactionStatus env h (ln_txs s))\<rparr>"
| "lend (Settle env) s =
     (let c = checkTransactions env (checker_view s)
      in s\<lparr>ln_loans := (ln_loans s)\<lparr>ls_loans := ck_loans c\<rparr>, ln_txs := (ln_txs s)\<lparr>txs_rows := ck_tx c\<rparr>, ln_notes := ck_notes c\<rparr>)"

abbreviation book_rows :: "lending \<Rightarrow> LoanRow list" where "book_rows s \<equiv> ls_loans (ln_loans s)"

text \<open>
  What validation lets through: a purchase of 1 to 10000 over one to twelve months. The amounts of
  confirmed repayments are whatever the envelopes of the transactions say.
\<close>

fun admissible :: "lending_op \<Rightarrow> bool" where
  "admissible (AskLoan env w dto) \<longleftrightarrow>
     1 \<le> lq_amount dto \<and> lq_amount dto \<le> 10000 \<and> 1 \<le> lq_term dto \<and> lq_term dto \<le> 12"
| "admissible _ \<longleftrightarrow> True"

definition confirmed_amount :: "checker_env \<Rightarrow> num \<Rightarrow> bool" where
  "confirmed_amount env a \<longleftrightarrow> (\<exists>xdr m. parseTransactionMetadata env xdr = Some m \<and> md_amount m = Some a)"

section \<open>Well-formed loans\<close>

text \<open>
  Four parts. Whatever happens, the sums of money are whole cents, none of them negative, and the term is one to twelve
  months. As long as no repayment has a negative amount, the balance is at most the total. As long as
  the reconciliation with the chain does not write a status, the status is one the services know, and
  a loan is completed exactly when it has a completion date; and with both, a completed loan owes nothing.
\<close>

definition money_ok :: "LoanRow \<Rightarrow> bool" where
  "money_ok l \<longleftrightarrow>
     (\<exists>p t b. loan_principal l = cents p \<and> loan_total l = cents t \<and> loan_balance l = cents b \<and>
        0 \<le> b \<and> 0 \<le> p \<and> p \<le> t \<and> t \<le> 10 ^ 7) \<and> 1 \<le> loan_term l \<and> loan_term l \<le> 12"

definition owed_ok :: "LoanRow \<Rightarrow> bool" where
  "owed_ok l \<longleftrightarrow> (\<exists>t b. loan_total l = cents t \<and> loan_balance l = cents b \<and> 0 \<le> b \<and> b \<le> t \<and> t \<le> 10 ^ 7)"

definition phase_ok :: "LoanRow \<Rightarrow> bool" where
  "phase_ok l \<longleftrightarrow> loan_status l \<in> {LoanPending, LoanActive, LoanCompleted, LoanUnderReview, LoanRejected} \<and>
     (loan_status l = LoanCompleted \<longleftrightarrow> loan_completed l \<noteq> None)"

definition closed_ok :: "LoanRow \<Rightarrow> bool" where
  "closed_ok l \<longleftrightarrow> (loan_status l = LoanCompleted \<longrightarrow> loan_balance l = 0)"

definition loan_typed :: "LoanRow \<Rightarrow> bool" where
  "loan_typed l \<longleftrightarrow> money_ok l \<and> owed_ok l \<and> phase_ok l \<and> closed_ok l"

text \<open>
  The same under the terms of a run: \<open>A\<close> are the amounts it may book, \<open>R\<close> tells whether statuses
  are reconciled.
\<close>

abbreviation nonneg :: "(num \<Rightarrow> bool) \<Rightarrow> bool" where "nonneg A \<equiv> \<forall>a. A a \<longrightarrow> 0 \<le> a"

definition typed_under :: "(num \<Rightarrow> bool) \<Rightarrow> bool \<Rightarrow> LoanRow \<Rightarrow> bool" where
  "typed_under A R l \<longleftrightarrow> money_ok l \<and> (nonneg A \<longrightarrow> owed_ok l) \<and> (\<not> R \<longrightarrow> phase_ok l) \<and> (nonneg A \<and> \<not> R \<longrightarrow> closed_ok l)"

lemma typed_any: "loan_typed l \<Longrightarrow> typed_under A R l"
  by (simp add: loan_typed_def typed_under_def)

definition hot_wf :: "rep_state \<Rightarrow> bool" where
  "hot_wf st \<longleftrightarrow> (\<forall>k v e. rep_hot st k = Some (v, e) \<longrightarrow> rep_wf k v)"

definition lending_wf :: "lending \<Rightarrow> bool" where
  "lending_wf s \<longleftrightarrow> (\<forall>l \<in> set (book_rows s). loan_typed l) \<and> hot_wf (ls_rep (ln_loans s))"

lemma hot_wf_set: "hot_wf st \<Longrightarrow> rep_wf k r \<Longrightarrow> hot_wf (st\<lparr>rep_hot := cache_set now ttl k r (rep_hot st)\<rparr>)"
  by (auto simp: hot_wf_def cache_set_def)

lemma hot_wf_rows [simp]: "hot_wf (st\<lparr>rep_rows := rs\<rparr>) = hot_wf st"
  by (simp add: hot_wf_def)

lemma hot_wf_persist: "hot_wf st \<Longrightarrow> rep_wf (rep_wallet r) r \<Longrightarrow> hot_wf (persistReputation env r st)"
  using hot_wf_set [of st "rep_wallet r" r]
  by (auto simp: persistReputation_def Let_def split: sum.splits option.splits)

lemma hot_wf_get:
  assumes "hot_wf st"
  shows "rep_wf w (fst (getReputationScore env w st)) \<and> hot_wf (snd (getReputationScore env w st))"
proof -
  have "rep_wf w r" if "cache_get (re_now env) (rep_hot st) w = Some r" for r
    using that assms by (auto simp: hot_wf_def cache_get_def split: option.splits if_splits)
  then show ?thesis
    using assms hot_wf_set [OF assms, of w] hot_wf_persist [OF assms]
    by (auto simp: getReputationScore_def Let_def split: option.splits sum.splits)
qed

lemma rep_wf_rate: "rep_wf w r \<Longrightarrow> 0 \<le> rep_rate r \<and> rep_rate r \<le> 100"
  by (auto simp: rep_wf_def resolveTier_eq split: if_splits)

lemma quote_loan_bounds:
  assumes "0 \<le> a" "a \<le> 10000"
  shows "\<exists>p. quote_loan a = cents p \<and> 0 \<le> p \<and> p \<le> 10 ^ 6"
proof -
  define x where "x = jmul (jmul a LOAN_PERCENT) 100"
  have lp: "0 \<le> LOAN_PERCENT" "LOAN_PERCENT \<le> 1"
    using fl_nonneg [of "4 / 5"] fl_lit_le [of "4 / 5"] by (auto simp: LOAN_PERCENT_def abs_le_iff)
  have a: "0 \<le> a * LOAN_PERCENT" "a * LOAN_PERCENT \<le> 10000"
    using assms lp mult_mono [of a 10000 LOAN_PERCENT 1] by simp_all
  have ten: "fl 10000 = (10000 :: num)" using fl_of_int [of 10000] by simp
  have "0 \<le> jmul a LOAN_PERCENT" "jmul a LOAN_PERCENT \<le> 10000"
    unfolding jmul_def using fl_nonneg [OF a(1)] fl_mono [OF a(2)] by (simp_all add: ten)
  then have b: "0 \<le> jmul a LOAN_PERCENT * 100" "jmul a LOAN_PERCENT * 100 \<le> 1000000" by simp_all
  have "fl 1000000 = (1000000 :: num)" using fl_of_int [of 1000000] by simp
  then have "0 \<le> x" "x \<le> 1000000"
    unfolding x_def jmul_def [of "jmul a LOAN_PERCENT"] using fl_nonneg [OF b(1)] fl_mono [OF b(2)] by simp_all
  then have "0 \<le> \<lfloor>x + 1 / 2\<rfloor>" "\<lfloor>x + 1 / 2\<rfloor> \<le> 1000000" by (simp_all add: le_floor_iff floor_le_iff)
  moreover have "quote_loan a = cents \<lfloor>x + 1 / 2\<rfloor>" by (simp add: quote_loan_def math_round_def x_def)
  ultimately show ?thesis by auto
qed

lemma new_loan_typed:
  assumes "1 \<le> a" "a \<le> 10000" and "0 \<le> rate" "rate \<le> 100" and "1 \<le> n" "n \<le> 12"
    and "status \<in> {LoanPending, LoanUnderReview}"
  shows "loan_typed (new_loan_row env w lid vendor (loan_terms tz now a rate n) status)"
proof -
  obtain p where p: "quote_loan a = cents p" "0 \<le> p" "p \<le> 10 ^ 6" using quote_loan_bounds [of a] assms(1,2) by auto
  obtain t where t: "quote_total (cents p) rate n = cents t" "p \<le> t" "t \<le> 2 * p + 1"
    using quote_total_cents [OF p(2,3) assms(3,4,6)] by blast
  from p(3) t(3) have "t \<le> 10 ^ 7" by simp
  let ?r = "new_loan_row env w lid vendor (loan_terms tz now a rate n) status"
  have r: "loan_principal ?r = cents p" "loan_total ?r = cents t" "loan_balance ?r = cents t" "loan_term ?r = n"
    "loan_status ?r = status" "loan_completed ?r = None"
    using p(1) t(1) by (simp_all add: new_loan_row_def loan_terms_def Let_def)
  have "money_ok ?r" unfolding money_ok_def r using p(2) t(2) \<open>t \<le> 10 ^ 7\<close> assms(5,6) by force
  moreover have "owed_ok ?r" unfolding owed_ok_def r using p(2) t(2) \<open>t \<le> 10 ^ 7\<close> by force
  moreover have "phase_ok ?r" "closed_ok ?r" unfolding phase_ok_def closed_ok_def r using assms(7) by auto
  ultimately show ?thesis by (simp add: loan_typed_def)
qed

section \<open>The abstract loan book\<close>

record entry =
  en_id :: string
  en_owner :: string
  en_total :: num
  en_phase :: LoanStatus
  en_owes :: num

definition entry_of :: "LoanRow \<Rightarrow> entry" where
  "entry_of l = \<lparr>en_id = loan_pk l, en_owner = loan_wallet l, en_total = loan_total l, en_phase = loan_status l,
     en_owes = loan_balance l\<rparr>"

text \<open>
  What may happen to one entry: a decision before it is active, the activation of an approved one, a
  confirmed payment of one of the amounts \<open>A\<close>, which closes the entry when nothing is left, and, if
  \<open>R\<close>, taking over a phase from the chain's index.
\<close>

definition booked :: "num \<Rightarrow> entry \<Rightarrow> entry" where
  "booked a e =
     (let left = repaid_balance (en_owes e) a
      in e\<lparr>en_owes := left, en_phase := (if left = 0 then LoanCompleted else en_phase e)\<rparr>)"

inductive entry_step :: "(num \<Rightarrow> bool) \<Rightarrow> bool \<Rightarrow> entry \<Rightarrow> entry \<Rightarrow> bool" for A R where
  decided: "en_phase e \<in> {LoanPending, LoanUnderReview} \<Longrightarrow> p \<in> {LoanPending, LoanUnderReview, LoanRejected} \<Longrightarrow>
    entry_step A R e (e\<lparr>en_phase := p\<rparr>)"
| activated: "en_phase e = LoanPending \<Longrightarrow> entry_step A R e (e\<lparr>en_phase := LoanActive\<rparr>)"
| paid: "A a \<Longrightarrow> entry_step A R e (booked a e)"
| corrected: "R \<Longrightarrow> entry_step A R e (e\<lparr>en_phase := p\<rparr>)"

inductive book_step :: "(num \<Rightarrow> bool) \<Rightarrow> bool \<Rightarrow> entry list \<Rightarrow> entry list \<Rightarrow> bool" for A R where
  opened: "en_phase e \<in> {LoanPending, LoanUnderReview} \<Longrightarrow> en_owes e = en_total e \<Longrightarrow> 0 \<le> en_total e \<Longrightarrow>
    book_step A R es (es @ [e])"
| changed: "i < length es \<Longrightarrow> entry_step A R (es ! i) e \<Longrightarrow> book_step A R es (es[i := e])"

abbreviation runs :: "(num \<Rightarrow> bool) \<Rightarrow> bool \<Rightarrow> entry list \<Rightarrow> entry list \<Rightarrow> bool" where
  "runs A R \<equiv> (book_step A R)\<^sup>*\<^sup>*"

lemma book_step_Cons: "book_step A R es es' \<Longrightarrow> book_step A R (e # es) (e # es')"
proof (induction rule: book_step.induct)
  case (opened x es)
  from book_step.opened [OF this, of A R "e # es"] show ?case by simp
next
  case (changed i es x)
  then show ?case using book_step.changed [of "Suc i" "e # es" A R x] by simp
qed

lemma runs_Cons: "runs A R es es' \<Longrightarrow> runs A R (e # es) (e # es')"
  by (induction rule: rtranclp_induct) (auto intro: rtranclp.rtrancl_into_rtrancl book_step_Cons)

lemma runs_entries: "list_all2 (entry_step A R)\<^sup>=\<^sup>= es es' \<Longrightarrow> runs A R es es'"
proof (induction rule: list_all2_induct)
  case (Cons e es e' es')
  have "runs A R (e # es) (e' # es)"
    using Cons(1) book_step.changed [of 0 "e # es" A R e'] by auto
  also have "runs A R (e' # es) (e' # es')" by (rule runs_Cons [OF Cons(3)])
  finally show ?case .
qed simp

lemma runs_update:
  assumes "\<And>l. l \<in> set ls \<Longrightarrow> P l \<Longrightarrow> entry_step A R (entry_of l) (entry_of (f l))"
  shows "runs A R (map entry_of ls) (map entry_of (update_where P f ls))"
  using assms by (intro runs_entries) (auto simp: list_all2_map1 list_all2_map2 intro!: list_all2_update_where)

text \<open>Who owes, and at most how much, under the terms of the run.\<close>

definition owes_cents :: "entry \<Rightarrow> bool" where
  "owes_cents e \<longleftrightarrow> (\<exists>b. en_owes e = cents b \<and> 0 \<le> b \<and> b \<le> 10 ^ 7)"

definition entry_kept :: "(num \<Rightarrow> bool) \<Rightarrow> bool \<Rightarrow> entry \<Rightarrow> entry \<Rightarrow> bool" where
  "entry_kept A R e e' \<longleftrightarrow> en_id e' = en_id e \<and> en_owner e' = en_owner e \<and> en_total e' = en_total e \<and>
     (nonneg A \<and> owes_cents e \<longrightarrow> en_owes e' \<le> en_owes e \<and> owes_cents e') \<and>
     (\<not> R \<and> en_phase e = LoanCompleted \<longrightarrow> en_phase e' = LoanCompleted)"

lemma booked_less:
  assumes "0 \<le> a" and "owes_cents e"
  shows "en_owes (booked a e) \<le> en_owes e \<and> owes_cents (booked a e)"
proof -
  obtain b where b: "en_owes e = cents b" "0 \<le> b" "b \<le> 10 ^ 7" using assms(2) by (auto simp: owes_cents_def)
  then obtain k where "repaid_balance (cents b) a = cents k" "0 \<le> k" "k \<le> b"
    using repaid_balance_le [OF assms(1), of b] by auto
  with b show ?thesis by (auto simp: booked_def Let_def owes_cents_def cents_mono)
qed

lemma entry_step_keeps:
  assumes "entry_step A R e e'"
  shows "entry_kept A R e e'"
  using assms
proof cases
  case (paid a)
  have "en_id e' = en_id e" "en_owner e' = en_owner e" "en_total e' = en_total e"
    "en_phase e = LoanCompleted \<Longrightarrow> en_phase e' = LoanCompleted"
    by (simp_all add: paid(1) booked_def Let_def)
  moreover have "en_owes e' \<le> en_owes e \<and> owes_cents e'" if "nonneg A" "owes_cents e"
    using booked_less [of a e] that paid by blast
  ultimately show ?thesis by (simp add: entry_kept_def)
qed (auto simp: entry_kept_def owes_cents_def)

lemma entry_kept_refl: "entry_kept A R e e"
  by (simp add: entry_kept_def)

lemma entry_kept_trans: "entry_kept A R a b \<Longrightarrow> entry_kept A R b c \<Longrightarrow> entry_kept A R a c"
  by (auto simp: entry_kept_def)

lemma runs_keep:
  assumes "runs A R es es'"
  shows "length es \<le> length es' \<and> (\<forall>i < length es. entry_kept A R (es ! i) (es' ! i))"
  using assms
proof (induction rule: rtranclp_induct)
  case (step es1 es2)
  from step(2) show ?case
  proof cases
    case (opened e)
    then show ?thesis using step.IH by (auto simp: nth_append)
  next
    case (changed j e)
    have "entry_kept A R (es1 ! i) (es2 ! i)" for i
      using entry_step_keeps [OF changed(3)] entry_kept_refl changed(2) by (cases "i = j") (auto simp: changed(1))
    with step.IH changed(1) show ?thesis using entry_kept_trans by (metis length_list_update)
  qed
qed (simp add: entry_kept_refl)

section \<open>Every operation implements the book\<close>

text \<open>The loans before and after an operation: well-formed again, and reached by steps of the book.\<close>

definition keeps_book :: "(num \<Rightarrow> bool) \<Rightarrow> bool \<Rightarrow> LoanRow list \<Rightarrow> LoanRow list \<Rightarrow> bool" where
  "keeps_book A R ls ls' \<longleftrightarrow> ((\<forall>l \<in> set ls. typed_under A R l) \<longrightarrow>
     (\<forall>l \<in> set ls'. typed_under A R l) \<and> runs A R (map entry_of ls) (map entry_of ls'))"

lemma keeps_book_refl [simp]: "keeps_book A R ls ls"
  by (simp add: keeps_book_def)

lemma keeps_book_trans: "keeps_book A R a b \<Longrightarrow> keeps_book A R b c \<Longrightarrow> keeps_book A R a c"
  by (auto simp: keeps_book_def)

lemma keeps_book_update:
  assumes "\<And>l. l \<in> set ls \<Longrightarrow> typed_under A R l \<Longrightarrow> P l \<Longrightarrow> typed_under A R (f l) \<and> entry_step A R (entry_of l) (entry_of (f l))"
  shows "keeps_book A R ls (update_where P f ls)"
  unfolding keeps_book_def
proof (intro impI conjI)
  assume t: "\<forall>l \<in> set ls. typed_under A R l"
  with assms show "\<forall>l \<in> set (update_where P f ls). typed_under A R l" by (auto simp: update_where_def)
  show "runs A R (map entry_of ls) (map entry_of (update_where P f ls))"
    using t assms by (intro runs_update) blast
qed

text \<open>Setting a status.\<close>

lemma set_status_typed:
  assumes "typed_under A R l"
    and "\<not> R \<Longrightarrow> loan_status l \<noteq> LoanCompleted \<and> s \<in> {LoanPending, LoanActive, LoanUnderReview, LoanRejected}"
  shows "typed_under A R (set_status s l)"
  using assms by (auto simp: typed_under_def money_ok_def owed_ok_def phase_ok_def closed_ok_def set_status_def)

lemma entry_of_status: "entry_of (set_status s l) = (entry_of l)\<lparr>en_phase := s\<rparr>"
  by (simp add: entry_of_def set_status_def)

lemma activate_book: "keeps_book A R ls (snd (activatePendingLoan flt lid w ls))"
proof -
  have "typed_under A R (set_status LoanActive l) \<and> entry_step A R (entry_of l) (entry_of (set_status LoanActive l))"
    if "typed_under A R l" "loan_status l = LoanPending" for l
    using set_status_typed [OF that(1), of LoanActive] that(2) entry_step.activated [of "entry_of l" A R]
    by (simp add: entry_of_status) (simp add: entry_of_def)
  then show ?thesis
    by (auto simp: activatePendingLoan_def Let_def split: sum.split option.split intro!: keeps_book_update)
qed

text \<open>A payment leaves whole cents, whatever its amount.\<close>

lemma repaid_balance_whole: "\<exists>k \<ge> 0. repaid_balance x a = cents k"
  by (intro exI [of _ "max 0 \<lfloor>jmul (jsub x a) 100 + 1 / 2\<rfloor>"])
    (simp add: repaid_balance_def math_round_def max_cents)

lemma repay_row_typed:
  assumes "typed_under A R l" and "A a"
  shows "typed_under A R (repay_row now (repaid_balance (loan_balance l) a) (loan_status l)
     (if repaid_balance (loan_balance l) a = 0 then LoanCompleted else loan_status l) l)"
proof -
  let ?x = "repaid_balance (loan_balance l) a"
  let ?l = "repay_row now ?x (loan_status l) (if ?x = 0 then LoanCompleted else loan_status l) l"
  have f: "loan_principal ?l = loan_principal l" "loan_total ?l = loan_total l" "loan_balance ?l = ?x" "loan_term ?l = loan_term l"
    "loan_status ?l = (if ?x = 0 then LoanCompleted else loan_status l)"
    "loan_completed ?l = (if ?x = 0 \<and> loan_status l \<noteq> LoanCompleted then Some now else loan_completed l)"
    by (auto simp: repay_row_def Let_def)
  obtain k where k: "?x = cents k" "0 \<le> k" using repaid_balance_whole by blast
  have "money_ok ?l"
    using assms(1) k unfolding typed_under_def money_ok_def f by blast
  moreover have less: "owed_ok ?l \<and> ?x \<le> loan_balance l" if "nonneg A"
  proof -
    from that assms(1) obtain t b where b: "loan_total l = cents t" "loan_balance l = cents b" "0 \<le> b" "b \<le> t" "t \<le> 10 ^ 7"
      by (auto simp: typed_under_def owed_ok_def)
    moreover from that assms(2) have "0 \<le> a" by blast
    ultimately obtain j where j: "?x = cents j" "0 \<le> j" "j \<le> b" using repaid_balance_le [of a b] by auto
    have "owed_ok ?l" unfolding owed_ok_def f
      by (intro exI [of _ t] exI [of _ j]) (use b j in simp)
    with b j show ?thesis by (simp add: cents_mono)
  qed
  moreover have "phase_ok ?l" if "\<not> R" using assms(1) that unfolding typed_under_def phase_ok_def f by auto
  moreover have "closed_ok ?l" if "nonneg A" "\<not> R"
  proof -
    have "0 \<le> ?x" using k cents_nonneg by simp
    with assms(1) that less [OF that(1)] show ?thesis unfolding typed_under_def closed_ok_def f by auto
  qed
  ultimately show ?thesis by (simp add: typed_under_def)
qed

lemma repay_row_entry:
  "entry_of (repay_row now (repaid_balance (loan_balance l) a) (loan_status l)
     (if repaid_balance (loan_balance l) a = 0 then LoanCompleted else loan_status l) l) = booked a (entry_of l)"
  by (simp add: entry_of_def repay_row_def booked_def Let_def)

lemma repay_book:
  assumes "A a"
  shows "keeps_book A R ls (snd (applyLoanRepayment now flt lid w a ls))"
proof (cases "with_fault (flt ''repay.select'') (single (filter (loan_of lid w) ls))")
  case (Inl e)
  then show ?thesis by (simp add: applyLoanRepayment_def)
next
  case (Inr l)
  let ?f = "repay_row now (repaid_balance (loan_balance l) a) (loan_status l)
    (if repaid_balance (loan_balance l) a = 0 then LoanCompleted else loan_status l)"
  from Inr have f: "set (filter (loan_of lid w) ls) = {l}" by (simp add: single_Inr)
  have "keeps_book A R ls (update_where (loan_of lid w) ?f ls)"
  proof (rule keeps_book_update)
    fix x assume x: "x \<in> set ls" "typed_under A R x" "loan_of lid w x"
    with f have l: "x = l" by auto
    show "typed_under A R (?f x) \<and> entry_step A R (entry_of x) (entry_of (?f x))"
      using repay_row_typed [OF x(2) assms] entry_step.paid [of A a R "entry_of x", OF assms] unfolding l repay_row_entry ..
  qed
  with Inr show ?thesis by (auto simp: applyLoanRepayment_def Let_def split: option.split)
qed

lemma follow_up_book:
  assumes "\<And>a. confirmed_amount env a \<Longrightarrow> A a"
  shows "keeps_book A R ls (snd (applyFollowUpActions env tx ok ls))"
proof -
  have "A a" if "parseTransactionMetadata env x = Some m" "md_amount m = Some a" for x m a
    using assms that unfolding confirmed_amount_def by blast
  then show ?thesis
    using activate_book repay_book by (auto simp: applyFollowUpActions_def Let_def split: option.splits bool.splits)
qed

lemma settle_book:
  assumes "\<And>a. confirmed_amount env a \<Longrightarrow> A a"
  shows "keeps_book A R (ck_loans st) (ck_loans (checkTransactions env st))"
proof -
  have one: "keeps_book A R (ck_loans st) (ck_loans (processTransaction env tx st))" for tx st
    using follow_up_book [OF assms, of env]
    by (auto simp: processTransaction_def finalizeTransaction_def Let_def split_def split: sum.splits status_result.splits)
  have "keeps_book A R (ck_loans st) (ck_loans (fold (processTransaction env) txs st))" for txs
  proof (induction txs arbitrary: st)
    case (Cons tx txs)
    from keeps_book_trans [OF one Cons.IH] show ?case by simp
  qed simp
  then show ?thesis by (auto simp: checkTransactions_def Let_def simp del: fold.simps split: sum.split list.split)
qed

lemma assess_book: "keeps_book A R (ls_loans st) (ls_loans (snd (assessLoan env w pk st)))"
proof (cases "find_loan env ''loans.assess'' pk (ls_loans st)")
  case (Inr l)
  then have "set (filter (\<lambda>x. loan_pk x = pk) (ls_loans st)) = {l}" by (simp add: find_loan_Inr)
  then have u: "x = l" if "x \<in> set (ls_loans st)" "loan_pk x = pk" for x using that by auto
  have "typed_under A R (set_status s l) \<and> entry_step A R (entry_of l) (entry_of (set_status s l))"
    if "typed_under A R l" "loan_status l \<in> {LoanPending, LoanUnderReview}" "s \<in> {LoanPending, LoanUnderReview, LoanRejected}" for s
    using set_status_typed [OF that(1), of s] that(2,3) entry_step.decided [of "entry_of l" s A R]
    by (auto simp: entry_of_status) (auto simp: entry_of_def)
  moreover have "assessed_status d \<in> {LoanPending, LoanUnderReview, LoanRejected}" for d
    by (simp add: assessed_status_def split: decision.splits)
  ultimately have "keeps_book A R (ls_loans st) (update_where (\<lambda>x. loan_pk x = pk) (set_status (assessed_status d)) (ls_loans st))"
    if "loan_status l \<in> {LoanPending, LoanUnderReview}" for d
    using u that by (intro keeps_book_update) blast
  then show ?thesis by (auto simp: assessLoan_def Inr Let_def split_def split: option.split)
qed (simp add: assessLoan_def)

lemma create_book:
  assumes "hot_wf (ls_rep st)" and "admissible (AskLoan env w dto)"
  shows "keeps_book A R (ls_loans st) (ls_loans (snd (createLoan env w dto st)))"
  using createLoan_cases [of env w dto st]
proof (elim disjE exE conjE)
  fix vendor terms a status x
  assume c: "fst (prepareLoanPreview env w dto True st) = Inr (vendor, terms)"
    "status = (if assess_decision a = Approved then LoanPending else LoanUnderReview)"
    "ls_loans (snd (createLoan env w dto st)) =
       ls_loans st @ [new_loan_row env w (generateProvisionalLoanId env) vendor terms status]"
  let ?r = "new_loan_row env w (generateProvisionalLoanId env) vendor terms status"
  have "rep_wf w (fst (getReputationScore (le_rep env) w (ls_rep st)))" using hot_wf_get [OF assms(1)] by blast
  from rep_wf_rate [OF this] prepare_Inr [OF c(1)] have r: "loan_typed ?r"
    using assms(2) c(2) by (auto intro!: new_loan_typed)
  have "status \<in> {LoanPending, LoanUnderReview}" using c(2) by simp
  moreover have "loan_balance ?r = loan_total ?r" "loan_status ?r = status" by (simp_all add: new_loan_row_def)
  moreover obtain t where "loan_total ?r = cents t" "0 \<le> t" using r unfolding loan_typed_def owed_ok_def by (metis order.trans)
  ultimately have "book_step A R (map entry_of (ls_loans st)) (map entry_of (ls_loans st) @ [entry_of ?r])"
    by (intro book_step.opened) (auto simp: entry_of_def cents_nonneg)
  with typed_any [OF r] show ?thesis unfolding c(3) by (auto simp: keeps_book_def)
qed simp

lemma lend_book:
  assumes "hot_wf (ls_rep (ln_loans s))" and "admissible op" and "\<And>env a. op = Settle env \<Longrightarrow> confirmed_amount env a \<Longrightarrow> A a"
  shows "keeps_book A R (book_rows s) (book_rows (lend op s)) \<and> hot_wf (ls_rep (ln_loans (lend op s)))"
proof (cases op)
  case (AskQuote env w dto)
  then show ?thesis using hot_wf_get [OF assms(1)] by (simp add: calculateLoanQuote_def prepareLoanPreview_def Let_def split_def)
next
  case (AskLoan env w dto)
  have "hot_wf (ls_rep (snd (createLoan env w dto (ln_loans s))))"
    using hot_wf_get [OF assms(1)] hot_wf_get
    by (auto simp: createLoan_def prepareLoanPreview_def runCreditAssessment_def Let_def split_def split: sum.split)
  with AskLoan show ?thesis using create_book [OF assms(1)] assms(2) by simp
next
  case (AskAssessment env w pk)
  have "hot_wf (ls_rep (snd (assessLoan env w pk (ln_loans s))))"
    using hot_wf_get [OF assms(1)] assms(1)
    by (auto simp: assessLoan_def runCreditAssessment_def Let_def split_def split: sum.split option.split)
  with AskAssessment show ?thesis using assess_book by simp
next
  case (Settle env)
  then show ?thesis using settle_book [of env A R "checker_view s"] assms by (simp add: Let_def checker_view_def)
qed (use assms in auto)

text \<open>What the steps of the book mean for the rows: no debt disappears, and none grows but by a negative payment.\<close>

lemma keeps_book_debts:
  assumes "keeps_book A R ls ls'" and "\<forall>l \<in> set ls. loan_typed l" and "i < length ls"
  shows "i < length ls' \<and> loan_pk (ls' ! i) = loan_pk (ls ! i) \<and> loan_wallet (ls' ! i) = loan_wallet (ls ! i) \<and>
    loan_total (ls' ! i) = loan_total (ls ! i) \<and> (nonneg A \<longrightarrow> loan_balance (ls' ! i) \<le> loan_balance (ls ! i)) \<and>
    (\<not> R \<and> loan_status (ls ! i) = LoanCompleted \<longrightarrow> loan_status (ls' ! i) = LoanCompleted)"
proof -
  have "runs A R (map entry_of ls) (map entry_of ls')" using assms(1,2) typed_any by (auto simp: keeps_book_def)
  note k = runs_keep [OF this]
  have n: "i < length ls'" using k assms(3) by simp
  have "entry_kept A R (map entry_of ls ! i) (map entry_of ls' ! i)" using k assms(3) by (metis length_map)
  then have e: "entry_kept A R (entry_of (ls ! i)) (entry_of (ls' ! i))" using assms(3) n by simp
  have "owes_cents (entry_of (ls ! i))"
    using assms(2,3) nth_mem by (fastforce simp: loan_typed_def owed_ok_def owes_cents_def entry_of_def)
  with e n show ?thesis by (auto simp: entry_kept_def entry_of_def)
qed

section \<open>An example\<close>

definition demo_lending :: lending where
  "demo_lending = \<lparr>ln_loans = demo_loans\<lparr>ls_loans := [demo_loan\<lparr>loan_total := cents 41067, loan_balance := cents 41067,
       loan_principal := cents 40000, loan_term := 4, loan_status := LoanActive, loan_completed := None\<rparr>],
       ls_rep := (ls_rep demo_loans)\<lparr>rep_hot := Map.empty\<rparr>\<rparr>,
     ln_txs = \<lparr>txs_rows = [demo_tx], txs_cache = Map.empty\<rparr>, ln_notes = []\<rparr>"

lemma demo_lending_wf: "lending_wf demo_lending"
proof -
  have "loan_typed (demo_loan\<lparr>loan_total := cents 41067, loan_balance := cents 41067,
      loan_principal := cents 40000, loan_term := 4, loan_status := LoanActive, loan_completed := None\<rparr>)"
    unfolding loan_typed_def money_ok_def owed_ok_def phase_ok_def closed_ok_def
    by (intro conjI exI [of _ 40000] exI [of _ 41067]) simp_all
  then show ?thesis by (simp add: lending_wf_def demo_lending_def hot_wf_def)
qed

end
