(* ===== verification/Horizon.thy ===== *)
theory Horizon imports Transactions begin

text \<open>
  The Horizon client with failover (\<open>stellar/horizon-client.service.ts\<close>): several endpoints, each
  behind a circuit breaker, asked in turn from the one that answered last. And the relay of signed
  repayments (\<open>modules/blockchain/blockchain.service.ts\<close>), which submits a transaction and polls
  for its ledger. What an endpoint answers is a parameter.
\<close>

section \<open>Endpoints and errors\<close>

datatype breaker = Closed | Open | HalfOpen

record CircuitBreakerState =
  cb_url :: string
  cb_status :: breaker
  cb_failures :: nat
  cb_last :: "string option"
  cb_cooldown :: "int option"

record EndpointStatus =
  es_url :: string
  es_status :: breaker
  es_failures :: nat
  es_last :: "string option"
  es_primary :: bool

text \<open>
  What the client reads of a thrown value: whether it is a \<open>NetworkError\<close> of the SDK, whether it
  carries result codes, the HTTP status and the message.
\<close>

record endpoint_error =
  ee_network :: bool
  ee_codes :: bool
  ee_status :: "nat option"
  ee_message :: "string option"

record horizon_client =
  hz_states :: "CircuitBreakerState list"
  hz_current :: nat

definition maxFailures :: nat where "maxFailures = 3"
definition cooldownMs :: int where "cooldownMs = 30000"

definition default_horizon :: string where "default_horizon = ''https://horizon-testnet.stellar.org''"

text \<open>The settings \<open>STELLAR_HORIZON_URLS\<close> and \<open>STELLAR_HORIZON_URL\<close>; an empty one counts as missing.\<close>

definition configured_endpoints :: "string option \<Rightarrow> string option \<Rightarrow> string list" where
  "configured_endpoints urls url =
     (let es = (case present urls of
                  Some s \<Rightarrow> filter (\<lambda>x. x \<noteq> []) (map trim (split_on (CHR '','') s))
                | None \<Rightarrow> [case present url of Some u \<Rightarrow> u | None \<Rightarrow> default_horizon])
      in if es = [] then [default_horizon] else es)"

definition onModuleInit :: "string list \<Rightarrow> horizon_client" where
  "onModuleInit endpoints =
     \<lparr>hz_states = map (\<lambda>u. \<lparr>cb_url = u, cb_status = Closed, cb_failures = 0, cb_last = None, cb_cooldown = None\<rparr>) endpoints,
      hz_current = 0\<rparr>"

definition getEndpointStatuses :: "horizon_client \<Rightarrow> EndpointStatus list" where
  "getEndpointStatuses hz =
     map (\<lambda>(i, s). \<lparr>es_url = cb_url s, es_status = cb_status s, es_failures = cb_failures s, es_last = cb_last s,
            es_primary = (i = hz_current hz)\<rparr>) (zip [0..<length (hz_states hz)] (hz_states hz))"

definition isEndpointError :: "endpoint_error \<Rightarrow> bool" where
  "isEndpointError e =
     (if ee_network e then True
      else if ee_codes e then False
      else case ee_status e of
        Some s \<Rightarrow>
          if s = 404 then False
          else if 400 \<le> s \<and> s < 500 \<and> s \<noteq> 429 then False
          else if s = 429 \<or> 500 \<le> s then True
          else \<exists>t \<in> set [''timeout'', ''econnrefused'', ''econnreset'', ''network'', ''socket'', ''fetch'', ''dns'',
                 ''enotfound'', ''eai_again'']. str_includes (to_lower (case ee_message e of Some m \<Rightarrow> m | None \<Rightarrow> [])) t
      | None \<Rightarrow> \<exists>t \<in> set [''timeout'', ''econnrefused'', ''econnreset'', ''network'', ''socket'', ''fetch'', ''dns'',
                 ''enotfound'', ''eai_again'']. str_includes (to_lower (case ee_message e of Some m \<Rightarrow> m | None \<Rightarrow> [])) t)"

section \<open>Failover\<close>

text \<open>
  An operation on the endpoints: what asking the url in the i-th round gives, and the clock before
  and after it.
\<close>

record 'a horizon_op =
  ho_ask :: "nat \<Rightarrow> string \<Rightarrow> endpoint_error + 'a"
  ho_before :: "nat \<Rightarrow> int"
  ho_after :: "nat \<Rightarrow> int"

datatype failover_error = RequestFailed endpoint_error | AllUnavailable

definition cooling :: "int \<Rightarrow> CircuitBreakerState \<Rightarrow> bool" where
  "cooling now s \<longleftrightarrow> cb_status s = Open \<and> (case cb_cooldown s of Some t \<Rightarrow> t \<noteq> 0 \<and> now < t | None \<Rightarrow> False)"

definition probe :: "CircuitBreakerState \<Rightarrow> CircuitBreakerState" where
  "probe s = (if cb_status s = Open then s\<lparr>cb_status := HalfOpen\<rparr> else s)"

definition succeeded :: "CircuitBreakerState \<Rightarrow> CircuitBreakerState" where
  "succeeded s = s\<lparr>cb_status := Closed, cb_failures := 0, cb_last := None, cb_cooldown := None\<rparr>"

definition failed :: "int \<Rightarrow> endpoint_error \<Rightarrow> CircuitBreakerState \<Rightarrow> CircuitBreakerState" where
  "failed now e s =
     (let s1 = s\<lparr>cb_failures := cb_failures s + 1, cb_last := ee_message e\<rparr>
      in if maxFailures \<le> cb_failures s1 then s1\<lparr>cb_status := Open, cb_cooldown := Some (now + cooldownMs)\<rparr> else s1)"

text \<open>The rounds from the i-th on: the outcome, the endpoints asked, and the client afterwards.\<close>

function failover_rounds ::
  "'a horizon_op \<Rightarrow> nat \<Rightarrow> nat \<Rightarrow> nat set \<Rightarrow> horizon_client \<Rightarrow> (failover_error + 'a) \<times> nat list \<times> horizon_client" where
  "failover_rounds op start i tried hz =
     (if i < length (hz_states hz) then
        let idx = (start + i) mod length (hz_states hz);
            s = hz_states hz ! idx
        in if idx \<in> tried then failover_rounds op start (i + 1) tried hz
           else if cooling (ho_before op i) s then failover_rounds op start (i + 1) (insert idx tried) hz
           else case ho_ask op i (cb_url s) of
             Inr r \<Rightarrow> (Inr r, [idx], hz\<lparr>hz_states := (hz_states hz)[idx := succeeded (probe s)], hz_current := idx\<rparr>)
           | Inl e \<Rightarrow>
               if \<not> isEndpointError e
               then (Inl (RequestFailed e), [idx], hz\<lparr>hz_states := (hz_states hz)[idx := probe s]\<rparr>)
               else let (r, asked, hz') = failover_rounds op start (i + 1) (insert idx tried)
                          (hz\<lparr>hz_states := (hz_states hz)[idx := failed (ho_after op i) e (probe s)]\<rparr>)
                    in (r, idx # asked, hz')
      else (Inl AllUnavailable, [], hz))"
  by pat_completeness auto
termination
  by (relation "measure (\<lambda>(op, start, i, tried, hz). length (hz_states hz) - i)") auto

declare failover_rounds.simps [simp del]

definition withFailover :: "'a horizon_op \<Rightarrow> horizon_client \<Rightarrow> (failover_error + 'a) \<times> nat list \<times> horizon_client" where
  "withFailover op hz = failover_rounds op (hz_current hz) 0 {} hz"

record HorizonRoot =
  hr_version :: string
  hr_network :: string
  hr_core :: string
  hr_ledger :: int

text \<open>A fetch throws, or replies with a status and a body that parses or not.\<close>

datatype fetch_reply = FetchError endpoint_error | FetchReply nat "endpoint_error + HorizonRoot"

definition root_of :: "fetch_reply \<Rightarrow> endpoint_error + HorizonRoot" where
  "root_of r =
     (case r of
        FetchError e \<Rightarrow> Inl e
      | FetchReply status body \<Rightarrow>
          if 200 \<le> status \<and> status < 300 then body
          else Inl \<lparr>ee_network = False, ee_codes = False, ee_status = Some status,
                    ee_message = Some (''Horizon returned '' @ decimal status)\<rparr>)"

definition getRoot :: "(nat \<Rightarrow> string \<Rightarrow> fetch_reply) \<Rightarrow> (nat \<Rightarrow> int) \<Rightarrow> (nat \<Rightarrow> int) \<Rightarrow> horizon_client \<Rightarrow>
    (failover_error + HorizonRoot) \<times> nat list \<times> horizon_client" where
  "getRoot fetch before after hz =
     withFailover \<lparr>ho_ask = (\<lambda>i u. root_of (fetch i u)), ho_before = before, ho_after = after\<rparr> hz"

text \<open>
  \<open>post\<close> and \<open>lookup\<close> are the requests of the SDK to the endpoint of the round, with the transaction or the hash.
\<close>

definition submitTransaction_h ::
  "(nat \<Rightarrow> string \<Rightarrow> 't \<Rightarrow> endpoint_error + 'r) \<Rightarrow> 't \<Rightarrow> (nat \<Rightarrow> int) \<Rightarrow> (nat \<Rightarrow> int) \<Rightarrow> horizon_client \<Rightarrow>
     (failover_error + 'r) \<times> nat list \<times> horizon_client" where
  "submitTransaction_h post t before after hz =
     withFailover \<lparr>ho_ask = (\<lambda>i u. post i u t), ho_before = before, ho_after = after\<rparr> hz"

definition getTransaction_h ::
  "(nat \<Rightarrow> string \<Rightarrow> string \<Rightarrow> endpoint_error + 'r) \<Rightarrow> string \<Rightarrow> (nat \<Rightarrow> int) \<Rightarrow> (nat \<Rightarrow> int) \<Rightarrow> horizon_client \<Rightarrow>
     (failover_error + 'r) \<times> nat list \<times> horizon_client" where
  "getTransaction_h lookup hash before after hz =
     withFailover \<lparr>ho_ask = (\<lambda>i u. lookup i u hash), ho_before = before, ho_after = after\<rparr> hz"

section \<open>Every request ends\<close>

text \<open>The rounds visit the endpoints in a circle, each of them once.\<close>

definition circle :: "nat \<Rightarrow> nat \<Rightarrow> nat \<Rightarrow> nat" where "circle n start i = (start + i) mod n"

lemma circle_less [simp]: "0 < n \<Longrightarrow> circle n start i < n"
  by (simp add: circle_def)

lemma circle_inj: "i < n \<Longrightarrow> j < n \<Longrightarrow> circle n start i = circle n start j \<longleftrightarrow> i = (j :: nat)"
proof (induction i j rule: linorder_wlog)
  case (le i j)
  have "n dvd j - i" if "circle n start i = circle n start j"
    using that le(1) mod_eq_dvd_iff_nat [of "start + i" "start + j" n] by (simp add: circle_def)
  with le show ?case using nat_dvd_not_less [of "j - i" n] by fastforce
qed auto

lemma circle_onto: "0 < n \<Longrightarrow> (circle n start) ` {..<n} = {..<n}"
proof (rule card_subset_eq)
  assume "0 < n"
  then show "(circle n start) ` {..<n} \<subseteq> {..<n}" by auto
  have "inj_on (circle n start) {..<n}" by (rule inj_onI) (use circle_inj in auto)
  then show "card ((circle n start) ` {..<n}) = card {..<n}" by (rule card_image)
qed simp

lemma in_circle: "k \<in> circle n start ` {i..<n} \<Longrightarrow> \<exists>j \<ge> i. j < n \<and> k = circle n start j"
  by (metis atLeastLessThan_iff imageE)

lemma rounds_done: "\<not> i < length (hz_states hz) \<Longrightarrow> failover_rounds op start i tried hz = (Inl AllUnavailable, [], hz)"
  by (simp add: failover_rounds.simps)

lemma rounds_ask:
  assumes "circle (length (hz_states hz)) start i \<notin> tried" "i < length (hz_states hz)"
  shows "failover_rounds op start i tried hz =
    (let idx = circle (length (hz_states hz)) start i; s = hz_states hz ! idx
     in if cooling (ho_before op i) s then failover_rounds op start (i + 1) (insert idx tried) hz
        else case ho_ask op i (cb_url s) of
             Inr r \<Rightarrow> (Inr r, [idx], hz\<lparr>hz_states := (hz_states hz)[idx := succeeded (probe s)], hz_current := idx\<rparr>)
           | Inl e \<Rightarrow>
               if \<not> isEndpointError e
               then (Inl (RequestFailed e), [idx], hz\<lparr>hz_states := (hz_states hz)[idx := probe s]\<rparr>)
               else let (r, asked, hz') = failover_rounds op start (i + 1) (insert idx tried)
                          (hz\<lparr>hz_states := (hz_states hz)[idx := failed (ho_after op i) e (probe s)]\<rparr>)
                    in (r, idx # asked, hz'))"
  using assms by (subst failover_rounds.simps) (simp add: Let_def circle_def)

text \<open>
  What the rounds from the i-th on do, when the earlier ones tried exactly the endpoints before it:
  they ask some of the remaining endpoints, each once, and touch no other; when they end without an
  answer, every remaining endpoint was asked or cooling down.
\<close>

lemma rounds_spec:
  assumes "n = length (hz_states hz)" and "tried = circle n start ` {..<i}" and "i \<le> n"
    and "failover_rounds op start i tried hz = (r, asked, hz')"
  shows "length (hz_states hz') = n \<and> distinct asked \<and> set asked \<subseteq> circle n start ` {i..<n} \<and>
    (\<forall>k < n. k \<notin> set asked \<longrightarrow> hz_states hz' ! k = hz_states hz ! k) \<and>
    (\<forall>j. i \<le> j \<and> j < n \<longrightarrow> (circle n start j \<in> set asked \<longrightarrow> \<not> cooling (ho_before op j) (hz_states hz ! circle n start j)) \<and>
       (r = Inl AllUnavailable \<longrightarrow> circle n start j \<in> set asked \<or> cooling (ho_before op j) (hz_states hz ! circle n start j)))"
  using assms
proof (induction "n - i" arbitrary: i tried hz r asked hz')
  case 0
  then have "\<not> i < length (hz_states hz)" by simp
  with "0.prems"(1,3,4) show ?case by (auto simp: rounds_done)
next
  case (Suc d)
  have i: "i < n" using Suc.hyps(2) by simp
  let ?idx = "circle n start i" let ?s = "hz_states hz ! ?idx"
  have idx: "?idx < n" using i by simp
  have other: "circle n start j \<noteq> ?idx" if "j < n" "j \<noteq> i" for j using circle_inj [OF that(1) i] that(2) by blast
  have fresh: "?idx \<notin> tried"
  proof
    assume "?idx \<in> tried"
    then obtain j where "j < i" "?idx = circle n start j" unfolding Suc.prems(2) by blast
    with other [of j] i show False by simp
  qed
  have later: "?idx \<notin> circle n start ` {i + 1..<n}"
  proof
    assume "?idx \<in> circle n start ` {i + 1..<n}"
    then obtain j where "i + 1 \<le> j" "j < n" "?idx = circle n start j" by (auto simp only: image_iff atLeastLessThan_iff)
    with other [of j] show False by simp
  qed
  have "{i..<n} = insert i {i + 1..<n}" using i by auto
  then have split: "circle n start ` {i..<n} = insert ?idx (circle n start ` {i + 1..<n})" by simp
  note unfold = rounds_ask [where hz = hz and start = start and i = i and tried = tried and op = op, folded Suc.prems(1), OF fresh i, unfolded Let_def]
  have tried: "insert ?idx tried = circle n start ` {..<i + 1}" by (auto simp: Suc.prems(2) lessThan_Suc)
  have d: "d = n - (i + 1)" "i + 1 \<le> n" using Suc.hyps(2) i by simp_all
  show ?case
  proof (cases "cooling (ho_before op i) ?s")
    case True
    with unfold Suc.prems(4) have "failover_rounds op start (i + 1) (insert ?idx tried) hz = (r, asked, hz')" by simp
    note IH = Suc.hyps(1) [OF d(1) Suc.prems(1) tried d(2) this]
    show ?thesis
    proof (intro conjI)
      have "?idx \<notin> set asked" using IH later by blast
      then show "\<forall>j. i \<le> j \<and> j < n \<longrightarrow>
          (circle n start j \<in> set asked \<longrightarrow> \<not> cooling (ho_before op j) (hz_states hz ! circle n start j)) \<and>
          (r = Inl AllUnavailable \<longrightarrow> circle n start j \<in> set asked \<or> cooling (ho_before op j) (hz_states hz ! circle n start j))"
        using IH True by (metis Suc_eq_plus1 Suc_leI le_neq_implies_less)
    qed (use IH split in auto)
  next
    case warm: False
    show ?thesis
    proof (cases "ho_ask op i (cb_url ?s)")
      case (Inr x)
      with unfold warm Suc.prems(4) have "r = Inr x" "asked = [?idx]"
        "hz' = hz\<lparr>hz_states := (hz_states hz)[?idx := succeeded (probe ?s)], hz_current := ?idx\<rparr>" by auto
      then show ?thesis using split Suc.prems(1) warm other by auto
    next
      case (Inl e)
      show ?thesis
      proof (cases "isEndpointError e")
        case False
        with unfold warm Inl Suc.prems(4) have "r = Inl (RequestFailed e)" "asked = [?idx]"
          "hz' = hz\<lparr>hz_states := (hz_states hz)[?idx := probe ?s]\<rparr>" by auto
        then show ?thesis using split Suc.prems(1) warm other by auto
      next
        case True
        let ?hz = "hz\<lparr>hz_states := (hz_states hz)[?idx := failed (ho_after op i) e (probe ?s)]\<rparr>"
        obtain asked' where a: "failover_rounds op start (i + 1) (insert ?idx tried) ?hz = (r, asked', hz')" "asked = ?idx # asked'"
          using unfold warm Inl Suc.prems(4) True by (auto split: prod.splits)
        have "n = length (hz_states ?hz)" by (simp add: Suc.prems(1))
        note IH = Suc.hyps(1) [OF d(1) this tried d(2) a(1)]
        have same: "hz_states ?hz ! circle n start j = hz_states hz ! circle n start j" if "i + 1 \<le> j" "j < n" for j
          using other [OF that(2)] that(1) by simp
        have "?idx \<notin> set asked'" using IH later by blast
        moreover have "hz_states hz' ! k = hz_states hz ! k" if "k < n" "k \<notin> set asked" for k
          using IH that a(2) by simp
        moreover have "(circle n start j \<in> set asked \<longrightarrow> \<not> cooling (ho_before op j) (hz_states hz ! circle n start j)) \<and>
            (r = Inl AllUnavailable \<longrightarrow> circle n start j \<in> set asked \<or> cooling (ho_before op j) (hz_states hz ! circle n start j))"
          if "i \<le> j" "j < n" for j
        proof (cases "j = i")
          case False
          then have j: "i + 1 \<le> j" using that(1) by simp
          have "circle n start j \<in> set asked \<longleftrightarrow> circle n start j \<in> set asked'" using other [OF that(2) False] by (simp add: a(2))
          with IH j that(2) same [OF j that(2)] show ?thesis by metis
        qed (simp add: a(2) warm)
        ultimately show ?thesis using IH split a(2) by auto
      qed
    qed
  qed
qed

text \<open>An answer makes the endpoint that gave it the current one; otherwise the current one stays.\<close>

lemma rounds_current:
  assumes "failover_rounds op start i tried hz = (r, asked, hz')" and "0 < length (hz_states hz)"
  shows "(case r of Inr x \<Rightarrow> asked \<noteq> [] \<and> hz_current hz' = last asked \<and> last asked < length (hz_states hz) \<and>
        cb_status (hz_states hz' ! last asked) = Closed
      | Inl e \<Rightarrow> hz_current hz' = hz_current hz \<and> (e = AllUnavailable \<or> asked \<noteq> []))"
  using assms
proof (induction op start i tried hz arbitrary: r asked hz' rule: failover_rounds.induct)
  case (1 op start i tried hz)
  let ?idx = "circle (length (hz_states hz)) start i" let ?s = "hz_states hz ! ?idx"
  note r = "1.prems"(1) [unfolded failover_rounds.simps [of op start i tried hz] Let_def, folded circle_def]
  show ?case
  proof (cases "i < length (hz_states hz)")
    case i: True
    show ?thesis
    proof (cases "?idx \<in> tried")
      case True
      with r i "1.IH"(1) [OF i circle_def refl True] "1.prems"(2) show ?thesis by simp
    next
      case fresh: False
      show ?thesis
      proof (cases "cooling (ho_before op i) ?s")
        case True
        with r i fresh "1.IH"(2) [OF i circle_def refl fresh True] "1.prems"(2) show ?thesis by simp
      next
        case warm: False
        show ?thesis
        proof (cases "ho_ask op i (cb_url ?s)")
          case (Inr x)
          with r i fresh warm "1.prems"(2) show ?thesis by (auto simp: succeeded_def)
        next
          case (Inl e)
          show ?thesis
          proof (cases "isEndpointError e")
            case True
            let ?hz = "hz\<lparr>hz_states := (hz_states hz)[?idx := failed (ho_after op i) e (probe ?s)]\<rparr>"
            from r i fresh warm Inl True obtain asked' where
              "failover_rounds op start (i + 1) (insert ?idx tried) ?hz = (r, asked', hz')" "asked = ?idx # asked'"
              by (auto split: prod.splits)
            with "1.IH"(3) [OF i circle_def refl fresh warm Inl _ this(1)] True "1.prems"(2) show ?thesis
              by (cases r) auto
          qed (use r i fresh warm Inl in auto)
        qed
      qed
    qed
  qed (use r in auto)
qed

text \<open>What holds of every breaker stays so, if the three updates of a breaker keep it.\<close>

lemma rounds_breakers:
  assumes "failover_rounds op start i tried hz = (r, asked, hz')" and "\<forall>s \<in> set (hz_states hz). P s" and "0 < length (hz_states hz)"
    and "\<And>s. P s \<Longrightarrow> P (probe s)" and "\<And>s. P s \<Longrightarrow> P (succeeded s)" and "\<And>s t e. P s \<Longrightarrow> P (failed t e (probe s))"
  shows "\<forall>s \<in> set (hz_states hz'). P s"
  using assms(1-3)
proof (induction op start i tried hz arbitrary: r asked hz' rule: failover_rounds.induct)
  case (1 op start i tried hz)
  let ?idx = "circle (length (hz_states hz)) start i" let ?s = "hz_states hz ! ?idx"
  note r = "1.prems"(1) [unfolded failover_rounds.simps [of op start i tried hz] Let_def, folded circle_def]
  have s: "P ?s" using "1.prems"(2,3) by simp
  have upd: "\<forall>s \<in> set ((hz_states hz)[?idx := x]). P s" if "P x" for x
    using that "1.prems"(2) set_update_subset_insert [of "hz_states hz" ?idx x] by blast
  show ?case
  proof (cases "i < length (hz_states hz)")
    case i: True
    show ?thesis
    proof (cases "?idx \<in> tried")
      case True
      with r i "1.IH"(1) [OF i circle_def refl True] "1.prems"(2,3) show ?thesis by simp
    next
      case fresh: False
      show ?thesis
      proof (cases "cooling (ho_before op i) ?s")
        case True
        with r i fresh "1.IH"(2) [OF i circle_def refl fresh True] "1.prems"(2,3) show ?thesis by simp
      next
        case warm: False
        show ?thesis
        proof (cases "ho_ask op i (cb_url ?s)")
          case (Inr x)
          with r i fresh warm upd [OF assms(5) [OF assms(4) [OF s]]] show ?thesis by auto
        next
          case (Inl e)
          show ?thesis
          proof (cases "isEndpointError e")
            case True
            let ?hz = "hz\<lparr>hz_states := (hz_states hz)[?idx := failed (ho_after op i) e (probe ?s)]\<rparr>"
            from r i fresh warm Inl True obtain asked' where
              a: "failover_rounds op start (i + 1) (insert ?idx tried) ?hz = (r, asked', hz')"
              by (auto split: prod.splits)
            show ?thesis
              by (rule "1.IH"(3) [OF i circle_def refl fresh warm Inl _ a]) (use True upd [OF assms(6) [OF s]] "1.prems"(3) in simp_all)
          qed (use r i fresh warm Inl upd [OF assms(4) [OF s]] in auto)
        qed
      qed
    qed
  qed (use r "1.prems"(2) in auto)
qed

definition breaker_ok :: "CircuitBreakerState \<Rightarrow> bool" where
  "breaker_ok s \<longleftrightarrow> (case cb_status s of
      Closed \<Rightarrow> cb_failures s < maxFailures \<and> cb_cooldown s = None
    | _ \<Rightarrow> maxFailures \<le> cb_failures s \<and> cb_cooldown s \<noteq> None)"

definition client_ok :: "horizon_client \<Rightarrow> bool" where
  "client_ok hz \<longleftrightarrow> (\<forall>s \<in> set (hz_states hz). breaker_ok s) \<and> hz_current hz < length (hz_states hz)"

lemma breaker_updates:
  "breaker_ok s \<Longrightarrow> breaker_ok (probe s)" "breaker_ok (succeeded s)" "breaker_ok s \<Longrightarrow> breaker_ok (failed t e (probe s))"
  by (auto simp: breaker_ok_def probe_def succeeded_def failed_def Let_def maxFailures_def split: breaker.splits)

lemma failover_ok:
  assumes "client_ok hz"
  shows "client_ok (snd (snd (withFailover op hz)))"
proof -
  obtain r asked hz' where f: "failover_rounds op (hz_current hz) 0 {} hz = (r, asked, hz')" by (metis prod.exhaust)
  have n: "0 < length (hz_states hz)" using assms by (auto simp: client_ok_def)
  have "length (hz_states hz') = length (hz_states hz)" using rounds_spec [OF refl _ _ f] by simp
  moreover have "\<forall>s \<in> set (hz_states hz'). breaker_ok s"
    by (rule rounds_breakers [OF f _ n]) (use assms breaker_updates in \<open>auto simp: client_ok_def\<close>)
  moreover have "hz_current hz' < length (hz_states hz)"
    using rounds_current [OF f n] assms by (auto simp: client_ok_def split: sum.splits)
  ultimately show ?thesis by (simp add: withFailover_def f client_ok_def)
qed

lemma endpoints_nonempty: "configured_endpoints urls url \<noteq> []"
  by (simp add: configured_endpoints_def Let_def)

lemma init_ok: "endpoints \<noteq> [] \<Longrightarrow> client_ok (onModuleInit endpoints)"
  by (auto simp: client_ok_def onModuleInit_def breaker_ok_def maxFailures_def)

lemma one_primary:
  assumes "hz_current hz < length (hz_states hz)"
  shows "map es_url (filter es_primary (getEndpointStatuses hz)) = [cb_url (hz_states hz ! hz_current hz)]"
proof -
  have "map es_url (filter es_primary (map (\<lambda>(i, s). \<lparr>es_url = cb_url s, es_status = cb_status s, es_failures = cb_failures s,
      es_last = cb_last s, es_primary = (i = k)\<rparr>) (zip [m..<m + length ss] ss))) =
      (if m \<le> k \<and> k < m + length ss then [cb_url (ss ! (k - m))] else [])" for m k ss
  proof (induction ss arbitrary: m)
    case (Cons s ss)
    have "[m..<m + length (s # ss)] = m # [Suc m..<Suc m + length ss]" by (simp add: upt_conv_Cons del: upt_Suc)
    moreover have "m \<le> k \<and> k < m + length (s # ss) \<longleftrightarrow> k = m \<or> Suc m \<le> k \<and> k < Suc m + length ss" by auto
    ultimately show ?case using Cons [of "Suc m"]
      by (cases "k = m") (simp_all add: nth_Cons' split: if_splits del: upt_Suc)
  qed simp
  from this [of "hz_current hz" 0 "hz_states hz"] assms show ?thesis by (simp add: getEndpointStatuses_def)
qed

lemma cooling_all:
  assumes "client_ok hz" and "\<And>s j. s \<in> set (hz_states hz) \<Longrightarrow> cooling (ho_before op j) s"
  shows "withFailover op hz = (Inl AllUnavailable, [], hz)"
proof -
  obtain r asked hz' where f: "failover_rounds op (hz_current hz) 0 {} hz = (r, asked, hz')" by (metis prod.exhaust)
  have n: "0 < length (hz_states hz)" using assms(1) by (auto simp: client_ok_def)
  let ?n = "length (hz_states hz)"
  have s: "length (hz_states hz') = ?n" "set asked \<subseteq> circle ?n (hz_current hz) ` {0..<?n}"
    "\<forall>k < ?n. k \<notin> set asked \<longrightarrow> hz_states hz' ! k = hz_states hz ! k"
    "\<forall>j. 0 \<le> j \<and> j < ?n \<longrightarrow> circle ?n (hz_current hz) j \<in> set asked \<longrightarrow>
       \<not> cooling (ho_before op j) (hz_states hz ! circle ?n (hz_current hz) j)"
    using rounds_spec [OF refl _ _ f] by auto
  have "circle ?n (hz_current hz) j \<notin> set asked" if "j < ?n" for j
    using s(4) that assms(2) [of "hz_states hz ! circle ?n (hz_current hz) j" j] n by auto
  moreover have "\<exists>j < ?n. k = circle ?n (hz_current hz) j" if "k \<in> set asked" for k
    using in_circle [OF subsetD [OF s(2) that]] by blast
  ultimately have "k \<notin> set asked" for k by blast
  then have a: "asked = []" by (metis list.set_intros(1) neq_Nil_conv)
  have "r = Inl AllUnavailable \<and> hz_current hz' = hz_current hz"
    using rounds_current [OF f n, unfolded a] by (cases r) simp_all
  moreover have "hz_states hz' = hz_states hz" using s(1,3) unfolding a by (intro nth_equalityI) simp_all
  moreover note a
  ultimately show ?thesis by (simp add: withFailover_def f)
qed

text \<open>A request that fails at every endpoint.\<close>

lemma rounds_fail:
  assumes "n = length (hz_states hz)" and "tried = circle n start ` {..<i}" and "i \<le> n"
    and "\<forall>j. i \<le> j \<and> j < n \<longrightarrow> cb_status (hz_states hz ! circle n start j) = Closed" and "isEndpointError e"
    and "op = \<lparr>ho_ask = (\<lambda>_ _. Inl e), ho_before = b, ho_after = (\<lambda>_. t)\<rparr>"
    and "hz' = snd (snd (failover_rounds op start i tried hz))"
  shows "length (hz_states hz') = n \<and> hz_current hz' = hz_current hz \<and>
    (\<forall>j. i \<le> j \<and> j < n \<longrightarrow> hz_states hz' ! circle n start j = failed t e (hz_states hz ! circle n start j)) \<and>
    (\<forall>j < i. hz_states hz' ! circle n start j = hz_states hz ! circle n start j)"
  using assms(1-4,7)
proof (induction "n - i" arbitrary: i tried hz hz')
  case 0
  then have "\<not> i < length (hz_states hz)" by simp
  with "0.prems"(1,3,5) show ?case by (auto simp: rounds_done)
next
  case (Suc d)
  have i: "i < n" using Suc.hyps(2) by simp
  let ?idx = "circle n start i" let ?s = "hz_states hz ! ?idx"
  have idx: "?idx < n" using i by simp
  have other: "circle n start j \<noteq> ?idx" if "j < n" "j \<noteq> i" for j using circle_inj [OF that(1) i] that(2) by blast
  have fresh: "?idx \<notin> tried"
  proof
    assume "?idx \<in> tried"
    then obtain j where "j < i" "?idx = circle n start j" unfolding Suc.prems(2) by blast
    with other [of j] i show False by simp
  qed
  have closed: "cb_status ?s = Closed" using Suc.prems(4) i by simp
  let ?hz = "hz\<lparr>hz_states := (hz_states hz)[?idx := failed t e ?s]\<rparr>"
  have n: "n = length (hz_states ?hz)" by (simp add: Suc.prems(1))
  have tried: "insert ?idx tried = circle n start ` {..<i + 1}" by (auto simp: Suc.prems(2) lessThan_Suc)
  have d: "d = n - (i + 1)" "i + 1 \<le> n" using Suc.hyps(2) i by simp_all
  have same: "hz_states ?hz ! circle n start j = hz_states hz ! circle n start j" if "j < n" "j \<noteq> i" for j
    using other [OF that] by simp
  have "\<forall>j. i + 1 \<le> j \<and> j < n \<longrightarrow> cb_status (hz_states ?hz ! circle n start j) = Closed"
    using same Suc.prems(4) by simp
  moreover have "failover_rounds op start i tried hz =
      (let (r, asked, hz') = failover_rounds op start (i + 1) (insert ?idx tried) ?hz in (r, ?idx # asked, hz'))"
    using closed assms(5) unfolding assms(6)
    by (subst rounds_ask) (simp_all add: Suc.prems(1) [symmetric] fresh i cooling_def probe_def Let_def)
  then have "hz' = snd (snd (failover_rounds op start (i + 1) (insert ?idx tried) ?hz))"
    by (simp add: Suc.prems(5) Let_def split_def)
  ultimately have IH: "length (hz_states hz') = n" "hz_current hz' = hz_current ?hz"
      "\<forall>j. i + 1 \<le> j \<and> j < n \<longrightarrow> hz_states hz' ! circle n start j = failed t e (hz_states ?hz ! circle n start j)"
      "\<forall>j < i + 1. hz_states hz' ! circle n start j = hz_states ?hz ! circle n start j"
    using Suc.hyps(1) [OF d(1) n tried d(2)] by blast+
  have "hz_states hz' ! circle n start j = failed t e (hz_states hz ! circle n start j)" if "i \<le> j" "j < n" for j
  proof (cases "j = i")
    case True
    then show ?thesis using IH(4) idx Suc.prems(1) by simp
  next
    case False
    then show ?thesis using IH(3) same [of j] that by simp
  qed
  moreover have "hz_states hz' ! circle n start j = hz_states hz ! circle n start j" if "j < i" for j
    using IH(4) same [of j] that i by simp
  ultimately show ?case using IH(1,2) by simp
qed

lemma failover_fails:
  assumes "op = \<lparr>ho_ask = (\<lambda>_ _. Inl e), ho_before = b, ho_after = (\<lambda>_. t)\<rparr>" and "hz_states hz \<noteq> []"
    and "\<forall>s \<in> set (hz_states hz). cb_status s = Closed" and "isEndpointError e"
  shows "snd (snd (withFailover op hz)) = hz\<lparr>hz_states := map (failed t e) (hz_states hz)\<rparr>"
proof -
  let ?n = "length (hz_states hz)" let ?hz = "snd (snd (withFailover op hz))"
  have n: "0 < ?n" using assms(2) by simp
  have "\<forall>j. 0 \<le> j \<and> j < ?n \<longrightarrow> cb_status (hz_states hz ! circle ?n (hz_current hz) j) = Closed" using assms(3) n by simp
  from rounds_fail [OF refl _ _ this assms(4,1) refl, of "{}"] have
    f: "length (hz_states ?hz) = ?n" "hz_current ?hz = hz_current hz"
      "\<forall>j. 0 \<le> j \<and> j < ?n \<longrightarrow> hz_states ?hz ! circle ?n (hz_current hz) j = failed t e (hz_states hz ! circle ?n (hz_current hz) j)"
    by (simp_all add: withFailover_def)
  have "hz_states ?hz ! k = failed t e (hz_states hz ! k)" if "k < ?n" for k
  proof -
    have "k \<in> circle ?n (hz_current hz) ` {..<?n}" using circle_onto [OF n] that by blast
    then obtain j where "j < ?n" "k = circle ?n (hz_current hz) j" by (elim imageE) (simp only: lessThan_iff)
    then show ?thesis using f(3) by simp
  qed
  then have "hz_states ?hz = map (failed t e) (hz_states hz)" using f(1) by (simp add: list_eq_iff_nth_eq)
  then show ?thesis using f(2) by simp
qed

section \<open>Properties of the failover\<close>

text \<open>
  What a request means: the replies of the endpoints whose turn comes are read until one is decisive,
  an answer or an error that is not the endpoint's own. An error is the endpoint's own when the SDK
  reports a network error, or when it carries no result codes and has the status 429 or at least 500,
  or a status that decides nothing and a message that speaks of the connection.
\<close>

definition speaks_of_connection :: "endpoint_error \<Rightarrow> bool" where
  "speaks_of_connection e \<longleftrightarrow> (case ee_message e of None \<Rightarrow> False
     | Some m \<Rightarrow> list_ex (str_includes (to_lower m))
         [''timeout'', ''econnrefused'', ''econnreset'', ''network'', ''socket'', ''fetch'', ''dns'', ''enotfound'', ''eai_again''])"

definition endpoint_fault :: "endpoint_error \<Rightarrow> bool" where
  "endpoint_fault e \<longleftrightarrow> ee_network e \<or>
     \<not> ee_codes e \<and> (case ee_status e of
        None \<Rightarrow> speaks_of_connection e
      | Some s \<Rightarrow> s = 429 \<or> 500 \<le> s \<or> s < 400 \<and> speaks_of_connection e)"

definition is_decisive :: "endpoint_error + 'a \<Rightarrow> bool" where
  "is_decisive reply \<longleftrightarrow> (case reply of Inr _ \<Rightarrow> True | Inl e \<Rightarrow> \<not> endpoint_fault e)"

definition circle_verdict :: "(endpoint_error + 'a) list \<Rightarrow> failover_error + 'a" where
  "circle_verdict replies = (case find is_decisive replies of
      None \<Rightarrow> Inl AllUnavailable
    | Some (Inr x) \<Rightarrow> Inr x
    | Some (Inl e) \<Rightarrow> Inl (RequestFailed e))"

definition up_to_decisive :: "(endpoint_error + 'a) list \<Rightarrow> nat" where
  "up_to_decisive replies = Suc (length (takeWhile (\<lambda>r. \<not> is_decisive r) replies))"

lemma includes_nothing: "t \<noteq> [] \<Longrightarrow> \<not> str_includes [] t"
  by (simp add: str_includes_def)

lemma endpoint_fault_eq: "isEndpointError e = endpoint_fault e"
proof -
  have "(\<exists>t \<in> set [''timeout'', ''econnrefused'', ''econnreset'', ''network'', ''socket'', ''fetch'', ''dns'',
      ''enotfound'', ''eai_again'']. str_includes (to_lower (case ee_message e of Some m \<Rightarrow> m | None \<Rightarrow> [])) t) =
      speaks_of_connection e"
    by (cases "ee_message e") (simp_all add: speaks_of_connection_def includes_nothing to_lower_def)
  then show ?thesis unfolding isEndpointError_def endpoint_fault_def by (auto split: option.splits)
qed

lemma circle_verdict_simps [simp]:
  "circle_verdict [] = Inl AllUnavailable" "up_to_decisive [] = 1"
  "circle_verdict (Inr x # rs) = Inr x" "up_to_decisive (Inr x # rs) = 1"
  "circle_verdict (Inl e # rs) = (if endpoint_fault e then circle_verdict rs else Inl (RequestFailed e))"
  "up_to_decisive (Inl e # rs) = (if endpoint_fault e then Suc (up_to_decisive rs) else 1)"
  by (simp_all add: circle_verdict_def up_to_decisive_def is_decisive_def)

lemma rounds_reference:
  assumes "n = length (hz_states hz)" and "tried = circle n start ` {..<i}" and "i \<le> n"
    and "turns = filter (\<lambda>j. \<not> cooling (ho_before op j) (hz_states hz ! circle n start j)) [i..<n]"
    and "replies = map (\<lambda>j. ho_ask op j (cb_url (hz_states hz ! circle n start j))) turns"
  shows "fst (failover_rounds op start i tried hz) = circle_verdict replies \<and>
    fst (snd (failover_rounds op start i tried hz)) = map (circle n start) (take (up_to_decisive replies) turns)"
  using assms
proof (induction "n - i" arbitrary: i tried hz turns replies)
  case 0
  then have "\<not> i < length (hz_states hz)" by simp
  with "0.prems" show ?case by (simp add: rounds_done)
next
  case (Suc d)
  have i: "i < n" using Suc.hyps(2) by simp
  let ?idx = "circle n start i" let ?s = "hz_states hz ! ?idx"
  let ?turns = "filter (\<lambda>j. \<not> cooling (ho_before op j) (hz_states hz ! circle n start j)) [i + 1..<n]"
  let ?replies = "map (\<lambda>j. ho_ask op j (cb_url (hz_states hz ! circle n start j))) ?turns"
  have idx: "?idx < n" using i by simp
  have other: "circle n start j \<noteq> ?idx" if "j < n" "j \<noteq> i" for j using circle_inj [OF that(1) i] that(2) by blast
  have fresh: "?idx \<notin> tried"
  proof
    assume "?idx \<in> tried"
    then obtain j where "j < i" "?idx = circle n start j" unfolding Suc.prems(2) by blast
    with other [of j] i show False by simp
  qed
  have turns: "turns = (if cooling (ho_before op i) ?s then ?turns else i # ?turns)"
    unfolding Suc.prems(4) using i by (simp add: upt_conv_Cons)
  have tried: "insert ?idx tried = circle n start ` {..<i + 1}" by (auto simp: Suc.prems(2) lessThan_Suc)
  have d: "d = n - (i + 1)" "i + 1 \<le> n" using Suc.hyps(2) i by simp_all
  note unfold = rounds_ask [where hz = hz and start = start and i = i and tried = tried and op = op, folded Suc.prems(1), OF fresh i, unfolded Let_def]
  show ?case
  proof (cases "cooling (ho_before op i) ?s")
    case True
    with Suc.hyps(1) [OF d(1) Suc.prems(1) tried d(2) refl refl] unfold show ?thesis by (simp add: Suc.prems(5) turns)
  next
    case warm: False
    then have replies: "replies = ho_ask op i (cb_url ?s) # ?replies" by (simp add: Suc.prems(5) turns)
    show ?thesis
    proof (cases "ho_ask op i (cb_url ?s)")
      case (Inr x)
      with unfold warm show ?thesis by (simp add: replies turns)
    next
      case (Inl e)
      show ?thesis
      proof (cases "endpoint_fault e")
        case False
        with unfold warm Inl show ?thesis by (simp add: replies turns endpoint_fault_eq)
      next
        case True
        let ?hz = "hz\<lparr>hz_states := (hz_states hz)[?idx := failed (ho_after op i) e (probe ?s)]\<rparr>"
        have n: "n = length (hz_states ?hz)" by (simp add: Suc.prems(1))
        have same: "hz_states ?hz ! circle n start j = hz_states hz ! circle n start j" if "j \<in> set [i + 1..<n]" for j
          using other [of j] that by simp
        have t: "?turns = filter (\<lambda>j. \<not> cooling (ho_before op j) (hz_states ?hz ! circle n start j)) [i + 1..<n]"
          by (rule filter_cong [OF refl]) (simp only: same)
        have r: "?replies = map (\<lambda>j. ho_ask op j (cb_url (hz_states ?hz ! circle n start j))) ?turns"
          by (rule map_cong [OF refl]) (simp only: same set_filter mem_Collect_eq)
        from Suc.hyps(1) [OF d(1) n tried d(2) t r] unfold warm Inl True
        show ?thesis by (simp add: replies turns endpoint_fault_eq split_def Let_def)
      qed
    qed
  qed
qed

text \<open>C32: Every request of the client ends, and with this: the endpoints get their turns in a circle from
  the current one, those with an open breaker that is cooling down excepted; the request ends with
  the first answer, or with the first error that is not the endpoint's own, and as unavailable when
  no reply of the circle is either; the endpoints asked are exactly those up to the decisive reply,
  each once, so with n endpoints there are at most n requests; and after an answer the endpoint that
  gave it, the last one asked, is the current one with a closed breaker, else the current one stays.\<close>

theorem failover_ends:
  "let n = length (hz_states hz);
       (r, asked, hz') = withFailover op hz;
       turns = filter (\<lambda>j. \<not> cooling (ho_before op j) (hz_states hz ! circle n (hz_current hz) j)) [0..<n];
       replies = map (\<lambda>j. ho_ask op j (cb_url (hz_states hz ! circle n (hz_current hz) j))) turns
   in r = circle_verdict replies \<and> asked = map (circle n (hz_current hz)) (take (up_to_decisive replies) turns) \<and>
      distinct asked \<and> length asked \<le> n \<and>
      (case r of Inr _ \<Rightarrow> hz_current hz' = last asked \<and> cb_status (hz_states hz' ! last asked) = Closed
       | Inl _ \<Rightarrow> hz_current hz' = hz_current hz)"
proof -
  let ?n = "length (hz_states hz)"
  obtain r asked hz' where f: "failover_rounds op (hz_current hz) 0 {} hz = (r, asked, hz')" by (metis prod.exhaust)
  have once: "distinct asked" using rounds_spec [OF refl _ _ f] by simp
  note ref = rounds_reference [OF refl _ _ refl refl, where hz = hz and tried = "{}" and start = "hz_current hz" and i = 0 and op = op,
      simplified, unfolded f, simplified]
  have bound: "length asked \<le> ?n"
    unfolding conjunct2 [OF ref] by (metis (lifting) diff_zero length_filter_le length_map length_take length_upt min.coboundedI1 min.commute)
  have current: "case r of Inr _ \<Rightarrow> hz_current hz' = last asked \<and> cb_status (hz_states hz' ! last asked) = Closed
      | Inl _ \<Rightarrow> hz_current hz' = hz_current hz"
  proof (cases "?n = 0")
    case True
    with f have "r = Inl AllUnavailable" "hz' = hz" by (simp_all add: rounds_done)
    then show ?thesis by simp
  next
    case False
    then show ?thesis using rounds_current [OF f] by (cases r) auto
  qed
  show ?thesis unfolding Let_def withFailover_def f prod.case
    by (intro conjI conjunct1 [OF ref] conjunct2 [OF ref] once bound current)
qed

text \<open>The breakers keep their invariant from start-up on, whatever the settings and whatever is asked:
  a closed breaker has fewer than three failures and no cool-down, an open or half-open one at least
  three and a cool-down; and exactly one endpoint is reported as the current one.\<close>

theorem breakers_sound:
  "client_ok (fold (\<lambda>op hz. snd (snd (withFailover op hz))) ops (onModuleInit (configured_endpoints urls url))) \<and>
   length (filter es_primary (getEndpointStatuses
     (fold (\<lambda>op hz. snd (snd (withFailover op hz))) ops (onModuleInit (configured_endpoints urls url))))) = 1"
proof -
  have "client_ok (fold (\<lambda>op hz. snd (snd (withFailover op hz))) ops hz)" if "client_ok hz" for hz
    using that by (induction ops arbitrary: hz) (auto intro: failover_ok)
  from this [OF init_ok [OF endpoints_nonempty]] show ?thesis
    using arg_cong [OF one_primary, of _ length] by (auto simp: client_ok_def)
qed

text \<open>Looking up a transaction that does not exist takes Horizon away from everybody: the SDK reports a
  missing transaction as a kind of network error, which the client checks first and takes for a
  failure of the endpoint; three such lookups open every breaker, and for the next thirty seconds
  every request, whatever it asks, is refused without asking any endpoint.\<close>

theorem missing_lookups_open_breakers:
  assumes "hz_states hz \<noteq> []" and "\<forall>s \<in> set (hz_states hz). cb_status s = Closed \<and> cb_failures s = 0" and "hz_current hz < length (hz_states hz)"
    and "ee_network e" and "ee_status e = Some 404" and "lookup = \<lparr>ho_ask = (\<lambda>_ _. Inl e), ho_before = b, ho_after = (\<lambda>_. t)\<rparr>"
    and "0 \<le> t" and "\<forall>j. ho_before op j < t + 30000"
  shows "let after = (\<lambda>hz. snd (snd (withFailover lookup hz))); hz3 = after (after (after hz))
    in withFailover op hz3 = (Inl AllUnavailable, [], hz3)"
proof -
  have e: "isEndpointError e" using assms(4) by (simp add: isEndpointError_def)
  let ?f = "\<lambda>hz. hz\<lparr>hz_states := map (failed t e) (hz_states hz)\<rparr>"
  have step: "cb_status (failed t e s) = (if n = 2 then Open else Closed) \<and> cb_failures (failed t e s) = n + 1 \<and>
      (n = 2 \<longrightarrow> cb_cooldown (failed t e s) = Some (t + 30000))"
    if "cb_status s = Closed \<and> cb_failures s = n" "n \<le> 2" for s n
    using that by (simp add: failed_def Let_def maxFailures_def cooldownMs_def)
  have c1: "\<forall>s \<in> set (hz_states (?f hz)). cb_status s = Closed \<and> cb_failures s = 1"
    using assms(2) step [of _ 0] by simp
  then have c2: "\<forall>s \<in> set (hz_states (?f (?f hz))). cb_status s = Closed \<and> cb_failures s = 2"
    using step [of _ 1] by simp
  then have c3: "\<forall>s \<in> set (hz_states (?f (?f (?f hz)))). cb_status s = Open \<and> cb_failures s = 3 \<and> cb_cooldown s = Some (t + 30000)"
    using step [of _ 2] by simp
  have "snd (snd (withFailover lookup hz)) = ?f hz" using assms(1,2) by (intro failover_fails [OF assms(6) _ _ e]) auto
  moreover have "snd (snd (withFailover lookup (?f hz))) = ?f (?f hz)" using assms(1) c1 by (intro failover_fails [OF assms(6) _ _ e]) auto
  moreover have "snd (snd (withFailover lookup (?f (?f hz)))) = ?f (?f (?f hz))"
    using assms(1) c2 by (intro failover_fails [OF assms(6) _ _ e]) auto
  moreover have "withFailover op (?f (?f (?f hz))) = (Inl AllUnavailable, [], ?f (?f (?f hz)))"
  proof (rule cooling_all)
    show "client_ok (?f (?f (?f hz)))"
      using c3 assms(3) unfolding client_ok_def breaker_ok_def maxFailures_def by (auto split: breaker.split)
    show "cooling (ho_before op j) s" if "s \<in> set (hz_states (?f (?f (?f hz))))" for s j
      using c3 that assms(7,8) by (auto simp: cooling_def)
  qed
  ultimately show ?thesis by (simp only: Let_def)
qed

definition demo_client :: horizon_client where "demo_client = onModuleInit [''https://a'', ''https://b'']"

definition missing_transaction :: endpoint_error where
  "missing_transaction = \<lparr>ee_network = True, ee_codes = False, ee_status = Some 404, ee_message = Some ''Not Found''\<rparr>"

definition demo_lookup :: "string horizon_op" where
  "demo_lookup = \<lparr>ho_ask = (\<lambda>_ _. Inl missing_transaction), ho_before = (\<lambda>_. 0), ho_after = (\<lambda>_. 0)\<rparr>"

theorem missing_lookups_open_breakers_witness:
  "let after = (\<lambda>hz. snd (snd (withFailover demo_lookup hz))); hz3 = after (after (after demo_client))
   in withFailover \<lparr>ho_ask = (\<lambda>_ _. Inr ''root''), ho_before = (\<lambda>_. 29999), ho_after = (\<lambda>_. 29999)\<rparr> hz3 = (Inl AllUnavailable, [], hz3)"
  by (rule missing_lookups_open_breakers [OF _ _ _ _ _ demo_lookup_def])
    (simp_all add: demo_client_def onModuleInit_def missing_transaction_def)

section \<open>Relaying a signed repayment\<close>

text \<open>
  Parsing, submission and the lookup of the k-th attempt: the ledger of the transaction, or nothing
  when the lookup throws.
\<close>

record relay_env =
  ry_parse :: "string \<Rightarrow> transaction option"
  ry_submit :: "transaction \<Rightarrow> horizon_error + string"
  ry_ledger :: "string \<Rightarrow> nat \<Rightarrow> int option"

record relay_outcome =
  ro_result :: "string result"
  ro_relayed :: "transaction option"
  ro_lookups :: nat
  ro_waited :: int

definition parseTransaction_r :: "relay_env \<Rightarrow> string \<Rightarrow> transaction result" where
  "parseTransaction_r env xdr =
     (case ry_parse env xdr of
        None \<Rightarrow> Inl (bad_request ''TRANSACTION_INVALID_XDR'')
      | Some (FeeBumpTx _ _) \<Rightarrow> Inl (bad_request ''TRANSACTION_FEE_BUMP_NOT_SUPPORTED'')
      | Some (PlainTx t) \<Rightarrow> Inr (PlainTx t))"

definition handleHorizonError_r :: "horizon_error \<Rightarrow> exn" where
  "handleHorizonError_r e =
     (case he_codes e of
        Some _ \<Rightarrow> bad_request ''STELLAR_TRANSACTION_FAILED''
      | None \<Rightarrow>
          let m = to_lower (case he_message e of Some m \<Rightarrow> m | None \<Rightarrow> ''Unknown error'')
          in if str_includes m ''timeout'' \<or> str_includes m ''network'' then unavailable ''STELLAR_NETWORK_UNAVAILABLE''
             else internal_error ''STELLAR_SUBMISSION_FAILED'')"

definition submitToHorizon :: "relay_env \<Rightarrow> transaction \<Rightarrow> string result" where
  "submitToHorizon env t = (case ry_submit env t of Inl e \<Rightarrow> Inl (handleHorizonError_r e) | Inr h \<Rightarrow> Inr h)"

text \<open>Polling from an attempt on: the outcome, the lookups made and the milliseconds waited.\<close>

function confirm_from :: "(nat \<Rightarrow> int option) \<Rightarrow> nat \<Rightarrow> int \<Rightarrow> nat \<Rightarrow> unit result \<times> nat \<times> int" where
  "confirm_from ledger maxRetries delay attempt =
     (if attempt \<le> maxRetries
      then if (case ledger attempt of Some l \<Rightarrow> 0 < l | None \<Rightarrow> False) then (Inr (), 1, 0)
           else let (r, n, w) = confirm_from ledger maxRetries delay (attempt + 1)
                in (r, n + 1, (if attempt < maxRetries then delay else 0) + w)
      else (Inl (unavailable ''TRANSACTION_CONFIRMATION_TIMEOUT''), 0, 0))"
  by pat_completeness auto
termination by (relation "measure (\<lambda>(ledger, maxRetries, delay, attempt). maxRetries + 1 - attempt)") auto

declare confirm_from.simps [simp del]

definition waitForLedgerConfirmation :: "relay_env \<Rightarrow> string \<Rightarrow> unit result \<times> nat \<times> int" where
  "waitForLedgerConfirmation env hash = confirm_from (ry_ledger env hash) 30 2000 1"

definition submitRepayment :: "relay_env \<Rightarrow> string \<Rightarrow> relay_outcome" where
  "submitRepayment env xdr =
     (let stop = (\<lambda>r t. \<lparr>ro_result = r, ro_relayed = t, ro_lookups = 0, ro_waited = 0\<rparr>)
      in case parseTransaction_r env xdr of
           Inl e \<Rightarrow> stop (Inl e) None
         | Inr t \<Rightarrow>
             (case submitToHorizon env t of
                Inl e \<Rightarrow> stop (Inl e) (Some t)
              | Inr h \<Rightarrow>
                  let (r, n, w) = waitForLedgerConfirmation env h
                  in \<lparr>ro_result = (case r of Inl e \<Rightarrow> Inl e | Inr _ \<Rightarrow> Inr h), ro_relayed = Some t, ro_lookups = n, ro_waited = w\<rparr>))"

lemma confirm_bounds:
  assumes "confirm_from ledger m delay k = (r, n, w)" and "0 \<le> delay" and "1 \<le> k" and "k \<le> m + 1"
  shows "n \<le> m + 1 - k \<and> 0 \<le> w \<and> w \<le> delay * int (m - k) \<and>
    (r = Inr () \<longleftrightarrow> (\<exists>j \<ge> k. j \<le> m \<and> (\<exists>l > 0. ledger j = Some l))) \<and>
    (r \<noteq> Inr () \<longrightarrow> r = Inl (unavailable ''TRANSACTION_CONFIRMATION_TIMEOUT''))"
  using assms
proof (induction ledger m delay k arbitrary: r n w rule: confirm_from.induct)
  case (1 ledger m delay k)
  show ?case
  proof (cases "k \<le> m \<and> \<not> (case ledger k of Some l \<Rightarrow> 0 < l | None \<Rightarrow> False)")
    case True
    obtain r' n' w' where c: "confirm_from ledger m delay (k + 1) = (r', n', w')" by (metis prod.exhaust)
    with "1.prems"(1) True have e: "r = r'" "n = n' + 1" "w = (if k < m then delay else 0) + w'"
      by (simp_all add: confirm_from.simps [of ledger m delay k])
    have IH: "n' \<le> m + 1 - (k + 1) \<and> 0 \<le> w' \<and> w' \<le> delay * int (m - (k + 1)) \<and>
        (r' = Inr () \<longleftrightarrow> (\<exists>j \<ge> k + 1. j \<le> m \<and> (\<exists>l > 0. ledger j = Some l))) \<and>
        (r' \<noteq> Inr () \<longrightarrow> r' = Inl (unavailable ''TRANSACTION_CONFIRMATION_TIMEOUT''))"
      using "1.IH" [OF _ _ c "1.prems"(2)] True by simp
    have "w \<le> delay * int (m - k)"
    proof (cases "k < m")
      case True
      then have "delay * int (m - k) = delay + delay * int (m - (k + 1))" by (simp add: algebra_simps of_nat_diff)
      moreover have "w' \<le> delay * int (m - (k + 1))" using IH by blast
      ultimately show ?thesis using e(3) True by simp
    qed (use IH e(3) in simp)
    moreover have "(\<exists>j \<ge> k. j \<le> m \<and> (\<exists>l > 0. ledger j = Some l)) \<longleftrightarrow> (\<exists>j \<ge> k + 1. j \<le> m \<and> (\<exists>l > 0. ledger j = Some l))"
    proof -
      have "\<not> (\<exists>l > 0. ledger k = Some l)" using True by (auto split: option.splits)
      then show ?thesis by (metis Suc_eq_plus1 Suc_leD le_antisym not_less_eq_eq)
    qed
    moreover have "n \<le> m + 1 - k" using conjunct1 [OF IH] e(2) conjunct1 [OF True] by linarith
    moreover have w': "0 \<le> w'" using IH by blast
    then have "0 \<le> w" unfolding e(3) using add_nonneg_nonneg [OF "1.prems"(2) w'] by simp
    ultimately show ?thesis using IH e(1) by simp
  next
    case False
    show ?thesis
    proof (cases "k \<le> m")
      case True
      with False obtain l where "ledger k = Some l" "0 < l" by (auto split: option.splits)
      with "1.prems"(1) True show ?thesis by (auto simp: confirm_from.simps [of ledger m delay k] "1.prems"(2))
    next
      case False
      with "1.prems" show ?thesis by (auto simp: confirm_from.simps [of ledger m delay k])
    qed
  qed
qed

text \<open>Submitting a signed repayment ends: after at most thirty lookups and 58 seconds of waiting the
  call answers; with the transaction's hash exactly when Horizon accepted it and one of the thirty
  lookups showed it in a ledger; and with the confirmation timeout only for a transaction that was
  handed to the network, whose outcome is then unknown to the caller.\<close>

theorem repayment_submission_ends:
  "ro_lookups (submitRepayment env xdr) \<le> 30 \<and> ro_waited (submitRepayment env xdr) \<le> 58000 \<and>
   ((\<exists>h. ro_result (submitRepayment env xdr) = Inr h) \<longleftrightarrow>
     (\<exists>t h k l. parseTransaction_r env xdr = Inr t \<and> ry_submit env t = Inr h \<and> 1 \<le> k \<and> k \<le> 30 \<and>
        ry_ledger env h k = Some l \<and> 0 < l)) \<and>
   (ro_result (submitRepayment env xdr) = Inl (unavailable ''TRANSACTION_CONFIRMATION_TIMEOUT'') \<longrightarrow>
     (\<exists>t. ro_relayed (submitRepayment env xdr) = Some t))"
proof (cases "parseTransaction_r env xdr")
  case (Inl e)
  then show ?thesis
    by (auto simp: submitRepayment_def parseTransaction_r_def Let_def split: option.splits transaction.splits)
next
  case p: (Inr t)
  show ?thesis
  proof (cases "ry_submit env t")
    case (Inl e)
    with p show ?thesis by (auto simp: submitRepayment_def submitToHorizon_def Let_def)
  next
    case (Inr h)
    obtain r n w where c: "confirm_from (ry_ledger env h) 30 2000 1 = (r, n, w)" by (metis prod.exhaust)
    from confirm_bounds [OF c] have b: "n \<le> 30" "w \<le> 58000" "r = Inr () \<longleftrightarrow> (\<exists>j \<ge> 1. j \<le> 30 \<and> (\<exists>l > 0. ry_ledger env h j = Some l))" by simp_all
    have o: "submitRepayment env xdr = \<lparr>ro_result = (case r of Inl e \<Rightarrow> Inl e | Inr _ \<Rightarrow> Inr h), ro_relayed = Some t, ro_lookups = n, ro_waited = w\<rparr>"
      by (simp add: submitRepayment_def p submitToHorizon_def Inr waitForLedgerConfirmation_def c [simplified])
    have "(\<exists>h'. ro_result (submitRepayment env xdr) = Inr h') \<longleftrightarrow> r = Inr ()" by (cases r) (simp_all add: o)
    with b p Inr show ?thesis by (auto simp: o)
  qed
qed

text \<open>C33: The repayment route relays what the submission route refuses: a transaction that fails the
  allowlist of every type is never handed to Horizon by the submission service, and is handed to it
  as it is by \<open>POST /loans/:id/repay\<close>, which looks at neither the loan nor the caller and records
  nothing for the status job.\<close>

theorem repay_route_relays_anything:
  assumes "te_parse env xdr = Some (PlainTx t)" and "ry_parse renv xdr = Some (PlainTx t)"
    and "\<And>kind. \<exists>e. assertOperationAllowlist env (PlainTx t) kind = Inl e"
  shows "\<not> so_submitted (submitTransaction env w xdr kind rows) \<and> so_rows (submitTransaction env w xdr kind rows) = rows \<and>
    ro_relayed (submitRepayment renv xdr) = Some (PlainTx t)"
proof -
  obtain e where "assertOperationAllowlist env (PlainTx t) kind = Inl e" using assms(3) by blast
  moreover have "ro_relayed (submitRepayment renv xdr) = Some (PlainTx t)"
    using assms(2) by (simp add: submitRepayment_def parseTransaction_r_def Let_def split_def split: sum.split)
  ultimately show ?thesis using assms(1) by (simp add: submitTransaction_def parseXdr_def Let_def)
qed

definition demo_relay :: relay_env where
  "demo_relay = \<lparr>ry_parse = (\<lambda>_. Some (PlainTx \<lparr>tr_source = ''GA'', tr_operations = [OtherOperation ''payment'']\<rparr>)),
     ry_submit = (\<lambda>_. Inr ''abcd''), ry_ledger = (\<lambda>_ k. if k = 3 then Some 77 else None)\<rparr>"

theorem repayment_submission_ends_witness:
  "ro_lookups (submitRepayment demo_relay ''AAAA'') \<le> 30 \<and> ro_waited (submitRepayment demo_relay ''AAAA'') \<le> 58000"
  using repayment_submission_ends [of demo_relay "''AAAA''"] by blast

theorem repay_route_relays_anything_witness:
  "\<exists>env. \<not> so_submitted (submitTransaction env ''GB'' ''AAAA'' LoanRepay []) \<and>
    ro_relayed (submitRepayment demo_relay ''AAAA'') = Some (PlainTx \<lparr>tr_source = ''GA'', tr_operations = [OtherOperation ''payment'']\<rparr>)"
proof -
  let ?t = "\<lparr>tr_source = ''GA'', tr_operations = [OtherOperation ''payment'']\<rparr>"
  let ?env = "\<lparr>te_parse = (\<lambda>_. Some (PlainTx ?t)), te_hash = (\<lambda>_. ''abcd''), te_encode = (\<lambda>_. None), te_config = (\<lambda>_. None),
    te_submit = (\<lambda>_. None), te_lookup = (\<lambda>_. Inl \<lparr>he_codes = None, he_message = None, he_status = Some 404\<rparr>),
    te_result = (\<lambda>_. None), te_now = 0, te_pk = ''p'', te_faults = no_faults\<rparr>"
  have "\<exists>e. assertOperationAllowlist ?env (PlainTx ?t) kind = Inl e" for kind
    by (auto simp: assertOperationAllowlist_def check_operation_def)
  then have "\<not> so_submitted (submitTransaction ?env ''GB'' ''AAAA'' LoanRepay []) \<and> ro_relayed (submitRepayment demo_relay ''AAAA'') = Some (PlainTx ?t)"
    using repay_route_relays_anything [where env = ?env and t = ?t and renv = demo_relay and w = "''GB''" and xdr = "''AAAA''"
        and kind = LoanRepay and rows = "[]"] by (simp add: demo_relay_def)
  then show ?thesis by blast
qed

end
