(* ===== verification/Health.thy ===== *)
theory Health imports Horizon begin

text \<open>
  The health checks (\<open>modules/health/health.service.ts\<close>) on top of the failover client, and the gauges
  the metrics updater keeps (\<open>modules/metrics/metrics.updater.ts\<close>). The checks run at the same time;
  they are modelled one after the other, in the order they are started.
\<close>

datatype check_status = CheckOk | CheckWarning | CheckError | CheckDegraded | CheckUnknown

text \<open>
  What a check sees: the session call of the database client (\<open>None\<close> when it throws, else the message
  of its error, if any), the cursor of the indexer row that was updated last, and the replies of the
  endpoints for each of the two requests.
\<close>

record health_env =
  he_session :: "string option option"
  he_cursor :: "int option"
  he_fetch :: "nat \<Rightarrow> nat \<Rightarrow> string \<Rightarrow> fetch_reply"
  he_clock :: "nat \<Rightarrow> nat \<Rightarrow> int"

definition checkDatabase :: "health_env \<Rightarrow> check_status" where
  "checkDatabase env =
     (case he_session env of
        None \<Rightarrow> CheckError
      | Some None \<Rightarrow> CheckOk
      | Some (Some m) \<Rightarrow> if m \<noteq> ''Invalid Refresh Token'' \<and> \<not> str_includes m ''JWT'' then CheckError else CheckOk)"

definition checkHorizon :: "health_env \<Rightarrow> horizon_client \<Rightarrow> check_status \<times> horizon_client" where
  "checkHorizon env hz =
     (case getRoot (he_fetch env 0) (he_clock env 0) (he_clock env 0) hz of
        (Inr top1, _, hz') \<Rightarrow>
          (if \<exists>e \<in> set (getEndpointStatuses hz'). es_primary e \<and> es_status e = Closed then CheckOk else CheckDegraded, hz')
      | (Inl _, _, hz') \<Rightarrow> (CheckError, hz'))"

definition getIndexerCursor :: "health_env \<Rightarrow> int" where
  "getIndexerCursor env = (case he_cursor env of Some c \<Rightarrow> c | None \<Rightarrow> 0)"

definition checkIndexerLag :: "health_env \<Rightarrow> horizon_client \<Rightarrow> check_status \<times> horizon_client" where
  "checkIndexerLag env hz =
     (case getRoot (he_fetch env 1) (he_clock env 1) (he_clock env 1) hz of
        (Inr top1, _, hz') \<Rightarrow>
          let lag = hr_ledger top1 - getIndexerCursor env
          in (if lag < 100 then CheckOk else if lag < 500 then CheckWarning else CheckError, hz')
      | (Inl _, _, hz') \<Rightarrow> (CheckUnknown, hz'))"

definition check :: "health_env \<Rightarrow> horizon_client \<Rightarrow> check_status \<times> horizon_client" where
  "check env hz =
     (let db = checkDatabase env;
          (horizon, hz1) = checkHorizon env hz;
          (indexer, hz2) = checkIndexerLag env hz1
      in (if \<forall>c \<in> set [db, horizon, indexer]. c = CheckOk then CheckOk else CheckDegraded, hz2))"

text \<open>The gauge of the indexer lag.\<close>

definition indexer_lag_gauge :: "int option \<Rightarrow> int \<Rightarrow> int" where
  "indexer_lag_gauge cursor latest = max 0 (latest - (case cursor of Some c \<Rightarrow> c | None \<Rightarrow> 0))"

section \<open>Properties\<close>

lemma getRoot_current:
  assumes "getRoot fetch b a hz = (Inr top1, asked, hz')" and "client_ok hz"
  shows "\<exists>e \<in> set (getEndpointStatuses hz'). es_primary e \<and> es_status e = Closed"
proof -
  let ?op = "\<lparr>ho_ask = (\<lambda>i u. root_of (fetch i u)), ho_before = b, ho_after = a\<rparr>"
  from assms(1) have f: "failover_rounds ?op (hz_current hz) 0 {} hz = (Inr top1, asked, hz')"
    by (simp add: getRoot_def withFailover_def)
  have n: "0 < length (hz_states hz)" using assms(2) by (auto simp: client_ok_def)
  from rounds_current [OF f n] have c: "hz_current hz' < length (hz_states hz)" "cb_status (hz_states hz' ! hz_current hz') = Closed" by auto
  have l: "length (hz_states hz') = length (hz_states hz)" using rounds_spec [OF refl _ _ f] by simp
  have z: "(hz_current hz', hz_states hz' ! hz_current hz') \<in> set (zip [0..<length (hz_states hz')] (hz_states hz'))"
    using c(1) l by (auto simp: in_set_zip intro!: exI [of _ "hz_current hz'"])
  show ?thesis unfolding getEndpointStatuses_def set_map by (rule bexI [OF _ imageI [OF z]]) (simp add: c(2))
qed

text \<open>The service reports itself healthy exactly when the database answers without a foreign error, some
  endpoint answers the request for the root, and the indexer is less than a hundred ledgers behind
  the latest one; a healthy report always has a closed current endpoint.\<close>

theorem healthy_iff:
  assumes "client_ok hz"
  shows "fst (check env hz) = CheckOk \<longleftrightarrow>
    (he_session env = Some None \<or> (\<exists>m. he_session env = Some (Some m) \<and> (m = ''Invalid Refresh Token'' \<or> str_includes m ''JWT''))) \<and>
    (\<exists>top1 asked hz1 top' asked' hz2. getRoot (he_fetch env 0) (he_clock env 0) (he_clock env 0) hz = (Inr top1, asked, hz1) \<and>
       getRoot (he_fetch env 1) (he_clock env 1) (he_clock env 1) hz1 = (Inr top', asked', hz2) \<and>
       hr_ledger top' - getIndexerCursor env < 100)"
proof -
  have db: "checkDatabase env = CheckOk \<longleftrightarrow> he_session env = Some None \<or>
      (\<exists>m. he_session env = Some (Some m) \<and> (m = ''Invalid Refresh Token'' \<or> str_includes m ''JWT''))"
    by (auto simp: checkDatabase_def split: option.splits)
  obtain r asked hz1 where f: "getRoot (he_fetch env 0) (he_clock env 0) (he_clock env 0) hz = (r, asked, hz1)" by (metis prod.exhaust)
  obtain r' asked' hz2 where g: "getRoot (he_fetch env 1) (he_clock env 1) (he_clock env 1) hz1 = (r', asked', hz2)" by (metis prod.exhaust)
  have h: "checkHorizon env hz = (case r of Inr _ \<Rightarrow> CheckOk | Inl _ \<Rightarrow> CheckError, hz1)"
  proof (cases r)
    case (Inr top1)
    with getRoot_current [of _ _ _ hz top1 asked hz1] f assms show ?thesis by (auto simp: checkHorizon_def)
  qed (simp add: checkHorizon_def f)
  have "fst (checkIndexerLag env hz1) = CheckOk \<longleftrightarrow> (\<exists>top'. r' = Inr top' \<and> hr_ledger top' - getIndexerCursor env < 100)"
    by (auto simp: checkIndexerLag_def g [simplified] Let_def split: sum.split)
  then show ?thesis using db h by (auto simp: check_def Let_def split_def f g [simplified] split: sum.splits)
qed

definition demo_health :: health_env where
  "demo_health = \<lparr>he_session = Some None, he_cursor = Some 950,
     he_fetch = (\<lambda>_ _ _. FetchReply 200 (Inr \<lparr>hr_version = ''2'', hr_network = ''n'', hr_core = ''21'', hr_ledger = 1000\<rparr>)),
     he_clock = (\<lambda>_ _. 0)\<rparr>"

theorem healthy_iff_witness:
  "(fst (check demo_health demo_client) = CheckOk) =
    ((he_session demo_health = Some None \<or> (\<exists>m. he_session demo_health = Some (Some m) \<and> (m = ''Invalid Refresh Token'' \<or> str_includes m ''JWT''))) \<and>
     (\<exists>top1 asked hz1 top' asked' hz2. getRoot (he_fetch demo_health 0) (he_clock demo_health 0) (he_clock demo_health 0) demo_client = (Inr top1, asked, hz1) \<and>
        getRoot (he_fetch demo_health 1) (he_clock demo_health 1) (he_clock demo_health 1) hz1 = (Inr top', asked', hz2) \<and>
        hr_ledger top' - getIndexerCursor demo_health < 100))"
  by (rule healthy_iff) (simp add: demo_client_def init_ok)

end
