(* ===== verification/AuditLog.thy ===== *)
theory AuditLog imports Schema Pagination "HOL-Library.Multiset" begin

text \<open>
  The audit log (\<open>modules/admin/audit.service.ts\<close>): one insert per entry, and a filtered, paged list
  for the administrators. A trigger of the table refuses updates and deletions.
\<close>

text \<open>The state columns are the JSON texts; the user agent and the metadata are written and never read.\<close>

record CreateAuditLog =
  ca_actor :: string
  ca_action :: string
  ca_resource :: string
  ca_resource_id :: "string option"
  ca_before :: "string option"
  ca_after :: "string option"
  ca_ip :: "string option"
  ca_agent :: "string option"
  ca_metadata :: "string option"

record AuditLogRow =
  ag_pk :: string
  ag_entry :: CreateAuditLog
  ag_created :: int

record AuditLogItem =
  ai_id :: string
  ai_actor :: string
  ai_action :: string
  ai_resource :: string
  ai_resource_id :: "string option"
  ai_before :: "string option"
  ai_after :: "string option"
  ai_ip :: "string option"
  ai_created :: int

record AuditLogQuery =
  aq_actor :: "string option"
  aq_action :: "string option"
  aq_resource :: "string option"
  aq_resource_id :: "string option"
  aq_search :: "string option"
  aq_limit :: "nat option"
  aq_offset :: "nat option"

record AuditLogList =
  al_data :: "AuditLogItem list"
  al_limit :: nat
  al_offset :: nat
  al_total :: nat

text \<open>\<open>ae_or\<close> is what PostgREST makes of the text of an \<open>or\<close> filter: an error, or the rows it selects.\<close>

record audit_env =
  ae_now :: int
  ae_pk :: string
  ae_faults :: faults
  ae_or :: "string \<Rightarrow> db_error + (AuditLogRow \<Rightarrow> bool)"

definition log_entry :: "audit_env \<Rightarrow> CreateAuditLog \<Rightarrow> AuditLogRow list \<Rightarrow> (db_error + unit) \<times> AuditLogRow list" where
  "log_entry env entry rows =
     (case ae_faults env ''audit.insert'' of
        Some e \<Rightarrow> (Inl e, rows)
      | None \<Rightarrow> (Inr (), rows @ [\<lparr>ag_pk = ae_pk env, ag_entry = entry, ag_created = ae_now env\<rparr>]))"

text \<open>The last three arguments may be undefined, which is stored as null.\<close>

definition or_null :: "'a option option \<Rightarrow> 'a option" where
  "or_null v = (case v of Some x \<Rightarrow> x | None \<Rightarrow> None)"

definition logWithBeforeAfter :: "audit_env \<Rightarrow> string \<Rightarrow> string \<Rightarrow> string \<Rightarrow> string option \<Rightarrow> string option \<Rightarrow> string option \<Rightarrow>
    string option option \<Rightarrow> string option option \<Rightarrow> string option option \<Rightarrow> AuditLogRow list \<Rightarrow> (db_error + unit) \<times> AuditLogRow list" where
  "logWithBeforeAfter env actor action resource rid before after ip agent metadata rows =
     log_entry env \<lparr>ca_actor = actor, ca_action = action, ca_resource = resource, ca_resource_id = rid, ca_before = before,
       ca_after = after, ca_ip = or_null ip, ca_agent = or_null agent, ca_metadata = or_null metadata\<rparr> rows"

text \<open>A filter that is absent or empty is not applied.\<close>

definition filter_by :: "string option \<Rightarrow> (AuditLogRow \<Rightarrow> string option) \<Rightarrow> AuditLogRow \<Rightarrow> bool" where
  "filter_by f col r = (case present f of None \<Rightarrow> True | Some v \<Rightarrow> col r = Some v)"

definition search_filter :: "string \<Rightarrow> string" where
  "search_filter s =
     (let t = ''%'' @ s @ ''%''
      in ''actor_wallet.ilike.'' @ t @ '',action.ilike.'' @ t @ '',resource.ilike.'' @ t @ '',resource_id.ilike.'' @ t)"

definition audit_item :: "AuditLogRow \<Rightarrow> AuditLogItem" where
  "audit_item r =
     (let e = ag_entry r
      in \<lparr>ai_id = ag_pk r, ai_actor = ca_actor e, ai_action = ca_action e, ai_resource = ca_resource e,
          ai_resource_id = ca_resource_id e, ai_before = ca_before e, ai_after = ca_after e, ai_ip = ca_ip e, ai_created = ag_created r\<rparr>)"

definition audit_hits :: "AuditLogQuery \<Rightarrow> (AuditLogRow \<Rightarrow> bool) \<Rightarrow> AuditLogRow list \<Rightarrow> AuditLogRow list" where
  "audit_hits q found rows =
     sort_key (\<lambda>r. - ag_created r) (filter (\<lambda>r.
       filter_by (aq_actor q) (\<lambda>r. Some (ca_actor (ag_entry r))) r \<and>
       filter_by (aq_action q) (\<lambda>r. Some (ca_action (ag_entry r))) r \<and>
       filter_by (aq_resource q) (\<lambda>r. Some (ca_resource (ag_entry r))) r \<and>
       filter_by (aq_resource_id q) (\<lambda>r. ca_resource_id (ag_entry r)) r \<and> found r) rows)"

definition findMany :: "audit_env \<Rightarrow> AuditLogQuery \<Rightarrow> AuditLogRow list \<Rightarrow> db_error + AuditLogList" where
  "findMany env q rows =
     (let limit = (case aq_limit q of Some n \<Rightarrow> n | None \<Rightarrow> 20);
          offset = (case aq_offset q of Some n \<Rightarrow> n | None \<Rightarrow> 0);
          search = (case present (aq_search q) of Some s \<Rightarrow> ae_or env (search_filter s) | None \<Rightarrow> Inr (\<lambda>_. True))
      in case with_fault (ae_faults env ''audit.list'') search of
           Inl e \<Rightarrow> Inl e
         | Inr found \<Rightarrow>
             let hits = audit_hits q found rows
             in (case range_query (int offset) (int limit) hits of
                   Inl e \<Rightarrow> Inl e
                 | Inr page \<Rightarrow> Inr \<lparr>al_data = map audit_item page, al_limit = limit, al_offset = offset, al_total = length hits\<rparr>))"

section \<open>Properties\<close>

definition audit_page :: "audit_env \<Rightarrow> AuditLogQuery \<Rightarrow> AuditLogRow list \<Rightarrow> nat \<Rightarrow> nat \<Rightarrow> AuditLogItem list result" where
  "audit_page env q rows n k =
     (case findMany env (q\<lparr>aq_limit := Some n, aq_offset := Some (k * n)\<rparr>) rows of Inl e \<Rightarrow> Inl (JsError (err_message e)) | Inr r \<Rightarrow> Inr (al_data r))"

lemma audit_paged:
  assumes "ae_faults env ''audit.list'' = None" and "present (aq_search q) = None" and "0 < n"
  shows "paged (audit_page env q rows n) n (audit_hits q (\<lambda>_. True) rows) audit_item"
proof
  fix k assume "k * n \<le> length (audit_hits q (\<lambda>_. True) rows)"
  from range_query_page [OF this] show "audit_page env q rows n k =
      Inr (map audit_item (take n (drop (k * n) (audit_hits q (\<lambda>_. True) rows))))"
    using assms by (simp add: audit_page_def findMany_def audit_hits_def Let_def del: of_nat_mult)
qed (rule assms(3))

text \<open>The audit log keeps what it is given: writing an entry appends exactly that entry or nothing, and
  walking the pages of a list without a search shows every entry that matches the filters exactly
  once, newest first.\<close>

theorem audit_log_complete:
  assumes "ae_faults env ''audit.list'' = None" and "present (aq_search q) = None" and "0 < n"
  shows "(fst (log_entry env e rows) = Inr () \<longleftrightarrow> snd (log_entry env e rows) \<noteq> rows) \<and>
    (fst (log_entry env e rows) = Inr () \<longrightarrow> (\<exists>r. snd (log_entry env e rows) = rows @ [r] \<and> ag_entry r = e)) \<and>
    concat (map (\<lambda>k. case audit_page env q rows n k of Inr xs \<Rightarrow> xs | Inl _ \<Rightarrow> [])
       [0..<(length (audit_hits q (\<lambda>_. True) rows) + n - 1) div n]) = map audit_item (audit_hits q (\<lambda>_. True) rows) \<and>
    mset (audit_hits q (\<lambda>_. True) rows) = mset (filter (\<lambda>r.
       filter_by (aq_actor q) (\<lambda>r. Some (ca_actor (ag_entry r))) r \<and> filter_by (aq_action q) (\<lambda>r. Some (ca_action (ag_entry r))) r \<and>
       filter_by (aq_resource q) (\<lambda>r. Some (ca_resource (ag_entry r))) r \<and> filter_by (aq_resource_id q) (\<lambda>r. ca_resource_id (ag_entry r)) r) rows)"
proof -
  note p = audit_paged [OF assms, of rows]
  have "concat (map (\<lambda>k. case audit_page env q rows n k of Inr xs \<Rightarrow> xs | Inl _ \<Rightarrow> [])
      [0..<(length (audit_hits q (\<lambda>_. True) rows) + n - 1) div n]) = map audit_item (audit_hits q (\<lambda>_. True) rows)"
    using paged.walk_all [OF p] by (simp add: paged.items_def [OF p, abs_def])
  moreover have "(fst (log_entry env e rows) = Inr () \<longleftrightarrow> snd (log_entry env e rows) \<noteq> rows) \<and>
      (fst (log_entry env e rows) = Inr () \<longrightarrow> (\<exists>r. snd (log_entry env e rows) = rows @ [r] \<and> ag_entry r = e))"
    by (auto simp: log_entry_def split: option.splits)
  ultimately show ?thesis by (simp add: audit_hits_def)
qed

definition demo_audit :: audit_env where
  "demo_audit = \<lparr>ae_now = 3, ae_pk = ''a1'', ae_faults = no_faults, ae_or = (\<lambda>_. Inl out_of_range)\<rparr>"

definition demo_query :: AuditLogQuery where
  "demo_query = \<lparr>aq_actor = None, aq_action = Some ''X'', aq_resource = None, aq_resource_id = None, aq_search = None,
     aq_limit = None, aq_offset = None\<rparr>"

theorem audit_log_complete_witness:
  "concat (map (\<lambda>k. case audit_page demo_audit demo_query [] 5 k of Inr xs \<Rightarrow> xs | Inl _ \<Rightarrow> [])
     [0..<(length (audit_hits demo_query (\<lambda>_. True) []) + 5 - 1) div 5]) = map audit_item (audit_hits demo_query (\<lambda>_. True) [])"
proof -
  have "ae_faults demo_audit ''audit.list'' = None" "present (aq_search demo_query) = None" "(0 :: nat) < 5"
    by (simp_all add: demo_audit_def demo_query_def present_def)
  from audit_log_complete [OF this, of _ "[]"] show ?thesis by blast
qed

end
