(* ===== verification/Learners.thy ===== *)
theory Learners imports Schema begin

text \<open>
  Learner profiles (\<open>modules/learners/learners.service.ts\<close>): reading a profile, the completion
  status derived from it, and the partial update that creates the row when there is none and keeps
  the stored completion flag and the date of onboarding.
\<close>

datatype CurrentRole = Student | Intern | EarlyCareerDev | Freelancer | Employed

datatype Skill = JavaScript | TypeScript | Rust | Python | Go | React | ReactNative | NestJS | Solidity | Soroban
  | DesignSkill | DevOps | Testing | TechnicalWriting | OtherSkill

datatype FinanceGoal = Laptop | Course | Bootcamp | DevTools | Subscriptions | Books | OtherGoal

datatype MonthlyIncomeRange = NoIncome | Under500 | Range500To1000 | Range1000To5000 | Above5000

record LearnerProfileRow =
  lf_pk :: string
  lf_wallet :: string
  lf_fullName :: "string option"
  lf_bio :: "string option"
  lf_country :: "string option"
  lf_city :: "string option"
  lf_currentRole :: "CurrentRole option"
  lf_institution :: "string option"
  lf_program :: "string option"
  lf_graduationYear :: "int option"
  lf_skills :: "Skill list option"
  lf_financeGoals :: "FinanceGoal list option"
  lf_incomeRange :: "MonthlyIncomeRange option"
  lf_githubUrl :: "string option"
  lf_linkedinUrl :: "string option"
  lf_complete :: bool
  lf_onboarded :: "int option"
  lf_created :: int
  lf_updated :: int

record LearnerResponse =
  ld_id :: string
  ld_walletAddress :: string
  ld_fullName :: "string option"
  ld_bio :: "string option"
  ld_country :: "string option"
  ld_city :: "string option"
  ld_currentRole :: "CurrentRole option"
  ld_institution :: "string option"
  ld_program :: "string option"
  ld_graduationYear :: "int option"
  ld_skills :: "Skill list option"
  ld_financeGoals :: "FinanceGoal list option"
  ld_incomeRange :: "MonthlyIncomeRange option"
  ld_githubUrl :: "string option"
  ld_linkedinUrl :: "string option"
  ld_profileComplete :: bool
  ld_onboardingCompletedAt :: "int option"
  ld_createdAt :: int
  ld_updatedAt :: int

text \<open>A field of an update: \<open>None\<close> is undefined, \<open>Some None\<close> null.\<close>

record UpdateLearnerProfile =
  ud_fullName :: "string option option"
  ud_bio :: "string option option"
  ud_country :: "string option option"
  ud_city :: "string option option"
  ud_currentRole :: "CurrentRole option option"
  ud_institution :: "string option option"
  ud_program :: "string option option"
  ud_graduationYear :: "int option option"
  ud_skills :: "Skill list option option"
  ud_financeGoals :: "FinanceGoal list option option"
  ud_incomeRange :: "MonthlyIncomeRange option option"
  ud_githubUrl :: "string option option"
  ud_linkedinUrl :: "string option option"

record learners_env =
  ll_now :: int
  ll_pk :: string
  ll_faults :: faults

definition learner_dto :: "LearnerProfileRow \<Rightarrow> LearnerResponse" where
  "learner_dto r =
     \<lparr>ld_id = lf_pk r, ld_walletAddress = lf_wallet r, ld_fullName = lf_fullName r, ld_bio = lf_bio r, ld_country = lf_country r,
      ld_city = lf_city r, ld_currentRole = lf_currentRole r, ld_institution = lf_institution r, ld_program = lf_program r,
      ld_graduationYear = lf_graduationYear r, ld_skills = lf_skills r, ld_financeGoals = lf_financeGoals r,
      ld_incomeRange = lf_incomeRange r, ld_githubUrl = lf_githubUrl r, ld_linkedinUrl = lf_linkedinUrl r,
      ld_profileComplete = lf_complete r, ld_onboardingCompletedAt = lf_onboarded r, ld_createdAt = lf_created r,
      ld_updatedAt = lf_updated r\<rparr>"

section \<open>Reading\<close>

definition getProfile_l :: "learners_env \<Rightarrow> string \<Rightarrow> LearnerProfileRow list \<Rightarrow> LearnerResponse result" where
  "getProfile_l env w rows =
     (case with_fault (ll_faults env ''learners.get'') (single (filter (\<lambda>r. lf_wallet r = w) rows)) of
        Inl _ \<Rightarrow> Inl (not_found ''LEARNER_PROFILE_NOT_FOUND'')
      | Inr r \<Rightarrow> Inr (learner_dto r))"

text \<open>\<open>!val\<close> of a string or null, and \<open>length === 0\<close> of an array.\<close>

definition requiredFields :: "string list" where "requiredFields = [''fullName'', ''country'', ''financeGoals'']"

definition field_missing :: "LearnerResponse \<Rightarrow> string \<Rightarrow> bool" where
  "field_missing p f =
     (if f = ''fullName'' then present (ld_fullName p) = None
      else if f = ''country'' then present (ld_country p) = None
      else (case ld_financeGoals p of Some gs \<Rightarrow> gs = [] | None \<Rightarrow> True))"

definition getCompletionStatus :: "learners_env \<Rightarrow> string \<Rightarrow> LearnerProfileRow list \<Rightarrow> bool \<times> string list" where
  "getCompletionStatus env w rows =
     (case getProfile_l env w rows of
        Inl _ \<Rightarrow> (False, requiredFields)
      | Inr p \<Rightarrow> let missing = filter (field_missing p) requiredFields in (missing = [], missing))"

section \<open>Updating\<close>

definition given :: "'a option option \<Rightarrow> 'a option \<Rightarrow> 'a option" where
  "given d old = (case d of Some v \<Rightarrow> v | None \<Rightarrow> old)"

definition is_complete :: "string option \<Rightarrow> string option \<Rightarrow> FinanceGoal list option \<Rightarrow> bool" where
  "is_complete name country goals \<longleftrightarrow> present name \<noteq> None \<and> present country \<noteq> None \<and>
     (case goals of Some gs \<Rightarrow> 0 < length gs | None \<Rightarrow> False)"

text \<open>The columns the payload sets; the date of onboarding only when it is not undefined.\<close>

definition payload :: "learners_env \<Rightarrow> UpdateLearnerProfile \<Rightarrow> bool \<Rightarrow> int option option \<Rightarrow> LearnerProfileRow \<Rightarrow> LearnerProfileRow" where
  "payload env d full onboarded r =
     r\<lparr>lf_complete := full, lf_onboarded := given onboarded (lf_onboarded r), lf_updated := ll_now env,
       lf_fullName := given (ud_fullName d) (lf_fullName r), lf_bio := given (ud_bio d) (lf_bio r),
       lf_country := given (ud_country d) (lf_country r), lf_city := given (ud_city d) (lf_city r),
       lf_currentRole := given (ud_currentRole d) (lf_currentRole r),
       lf_institution := given (ud_institution d) (lf_institution r), lf_program := given (ud_program d) (lf_program r),
       lf_graduationYear := given (ud_graduationYear d) (lf_graduationYear r), lf_skills := given (ud_skills d) (lf_skills r),
       lf_financeGoals := given (ud_financeGoals d) (lf_financeGoals r),
       lf_incomeRange := given (ud_incomeRange d) (lf_incomeRange r), lf_githubUrl := given (ud_githubUrl d) (lf_githubUrl r),
       lf_linkedinUrl := given (ud_linkedinUrl d) (lf_linkedinUrl r)\<rparr>"

definition empty_profile :: "learners_env \<Rightarrow> string \<Rightarrow> LearnerProfileRow" where
  "empty_profile env w =
     \<lparr>lf_pk = ll_pk env, lf_wallet = w, lf_fullName = None, lf_bio = None, lf_country = None, lf_city = None,
      lf_currentRole = None, lf_institution = None, lf_program = None, lf_graduationYear = None, lf_skills = None,
      lf_financeGoals = None, lf_incomeRange = None, lf_githubUrl = None, lf_linkedinUrl = None, lf_complete = False,
      lf_onboarded = None, lf_created = ll_now env, lf_updated = ll_now env\<rparr>"

text \<open>The upsert on the unique wallet.\<close>

definition upsert_profile :: "string \<Rightarrow> LearnerProfileRow \<Rightarrow> (LearnerProfileRow \<Rightarrow> LearnerProfileRow) \<Rightarrow>
    LearnerProfileRow list \<Rightarrow> LearnerProfileRow list" where
  "upsert_profile w fresh f rows =
     (if \<exists>r \<in> set rows. lf_wallet r = w then update_where (\<lambda>r. lf_wallet r = w) f rows else rows @ [f fresh])"

definition upsertProfile :: "learners_env \<Rightarrow> string \<Rightarrow> UpdateLearnerProfile \<Rightarrow> LearnerProfileRow list \<Rightarrow>
    LearnerResponse result \<times> LearnerProfileRow list" where
  "upsertProfile env w d rows =
     (let existing = (case with_fault (ll_faults env ''learners.read'') (single (filter (\<lambda>r. lf_wallet r = w) rows)) of
                        Inr r \<Rightarrow> Some r | Inl _ \<Rightarrow> None);
          full = is_complete (given (ud_fullName d) (case existing of Some r \<Rightarrow> lf_fullName r | None \<Rightarrow> None))
            (given (ud_country d) (case existing of Some r \<Rightarrow> lf_country r | None \<Rightarrow> None))
            (given (ud_financeGoals d) (case existing of Some r \<Rightarrow> lf_financeGoals r | None \<Rightarrow> None));
          was = (case existing of Some r \<Rightarrow> lf_complete r | None \<Rightarrow> False);
          onboarded = (if full \<and> \<not> was then Some (Some (ll_now env)) else map_option lf_onboarded existing)
      in case ll_faults env ''learners.upsert'' of
           Some _ \<Rightarrow> (Inl (JsError ''Failed to update learner profile.''), rows)
         | None \<Rightarrow>
             let rows' = upsert_profile w (empty_profile env w) (payload env d full onboarded) rows
             in (case single (filter (\<lambda>r. lf_wallet r = w) rows') of
                   Inl _ \<Rightarrow> (Inl (JsError ''Failed to update learner profile.''), rows')
                 | Inr r \<Rightarrow> (Inr (learner_dto r), rows')))"

section \<open>The completion flag\<close>

definition row_complete :: "LearnerProfileRow \<Rightarrow> bool" where
  "row_complete r = is_complete (lf_fullName r) (lf_country r) (lf_financeGoals r)"

definition profiles_ok :: "LearnerProfileRow list \<Rightarrow> bool" where
  "profiles_ok rows \<longleftrightarrow> distinct (map lf_wallet rows) \<and>
     (\<forall>r \<in> set rows. lf_complete r = row_complete r \<and> (lf_complete r \<longrightarrow> lf_onboarded r \<noteq> None))"

lemma payload_fields [simp]:
  "lf_wallet (payload env d full onb r) = lf_wallet r" "lf_complete (payload env d full onb r) = full"
  "lf_onboarded (payload env d full onb r) = given onb (lf_onboarded r)"
  "row_complete (payload env d full onb r) = is_complete (given (ud_fullName d) (lf_fullName r))
     (given (ud_country d) (lf_country r)) (given (ud_financeGoals d) (lf_financeGoals r))"
  by (simp_all add: payload_def row_complete_def)

lemma empty_fields [simp]:
  "lf_wallet (empty_profile env w) = w" "lf_fullName (empty_profile env w) = None" "lf_country (empty_profile env w) = None"
  "lf_financeGoals (empty_profile env w) = None" "lf_onboarded (empty_profile env w) = None"
  by (simp_all add: empty_profile_def)

lemma upsert_new:
  fixes d :: UpdateLearnerProfile
  defines "full \<equiv> is_complete (given (ud_fullName d) None) (given (ud_country d) None) (given (ud_financeGoals d) None)"
  assumes "filter (\<lambda>r. lf_wallet r = w) rows = []" and "ll_faults env ''learners.upsert'' = None"
  shows "snd (upsertProfile env w d rows) =
    rows @ [payload env d full (if full then Some (Some (ll_now env)) else None) (empty_profile env w)]"
proof -
  have "\<not> (\<exists>r \<in> set rows. lf_wallet r = w)" using assms(2) by (auto simp: filter_empty_conv)
  moreover have "(case with_fault (ll_faults env ''learners.read'') (single ([] :: LearnerProfileRow list)) of
      Inr r \<Rightarrow> Some r | Inl _ \<Rightarrow> None) = None"
    by (simp add: single_def with_fault_def split: option.split)
  ultimately show ?thesis
    by (simp add: upsertProfile_def assms upsert_profile_def Let_def split: sum.split)
qed

lemma upsert_ok:
  assumes "profiles_ok rows" and "ll_faults env ''learners.read'' = None"
  shows "profiles_ok (snd (upsertProfile env w d rows))"
proof (cases "ll_faults env ''learners.upsert''")
  case None
  show ?thesis
  proof (cases "\<exists>r \<in> set rows. lf_wallet r = w")
    case False
    then have f: "filter (\<lambda>r. lf_wallet r = w) rows = []" by (auto simp: filter_empty_conv)
    show ?thesis
      using upsert_new [OF f None, of d] False assms(1) by (auto simp: profiles_ok_def given_def)
  next
    case True
    then obtain r where r: "r \<in> set rows" "lf_wallet r = w" by blast
    with assms(1) have f: "filter (\<lambda>r. lf_wallet r = w) rows = [r]" by (intro filter_single_unique) (simp_all add: profiles_ok_def)
    let ?full = "is_complete (given (ud_fullName d) (lf_fullName r)) (given (ud_country d) (lf_country r)) (given (ud_financeGoals d) (lf_financeGoals r))"
    let ?onb = "if ?full \<and> \<not> lf_complete r then Some (Some (ll_now env)) else Some (lf_onboarded r)"
    let ?p = "payload env d ?full ?onb"
    have s: "snd (upsertProfile env w d rows) = update_where (\<lambda>r. lf_wallet r = w) ?p rows"
      using r by (simp add: upsertProfile_def assms(2) f single_def None upsert_profile_def Let_def split: sum.split)
        (auto intro!: arg_cong [where f = "\<lambda>f. update_where (\<lambda>r. lf_wallet r = w) f rows"])
    have u: "x = r" if "x \<in> set rows" "lf_wallet x = w" for x
    proof -
      have "x \<in> set (filter (\<lambda>r. lf_wallet r = w) rows)" using that by simp
      then show ?thesis by (simp add: f)
    qed
    have m: "map lf_wallet (update_where (\<lambda>r. lf_wallet r = w) ?p rows) = map lf_wallet rows"
      by (simp add: update_where_def)
    have p: "lf_complete (?p r) = row_complete (?p r) \<and> (lf_complete (?p r) \<longrightarrow> lf_onboarded (?p r) \<noteq> None)"
      using assms(1) r(1) by (auto simp: profiles_ok_def given_def)
    have "lf_complete x = row_complete x \<and> (lf_complete x \<longrightarrow> lf_onboarded x \<noteq> None)"
      if x: "x \<in> set (update_where (\<lambda>r. lf_wallet r = w) ?p rows)" for x
    proof -
      from x obtain y where y: "y \<in> set rows" "x = (if lf_wallet y = w then ?p y else y)" unfolding set_update_where by blast
      show ?thesis
      proof (cases "lf_wallet y = w")
        case True
        with y u p show ?thesis by metis
      next
        case False
        with y assms(1) show ?thesis by (simp add: profiles_ok_def)
      qed
    qed
    moreover have "distinct (map lf_wallet (update_where (\<lambda>r. lf_wallet r = w) ?p rows))"
      unfolding m using assms(1) by (simp add: profiles_ok_def)
    ultimately show ?thesis unfolding s profiles_ok_def by blast
  qed
qed (use assms(1) in \<open>simp add: upsertProfile_def Let_def\<close>)

text \<open>The stored completion flag is true to the profile: after any sequence of updates whose reads
  succeed, a profile is flagged complete exactly when its name, country and goals are filled in,
  a complete one has a date of onboarding, there is one profile per wallet, and the completion status
  reports the flag and exactly the required fields that are missing.\<close>

theorem completion_flag_true:
  assumes "\<forall>(env, w, d) \<in> set us. ll_faults env ''learners.read'' = None"
    and "rows = fold (\<lambda>(env, w, d) rows. snd (upsertProfile env w d rows)) us []"
    and "r \<in> set rows" and "ll_faults env ''learners.get'' = None"
  shows "(lf_complete r \<longleftrightarrow> row_complete r) \<and> (lf_complete r \<longrightarrow> lf_onboarded r \<noteq> None) \<and>
    filter (\<lambda>x. lf_wallet x = lf_wallet r) rows = [r] \<and>
    fst (getCompletionStatus env (lf_wallet r) rows) = lf_complete r \<and>
    set (snd (getCompletionStatus env (lf_wallet r) rows)) =
      {f. f \<in> {''fullName'', ''country'', ''financeGoals''} \<and> field_missing (learner_dto r) f} \<and>
    (field_missing (learner_dto r) ''fullName'' \<longleftrightarrow> present (lf_fullName r) = None) \<and>
    (field_missing (learner_dto r) ''country'' \<longleftrightarrow> present (lf_country r) = None) \<and>
    (field_missing (learner_dto r) ''financeGoals'' \<longleftrightarrow> lf_financeGoals r = None \<or> lf_financeGoals r = Some [])"
proof -
  have "profiles_ok (fold (\<lambda>(env, w, d) rows. snd (upsertProfile env w d rows)) us rows)" if "profiles_ok rows" for rows
    using that assms(1) by (induction us arbitrary: rows) (auto simp: upsert_ok)
  from this [of "[]"] have ok: "profiles_ok rows" by (simp add: assms(2) profiles_ok_def)
  then have c: "lf_complete r = row_complete r" "lf_complete r \<longrightarrow> lf_onboarded r \<noteq> None" using assms(3) by (simp_all add: profiles_ok_def)
  have f: "filter (\<lambda>x. lf_wallet x = lf_wallet r) rows = [r]" using ok assms(3) by (intro filter_single_unique) (simp_all add: profiles_ok_def)
  have g: "getProfile_l env (lf_wallet r) rows = Inr (learner_dto r)" by (simp add: getProfile_l_def assms(4) f single_def)
  have m: "field_missing (learner_dto r) ''fullName'' \<longleftrightarrow> present (lf_fullName r) = None"
    "field_missing (learner_dto r) ''country'' \<longleftrightarrow> present (lf_country r) = None"
    "field_missing (learner_dto r) ''financeGoals'' \<longleftrightarrow> lf_financeGoals r = None \<or> lf_financeGoals r = Some []"
    by (auto simp: field_missing_def learner_dto_def split: option.splits)
  have st: "getCompletionStatus env (lf_wallet r) rows =
      (filter (field_missing (learner_dto r)) requiredFields = [], filter (field_missing (learner_dto r)) requiredFields)"
    by (simp add: getCompletionStatus_def g Let_def)
  have "fst (getCompletionStatus env (lf_wallet r) rows) = row_complete r"
    unfolding st fst_conv requiredFields_def filter_empty_conv row_complete_def is_complete_def
    by (cases "lf_financeGoals r") (auto simp: m)
  moreover have "set (snd (getCompletionStatus env (lf_wallet r) rows)) =
      {f. f \<in> {''fullName'', ''country'', ''financeGoals''} \<and> field_missing (learner_dto r) f}"
    unfolding st snd_conv requiredFields_def set_filter by simp
  ultimately show ?thesis using c f m by blast
qed

text \<open>A read that fails takes a completed profile for incomplete: an update that leaves out a required
  field is judged without the stored profile, so the flag of a complete profile is cleared although
  all its fields are still filled in and the completion status still reports it complete; the next
  successful update then records the onboarding anew.\<close>

theorem lost_read_clears_flag:
  assumes "rows = [r]" and "lf_wallet r = w" and "lf_complete r" and "row_complete r"
    and "ll_faults env ''learners.read'' = Some e" and "ll_faults env ''learners.upsert'' = None"
    and "ud_fullName d = None" and "ud_country d = None" and "ud_financeGoals d = None"
    and "ll_faults env' = no_faults"
  shows "\<exists>r'. snd (upsertProfile env w d rows) = [r'] \<and> row_complete r' \<and> \<not> lf_complete r' \<and>
    fst (getCompletionStatus env' w [r']) \<and>
    (\<exists>r''. snd (upsertProfile env' w d [r']) = [r''] \<and> lf_complete r'' \<and> lf_onboarded r'' = Some (ll_now env'))"
proof -
  let ?r = "payload env d False None r"
  have s: "snd (upsertProfile env w d rows) = [?r]"
    using assms by (simp add: upsertProfile_def Let_def upsert_profile_def update_where_def given_def is_complete_def
        present_def split: sum.split)
  have c: "row_complete ?r" using assms(4,7-9) by (simp add: given_def row_complete_def payload_def)
  then have st: "fst (getCompletionStatus env' w [?r])"
    using assms(2,10) by (auto simp: getCompletionStatus_def getProfile_l_def single_def Let_def requiredFields_def field_missing_def
        learner_dto_def row_complete_def is_complete_def payload_def split: option.splits)
  have "\<exists>r''. snd (upsertProfile env' w d [?r]) = [r''] \<and> lf_complete r'' \<and> lf_onboarded r'' = Some (ll_now env')"
    using c assms(2,7-10)
    by (simp add: upsertProfile_def Let_def upsert_profile_def update_where_def given_def single_def row_complete_def split: sum.split)
  then show ?thesis using s c st by (intro exI [of _ ?r]) simp
qed

definition demo_update :: UpdateLearnerProfile where
  "demo_update = \<lparr>ud_fullName = Some (Some ''Ada''), ud_bio = None, ud_country = Some (Some ''NG''), ud_city = None,
     ud_currentRole = None, ud_institution = None, ud_program = None, ud_graduationYear = None, ud_skills = None,
     ud_financeGoals = Some (Some [Laptop]), ud_incomeRange = None, ud_githubUrl = None, ud_linkedinUrl = None\<rparr>"

definition demo_learners :: learners_env where
  "demo_learners = \<lparr>ll_now = 7, ll_pk = ''p1'', ll_faults = no_faults\<rparr>"

definition demo_profile :: LearnerProfileRow where
  "demo_profile = payload demo_learners demo_update True (Some (Some 7)) (empty_profile demo_learners ''GL'')"

lemma demo_created: "snd (upsertProfile demo_learners ''GL'' demo_update []) = [demo_profile]"
  by (simp add: upsertProfile_def demo_profile_def demo_learners_def demo_update_def Let_def upsert_profile_def single_def
      given_def is_complete_def present_def)

theorem completion_flag_true_witness:
  "lf_complete demo_profile = row_complete demo_profile \<and>
   fst (getCompletionStatus demo_learners (lf_wallet demo_profile) [demo_profile]) = lf_complete demo_profile"
proof -
  have "\<forall>(env, w, d) \<in> set [(demo_learners, ''GL'', demo_update)]. ll_faults env ''learners.read'' = None"
    by (simp add: demo_learners_def)
  from completion_flag_true [OF this refl, of demo_profile demo_learners] show ?thesis
    by (simp add: demo_created) (simp add: demo_learners_def)
qed

theorem lost_read_clears_flag_witness:
  "\<exists>r'. snd (upsertProfile (demo_learners\<lparr>ll_faults := (\<lambda>s. if s = ''learners.read'' then Some pgrst116 else None)\<rparr>) ''GL''
     (demo_update\<lparr>ud_fullName := None, ud_country := None, ud_financeGoals := None\<rparr>) [demo_profile]) = [r'] \<and>
   row_complete r' \<and> \<not> lf_complete r'"
proof -
  let ?env = "demo_learners\<lparr>ll_faults := (\<lambda>s. if s = ''learners.read'' then Some pgrst116 else None)\<rparr>"
  let ?d = "demo_update\<lparr>ud_fullName := None, ud_country := None, ud_financeGoals := None\<rparr>"
  have "lf_wallet demo_profile = ''GL''" "lf_complete demo_profile" "row_complete demo_profile"
    by (simp_all add: demo_profile_def demo_update_def given_def is_complete_def present_def)
  from lost_read_clears_flag [OF refl this, of ?env pgrst116 ?d demo_learners] show ?thesis
    by (auto simp: demo_learners_def)
qed

end
