(* ===== verification/DocsServer.thy ===== *)
theory DocsServer imports Prelude "HOL-Library.AList" "HOL-Library.Multiset" begin

text \<open>
  The documentation server (\<open>mcp/src/index.ts\<close>): the indexer that walks the documentation
  directory, the search with its scores, and the three tools answered over the Model Context
  Protocol. The file tree is an argument, in the order \<open>readdirSync\<close> lists it; a JavaScript \<open>Map\<close>
  is an association list in insertion order, and \<open>Map.set\<close> is \<open>AList.update\<close>.
\<close>

section \<open>Texts\<close>

definition is_eol :: "char \<Rightarrow> bool" where "is_eol c \<longleftrightarrow> c = CHR 0x0A \<or> c = CHR 0x0D"

definition is_word :: "char \<Rightarrow> bool" where
  "is_word c = (let n = of_char c :: nat in (48 \<le> n \<and> n \<le> 57) \<or> (65 \<le> n \<and> n \<le> 90) \<or> n = 95 \<or> (97 \<le> n \<and> n \<le> 122))"

text \<open>
  What \<open>\s+(.+)$\<close> captures after a \<open>#\<close>: the spaces may run over line ends; when nothing but spaces
  is left, the last one that is not a line end is given back to the group.
\<close>

definition heading :: "string \<Rightarrow> string option" where
  "heading cs =
     (let spaces = takeWhile is_space cs; rest = dropWhile is_space cs
      in if spaces = [] then None
         else if rest \<noteq> [] then Some (takeWhile (\<lambda>c. \<not> is_eol c) rest)
         else case filter (\<lambda>c. \<not> is_eol c) (tl spaces) of [] \<Rightarrow> None | xs \<Rightarrow> Some [last xs])"

text \<open>The first match of \<open>/^#\s+(.+)$/m\<close>; the flag tells whether a line begins here.\<close>

fun first_heading :: "bool \<Rightarrow> string \<Rightarrow> string option" where
  "first_heading bol [] = None"
| "first_heading bol (c # cs) =
     (case (if bol \<and> c = CHR ''#'' then heading cs else None) of
        Some t \<Rightarrow> Some t
      | None \<Rightarrow> first_heading (is_eol c) cs)"

text \<open>\<open>replace(/\b\w/g, c => c.toUpperCase())\<close>; the flag tells whether a word character precedes.\<close>

fun capitalize_words :: "bool \<Rightarrow> string \<Rightarrow> string" where
  "capitalize_words inside [] = []"
| "capitalize_words inside (c # cs) =
     (if is_word c \<and> \<not> inside then upper_char c else c) # capitalize_words (is_word c) cs"

definition strip_suffix :: "string \<Rightarrow> string \<Rightarrow> string" where
  "strip_suffix suf s = (if suffix suf s then take (length s - length suf) s else s)"

definition extractTitle :: "string \<Rightarrow> string \<Rightarrow> string" where
  "extractTitle content filename =
     (case first_heading True content of
        Some h \<Rightarrow> trim h
      | None \<Rightarrow> capitalize_words False (map (\<lambda>c. if c = CHR ''-'' then CHR '' '' else c) (strip_suffix ''.md'' filename)))"

fun join_with :: "string \<Rightarrow> string list \<Rightarrow> string" where
  "join_with sep [] = []"
| "join_with sep [x] = x"
| "join_with sep (x # y # ys) = x @ sep @ join_with sep (y # ys)"

section \<open>The index\<close>

record DocPage =
  dp_slug :: string
  dp_title :: string
  dp_section :: string
  dp_path :: string
  dp_content :: string

record DocSection =
  ds_name :: string
  ds_description :: string
  ds_pages :: "(string \<times> string) list"

record DocsIndexer =
  ix_pages :: "(string \<times> DocPage) list"
  ix_sections :: "(string \<times> DocSection) list"

datatype fs_entry = FsDir string "fs_entry list" | FsFile string string

definition getSectionInfo :: "string \<Rightarrow> string" where
  "getSectionInfo name =
     (case map_of [(''architecture'', ''System architecture, blockchain integration, and database design''),
                   (''setup'', ''Installation guides and configuration''),
                   (''development'', ''Development standards and coding guidelines''),
                   (''api'', ''API endpoint documentation and reference''),
                   (''root'', ''Project overview and general documentation'')] name of
        Some d \<Rightarrow> d | None \<Rightarrow> name @ '' documentation'')"

definition new_section :: "string \<Rightarrow> DocSection" where
  "new_section name = \<lparr>ds_name = name, ds_description = getSectionInfo name, ds_pages = []\<rparr>"

definition push_page :: "string \<Rightarrow> string \<Rightarrow> DocSection \<Rightarrow> DocSection" where
  "push_page slug title s = s\<lparr>ds_pages := ds_pages s @ [(slug, title)]\<rparr>"

definition under :: "string \<Rightarrow> string \<Rightarrow> string" where
  "under pre name = (if pre \<noteq> [] then pre @ ''/'' @ name else name)"

definition is_doc :: "string \<Rightarrow> bool" where
  "is_doc name \<longleftrightarrow> suffix ''.md'' name \<or> suffix ''.mdx'' name"

definition doc_page :: "string \<Rightarrow> string \<Rightarrow> string \<Rightarrow> string \<Rightarrow> DocPage" where
  "doc_page dir pre name content =
     (let filename = (if suffix ''.mdx'' name then strip_suffix ''.mdx'' name else strip_suffix ''.md'' name)
      in \<lparr>dp_slug = under pre filename,
          dp_title = extractTitle content name,
          dp_section = (let s = hd (split_on (CHR ''/'') pre) in if s = [] then ''root'' else s),
          dp_path = dir @ ''/'' @ name, dp_content = content\<rparr>)"

definition index_file :: "string \<Rightarrow> string \<Rightarrow> string \<Rightarrow> string \<Rightarrow> DocsIndexer \<Rightarrow> DocsIndexer" where
  "index_file dir pre name content ix =
     (if is_doc name
      then let p = doc_page dir pre name content
           in ix\<lparr>ix_pages := AList.update (dp_slug p) p (ix_pages ix),
                 ix_sections := AList.map_entry (dp_section p) (push_page (dp_slug p) (dp_title p)) (ix_sections ix)\<rparr>
      else ix)"

fun indexDirectory :: "string \<Rightarrow> string \<Rightarrow> fs_entry list \<Rightarrow> DocsIndexer \<Rightarrow> DocsIndexer" where
  "indexDirectory dir pre [] ix = ix"
| "indexDirectory dir pre (FsDir name es # rest) ix =
     indexDirectory dir pre rest
       (indexDirectory (dir @ ''/'' @ name) (under pre name) es
          (ix\<lparr>ix_sections := AList.update name (new_section name) (ix_sections ix)\<rparr>))"
| "indexDirectory dir pre (FsFile name content # rest) ix =
     indexDirectory dir pre rest (index_file dir pre name content ix)"

definition rootFiles :: "string list" where
  "rootFiles = [''README.md'', ''CONTRIBUTING.md'', ''ROADMAP.md'', ''SECURITY.md'']"

definition root_page :: "string \<Rightarrow> string \<Rightarrow> string \<Rightarrow> DocPage" where
  "root_page dir file content =
     \<lparr>dp_slug = strip_suffix ''.md'' (to_lower file), dp_title = extractTitle content file, dp_section = ''root'',
      dp_path = dir @ ''/'' @ file, dp_content = content\<rparr>"

definition index_root_file :: "string \<Rightarrow> (string \<Rightarrow> string option) \<Rightarrow> string \<Rightarrow> DocsIndexer \<Rightarrow> DocsIndexer" where
  "index_root_file dir read file ix =
     (case read file of
        None \<Rightarrow> ix
      | Some content \<Rightarrow>
          let p = root_page dir file content;
              secs = (if map_of (ix_sections ix) ''root'' = None
                      then AList.update ''root'' (new_section ''root'') (ix_sections ix) else ix_sections ix)
          in ix\<lparr>ix_pages := AList.update (dp_slug p) p (ix_pages ix),
                ix_sections := AList.map_entry ''root'' (push_page (dp_slug p) (dp_title p)) secs\<rparr>)"

definition indexDocs :: "string \<Rightarrow> fs_entry list \<Rightarrow> string \<Rightarrow> (string \<Rightarrow> string option) \<Rightarrow> DocsIndexer" where
  "indexDocs docsPath docs rootPath read =
     fold (index_root_file rootPath read) rootFiles
       (indexDirectory docsPath [] docs \<lparr>ix_pages = [], ix_sections = []\<rparr>)"

definition getDocPage :: "DocsIndexer \<Rightarrow> string \<Rightarrow> DocPage option" where
  "getDocPage ix slug = map_of (ix_pages ix) slug"

definition listSections :: "DocsIndexer \<Rightarrow> DocSection list" where
  "listSections ix = map snd (ix_sections ix)"

section \<open>Search\<close>

text \<open>The pieces \<open>s.split(q)\<close> gives for a non-empty separator, less one: its occurrences from the left.\<close>

function occurrences :: "string \<Rightarrow> string \<Rightarrow> nat" where
  "occurrences q s =
     (if s = [] then 0
      else if prefix q s then 1 + occurrences q (drop (max 1 (length q)) s)
      else occurrences q (tl s))"
  by pat_completeness auto
termination by (relation "measure (\<lambda>(q, s). length s)") auto

declare occurrences.simps [simp del]

definition content_matches :: "string \<Rightarrow> string \<Rightarrow> int" where
  "content_matches q s = (if q = [] then int (length s) - 1 else int (occurrences q s))"

definition score :: "string \<Rightarrow> DocPage \<Rightarrow> int" where
  "score query p =
     (let q = to_lower query
      in (if str_includes (to_lower (dp_title p)) q then 10 else 0) +
         (if str_includes (to_lower (dp_slug p)) q then 5 else 0) +
         min (content_matches q (to_lower (dp_content p))) 10)"

definition searchDocs :: "string \<Rightarrow> DocsIndexer \<Rightarrow> DocPage list" where
  "searchDocs query ix =
     take 10 (sort_key (\<lambda>p. - score query p) (filter (\<lambda>p. 0 < score query p) (map snd (ix_pages ix))))"

section \<open>The tools\<close>

datatype mcp_error = InvalidParams string | MethodNotFound string | TypeError

fun index_of :: "string \<Rightarrow> string \<Rightarrow> nat option" where
  "index_of q [] = (if q = [] then Some 0 else None)"
| "index_of q (c # cs) = (if prefix q (c # cs) then Some 0 else map_option Suc (index_of q cs))"

definition one_line :: "string \<Rightarrow> string" where
  "one_line s = map (\<lambda>c. if c = CHR 0x0A then CHR '' '' else c) s"

definition excerpt :: "string \<Rightarrow> string \<Rightarrow> string" where
  "excerpt query content =
     (case index_of (to_lower query) (to_lower content) of
        Some i \<Rightarrow>
          let start = i - 100; stop = min (length content) (i + length query + 100)
          in ''...'' @ one_line (drop start (take stop content)) @ ''...''
      | None \<Rightarrow> one_line (take 200 content) @ ''...'')"

definition nl :: string where "nl = [CHR 0x0A]"

definition format_result :: "string \<Rightarrow> DocPage \<Rightarrow> string" where
  "format_result query p =
     ''## '' @ dp_title p @ nl @ ''- **Slug:** '' @ dp_slug p @ nl @ ''- **Section:** '' @ dp_section p @ nl @
     ''- **Excerpt:** '' @ excerpt query (dp_content p)"

definition rule_line :: string where "rule_line = nl @ nl @ ''---'' @ nl @ nl"

definition format_section :: "DocSection \<Rightarrow> string" where
  "format_section s =
     ''## '' @ map upper_char (take 1 (ds_name s)) @ drop 1 (ds_name s) @ nl @ ds_description s @ nl @ nl @
     ''**Pages:**'' @ nl @ join_with nl (map (\<lambda>(slug, title). ''  - **'' @ title @ ''** (`'' @ slug @ ''`)'') (ds_pages s))"

text \<open>The arguments of a call may be missing altogether; a field is a string or missing.\<close>

definition callTool :: "DocsIndexer \<Rightarrow> string \<Rightarrow> (string \<Rightarrow> string option) option \<Rightarrow> mcp_error + string" where
  "callTool ix name args =
     (if name = ''search_docs'' then
        (case args of None \<Rightarrow> Inl TypeError
         | Some a \<Rightarrow>
             (case present (a ''query'') of
                None \<Rightarrow> Inl (InvalidParams ''Query parameter is required'')
              | Some q \<Rightarrow>
                  let results = searchDocs q ix
                  in if results = [] then Inr (''No documentation found for query: \"'' @ q @ ''\"'')
                     else Inr (''# Search Results for \"'' @ q @ ''\"'' @ nl @ nl @ ''Found '' @ decimal (length results) @
                       '' matching page(s):'' @ nl @ nl @ join_with rule_line (map (format_result q) results))))
      else if name = ''get_doc_page'' then
        (case args of None \<Rightarrow> Inl TypeError
         | Some a \<Rightarrow>
             (case present (a ''slug'') of
                None \<Rightarrow> Inl (InvalidParams ''Slug parameter is required'')
              | Some s \<Rightarrow>
                  (case getDocPage ix s of
                     None \<Rightarrow> Inl (InvalidParams (''Documentation page not found: \"'' @ s @ ''\"''))
                   | Some p \<Rightarrow> Inr (''# '' @ dp_title p @ nl @ nl @ ''**Section:** '' @ dp_section p @ nl @ ''**Slug:** '' @
                       dp_slug p @ rule_line @ dp_content p))))
      else if name = ''list_doc_sections'' then
        Inr (''# StepFi API Documentation'' @ nl @ nl @ ''Available documentation sections:'' @ nl @ nl @
          join_with rule_line (map format_section (listSections ix)))
      else Inl (MethodNotFound (''Unknown tool: '' @ name)))"

text \<open>What the server lists: the tools with the fields of their arguments, all texts, and the required ones.\<close>

record tool =
  tl_name :: string
  tl_fields :: "string list"
  tl_required :: "string list"

definition tools :: "tool list" where
  "tools =
     [\<lparr>tl_name = ''search_docs'', tl_fields = [''query''], tl_required = [''query'']\<rparr>,
      \<lparr>tl_name = ''get_doc_page'', tl_fields = [''slug''], tl_required = [''slug'']\<rparr>,
      \<lparr>tl_name = ''list_doc_sections'', tl_fields = [], tl_required = []\<rparr>]"

text \<open>
  At start-up the first directory that exists: beside the working directory, in it, or beside the
  program. Without one the process exits.
\<close>

definition docs_directory :: "(string \<Rightarrow> bool) \<Rightarrow> string \<Rightarrow> string \<Rightarrow> string \<Rightarrow> string option" where
  "docs_directory exists beside inside fallback = find exists [beside, inside, fallback]"

lemma docs_directory_exists: "docs_directory exists a b c = Some d \<Longrightarrow> exists d"
  by (auto simp: docs_directory_def split: if_splits)

text \<open>
  The list and the dispatch agree: the names that are refused as unknown are those not listed, and a
  call without arguments crashes exactly where the schema requires some, since the schema is not
  enforced.
\<close>

theorem listed_tools_handled:
  "(\<exists>m. callTool ix name args = Inl (MethodNotFound m)) = (name \<notin> set (map tl_name tools)) \<and>
   (callTool ix name args = Inl TypeError) = (args = None \<and> (\<exists>t. t \<in> set tools \<and> tl_name t = name \<and> tl_required t \<noteq> []))"
proof -
  have set: "set (map tl_name tools) = {''search_docs'', ''get_doc_page'', ''list_doc_sections''}" by (simp add: tools_def)
  have req: "(\<exists>t. t \<in> set tools \<and> tl_name t = name \<and> tl_required t \<noteq> []) = (name = ''search_docs'' \<or> name = ''get_doc_page'')"
    unfolding eq_commute [of name] by (simp add: tools_def conj_disj_distribR ex_disj_distrib)
  consider "name = ''search_docs''" | "name = ''get_doc_page''" | "name = ''list_doc_sections''"
    | "name \<notin> {''search_docs'', ''get_doc_page'', ''list_doc_sections''}" by blast
  then show ?thesis
  proof cases
    case 1 then show ?thesis unfolding set req by (simp add: callTool_def Let_def split: option.split)
  next
    case 2 then show ?thesis unfolding set req by (simp add: callTool_def split: option.split)
  next
    case 3 then show ?thesis unfolding set req by (simp add: callTool_def)
  next
    case 4
    then have "callTool ix name args = Inl (MethodNotFound (''Unknown tool: '' @ name))" unfolding callTool_def by (simp only: insert_iff empty_iff if_False simp_thms de_Morgan_disj)
    with 4 show ?thesis unfolding set req by simp
  qed
qed


section \<open>Every document is found\<close>

text \<open>The documents of a tree in the order they are visited, and those of the project's root.\<close>

fun tree_docs :: "string \<Rightarrow> string \<Rightarrow> fs_entry list \<Rightarrow> DocPage list" where
  "tree_docs dir pre [] = []"
| "tree_docs dir pre (FsDir name es # rest) = tree_docs (dir @ ''/'' @ name) (under pre name) es @ tree_docs dir pre rest"
| "tree_docs dir pre (FsFile name content # rest) =
     (if is_doc name then [doc_page dir pre name content] else []) @ tree_docs dir pre rest"

definition root_docs :: "string \<Rightarrow> (string \<Rightarrow> string option) \<Rightarrow> DocPage list" where
  "root_docs dir read = concat (map (\<lambda>f. case read f of Some c \<Rightarrow> [root_page dir f c] | None \<Rightarrow> []) rootFiles)"

abbreviation put_page :: "DocPage \<Rightarrow> (string \<times> DocPage) list \<Rightarrow> (string \<times> DocPage) list" where
  "put_page p \<equiv> AList.update (dp_slug p) p"

lemma pages_indexDirectory:
  "ix_pages (indexDirectory dir pre es ix) = fold put_page (tree_docs dir pre es) (ix_pages ix)"
  by (induction dir pre es ix rule: indexDirectory.induct) (simp_all add: index_file_def Let_def)

lemma pages_index_root:
  "ix_pages (fold (index_root_file dir read) fs ix) =
     fold put_page (concat (map (\<lambda>f. case read f of Some c \<Rightarrow> [root_page dir f c] | None \<Rightarrow> []) fs)) (ix_pages ix)"
  by (induction fs arbitrary: ix) (auto simp: index_root_file_def Let_def split: option.split)

lemma pages_indexDocs:
  "ix_pages (indexDocs dir docs root_dir read) = fold put_page (tree_docs dir [] docs @ root_docs root_dir read) []"
  by (simp add: indexDocs_def pages_index_root pages_indexDirectory root_docs_def)

lemma map_of_put_pages:
  "map_of (fold put_page ps al) s =
     (case find (\<lambda>p. dp_slug p = s) (rev ps) of Some p \<Rightarrow> Some p | None \<Rightarrow> map_of al s)"
  by (induction ps rule: rev_induct) (auto simp: update_conv)

lemma set_update_subset: "set (AList.update k v al) \<subseteq> insert (k, v) (set al)"
  by (induction al) auto

lemma put_pages_ok:
  "distinct (map fst al) \<Longrightarrow> \<forall>(s, p) \<in> set al. dp_slug p = s \<Longrightarrow>
   distinct (map fst (fold put_page ps al)) \<and> (\<forall>(s, p) \<in> set (fold put_page ps al). dp_slug p = s)"
proof (induction ps arbitrary: al)
  case (Cons p ps)
  have "set (put_page p al) \<subseteq> insert (dp_slug p, p) (set al)" by (rule set_update_subset)
  with Cons.prems have "\<forall>(s, q) \<in> set (put_page p al). dp_slug q = s" by auto
  with Cons.IH [OF distinct_update [OF Cons.prems(1)]] show ?case by simp
qed simp

text \<open>The index holds the documentation: a page can be read under a slug exactly when a document of
  the tree or of the project's root has it, and the answer is the one visited last; every slug is
  stored once, under the page that carries it.\<close>

theorem documents_indexed:
  "getDocPage (indexDocs dir docs root_dir read) s =
     find (\<lambda>p. dp_slug p = s) (rev (tree_docs dir [] docs @ root_docs root_dir read)) \<and>
   distinct (map dp_slug (map snd (ix_pages (indexDocs dir docs root_dir read))))"
proof -
  have ok: "distinct (map fst (ix_pages (indexDocs dir docs root_dir read))) \<and>
      (\<forall>(s, p) \<in> set (ix_pages (indexDocs dir docs root_dir read)). dp_slug p = s)"
    unfolding pages_indexDocs by (rule put_pages_ok) simp_all
  then have "map dp_slug (map snd (ix_pages (indexDocs dir docs root_dir read))) =
      map fst (ix_pages (indexDocs dir docs root_dir read))"
    by (auto intro!: map_cong)
  with ok show ?thesis
    by (simp only: getDocPage_def pages_indexDocs map_of_put_pages) (simp split: option.split)
qed

section \<open>The search gives the ten best\<close>

text \<open>A search answers at most ten pages, and all that score when they are fewer: pages of the index,
  each once, with a positive score, best first, and none left out scores more than one shown.\<close>

theorem search_shows_the_best:
  fixes query ix
  defines "rs \<equiv> searchDocs query ix" and "ps \<equiv> map snd (ix_pages ix)"
  shows "length rs = min 10 (length (filter (\<lambda>p. 0 < score query p) ps)) \<and> mset rs \<subseteq># mset ps \<and>
    (\<forall>p \<in> set rs. 0 < score query p) \<and> sorted_wrt (\<lambda>p p'. score query p' \<le> score query p) rs \<and>
    (\<forall>p \<in># mset ps - mset rs. \<forall>r \<in> set rs. score query p \<le> score query r)"
proof -
  define hits where "hits = sort_key (\<lambda>p. - score query p) (filter (\<lambda>p. 0 < score query p) ps)"
  have rs: "rs = take 10 hits" by (simp add: rs_def searchDocs_def hits_def ps_def)
  have len: "length rs = min 10 (length (filter (\<lambda>p. 0 < score query p) ps))" by (simp add: rs hits_def)
  have "sorted (map (\<lambda>p. - score query p) hits)" by (simp add: hits_def)
  then have sorted: "sorted_wrt (\<lambda>p p'. score query p' \<le> score query p) hits" by (simp add: sorted_map)
  then have s: "sorted_wrt (\<lambda>p p'. score query p' \<le> score query p) rs" by (simp add: rs sorted_wrt_take)
  have split: "mset hits = mset rs + mset (drop 10 hits)" unfolding rs by (metis append_take_drop_id mset_append)
  have hits: "mset hits = filter_mset (\<lambda>p. 0 < score query p) (mset ps)" by (simp add: hits_def)
  have pos: "\<forall>p \<in> set rs. 0 < score query p" unfolding rs by (auto dest: in_set_takeD simp: hits_def)
  have sub: "mset rs \<subseteq># mset ps" using split hits
    by (metis mset_subset_eq_add_left multiset_filter_subset subset_mset.order_trans)
  have "score query p \<le> score query r" if p: "p \<in># mset ps - mset rs" and r: "r \<in> set rs" for p r
  proof (cases "0 < score query p")
    case True
    have "count (mset hits) p = count (mset ps) p" using True by (simp add: hits)
    then have "count (mset (drop 10 hits)) p = count (mset ps - mset rs) p" unfolding split by simp
    with p have "p \<in> set (drop 10 hits)" by (metis count_greater_zero_iff set_mset_mset)
    moreover have "sorted_wrt (\<lambda>p p'. score query p' \<le> score query p) (take 10 hits @ drop 10 hits)" using sorted by simp
    ultimately show ?thesis using r unfolding rs sorted_wrt_append by blast
  next
    case False
    with pos r show ?thesis by (meson dual_order.strict_trans1 not_le_imp_less order.strict_implies_order)
  qed
  with len sub pos s show ?thesis by blast
qed


section \<open>What the list of sections shows\<close>

lemma section_plain: "CHR ''/'' \<notin> set d \<Longrightarrow> d \<noteq> [] \<Longrightarrow> dp_section (doc_page dir d name content) = d"
  by (simp add: doc_page_def Let_def split_on_plain)

lemma section_nested: "CHR ''/'' \<notin> set x \<Longrightarrow> x \<noteq> [] \<Longrightarrow> dp_section (doc_page dir (under x d) name content) = x"
proof -
  have "hd (split_on (CHR ''/'') (x @ CHR ''/'' # d)) = x" if "CHR ''/'' \<notin> set x"
    using that by (induction x) (auto split: list.splits)
  then show "CHR ''/'' \<notin> set x \<Longrightarrow> x \<noteq> [] \<Longrightarrow> ?thesis" by (simp add: doc_page_def Let_def under_def)
qed

definition entries :: "DocPage list \<Rightarrow> (string \<times> string) list" where
  "entries ps = map (\<lambda>p. (dp_slug p, dp_title p)) ps"

lemma map_entry_last:
  "k \<notin> fst ` set al \<Longrightarrow> AList.map_entry k f (al @ [(k, v)]) = al @ [(k, f v)]"
  by (induction al) auto

lemma update_new: "k \<notin> fst ` set al \<Longrightarrow> AList.update k v al = al @ [(k, v)]"
  by (induction al) auto

text \<open>A directory of files fills its section, the last one of the index.\<close>

lemma sections_files:
  assumes "CHR ''/'' \<notin> set d" and "d \<noteq> []" and "d \<notin> fst ` set secs" and "ix_sections ix = secs @ [(d, s)]"
  shows "ix_sections (indexDirectory dir d (map (\<lambda>(n, c). FsFile n c) fs) ix) =
    secs @ [(d, s\<lparr>ds_pages := ds_pages s @ entries (tree_docs dir d (map (\<lambda>(n, c). FsFile n c) fs))\<rparr>)]"
  using assms(4)
proof (induction fs arbitrary: ix s)
  case (Cons f fs)
  obtain n c where f: "f = (n, c)" by (cases f)
  show ?case
  proof (cases "is_doc n")
    case True
    let ?p = "doc_page dir d n c"
    have "ix_sections (index_file dir d n c ix) = secs @ [(d, push_page (dp_slug ?p) (dp_title ?p) s)]"
      using True Cons.prems assms(1-3) by (simp add: index_file_def Let_def section_plain map_entry_last)
    from Cons.IH [OF this] show ?thesis using True by (simp add: f push_page_def entries_def)
  next
    case False
    then have "index_file dir d n c ix = ix" by (simp add: index_file_def)
    with Cons.IH [OF Cons.prems] False show ?thesis by (simp add: f)
  qed
qed (simp add: entries_def)

abbreviation flat_dir :: "string \<times> (string \<times> string) list \<Rightarrow> fs_entry" where
  "flat_dir \<equiv> \<lambda>(d, fs). FsDir d (map (\<lambda>(n, c). FsFile n c) fs)"

abbreviation dir_section :: "string \<Rightarrow> string \<times> (string \<times> string) list \<Rightarrow> string \<times> DocSection" where
  "dir_section dir \<equiv> \<lambda>(d, fs). (d, (new_section d)\<lparr>ds_pages := entries (tree_docs (dir @ ''/'' @ d) d (map (\<lambda>(n, c). FsFile n c) fs))\<rparr>)"

lemma sections_flat:
  assumes "\<forall>(d, fs) \<in> set ds. CHR ''/'' \<notin> set d \<and> d \<noteq> []" and "distinct (map fst ds)"
    and "fst ` set ds \<inter> fst ` set (ix_sections ix) = {}"
  shows "ix_sections (indexDirectory dir [] (map flat_dir ds) ix) = ix_sections ix @ map (dir_section dir) ds"
  using assms
proof (induction ds arbitrary: ix)
  case (Cons e ds)
  obtain d fs where e: "e = (d, fs)" by (cases e)
  let ?ix = "ix\<lparr>ix_sections := AList.update d (new_section d) (ix_sections ix)\<rparr>"
  have d: "CHR ''/'' \<notin> set d" "d \<noteq> []" "d \<notin> fst ` set (ix_sections ix)" using Cons.prems by (auto simp: e)
  let ?ix' = "indexDirectory (dir @ ''/'' @ d) d (map (\<lambda>(n, c). FsFile n c) fs) ?ix"
  have s: "ix_sections ?ix' = ix_sections ix @ [dir_section dir e]"
    using sections_files [OF d(1-3), of ?ix "new_section d"] d(3) by (simp add: e update_new new_section_def)
  have "fst ` set (ix_sections ?ix') = insert d (fst ` set (ix_sections ix))" unfolding s by (simp add: e)
  then have "fst ` set ds \<inter> fst ` set (ix_sections ?ix') = {}" using Cons.prems(2,3) by (auto simp: e)
  with Cons.prems have "ix_sections (indexDirectory dir [] (map flat_dir ds) ?ix') = ix_sections ?ix' @ map (dir_section dir) ds"
    by (intro Cons.IH) (auto simp: e)
  then show ?case using s by (simp add: e under_def)
qed simp

lemma sections_root:
  assumes "''root'' \<notin> fst ` set secs" and "ix_sections ix = secs @ (if ps = [] then [] else [(''root'', (new_section ''root'')\<lparr>ds_pages := entries ps\<rparr>)])"
  shows "ix_sections (fold (index_root_file dir read) fs ix) =
    secs @ (let all = ps @ concat (map (\<lambda>f. case read f of Some c \<Rightarrow> [root_page dir f c] | None \<Rightarrow> []) fs)
            in if all = [] then [] else [(''root'', (new_section ''root'')\<lparr>ds_pages := entries all\<rparr>)])"
  using assms(2)
proof (induction fs arbitrary: ix ps)
  case (Cons f fs)
  show ?case
  proof (cases "read f")
    case None
    with Cons show ?thesis by (simp add: index_root_file_def)
  next
    case (Some c)
    let ?p = "root_page dir f c"
    have "map_of secs ''root'' = None" using assms(1) by (simp add: map_of_eq_None_iff)
    then have "ix_sections (index_root_file dir read f ix) =
        secs @ [(''root'', (new_section ''root'')\<lparr>ds_pages := entries (ps @ [?p])\<rparr>)]"
      using Cons.prems assms(1) Some
      by (auto simp: index_root_file_def Let_def map_entry_last update_new push_page_def entries_def new_section_def map_add_def
          image_iff)
    then show ?thesis using Cons.IH [of "index_root_file dir read f ix" "ps @ [?p]"] Some by (simp add: Let_def)
  qed
qed simp

text \<open>For a documentation of directories that hold files only, the list of sections is complete: one
  section per directory, in order, with exactly its documents, and after them the documents of the
  project's root when there are any.\<close>

theorem flat_documentation_listed:
  assumes "\<forall>(d, fs) \<in> set ds. CHR ''/'' \<notin> set d \<and> d \<noteq> [] \<and> d \<noteq> ''root''" and "distinct (map fst ds)"
  shows "map (\<lambda>s. (ds_name s, ds_pages s)) (listSections (indexDocs dir (map flat_dir ds) root_dir read)) =
    map (\<lambda>(d, fs). (d, entries (tree_docs (dir @ ''/'' @ d) d (map (\<lambda>(n, c). FsFile n c) fs)))) ds @
    (if root_docs root_dir read = [] then [] else [(''root'', entries (root_docs root_dir read))])"
proof -
  let ?ix = "indexDirectory dir [] (map flat_dir ds) \<lparr>ix_pages = [], ix_sections = []\<rparr>"
  have "\<forall>(d, fs) \<in> set ds. CHR ''/'' \<notin> set d \<and> d \<noteq> []" using assms(1) by fast
  from sections_flat [OF this assms(2), of "\<lparr>ix_pages = [], ix_sections = []\<rparr>" dir]
  have s: "ix_sections ?ix = map (dir_section dir) ds" by simp
  have "''root'' \<notin> fst ` set (map (dir_section dir) ds)" using assms(1) by fastforce
  from sections_root [OF this, of ?ix "[]" root_dir read rootFiles] s
  show ?thesis by (auto simp: indexDocs_def listSections_def root_docs_def Let_def new_section_def)
qed

text \<open>A directory hides the pages of an earlier one: when a directory nested in another has the name of
  a section that was listed before, that section's list is emptied, although all its pages are still
  found, and documents that lie directly in the documentation directory are listed nowhere.\<close>

theorem nested_directory_unlists:
  assumes "CHR ''/'' \<notin> set d" "d \<noteq> []" and "CHR ''/'' \<notin> set x" "x \<noteq> []" "x \<noteq> d" "x \<noteq> ''root''" and "d \<noteq> ''root''"
    and "is_doc n" "is_doc top_file" and "\<And>f. read f = None"
    and "ix = indexDocs dir [FsFile top_file t, FsDir d [FsFile n c], FsDir x [FsDir d []]] root_dir read"
  shows "map (\<lambda>s. (ds_name s, ds_pages s)) (listSections ix) = [(d, []), (x, [])] \<and>
    getDocPage ix (dp_slug (doc_page (dir @ ''/'' @ d) d n c)) = Some (doc_page (dir @ ''/'' @ d) d n c)"
proof
  let ?p = "doc_page (dir @ ''/'' @ d) d n c"
  let ?q = "doc_page dir [] top_file t"
  have r: "root_docs root_dir read = []" using assms(10) by (simp add: root_docs_def rootFiles_def)
  have "find (\<lambda>p. dp_slug p = dp_slug ?p) [?p, ?q] = Some ?p" by simp
  then show "getDocPage ix (dp_slug ?p) = Some ?p"
    using documents_indexed [of dir "[FsFile top_file t, FsDir d [FsFile n c], FsDir x [FsDir d []]]" root_dir read "dp_slug ?p"] assms(8,9)
    by (simp add: r assms(11) under_def)
  have q: "dp_section ?q = ''root''" by (simp add: doc_page_def Let_def)
  have "fold (index_root_file root_dir read) rootFiles i = i" for i
    by (simp add: rootFiles_def index_root_file_def assms(10))
  then show "map (\<lambda>s. (ds_name s, ds_pages s)) (listSections ix) = [(d, []), (x, [])]"
    using assms(1-9) by (simp add: assms(11) indexDocs_def index_file_def Let_def q section_plain listSections_def under_def new_section_def)
qed


theorem flat_documentation_listed_witness:
  "map (\<lambda>s. (ds_name s, ds_pages s)) (listSections (indexDocs ''docs''
     (map flat_dir [(''api'', [(''endpoints.md'', ''# API'')]), (''setup'', [(''notes.txt'', ''x'')])]) ''.'' (\<lambda>_. None))) =
   [(''api'', [(''api/endpoints'', ''API'')]), (''setup'', [])]"
proof -
  have "(\<forall>(d, fs) \<in> set [(''api'', [(''endpoints.md'', ''# API'')]), (''setup'', [(''notes.txt'', ''x'')])].
      CHR ''/'' \<notin> set d \<and> d \<noteq> [] \<and> d \<noteq> ''root'')" by simp
  moreover have "is_doc ''endpoints.md''" "\<not> is_doc ''notes.txt''" by code_simp+
  moreover have "doc_page ''docs/api'' ''api'' ''endpoints.md'' ''# API'' =
      \<lparr>dp_slug = ''api/endpoints'', dp_title = ''API'', dp_section = ''api'', dp_path = ''docs/api/endpoints.md'', dp_content = ''# API''\<rparr>"
    by code_simp
  ultimately show ?thesis
    by (subst flat_documentation_listed) (simp_all add: entries_def root_docs_def rootFiles_def)
qed

theorem nested_directory_unlists_witness:
  "map (\<lambda>s. (ds_name s, ds_pages s)) (listSections (indexDocs ''docs''
     [FsFile ''README.md'' ''# Docs'', FsDir ''api'' [FsFile ''endpoints.md'' ''# API''], FsDir ''setup'' [FsDir ''api'' []]]
     ''.'' (\<lambda>_. None))) = [(''api'', []), (''setup'', [])]"
proof -
  have "is_doc ''endpoints.md''" "is_doc ''README.md''" by code_simp+
  then show ?thesis
    using nested_directory_unlists [of "''api''" "''setup''" "''endpoints.md''" "''README.md''" "\<lambda>_. None" _ "''docs''" "''# Docs''" "''# API''" "''.''"]
    by simp
qed

end
