(* ===== verification/Deployment.thy ===== *)
theory Deployment imports Transactions PoolClient begin

text \<open>
  The settings every part reads at start-up for itself, which must fit together: the network and the
  addresses of the contracts, in the clients that prepare transactions (\<open>stellar/contracts/clients\<close>,
  \<open>blockchain/contracts\<close>), in the service that accepts them (\<open>modules/transactions\<close>), and in the jobs and the
  indexer. A setting is looked up by \<open>get\<close>.
\<close>

section \<open>Settings\<close>

text \<open>\<open>get(k1) || get(k2) || ... || ''\<close>.\<close>

fun first_setting :: "(string \<Rightarrow> string option) \<Rightarrow> string list \<Rightarrow> string" where
  "first_setting get [] = []"
| "first_setting get (k # ks) = (case present (get k) of Some v \<Rightarrow> v | None \<Rightarrow> first_setting get ks)"

definition creditline_contract :: "(string \<Rightarrow> string option) \<Rightarrow> string" where
  "creditline_contract get = first_setting get [''CREDIT_LINE_CONTRACT_ID'', ''CREDITLINE_CONTRACT_ID'']"

definition pool_contract :: "(string \<Rightarrow> string option) \<Rightarrow> string" where
  "pool_contract get = first_setting get [''LIQUIDITY_POOL_CONTRACT_ID'', ''LIQUIDITY_CONTRACT_ID'']"

definition pool_contract_p :: "(string \<Rightarrow> string option) \<Rightarrow> string" where
  "pool_contract_p get = first_setting get [''LIQUIDITY_POOL_CONTRACT_ID'', ''LIQUIDITY_CONTRACT_ID'']"

definition registry_contract :: "(string \<Rightarrow> string option) \<Rightarrow> string" where
  "registry_contract get = first_setting get [''VENDOR_REGISTRY_CONTRACT_ID'']"

definition reputation_contract :: "(string \<Rightarrow> string option) \<Rightarrow> string" where
  "reputation_contract get = first_setting get [''REPUTATION_CONTRACT_ID'']"

definition parameters_contract :: "(string \<Rightarrow> string option) \<Rightarrow> string" where
  "parameters_contract get = first_setting get [''PARAMETERS_CONTRACT_ID'']"

text \<open>The indexer follows two contracts.\<close>

definition indexed_contracts :: "(string \<Rightarrow> string option) \<Rightarrow> string \<times> string" where
  "indexed_contracts get = (first_setting get [''CREDIT_LINE_CONTRACT_ID''], first_setting get [''REPUTATION_CONTRACT_ID''])"

text \<open>The network: the address of Horizon and the passphrase, whose default is that of the test network.\<close>

record network_settings =
  ns_horizon :: string
  ns_passphrase :: string

definition network_with :: "(string \<Rightarrow> string option) \<Rightarrow> string \<Rightarrow> network_settings" where
  "network_with get testnet =
     \<lparr>ns_horizon = (case present (get ''STELLAR_HORIZON_URL'') of Some v \<Rightarrow> v | None \<Rightarrow> ''https://horizon-testnet.stellar.org''),
      ns_passphrase = (case present (get ''STELLAR_NETWORK_PASSPHRASE'') of Some v \<Rightarrow> v | None \<Rightarrow> testnet)\<rparr>"

definition network_submission :: "(string \<Rightarrow> string option) \<Rightarrow> string \<Rightarrow> network_settings" where
  "network_submission = network_with"

definition network_job :: "(string \<Rightarrow> string option) \<Rightarrow> string \<Rightarrow> network_settings" where
  "network_job = network_with"

definition network_worker :: "(string \<Rightarrow> string option) \<Rightarrow> string \<Rightarrow> network_settings" where
  "network_worker = network_with"

definition network_relay :: "(string \<Rightarrow> string option) \<Rightarrow> string \<Rightarrow> network_settings" where
  "network_relay = network_with"

section \<open>What the clients prepare\<close>

text \<open>The six transactions of the API, each for the wallet that is meant to sign it.\<close>

datatype preparation =
    PrepareLoan string CreateLoanParams
  | PrepareRepayment string string num
  | PrepareDeposit string int
  | PrepareWithdrawal string int
  | PrepareApproval string string
  | PrepareSuspension string string

fun prepared_kind :: "preparation \<Rightarrow> tx_kind" where
  "prepared_kind (PrepareLoan _ _) = LoanCreate"
| "prepared_kind (PrepareRepayment _ _ _) = LoanRepay"
| "prepared_kind (PrepareDeposit _ _) = Deposit"
| "prepared_kind (PrepareWithdrawal _ _) = Withdraw"
| "prepared_kind (PrepareApproval _ _) = VendorApprove"
| "prepared_kind (PrepareSuspension _ _) = VendorSuspend"

fun prepared_for :: "preparation \<Rightarrow> string" where
  "prepared_for (PrepareLoan w _) = w"
| "prepared_for (PrepareRepayment w _ _) = w"
| "prepared_for (PrepareDeposit w _) = w"
| "prepared_for (PrepareWithdrawal w _) = w"
| "prepared_for (PrepareApproval w _) = w"
| "prepared_for (PrepareSuspension w _) = w"

definition pool_client :: "soroban \<Rightarrow> (string \<Rightarrow> string option) \<Rightarrow> pool_env" where
  "pool_client sb get = \<lparr>pe_soroban = sb, pe_cid = pool_contract get, pe_bigint = (\<lambda>_. None)\<rparr>"

fun prepared_invocation :: "soroban \<Rightarrow> (string \<Rightarrow> string option) \<Rightarrow> preparation \<Rightarrow> invocation" where
  "prepared_invocation sb get (PrepareLoan w p) = create_loan_invocation (creditline_contract get) w p"
| "prepared_invocation sb get (PrepareRepayment w l amt) = repay_invocation (creditline_contract get) (random_key sb) w l amt"
| "prepared_invocation sb get (PrepareDeposit w n) = pool_invocation (pool_client sb get) ''deposit'' w n"
| "prepared_invocation sb get (PrepareWithdrawal w n) = pool_invocation (pool_client sb get) ''withdraw'' w n"
| "prepared_invocation sb get (PrepareApproval w v) = vendor_invocation (registry_contract get) (random_key sb) ''approve_vendor'' w v"
| "prepared_invocation sb get (PrepareSuspension w v) = vendor_invocation (registry_contract get) (random_key sb) ''suspend_vendor'' w v"

text \<open>
  That a parsed transaction is a prepared one, signed: the SDK keeps the source, the single operation, its
  function and the address of its contract, which is 32 bytes in the envelope; the node adds the
  authorizations.
\<close>

definition carries :: "tx_env \<Rightarrow> invocation \<Rightarrow> transaction \<Rightarrow> bool" where
  "carries env iv t \<longleftrightarrow>
     tr_source (getInnerTransaction t) = inv_source iv \<and>
     (\<exists>b auths. tr_operations (getInnerTransaction t) = [InvokeHostFunction (Some (inv_fn iv)) (Some (RawBuffer b)) auths] \<and>
        length b = 32 \<and> te_encode env b = Some (inv_contract iv))"

section \<open>Properties\<close>

lemma first_setting_hd: "present (get k) = Some v \<Longrightarrow> first_setting get (k # ks) = v"
  by simp

text \<open>The key the allowlist reads is the first the client of the contract reads.\<close>

lemma prepared_contract:
  "present (get (al_contract_key (TRANSACTION_TYPE_ALLOWLIST (prepared_kind p)))) = Some c \<Longrightarrow> inv_contract (prepared_invocation sb get p) = c"
  by (cases p) (simp_all add: create_loan_invocation_def repay_invocation_def pool_invocation_def vendor_invocation_def pool_client_def
      creditline_contract_def pool_contract_def registry_contract_def)

lemma prepared_function:
  "inv_fn (prepared_invocation sb get p) \<in> set (al_functions (TRANSACTION_TYPE_ALLOWLIST k)) \<longleftrightarrow> k = prepared_kind p"
  "inv_fn (prepared_invocation sb get p) \<noteq> []"
  by (cases p; cases k; simp add: create_loan_invocation_def repay_invocation_def pool_invocation_def vendor_invocation_def)+

text \<open>C22: What the API prepares is what it accepts: a prepared transaction, signed and sent back, passes the allowlist
  of the kind it was prepared for and of no other, exactly when the setting of its contract that
  the allowlist reads is given without surrounding blanks. The clients also take the address from a second
  setting (\<open>CREDITLINE_CONTRACT_ID\<close>, the one the documentation names): with that one alone,
  transactions are prepared and all of them are refused as not configured.\<close>

theorem prepared_accepted:
  assumes "te_config env = get" and "carries env (prepared_invocation sb get p) t"
    and "inv_contract (prepared_invocation sb get p) \<noteq> []"
  shows "assertOperationAllowlist env t (prepared_kind p) =
      (case present (get (al_contract_key (TRANSACTION_TYPE_ALLOWLIST (prepared_kind p)))) of
         None \<Rightarrow> Inl (unavailable ''TRANSACTION_CONTRACT_NOT_CONFIGURED'')
       | Some c \<Rightarrow> if c = trim c then Inr () else Inl (bad_request ''TRANSACTION_TYPE_MISMATCH'')) \<and>
    (\<forall>k. k \<noteq> prepared_kind p \<longrightarrow> assertOperationAllowlist env t k = Inl (bad_request ''TRANSACTION_TYPE_MISMATCH''))"
proof -
  let ?iv = "prepared_invocation sb get p"
  from assms(2) obtain b auths where ops: "tr_operations (getInnerTransaction t) =
      [InvokeHostFunction (Some (inv_fn ?iv)) (Some (RawBuffer b)) auths]"
    and b: "length b = 32" "te_encode env b = Some (inv_contract ?iv)" by (auto simp: carries_def)
  have f: "present (Some (inv_fn ?iv)) = Some (inv_fn ?iv)" "present (Some (inv_contract ?iv)) = Some (inv_contract ?iv)"
    using prepared_function(2) [of sb get p] assms(3) by (simp_all add: present_Some)
  have check: "assertOperationAllowlist env t k =
      (if k \<noteq> prepared_kind p then Inl (bad_request ''TRANSACTION_TYPE_MISMATCH'')
       else case present (get (al_contract_key (TRANSACTION_TYPE_ALLOWLIST k))) of
         None \<Rightarrow> Inl (unavailable ''TRANSACTION_CONTRACT_NOT_CONFIGURED'')
       | Some c \<Rightarrow> if inv_contract ?iv = trim c then Inr () else Inl (bad_request ''TRANSACTION_TYPE_MISMATCH''))" for k
    using prepared_function(1) [of sb get p k] b f assms(1)
    by (auto simp: assertOperationAllowlist_def ops check_operation_def extractInvocationAttributes_def address_bytes_def Let_def
        split: option.split)
  show ?thesis
    using prepared_contract [of get p _ sb] by (auto simp: check split: option.split)
qed

text \<open>C21: Only the transaction of a new loan can settle. The others are prepared with a throwaway account as their
  source, whose key is discarded: on a network that takes transactions of existing accounts only,
  a signed one is recorded, sent, rejected and never answered as pending, whatever the wallet signs.\<close>

theorem throwaway_source_rejected:
  assumes "te_parse env xdr = Some t" and "carries env (prepared_invocation sb get p) t" and "prepared_kind p \<noteq> LoanCreate"
    and "\<And>t. te_submit env t = None \<Longrightarrow> exists_on_chain (tr_source (getInnerTransaction t))" and "\<not> exists_on_chain (random_key sb)"
  shows "case so_result (submitTransaction env w xdr k rows) of Inr r \<Rightarrow> sr_duplicate r | Inl _ \<Rightarrow> True"
proof -
  have "inv_source (prepared_invocation sb get p) = random_key sb"
    using assms(3) by (cases p) (simp_all add: repay_invocation_def pool_invocation_def vendor_invocation_def pool_client_def)
  then have "tr_source (getInnerTransaction t) = random_key sb" using assms(2) by (simp add: carries_def)
  then obtain e where "te_submit env t = Some e" using assms(4) [of t] assms(5) by (cases "te_submit env t") auto
  then show ?thesis
    using assms(1)
    by (auto simp: submitTransaction_def parseXdr_def Let_def andThen_def split: sum.split option.split prod.split)
qed

text \<open>The parts of the program agree on the network and on the pool.\<close>

lemma settings_agree:
  "network_submission = network_job" "network_worker = network_job" "network_relay = network_job" "pool_contract_p = pool_contract"
  by (simp_all add: network_submission_def network_job_def network_worker_def network_relay_def pool_contract_def pool_contract_p_def fun_eq_iff)

text \<open>With the documented setting alone the credit line is configured, and neither indexed nor accepted.\<close>

lemma documented_setting:
  "get ''CREDIT_LINE_CONTRACT_ID'' = None \<Longrightarrow> get ''CREDITLINE_CONTRACT_ID'' = Some (c # cs) \<Longrightarrow>
     creditline_contract get = c # cs \<and> fst (indexed_contracts get) = []"
  by (simp add: creditline_contract_def indexed_contracts_def present_def)

section \<open>Witnesses\<close>

text \<open>A repayment prepared for a wallet, under the documented setting of the contract, and its signed form.\<close>

definition demo_settings :: "string \<Rightarrow> string option" where
  "demo_settings = [''CREDITLINE_CONTRACT_ID'' \<mapsto> ''CCREDIT'']"

definition demo_client :: soroban where
  "demo_client = \<lparr>simulate = (\<lambda>_ _ _. Inr NNull), address_ok = (\<lambda>_. True), get_account = (\<lambda>_. True), sim_tx = (\<lambda>_. Inr None),
     assemble = (\<lambda>_. Inr ''AAAA''), prepare = (\<lambda>_. Inr ''AAAA''), random_key = ''GTHROWAWAY''\<rparr>"

definition demo_repayment :: preparation where
  "demo_repayment = PrepareRepayment ''GA'' ''loan-1'' 25"

definition demo_signed :: transaction where
  "demo_signed = PlainTx \<lparr>tr_source = ''GTHROWAWAY'', tr_operations =
     [InvokeHostFunction (Some ''repay_installment'') (Some (RawBuffer (replicate 32 7)))
        [AuthEntry (Some ''sorobanCredentialsAddress'') None (Some ''GA'')]]\<rparr>"

definition demo_deployed :: tx_env where
  "demo_deployed = demo_tx_env\<lparr>te_parse := (\<lambda>_. Some demo_signed), te_config := demo_settings,
     te_submit := (\<lambda>t. if tr_source (getInnerTransaction t) = ''GA'' then None
       else Some \<lparr>he_codes = Some (Some ''tx_no_account'', []), he_message = None, he_status = Some 400\<rparr>)\<rparr>"

lemma demo_carries: "carries demo_deployed (prepared_invocation demo_client demo_settings demo_repayment) demo_signed"
  by (simp add: carries_def demo_deployed_def demo_tx_env_def demo_repayment_def demo_signed_def demo_client_def demo_settings_def
      repay_invocation_def creditline_contract_def present_def)

theorem prepared_accepted_witness:
  "assertOperationAllowlist demo_deployed demo_signed LoanRepay = Inl (unavailable ''TRANSACTION_CONTRACT_NOT_CONFIGURED'')"
proof -
  have "te_config demo_deployed = demo_settings" by (simp add: demo_deployed_def)
  moreover have "inv_contract (prepared_invocation demo_client demo_settings demo_repayment) \<noteq> []"
    by (simp add: demo_repayment_def repay_invocation_def creditline_contract_def demo_settings_def present_def)
  ultimately show ?thesis
    using prepared_accepted [OF _ demo_carries] by (simp add: demo_repayment_def demo_settings_def present_def)
qed

text \<open>With the setting of the allowlist the transaction reaches Horizon, and is rejected there.\<close>

definition demo_live :: tx_env where
  "demo_live = demo_deployed\<lparr>te_config := [''CREDIT_LINE_CONTRACT_ID'' \<mapsto> ''CCREDIT'']\<rparr>"

lemma demo_live_carries:
  "carries demo_live (prepared_invocation demo_client (te_config demo_live) demo_repayment) demo_signed"
  by (simp add: carries_def demo_live_def demo_deployed_def demo_tx_env_def demo_repayment_def demo_signed_def demo_client_def
      repay_invocation_def creditline_contract_def present_def)

theorem throwaway_source_rejected_witness:
  "so_submitted (submitTransaction demo_live ''GA'' ''AAAA'' LoanRepay []) \<and>
   (case so_result (submitTransaction demo_live ''GA'' ''AAAA'' LoanRepay []) of Inr r \<Rightarrow> sr_duplicate r | Inl _ \<Rightarrow> True)"
proof
  show "so_submitted (submitTransaction demo_live ''GA'' ''AAAA'' LoanRepay [])"
    by (simp add: demo_live_def demo_deployed_def demo_signed_def demo_tx_env_def submitTransaction_def parseXdr_def Let_def
        assertOperationAllowlist_def check_operation_def extractInvocationAttributes_def address_bytes_def
        present_def trim_def is_space_def assertWalletAuthorizes_def findTransactionRecord_def
        collectAuthorizedAddresses_def auth_address_def find_in_column_def maybe_single_def persistTransactionRecord_def insert_unique_def)
  show "case so_result (submitTransaction demo_live ''GA'' ''AAAA'' LoanRepay []) of Inr r \<Rightarrow> sr_duplicate r | Inl _ \<Rightarrow> True"
  proof (rule throwaway_source_rejected [OF _ demo_live_carries, where exists_on_chain = "\<lambda>a. a = ''GA''"])
    show "te_parse demo_live ''AAAA'' = Some demo_signed" by (simp add: demo_live_def demo_deployed_def)
    show "prepared_kind demo_repayment \<noteq> LoanCreate" by (simp add: demo_repayment_def)
    show "\<And>t. te_submit demo_live t = None \<Longrightarrow> tr_source (getInnerTransaction t) = ''GA''"
      by (simp add: demo_live_def demo_deployed_def split: if_splits)
    show "random_key demo_client \<noteq> ''GA''" by (simp add: demo_client_def)
  qed
qed

end
