(* ===== verification/Api.thy ===== *)
theory Api imports Lending Horizon Health AuditLog Learners Sponsors Vouching Vendors ApiKeys Users RateLimit Notifications begin

text \<open>
  The HTTP interface: the controllers with their guards, on top of all services and their common
  database. A request goes through the guards of its route, in their order, and is then handed to
  the service with the wallet of its token. A request is already one of the routes with its arguments
  read from a validated body; the route table, the reading and the global throttler are in \<open>Routes\<close>
  and \<open>Server\<close>. The routes of \<open>/auth\<close> have theories of their own (\<open>Access\<close>).
\<close>

section \<open>The database\<close>

text \<open>
  Every table once, and the caches of the services. The states of the components are views on it:
  a view is taken when a service is called, and what the service changed is put back.
\<close>

record app =
  ap_gate :: access_state
  ap_hits :: hits
  ap_prefs :: "PrefRow list"
  ap_rep :: rep_state
  ap_loans :: "LoanRow list"
  ap_payments :: "string list"
  ap_txs :: tx_state
  ap_notes :: "NotificationRow list"
  ap_vendors :: "VendorRow list"
  ap_products :: "VendorProductRow list"
  ap_paid :: "PaymentRow list"
  ap_keys :: key_state
  ap_learners :: "LearnerProfileRow list"
  ap_sponsors :: "SponsorPoolRow list"
  ap_positions :: "(string \<times> num) list"
  ap_summaries :: "(string, InvestmentSummary) cache"
  ap_overview :: "(unit, PoolOverview) cache"
  ap_vouches :: "VouchRow list"
  ap_audit :: "AuditLogRow list"

definition rep_view :: "app \<Rightarrow> rep_state" where
  "rep_view a = (ap_rep a)\<lparr>rep_users := ua_users (ap_gate a)\<rparr>"

definition loans_view :: "app \<Rightarrow> loans_state" where
  "loans_view a = \<lparr>ls_rep = rep_view a, ls_vendors = map vendor_ref (ap_vendors a), ls_loans = ap_loans a,
     ls_payments = ap_payments a\<rparr>"

definition put_loans :: "loans_state \<Rightarrow> app \<Rightarrow> app" where
  "put_loans st a = a\<lparr>ap_rep := ls_rep st, ap_loans := ls_loans st\<rparr>"

definition vendors_view :: "app \<Rightarrow> vendors_db" where
  "vendors_view a = \<lparr>vd_vendors = ap_vendors a, vd_products = ap_products a, vd_loans = ap_loans a, vd_payments = ap_paid a\<rparr>"

definition wallets_view :: "app \<Rightarrow> vendor_wallets" where
  "wallets_view a = map (\<lambda>v. (vn_pk v, vn_wallet v)) (ap_vendors a)"

definition users_view :: "app \<Rightarrow> users_db" where
  "users_view a = \<lparr>ud_users = ua_users (ap_gate a), ud_prefs = ap_prefs a\<rparr>"

definition put_users :: "users_db \<Rightarrow> app \<Rightarrow> app" where
  "put_users db a = a\<lparr>ap_gate := (ap_gate a)\<lparr>ua_users := ud_users db\<rparr>, ap_prefs := ud_prefs db\<rparr>"

definition pool_view :: "app \<Rightarrow> liquidity_state" where
  "pool_view a = \<lparr>lq_loans = ap_loans a, lq_positions = ap_positions a, lq_summaries = ap_summaries a, lq_overview = ap_overview a\<rparr>"

definition put_pool :: "liquidity_state \<Rightarrow> app \<Rightarrow> app" where
  "put_pool st a = a\<lparr>ap_summaries := lq_summaries st, ap_overview := lq_overview st\<rparr>"

section \<open>Requests\<close>

text \<open>
  The routes with their arguments: the environment of the call, the parameters of the path and the
  body. One datatype for each controller (\<open>pool_call\<close> is the liquidity controller, \<open>admin_call\<close> has
  the two of \<open>/admin\<close>).
\<close>

datatype guard = JwtAuth | HasRole "string list" | AdminRole | AdminWallet | WalletThrottle

datatype loans_call =
    QuoteLoan loans_env LoanQuoteRequest
  | LoanStats loans_env
  | MyLoans loans_env LoanListQuery
  | MyCredit loans_env
  | CreateLoan loans_env LoanQuoteRequest
  | PayLoan loans_env string num
  | RepayLoan relay_env string string
  | AssessLoan loans_env string

datatype vendors_call =
    ListVendors vendors_env "string option"
  | GetVendor vendors_env string
  | AddVendor vendors_env RegisterVendor
  | VendorDashboard vendors_env
  | VendorLoans vendors_env int int "string option" "string option"
  | VendorPayments vendors_env int int
  | ListProducts vendors_env
  | AddProduct vendors_env CreateVendorProduct
  | ChangeProduct vendors_env string UpdateVendorProduct
  | RemoveProduct vendors_env string
  | AddKey key_env CreateApiKey
  | ListKeys key_env
  | RevokeKey key_env string
  | ApproveVendor vendors_env string
  | SuspendVendor vendors_env string

datatype users_call =
    GetMe user_env
  | UpdateMe user_env UpdateUser
  | ChooseRole user_env string

datatype learners_call =
    MyProfile learners_env
  | UpdateProfile learners_env UpdateLearnerProfile
  | Completion learners_env

datatype notes_call =
    ListNotes faults NotificationListQuery
  | ReadAllNotes faults int
  | ReadNote faults int string

datatype score_call =
    MyScore rep_env
  | ScoreOf rep_env string

datatype sponsors_call =
    AddSponsor sponsors_env CreateSponsor
  | SponsorDeposit sponsors_env num
  | MyPool sponsors_env
  | SponsorStats sponsors_env

datatype pool_call =
    PoolOverview liquidity_env
  | MySummary liquidity_env
  | DepositPool pool_env num
  | WithdrawPool pool_env num

datatype vouch_call =
    AskVouch vouch_env string "string option"
  | GiveVouch vouch_env string
  | MyVouches vouch_env
  | MentorVouches vouch_env
  | VouchRequests vouch_env
  | RevokeVouch vouch_env string

datatype tx_call =
    SubmitTx tx_env string tx_kind
  | TxStatus tx_env string

datatype admin_call =
    ResetRole user_env string "string option"
  | AuditLogs audit_env AuditLogQuery

datatype api_call = LoansRoute loans_call | VendorsRoute vendors_call | UsersRoute users_call | LearnersRoute learners_call
  | NotesRoute notes_call | ScoreRoute score_call | SponsorsRoute sponsors_call | PoolRoute pool_call
  | VouchRoute vouch_call | TxRoute tx_call | AdminRoute admin_call

text \<open>The guards of a route, those of its controller first.\<close>

fun loans_guards :: "loans_call \<Rightarrow> guard list" where
  "loans_guards (LoanStats _) = []"
| "loans_guards _ = [JwtAuth]"

fun vendors_guards :: "vendors_call \<Rightarrow> guard list" where
  "vendors_guards (ListVendors _ _) = []"
| "vendors_guards (GetVendor _ _) = []"
| "vendors_guards (ApproveVendor _ _) = [JwtAuth, AdminWallet]"
| "vendors_guards (SuspendVendor _ _) = [JwtAuth, AdminWallet]"
| "vendors_guards _ = [JwtAuth, HasRole [''vendor'']]"

fun users_guards :: "users_call \<Rightarrow> guard list" where
  "users_guards _ = [JwtAuth]"

fun learners_guards :: "learners_call \<Rightarrow> guard list" where
  "learners_guards _ = [JwtAuth]"

fun notes_guards :: "notes_call \<Rightarrow> guard list" where
  "notes_guards _ = [JwtAuth]"

fun score_guards :: "score_call \<Rightarrow> guard list" where
  "score_guards (MyScore _) = [JwtAuth]"
| "score_guards (ScoreOf _ _) = []"

fun sponsors_guards :: "sponsors_call \<Rightarrow> guard list" where
  "sponsors_guards (SponsorStats _) = []"
| "sponsors_guards _ = [JwtAuth]"

fun pool_guards :: "pool_call \<Rightarrow> guard list" where
  "pool_guards (PoolOverview _) = []"
| "pool_guards (MySummary _) = [JwtAuth]"
| "pool_guards _ = [JwtAuth, HasRole [''sponsor'']]"

fun vouching_guards :: "vouch_call \<Rightarrow> guard list" where
  "vouching_guards (AskVouch _ _ _) = [JwtAuth]"
| "vouching_guards (MyVouches _) = [JwtAuth]"
| "vouching_guards _ = [JwtAuth, HasRole [''mentor'']]"

fun tx_guards :: "tx_call \<Rightarrow> guard list" where
  "tx_guards (SubmitTx _ _ _) = [JwtAuth, WalletThrottle]"
| "tx_guards (TxStatus _ _) = []"

fun admin_guards :: "admin_call \<Rightarrow> guard list" where
  "admin_guards _ = [JwtAuth, AdminRole]"

fun guards_of :: "api_call \<Rightarrow> guard list" where
  "guards_of (LoansRoute c) = loans_guards c"
| "guards_of (VendorsRoute c) = vendors_guards c"
| "guards_of (UsersRoute c) = users_guards c"
| "guards_of (LearnersRoute c) = learners_guards c"
| "guards_of (NotesRoute c) = notes_guards c"
| "guards_of (ScoreRoute c) = score_guards c"
| "guards_of (SponsorsRoute c) = sponsors_guards c"
| "guards_of (PoolRoute c) = pool_guards c"
| "guards_of (VouchRoute c) = vouching_guards c"
| "guards_of (TxRoute c) = tx_guards c"
| "guards_of (AdminRoute c) = admin_guards c"

text \<open>What verifying a bearer token gives: the error the library reports, or the claims.\<close>

datatype token_error = TokenExpired | TokenInvalid

record http_env =
  hq_users :: user_env
  hq_verify :: "string \<Rightarrow> token_error + JwtPayload"
  hq_admins :: "string option"
  hq_uuid :: "string \<Rightarrow> bool"
  hq_audit :: audit_env
  hq_metadata :: "string \<times> string option \<Rightarrow> string"

text \<open>Where a request comes from, which is all the guards look at, and what it asks.\<close>

record http_origin =
  rq_bearer :: "string option"
  rq_ip :: "string option"
  rq_forwarded :: "string option"

record http_request = http_origin +
  rq_call :: api_call

section \<open>Guards\<close>

definition handleRequest :: "exn option \<Rightarrow> request_user option \<Rightarrow> token_error option \<Rightarrow> request_user result" where
  "handleRequest err user info =
     (if info = Some TokenExpired then Inl (unauthorized ''AUTH_TOKEN_EXPIRED'')
      else if err \<noteq> None then Inl (unauthorized ''AUTH_TOKEN_INVALID'')
      else case user of None \<Rightarrow> Inl (unauthorized ''AUTH_TOKEN_INVALID'') | Some u \<Rightarrow> Inr u)"

definition jwtAuthGuard :: "http_env \<Rightarrow> string option \<Rightarrow> access_state \<Rightarrow> request_user result \<times> access_state" where
  "jwtAuthGuard env bearer st =
     (case bearer of
        None \<Rightarrow> (handleRequest None None None, st)
      | Some t \<Rightarrow>
          (case hq_verify env t of
             Inl f \<Rightarrow> (handleRequest None None (Some f), st)
           | Inr p \<Rightarrow>
               (case validate (hq_users env) p st of
                  (Inl e, st') \<Rightarrow> (handleRequest (Some e) None None, st')
                | (Inr u, st') \<Rightarrow> (handleRequest None (Some u) None, st'))))"

text \<open>
  The guard of \<open>/admin\<close> writes an audit entry when it denies a wallet for its role; the JSON text of
  its metadata (path, method, status and role) is \<open>hq_metadata\<close>.
\<close>

definition denied_entry :: "http_env \<Rightarrow> string \<Rightarrow> access_state \<Rightarrow> CreateAuditLog" where
  "denied_entry env w st = \<lparr>ca_actor = w, ca_action = ''ADMIN_ACCESS_DENIED'', ca_resource = ''admin'', ca_resource_id = None,
     ca_before = None, ca_after = None, ca_ip = None, ca_agent = None,
     ca_metadata = Some (hq_metadata env (fst (getUserState (hq_users env) w (ua_users st) (ua_admin st))))\<rparr>"

definition audited_adminGuard :: "http_env \<Rightarrow> request_user option \<Rightarrow> access_state \<Rightarrow> AuditLogRow list \<Rightarrow>
    unit result \<times> access_state \<times> AuditLogRow list" where
  "audited_adminGuard env user st rows =
     (let (r, st') = adminGuard (hq_users env) user st
      in (r, st',
          case user of
            None \<Rightarrow> rows
          | Some u \<Rightarrow> if r = Inl (forbidden ''ADMIN_FORBIDDEN'')
                      then snd (log_entry (hq_audit env) (denied_entry env (ru_wallet u) st) rows) else rows))"

text \<open>What the guards thread: the user of the request, and the state they change.\<close>

type_synonym gate = "request_user option \<times> access_state \<times> hits \<times> AuditLogRow list"

definition throttled :: "'a http_origin_scheme \<Rightarrow> request_user option \<Rightarrow> throttled_request" where
  "throttled req user = \<lparr>tq_body_wallet = None, tq_user_wallet = map_option ru_wallet user, tq_ip = rq_ip req,
     tq_forwarded = rq_forwarded req\<rparr>"

fun pass_guard :: "http_env \<Rightarrow> 'a http_origin_scheme \<Rightarrow> guard \<Rightarrow> gate \<Rightarrow> unit result \<times> gate" where
  "pass_guard env req JwtAuth (user, st, hits, audit) =
     (case jwtAuthGuard env (rq_bearer req) st of
        (Inl e, st') \<Rightarrow> (Inl e, (user, st', hits, audit)) | (Inr u, st') \<Rightarrow> (Inr (), (Some u, st', hits, audit)))"
| "pass_guard env req (HasRole rs) (user, st, hits, audit) =
     (let (r, st') = rolesGuard (hq_users env) True rs user st in (r, (user, st', hits, audit)))"
| "pass_guard env req AdminRole (user, st, hits, audit) =
     (let (r, st', audit') = audited_adminGuard env user st audit in (r, (user, st', hits, audit')))"
| "pass_guard env req AdminWallet (user, st, hits, audit) = (adminWalletsGuard (hq_admins env) user, (user, st, hits, audit))"
| "pass_guard env req WalletThrottle (user, st, hits, audit) =
     (let (r, hits') = wallet_canActivate (ue_now (hq_users env)) (throttled req user) hits in (r, (user, st, hits', audit)))"

fun pass_guards :: "http_env \<Rightarrow> 'a http_origin_scheme \<Rightarrow> guard list \<Rightarrow> gate \<Rightarrow> unit result \<times> gate" where
  "pass_guards env req [] g = (Inr (), g)"
| "pass_guards env req (x # xs) g =
     (case pass_guard env req x g of (Inl e, g') \<Rightarrow> (Inl e, g') | (Inr _, g') \<Rightarrow> pass_guards env req xs g')"

section \<open>Handlers\<close>

text \<open>
  A handler answers or throws, and leaves the database in some state; the body of the answer is the
  service's and is not repeated here. Handlers of guarded routes read \<open>user.wallet\<close>.
\<close>

definition thrown :: "'a result \<Rightarrow> exn option" where
  "thrown r = (case r of Inl e \<Rightarrow> Some e | Inr _ \<Rightarrow> None)"

definition uuid_param :: "http_env \<Rightarrow> string \<Rightarrow> app \<Rightarrow> exn option \<times> app \<Rightarrow> exn option \<times> app" where
  "uuid_param env i a k = (if hq_uuid env i then k else (Some (bad_request ''Validation failed (uuid is expected)''), a))"

fun loans_handler :: "http_env \<Rightarrow> string \<Rightarrow> loans_call \<Rightarrow> app \<Rightarrow> exn option \<times> app" where
  "loans_handler env w (QuoteLoan le dto) a =
     (let (r, st) = calculateLoanQuote le w dto (loans_view a) in (thrown r, put_loans st a))"
| "loans_handler env w (LoanStats le) a = (thrown (Loans.getStats le (loans_view a)), a)"
| "loans_handler env w (MyLoans le q) a = (thrown (getMyLoans le w q (loans_view a)), a)"
| "loans_handler env w (MyCredit le) a = (thrown (getAvailableCredit le w (loans_view a)), a)"
| "loans_handler env w (CreateLoan le dto) a =
     (let (r, st) = createLoan le w dto (loans_view a) in (thrown r, put_loans st a))"
| "loans_handler env w (PayLoan le i amt) a = uuid_param env i a (thrown (repayLoan le w i amt (loans_view a)), a)"
| "loans_handler env w (RepayLoan re i xdr) a = uuid_param env i a (thrown (ro_result (submitRepayment re xdr)), a)"
| "loans_handler env w (AssessLoan le i) a =
     uuid_param env i a (let (r, st) = assessLoan le w i (loans_view a) in (thrown r, put_loans st a))"

definition put_products :: "vendors_db \<Rightarrow> app \<Rightarrow> app" where
  "put_products db a = a\<lparr>ap_products := vd_products db\<rparr>"

fun vendors_handler :: "http_env \<Rightarrow> string \<Rightarrow> vendors_call \<Rightarrow> app \<Rightarrow> exn option \<times> app" where
  "vendors_handler env w (ListVendors ve typ) a = (thrown (getAll ve typ (ap_vendors a)), a)"
| "vendors_handler env w (GetVendor ve i) a = (thrown (getById ve i (ap_vendors a)), a)"
| "vendors_handler env w (AddVendor ve dto) a =
     (let (r, rows) = registerVendor ve w dto (ap_vendors a) in (thrown r, a\<lparr>ap_vendors := rows\<rparr>))"
| "vendors_handler env w (VendorDashboard ve) a = (thrown (getDashboard ve w (vendors_view a)), a)"
| "vendors_handler env w (VendorLoans ve page limit col order) a =
     (thrown (getLoans ve w page limit col order (vendors_view a)), a)"
| "vendors_handler env w (VendorPayments ve page limit) a = (thrown (getPayments ve w page limit (vendors_view a)), a)"
| "vendors_handler env w (ListProducts ve) a = (thrown (getProducts ve w (vendors_view a)), a)"
| "vendors_handler env w (AddProduct ve dto) a =
     (let (r, db) = createProduct ve w dto (vendors_view a) in (thrown r, put_products db a))"
| "vendors_handler env w (ChangeProduct ve i dto) a =
     uuid_param env i a (let (r, db) = updateProduct ve w i dto (vendors_view a) in (thrown r, put_products db a))"
| "vendors_handler env w (RemoveProduct ve i) a =
     uuid_param env i a (let (r, db) = deleteProduct ve w i (vendors_view a) in (thrown r, put_products db a))"
| "vendors_handler env w (AddKey ke dto) a =
     (let (r, st) = createApiKey ke w dto (wallets_view a) (ap_keys a) in (thrown r, a\<lparr>ap_keys := st\<rparr>))"
| "vendors_handler env w (ListKeys ke) a = (thrown (listApiKeys ke w (wallets_view a) (ap_keys a)), a)"
| "vendors_handler env w (RevokeKey ke i) a =
     uuid_param env i a
       (let (r, st) = revokeApiKey ke w i (wallets_view a) (ap_keys a) in (thrown r, a\<lparr>ap_keys := st\<rparr>))"
| "vendors_handler env w (ApproveVendor ve i) a = uuid_param env i a (thrown (approveVendor ve w i (ap_vendors a)), a)"
| "vendors_handler env w (SuspendVendor ve i) a = uuid_param env i a (thrown (suspendVendor ve w i (ap_vendors a)), a)"

text \<open>\<open>/^G[A-Z2-7]{55}$/\<close> and \<open>/^[a-f0-9]{64}$/i\<close>.\<close>

definition is_stellar_wallet :: "string \<Rightarrow> bool" where
  "is_stellar_wallet w \<longleftrightarrow> length w = 56 \<and> hd w = CHR ''G'' \<and>
     (\<forall>c \<in> set (tl w). let n = of_char c :: nat in (65 \<le> n \<and> n \<le> 90) \<or> (50 \<le> n \<and> n \<le> 55))"

definition is_transaction_hash :: "string \<Rightarrow> bool" where
  "is_transaction_hash h \<longleftrightarrow> length h = 64 \<and>
     (\<forall>c \<in> set h. let n = of_char c :: nat in (97 \<le> n \<and> n \<le> 102) \<or> (65 \<le> n \<and> n \<le> 70) \<or> (48 \<le> n \<and> n \<le> 57))"

definition answer_score :: "rep_env \<Rightarrow> string \<Rightarrow> app \<Rightarrow> exn option \<times> app" where
  "answer_score re w a = (None, a\<lparr>ap_rep := snd (getReputationScore re w (rep_view a))\<rparr>)"

fun users_handler :: "http_env \<Rightarrow> string \<Rightarrow> users_call \<Rightarrow> app \<Rightarrow> exn option \<times> app" where
  "users_handler env w (GetMe ue) a =
     (let (r, db) = getOrCreateProfile ue w (users_view a) in (thrown r, put_users db a))"
| "users_handler env w (UpdateMe ue dto) a =
     (let (r, db) = Users.updateProfile ue w dto (users_view a) in (thrown r, put_users db a))"
| "users_handler env w (ChooseRole ue role) a =
     (let (r, st) = setRole ue w role (ap_gate a) in (thrown r, a\<lparr>ap_gate := st\<rparr>))"

fun learners_handler :: "http_env \<Rightarrow> string \<Rightarrow> learners_call \<Rightarrow> app \<Rightarrow> exn option \<times> app" where
  "learners_handler env w (MyProfile le) a = (thrown (getProfile_l le w (ap_learners a)), a)"
| "learners_handler env w (UpdateProfile le dto) a =
     (let (r, rows) = upsertProfile le w dto (ap_learners a) in (thrown r, a\<lparr>ap_learners := rows\<rparr>))"
| "learners_handler env w (Completion le) a = (None, a)"

fun notes_handler :: "http_env \<Rightarrow> string \<Rightarrow> notes_call \<Rightarrow> app \<Rightarrow> exn option \<times> app" where
  "notes_handler env w (ListNotes flt q) a = (thrown (getNotifications flt w q (ap_notes a)), a)"
| "notes_handler env w (ReadAllNotes flt now) a =
     (let (r, rows) = markAllAsRead flt now w (ap_notes a) in (thrown r, a\<lparr>ap_notes := rows\<rparr>))"
| "notes_handler env w (ReadNote flt now i) a =
     (let (r, rows) = markAsRead flt now w i (ap_notes a) in (thrown r, a\<lparr>ap_notes := rows\<rparr>))"

fun score_handler :: "http_env \<Rightarrow> string \<Rightarrow> score_call \<Rightarrow> app \<Rightarrow> exn option \<times> app" where
  "score_handler env w (MyScore re) a = answer_score re w a"
| "score_handler env w (ScoreOf re w') a =
     (if is_stellar_wallet w' then answer_score re w' a else (Some (bad_request ''Invalid Stellar wallet address format''), a))"

fun sponsors_handler :: "http_env \<Rightarrow> string \<Rightarrow> sponsors_call \<Rightarrow> app \<Rightarrow> exn option \<times> app" where
  "sponsors_handler env w (AddSponsor se dto) a =
     (let (r, rows) = Sponsors.register se w dto (ap_sponsors a) in (thrown r, a\<lparr>ap_sponsors := rows\<rparr>))"
| "sponsors_handler env w (SponsorDeposit se amt) a = (thrown (Sponsors.deposit se w amt), a)"
| "sponsors_handler env w (MyPool se) a = (thrown (getMyPool se w (ap_sponsors a)), a)"
| "sponsors_handler env w (SponsorStats se) a = (thrown (Sponsors.getStats se (ap_sponsors a)), a)"

fun pool_handler :: "http_env \<Rightarrow> string \<Rightarrow> pool_call \<Rightarrow> app \<Rightarrow> exn option \<times> app" where
  "pool_handler env w (PoolOverview le) a = (None, put_pool (snd (getPoolOverview le (pool_view a))) a)"
| "pool_handler env w (MySummary le) a =
     (let (r, st) = getInvestmentSummary le w (pool_view a) in (thrown r, put_pool st a))"
| "pool_handler env w (DepositPool pe amt) a = (thrown (depositLiquidity pe w amt), a)"
| "pool_handler env w (WithdrawPool pe shares) a = (thrown (withdrawLiquidity pe w shares), a)"

fun vouch_handler :: "http_env \<Rightarrow> string \<Rightarrow> vouch_call \<Rightarrow> app \<Rightarrow> exn option \<times> app" where
  "vouch_handler env w (AskVouch ve mentor msg) a =
     (let (r, rows) = requestVouch ve w mentor msg (ap_vouches a) in (thrown r, a\<lparr>ap_vouches := rows\<rparr>))"
| "vouch_handler env w (GiveVouch ve learner) a =
     (let (r, rows) = approveVouch ve w learner (ap_vouches a) in (thrown r, a\<lparr>ap_vouches := rows\<rparr>))"
| "vouch_handler env w (MyVouches ve) a = (thrown (getMyVouches ve w (ap_vouches a)), a)"
| "vouch_handler env w (MentorVouches ve) a = (thrown (getMentorVouches ve w (ap_vouches a)), a)"
| "vouch_handler env w (VouchRequests ve) a = (thrown (getIncomingRequests ve w (ap_vouches a)), a)"
| "vouch_handler env w (RevokeVouch ve i) a =
     uuid_param env i a
       (let (r, rows) = revokeVouch ve w i (ap_vouches a) in (thrown r, a\<lparr>ap_vouches := rows\<rparr>))"

fun tx_handler :: "http_env \<Rightarrow> string \<Rightarrow> tx_call \<Rightarrow> app \<Rightarrow> exn option \<times> app" where
  "tx_handler env w (SubmitTx te xdr kind) a =
     (let out = submitTransaction te w xdr kind (txs_rows (ap_txs a))
      in (thrown (so_result out), a\<lparr>ap_txs := (ap_txs a)\<lparr>txs_rows := so_rows out\<rparr>\<rparr>))"
| "tx_handler env w (TxStatus te h) a =
     (if is_transaction_hash h
      then let (r, st) = getTransactionStatus te h (ap_txs a) in (thrown r, a\<lparr>ap_txs := st\<rparr>)
      else (Some (bad_request ''TRANSACTION_INVALID_HASH''), a))"

fun admin_handler :: "http_env \<Rightarrow> string \<Rightarrow> admin_call \<Rightarrow> app \<Rightarrow> exn option \<times> app" where
  "admin_handler env w (ResetRole ue w' role) a =
     (let (r, st) = resetUserRole ue w' role (ap_gate a) in (thrown r, a\<lparr>ap_gate := st\<rparr>))"
| "admin_handler env w (AuditLogs ae q) a =
     ((case findMany ae q (ap_audit a) of Inl e \<Rightarrow> Some (JsError (err_message e)) | Inr _ \<Rightarrow> None), a)"

fun handle :: "http_env \<Rightarrow> string \<Rightarrow> api_call \<Rightarrow> app \<Rightarrow> exn option \<times> app" where
  "handle env w (LoansRoute c) a = loans_handler env w c a"
| "handle env w (VendorsRoute c) a = vendors_handler env w c a"
| "handle env w (UsersRoute c) a = users_handler env w c a"
| "handle env w (LearnersRoute c) a = learners_handler env w c a"
| "handle env w (NotesRoute c) a = notes_handler env w c a"
| "handle env w (ScoreRoute c) a = score_handler env w c a"
| "handle env w (SponsorsRoute c) a = sponsors_handler env w c a"
| "handle env w (PoolRoute c) a = pool_handler env w c a"
| "handle env w (VouchRoute c) a = vouch_handler env w c a"
| "handle env w (TxRoute c) a = tx_handler env w c a"
| "handle env w (AdminRoute c) a = admin_handler env w c a"

text \<open>A request: the guards, and the handler with the wallet of the token.\<close>

definition serve :: "http_env \<Rightarrow> http_request \<Rightarrow> app \<Rightarrow> exn option \<times> app" where
  "serve env req a =
     (case pass_guards env req (guards_of (rq_call req)) (None, ap_gate a, ap_hits a, ap_audit a) of
        (Inl e, (_, st, hits, audit)) \<Rightarrow> (Some e, a\<lparr>ap_gate := st, ap_hits := hits, ap_audit := audit\<rparr>)
      | (Inr _, (user, st, hits, audit)) \<Rightarrow>
          handle env (case user of Some u \<Rightarrow> ru_wallet u | None \<Rightarrow> []) (rq_call req)
            (a\<lparr>ap_gate := st, ap_hits := hits, ap_audit := audit\<rparr>))"

end
