(* ===== verification/Isolation.thy ===== *)
theory Isolation imports Api begin

text \<open>
  What the handlers and the guards of the HTTP interface guarantee: what a guarded request may
  change (rows of the wallet of its token, with two exceptions), what it adds to the audit log, and
  who passes the guards. \<open>Server\<close> states it for requests of any verb, path and body.
\<close>

section \<open>Changes to one's own rows\<close>

text \<open>All rows but those of one owner are the same, and in the same order.\<close>

definition same_for :: "('r \<Rightarrow> bool) \<Rightarrow> 'r list \<Rightarrow> 'r list \<Rightarrow> bool" where
  "same_for mine rows rows' \<longleftrightarrow> filter (\<lambda>r. \<not> mine r) rows' = filter (\<lambda>r. \<not> mine r) rows"

named_theorems own \<open>operations on a table that touch the owner's rows only\<close>

lemma same_for_refl [simp]: "same_for mine rows rows"
  by (simp add: same_for_def)

lemma same_for_trans: "same_for mine a b \<Longrightarrow> same_for mine b c \<Longrightarrow> same_for mine a c"
  by (simp add: same_for_def)

lemma same_for_append: "mine r \<Longrightarrow> same_for mine rows (rows @ [r])"
  by (simp add: same_for_def)

lemma same_for_update:
  "(\<And>r. r \<in> set rows \<Longrightarrow> P r \<Longrightarrow> mine r \<and> mine (f r)) \<Longrightarrow> same_for mine rows (update_where P f rows)"
  unfolding same_for_def update_where_def by (induction rows) auto

lemma same_for_delete: "(\<And>r. r \<in> set rows \<Longrightarrow> P r \<Longrightarrow> mine r) \<Longrightarrow> same_for mine rows (delete_where P rows)"
  unfolding same_for_def delete_where_def by (induction rows) auto

lemma same_for_map: "same_for mine rows rows' \<Longrightarrow> (\<And>r. other r \<Longrightarrow> \<not> mine r) \<Longrightarrow> filter other rows' = filter other rows"
  unfolding same_for_def
proof -
  assume a: "filter (\<lambda>r. \<not> mine r) rows' = filter (\<lambda>r. \<not> mine r) rows" and o: "\<And>r. other r \<Longrightarrow> \<not> mine r"
  have "filter other xs = filter other (filter (\<lambda>r. \<not> mine r) xs)" for xs using o by (auto intro: filter_cong)
  with a show ?thesis by metis
qed

lemma only_one:
  assumes "filter P rows = [r]" and "x \<in> set rows" and "P x"
  shows "x = r"
proof -
  have "x \<in> set (filter P rows)" using assms(2,3) by simp
  then show ?thesis unfolding assms(1) by simp
qed

text \<open>An update or deletion by the key of the row that was found.\<close>

lemma same_for_found:
  "filter P rows = [r] \<Longrightarrow> mine r \<Longrightarrow> mine (f r) \<Longrightarrow> same_for mine rows (update_where P f rows)"
  by (rule same_for_update) (metis only_one)

section \<open>The services\<close>

lemma createLoan_own [own]:
  "same_for (\<lambda>l. loan_wallet l = w) (ls_loans st) (ls_loans (snd (createLoan env w dto st)))"
  using createLoan_cases [of env w dto st] by (auto intro!: same_for_append simp: new_loan_row_def)

lemma quote_own [own]: "ls_loans (snd (calculateLoanQuote env w dto st)) = ls_loans st"
  by (simp add: calculateLoanQuote_def Let_def split_def)

lemma assessLoan_own [own]:
  "same_for (\<lambda>l. loan_wallet l = w) (ls_loans st) (ls_loans (snd (assessLoan env w pk st)))"
  by (auto simp: assessLoan_def find_loan_Inr Let_def split_def set_status_def intro: same_for_found split: sum.split option.split)

lemma persist_fresh:
  "persistTransactionRecord env w h kind xdr rows = Inr (c, rows') \<Longrightarrow>
     rows' = rows @ [new_tx_row env c w h kind xdr] \<and> (\<forall>r \<in> set rows. col_of c r \<noteq> Some h)"
  by (auto simp: persistTransactionRecord_def insert_unique_def with_fault_def tx_clash_def new_tx_row_def col_of_def
      split: sum.splits option.splits if_splits)

text \<open>The failure of a submission is recorded by hash: on the row just inserted, which alone has it.\<close>

lemma submit_own [own]:
  "same_for (\<lambda>r. tx_wallet r = w) rows (so_rows (submitTransaction env w xdr kind rows))"
proof (cases "so_submitted (submitTransaction env w xdr kind rows)")
  case True
  then obtain t c rows' where p: "persistTransactionRecord env w (te_hash env t) kind xdr rows = Inr (c, rows')"
    and s: "so_rows (submitTransaction env w xdr kind rows) =
      (case te_submit env t of None \<Rightarrow> rows' | Some e \<Rightarrow> markTransactionFailed env c (te_hash env t) e rows')"
    using submit_reaches by blast
  note f = persist_fresh [OF p]
  have n: "tx_wallet (new_tx_row env c w h kind xdr) = w" for h by (simp add: new_tx_row_def)
  have "same_for (\<lambda>r. tx_wallet r = w) rows rows'" using f n by (auto intro: same_for_append)
  moreover have "same_for (\<lambda>r. tx_wallet r = w) rows' (markTransactionFailed env c (te_hash env t) e rows')" for e
    using f n by (auto simp: markTransactionFailed_def Let_def mark_failed_row_def intro!: same_for_update split: option.split)
  ultimately show ?thesis unfolding s by (auto intro: same_for_trans split: option.split)
next
  case False
  then have "so_rows (submitTransaction env w xdr kind rows) = rows"
    by (auto simp: submitTransaction_def Let_def split: sum.splits option.splits prod.splits if_splits)
  then show ?thesis by simp
qed

text \<open>The vendor profiles of a wallet, and what belongs to them.\<close>

definition vendor_ids :: "string \<Rightarrow> VendorRow list \<Rightarrow> string set" where
  "vendor_ids w vs = vn_pk ` {v \<in> set vs. vn_wallet v = Some w}"

lemma required_vendor: "Vendors.requireVendor env w vs = Inr v \<Longrightarrow> vn_pk v \<in> vendor_ids w vs"
proof -
  assume "Vendors.requireVendor env w vs = Inr v"
  then have f: "filter (\<lambda>v. vn_wallet v = Some w) vs = [v]" by (simp add: requireVendor_Inr)
  have "v \<in> set (filter (\<lambda>v. vn_wallet v = Some w) vs)" unfolding f by simp
  then show ?thesis by (auto simp: vendor_ids_def)
qed

lemma registerVendor_own [own]: "same_for (\<lambda>v. vn_wallet v = Some w) rows (snd (registerVendor env w dto rows))"
  by (auto simp: registerVendor_def insert_vendor_def insert_unique_def with_fault_def intro!: same_for_append
      split: sum.split option.split)

lemma createProduct_own [own]:
  "same_for (\<lambda>p. vp_vendor p \<in> vendor_ids w (vd_vendors db)) (vd_products db) (vd_products (snd (createProduct env w dto db)))"
  by (auto simp: createProduct_def insert_unique_def with_fault_def new_product_def required_vendor
      intro!: same_for_append split: sum.split option.split)

lemma updateProduct_own [own]:
  "same_for (\<lambda>p. vp_vendor p \<in> vendor_ids w (vd_vendors db)) (vd_products db) (vd_products (snd (updateProduct env w pid dto db)))"
  by (auto simp: updateProduct_def write_product_def owned_product_def required_vendor Let_def andThen_Inr_iff
      intro!: same_for_update split: sum.split)

lemma deleteProduct_own [own]:
  "same_for (\<lambda>p. vp_vendor p \<in> vendor_ids w (vd_vendors db)) (vd_products db) (vd_products (snd (deleteProduct env w pid db)))"
  by (auto simp: deleteProduct_def owned_product_def required_vendor andThen_Inr_iff
      intro!: same_for_delete split: sum.split option.split)

lemma upsert_own: "lf_wallet (f fresh) = w \<Longrightarrow> (\<And>r. lf_wallet (f r) = lf_wallet r) \<Longrightarrow>
    same_for (\<lambda>r. lf_wallet r = w) rows (upsert_profile w fresh f rows)"
  by (auto simp: upsert_profile_def intro: same_for_append same_for_update)

lemma upsertProfile_own [own]: "same_for (\<lambda>r. lf_wallet r = w) rows (snd (upsertProfile env w d rows))"
proof -
  have "snd (upsertProfile env w d rows) \<in> {rows} \<union> range (\<lambda>(full, onb). upsert_profile w (empty_profile env w) (payload env d full onb) rows)"
    unfolding upsertProfile_def Let_def by (auto split: option.split sum.split)
  moreover have "same_for (\<lambda>r. lf_wallet r = w) rows (upsert_profile w (empty_profile env w) (payload env d full onb) rows)" for full onb
    by (rule upsert_own) (simp_all add: empty_profile_def)
  ultimately show ?thesis by auto
qed

lemma sponsor_own [own]: "same_for (\<lambda>r. sr_wallet r = w) rows (snd (Sponsors.register env w dto rows))"
  by (auto simp: Sponsors.register_def insert_sponsor_def insert_unique_def with_fault_def new_sponsor_def
      intro!: same_for_append split: sum.split option.split)

lemma notes_own [own]:
  "same_for (\<lambda>n. nf_wallet n = w) rows (snd (markAllAsRead flt now w rows))"
  "same_for (\<lambda>n. nf_wallet n = w) rows (snd (markAsRead flt now w pk rows))"
  by (auto simp: markAllAsRead_def unread_of_def mark_read_def intro: same_for_update split: option.split)
    (auto simp: markAsRead_def mark_read_def single_Inr intro: same_for_found split: option.split sum.split)

lemma request_own [own]: "same_for (\<lambda>v. vw_learner v = w \<or> vw_mentor v = w) rows (snd (requestVouch env w mentor msg rows))"
  using request_effect [of env w mentor msg rows] by (auto intro!: same_for_append simp: new_vouch_def)

lemma revoke_own [own]: "same_for (\<lambda>v. vw_learner v = w \<or> vw_mentor v = w) rows (snd (revokeVouch env w pk rows))"
  using revoke_effect [of env w pk rows] by (auto intro!: same_for_found)

lemma setRole_own [own]: "same_for (\<lambda>u. user_wallet u = w) (ua_users st) (ua_users (snd (setRole env w role st)))"
  by (auto simp: setRole_def setRoleIfUnset_def with_fault_def maybe_single_def role_unset_def set_role_def
      intro!: same_for_update split: sum.split option.split list.split prod.split)


lemma approve_own [own]:
  assumes "distinct (map vw_pk rows)"
  shows "same_for (\<lambda>v. vw_learner v = w \<or> vw_mentor v = w) rows (snd (approveVouch env w learner rows))"
  using approve_effect [of env w learner rows]
proof
  assume "\<exists>v. v \<in> set rows \<and> between w learner v \<and> vw_status v = VouchPending \<and> filter (\<lambda>x. vw_pk x = vw_pk v) rows \<noteq> [] \<and>
    snd (approveVouch env w learner rows) = update_where (\<lambda>x. vw_pk x = vw_pk v) (\<lambda>x. x\<lparr>vw_status := VouchApproved\<rparr>) rows"
  then obtain v where v: "v \<in> set rows" "between w learner v"
    "snd (approveVouch env w learner rows) = update_where (\<lambda>x. vw_pk x = vw_pk v) (\<lambda>x. x\<lparr>vw_status := VouchApproved\<rparr>) rows" by blast
  have "filter (\<lambda>x. vw_pk x = vw_pk v) rows = [v]" using assms v(1) by (rule filter_single_unique) simp
  then show ?thesis unfolding v(3) by (rule same_for_found) (use v(2) in \<open>simp_all add: between_def\<close>)
qed simp

lemma required_key_vendor:
  "ApiKeys.requireVendor env w (map (\<lambda>v. (vn_pk v, vn_wallet v)) vs) = Inr i \<Longrightarrow> i \<in> vendor_ids w vs"
proof -
  assume "ApiKeys.requireVendor env w (map (\<lambda>v. (vn_pk v, vn_wallet v)) vs) = Inr i"
  then obtain wal where f: "filter (\<lambda>v. snd v = Some w) (map (\<lambda>v. (vn_pk v, vn_wallet v)) vs) = [(i, wal)]"
    by (auto simp: ApiKeys.requireVendor_def findVendorByWallet_def single_Inr andThen_Inr_iff
        split: sum.splits option.splits if_splits)
  have "(i, wal) \<in> set (filter (\<lambda>v. snd v = Some w) (map (\<lambda>v. (vn_pk v, vn_wallet v)) vs))" unfolding f by simp
  then show ?thesis by (auto simp: vendor_ids_def)
qed

lemma createApiKey_own [own]:
  "same_for (\<lambda>k. ky_vendor k \<in> vendor_ids w vs) (ks_rows st)
     (ks_rows (snd (createApiKey env w dto (map (\<lambda>v. (vn_pk v, vn_wallet v)) vs) st)))"
  by (auto simp: createApiKey_def Let_def insert_unique_def with_fault_def required_key_vendor intro!: same_for_append
      split: sum.split option.split)

lemma revokeApiKey_own [own]:
  assumes "distinct (map ky_pk (ks_rows st))"
  shows "same_for (\<lambda>k. ky_vendor k \<in> vendor_ids w vs) (ks_rows st)
     (ks_rows (snd (revokeApiKey env w i (map (\<lambda>v. (vn_pk v, vn_wallet v)) vs) st)))"
proof -
  let ?st = "snd (revokeApiKey env w i (map (\<lambda>v. (vn_pk v, vn_wallet v)) vs) st)"
  have "ks_rows ?st = ks_rows st \<or>
    (\<exists>v key. v \<in> vendor_ids w vs \<and> filter (\<lambda>k. ky_pk k = i \<and> ky_vendor k = v) (ks_rows st) = [key] \<and>
       ks_rows ?st = update_where (\<lambda>k. ky_pk k = i) (\<lambda>k. k\<lparr>ky_active := False, ky_updated := ke_now env\<rparr>) (ks_rows st))"
    by (auto simp: revokeApiKey_def Let_def single_Inr dest: required_key_vendor split: sum.split option.split)
  then show ?thesis
  proof (elim disjE exE conjE)
    fix v key assume k: "v \<in> vendor_ids w vs" "filter (\<lambda>k. ky_pk k = i \<and> ky_vendor k = v) (ks_rows st) = [key]"
      "ks_rows ?st = update_where (\<lambda>k. ky_pk k = i) (\<lambda>k. k\<lparr>ky_active := False, ky_updated := ke_now env\<rparr>) (ks_rows st)"
    have "key \<in> set (filter (\<lambda>k. ky_pk k = i \<and> ky_vendor k = v) (ks_rows st))" unfolding k(2) by simp
    then have key: "key \<in> set (ks_rows st)" "ky_pk key = i" "ky_vendor key = v" by simp_all
    from filter_single_unique [OF assms key(1,2)] show ?thesis
      unfolding k(3) by (rule same_for_found) (simp_all add: key(3) k(1))
  qed simp
qed

text \<open>Accounts, with the preferences that belong to a wallet's account.\<close>

definition user_ids :: "string \<Rightarrow> UserRow list \<Rightarrow> string set" where
  "user_ids w us = user_pk ` {u \<in> set us. user_wallet u = w}"

definition users_own :: "string \<Rightarrow> users_db \<Rightarrow> users_db \<Rightarrow> bool" where
  "users_own w db db' \<longleftrightarrow> same_for (\<lambda>u. user_wallet u = w) (ud_users db) (ud_users db') \<and>
     same_for (\<lambda>p. pr_user p \<in> user_ids w (ud_users db')) (ud_prefs db) (ud_prefs db')"

lemma users_own_refl [simp]: "users_own w db db"
  by (simp add: users_own_def)

lemma in_user_ids: "filter (of_wallet w) us = [u] \<Longrightarrow> user_pk u \<in> user_ids w us"
proof -
  assume f: "filter (of_wallet w) us = [u]"
  have "u \<in> set (filter (of_wallet w) us)" unfolding f by simp
  then show ?thesis by (auto simp: user_ids_def of_wallet_def)
qed

lemma upsert_by_own: "(\<And>r. P r \<Longrightarrow> mine r \<and> mine (f r)) \<Longrightarrow> mine (f fresh) \<Longrightarrow> same_for mine rows (upsert_by P f fresh rows)"
  by (auto simp: upsert_by_def intro: same_for_append same_for_update)

lemma default_prefs_own:
  assumes "users_own w db (db1\<lparr>ud_prefs := ud_prefs db\<rparr>)" "ud_prefs db1 = ud_prefs db" "uid \<in> user_ids w (ud_users db1)"
    and "createDefaultPreferences env uid db1 = Inr (p, db2)"
  shows "users_own w db db2"
  using assms by (auto simp: createDefaultPreferences_def users_own_def insert_unique_def with_fault_def Let_def
      intro!: same_for_append split: sum.splits option.splits if_splits)

lemma getMe_own [own]: "users_own w db (snd (getOrCreateProfile env w db))"
proof -
  have old: "users_own w db db2" if "findByWallet env w db = Inr (Some (u, x))" "createDefaultPreferences env (user_pk u) db = Inr (p, db2)" for u x p db2
  proof -
    from that(1) have "filter (of_wallet w) (ud_users db) = [u]"
      by (auto simp: findByWallet_def maybe_single_Some split: sum.splits option.splits)
    from default_prefs_own [OF _ refl in_user_ids [OF this] that(2)] show ?thesis by simp
  qed
  have new: "users_own w db db2" if "create env w db = Inr (u, db1)" "createDefaultPreferences env (user_pk u) db1 = Inr (p, db2)" for u db1 p db2
  proof -
    from that(1) have c: "u = new_user env w" "db1 = db\<lparr>ud_users := ud_users db @ [u]\<rparr>"
      by (auto simp: create_def insert_unique_def with_fault_def split: sum.splits option.splits if_splits)
    have w: "user_wallet u = w" by (simp add: c(1) new_user_def)
    show ?thesis
    proof (rule default_prefs_own [OF _ _ _ that(2)])
      show "users_own w db (db1\<lparr>ud_prefs := ud_prefs db\<rparr>)" using w by (auto simp: users_own_def c(2) intro: same_for_append)
    qed (use w in \<open>auto simp: c(2) user_ids_def\<close>)
  qed
  have created: "users_own w db db1" if "create env w db = Inr (u, db1)" for u db1
    using that by (auto simp: create_def users_own_def insert_unique_def with_fault_def new_user_def
        intro!: same_for_append split: sum.splits option.splits if_splits)
  show ?thesis
    unfolding getOrCreateProfile_def Let_def
    by (auto simp: old new created split: sum.split option.split prod.split)
qed

lemma update_own: "users_own w db (snd (Users.update env w d db))"
proof -
  let ?us = "upsert_by (of_wallet w) (set_profile d) (new_user env w) (ud_users db)"
  have us: "same_for (\<lambda>u. user_wallet u = w) (ud_users db) ?us"
    by (rule upsert_by_own) (simp_all add: of_wallet_def set_profile_def new_user_def)
  have "same_for (\<lambda>p. pr_user p \<in> user_ids w ?us) (ud_prefs db)
      (upsert_by (\<lambda>x. pr_user x = user_pk u) (set_prefs p) fresh (ud_prefs db))"
    if "filter (of_wallet w) ?us = [u]" "pr_user fresh = user_pk u" for u p fresh
    using in_user_ids [OF that(1)] that(2) by (intro upsert_by_own) (simp_all add: set_prefs_def)
  with us show ?thesis
    by (auto simp: Users.update_def Let_def users_own_def single_Inr split: sum.split option.split)
qed

lemma updateMe_own [own]: "users_own w db (snd (Users.updateProfile env w d db))"
  using update_own [of w db env "d\<lparr>uu_name := map_option (map_option sanitize_name) (uu_name d)\<rparr>"]
  by (auto simp: Users.updateProfile_def split: sum.split option.split prod.split)


section \<open>The handlers\<close>

text \<open>The tables but the audit log, without the caches and the counters of the throttler.\<close>

definition tables :: "app \<Rightarrow> _" where
  "tables a = (ua_users (ap_gate a), ap_prefs a, ap_loans a, ap_payments a, txs_rows (ap_txs a), ap_notes a, ap_vendors a,
     ap_products a, ap_paid a, ks_rows (ap_keys a), ap_learners a, ap_sponsors a, ap_positions a, ap_vouches a)"

text \<open>
  Rows of other wallets are as before: accounts and their preferences, loans, transactions,
  notifications, vendor profiles with their products and keys, learner profiles, sponsors, and
  vouches between others; and the tables nobody writes through the interface.
\<close>

definition untouched :: "string \<Rightarrow> app \<Rightarrow> app \<Rightarrow> bool" where
  "untouched w a a' \<longleftrightarrow>
     users_own w (users_view a) (users_view a') \<and>
     same_for (\<lambda>l. loan_wallet l = w) (ap_loans a) (ap_loans a') \<and>
     same_for (\<lambda>t. tx_wallet t = w) (txs_rows (ap_txs a)) (txs_rows (ap_txs a')) \<and>
     same_for (\<lambda>n. nf_wallet n = w) (ap_notes a) (ap_notes a') \<and>
     same_for (\<lambda>v. vn_wallet v = Some w) (ap_vendors a) (ap_vendors a') \<and>
     same_for (\<lambda>p. vp_vendor p \<in> vendor_ids w (ap_vendors a)) (ap_products a) (ap_products a') \<and>
     same_for (\<lambda>k. ky_vendor k \<in> vendor_ids w (ap_vendors a)) (ks_rows (ap_keys a)) (ks_rows (ap_keys a')) \<and>
     same_for (\<lambda>r. lf_wallet r = w) (ap_learners a) (ap_learners a') \<and>
     same_for (\<lambda>r. sr_wallet r = w) (ap_sponsors a) (ap_sponsors a') \<and>
     same_for (\<lambda>v. vw_learner v = w \<or> vw_mentor v = w) (ap_vouches a) (ap_vouches a') \<and>
     ap_payments a' = ap_payments a \<and> ap_paid a' = ap_paid a \<and> ap_positions a' = ap_positions a"

lemma same_tables_untouched: "tables a' = tables a \<Longrightarrow> untouched w a a'"
  by (simp add: tables_def untouched_def users_view_def)

lemma untouched_tables: "tables b = tables a \<Longrightarrow> untouched w b c = untouched w a c"
  by (simp add: tables_def untouched_def users_view_def)

definition keyed :: "app \<Rightarrow> bool" where
  "keyed a \<longleftrightarrow> distinct (map ky_pk (ks_rows (ap_keys a))) \<and> distinct (map vw_pk (ap_vouches a))"

named_theorems views \<open>unfolding of the views on the database\<close>

declare loans_view_def [views] put_loans_def [views] vendors_view_def [views] put_products_def [views]
  wallets_view_def [views] users_view_def [views] put_users_def [views] pool_view_def [views] put_pool_def [views]
  uuid_param_def [views] answer_score_def [views] Let_def [views] split_def [views]

lemma untouched_refl [simp]: "untouched w a a"
  by (rule same_tables_untouched) simp

lemma loans_isolated: "untouched w a (snd (loans_handler env w c a))"
  using createLoan_own [of w "loans_view a"] assessLoan_own [of w "loans_view a"] quote_own [of _ w _ "loans_view a"]
  by (cases c) (auto simp: untouched_def views)

lemma vendors_isolated: "keyed a \<Longrightarrow> untouched w a (snd (vendors_handler env w c a))"
  using createProduct_own [of w "vendors_view a"] updateProduct_own [of w "vendors_view a"] deleteProduct_own [of w "vendors_view a"]
  by (cases c) (auto simp: untouched_def keyed_def views intro: own)

lemma users_isolated: "untouched w a (snd (users_handler env w c a))"
  using getMe_own [of w "users_view a"] updateMe_own [of w "users_view a"]
  by (cases c) (auto simp: untouched_def views users_own_def intro: own)

lemma learners_isolated: "untouched w a (snd (learners_handler env w c a))"
  by (cases c) (auto simp: untouched_def views users_own_def intro: own)

lemma notes_isolated: "untouched w a (snd (notes_handler env w c a))"
  by (cases c) (auto simp: untouched_def views users_own_def intro: own)

lemma score_isolated: "untouched w a (snd (score_handler env w c a))"
  by (cases c) (auto simp: untouched_def views users_own_def intro: own)

lemma sponsors_isolated: "untouched w a (snd (sponsors_handler env w c a))"
  by (cases c) (auto simp: untouched_def views users_own_def intro: own)

lemma pool_isolated: "untouched w a (snd (pool_handler env w c a))"
  by (cases c) (auto simp: untouched_def views users_own_def intro: own)

lemma vouching_isolated: "keyed a \<Longrightarrow> untouched w a (snd (vouch_handler env w c a))"
  by (cases c) (auto simp: untouched_def keyed_def views users_own_def intro: own)

lemma submit_isolated: "untouched w a (snd (tx_handler env w (SubmitTx te xdr kind) a))"
  by (auto simp: untouched_def views users_own_def intro: own)


section \<open>The guards\<close>

definition access_token :: "http_env \<Rightarrow> 'a http_origin_scheme \<Rightarrow> JwtPayload option" where
  "access_token env req =
     (case rq_bearer req of None \<Rightarrow> None
      | Some t \<Rightarrow> (case hq_verify env t of Inl _ \<Rightarrow> None | Inr p \<Rightarrow> if jp_type p = ''access'' then Some p else None))"

lemma validate_users [simp]: "ua_users (snd (validate env p st)) = ua_users st"
  by (simp add: validate_def Let_def split_def)

lemma rolesGuard_users [simp]: "ua_users (snd (rolesGuard env b rs user st)) = ua_users st"
  by (auto simp: rolesGuard_def Let_def split_def split: option.split)

lemma adminGuard_users [simp]: "ua_users (snd (adminGuard env user st)) = ua_users st"
  by (auto simp: adminGuard_def Let_def split_def split: option.split)

lemma jwtAuthGuard_users [simp]: "ua_users (snd (jwtAuthGuard env b st)) = ua_users st"
proof -
  have "ua_users st' = ua_users st" if "validate e p st = (r, st')" for e p r st'
    using validate_users [of e p st] that by simp
  then show ?thesis by (auto simp: jwtAuthGuard_def split: option.split sum.split prod.split)
qed

lemma pass_guard_users: "ua_users (fst (snd (snd (pass_guard env req g s)))) = ua_users (fst (snd s))"
proof -
  obtain user st hits audit where s: "s = (user, st, hits, audit)" by (metis prod.exhaust)
  show ?thesis
    using jwtAuthGuard_users [of env "rq_bearer req" st] rolesGuard_users [of "hq_users env" True _ user st]
      adminGuard_users [of "hq_users env" user st]
    by (cases g) (auto simp: s Let_def split_def audited_adminGuard_def split: prod.split sum.split)
qed

lemma pass_guards_users: "ua_users (fst (snd (snd (pass_guards env req gs s)))) = ua_users (fst (snd s))"
proof (induction gs arbitrary: s)
  case (Cons g gs)
  then show ?case using pass_guard_users [of env req g s] by (auto split: prod.split sum.split)
qed simp

lemma pass_guard_user: "g \<noteq> JwtAuth \<Longrightarrow> fst (snd (pass_guard env req g s)) = fst s"
  by (cases s rule: prod_cases4; cases g) (auto simp: Let_def split_def)

lemma pass_guards_user: "JwtAuth \<notin> set gs \<Longrightarrow> fst (snd (pass_guards env req gs s)) = fst s"
proof (induction gs arbitrary: s)
  case (Cons g gs)
  then show ?case using pass_guard_user [of g env req s] by (auto split: prod.split sum.split)
qed simp

text \<open>The combinations of guards in use.\<close>

lemma guards_table:
  "guards_of c \<in> {[], [JwtAuth], [JwtAuth, HasRole [''vendor'']], [JwtAuth, HasRole [''sponsor'']], [JwtAuth, HasRole [''mentor'']],
     [JwtAuth, AdminWallet], [JwtAuth, WalletThrottle], [JwtAuth, AdminRole]}"
proof (cases c)
  case (LoansRoute x) then show ?thesis by (cases x) simp_all
next
  case (VendorsRoute x) then show ?thesis by (cases x) simp_all
next
  case (UsersRoute x) then show ?thesis by (cases x) simp_all
next
  case (LearnersRoute x) then show ?thesis by (cases x) simp_all
next
  case (NotesRoute x) then show ?thesis by (cases x) simp_all
next
  case (ScoreRoute x) then show ?thesis by (cases x) simp_all
next
  case (SponsorsRoute x) then show ?thesis by (cases x) simp_all
next
  case (PoolRoute x) then show ?thesis by (cases x) simp_all
next
  case (VouchRoute x) then show ?thesis by (cases x) simp_all
next
  case (TxRoute x) then show ?thesis by (cases x) simp_all
next
  case (AdminRoute x) then show ?thesis by (cases x) simp_all
qed

lemma guards_shape: "guards_of c = [] \<or> (\<exists>gs. guards_of c = JwtAuth # gs \<and> JwtAuth \<notin> set gs)"
  using guards_table [of c] by auto

lemma admin_shape: "AdminRole \<in> set (guards_of c) \<Longrightarrow> guards_of c = [JwtAuth, AdminRole]"
  using guards_table [of c] by auto

text \<open>The JWT guard lets a request pass only with a valid access token, and makes its wallet the caller.\<close>

lemma jwt_pass:
  assumes "pass_guard env req JwtAuth (user, st, hits, audit) = (Inr u, user', st', hits', audit')"
  shows "\<exists>p. access_token env req = Some p \<and> user' = Some \<lparr>ru_wallet = jp_wallet p, ru_role = jp_role p\<rparr> \<and>
    validate (hq_users env) p st = (Inr \<lparr>ru_wallet = jp_wallet p, ru_role = jp_role p\<rparr>, st')"
proof -
  from assms obtain x where j: "jwtAuthGuard env (rq_bearer req) st = (Inr x, st')" "user' = Some x"
    by (auto split: prod.splits sum.splits)
  then obtain t p where t: "rq_bearer req = Some t" "hq_verify env t = Inr p" "validate (hq_users env) p st = (Inr x, st')"
    by (auto simp: jwtAuthGuard_def handleRequest_def split: option.splits sum.splits prod.splits if_splits)
  then have "jp_type p = ''access'' \<and> x = \<lparr>ru_wallet = jp_wallet p, ru_role = jp_role p\<rparr>"
    by (auto simp: validate_def Let_def split_def andThen_Inr_iff split: if_splits)
  with t j(2) show ?thesis by (auto simp: access_token_def)
qed

lemma pass_guards_Cons:
  "pass_guards env req (g # gs) s = (Inr u, s') \<longleftrightarrow>
     (\<exists>u1 s1. pass_guard env req g s = (Inr u1, s1) \<and> pass_guards env req gs s1 = (Inr u, s'))"
  by (auto split: prod.split sum.split)

text \<open>A request that passes the guards of a route with guards has a token, whose wallet is the caller.\<close>

lemma guards_pass:
  assumes "pass_guards env req (guards_of c) (None, st, hits, audit) = (Inr u, user, st', hits', audit')" and "guards_of c \<noteq> []"
  shows "\<exists>p. access_token env req = Some p \<and> user = Some \<lparr>ru_wallet = jp_wallet p, ru_role = jp_role p\<rparr>"
proof -
  obtain gs where gs: "guards_of c = JwtAuth # gs" "JwtAuth \<notin> set gs" using guards_shape [of c] assms(2) by auto
  from assms(1) [unfolded gs(1) pass_guards_Cons] obtain u1 s1 where
    p: "pass_guard env req JwtAuth (None, st, hits, audit) = (Inr u1, s1)" "pass_guards env req gs s1 = (Inr u, user, st', hits', audit')" by blast
  obtain user1 st1 hits1 audit1 where s1: "s1 = (user1, st1, hits1, audit1)" by (metis prod.exhaust)
  have "user = user1" using pass_guards_user [OF gs(2), of env req s1] p(2) by (simp add: s1)
  with jwt_pass [OF p(1) [unfolded s1]] show ?thesis by blast
qed


text \<open>The audit log: only a denied request to \<open>/admin\<close> adds an entry, under the wallet of its token.\<close>

lemma handle_audit: "ap_audit (snd (handle env w c a)) = ap_audit a"
proof (cases c)
  case (LoansRoute x) then show ?thesis by (cases x) (auto simp: views)
next
  case (VendorsRoute x) then show ?thesis by (cases x) (auto simp: views)
next
  case (UsersRoute x) then show ?thesis by (cases x) (auto simp: views)
next
  case (LearnersRoute x) then show ?thesis by (cases x) (auto simp: views)
next
  case (NotesRoute x) then show ?thesis by (cases x) (auto simp: views)
next
  case (ScoreRoute x) then show ?thesis by (cases x) (auto simp: views)
next
  case (SponsorsRoute x) then show ?thesis by (cases x) (auto simp: views)
next
  case (PoolRoute x) then show ?thesis by (cases x) (auto simp: views)
next
  case (VouchRoute x) then show ?thesis by (cases x) (auto simp: views)
next
  case (TxRoute x) then show ?thesis by (cases x) (auto simp: views)
next
  case (AdminRoute x) then show ?thesis by (cases x) (auto simp: views)
qed

lemma pass_guard_audit: "g \<noteq> AdminRole \<Longrightarrow> snd (snd (snd (snd (pass_guard env req g s)))) = snd (snd (snd s))"
  by (cases s rule: prod_cases4; cases g) (auto simp: Let_def split_def split: prod.split sum.split)

lemma pass_guards_audit: "AdminRole \<notin> set gs \<Longrightarrow> snd (snd (snd (snd (pass_guards env req gs s)))) = snd (snd (snd s))"
proof (induction gs arbitrary: s)
  case (Cons g gs)
  then show ?case using pass_guard_audit [of g env req s] by (auto split: prod.split sum.split)
qed simp

lemma admin_audit:
  "snd (snd (audited_adminGuard env (Some u) st rows)) = rows \<or>
   fst (audited_adminGuard env (Some u) st rows) \<noteq> Inr () \<and>
     (\<exists>row. snd (snd (audited_adminGuard env (Some u) st rows)) = rows @ [row] \<and> ca_actor (ag_entry row) = ru_wallet u \<and>
        ca_action (ag_entry row) = ''ADMIN_ACCESS_DENIED'')"
  by (auto simp: audited_adminGuard_def log_entry_def denied_entry_def Let_def split_def split: option.split)

definition denial_logged :: "http_env \<Rightarrow> 'a http_origin_scheme \<Rightarrow> guard list \<Rightarrow> AuditLogRow list \<Rightarrow> AuditLogRow list \<Rightarrow> bool" where
  "denial_logged env req gs rows rows' \<longleftrightarrow>
     (\<exists>p row. access_token env req = Some p \<and> AdminRole \<in> set gs \<and> rows' = rows @ [row] \<and>
        ca_actor (ag_entry row) = jp_wallet p \<and> ca_action (ag_entry row) = ''ADMIN_ACCESS_DENIED'')"

lemma guards_audit:
  assumes "pass_guards env req gs (None, st, hits, rows) = (r, user, st', hits', rows')"
    and "AdminRole \<in> set gs \<Longrightarrow> gs = [JwtAuth, AdminRole]"
  shows "rows' = rows \<or> r \<noteq> Inr () \<and> denial_logged env req gs rows rows'"
proof (cases "AdminRole \<in> set gs")
  case False
  from pass_guards_audit [OF this, of env req "(None, st, hits, rows)"] assms(1) show ?thesis by simp
next
  case True
  obtain r1 s1 where j: "pass_guard env req JwtAuth (None, st, hits, rows) = (r1, s1)" by (metis prod.exhaust)
  obtain user1 st1 hits1 rows1 where s1: "s1 = (user1, st1, hits1, rows1)" by (metis prod.exhaust)
  have rows1: "rows1 = rows" using pass_guard_audit [of JwtAuth env req "(None, st, hits, rows)"] j by (simp add: s1)
  show ?thesis
  proof (cases r1)
    case (Inl e)
    with assms(1) j rows1 show ?thesis by (simp add: assms(2) [OF True] s1)
  next
    case (Inr u)
    from jwt_pass [OF j [unfolded Inr s1]] obtain p where p: "access_token env req = Some p"
      "user1 = Some \<lparr>ru_wallet = jp_wallet p, ru_role = jp_role p\<rparr>" by blast
    from assms(1) j have "rows' = snd (snd (audited_adminGuard env user1 st1 rows1)) \<and> r = fst (audited_adminGuard env user1 st1 rows1)"
      by (auto simp: assms(2) [OF True] s1 Inr Let_def split_def split: sum.splits simp del: pass_guard.simps(1))
    with admin_audit [of env "\<lparr>ru_wallet = jp_wallet p, ru_role = jp_role p\<rparr>" st1 rows1] p True rows1 show ?thesis
      by (auto simp: denial_logged_def)
  qed
qed

lemma serve_audit:
  "ap_audit (snd (serve env req a)) = ap_audit a \<or>
   fst (serve env req a) \<noteq> None \<and> tables (snd (serve env req a)) = tables a \<and>
     denial_logged env req (guards_of (rq_call req)) (ap_audit a) (ap_audit (snd (serve env req a)))"
proof -
  obtain r user st hits rows where g:
    "pass_guards env req (guards_of (rq_call req)) (None, ap_gate a, ap_hits a, ap_audit a) = (r, user, st, hits, rows)"
    by (metis prod.exhaust)
  have "ua_users st = ua_users (ap_gate a)"
    using pass_guards_users [of env req "guards_of (rq_call req)" "(None, ap_gate a, ap_hits a, ap_audit a)"] by (simp add: g)
  with guards_audit [OF g admin_shape] g show ?thesis by (cases r) (auto simp: serve_def handle_audit tables_def)
qed

section \<open>Properties\<close>

lemma refused_tables [simp]:
  "ua_users st = ua_users (ap_gate a) \<Longrightarrow> tables (a\<lparr>ap_gate := st, ap_hits := h, ap_audit := r\<rparr>) = tables a"
  by (simp add: tables_def)

text \<open>What an anonymous request can do.\<close>

lemma public_handlers:
  assumes "guards_of c = []" and "\<And>te h. c \<noteq> TxRoute (TxStatus te h)"
  shows "tables (snd (handle env w c a)) = tables a"
proof (cases c)
  case (LoansRoute x) with assms show ?thesis by (cases x) (auto simp: tables_def views)
next
  case (VendorsRoute x) with assms show ?thesis by (cases x) (auto simp: tables_def views)
next
  case (UsersRoute x) with assms show ?thesis by (cases x) (auto simp: tables_def views)
next
  case (LearnersRoute x) with assms show ?thesis by (cases x) (auto simp: tables_def views)
next
  case (NotesRoute x) with assms show ?thesis by (cases x) (auto simp: tables_def views)
next
  case (ScoreRoute x) with assms show ?thesis by (cases x) (auto simp: tables_def views)
next
  case (SponsorsRoute x) with assms show ?thesis by (cases x) (auto simp: tables_def views)
next
  case (PoolRoute x) with assms show ?thesis by (cases x) (auto simp: tables_def views)
next
  case (VouchRoute x) with assms show ?thesis by (cases x) (auto simp: tables_def views)
next
  case (TxRoute x) with assms show ?thesis by (cases x) (auto simp: tables_def views)
next
  case (AdminRoute x) with assms show ?thesis by (cases x) (auto simp: tables_def views)
qed

lemma handlers_isolated:
  assumes "keyed a" and "\<And>ue w role. c \<noteq> AdminRoute (ResetRole ue w role)" and "\<And>te h. c \<noteq> TxRoute (TxStatus te h)"
  shows "untouched w a (snd (handle env w c a))"
proof (cases c)
  case (TxRoute x)
  with assms(3) show ?thesis using submit_isolated [of w a env] by (cases x) (auto simp del: tx_handler.simps(1))
next
  case (AdminRoute x)
  with assms(2) show ?thesis by (cases x) auto
qed (use assms(1) in \<open>simp_all add: loans_isolated vendors_isolated users_isolated learners_isolated
    notes_isolated score_isolated sponsors_isolated pool_isolated vouching_isolated\<close>)

text \<open>A database with one account, of a vendor, and the request that registers its profile.\<close>

definition demo_app :: app where
  "demo_app = \<lparr>ap_gate = \<lparr>ua_users = [demo_user], ua_cache = Map.empty, ua_admin = Map.empty\<rparr>, ap_hits = Map.empty,
     ap_prefs = [], ap_rep = \<lparr>rep_hot = Map.empty, rep_rows = [], rep_users = []\<rparr>, ap_loans = [], ap_payments = [],
     ap_txs = \<lparr>txs_rows = [], txs_cache = Map.empty\<rparr>, ap_notes = [], ap_vendors = [], ap_products = [], ap_paid = [],
     ap_keys = \<lparr>ks_rows = [], ks_record = Map.empty, ks_negative = Map.empty, ks_rate = Map.empty, ks_ip = Map.empty,
       ks_used = Map.empty\<rparr>, ap_learners = [], ap_sponsors = [], ap_positions = [], ap_summaries = Map.empty,
     ap_overview = Map.empty, ap_vouches = [], ap_audit = []\<rparr>"

definition demo_http :: http_env where
  "demo_http = \<lparr>hq_users = demo_uenv,
     hq_verify = (\<lambda>t. if t = ''token'' then Inr \<lparr>jp_wallet = ''GA'', jp_type = ''access'', jp_role = None\<rparr> else Inl TokenInvalid),
     hq_admins = None, hq_uuid = (\<lambda>_. True), hq_audit = demo_audit, hq_metadata = (\<lambda>_. [])\<rparr>"

text \<open>The two routes that are not bound to the caller: a status settles the rows of one hash, a reset takes the role of one wallet.\<close>

definition settles_hash :: "string \<Rightarrow> app \<Rightarrow> app \<Rightarrow> bool" where
  "settles_hash h a a' \<longleftrightarrow> tables (a'\<lparr>ap_txs := ap_txs a\<rparr>) = tables a \<and>
     (\<exists>c resp. ts_status resp \<noteq> TxPending \<and>
        txs_rows (ap_txs a') = update_where (\<lambda>x. col_of c x = Some h) (finalize_row resp) (txs_rows (ap_txs a)))"

definition resets_role_of :: "string \<Rightarrow> app \<Rightarrow> app \<Rightarrow> bool" where
  "resets_role_of v a a' \<longleftrightarrow> tables (a'\<lparr>ap_gate := ap_gate a\<rparr>) = tables a \<and>
     (\<exists>role. ua_users (ap_gate a') = update_where (of_wallet v) (set_role role) (ua_users (ap_gate a)))"

lemma settles_hash_tables: "tables b = tables a \<Longrightarrow> settles_hash h b c = settles_hash h a c"
  by (simp add: settles_hash_def tables_def)

lemma resets_role_tables: "tables b = tables a \<Longrightarrow> resets_role_of v b c = resets_role_of v a c"
  by (simp add: resets_role_of_def tables_def)

lemma found_record: "findTransactionRecord te h rows = Inr (Some r) \<Longrightarrow> to_lower h = h \<Longrightarrow> rec_hash r = h"
  by (auto simp: findTransactionRecord_def Let_def find_in_column_def with_fault_def maybe_single_def record_of_def
      dest!: filter_singleD split: sum.splits option.splits list.splits if_splits)

lemma status_settles:
  "tables (snd (tx_handler env w (TxStatus te h) a)) = tables a \<or> settles_hash (to_lower h) a (snd (tx_handler env w (TxStatus te h) a))"
proof -
  have "txs_rows (snd (getTransactionStatus te h st)) = txs_rows st \<or>
      (\<exists>c resp. ts_status resp \<noteq> TxPending \<and> txs_rows (snd (getTransactionStatus te h st)) =
         update_where (\<lambda>x. col_of c x = Some (to_lower h)) (finalize_row resp) (txs_rows st))" for st
  proof -
    have "persistFinalizedTransaction te rec (buildFinalizedTransactionResponse te t rec) rows = rows \<or>
        (\<exists>c resp. ts_status resp \<noteq> TxPending \<and> persistFinalizedTransaction te rec (buildFinalizedTransactionResponse te t rec) rows =
           update_where (\<lambda>x. col_of c x = Some (to_lower h)) (finalize_row resp) rows)"
      if f: "findTransactionRecord te (to_lower h) rows = Inr rec" for rec t rows
    proof (cases rec)
      case (Some r)
      have "rec_hash r = to_lower h" using found_record [OF f [unfolded Some]] by simp
      moreover have "ts_status (buildFinalizedTransactionResponse te t rec) \<noteq> TxPending"
        by (simp add: buildFinalizedTransactionResponse_def)
      ultimately show ?thesis by (cases "te_faults te ''update.finalized''") (auto simp: persistFinalizedTransaction_def Some)
    qed (simp add: persistFinalizedTransaction_def)
    then show ?thesis by (auto simp: getTransactionStatus_def Let_def split: option.split sum.split)
  qed
  from this [of "ap_txs a"] show ?thesis
    by (auto simp: settles_hash_def tables_def Let_def split_def)
qed

lemma reset_resets:
  "tables (snd (admin_handler env w (ResetRole ue v role) a)) = tables a \<or>
   resets_role_of v a (snd (admin_handler env w (ResetRole ue v role) a))"
  by (auto simp: resets_role_of_def tables_def resetUserRole_def forceSetRole_def Let_def split_def
      split: sum.split option.split prod.split)

lemma tables_isolated:
  assumes "keyed a"
  shows "tables (snd (serve env req a)) = tables a \<or>
     (\<exists>p. access_token env req = Some p \<and>
        (untouched (jp_wallet p) a (snd (serve env req a)) \<or>
         (\<exists>ue v role. rq_call req = AdminRoute (ResetRole ue v role) \<and> resets_role_of v a (snd (serve env req a)) \<and>
           snd (fst (getUserState (hq_users env) (jp_wallet p) (ua_users (ap_gate a)) (ua_admin (ap_gate a)))) = Some ''admin''))) \<or>
     (\<exists>te h. rq_call req = TxRoute (TxStatus te h) \<and> settles_hash (to_lower h) a (snd (serve env req a)))"
proof -
  obtain r user st hits audit where g: "pass_guards env req (guards_of (rq_call req)) (None, ap_gate a, ap_hits a, ap_audit a) = (r, user, st, hits, audit)"
    by (metis prod.exhaust)
  have users: "ua_users st = ua_users (ap_gate a)"
    using pass_guards_users [of env req "guards_of (rq_call req)" "(None, ap_gate a, ap_hits a, ap_audit a)"] by (simp add: g)
  let ?b = "a\<lparr>ap_gate := st, ap_hits := hits, ap_audit := audit\<rparr>"
  have tb: "tables ?b = tables a" using users by simp
  show ?thesis
  proof (cases r)
    case (Inl e)
    with g tb show ?thesis by (simp add: serve_def)
  next
    case (Inr u)
    let ?w = "case user of Some u \<Rightarrow> ru_wallet u | None \<Rightarrow> []"
    have s: "snd (serve env req a) = snd (handle env ?w (rq_call req) ?b)" using g Inr by (simp add: serve_def)
    show ?thesis
    proof (cases "guards_of (rq_call req) = []")
      case none: True
      show ?thesis
      proof (cases "\<exists>te h. rq_call req = TxRoute (TxStatus te h)")
        case True
        then obtain te h where c: "rq_call req = TxRoute (TxStatus te h)" by blast
        have "snd (serve env req a) = snd (tx_handler env ?w (TxStatus te h) ?b)" unfolding s c by simp
        with status_settles [of env ?w te h ?b] c show ?thesis unfolding settles_hash_tables [OF tb] tb by metis
      next
        case False
        then show ?thesis unfolding s using public_handlers [OF none] tb by simp
      qed
    next
      case guarded: False
      from guards_pass [OF g [unfolded Inr] guarded] obtain p where
        p: "access_token env req = Some p" "user = Some \<lparr>ru_wallet = jp_wallet p, ru_role = jp_role p\<rparr>" by blast
      have tx: "\<And>te h. rq_call req \<noteq> TxRoute (TxStatus te h)" using guarded by auto
      have keyed: "keyed ?b" using assms(1) by (simp add: keyed_def)
      show ?thesis
      proof (cases "\<exists>ue w role. rq_call req = AdminRoute (ResetRole ue w role)")
        case False
        then have "untouched (jp_wallet p) ?b (snd (serve env req a))"
          unfolding s using handlers_isolated [OF keyed] p(2) tx by simp
        then have "untouched (jp_wallet p) a (snd (serve env req a))" using untouched_tables [OF tb] by simp
        with p(1) show ?thesis by blast
      next
        case True
        then obtain ue w role where c: "rq_call req = AdminRoute (ResetRole ue w role)" by blast
        from g Inr c have "pass_guards env req [JwtAuth, AdminRole] (None, ap_gate a, ap_hits a, ap_audit a) = (Inr u, user, st, hits, audit)"
          by (simp del: pass_guard.simps pass_guards.simps)
        then obtain u1 s1 where
          j: "pass_guard env req JwtAuth (None, ap_gate a, ap_hits a, ap_audit a) = (Inr u1, s1)"
          and ad: "pass_guard env req AdminRole s1 = (Inr u, user, st, hits, audit)"
          unfolding pass_guards_Cons by auto
        obtain user1 st1 hits1 audit1 where s1: "s1 = (user1, st1, hits1, audit1)" by (metis prod.exhaust)
        from jwt_pass [OF j [unfolded s1]] p(1) have u1: "user1 = Some \<lparr>ru_wallet = jp_wallet p, ru_role = jp_role p\<rparr>"
          and v: "st1 = snd (validate (hq_users env) p (ap_gate a))" by auto
        have "ua_users st1 = ua_users (ap_gate a)" "ua_admin st1 = ua_admin (ap_gate a)"
          by (simp_all add: v validate_def Let_def split_def)
        moreover have "snd (fst (getUserState (hq_users env) (jp_wallet p) (ua_users st1) (ua_admin st1))) = Some ''admin''"
          using ad by (auto simp: s1 u1 audited_adminGuard_def adminGuard_def Let_def split_def split: if_splits)
        moreover have "snd (serve env req a) = snd (admin_handler env ?w (ResetRole ue w role) ?b)" unfolding s c by simp
        with reset_resets [of env ?w ue w role ?b] have "tables (snd (serve env req a)) = tables a \<or> resets_role_of w a (snd (serve env req a))"
          unfolding resets_role_tables [OF tb] tb by metis
        ultimately show ?thesis using c p(1) by auto
      qed
    qed
  qed
qed

lemma validate_cache: "jp_type p = ''access'' \<Longrightarrow>
    ua_cache (snd (validate env p st)) = snd (getUserState env (jp_wallet p) (ua_users st) (ua_cache st))"
  by (simp add: validate_def ensureNotBlocked_def Let_def split_def)

lemma access_token_type: "access_token env req = Some p \<Longrightarrow> jp_type p = ''access''"
  by (auto simp: access_token_def split: option.splits sum.splits if_splits)

text \<open>
  What the guards of a route that asks for a token guarantee of the requests they let pass: the caches
  of the two modules hold states the database had within the last 30 seconds.
\<close>

lemma guards_guarantee:
  assumes "cache_reach hist flts t (ua_cache st)" and "cache_reach hist flts t' (ua_admin st)"
    and "t \<le> ue_now (hq_users env)" and "t' \<le> ue_now (hq_users env)"
    and "ue_faults (hq_users env) = flts (ue_now (hq_users env))" and "ua_users st = hist (ue_now (hq_users env))"
    and "fst (pass_guards env req (JwtAuth # gs) (None, st, hits, audit)) = Inr ()"
  shows "\<exists>p. access_token env req = Some p \<and>
    (\<exists>t0. ue_now (hq_users env) - 30000 < t0 \<and> t0 \<le> ue_now (hq_users env) \<and>
       fst (read_user_state (flts t0) (hist t0) (jp_wallet p)) \<noteq> ''blocked'') \<and>
    (\<forall>role. (gs = [HasRole [role]] \<and> jp_wallet p \<noteq> []) \<or> (gs = [AdminRole] \<and> role = ''admin'') \<longrightarrow>
       (\<exists>t0 x. ue_now (hq_users env) - 30000 < t0 \<and> t0 \<le> ue_now (hq_users env) \<and>
          filter (of_wallet (jp_wallet p)) (hist t0) = [x] \<and> user_role x = Some role)) \<and>
    (gs = [AdminWallet] \<longrightarrow>
       (\<exists>setting. hq_admins env = Some setting \<and> jp_wallet p \<in> set (map trim (split_on (CHR '','') setting))))"
proof -
  let ?now = "ue_now (hq_users env)"
  obtain s' where "pass_guards env req (JwtAuth # gs) (None, st, hits, audit) = (Inr (), s')"
    using assms(7) by (metis prod.collapse)
  then obtain u1 user1 st1 hits1 audit1 where j: "pass_guard env req JwtAuth (None, st, hits, audit) = (Inr u1, user1, st1, hits1, audit1)"
    and rest: "pass_guards env req gs (user1, st1, hits1, audit1) = (Inr (), s')"
    unfolding pass_guards_Cons by (metis prod.exhaust)
  from jwt_pass [OF j] obtain p where p: "access_token env req = Some p"
    "user1 = Some \<lparr>ru_wallet = jp_wallet p, ru_role = jp_role p\<rparr>"
    and v: "validate (hq_users env) p st = (Inr \<lparr>ru_wallet = jp_wallet p, ru_role = jp_role p\<rparr>, st1)" by blast
  note ty = access_token_type [OF p(1)]
  let ?g = "getUserState (hq_users env) (jp_wallet p) (hist ?now) (ua_cache st)"
  from getUserState_recent [OF assms(1,3,5), of "jp_wallet p"] obtain t0 where
    t0: "?now - 30000 < t0" "t0 \<le> ?now" "fst ?g = read_user_state (flts t0) (hist t0) (jp_wallet p)"
    unfolding recent_def USER_STATUS_CACHE_TTL_MS_def by blast
  have "fst (fst ?g) \<noteq> ''blocked''"
    using v ty by (auto simp: validate_def ensureNotBlocked_def Let_def split_def assms(6) andThen_Inr_iff split: if_splits)
  with t0 have unblocked: "\<exists>t0. ?now - 30000 < t0 \<and> t0 \<le> ?now \<and> fst (read_user_state (flts t0) (hist t0) (jp_wallet p)) \<noteq> ''blocked''"
    by metis
  have c1: "ua_cache st1 = snd ?g" and us1: "ua_users st1 = hist ?now" and ad1: "ua_admin st1 = ua_admin st"
    using validate_cache [OF ty, of "hq_users env" st] validate_users [of "hq_users env" p st] v
    by (auto simp: assms(6) validate_def Let_def split_def split: if_splits)
  have reach: "cache_reach hist flts ?now (ua_cache st1)" unfolding c1 by (rule cache_reach.check [OF assms(1,3,5)])
  have recent_role: "\<exists>t0 x. ?now - 30000 < t0 \<and> t0 \<le> ?now \<and> filter (of_wallet (jp_wallet p)) (hist t0) = [x] \<and> user_role x = Some role"
    if c: "cache_reach hist flts t1 c" "t1 \<le> ?now" and r: "snd (fst (getUserState (hq_users env) (jp_wallet p) (hist ?now) c)) = Some role" for role c t1
  proof -
    from getUserState_recent [OF c assms(5), of "jp_wallet p"] obtain t2 where
      "?now - 30000 < t2" "t2 \<le> ?now" "snd (read_user_state (flts t2) (hist t2) (jp_wallet p)) = Some role"
      unfolding recent_def USER_STATUS_CACHE_TTL_MS_def r [symmetric] by metis
    with read_user_state_role show ?thesis by metis
  qed
  have asked: "snd (fst (getUserState (hq_users env) (jp_wallet p) (hist ?now) (ua_cache st1))) = Some role"
    if "gs = [HasRole [role]]" "jp_wallet p \<noteq> []" for role
    using rest that by (auto simp: p(2) rolesGuard_def Let_def split_def us1 split: prod.splits sum.splits option.splits if_splits)
  have admin: "snd (fst (getUserState (hq_users env) (jp_wallet p) (hist ?now) (ua_admin st))) = Some ''admin''" if "gs = [AdminRole]"
    using rest that by (auto simp: p(2) audited_adminGuard_def adminGuard_def Let_def split_def us1 ad1 split: prod.splits sum.splits if_splits)
  have listed: "\<exists>setting. hq_admins env = Some setting \<and> jp_wallet p \<in> set (map trim (split_on (CHR '','') setting))" if "gs = [AdminWallet]"
  proof -
    from rest that have "adminWalletsGuard (hq_admins env) (Some \<lparr>ru_wallet = jp_wallet p, ru_role = jp_role p\<rparr>) = Inr ()"
      by (auto simp: p(2) split: sum.splits)
    then show ?thesis by (cases "hq_admins env") (auto simp: adminWalletsGuard_def or_else_def trim_def split: if_splits)
  qed
  have "\<exists>t0 x. ?now - 30000 < t0 \<and> t0 \<le> ?now \<and> filter (of_wallet (jp_wallet p)) (hist t0) = [x] \<and> user_role x = Some role"
    if "(gs = [HasRole [role]] \<and> jp_wallet p \<noteq> []) \<or> (gs = [AdminRole] \<and> role = ''admin'')" for role
    using that recent_role [OF reach order.refl asked] recent_role [OF assms(2,4) admin] by (elim disjE conjE) simp_all
  with p(1) unblocked listed show ?thesis by (intro exI [of _ p] conjI allI impI) simp_all
qed

end
