(* ===== verification/Avatars.thy ===== *)
theory Avatars imports AuthSession begin

text \<open>
  Registration with a profile image (\<open>register\<close> of \<open>modules/auth/auth.service.ts\<close> with
  \<open>uploadAvatar\<close> and \<open>deleteAvatar\<close> of \<open>database/repositories/users.repository.ts\<close>): the image goes to
  a bucket first, and is removed again when the registration fails.
\<close>

record UploadedAvatarFile =
  uf_originalname :: string
  uf_buffer :: string
  uf_mimetype :: string

text \<open>The bucket \<open>avatars\<close>: contents and types by name. \<open>av_url\<close> is the public address of an object.\<close>

type_synonym bucket = "string \<Rightarrow> (string \<times> string) option"

record avatar_env =
  av_now :: int
  av_url :: "string \<Rightarrow> string"
  av_faults :: faults

definition avatar_name :: "avatar_env \<Rightarrow> string \<Rightarrow> UploadedAvatarFile \<Rightarrow> string" where
  "avatar_name env w file =
     w @ ''-'' @ decimal (nat (av_now env)) @ ''.'' @ last (split_on (CHR ''.'') (uf_originalname file))"

definition uploadAvatar :: "avatar_env \<Rightarrow> string \<Rightarrow> UploadedAvatarFile \<Rightarrow> bucket \<Rightarrow> string result \<times> bucket" where
  "uploadAvatar env w file b =
     (let name = avatar_name env w file
      in case av_faults env ''avatars.upload'' of
           Some _ \<Rightarrow> (Inl (internal_error ''STORAGE_UPLOAD_FAILED''), b)
         | None \<Rightarrow> (Inr (av_url env name), b(name \<mapsto> (uf_buffer file, uf_mimetype file))))"

text \<open>The name is what follows the last slash (the whole text when there is none); failures are ignored.\<close>

definition deleteAvatar :: "avatar_env \<Rightarrow> string \<Rightarrow> bucket \<Rightarrow> bucket" where
  "deleteAvatar env url b =
     (let name = last (split_on (CHR ''/'') url)
      in if name = [] \<or> av_faults env ''avatars.remove'' \<noteq> None then b else b(name := None))"

definition register_image ::
  "session_env \<Rightarrow> avatar_env \<Rightarrow> UploadedAvatarFile option \<Rightarrow> RegisterRequest \<Rightarrow> session_state \<Rightarrow> bucket \<Rightarrow>
   (UserRow \<times> AuthResponse) result \<times> session_state \<times> bucket" where
  "register_image env av img dto st b =
     (case (case img of None \<Rightarrow> (Inr None, b)
            | Some file \<Rightarrow> (let (r, b') = uploadAvatar av (rg_wallet dto) file b in (map_sum id Some r, b'))) of
        (avatar, b1) \<Rightarrow>
          let (r, st') = register env avatar dto st
          in (r, st',
              case (r, avatar) of
                (Inl _, Inr (Some url)) \<Rightarrow> if url = [] then b1 else deleteAvatar av url b1
              | _ \<Rightarrow> b1))"

lemma register_image_register:
  "\<exists>avatar. register env avatar dto st = (fst (register_image env av img dto st b), fst (snd (register_image env av img dto st b)))"
  by (auto simp: register_image_def Let_def split_def)

text \<open>What is relied on: the address of a plainly named object ends with its name.\<close>

definition url_law :: "avatar_env \<Rightarrow> string \<Rightarrow> bool" where
  "url_law av name \<longleftrightarrow> (\<exists>base. av_url av name = base @ ''/'' @ name) \<and> CHR ''/'' \<notin> set name \<and> name \<noteq> []"

lemma delete_uploaded:
  assumes "url_law av name" and "av_faults av ''avatars.remove'' = None"
  shows "av_url av name \<noteq> []" and "deleteAvatar av (av_url av name) b = b(name := None)"
proof -
  from assms(1) obtain base where u: "av_url av name = base @ CHR ''/'' # name" "CHR ''/'' \<notin> set name" "name \<noteq> []"
    by (auto simp: url_law_def)
  then show "av_url av name \<noteq> []" by simp
  show "deleteAvatar av (av_url av name) b = b(name := None)"
    using u last_piece [OF u(2), of base] assms(2) by (simp add: deleteAvatar_def Let_def)
qed

text \<open>The failed registration takes the user it made along, with the sessions of that user.\<close>

lemma register_failed:
  assumes "register env avatar dto st = (Inl e, st')" and "ue_faults (sn_users env) ''users.delete'' = None"
    and "\<forall>u \<in> set (ss_users st). user_pk u \<noteq> ue_pk (sn_users env)"
  shows "ss_users st' = ss_users st"
proof -
  let ?w = "rg_wallet dto"
  consider "st' = st"
    | url u us st1 where "createProfile (sn_users env) ?w (rg_username dto) (rg_displayName dto) url (ss_users st) = Inr (u, us)"
      "generateTokens env ?w None (st\<lparr>ss_users := us\<rparr>) = (Inl e, st1)" "st' = drop_user env (user_pk u) st1"
    using assms(1) by (auto simp: register_def split: sum.splits prod.splits)
  then show ?thesis
  proof cases
    case (2 url u us st1)
    have u: "us = ss_users st @ [u]" "user_pk u = ue_pk (sn_users env)" "user_wallet u = ?w"
      using 2(1) by (auto simp: createProfile_def new_user_def Let_def split: option.splits if_splits)
    have same: "upsert_by (of_wallet ?w) (\<lambda>x. x) (new_user (sn_users env) ?w) us = us"
      using u by (auto simp: upsert_by_def of_wallet_def update_where_def)
    have "ss_users (snd (findOrCreateUser env ?w (st\<lparr>ss_users := us\<rparr>))) = us"
      by (auto simp: findOrCreateUser_def Let_def same split: sum.split)
    then have "ss_users st1 = us"
      using 2(2) by (auto simp: generateTokens_def Let_def split: prod.splits sum.splits option.splits)
    with 2(3) u assms(2,3) show ?thesis
      by (auto simp: drop_user_def Let_def deleteUserById_def delete_where_def filter_id_conv)
  qed simp
qed

text \<open>A registration that fails leaves nothing behind: whichever step refuses it (the upload, a name or
  wallet that is taken, a query that fails), the users are as before and so is the bucket, provided
  that the clean-up itself can delete.\<close>

theorem failed_registration_leaves_nothing:
  assumes "register_image env av img dto st b = (Inl e, st', b')"
    and "ue_faults (sn_users env) ''users.delete'' = None" and "av_faults av ''avatars.remove'' = None"
    and "\<forall>u \<in> set (ss_users st). user_pk u \<noteq> ue_pk (sn_users env)"
    and "\<forall>file. img = Some file \<longrightarrow>
      url_law av (avatar_name av (rg_wallet dto) file) \<and> b (avatar_name av (rg_wallet dto) file) = None"
  shows "ss_users st' = ss_users st \<and> b' = b"
proof -
  obtain avatar b1 where a: "(case img of None \<Rightarrow> (Inr None, b)
      | Some file \<Rightarrow> (let (r, b') = uploadAvatar av (rg_wallet dto) file b in (map_sum id Some r, b'))) = (avatar, b1)"
    by (metis prod.exhaust)
  with assms(1) have r: "register env avatar dto st = (Inl e, st')"
    and b': "b' = (case avatar of Inr (Some url) \<Rightarrow> if url = [] then b1 else deleteAvatar av url b1 | _ \<Rightarrow> b1)"
    by (auto simp: register_image_def Let_def split: prod.splits sum.splits option.splits)
  have "b' = b"
  proof (cases img)
    case None
    with a b' show ?thesis by auto
  next
    case (Some f)
    let ?n = "avatar_name av (rg_wallet dto) f"
    from assms(5) Some have law: "url_law av ?n" and n: "b ?n = None" by auto
    have "b(?n := None) = b" using n by auto
    with a b' Some delete_uploaded [OF law assms(3)] show ?thesis
      by (auto simp: uploadAvatar_def Let_def split: option.splits)
  qed
  with register_failed [OF r assms(2,4)] show ?thesis by blast
qed

definition demo_avatar_env :: avatar_env where
  "demo_avatar_env = \<lparr>av_now = 5, av_url = (\<lambda>n. ''https://storage/avatars'' @ ''/'' @ n), av_faults = no_faults\<rparr>"

definition demo_image :: UploadedAvatarFile where
  "demo_image = \<lparr>uf_originalname = ''me.png'', uf_buffer = ''bits'', uf_mimetype = ''image/png''\<rparr>"

lemma demo_image_name: "avatar_name demo_avatar_env ''GA'' demo_image = ''GA-5.png''"
  by code_simp

theorem failed_registration_leaves_nothing_witness:
  "\<exists>st' b'. register_image demo_senv demo_avatar_env (Some demo_image) \<lparr>rg_wallet = ''GA'', rg_username = ''ada'', rg_displayName = ''Ada''\<rparr>
      (demo_sessions\<lparr>ss_users := [demo_user\<lparr>user_pk := ''u0''\<rparr>]\<rparr>) Map.empty = (Inl (conflict ''AUTH_WALLET_EXISTS''), st', b') \<and>
     ss_users st' = [demo_user\<lparr>user_pk := ''u0''\<rparr>] \<and> b' = Map.empty"
proof -
  let ?st = "demo_sessions\<lparr>ss_users := [demo_user\<lparr>user_pk := ''u0''\<rparr>]\<rparr>"
  let ?dto = "\<lparr>rg_wallet = ''GA'', rg_username = ''ada'', rg_displayName = ''Ada''\<rparr>"
  have "fst (register_image demo_senv demo_avatar_env (Some demo_image) ?dto ?st Map.empty) = Inl (conflict ''AUTH_WALLET_EXISTS'')"
    by (simp add: register_image_def uploadAvatar_def register_def createProfile_def demo_avatar_env_def demo_session_defs Let_def)
  then obtain st' b' where r: "register_image demo_senv demo_avatar_env (Some demo_image) ?dto ?st Map.empty =
      (Inl (conflict ''AUTH_WALLET_EXISTS''), st', b')" by (metis prod.collapse)
  have "url_law demo_avatar_env ''GA-5.png''" unfolding url_law_def by (auto simp: demo_avatar_env_def)
  then have "\<forall>f. Some demo_image = Some f \<longrightarrow> url_law demo_avatar_env (avatar_name demo_avatar_env (rg_wallet ?dto) f) \<and>
      Map.empty (avatar_name demo_avatar_env (rg_wallet ?dto) f) = None" by (simp add: demo_image_name)
  from failed_registration_leaves_nothing [OF r _ _ _ this] have "ss_users st' = ss_users ?st \<and> b' = Map.empty"
    by (simp add: demo_avatar_env_def demo_session_defs)
  with r show ?thesis by (simp add: demo_sessions_def)
qed

end
