(* ===== verification/Validation.thy ===== *)
theory Validation imports Api Avatars begin

text \<open>
  The bodies and queries of requests: the DTO classes with their decorators (\<open>modules/*/dto\<close>), read
  by the global pipe of \<open>main.ts\<close>, which refuses unknown fields. The decorators are those of
  class-validator: the checks they stand for are a parameter (\<open>rules\<close>), with what their documentation
  promises as a predicate (\<open>documented\<close>).
\<close>

section \<open>Checks\<close>

datatype json = JNull | JBool bool | JNum num | JStr string | JArr "json list" | JObj "(string \<times> json) list"

type_synonym check = "json \<Rightarrow> bool"

record rules =
  vl_isString :: check
  vl_isNumber :: check
  vl_isInt :: check
  vl_isBoolean :: check
  vl_isNotEmpty :: check
  vl_isPositive :: check
  vl_isUUID :: check
  vl_isUrl :: check
  vl_isDateString :: check
  vl_min :: "num \<Rightarrow> check"
  vl_max :: "num \<Rightarrow> check"
  vl_length :: "nat \<Rightarrow> nat \<Rightarrow> check"
  vl_minLength :: "nat \<Rightarrow> check"
  vl_maxLength :: "nat \<Rightarrow> check"
  vl_arrayMin :: "nat \<Rightarrow> check"
  vl_arrayMax :: "nat \<Rightarrow> check"

text \<open>\<open>@IsIn\<close> and \<open>@IsEnum\<close>, \<open>@Matches\<close> with a regular expression, \<open>@IsArray\<close>, and the option \<open>each\<close>.\<close>

definition is_in :: "string list \<Rightarrow> check" where
  "is_in vs v = (case v of JStr s \<Rightarrow> s \<in> set vs | _ \<Rightarrow> False)"

definition matches :: "(string \<Rightarrow> bool) \<Rightarrow> check" where
  "matches p v = (case v of JStr s \<Rightarrow> p s | _ \<Rightarrow> False)"

definition is_array :: check where
  "is_array v = (case v of JArr _ \<Rightarrow> True | _ \<Rightarrow> False)"

definition each :: "check \<Rightarrow> check" where
  "each c v = (case v of JArr vs \<Rightarrow> list_all c vs | _ \<Rightarrow> False)"

definition documented :: "rules \<Rightarrow> bool" where
  "documented r \<longleftrightarrow>
     (\<forall>v. vl_isString r v \<longleftrightarrow> (\<exists>s. v = JStr s)) \<and> (\<forall>v. vl_isNumber r v \<longleftrightarrow> (\<exists>x. v = JNum x)) \<and>
     (\<forall>v. vl_isInt r v \<longleftrightarrow> (\<exists>i. v = JNum (of_int i))) \<and> (\<forall>v. vl_isBoolean r v \<longleftrightarrow> (\<exists>b. v = JBool b)) \<and>
     (\<forall>v. vl_isNotEmpty r v \<longleftrightarrow> v \<noteq> JNull \<and> v \<noteq> JStr []) \<and>
     (\<forall>v. vl_isPositive r v \<longleftrightarrow> (\<exists>x. v = JNum x \<and> 0 < x)) \<and>
     (\<forall>n v. vl_min r n v \<longleftrightarrow> (\<exists>x. v = JNum x \<and> n \<le> x)) \<and> (\<forall>n v. vl_max r n v \<longleftrightarrow> (\<exists>x. v = JNum x \<and> x \<le> n)) \<and>
     (\<forall>n v. vl_arrayMin r n v \<longleftrightarrow> (\<exists>vs. v = JArr vs \<and> n \<le> length vs))"

text \<open>
  A field: its name, whether \<open>undefined\<close> and \<open>null\<close> skip its checks (\<open>@IsOptional\<close>), when it is checked
  at all (\<open>@ValidateIf\<close>), and its checks, which all fail on \<open>undefined\<close>.
\<close>

record field =
  fd_name :: string
  fd_optional :: bool
  fd_when :: "(string \<times> json) list \<Rightarrow> bool"
  fd_checks :: "check list"

definition must :: "string \<Rightarrow> check list \<Rightarrow> field" where
  "must k cs = \<lparr>fd_name = k, fd_optional = False, fd_when = (\<lambda>_. True), fd_checks = cs\<rparr>"

definition may :: "string \<Rightarrow> check list \<Rightarrow> field" where
  "may k cs = (must k cs)\<lparr>fd_optional := True\<rparr>"

definition field_ok :: "(string \<times> json) list \<Rightarrow> field \<Rightarrow> bool" where
  "field_ok kvs f \<longleftrightarrow>
     fd_when f kvs \<longrightarrow>
       (case map_of kvs (fd_name f) of
          None \<Rightarrow> fd_optional f \<or> fd_checks f = []
        | Some v \<Rightarrow> fd_optional f \<and> v = JNull \<or> list_all (\<lambda>c. c v) (fd_checks f))"

definition validated :: "field list \<Rightarrow> json \<Rightarrow> (string \<times> json) list result" where
  "validated fs body =
     (case body of
        JObj kvs \<Rightarrow>
          if list_all (\<lambda>kv. fst kv \<in> fd_name ` set fs) kvs \<and> list_all (field_ok kvs) fs then Inr kvs
          else Inl (bad_request ''Bad Request'')
      | _ \<Rightarrow> Inl (bad_request ''Bad Request''))"

text \<open>The value of a checked field.\<close>

definition text_of :: "(string \<times> json) list \<Rightarrow> string \<Rightarrow> string option" where
  "text_of kvs k = (case map_of kvs k of Some (JStr s) \<Rightarrow> Some s | _ \<Rightarrow> None)"

definition number_of :: "(string \<times> json) list \<Rightarrow> string \<Rightarrow> num option" where
  "number_of kvs k = (case map_of kvs k of Some (JNum x) \<Rightarrow> Some x | _ \<Rightarrow> None)"

definition nat_of :: "(string \<times> json) list \<Rightarrow> string \<Rightarrow> nat option" where
  "nat_of kvs k = map_option (\<lambda>x. nat \<lfloor>x\<rfloor>) (number_of kvs k)"

definition flag_of :: "(string \<times> json) list \<Rightarrow> string \<Rightarrow> bool option" where
  "flag_of kvs k = (case map_of kvs k of Some (JBool b) \<Rightarrow> Some b | _ \<Rightarrow> None)"

text \<open>A field that tells \<open>undefined\<close> from \<open>null\<close>.\<close>

definition nullable :: "(string \<times> json) list \<Rightarrow> string \<Rightarrow> 'a option \<Rightarrow> 'a option option" where
  "nullable kvs k v = (case map_of kvs k of None \<Rightarrow> None | Some JNull \<Rightarrow> Some None | Some _ \<Rightarrow> Some v)"

definition texts_of :: "(string \<times> json) list \<Rightarrow> string \<Rightarrow> string list" where
  "texts_of kvs k = (case map_of kvs k of Some (JArr vs) \<Rightarrow> map (\<lambda>v. case v of JStr s \<Rightarrow> s | _ \<Rightarrow> []) vs | _ \<Rightarrow> [])"

definition the_text :: "(string \<times> json) list \<Rightarrow> string \<Rightarrow> string" where
  "the_text kvs k = or_else (text_of kvs k) []"

definition the_number :: "(string \<times> json) list \<Rightarrow> string \<Rightarrow> num" where
  "the_number kvs k = or_else (number_of kvs k) 0"

section \<open>Loans and liquidity\<close>

definition LoanQuoteRequest_fields :: "rules \<Rightarrow> field list" where
  "LoanQuoteRequest_fields r =
     [must ''amount'' [vl_isNumber r, vl_min r 1, vl_max r 10000], must ''vendor'' [vl_isUUID r],
      must ''term'' [vl_isInt r, vl_min r 1, vl_max r 12]]"

definition LoanQuoteRequestDto :: "rules \<Rightarrow> json \<Rightarrow> LoanQuoteRequest result" where
  "LoanQuoteRequestDto r body =
     map_sum id (\<lambda>kvs. \<lparr>lq_amount = the_number kvs ''amount'', lq_vendor = the_text kvs ''vendor'',
       lq_term = or_else (nat_of kvs ''term'') 0\<rparr>) (validated (LoanQuoteRequest_fields r) body)"

text \<open>The subclass inherits the checks.\<close>

definition CreateLoanRequestDto :: "rules \<Rightarrow> json \<Rightarrow> LoanQuoteRequest result" where
  "CreateLoanRequestDto r body = LoanQuoteRequestDto r body"

definition amount_body :: "string \<Rightarrow> check list \<Rightarrow> json \<Rightarrow> num result" where
  "amount_body k cs body = map_sum id (\<lambda>kvs. the_number kvs k) (validated [must k cs] body)"

definition LoanPaymentRequestDto :: "rules \<Rightarrow> json \<Rightarrow> num result" where
  "LoanPaymentRequestDto r = amount_body ''amount'' [vl_isNumber r, vl_min r (fl (1 / 100))]"

definition LiquidityDepositRequestDto :: "rules \<Rightarrow> json \<Rightarrow> num result" where
  "LiquidityDepositRequestDto r = amount_body ''amount'' [vl_isNumber r, vl_min r 10, vl_max r 1000000]"

definition LiquidityWithdrawRequestDto :: "rules \<Rightarrow> json \<Rightarrow> num result" where
  "LiquidityWithdrawRequestDto r = amount_body ''shares'' [vl_isNumber r, vl_min r (fl (1 / 10000000))]"

definition SponsorDepositDto :: "rules \<Rightarrow> json \<Rightarrow> num result" where
  "SponsorDepositDto r = amount_body ''amount'' [vl_isNumber r, vl_isPositive r, vl_min r 1]"

section \<open>Queries\<close>

text \<open>
  \<open>parseInt(value, 10)\<close> of a query value; the text stands for \<open>NaN\<close>, which is no integer. A repeated
  parameter is an array, of whose text \<open>parseInt\<close> reads the first element. A missing value is not
  transformed.
\<close>

definition is_digit :: "char \<Rightarrow> bool" where
  "is_digit c = (let n = of_char c :: nat in 48 \<le> n \<and> n \<le> 57)"

definition digits_value :: "string \<Rightarrow> int" where
  "digits_value s = foldl (\<lambda>v c. v * 10 + (int (of_char c) - 48)) 0 s"

definition first_text :: "json \<Rightarrow> json" where
  "first_text v = (case v of JArr (x # _) \<Rightarrow> x | _ \<Rightarrow> v)"

definition parse_int :: "json \<Rightarrow> json" where
  "parse_int v =
     (case first_text v of
        JStr s \<Rightarrow>
          (let t = dropWhile is_space s;
               neg = starts_with t ''-'';
               ds = takeWhile is_digit (if neg \<or> starts_with t ''+'' then tl t else t)
           in if ds = [] then JStr ''NaN''
              else JNum (fl (of_int (if neg then - digits_value ds else digits_value ds))))
      | _ \<Rightarrow> JStr ''NaN'')"

definition transform :: "string \<Rightarrow> (json \<Rightarrow> json) \<Rightarrow> json \<Rightarrow> json" where
  "transform k f body =
     (case body of JObj kvs \<Rightarrow> JObj (map (\<lambda>(x, v). (x, if x = k then f v else v)) kvs) | _ \<Rightarrow> body)"

definition page_fields :: "rules \<Rightarrow> field list" where
  "page_fields r =
     [may ''limit'' [vl_isInt r, vl_min r 1, vl_max r 100], may ''offset'' [vl_isInt r, vl_min r 0]]"

definition page_query :: "json \<Rightarrow> json" where
  "page_query q = transform ''offset'' parse_int (transform ''limit'' parse_int q)"

text \<open>The defaults are 20 and 0.\<close>

definition limit_of :: "(string \<times> json) list \<Rightarrow> nat" where "limit_of kvs = or_else (nat_of kvs ''limit'') 20"
definition offset_of :: "(string \<times> json) list \<Rightarrow> nat" where "offset_of kvs = or_else (nat_of kvs ''offset'') 0"

definition LoanListStatusFilter :: "(string \<times> LoanStatus) list" where
  "LoanListStatusFilter = [(''active'', LoanActive), (''completed'', LoanCompleted), (''defaulted'', LoanDefaulted),
     (''under_review'', LoanUnderReview), (''rejected'', LoanRejected)]"

definition LoanListQueryDto :: "rules \<Rightarrow> json \<Rightarrow> LoanListQuery result" where
  "LoanListQueryDto r q =
     map_sum id (\<lambda>kvs. \<lparr>lq_status = Option.bind (text_of kvs ''status'') (map_of LoanListStatusFilter),
         lq_limit = Some (limit_of kvs), lq_offset = Some (offset_of kvs)\<rparr>)
       (validated (may ''status'' [is_in (map fst LoanListStatusFilter)] # page_fields r) (page_query q))"

definition read_flag :: "json \<Rightarrow> json" where
  "read_flag v = (if v = JStr ''true'' then JBool True else if v = JStr ''false'' then JBool False else v)"

definition NotificationListQueryDto :: "rules \<Rightarrow> json \<Rightarrow> NotificationListQuery result" where
  "NotificationListQueryDto r q =
     map_sum id (\<lambda>kvs. \<lparr>nq_unread = flag_of kvs ''unread'', nq_limit = Some (limit_of kvs), nq_offset = Some (offset_of kvs)\<rparr>)
       (validated (may ''unread'' [vl_isBoolean r] # page_fields r) (page_query (transform ''unread'' read_flag q)))"

definition AuditLogQuery_texts :: "rules \<Rightarrow> field list" where
  "AuditLogQuery_texts r =
     map (\<lambda>k. may k [vl_isString r]) [''actorWallet'', ''action'', ''resource'', ''resourceId'', ''search'']"

definition AuditLogQueryDto :: "rules \<Rightarrow> json \<Rightarrow> AuditLogQuery result" where
  "AuditLogQueryDto r q =
     map_sum id (\<lambda>kvs. \<lparr>aq_actor = text_of kvs ''actorWallet'', aq_action = text_of kvs ''action'',
         aq_resource = text_of kvs ''resource'', aq_resource_id = text_of kvs ''resourceId'', aq_search = text_of kvs ''search'',
         aq_limit = Some (limit_of kvs), aq_offset = Some (offset_of kvs)\<rparr>)
       (validated (AuditLogQuery_texts r @ page_fields r) (page_query q))"

section \<open>Vendors\<close>

definition VendorType :: "string list" where
  "VendorType = [''school'', ''bootcamp'', ''electronics'', ''books'', ''subscriptions'']"

definition lower_text :: "json \<Rightarrow> json" where
  "lower_text v = (case v of JStr s \<Rightarrow> JStr (to_lower s) | _ \<Rightarrow> v)"

definition RegisterVendorDto :: "rules \<Rightarrow> json \<Rightarrow> RegisterVendor result" where
  "RegisterVendorDto r body =
     map_sum id (\<lambda>kvs. \<lparr>rv_name = the_text kvs ''name'', rv_category = the_text kvs ''category'',
         rv_country = the_text kvs ''country'', rv_city = text_of kvs ''city'', rv_website = text_of kvs ''website'',
         rv_description = text_of kvs ''description''\<rparr>)
       (validated
          [must ''name'' [vl_isString r, vl_length r 1 200], must ''category'' [is_in VendorType],
           must ''country'' [vl_isString r, vl_length r 1 100], may ''city'' [vl_isString r, vl_maxLength r 100],
           may ''website'' [vl_isUrl r], may ''description'' [vl_isString r, vl_maxLength r 500]]
          (transform ''category'' lower_text body))"

definition CreateVendorProductDto :: "rules \<Rightarrow> json \<Rightarrow> CreateVendorProduct result" where
  "CreateVendorProductDto r body =
     map_sum id (\<lambda>kvs. \<lparr>cp_name = the_text kvs ''name'', cp_price = the_number kvs ''price'',
         cp_category = text_of kvs ''category'', cp_description = text_of kvs ''description''\<rparr>)
       (validated
          [must ''name'' [vl_isString r, vl_length r 1 200], must ''price'' [vl_isNumber r, vl_min r 0],
           may ''category'' [vl_isString r, vl_maxLength r 100], may ''description'' [vl_isString r, vl_maxLength r 1000]] body)"

definition UpdateVendorProductDto :: "rules \<Rightarrow> json \<Rightarrow> UpdateVendorProduct result" where
  "UpdateVendorProductDto r body =
     map_sum id (\<lambda>kvs. \<lparr>up_name = nullable kvs ''name'' (text_of kvs ''name''), up_price = nullable kvs ''price'' (number_of kvs ''price''),
         up_category = nullable kvs ''category'' (text_of kvs ''category''),
         up_description = nullable kvs ''description'' (text_of kvs ''description'')\<rparr>)
       (validated
          [may ''name'' [vl_isString r, vl_length r 1 200], may ''price'' [vl_isNumber r, vl_min r 0],
           may ''category'' [vl_isString r, vl_maxLength r 100], may ''description'' [vl_isString r, vl_maxLength r 1000]] body)"

text \<open>\<open>date\<close> is \<open>Date.parse\<close>.\<close>

definition CreateApiKeyDto :: "rules \<Rightarrow> (string \<Rightarrow> int option) \<Rightarrow> json \<Rightarrow> CreateApiKey result" where
  "CreateApiKeyDto r date body =
     map_sum id (\<lambda>kvs. \<lparr>ck_name = the_text kvs ''name'', ck_permissions = texts_of kvs ''permissions'',
         ck_expiresAt = Option.bind (text_of kvs ''expiresAt'') date\<rparr>)
       (validated
          [must ''name'' [vl_isString r], must ''permissions'' [is_array, each (vl_isString r)],
           may ''expiresAt'' [vl_isDateString r]] body)"

section \<open>Accounts\<close>

definition USER_ROLES :: "string list" where "USER_ROLES = [''sponsor'', ''vendor'', ''mentor'']"

definition SetRoleDto :: "json \<Rightarrow> string result" where
  "SetRoleDto body = map_sum id (\<lambda>kvs. the_text kvs ''role'') (validated [must ''role'' [is_in USER_ROLES]] body)"

definition AdminResetRoleDto :: "json \<Rightarrow> string option result" where
  "AdminResetRoleDto body = map_sum id (\<lambda>kvs. text_of kvs ''role'') (validated [may ''role'' [is_in USER_ROLES]] body)"

text \<open>\<open>/^[a-z]{2}$/\<close> and \<open>/^https:\/\//\<close>.\<close>

definition is_language :: "string \<Rightarrow> bool" where
  "is_language s \<longleftrightarrow> length s = 2 \<and> list_all (\<lambda>c. 97 \<le> (of_char c :: nat) \<and> (of_char c :: nat) \<le> 122) s"

definition UpdatePreferences_fields :: "rules \<Rightarrow> field list" where
  "UpdatePreferences_fields r =
     [may ''notifications'' [vl_isBoolean r], may ''theme'' [is_in [''light'', ''dark'', ''system'']],
      may ''language'' [vl_isString r, matches is_language]]"

text \<open>\<open>@ValidateNested\<close> goes into the elements of an array and passes over a \<open>null\<close>.\<close>

fun nested_ok :: "field list \<Rightarrow> json \<Rightarrow> bool" where
  "nested_ok fs (JArr vs) = list_all (nested_ok fs) vs"
| "nested_ok fs JNull = True"
| "nested_ok fs v = (\<not> isl (validated fs v))"

text \<open>An array has none of the fields.\<close>

definition UpdatePreferencesDto :: "json \<Rightarrow> UpdatePreferences option" where
  "UpdatePreferencesDto v =
     (let prefs = (\<lambda>kvs. \<lparr>up_notifications = nullable kvs ''notifications'' (flag_of kvs ''notifications''),
            up_theme = nullable kvs ''theme'' (text_of kvs ''theme''), up_language = nullable kvs ''language'' (text_of kvs ''language'')\<rparr>)
      in case v of JObj kvs \<Rightarrow> Some (prefs kvs) | JArr _ \<Rightarrow> Some (prefs []) | _ \<Rightarrow> None)"

definition UpdateUserDto :: "rules \<Rightarrow> json \<Rightarrow> UpdateUser result" where
  "UpdateUserDto r body =
     map_sum id (\<lambda>kvs. \<lparr>uu_name = nullable kvs ''name'' (text_of kvs ''name''),
         uu_avatar = nullable kvs ''avatar'' (text_of kvs ''avatar''),
         uu_preferences = map_option UpdatePreferencesDto (map_of kvs ''preferences'')\<rparr>)
       (validated
          [may ''name'' [vl_isString r, vl_maxLength r 100],
           may ''avatar'' [vl_isString r, matches (\<lambda>s. starts_with s ''https://'')],
           may ''preferences'' [nested_ok (UpdatePreferences_fields r)]] body)"

definition CreateSponsorDto :: "rules \<Rightarrow> json \<Rightarrow> CreateSponsor result" where
  "CreateSponsorDto r body =
     map_sum id (\<lambda>kvs. \<lparr>cs_org = the_text kvs ''orgName'', cs_type = the_text kvs ''sponsorType'',
         cs_website = text_of kvs ''website'', cs_description = text_of kvs ''description''\<rparr>)
       (validated
          [must ''orgName'' [vl_isString r], must ''sponsorType'' [is_in [''company'', ''individual'', ''dao'']],
           may ''website'' [vl_isUrl r], may ''description'' [vl_isString r]] body)"

definition RequestVouchDto :: "rules \<Rightarrow> json \<Rightarrow> (string \<times> string option) result" where
  "RequestVouchDto r body =
     map_sum id (\<lambda>kvs. (the_text kvs ''mentorWallet'', text_of kvs ''message''))
       (validated
          [must ''mentorWallet'' [vl_isString r, vl_length r 56 56, matches is_stellar_wallet], may ''message'' [vl_isString r]] body)"

definition ApproveVouchDto :: "rules \<Rightarrow> json \<Rightarrow> string result" where
  "ApproveVouchDto r body =
     map_sum id (\<lambda>kvs. the_text kvs ''learnerWallet'')
       (validated [must ''learnerWallet'' [vl_isString r, vl_length r 56 56, matches is_stellar_wallet]] body)"

section \<open>Learners\<close>

definition CurrentRole_names :: "(string \<times> CurrentRole) list" where
  "CurrentRole_names = [(''Student'', Student), (''Intern'', Intern), (''EarlyCareerDev'', EarlyCareerDev),
     (''Freelancer'', Freelancer), (''Employed'', Employed)]"

definition Skill_names :: "(string \<times> Skill) list" where
  "Skill_names = [(''JavaScript'', JavaScript), (''TypeScript'', TypeScript), (''Rust'', Rust), (''Python'', Python),
     (''Go'', Go), (''React'', React), (''React Native'', ReactNative), (''NestJS'', NestJS), (''Solidity'', Solidity),
     (''Soroban'', Soroban), (''Design'', DesignSkill), (''DevOps'', DevOps), (''Testing'', Testing),
     (''Technical Writing'', TechnicalWriting), (''Other'', OtherSkill)]"

definition FinanceGoal_names :: "(string \<times> FinanceGoal) list" where
  "FinanceGoal_names = [(''Laptop'', Laptop), (''Course'', Course), (''Bootcamp'', Bootcamp), (''Dev Tools'', DevTools),
     (''Subscriptions'', Subscriptions), (''Books'', Books), (''Other'', OtherGoal)]"

definition MonthlyIncomeRange_names :: "(string \<times> MonthlyIncomeRange) list" where
  "MonthlyIncomeRange_names = [(''No Income'', NoIncome), (''Under $500'', Under500), (''$500-$1000'', Range500To1000),
     (''$1000-$5000'', Range1000To5000), (''Above $5000'', Above5000)]"

definition name_of :: "(string \<times> json) list \<Rightarrow> string \<Rightarrow> (string \<times> 'a) list \<Rightarrow> 'a option option" where
  "name_of kvs k names = nullable kvs k (Option.bind (text_of kvs k) (map_of names))"

text \<open>All fields of the update are optional. The record of the service keeps whole years, the type of the column.\<close>

definition UpdateLearnerProfile_fields :: "rules \<Rightarrow> field list" where
  "UpdateLearnerProfile_fields r =
     [may ''full_name'' [vl_isString r, vl_minLength r 2, vl_maxLength r 100], may ''bio'' [vl_isString r, vl_maxLength r 500],
      may ''country'' [vl_isString r], may ''city'' [vl_isString r], may ''current_role'' [is_in (map fst CurrentRole_names)],
      may ''institution'' [vl_isString r, vl_maxLength r 100], may ''program'' [vl_isString r, vl_maxLength r 100],
      may ''graduation_year'' [vl_isNumber r, vl_min r 2020, vl_max r 2035],
      may ''skills'' [is_array, each (is_in (map fst Skill_names)), vl_arrayMax r 15],
      may ''finance_goals'' [is_array, each (is_in (map fst FinanceGoal_names)), vl_arrayMin r 1],
      may ''monthly_income_range'' [is_in (map fst MonthlyIncomeRange_names)],
      may ''github_url'' [vl_isUrl r], may ''linkedin_url'' [vl_isUrl r]]"

definition UpdateLearnerProfileDto :: "rules \<Rightarrow> json \<Rightarrow> UpdateLearnerProfile result" where
  "UpdateLearnerProfileDto r body =
     map_sum id (\<lambda>kvs.
         let text = (\<lambda>k. nullable kvs k (text_of kvs k))
         in \<lparr>ud_fullName = text ''full_name'', ud_bio = text ''bio'', ud_country = text ''country'', ud_city = text ''city'',
             ud_currentRole = name_of kvs ''current_role'' CurrentRole_names, ud_institution = text ''institution'',
             ud_program = text ''program'',
             ud_graduationYear = nullable kvs ''graduation_year'' (map_option floor (number_of kvs ''graduation_year'')),
             ud_skills = nullable kvs ''skills'' (Some (List.map_filter (map_of Skill_names) (texts_of kvs ''skills''))),
             ud_financeGoals = nullable kvs ''finance_goals''
               (Some (List.map_filter (map_of FinanceGoal_names) (texts_of kvs ''finance_goals''))),
             ud_incomeRange = name_of kvs ''monthly_income_range'' MonthlyIncomeRange_names,
             ud_githubUrl = text ''github_url'', ud_linkedinUrl = text ''linkedin_url''\<rparr>)
       (validated (UpdateLearnerProfile_fields r) body)"

section \<open>Transactions and authentication\<close>

definition TransactionType :: "(string \<times> tx_kind) list" where
  "TransactionType = map (\<lambda>k. (kind_name k, k)) [LoanCreate, LoanRepay, Deposit, Withdraw, VendorApprove, VendorSuspend]"

definition SubmitTransactionRequestDto :: "rules \<Rightarrow> json \<Rightarrow> (string \<times> tx_kind) result" where
  "SubmitTransactionRequestDto r body =
     map_sum id (\<lambda>kvs. (the_text kvs ''xdr'', the (map_of TransactionType (the_text kvs ''type''))))
       (validated [must ''xdr'' [vl_isString r, vl_isNotEmpty r], must ''type'' [is_in (map fst TransactionType)]] body)"

definition NonceRequestDto :: "rules \<Rightarrow> json \<Rightarrow> string result" where
  "NonceRequestDto r body =
     map_sum id (\<lambda>kvs. the_text kvs ''wallet'')
       (validated [must ''wallet'' [vl_isString r, vl_isNotEmpty r, matches is_stellar_wallet]] body)"

text \<open>\<open>/^G[A-Z0-9]{55}$/\<close> and \<open>/^[a-zA-Z0-9_]+$/\<close>.\<close>

definition is_registration_wallet :: "string \<Rightarrow> bool" where
  "is_registration_wallet w \<longleftrightarrow> length w = 56 \<and> hd w = CHR ''G'' \<and>
     list_all (\<lambda>c. let n = of_char c :: nat in (65 \<le> n \<and> n \<le> 90) \<or> (48 \<le> n \<and> n \<le> 57)) (tl w)"

definition is_username :: "string \<Rightarrow> bool" where
  "is_username s \<longleftrightarrow> s \<noteq> [] \<and> list_all (\<lambda>c. let n = of_char c :: nat in
     (97 \<le> n \<and> n \<le> 122) \<or> (65 \<le> n \<and> n \<le> 90) \<or> (48 \<le> n \<and> n \<le> 57) \<or> n = 95) s"

text \<open>The file of the form is read apart (\<open>Avatars\<close>).\<close>

definition RegisterRequestDto :: "rules \<Rightarrow> json \<Rightarrow> RegisterRequest result" where
  "RegisterRequestDto r body =
     map_sum id (\<lambda>kvs. \<lparr>rg_wallet = the_text kvs ''walletAddress'', rg_username = the_text kvs ''username'',
         rg_displayName = the_text kvs ''displayName''\<rparr>)
       (validated
          [must ''walletAddress'' [vl_isString r, vl_isNotEmpty r, matches is_registration_wallet],
           must ''username'' [vl_isString r, vl_isNotEmpty r, vl_minLength r 3, matches is_username],
           must ''displayName'' [vl_isString r, vl_isNotEmpty r, vl_minLength r 2],
           must ''termsAccepted'' [vl_isNotEmpty r, \<lambda>v. v = JStr ''true''], may ''profileImage'' []] body)"

text \<open>\<open>/^[a-f0-9]{64}$/\<close>.\<close>

definition is_nonce :: "string \<Rightarrow> bool" where
  "is_nonce s \<longleftrightarrow> length s = 64 \<and>
     list_all (\<lambda>c. let n = of_char c :: nat in (97 \<le> n \<and> n \<le> 102) \<or> (48 \<le> n \<and> n \<le> 57)) s"

definition SignatureType_names :: "(string \<times> SignatureType) list" where
  "SignatureType_names = [(''raw'', RawSig), (''sep0043'', Sep0043), (''envelope'', EnvelopeSig), (''sep0010'', Sep0010)]"

text \<open>A missing type is \<open>raw\<close>.\<close>

definition signature_type :: "(string \<times> json) list \<Rightarrow> json" where
  "signature_type kvs = (case map_of kvs ''signatureType'' of None \<Rightarrow> JStr ''raw'' | Some v \<Rightarrow> v)"

definition VerifyRequestDto :: "rules \<Rightarrow> json \<Rightarrow> VerifyRequest result" where
  "VerifyRequestDto r body =
     map_sum id (\<lambda>kvs. \<lparr>vr_wallet = the_text kvs ''wallet'', vr_nonce = the_text kvs ''nonce'',
         vr_signature = text_of kvs ''signature'',
         vr_type = (case signature_type kvs of JStr s \<Rightarrow> map_of SignatureType_names s | _ \<Rightarrow> None),
         vr_message = text_of kvs ''message'', vr_signedXdr = text_of kvs ''signedXdr''\<rparr>)
       (validated
          [must ''wallet'' [vl_isString r, vl_isNotEmpty r, matches is_stellar_wallet],
           must ''nonce'' [vl_isString r, vl_isNotEmpty r, vl_length r 64 64, matches is_nonce],
           (must ''signature'' [vl_isString r, vl_isNotEmpty r])\<lparr>fd_when := (\<lambda>kvs. signature_type kvs \<noteq> JStr ''sep0010'')\<rparr>,
           may ''signatureType'' [vl_isString r, is_in (map fst SignatureType_names)],
           (must ''signedXdr'' [vl_isString r, vl_isNotEmpty r, vl_maxLength r 8192])
             \<lparr>fd_when := (\<lambda>kvs. signature_type kvs = JStr ''sep0010'')\<rparr>,
           may ''message'' [vl_isString r, vl_isNotEmpty r, vl_maxLength r 2048]] body)"

section \<open>What validation guarantees\<close>

lemma validated_Inr:
  assumes "validated fs body = Inr kvs" and "f \<in> set fs"
  shows "field_ok kvs f"
  using assms by (auto simp: validated_def list_all_iff split: json.splits if_splits)

lemma must_value:
  assumes "validated fs body = Inr kvs" and "must k (c # cs) \<in> set fs"
  shows "\<exists>v. map_of kvs k = Some v \<and> c v \<and> list_all (\<lambda>c. c v) cs"
  using validated_Inr [OF assms] by (auto simp: field_ok_def must_def split: option.splits)

lemma may_value:
  assumes "validated fs body = Inr kvs" and "may k cs \<in> set fs" and "map_of kvs k = Some v" and "v \<noteq> JNull"
  shows "list_all (\<lambda>c. c v) cs"
  using validated_Inr [OF assms(1,2)] assms(3,4) by (auto simp: field_ok_def may_def must_def)

named_theorems reading \<open>the values of checked fields\<close>

declare text_of_def [reading] number_of_def [reading] nat_of_def [reading] the_text_def [reading] the_number_def [reading]
  or_else_def [reading] is_in_def [reading] matches_def [reading]

lemma is_in_text: "is_in vs v \<longleftrightarrow> (\<exists>s. v = JStr s \<and> s \<in> set vs)"
  by (cases v) (simp_all add: is_in_def)

lemma map_sum_Inr: "map_sum id f x = Inr y \<longleftrightarrow> (\<exists>z. x = Inr z \<and> y = f z)"
  by (cases x) auto

lemma loan_body:
  assumes "documented r" and "LoanQuoteRequestDto r body = Inr dto"
  shows "1 \<le> lq_amount dto \<and> lq_amount dto \<le> 10000 \<and> 1 \<le> lq_term dto \<and> lq_term dto \<le> 12"
proof -
  from assms(2) obtain kvs where v: "validated (LoanQuoteRequest_fields r) body = Inr kvs"
    and dto: "lq_amount dto = the_number kvs ''amount''" "lq_term dto = or_else (nat_of kvs ''term'') 0"
    by (auto simp: LoanQuoteRequestDto_def map_sum_Inr)
  from must_value [OF v, of "''amount''" "vl_isNumber r" "[vl_min r 1, vl_max r 10000]"] assms(1) obtain x where
    "map_of kvs ''amount'' = Some (JNum x)" "1 \<le> x" "x \<le> 10000"
    by (auto simp: documented_def LoanQuoteRequest_fields_def)
  moreover from must_value [OF v, of "''term''" "vl_isInt r" "[vl_min r 1, vl_max r 12]"] assms(1) obtain i :: int where
    "map_of kvs ''term'' = Some (JNum (of_int i))" "1 \<le> i" "i \<le> 12"
    by (auto simp: documented_def LoanQuoteRequest_fields_def)
  ultimately show ?thesis by (auto simp: dto reading)
qed

lemma amount_bound:
  assumes "documented r" and "amount_body k (vl_isNumber r # cs) body = Inr x" and "vl_min r n \<in> set cs"
  shows "n \<le> x"
proof -
  from assms(2) obtain kvs where v: "validated [must k (vl_isNumber r # cs)] body = Inr kvs" and x: "x = the_number kvs k"
    by (auto simp: amount_body_def map_sum_Inr)
  from must_value [OF v, of k "vl_isNumber r" cs] assms(1,3) obtain y where "map_of kvs k = Some (JNum y)" "n \<le> y"
    unfolding documented_def by (auto simp: list_all_iff)
  then show ?thesis by (simp add: x reading)
qed

lemma page_bounds:
  assumes "documented r" and "validated (fs @ page_fields r) body = Inr kvs"
  shows "1 \<le> limit_of kvs \<and> limit_of kvs \<le> 100"
proof (cases "\<exists>x. map_of kvs ''limit'' = Some (JNum x)")
  case True
  then obtain x where x: "map_of kvs ''limit'' = Some (JNum x)" by blast
  from may_value [OF assms(2) _ x, of "[vl_isInt r, vl_min r 1, vl_max r 100]"] assms(1) obtain i :: int where
    "x = of_int i" "1 \<le> i" "i \<le> 100" by (auto simp: page_fields_def documented_def)
  with x show ?thesis by (auto simp: limit_of_def reading)
qed (auto simp: limit_of_def reading split: option.split json.split)

lemma text_checked:
  assumes "validated fs body = Inr kvs" and "must k (c # cs) \<in> set fs" and "is_in vs \<in> set (c # cs)"
  shows "the_text kvs k \<in> set vs"
proof -
  from must_value [OF assms(1,2)] assms(3) obtain v where "map_of kvs k = Some v" "is_in vs v" by (auto simp: list_all_iff)
  then show ?thesis by (auto simp: reading split: json.splits)
qed

lemma text_matched:
  assumes "validated fs body = Inr kvs" and "must k (c # cs) \<in> set fs" and "matches p \<in> set cs"
  shows "p (the_text kvs k)"
proof -
  from must_value [OF assms(1,2)] assms(3) obtain v where "map_of kvs k = Some v" "matches p v" by (auto simp: list_all_iff)
  then show ?thesis by (auto simp: reading split: json.splits)
qed

text \<open>C37: What reaches the services is what they rely on. A body that passes validation has a purchase of 1 to
  10000 over one to twelve months; payments of at least a cent, deposits of at least ten (one for
  sponsors), withdrawals of a positive number of shares; pages of one to a hundred rows; a role
  that can be chosen, never that of an administrator; a transaction type the allowlist knows; and wallets
  in the format of Stellar.\<close>

theorem validated_inputs:
  assumes "documented r"
  shows "(LoanQuoteRequestDto r body = Inr q \<longrightarrow> 1 \<le> lq_amount q \<and> lq_amount q \<le> 10000 \<and> 1 \<le> lq_term q \<and> lq_term q \<le> 12) \<and>
    (LoanPaymentRequestDto r body = Inr x1 \<longrightarrow> fl (1 / 100) \<le> x1) \<and>
    (LiquidityDepositRequestDto r body = Inr x2 \<longrightarrow> 10 \<le> x2) \<and> (SponsorDepositDto r body = Inr x3 \<longrightarrow> 1 \<le> x3) \<and>
    (LiquidityWithdrawRequestDto r body = Inr x4 \<longrightarrow> 0 < x4) \<and>
    (LoanListQueryDto r body = Inr lq \<longrightarrow> (\<exists>n. lq_limit lq = Some n \<and> 1 \<le> n \<and> n \<le> 100)) \<and>
    (NotificationListQueryDto r body = Inr nq \<longrightarrow> (\<exists>n. nq_limit nq = Some n \<and> 1 \<le> n \<and> n \<le> 100)) \<and>
    (AuditLogQueryDto r body = Inr aq \<longrightarrow> (\<exists>n. aq_limit aq = Some n \<and> 1 \<le> n \<and> n \<le> 100)) \<and>
    (SetRoleDto body = Inr role \<longrightarrow> role \<in> {''sponsor'', ''vendor'', ''mentor''}) \<and>
    (SubmitTransactionRequestDto r body = Inr (xdr, kind) \<longrightarrow>
       (\<exists>kvs. body = JObj kvs \<and> map_of kvs ''xdr'' = Some (JStr xdr) \<and> xdr \<noteq> [] \<and> map_of kvs ''type'' = Some (JStr (kind_name kind)))) \<and>
    (NonceRequestDto r body = Inr w1 \<longrightarrow> is_stellar_wallet w1) \<and>
    (VerifyRequestDto r body = Inr dto \<longrightarrow> is_stellar_wallet (vr_wallet dto) \<and> is_nonce (vr_nonce dto)) \<and>
    (RequestVouchDto r body = Inr (w2, m) \<longrightarrow> is_stellar_wallet w2)"
proof (intro conjI impI)
  note amount = amount_bound [OF assms]
  show "LoanQuoteRequestDto r body = Inr q \<Longrightarrow> 1 \<le> lq_amount q" "LoanQuoteRequestDto r body = Inr q \<Longrightarrow> lq_amount q \<le> 10000"
    "LoanQuoteRequestDto r body = Inr q \<Longrightarrow> 1 \<le> lq_term q" "LoanQuoteRequestDto r body = Inr q \<Longrightarrow> lq_term q \<le> 12"
    using loan_body [OF assms] by blast+
  show "LoanPaymentRequestDto r body = Inr x1 \<Longrightarrow> fl (1 / 100) \<le> x1"
    unfolding LoanPaymentRequestDto_def by (erule amount) (rule list.set_intros(1))
  show "LiquidityDepositRequestDto r body = Inr x2 \<Longrightarrow> 10 \<le> x2"
    unfolding LiquidityDepositRequestDto_def by (erule amount) (rule list.set_intros(1))
  show "SponsorDepositDto r body = Inr x3 \<Longrightarrow> 1 \<le> x3"
    unfolding SponsorDepositDto_def by (erule amount) (intro list.set_intros)
  have "0 < (fl (1 / 10000000) :: num)" using fl_mono [of "1 / 2 ^ 24" "1 / 10000000"] fl_pow2 [of "- 24"]
    by (simp add: pow2_def power_int_def)
  moreover have "LiquidityWithdrawRequestDto r body = Inr x4 \<Longrightarrow> fl (1 / 10000000) \<le> x4"
    unfolding LiquidityWithdrawRequestDto_def by (erule amount) (rule list.set_intros(1))
  ultimately show "LiquidityWithdrawRequestDto r body = Inr x4 \<Longrightarrow> 0 < x4" by linarith
  show "LoanListQueryDto r body = Inr lq \<Longrightarrow> \<exists>n. lq_limit lq = Some n \<and> 1 \<le> n \<and> n \<le> 100"
    using page_bounds [OF assms, of "[may ''status'' [is_in (map fst LoanListStatusFilter)]]"]
    by (auto simp: LoanListQueryDto_def map_sum_Inr)
  show "NotificationListQueryDto r body = Inr nq \<Longrightarrow> \<exists>n. nq_limit nq = Some n \<and> 1 \<le> n \<and> n \<le> 100"
    using page_bounds [OF assms, of "[may ''unread'' [vl_isBoolean r]]"] by (auto simp: NotificationListQueryDto_def map_sum_Inr)
  show "AuditLogQueryDto r body = Inr aq \<Longrightarrow> \<exists>n. aq_limit aq = Some n \<and> 1 \<le> n \<and> n \<le> 100"
    using page_bounds [OF assms, of "AuditLogQuery_texts r"] by (auto simp: AuditLogQueryDto_def map_sum_Inr)
  show "role \<in> {''sponsor'', ''vendor'', ''mentor''}" if "SetRoleDto body = Inr role"
  proof -
    from that obtain kvs where v: "validated [must ''role'' [is_in USER_ROLES]] body = Inr kvs" "role = the_text kvs ''role''"
      by (auto simp: SetRoleDto_def map_sum_Inr)
    from text_checked [OF v(1), of "''role''" "is_in USER_ROLES" "[]" USER_ROLES] v(2) show ?thesis by (simp add: USER_ROLES_def)
  qed
  show "\<exists>kvs. body = JObj kvs \<and> map_of kvs ''xdr'' = Some (JStr xdr) \<and> xdr \<noteq> [] \<and> map_of kvs ''type'' = Some (JStr (kind_name kind))"
    if "SubmitTransactionRequestDto r body = Inr (xdr, kind)"
  proof -
    from that obtain kvs where v: "validated [must ''xdr'' [vl_isString r, vl_isNotEmpty r], must ''type'' [is_in (map fst TransactionType)]]
        body = Inr kvs" and d: "xdr = the_text kvs ''xdr''" "kind = the (map_of TransactionType (the_text kvs ''type''))"
      by (auto simp: SubmitTransactionRequestDto_def map_sum_Inr)
    have b: "body = JObj kvs" using v by (auto simp: validated_def split: json.splits if_splits)
    from must_value [OF v, of "''xdr''" "vl_isString r" "[vl_isNotEmpty r]"] assms obtain s where
      "map_of kvs ''xdr'' = Some (JStr s)" "s \<noteq> []" by (auto simp: documented_def)
    moreover from must_value [OF v, of "''type''" "is_in (map fst TransactionType)" "[]"] obtain t where
      t: "map_of kvs ''type'' = Some (JStr t)" "t \<in> set (map fst TransactionType)"
      by (auto simp: is_in_text)
    moreover from t(2) have "t = kind_name (the (map_of TransactionType t))" by (auto simp: TransactionType_def)
    ultimately show ?thesis using b by (simp add: d reading)
  qed
  show "is_stellar_wallet w1" if "NonceRequestDto r body = Inr w1"
  proof -
    from that obtain kvs where "validated [must ''wallet'' [vl_isString r, vl_isNotEmpty r, matches is_stellar_wallet]] body = Inr kvs"
      "w1 = the_text kvs ''wallet''" by (auto simp: NonceRequestDto_def map_sum_Inr)
    from text_matched [OF this(1), of "''wallet''" "vl_isString r" "[vl_isNotEmpty r, matches is_stellar_wallet]"
      is_stellar_wallet] this(2) show ?thesis by simp
  qed
  show "is_stellar_wallet w2" if "RequestVouchDto r body = Inr (w2, m)"
  proof -
    from that obtain kvs where v: "validated [must ''mentorWallet'' [vl_isString r, vl_length r 56 56, matches is_stellar_wallet],
        may ''message'' [vl_isString r]] body = Inr kvs" "w2 = the_text kvs ''mentorWallet''"
      by (auto simp: RequestVouchDto_def map_sum_Inr)
    from text_matched [OF v(1), of "''mentorWallet''" "vl_isString r" "[vl_length r 56 56, matches is_stellar_wallet]"
      is_stellar_wallet] v(2) show ?thesis by simp
  qed
  assume "VerifyRequestDto r body = Inr dto"
  then obtain fs kvs where v: "validated (must ''wallet'' [vl_isString r, vl_isNotEmpty r, matches is_stellar_wallet] #
      must ''nonce'' [vl_isString r, vl_isNotEmpty r, vl_length r 64 64, matches is_nonce] # fs) body = Inr kvs"
    and d: "vr_wallet dto = the_text kvs ''wallet''" "vr_nonce dto = the_text kvs ''nonce''"
    by (auto simp: VerifyRequestDto_def map_sum_Inr)
  from text_matched [OF v, of "''wallet''" "vl_isString r" "[vl_isNotEmpty r, matches is_stellar_wallet]" is_stellar_wallet]
  show "is_stellar_wallet (vr_wallet dto)" by (simp add: d)
  from text_matched [OF v, of "''nonce''" "vl_isString r" "[vl_isNotEmpty r, vl_length r 64 64, matches is_nonce]" is_nonce]
  show "is_nonce (vr_nonce dto)" by (simp add: d)
qed

text \<open>An instance of the checks, and a body.\<close>

definition text_with :: "(string \<Rightarrow> bool) \<Rightarrow> check" where
  "text_with p v = (case v of JStr s \<Rightarrow> p s | _ \<Rightarrow> False)"

definition number_with :: "(num \<Rightarrow> bool) \<Rightarrow> check" where
  "number_with p v = (case v of JNum x \<Rightarrow> p x | _ \<Rightarrow> False)"

definition array_with :: "(nat \<Rightarrow> bool) \<Rightarrow> check" where
  "array_with p v = (case v of JArr vs \<Rightarrow> p (length vs) | _ \<Rightarrow> False)"

definition demo_rules :: rules where
  "demo_rules =
     \<lparr>vl_isString = text_with (\<lambda>_. True), vl_isNumber = number_with (\<lambda>_. True), vl_isInt = number_with (\<lambda>x. x = of_int \<lfloor>x\<rfloor>),
      vl_isBoolean = (\<lambda>v. v \<in> {JBool True, JBool False}), vl_isNotEmpty = (\<lambda>v. v \<noteq> JNull \<and> v \<noteq> JStr []),
      vl_isPositive = number_with ((<) 0), vl_isUUID = text_with (\<lambda>s. length s = 36), vl_isUrl = text_with (\<lambda>s. s \<noteq> []),
      vl_isDateString = text_with (\<lambda>s. s \<noteq> []), vl_min = (\<lambda>n. number_with ((\<le>) n)), vl_max = (\<lambda>n. number_with (\<lambda>x. x \<le> n)),
      vl_length = (\<lambda>a b. text_with (\<lambda>s. a \<le> length s \<and> length s \<le> b)), vl_minLength = (\<lambda>a. text_with (\<lambda>s. a \<le> length s)),
      vl_maxLength = (\<lambda>b. text_with (\<lambda>s. length s \<le> b)), vl_arrayMin = (\<lambda>n. array_with ((\<le>) n)), vl_arrayMax = (\<lambda>n. array_with (\<lambda>l. l \<le> n))\<rparr>"

lemma demo_rules_documented: "documented demo_rules"
proof -
  have "text_with (\<lambda>_. True) v \<longleftrightarrow> (\<exists>s. v = JStr s)" for v by (cases v) (auto simp: text_with_def)
  moreover have "number_with q v \<longleftrightarrow> (\<exists>x. v = JNum x \<and> q x)" for q v by (cases v) (auto simp: number_with_def)
  moreover have "array_with q v \<longleftrightarrow> (\<exists>vs. v = JArr vs \<and> q (length vs))" for q v by (cases v) (auto simp: array_with_def)
  moreover have "(\<exists>x. v = JNum x \<and> x = of_int \<lfloor>x\<rfloor>) \<longleftrightarrow> (\<exists>i. v = JNum (of_int i))" for v
    by (metis floor_of_int)
  moreover have "v \<in> {JBool True, JBool False} \<longleftrightarrow> (\<exists>b. v = JBool b)" for v by (cases v) auto
  ultimately show ?thesis unfolding documented_def demo_rules_def rules.simps by auto
qed

definition demo_vendor :: string where "demo_vendor = replicate 36 CHR ''a''"

definition demo_body :: json where
  "demo_body = JObj [(''amount'', JNum 500), (''vendor'', JStr demo_vendor), (''term'', JNum 4)]"

lemma demo_body_read: "LoanQuoteRequestDto demo_rules demo_body = Inr \<lparr>lq_amount = 500, lq_vendor = demo_vendor, lq_term = 4\<rparr>"
  by (simp add: LoanQuoteRequestDto_def LoanQuoteRequest_fields_def validated_def field_ok_def must_def demo_body_def demo_rules_def
      number_with_def text_with_def demo_vendor_def the_number_def the_text_def number_of_def nat_of_def text_of_def or_else_def)

theorem validated_inputs_witness:
  "LoanQuoteRequestDto demo_rules demo_body = Inr \<lparr>lq_amount = 500, lq_vendor = demo_vendor, lq_term = 4\<rparr> \<and>
   (1 :: num) \<le> 500 \<and> (500 :: num) \<le> 10000"
  using validated_inputs [OF demo_rules_documented, of demo_body "\<lparr>lq_amount = 500, lq_vendor = demo_vendor, lq_term = 4\<rparr>"] demo_body_read
  by simp

section \<open>Two formats of a wallet\<close>

text \<open>
  Registration accepts \<open>0\<close>, \<open>1\<close>, \<open>8\<close> and \<open>9\<close> in a wallet, the nonce route does not: such an
  account gets its tokens at registration and can never sign in again.
\<close>

theorem registration_takes_other_wallets:
  "is_registration_wallet (CHR ''G'' # replicate 55 CHR ''0'') \<and>
   NonceRequestDto r (JObj [(''wallet'', JStr (CHR ''G'' # replicate 55 CHR ''0''))]) = Inl (bad_request ''Bad Request'')"
proof
  show "is_registration_wallet (CHR ''G'' # replicate 55 CHR ''0'')" by (simp add: is_registration_wallet_def list_all_length)
  have "\<not> is_stellar_wallet (CHR ''G'' # replicate 55 CHR ''0'')" by (simp add: is_stellar_wallet_def)
  then show "NonceRequestDto r (JObj [(''wallet'', JStr (CHR ''G'' # replicate 55 CHR ''0''))]) = Inl (bad_request ''Bad Request'')"
    by (simp add: NonceRequestDto_def validated_def field_ok_def must_def matches_def)
qed

section \<open>Nulls\<close>

text \<open>
  \<open>@IsOptional\<close> lets \<open>null\<close> through, and the service dereferences it: the request fails with a
  \<open>TypeError\<close> instead of a validation error. For \<open>preferences\<close> it fails after the account row has
  been written.
\<close>

theorem null_profile_crashes:
  assumes "ue_faults env ''users.upsert'' = None"
  shows "UpdateUserDto r (JObj [(''name'', JNull)]) = Inr \<lparr>uu_name = Some None, uu_avatar = None, uu_preferences = None\<rparr> \<and>
    updateProfile env w \<lparr>uu_name = Some None, uu_avatar = None, uu_preferences = None\<rparr> db = (Inl type_error, db) \<and>
    UpdateUserDto r (JObj [(''preferences'', JNull)]) = Inr \<lparr>uu_name = None, uu_avatar = None, uu_preferences = Some None\<rparr> \<and>
    updateProfile env w \<lparr>uu_name = None, uu_avatar = None, uu_preferences = Some None\<rparr> \<lparr>ud_users = [], ud_prefs = ps\<rparr> =
      (Inl type_error, \<lparr>ud_users = [new_user env w], ud_prefs = ps\<rparr>)"
  using assms
  by (simp add: UpdateUserDto_def validated_def field_ok_def must_def may_def nullable_def UpdatePreferencesDto_def
      updateProfile_def update_def upsert_by_def or_else_def set_profile_def new_user_def of_wallet_def single_def Let_def)

end
