(* ===== verification/Platform.thy ===== *)
theory Platform imports Isolation Reminders Validation Reconciliation begin

text \<open>
  The jobs that work on the tables of the HTTP interface: the settlement of transactions, the daily
  reminders, the indexer and the reconciliation with the index. The loan book of \<open>Lending\<close> is the contract of the loan table: every request and every
  run of a job keeps it.
\<close>

section \<open>The jobs on the database\<close>

text \<open>
  The row the settlement job inserts for a notification: the key and the time come from the
  database.
\<close>

definition stored_note :: "checker_env \<Rightarrow> (nat \<Rightarrow> string) \<Rightarrow> nat \<times> Notification \<Rightarrow> NotificationRow" where
  "stored_note env pk x =
     (let (i, n) = x; field = (\<lambda>k v. case v of Some t \<Rightarrow> [(k, t)] | None \<Rightarrow> [])
      in \<lparr>nf_pk = pk i, nf_wallet = n_wallet n, nf_type = n_type n, nf_title = n_title n,
          nf_data = field ''transactionHash'' (n_hash n) @ field ''transactionType'' (n_tx_type n) @ field ''loanId'' (n_loan n),
          nf_read = False, nf_read_at = None, nf_created = ce_now env\<rparr>)"

definition run_checker :: "checker_env \<Rightarrow> (nat \<Rightarrow> string) \<Rightarrow> app \<Rightarrow> app" where
  "run_checker env pk a =
     (let c = checkTransactions env \<lparr>ck_tx = txs_rows (ap_txs a), ck_loans = ap_loans a, ck_notes = [], ck_running = False\<rparr>
      in a\<lparr>ap_txs := (ap_txs a)\<lparr>txs_rows := ck_tx c\<rparr>, ap_loans := ck_loans c,
           ap_notes := ap_notes a @ map (stored_note env pk) (enumerate 0 (ck_notes c))\<rparr>)"

definition run_reminders :: "reminder_env \<Rightarrow> app \<Rightarrow> app" where
  "run_reminders env a = a\<lparr>ap_notes := snd (sendPaymentReminders env False (ap_loans a) (ap_notes a))\<rparr>"

text \<open>
  The indexer stores payments and scores; its other tables, the ledger of the events and its cursors are
  those of \<open>ix\<close>.
\<close>

definition run_indexer :: "index_env \<Rightarrow> index_state \<Rightarrow> app \<Rightarrow> app" where
  "run_indexer env ix a =
     (let st = runIndexer env (ix\<lparr>ix_payments := ap_paid a, ix_cache := rep_rows (ap_rep a)\<rparr>)
      in a\<lparr>ap_paid := ix_payments st, ap_rep := (ap_rep a)\<lparr>rep_rows := ix_cache st\<rparr>\<rparr>)"

text \<open>
  The reconciliation with an index \<open>ix\<close> and the indexed investments \<open>ivs\<close>. The liquidity positions have
  their place in the table as key.
\<close>

definition recon_view :: "app \<Rightarrow> recon_state" where
  "recon_view a = \<lparr>rs_loans = ap_loans a, rs_txs = txs_rows (ap_txs a),
     rs_positions = map (\<lambda>(i, w, x). \<lparr>lp_pk = decimal i, lp_wallet = w, lp_amount = x\<rparr>) (enumerate 0 (ap_positions a)),
     rs_cache = rep_rows (ap_rep a), rs_running = False\<rparr>"

definition run_reconciliation :: "recon_env \<Rightarrow> index_state \<Rightarrow> InvestmentIndexRow list \<Rightarrow> app \<Rightarrow> app" where
  "run_reconciliation env ix ivs a =
     (let st = runScheduled env ix ivs (recon_view a)
      in a\<lparr>ap_loans := rs_loans st, ap_txs := (ap_txs a)\<lparr>txs_rows := rs_txs st\<rparr>,
           ap_positions := map (\<lambda>p. (lp_wallet p, lp_amount p)) (rs_positions st),
           ap_rep := (ap_rep a)\<lparr>rep_rows := rs_cache st\<rparr>\<rparr>)"

datatype job = CheckerRun checker_env "nat \<Rightarrow> string" | ReminderRun reminder_env | IndexerRun index_env index_state
  | ReconciliationRun recon_env index_state "InvestmentIndexRow list"

fun run_job :: "job \<Rightarrow> app \<Rightarrow> app" where
  "run_job (CheckerRun env pk) a = run_checker env pk a"
| "run_job (ReminderRun env) a = run_reminders env a"
| "run_job (IndexerRun env ix) a = run_indexer env ix a"
| "run_job (ReconciliationRun env ix ivs) a = run_reconciliation env ix ivs a"

text \<open>The body of a request for a loan is what validation read from some body.\<close>

definition validated_call :: "api_call \<Rightarrow> bool" where
  "validated_call c \<longleftrightarrow>
     (\<forall>le dto. c = LoansRoute (CreateLoan le dto) \<longrightarrow> (\<exists>r body. documented r \<and> CreateLoanRequestDto r body = Inr dto))"

text \<open>The amounts a job may book, and whether it may write a status of the index.\<close>

fun books :: "job \<Rightarrow> num \<Rightarrow> bool" where
  "books (CheckerRun env pk) a \<longleftrightarrow> confirmed_amount env a"
| "books _ a \<longleftrightarrow> False"

fun reconciles :: "job \<Rightarrow> bool" where
  "reconciles (ReconciliationRun _ _ _) \<longleftrightarrow> True"
| "reconciles _ \<longleftrightarrow> False"

section \<open>The loan table\<close>

definition app_wf :: "app \<Rightarrow> bool" where
  "app_wf a \<longleftrightarrow> (\<forall>l \<in> set (ap_loans a). loan_typed l) \<and> hot_wf (ap_rep a)"

definition app_keeps :: "(num \<Rightarrow> bool) \<Rightarrow> bool \<Rightarrow> app \<Rightarrow> app \<Rightarrow> bool" where
  "app_keeps A R a a' \<longleftrightarrow> keeps_book A R (ap_loans a) (ap_loans a') \<and> hot_wf (ap_rep a')"

lemma hot_wf_view [simp]: "hot_wf (rep_view a) = hot_wf (ap_rep a)"
  by (simp add: rep_view_def hot_wf_def)

lemma loans_view_simps [simp]: "ls_loans (loans_view a) = ap_loans a" "ls_rep (loans_view a) = rep_view a"
  by (simp_all add: loans_view_def)

text \<open>The handlers of the loans controller are operations of \<open>Lending\<close> on the view.\<close>

definition lending_of :: "app \<Rightarrow> lending" where
  "lending_of a = \<lparr>ln_loans = loans_view a, ln_txs = ap_txs a, ln_notes = []\<rparr>"

lemma loans_handler_keeps:
  assumes "hot_wf (ap_rep a)" and "\<And>le dto. c = CreateLoan le dto \<Longrightarrow> admissible (AskLoan le w dto)"
  shows "app_keeps A R a (snd (loans_handler env w c a))"
proof -
  have op: "keeps_book A R (ap_loans a) (ls_loans (ln_loans (lend op (lending_of a)))) \<and> hot_wf (ls_rep (ln_loans (lend op (lending_of a))))"
    if "admissible op" "\<nexists>env. op = Settle env" for op
    using lend_book [of "lending_of a" op A R] assms(1) that by (simp add: lending_of_def)
  show ?thesis
    using op [of "AskQuote _ _ _"] op [of "AskLoan _ _ _"] op [of "AskAssessment _ _ _"] assms
    by (cases c) (auto simp: app_keeps_def views lending_of_def simp del: admissible.simps(1))
qed

lemma other_handlers_keep:
  assumes "hot_wf (ap_rep a)" and "\<And>x. c \<noteq> LoansRoute x"
  shows "ap_loans (snd (handle env w c a)) = ap_loans a \<and> hot_wf (ap_rep (snd (handle env w c a)))"
proof (cases c)
  case (LoansRoute x) with assms(2) [of x] show ?thesis by simp
next
  case (VendorsRoute x) with assms(1) show ?thesis by (cases x) (auto simp: views)
next
  case (UsersRoute x) with assms(1) show ?thesis by (cases x) (auto simp: views)
next
  case (LearnersRoute x) with assms(1) show ?thesis by (cases x) (auto simp: views)
next
  case (NotesRoute x) with assms(1) show ?thesis by (cases x) (auto simp: views)
next
  case (ScoreRoute x)
  have "hot_wf (snd (getReputationScore re u (rep_view a)))" for re u using hot_wf_get [of "rep_view a"] assms(1) by simp
  with ScoreRoute assms(1) show ?thesis by (cases x) (auto simp: views)
next
  case (SponsorsRoute x) with assms(1) show ?thesis by (cases x) (auto simp: views)
next
  case (PoolRoute x) with assms(1) show ?thesis by (cases x) (auto simp: views)
next
  case (VouchRoute x) with assms(1) show ?thesis by (cases x) (auto simp: views)
next
  case (TxRoute x) with assms(1) show ?thesis by (cases x) (auto simp: views)
next
  case (AdminRoute x) with assms(1) show ?thesis by (cases x) (auto simp: views)
qed

lemma serve_keeps:
  assumes "hot_wf (ap_rep a)" and "validated_call (rq_call req)"
  shows "app_keeps A R a (snd (serve env req a))"
proof -
  have "app_keeps A R b (snd (handle env w (rq_call req) b))" if "hot_wf (ap_rep b)" for b w
  proof (cases "\<exists>x. rq_call req = LoansRoute x")
    case True
    then obtain x where x: "rq_call req = LoansRoute x" by blast
    have "admissible (AskLoan le w dto)" if "x = CreateLoan le dto" for le dto
      using assms(2) x that loan_body by (auto simp: CreateLoanRequestDto_def validated_call_def)
    with loans_handler_keeps [OF \<open>hot_wf (ap_rep b)\<close>, of x w A R env] x show ?thesis by auto
  next
    case False
    with other_handlers_keep [OF that, of "rq_call req" env w] show ?thesis by (auto simp: app_keeps_def)
  qed
  note h = this
  obtain r user st hits rows where g:
    "pass_guards env req (guards_of (rq_call req)) (None, ap_gate a, ap_hits a, ap_audit a) = (r, user, st, hits, rows)"
    by (metis prod.exhaust)
  let ?b = "a\<lparr>ap_gate := st, ap_hits := hits, ap_audit := rows\<rparr>"
  have "app_keeps A R ?b (snd (handle env w (rq_call req) ?b))" for w by (rule h) (use assms(1) in simp)
  then have "app_keeps A R a (snd (handle env w (rq_call req) ?b))" for w by (simp add: app_keeps_def)
  then show ?thesis using g assms(1) by (cases r) (auto simp: serve_def app_keeps_def)
qed

text \<open>The reconciliation writes the status of a loan, and its on-chain id, and nothing else.\<close>

lemma status_book:
  assumes "R" and "\<And>l. money_ok (f l) = money_ok l \<and> owed_ok (f l) = owed_ok l \<and> (\<exists>p. entry_of (f l) = (entry_of l)\<lparr>en_phase := p\<rparr>)"
  shows "keeps_book A R ls (update_where P f ls)"
proof (rule keeps_book_update)
  fix l assume l: "typed_under A R l"
  have "entry_step A R (entry_of l) (entry_of (f l))"
    using assms(2) [of l] entry_step.corrected [where A = A and R = R, OF assms(1), of "entry_of l"] by (elim conjE exE) simp
  with l assms show "typed_under A R (f l) \<and> entry_step A R (entry_of l) (entry_of (f l))" by (simp add: typed_under_def)
qed

lemma recon_writes:
  "updateStatus flt pk s ls = Inr ls' \<Longrightarrow> keeps_book A True ls ls'"
  "resolveProvisionalId flt pk lid s ls = Inr ls' \<Longrightarrow> keeps_book A True ls ls'"
  by (auto simp: updateStatus_def resolveProvisionalId_def set_status_def money_ok_def owed_ok_def entry_of_def
      intro!: status_book split: option.splits if_splits)

lemma reconciled_book: "keeps_book A True (rs_loans (fst acc)) (rs_loans (fst (snd (for_each (reconcileLoan env rows) cs acc))))"
proof (induction cs arbitrary: acc)
  case (Cons c cs)
  obtain x acc' where s: "reconcileLoan env rows c acc = (x, acc')" by (cases "reconcileLoan env rows c acc")
  have "keeps_book A True (rs_loans (fst acc)) (rs_loans (fst acc'))"
    using s by (cases acc) (auto simp: reconcileLoan_def Let_def dest: recon_writes [where A = A] split: option.splits sum.splits if_splits)
  from keeps_book_trans [OF this Cons.IH] this s show ?case by (cases x) simp_all
qed simp

lemma reconcile_book: "keeps_book A True (rs_loans st) (rs_loans (snd (reconcile env ix ivs st)))"
proof -
  have loans: "keeps_book A True (rs_loans st) (rs_loans (fst (snd (reconcileLoans env chain rows (st, [])))))" for chain rows
    unfolding reconcileLoans_def using reconciled_book [of A "(st, [])"] by simp
  have "keeps_book A True (rs_loans st) (rs_loans (fst (snd
      (then_do (then_do (then_do (reconcileLoans env chain rows (st, [])) (reconcileTransactions env chain txs))
        (reconcileLiquidity env chain)) (reconcileReputation env chain)))))" for chain rows txs
  proof -
    have f: "rs_loans (fst (snd (then_do r f))) = rs_loans (fst (snd r))" if "\<And>a. rs_loans (fst (snd (f a))) = rs_loans (fst a)" for r f
      using that by (rule then_do_frame [OF refl])
    show ?thesis using loans by (simp add: f)
  qed
  then show ?thesis by (auto simp: reconcile_def split_def Let_def split: sum.split)
qed

lemma job_keeps:
  assumes "hot_wf (ap_rep a)" and "\<And>x. books j x \<Longrightarrow> A x" and "reconciles j \<Longrightarrow> R"
  shows "app_keeps A R a (run_job j a)"
proof (cases j)
  case (CheckerRun env pk)
  then show ?thesis
    using settle_book [of env A R "\<lparr>ck_tx = txs_rows (ap_txs a), ck_loans = ap_loans a, ck_notes = [], ck_running = False\<rparr>"] assms
    by (simp add: run_checker_def app_keeps_def Let_def)
next
  case (ReconciliationRun env ix ivs)
  with assms have "keeps_book A R (ap_loans a) (rs_loans (runScheduled env ix ivs (recon_view a)))"
    using reconcile_book [of A "(recon_view a)\<lparr>rs_running := True\<rparr>" env ix ivs] by (simp add: runScheduled_def recon_view_def)
  with ReconciliationRun assms(1) show ?thesis by (simp add: run_reconciliation_def app_keeps_def Let_def)
qed (use assms in \<open>simp_all add: run_reminders_def run_indexer_def app_keeps_def Let_def\<close>)

text \<open>Tables with two loans and a pending repayment.\<close>

definition demo_platform :: app where
  "demo_platform = demo_app\<lparr>ap_loans := book_rows demo_lending, ap_txs := ln_txs demo_lending\<rparr>"

lemma demo_platform_wf: "app_wf demo_platform"
  using demo_lending_wf by (simp add: app_wf_def lending_wf_def demo_platform_def demo_app_def hot_wf_def)

end
