(* ===== verification/Access.thy ===== *)
theory Access imports Avatars RateLimit begin

text \<open>
  The routes of \<open>/auth\<close> together (\<open>modules/auth/auth.controller.ts\<close>): registration, challenge,
  verification and refresh on one database, with the hourly clean-ups, and where the tokens that
  circulate come from.
\<close>

section \<open>The controller\<close>

record auth_state =
  ax_sessions :: session_state
  ax_nonces :: "NonceRow list"
  ax_hits :: hits
  ax_bucket :: bucket

datatype auth_call =
    Register session_env avatar_env "UploadedAvatarFile option" RegisterRequest
  | AskNonce auth_env string
  | Verify auth_env session_env VerifyRequest
  | Refresh session_env string
  | CleanSessions session_env
  | CleanNonces faults int

datatype auth_answer = Registered UserRow AuthResponse | Challenge NonceResponse | Tokens AuthResponse | Cleaned

text \<open>The throttler of the verification, keyed by the wallet of the body.\<close>

definition verify_request :: "string option \<Rightarrow> string option \<Rightarrow> VerifyRequest \<Rightarrow> throttled_request" where
  "verify_request ip forwarded dto =
     \<lparr>tq_body_wallet = Some (vr_wallet dto), tq_user_wallet = None, tq_ip = ip, tq_forwarded = forwarded\<rparr>"

definition verify :: "auth_env \<Rightarrow> session_env \<Rightarrow> VerifyRequest \<Rightarrow> auth_state \<Rightarrow> AuthResponse result \<times> auth_state" where
  "verify ae se dto st =
     (case verifySignature ae dto (ax_nonces st) of
        (Inl e, rows) \<Rightarrow> (Inl e, st\<lparr>ax_nonces := rows\<rparr>)
      | (Inr _, rows) \<Rightarrow>
          let (r, s) = generateTokens se (vr_wallet dto) None (ax_sessions st)
          in (r, st\<lparr>ax_nonces := rows, ax_sessions := s\<rparr>))"

text \<open>A request with the address it comes from. The global throttler comes before it (\<open>Server\<close>).\<close>

record auth_request =
  ac_ip :: "string option"
  ac_forwarded :: "string option"
  ac_call :: auth_call

fun auth_handler :: "auth_request \<Rightarrow> auth_call \<Rightarrow> auth_state \<Rightarrow> auth_answer result \<times> auth_state" where
  "auth_handler req (Register se av img dto) st =
     (let (r, s, b) = register_image se av img dto (ax_sessions st) (ax_bucket st)
      in (map_sum id (\<lambda>(u, t). Registered u t) r, st\<lparr>ax_sessions := s, ax_bucket := b\<rparr>))"
| "auth_handler req (AskNonce ae w) st =
     (let (r, rows) = generateNonce ae w (ax_nonces st) in (map_sum id Challenge r, st\<lparr>ax_nonces := rows\<rparr>))"
| "auth_handler req (Verify ae se dto) st =
     (let (ok, hits) = auth_canActivate (au_now ae) (verify_request (ac_ip req) (ac_forwarded req) dto) (ax_hits st);
          st1 = st\<lparr>ax_hits := hits\<rparr>
      in case ok of
           Inl e \<Rightarrow> (Inl e, st1)
         | Inr _ \<Rightarrow> let (r, st2) = verify ae se dto st1 in (map_sum id Tokens r, st2))"
| "auth_handler req (Refresh se token) st =
     (let (r, s) = refreshTokens se token (ax_sessions st) in (map_sum id Tokens r, st\<lparr>ax_sessions := s\<rparr>))"
| "auth_handler req (CleanSessions se) st =
     (Inr Cleaned, st\<lparr>ax_sessions := (ax_sessions st)\<lparr>ss_sessions := cleanupExpiredSessions se (ss_sessions (ax_sessions st))\<rparr>\<rparr>)"
| "auth_handler req (CleanNonces flt now) st = (Inr Cleaned, st\<lparr>ax_nonces := cleanupExpiredNonces flt now (ax_nonces st)\<rparr>)"

definition auth_serve :: "auth_request \<Rightarrow> auth_state \<Rightarrow> auth_answer result \<times> auth_state" where
  "auth_serve req st =
     auth_handler req (ac_call req) st"

section \<open>Histories\<close>

text \<open>
  The wallets a request proves: that of a verification whose signature is accepted, and that of a
  registration, which asks for none. The histories of the controller start from an empty table
  of sessions and collect the wallets proven on the way.
\<close>

definition proves :: "auth_request \<Rightarrow> auth_state \<Rightarrow> string set" where
  "proves req st =
     (case ac_call req of
        Verify ae se dto \<Rightarrow> (if fst (verifySignature ae dto (ax_nonces st)) = Inr () then {vr_wallet dto} else {})
      | Register se av img dto \<Rightarrow>
          (if \<exists>x. fst (register_image se av img dto (ax_sessions st) (ax_bucket st)) = Inr x then {rg_wallet dto} else {})
      | _ \<Rightarrow> {})"

fun session_envs :: "auth_call \<Rightarrow> session_env set" where
  "session_envs (Register se _ _ _) = {se}"
| "session_envs (Verify _ se _) = {se}"
| "session_envs (Refresh se _) = {se}"
| "session_envs _ = {}"

inductive history :: "session_env set \<Rightarrow> string set \<Rightarrow> auth_state \<Rightarrow> bool" for E where
  opened: "ss_sessions (ax_sessions st) = [] \<Longrightarrow> history E {} st"
| request: "history E W st \<Longrightarrow> session_envs (ac_call req) \<subseteq> E \<Longrightarrow> auth_serve req st = (r, st') \<Longrightarrow>
            history E (W \<union> proves req st) st'"

inductive_cases historyE: "history E W st"

text \<open>
  What signing and hashing are relied on for: a refresh token that verifies carries the wallet it was
  signed for, and no other text has the hash of a token.
\<close>

definition token_laws :: "session_env set \<Rightarrow> bool" where
  "token_laws E \<longleftrightarrow>
     (\<forall>e \<in> E. \<forall>e' \<in> E. \<forall>w fam.
        (\<forall>p. sn_verify e (sn_sign_refresh e' w fam) = Some p \<longrightarrow> rt_wallet p = Some w) \<and>
        (\<forall>t. sn_sha256 e t = sn_sha256 e' (sn_sign_refresh e' w fam) \<longrightarrow> t = sn_sign_refresh e' w fam))"

definition token_row :: "session_env set \<Rightarrow> string set \<Rightarrow> SessionRow \<Rightarrow> bool" where
  "token_row E W s \<longleftrightarrow> (\<exists>e \<in> E. \<exists>w \<in> W. \<exists>fam. se_hash s = sn_sha256 e (sn_sign_refresh e w fam))"

lemma token_row_mono: "token_row E W s \<Longrightarrow> W \<subseteq> V \<Longrightarrow> token_row E V s"
  unfolding token_row_def by blast

lemma findOrCreateUser_sessions: "ss_sessions (snd (findOrCreateUser env w st)) = ss_sessions st"
  by (auto simp: findOrCreateUser_def Let_def split: sum.split)

text \<open>Minting adds at most one session, of a token for the wallet.\<close>

lemma generate_Inr:
  "generateTokens e w fam st = (Inr t, st') \<Longrightarrow> \<exists>role. ar_access t = sn_sign_access e w role"
  by (auto simp: generateTokens_def Let_def split: sum.splits prod.splits option.splits)

lemma generate_rows:
  assumes "generateTokens e w fam st = (r, st')" and "e \<in> E" and "s \<in> set (ss_sessions st')"
  shows "s \<in> set (ss_sessions st) \<or> (\<exists>t. r = Inr t) \<and> token_row E {w} s"
proof -
  obtain q st1 where q: "findOrCreateUser e w st = (q, st1)" by (metis prod.exhaust)
  then have s1: "ss_sessions st1 = ss_sessions st" using findOrCreateUser_sessions [of e w st] by simp
  have t: "token_row E {w} \<lparr>se_pk = i, se_user = u, se_hash = sn_sha256 e (sn_sign_refresh e w f), se_family = g, se_expires = x\<rparr>"
    for i u f g x using assms(2) by (auto simp: token_row_def)
  from assms q s1 t show ?thesis
    by (auto simp: generateTokens_def Let_def split: sum.splits prod.splits option.splits)
qed

definition rows_from :: "session_env set \<Rightarrow> string set \<Rightarrow> session_state \<Rightarrow> bool" where
  "rows_from E W st \<longleftrightarrow> (\<forall>s \<in> set (ss_sessions st). token_row E W s)"

lemma rows_from_mono: "rows_from E W st \<Longrightarrow> W \<subseteq> V \<Longrightarrow> rows_from E V st"
  unfolding rows_from_def using token_row_mono by blast

lemma rows_from_subset: "rows_from E W st \<Longrightarrow> set (ss_sessions st') \<subseteq> set (ss_sessions st) \<Longrightarrow> rows_from E W st'"
  unfolding rows_from_def by blast

lemma rows_from_generate:
  assumes "generateTokens e w fam st = (r, st')" "e \<in> E" "rows_from E W st"
  shows "rows_from E (W \<union> (if \<exists>t. r = Inr t then {w} else {})) st'"
  unfolding rows_from_def
proof
  fix s assume "s \<in> set (ss_sessions st')"
  from generate_rows [OF assms(1,2) this] assms(3) show "token_row E (W \<union> (if \<exists>t. r = Inr t then {w} else {})) s"
    by (auto simp: rows_from_def elim: token_row_mono)
qed

lemma delete_where_subset: "set (delete_where P xs) \<subseteq> set xs"
  by (auto simp: delete_where_def)

lemma drop_user_rows: "set (ss_sessions (drop_user e u st)) \<subseteq> set (ss_sessions st)"
  using delete_where_subset by (auto simp: drop_user_def Let_def)

lemma replay_rows: "set (ss_sessions (handleRefreshReplay e p st)) \<subseteq> set (ss_sessions st)"
  by (auto simp: handleRefreshReplay_def Let_def delete_where_def split: option.split list.split)

lemma delete_session_rows: "set (ss_sessions (delete_session e s st)) \<subseteq> set (ss_sessions st)"
  by (auto simp: delete_session_def delete_where_def split: option.split)

text \<open>A refresh that succeeds is for a wallet whose token a session was made for.\<close>

lemma refresh_wallet:
  assumes "token_laws E" "e \<in> E" "rows_from E W st" "refresh_select e token st = (Inr (p, s), st1)" "rt_wallet p = Some w"
  shows "w \<in> W"
proof -
  from assms(4) have v: "sn_verify e token = Some p" "st1 = st"
    and f: "filter (\<lambda>s. se_hash s = sn_sha256 e token) (ss_sessions st) = [s]"
    by (auto simp: refresh_select_def with_fault_def single_Inr split: option.splits sum.splits if_splits)
  have "s \<in> set (filter (\<lambda>s. se_hash s = sn_sha256 e token) (ss_sessions st))" unfolding f by simp
  then have s: "s \<in> set (ss_sessions st)" "se_hash s = sn_sha256 e token" by simp_all
  then obtain e' w' fam where h: "e' \<in> E" "w' \<in> W" "sn_sha256 e token = sn_sha256 e' (sn_sign_refresh e' w' fam)"
    using assms(3) unfolding rows_from_def token_row_def by metis
  then have "token = sn_sign_refresh e' w' fam" using assms(1,2) unfolding token_laws_def by blast
  with v(1) assms(1,2,5) h(1,2) show ?thesis unfolding token_laws_def by fastforce
qed

lemma refresh_select_rows:
  "refresh_select e token st = (r, st1) \<Longrightarrow> set (ss_sessions st1) \<subseteq> set (ss_sessions st)"
  using replay_rows by (auto simp: refresh_select_def split: option.splits sum.splits if_splits)

lemma serve_rows:
  assumes "token_laws E" "rows_from E W (ax_sessions st)" "session_envs (ac_call req) \<subseteq> E" "auth_serve req st = (r, st')"
  shows "rows_from E (W \<union> proves req st) (ax_sessions st')"
proof -
  have h: "auth_handler req (ac_call req) st = (r, st')" using assms(4) by (simp add: auth_serve_def)
  show ?thesis
  proof (cases "ac_call req")
    case (Register se av img dto)
    let ?reg = "register_image se av img dto (ax_sessions st) (ax_bucket st)"
    obtain avatar r1 s1 where g: "register se avatar dto (ax_sessions st) = (r1, s1)" "r1 = fst ?reg" "s1 = fst (snd ?reg)"
      using register_image_register by blast
    have e: "se \<in> E" using assms(3) Register by simp
    have "rows_from E (W \<union> (if \<exists>x. r1 = Inr x then {rg_wallet dto} else {})) s1"
    proof (cases "\<exists>u us url. avatar = Inr url \<and> createProfile (sn_users se) (rg_wallet dto) (rg_username dto) (rg_displayName dto) url
        (ss_users (ax_sessions st)) = Inr (u, us)")
      case True
      then obtain u us where c: "register se avatar dto (ax_sessions st) =
         (case generateTokens se (rg_wallet dto) None ((ax_sessions st)\<lparr>ss_users := us\<rparr>) of
            (Inl e, st1) \<Rightarrow> (Inl e, drop_user se (user_pk u) st1) | (Inr tokens, st1) \<Rightarrow> (Inr (u, tokens), st1))"
        by (auto simp: register_def)
      obtain q s2 where q: "generateTokens se (rg_wallet dto) None ((ax_sessions st)\<lparr>ss_users := us\<rparr>) = (q, s2)" by (metis prod.exhaust)
      have "rows_from E (W \<union> (if \<exists>t. q = Inr t then {rg_wallet dto} else {})) s2"
        by (rule rows_from_generate [OF q e]) (use assms(2) in \<open>simp add: rows_from_def\<close>)
      with g(1) c q show ?thesis using drop_user_rows [of se "user_pk u" s2]
        by (auto elim: rows_from_subset split: sum.splits)
    next
      case False
      then have "s1 = ax_sessions st" using g(1) by (auto simp: register_def split: sum.splits prod.splits)
      with assms(2) show ?thesis by (auto intro: rows_from_mono)
    qed
    then show ?thesis using h g(2,3) Register by (auto simp: proves_def Let_def split_def)
  next
    case (Verify ae se dto)
    have e: "se \<in> E" using assms(3) Verify by simp
    obtain v rows where v: "verifySignature ae dto (ax_nonces st) = (v, rows)" by (metis prod.exhaust)
    obtain q s2 where q: "generateTokens se (vr_wallet dto) None (ax_sessions st) = (q, s2)" by (metis prod.exhaust)
    have "rows_from E (W \<union> {vr_wallet dto}) s2" using rows_from_generate [OF q e assms(2)] by (rule rows_from_mono) auto
    moreover have "ax_sessions st' = ax_sessions st \<or> v = Inr () \<and> ax_sessions st' = s2"
      using h v q Verify by (auto simp: verify_def Let_def split_def split: sum.splits)
    ultimately show ?thesis using assms(2) v Verify by (auto simp: proves_def intro: rows_from_mono)
  next
    case (Refresh se token)
    have e: "se \<in> E" using assms(3) Refresh by simp
    obtain q s1 where q: "refresh_select se token (ax_sessions st) = (q, s1)" by (metis prod.exhaust)
    have s1: "rows_from E W s1" using assms(2) refresh_select_rows [OF q] by (rule rows_from_subset)
    have "rows_from E W (snd (refreshTokens se token (ax_sessions st)))"
    proof (cases q)
      case (Inl err)
      with q s1 show ?thesis by (simp add: refreshTokens_def)
    next
      case (Inr ps)
      obtain p s where ps: "ps = (p, s)" by (metis prod.exhaust)
      have d: "rows_from E W (delete_session se s s1)" using s1 delete_session_rows by (rule rows_from_subset)
      show ?thesis
      proof (cases "rt_wallet p")
        case None
        with q Inr ps d show ?thesis by (simp add: refreshTokens_def refresh_rotate_def Let_def)
      next
        case (Some w)
        have w: "w \<in> W" using refresh_wallet [OF assms(1) e assms(2)] q Inr ps Some by blast
        obtain g s2 where g: "generateTokens se w (Some (se_family s)) (delete_session se s s1) = (g, s2)" by (metis prod.exhaust)
        have "rows_from E W s2" using rows_from_generate [OF g e d] by (rule rows_from_mono) (use w in auto)
        with q Inr ps Some g show ?thesis by (simp add: refreshTokens_def refresh_rotate_def Let_def)
      qed
    qed
    then show ?thesis using h Refresh by (auto simp: proves_def Let_def split_def)
  next
    case (CleanSessions se)
    have "set (cleanupExpiredSessions se (ss_sessions (ax_sessions st))) \<subseteq> set (ss_sessions (ax_sessions st))"
      using delete_where_subset by (auto simp: cleanupExpiredSessions_def split: option.splits)
    with h assms(2) CleanSessions show ?thesis by (auto simp: proves_def rows_from_def)
  qed (use h assms(2) in \<open>auto simp: proves_def Let_def split_def\<close>)
qed

lemma history_rows:
  assumes "history E W st" and "token_laws E"
  shows "rows_from E W (ax_sessions st)"
  using assms
proof (induction rule: history.induct)
  case (opened st)
  then show ?case by (simp add: rows_from_def)
next
  case (request W st req r st')
  then show ?case using serve_rows by blast
qed

section \<open>Properties\<close>

definition tokens_of :: "auth_answer \<Rightarrow> AuthResponse option" where
  "tokens_of x = (case x of Registered _ t \<Rightarrow> Some t | Tokens t \<Rightarrow> Some t | _ \<Rightarrow> None)"

lemma refresh_tokens_wallet:
  assumes "token_laws E" "e \<in> E" "rows_from E W st" "fst (refreshTokens e token st) = Inr t"
  shows "\<exists>w \<in> W. \<exists>role. ar_access t = sn_sign_access e w role"
proof -
  from assms(4) obtain p s st1 where q: "refresh_select e token st = (Inr (p, s), st1)"
    and r: "fst (refresh_rotate e (p, s) st1) = Inr t"
    by (auto simp: refreshTokens_def split: prod.splits sum.splits)
  from r obtain w where w: "rt_wallet p = Some w" "fst (generateTokens e w (Some (se_family s)) (delete_session e s st1)) = Inr t"
    by (auto simp: refresh_rotate_def Let_def split: option.splits)
  from refresh_wallet [OF assms(1-3) q w(1)] generate_Inr w(2) show ?thesis by (metis prod.collapse)
qed

text \<open>C13: Every access token goes back to a proof: whatever requests of registration, challenge,
  verification and refresh came before, with whatever tokens and in whatever order, a pair of tokens
  is handed out only for a wallet that registered, or for which a verification accepted a signature
  over one of its own unused nonces, in this request or an earlier one. No sequence of refreshes
  and replays yields a token for another wallet.\<close>

theorem tokens_need_proof:
  assumes "history E W st" and "token_laws E" and "session_envs (ac_call req) \<subseteq> E"
    and "auth_serve req st = (Inr x, st')" and "tokens_of x = Some t"
  shows "\<exists>w \<in> W \<union> proves req st. \<exists>e \<in> E. \<exists>role. ar_access t = sn_sign_access e w role"
proof -
  note rows = history_rows [OF assms(1,2)]
  have h: "auth_handler req (ac_call req) st = (Inr x, st')" using assms(4) by (auto simp: auth_serve_def split: if_splits)
  show ?thesis
  proof (cases "ac_call req")
    case (Register se av img dto)
    then obtain u where r: "fst (register_image se av img dto (ax_sessions st) (ax_bucket st)) = Inr (u, t)"
      using h assms(5) by (auto simp: Let_def split_def tokens_of_def map_sum_def split: sum.splits)
    then obtain avatar where "fst (register se avatar dto (ax_sessions st)) = Inr (u, t)"
      using register_image_register by (metis fst_conv)
    then have "\<exists>role. ar_access t = sn_sign_access se (rg_wallet dto) role"
      by (auto simp: register_def split: sum.splits prod.splits dest: generate_Inr)
    with r Register assms(3) show ?thesis by (auto simp: proves_def)
  next
    case (Verify ae se dto)
    then have v: "fst (verifySignature ae dto (ax_nonces st)) = Inr ()"
      "\<exists>s. generateTokens se (vr_wallet dto) None (ax_sessions st) = (Inr t, s)"
      using h assms(5) by (auto simp: verify_def Let_def split_def tokens_of_def map_sum_def prod_eq_iff split: sum.splits prod.splits)
    then obtain role where "ar_access t = sn_sign_access se (vr_wallet dto) role" using generate_Inr by blast
    with v(1) Verify assms(3) show ?thesis by (auto simp: proves_def)
  next
    case (Refresh se token)
    then have "fst (refreshTokens se token (ax_sessions st)) = Inr t"
      using h assms(5) by (auto simp: Let_def split_def tokens_of_def map_sum_def split: sum.splits)
    from refresh_tokens_wallet [OF assms(2) _ rows this] Refresh assms(3) show ?thesis by auto
  qed (use h assms(5) in \<open>auto simp: tokens_of_def Let_def split_def map_sum_def split: sum.splits\<close>)
qed

text \<open>A wallet signs in with its key and refreshes the pair of tokens.\<close>

definition demo_aenv :: session_env where
  "demo_aenv = demo_senv\<lparr>sn_sign_refresh := (\<lambda>w f. w),
     sn_verify := (\<lambda>t. Some \<lparr>rt_type = Some ''refresh'', rt_wallet = Some t, rt_fam = Some ''f2''\<rparr>)\<rparr>"

definition demo_auth_state :: auth_state where
  "demo_auth_state = \<lparr>ax_sessions = \<lparr>ss_users = [demo_user], ss_profiles = [''GA''], ss_sessions = [], ss_audit = []\<rparr>,
     ax_nonces = [demo_nonce], ax_hits = Map.empty, ax_bucket = Map.empty\<rparr>"

definition demo_sign_in :: auth_request where
  "demo_sign_in = \<lparr>ac_ip = None, ac_forwarded = None, ac_call = Verify demo_auth demo_aenv demo_verify\<rparr>"

definition demo_again :: auth_request where
  "demo_again = demo_sign_in\<lparr>ac_call := Refresh demo_aenv ''GA''\<rparr>"

lemma demo_laws: "token_laws {demo_aenv}"
  by (simp add: token_laws_def demo_aenv_def demo_senv_def)

lemma demo_signed_in:
  "history {demo_aenv} {''GA''} (snd (auth_serve demo_sign_in demo_auth_state))"
proof -
  have "history {demo_aenv} ({} \<union> proves demo_sign_in demo_auth_state) (snd (auth_serve demo_sign_in demo_auth_state))"
    by (rule history.request [OF history.opened]) (auto simp: demo_auth_state_def demo_sign_in_def prod_eq_iff)
  moreover have "proves demo_sign_in demo_auth_state = {''GA''}"
    using demo_verifies by (simp add: proves_def demo_sign_in_def demo_auth_state_def demo_verify_def)
  ultimately show ?thesis by simp
qed

lemma demo_sessions_after:
  "ax_sessions (snd (auth_serve demo_sign_in demo_auth_state)) =
     \<lparr>ss_users = [demo_user], ss_profiles = [''GA''],
      ss_sessions = [\<lparr>se_pk = ''s2'', se_user = ''u1'', se_hash = ''GA'', se_family = ''f2'',
        se_expires = 50000 + 7 * 24 * 60 * 60 * 1000\<rparr>], ss_audit = []\<rparr>"
proof -
  obtain rows where v: "verifySignature demo_auth demo_verify [demo_nonce] = (Inr (), rows)"
    using demo_verifies by (metis prod.collapse)
  have g: "vr_wallet demo_verify = ''GA''" by (simp add: demo_verify_def)
  show ?thesis
    by (simp add: auth_serve_def demo_sign_in_def demo_auth_state_def auth_canActivate_def window_attempt_def verify_def v g
        generateTokens_def findOrCreateUser_def upsert_by_def ensure_learner_profile_def Let_def of_wallet_def single_def
        update_where_def or_else_def REFRESH_TOKEN_EXPIRATION_MS_def demo_aenv_def demo_session_defs)
qed

lemma demo_refreshed: "\<exists>t st'. auth_serve demo_again (snd (auth_serve demo_sign_in demo_auth_state)) = (Inr (Tokens t), st')"
proof -
  let ?st = "snd (auth_serve demo_sign_in demo_auth_state)"
  have "\<exists>t s. refreshTokens demo_aenv ''GA'' (ax_sessions ?st) = (Inr t, s)"
    unfolding demo_sessions_after
    by (simp add: refreshTokens_def refresh_select_def refresh_rotate_def delete_session_def generateTokens_def
      findOrCreateUser_def upsert_by_def ensure_learner_profile_def Let_def of_wallet_def single_def delete_where_def
      update_where_def or_else_def demo_aenv_def demo_session_defs)
  then show ?thesis by (auto simp: auth_serve_def demo_again_def demo_sign_in_def)
qed

theorem tokens_need_proof_witness:
  "\<exists>t role. fst (auth_serve demo_again (snd (auth_serve demo_sign_in demo_auth_state))) = Inr (Tokens t) \<and>
     ar_access t = sn_sign_access demo_aenv ''GA'' role"
proof -
  from demo_refreshed obtain t st' where
    t: "auth_serve demo_again (snd (auth_serve demo_sign_in demo_auth_state)) = (Inr (Tokens t), st')" by blast
  have "proves demo_again st = {}" for st by (simp add: proves_def demo_again_def)
  with tokens_need_proof [OF demo_signed_in demo_laws _ t] t show ?thesis by (simp add: demo_again_def tokens_of_def)
qed

end
