(* ===== verification/Setup.thy ===== *)
theory Setup imports Users AuthNonce begin

text \<open>
  Start-up (\<open>main.ts\<close>, \<open>config/env.ts\<close>, \<open>config/redis.config.ts\<close>, \<open>config/swagger.ts\<close>): the API documentation and the
  hook that protects it in production, the clients of the database, the allowlist of administrators and its guard
  (\<open>auth/guards/admin.guard.ts\<close>), the choice of the cache store, the addresses of the server.
\<close>

section \<open>Base64\<close>

text \<open>
  \<open>Buffer.from(s, 'base64')\<close>: characters outside both alphabets are skipped, bits that do not fill a byte
  are dropped. Texts are UTF-8 bytes.
\<close>

definition b64_digit :: "char \<Rightarrow> nat option" where
  "b64_digit c =
     (let n = of_char c :: nat
      in if 65 \<le> n \<and> n \<le> 90 then Some (n - 65) else if 97 \<le> n \<and> n \<le> 122 then Some (n - 71)
         else if 48 \<le> n \<and> n \<le> 57 then Some (n + 4)
         else if n = 43 \<or> n = 45 then Some 62 else if n = 47 \<or> n = 95 then Some 63 else None)"

fun b64_bytes :: "nat list \<Rightarrow> nat list" where
  "b64_bytes (a # b # c # d # ds) =
     (a * 4 + b div 16) # (b mod 16 * 16 + c div 4) # (c mod 4 * 64 + d) # b64_bytes ds"
| "b64_bytes [a, b, c] = [a * 4 + b div 16, b mod 16 * 16 + c div 4]"
| "b64_bytes [a, b] = [a * 4 + b div 16]"
| "b64_bytes _ = []"

definition b64_decode :: "string \<Rightarrow> string" where
  "b64_decode s = map char_of (b64_bytes (List.map_filter b64_digit s))"

text \<open>What a client sends, with padding.\<close>

definition b64_char :: "nat \<Rightarrow> char" where
  "b64_char n = char_of (if n < 26 then n + 65 else if n < 52 then n + 71 else if n < 62 then n - 4 else if n = 62 then 43 else (47 :: nat))"

fun b64_digits :: "nat list \<Rightarrow> string" where
  "b64_digits (x # y # z # bs) =
     map b64_char [x div 4, x mod 4 * 16 + y div 16, y mod 16 * 4 + z div 64, z mod 64] @ b64_digits bs"
| "b64_digits [x, y] = map b64_char [x div 4, x mod 4 * 16 + y div 16, y mod 16 * 4] @ ''=''"
| "b64_digits [x] = map b64_char [x div 4, x mod 4 * 16] @ ''==''"
| "b64_digits [] = []"

definition b64_encode :: "string \<Rightarrow> string" where
  "b64_encode s = b64_digits (map of_char s)"

section \<open>The documentation hook\<close>

record docs_env =
  de_prefix :: string
  de_production :: bool
  de_username :: "string option"
  de_password :: "string option"

datatype hook_reply = Pass | Reply401 string

definition docsPaths :: "docs_env \<Rightarrow> string list" where
  "docsPaths env = [''/'' @ de_prefix env @ ''/docs'', ''/'' @ de_prefix env @ ''/docs-json'']"

definition split_colon :: "string \<Rightarrow> (string \<times> string) option" where
  "split_colon s =
     (if CHR '':'' \<in> set s then Some (takeWhile (\<lambda>c. c \<noteq> CHR '':'') s, tl (dropWhile (\<lambda>c. c \<noteq> CHR '':'') s)) else None)"

definition docs_hook :: "docs_env \<Rightarrow> string \<Rightarrow> string \<Rightarrow> string \<Rightarrow> string option \<Rightarrow> hook_reply" where
  "docs_hook env user pass url auth =
     (if url \<notin> set (docsPaths env) then Pass
      else case present auth of
        None \<Rightarrow> Reply401 ''Documentation requires authentication''
      | Some h \<Rightarrow>
          if \<not> starts_with h ''Basic '' then Reply401 ''Documentation requires authentication''
          else case split_colon (b64_decode (drop 6 h)) of
            None \<Rightarrow> Reply401 ''Invalid authorization header format''
          | Some (u, p) \<Rightarrow> if u \<noteq> user \<or> p \<noteq> pass then Reply401 ''Invalid credentials'' else Pass)"

text \<open>The hook is installed in production when both settings are given.\<close>

definition docs_request :: "docs_env \<Rightarrow> string \<Rightarrow> string option \<Rightarrow> hook_reply" where
  "docs_request env url auth =
     (if de_production env
      then case (present (de_username env), present (de_password env)) of
             (Some user, Some pass) \<Rightarrow> docs_hook env user pass url auth
           | _ \<Rightarrow> Pass
      else Pass)"

section \<open>Administrators\<close>

definition allowlist_entries :: "string option \<Rightarrow> string list" where
  "allowlist_entries raw =
     filter (\<lambda>e. e \<noteq> []) (map trim (split_on (CHR '','') (case raw of Some r \<Rightarrow> r | None \<Rightarrow> [])))"

text \<open>\<open>valid\<close> is \<open>StrKey.isValidEd25519PublicKey\<close>; the list is set once, at start-up, or the start fails.\<close>

definition validateAdminWallets :: "(string \<Rightarrow> bool) \<Rightarrow> string option \<Rightarrow> string list result" where
  "validateAdminWallets valid raw =
     (case filter (\<lambda>e. \<not> valid e) (allowlist_entries raw) of
        entry # _ \<Rightarrow> Inl (JsError (''ADMIN_WALLETS contains an invalid Stellar address: '' @ entry))
      | [] \<Rightarrow> Inr (allowlist_entries raw))"

definition allowlistGuard :: "string list \<Rightarrow> request_user option \<Rightarrow> unit result" where
  "allowlistGuard allowlist user =
     (case present (map_option ru_wallet user) of
        None \<Rightarrow> Inl (forbidden ''AUTH_WALLET_MISSING'')
      | Some w \<Rightarrow>
          if allowlist = [] then Inl (forbidden ''ADMIN_ACCESS_DENIED'')
          else if w \<notin> set allowlist then Inl (forbidden ''ADMIN_ACCESS_DENIED'') else Inr ())"

section \<open>The cache store\<close>

record cache_config =
  cc_ttl :: int
  cc_store :: "string option"

text \<open>\<open>connect\<close> tells whether the Redis store can be made; without a store the cache is in memory.\<close>

definition getRedisConfig :: "bool \<Rightarrow> string option \<Rightarrow> int option \<Rightarrow> (string \<Rightarrow> bool) \<Rightarrow> cache_config" where
  "getRedisConfig is_test url ttl connect =
     (let t = (case ttl of Some t \<Rightarrow> t | None \<Rightarrow> 300)
      in case present url of
           None \<Rightarrow> \<lparr>cc_ttl = t, cc_store = None\<rparr>
         | Some u \<Rightarrow> \<lparr>cc_ttl = t, cc_store = (if is_test \<or> \<not> connect u then None else Some u)\<rparr>)"

section \<open>Addresses\<close>

text \<open>\<open>||\<close> replaces an empty setting too. The origins are those of CORS.\<close>

record server_config =
  sc_port :: string
  sc_prefix :: string
  sc_origins :: "string list"

definition bootstrap_config :: "(string \<Rightarrow> string option) \<Rightarrow> server_config" where
  "bootstrap_config get =
     \<lparr>sc_port = setting_or (present (get ''PORT'')) ''4000'', sc_prefix = setting_or (present (get ''API_PREFIX'')) ''api/v1'',
      sc_origins = (case get ''ALLOWED_ORIGINS'' of None \<Rightarrow> [''*''] | Some s \<Rightarrow> split_on (CHR '','') s)\<rparr>"

text \<open>
  The address in the challenges is that of the verification route as long as the prefix is not set to the
  empty text, which start-up replaces and the challenges do not; and the default addresses name
  different ports.
\<close>

theorem challenge_address:
  "(get ''API_PREFIX'' \<noteq> Some [] \<longrightarrow>
      au_uri (configured get host env) = strip_slashes (setting_or (get ''API_URL'') ''http://localhost:3000'') @ ''/'' @
        sc_prefix (bootstrap_config get) @ ''/auth/verify'') \<and>
   (get ''API_PREFIX'' = Some [] \<longrightarrow> sc_prefix (bootstrap_config get) = ''api/v1'' \<and>
      au_uri (configured get host env) = strip_slashes (setting_or (get ''API_URL'') ''http://localhost:3000'') @ ''//auth/verify'') \<and>
   au_uri (configured (\<lambda>_. None) host env) = ''http://localhost:3000/api/v1/auth/verify'' \<and>
   sc_port (bootstrap_config (\<lambda>_. None)) = ''4000''"
proof (intro conjI impI)
  assume "get ''API_PREFIX'' \<noteq> Some []"
  then show "au_uri (configured get host env) = strip_slashes (setting_or (get ''API_URL'') ''http://localhost:3000'') @ ''/'' @
      sc_prefix (bootstrap_config get) @ ''/auth/verify''"
    by (cases "get ''API_PREFIX''") (simp_all add: configured_def bootstrap_config_def Let_def present_def setting_or_def split: list.split)
qed (simp_all add: configured_def bootstrap_config_def Let_def present_def setting_or_def strip_slashes_def)

section \<open>The documentation\<close>

text \<open>\<open>pkg\<close> is the field \<open>version\<close> of \<open>package.json\<close>, or \<open>None\<close> when the file cannot be read or parsed.\<close>

definition readPackageVersion :: "string option option \<Rightarrow> string" where
  "readPackageVersion pkg = (case pkg of Some v \<Rightarrow> setting_or (present v) ''1.0'' | None \<Rightarrow> ''1.0'')"

record swagger_setup =
  sw_path :: string
  sw_version :: string

text \<open>The default of a setting stands for a missing one only, not for an empty one.\<close>

definition setupSwagger :: "(string \<Rightarrow> string option) \<Rightarrow> string option option \<Rightarrow> swagger_setup option" where
  "setupSwagger get pkg =
     (if (case get ''SWAGGER_ENABLED'' of Some v \<Rightarrow> v | None \<Rightarrow> ''true'') = ''false'' then None
      else Some \<lparr>sw_path = (case get ''API_PREFIX'' of Some v \<Rightarrow> v | None \<Rightarrow> ''api/v1'') @ ''/docs'', sw_version = readPackageVersion pkg\<rparr>)"

text \<open>What start-up reads for the hook.\<close>

definition docs_settings :: "(string \<Rightarrow> string option) \<Rightarrow> docs_env" where
  "docs_settings get =
     \<lparr>de_prefix = sc_prefix (bootstrap_config get), de_production = (get ''NODE_ENV'' = Some ''production''),
      de_username = get ''DOCS_USERNAME'', de_password = get ''DOCS_PASSWORD''\<rparr>"

section \<open>The clients of the database\<close>

text \<open>One client works under the row-level policies, the other past them; both keep no session.\<close>

record supabase_client =
  sb_url :: "string option"
  sb_key :: "string option"
  sb_persistSession :: bool
  sb_autoRefreshToken :: bool
  sb_detectSessionInUrl :: bool

definition supabase_with :: "(string \<Rightarrow> string option) \<Rightarrow> string \<Rightarrow> supabase_client" where
  "supabase_with get key =
     \<lparr>sb_url = get ''SUPABASE_URL'', sb_key = get key, sb_persistSession = False, sb_autoRefreshToken = False,
      sb_detectSessionInUrl = False\<rparr>"

definition getClient :: "(string \<Rightarrow> string option) \<Rightarrow> supabase_client" where
  "getClient get = supabase_with get ''SUPABASE_ANON_KEY''"

definition getServiceRoleClient :: "(string \<Rightarrow> string option) \<Rightarrow> supabase_client" where
  "getServiceRoleClient get = supabase_with get ''SUPABASE_SERVICE_ROLE_KEY''"

section \<open>Properties\<close>

lemma b64_digit_char: "n < 64 \<Longrightarrow> b64_digit (b64_char n) = Some n"
  by (auto simp: b64_char_def b64_digit_def Let_def)

lemma b64_padding [simp]: "b64_digit (CHR ''='') = None"
  by (simp add: b64_digit_def)

lemma map_filter_digits:
  "\<forall>n \<in> set ns. n < 64 \<Longrightarrow> List.map_filter b64_digit (map b64_char ns @ s) = ns @ List.map_filter b64_digit s"
  by (induction ns) (simp_all add: List.map_filter_def b64_digit_char)

text \<open>The six-bit digits of three bytes, and the bytes back from them.\<close>

lemma byte_digits:
  assumes "(x :: nat) < 256" "(y :: nat) < 256" "(z :: nat) < 256"
  shows "x div 4 < 64" "x mod 4 * 16 + y div 16 < 64" "y mod 16 * 4 + z div 64 < 64" "z mod 64 < 64"
    "x mod 4 * 16 < 64" "y mod 16 * 4 < 64"
    "x div 4 * 4 + (x mod 4 * 16 + y div 16) div 16 = x"
    "(x mod 4 * 16 + y div 16) mod 16 * 16 + (y mod 16 * 4 + z div 64) div 4 = y"
    "(y mod 16 * 4 + z div 64) mod 4 * 64 + z mod 64 = z"
    "x div 4 * 4 + x mod 4 * 16 div 16 = x"
    "(x mod 4 * 16 + y div 16) mod 16 * 16 + y mod 16 * 4 div 4 = y"
proof -
  have b: "y div 16 < 16" "z div 64 < 4" "x div 4 < 64" using assms by (simp_all add: less_mult_imp_div_less)
  have m: "x mod 4 < 4" "y mod 16 < 16" "z mod 64 < 64" by simp_all
  from b m show "x div 4 < 64" "x mod 4 * 16 + y div 16 < 64" "y mod 16 * 4 + z div 64 < 64" "z mod 64 < 64"
    "x mod 4 * 16 < 64" "y mod 16 * 4 < 64" by linarith+
  from b have d: "(x mod 4 * 16 + y div 16) div 16 = x mod 4" "(x mod 4 * 16 + y div 16) mod 16 = y div 16"
    "(y mod 16 * 4 + z div 64) div 4 = y mod 16" "(y mod 16 * 4 + z div 64) mod 4 = z div 64" by simp_all
  show "x div 4 * 4 + (x mod 4 * 16 + y div 16) div 16 = x"
    "(x mod 4 * 16 + y div 16) mod 16 * 16 + (y mod 16 * 4 + z div 64) div 4 = y"
    "(y mod 16 * 4 + z div 64) mod 4 * 64 + z mod 64 = z" "x div 4 * 4 + x mod 4 * 16 div 16 = x"
    "(x mod 4 * 16 + y div 16) mod 16 * 16 + y mod 16 * 4 div 4 = y" unfolding d by simp_all
qed

lemma b64_bytes_digits:
  "\<forall>b \<in> set bs. b < 256 \<Longrightarrow> b64_bytes (List.map_filter b64_digit (b64_digits bs)) = bs"
proof (induction bs rule: b64_digits.induct)
  case (1 x y z bs)
  then have "x < 256" "y < 256" "z < 256" by simp_all
  note d = byte_digits [OF this]
  show ?case
    unfolding b64_digits.simps by (subst map_filter_digits) (use d(1-4) 1 in \<open>auto simp: d(7-9)\<close>)
next
  case (2 x y)
  then have "x < 256" "y < 256" "(0 :: nat) < 256" by simp_all
  note d = byte_digits [OF this]
  have "y div 16 < 16" using \<open>y < 256\<close> by (simp add: less_mult_imp_div_less)
  then have "y div 16 div 16 = 0" "y div 16 mod 16 * 16 + y mod 16 = y" by simp_all
  then show ?case
    unfolding b64_digits.simps by (subst map_filter_digits) (use d(1,2,6) in \<open>auto simp: List.map_filter_def\<close>)
next
  case (3 x)
  then have "x < 256" "(0 :: nat) < 256" "(0 :: nat) < 256" by simp_all
  note d = byte_digits [OF this]
  show ?case
    unfolding b64_digits.simps by (subst map_filter_digits) (use d(1,5) in \<open>auto simp: d(10) List.map_filter_def\<close>)
qed (simp add: List.map_filter_def)

lemma b64_decode_encode [simp]: "b64_decode (b64_encode s) = s"
proof -
  have "b64_bytes (List.map_filter b64_digit (b64_digits (map of_char s))) = map of_char s"
    by (rule b64_bytes_digits) simp
  then show ?thesis by (simp add: b64_decode_def b64_encode_def o_def)
qed

lemma split_colon_pair: "CHR '':'' \<notin> set u \<Longrightarrow> split_colon (u @ CHR '':'' # p) = Some (u, p)"
  by (induction u) (auto simp: split_colon_def)

text \<open>C38: The password of the documentation: on its two addresses a client that sends a user name and a
  password is let through exactly when both are the configured ones, and one that sends none is
  refused; but the hook compares the whole address, so the same page with any query string
  is served to everybody.\<close>

theorem docs_password:
  assumes "de_production env" and "de_username env = Some user" "user \<noteq> []" and "de_password env = Some pass" "pass \<noteq> []"
    and "url \<in> set (docsPaths env)"
  shows "(CHR '':'' \<notin> set u \<longrightarrow>
      (docs_request env url (Some (''Basic '' @ b64_encode (u @ '':'' @ p))) = Pass \<longleftrightarrow> u = user \<and> p = pass)) \<and>
    docs_request env url None \<noteq> Pass \<and>
    docs_request env (url @ ''?'' @ query) None = Pass"
proof -
  have req: "docs_request env x h = docs_hook env user pass x h" for x h
    using assms(1-5) by (simp add: docs_request_def present_def split: list.split)
  have "docs_hook env user pass url (Some (''Basic '' @ b64_encode (u @ '':'' @ p))) = Pass \<longleftrightarrow> u = user \<and> p = pass"
    if "CHR '':'' \<notin> set u"
    using assms(6) split_colon_pair [OF that, of p] by (simp add: docs_hook_def present_def starts_with_def)
  moreover have "url @ ''?'' @ query \<notin> set (docsPaths env)"
  proof
    assume "url @ ''?'' @ query \<in> set (docsPaths env)"
    then have "''docs?'' @ query = ''docs-json'' \<or> ''docs-json?'' @ query = ''docs'' \<or> query @ ''x'' = query @ ''y''"
      using assms(6) by (auto simp: docsPaths_def)
    then show False by simp
  qed
  ultimately show ?thesis using assms(6) by (simp add: req docs_hook_def present_def)
qed

text \<open>Where the documentation is protected: \<open>mount\<close> is what the library makes of the path it is given, a
  leading slash where there is none. With the credentials set in production, the page asks for them
  exactly when the prefix is not set to the empty text, which start-up replaces and the
  documentation does not, nor to a text with a leading slash, which the hook doubles.\<close>

theorem documentation_protected:
  assumes "\<And>p. mount p = (if starts_with p ''/'' then p else ''/'' @ p)"
    and "setupSwagger get pkg = Some sw" and "get ''NODE_ENV'' = Some ''production''"
    and "present (get ''DOCS_USERNAME'') = Some user" and "present (get ''DOCS_PASSWORD'') = Some pass"
  shows "docs_request (docs_settings get) (mount (sw_path sw)) None \<noteq> Pass \<longleftrightarrow>
    (case get ''API_PREFIX'' of None \<Rightarrow> True | Some p \<Rightarrow> p \<noteq> [] \<and> \<not> starts_with p ''/'')"
proof -
  have path: "sw_path sw = (case get ''API_PREFIX'' of Some v \<Rightarrow> v | None \<Rightarrow> ''api/v1'') @ ''/docs''"
    using assms(2) by (auto simp: setupSwagger_def split: if_splits)
  have req: "docs_request (docs_settings get) x None \<noteq> Pass \<longleftrightarrow> x \<in> set (docsPaths (docs_settings get))" for x
    using assms(3-5) by (simp add: docs_request_def docs_settings_def docs_hook_def present_def)
  have prefix: "de_prefix (docs_settings get) = setting_or (present (get ''API_PREFIX'')) ''api/v1''"
    by (simp add: docs_settings_def bootstrap_config_def)
  show ?thesis
  proof (cases "get ''API_PREFIX''")
    case None
    then show ?thesis
      unfolding req by (simp add: path assms(1) docsPaths_def prefix setting_or_def present_def starts_with_def)
  next
    case (Some p)
    then show ?thesis
      unfolding req by (cases p) (auto simp: path assms(1) docsPaths_def prefix setting_or_def present_def starts_with_def)
  qed
qed

text \<open>The two allowlist guards agree: once the start-up check has accepted the setting, the guard on
  the parsed list admits a user exactly when the guard that reads the setting does, and every
  wallet it admits is a valid key.\<close>

theorem allowlists_agree:
  assumes "validateAdminWallets valid setting = Inr allowlist"
  shows "(allowlistGuard allowlist user = Inr () \<longleftrightarrow> adminWalletsGuard setting user = Inr ()) \<and>
    (\<forall>u. user = Some u \<and> allowlistGuard allowlist user = Inr () \<longrightarrow> valid (ru_wallet u))"
proof -
  from assms have l: "allowlist = allowlist_entries setting" "\<forall>e \<in> set allowlist. valid e"
    by (auto simp: validateAdminWallets_def filter_empty_conv split: list.splits)
  have a: "allowlistGuard allowlist (Some u) = Inr () \<longleftrightarrow> ru_wallet u \<noteq> [] \<and> ru_wallet u \<in> set allowlist" for u
    by (auto simp: allowlistGuard_def present_def split: list.split)
  have b: "adminWalletsGuard setting (Some u) = Inr () \<longleftrightarrow> ru_wallet u \<noteq> [] \<and> ru_wallet u \<in> set allowlist" for u
    by (simp add: adminWalletsGuard_def l(1) allowlist_entries_def or_else_def cong: option.case_cong)
  show ?thesis
  proof (cases user)
    case None
    then show ?thesis by (simp add: allowlistGuard_def adminWalletsGuard_def present_def)
  next
    case (Some u)
    with a b l(2) show ?thesis by auto
  qed
qed

definition demo_docs :: docs_env where
  "demo_docs = \<lparr>de_prefix = ''api/v1'', de_production = True, de_username = Some ''docs'', de_password = Some ''pw:1''\<rparr>"

theorem docs_password_witness:
  "docs_request demo_docs ''/api/v1/docs'' (Some (''Basic '' @ b64_encode ''docs:pw:1'')) = Pass \<and>
   docs_request demo_docs ''/api/v1/docs'' None \<noteq> Pass \<and> docs_request demo_docs ''/api/v1/docs?x=1'' None = Pass"
proof -
  have "''/api/v1/docs'' \<in> set (docsPaths demo_docs)" by (simp add: docsPaths_def demo_docs_def)
  from docs_password [OF _ _ _ _ _ this, of "''docs''" "''pw:1''" "''docs''" "''pw:1''" "''x=1''"] show ?thesis
    by (simp add: demo_docs_def)
qed

theorem documentation_protected_witness:
  "docs_request (docs_settings [''NODE_ENV'' \<mapsto> ''production'', ''DOCS_USERNAME'' \<mapsto> ''docs'', ''DOCS_PASSWORD'' \<mapsto> ''pw'', ''API_PREFIX'' \<mapsto> []])
     ''/docs'' None = Pass"
proof -
  let ?get = "[''NODE_ENV'' \<mapsto> ''production'', ''DOCS_USERNAME'' \<mapsto> ''docs'', ''DOCS_PASSWORD'' \<mapsto> ''pw'', ''API_PREFIX'' \<mapsto> []]"
  let ?mount = "\<lambda>p. if starts_with p ''/'' then p else ''/'' @ p"
  have "setupSwagger ?get None = Some \<lparr>sw_path = ''/docs'', sw_version = ''1.0''\<rparr>"
    by (simp add: setupSwagger_def readPackageVersion_def)
  from documentation_protected [of ?mount, OF refl this, of "''docs''" "''pw''"] show ?thesis
    by (simp add: present_def starts_with_def)
qed

theorem allowlists_agree_witness:
  "allowlistGuard [''GA'', ''GB''] (Some \<lparr>ru_wallet = ''GB'', ru_role = None\<rparr>) = Inr () \<longleftrightarrow>
   adminWalletsGuard (Some ''GA, GB,'') (Some \<lparr>ru_wallet = ''GB'', ru_role = None\<rparr>) = Inr ()"
proof -
  have "validateAdminWallets (\<lambda>w. hd w = CHR ''G'') (Some ''GA, GB,'') = Inr [''GA'', ''GB'']"
    by (simp add: validateAdminWallets_def allowlist_entries_def trim_def is_space_def)
  from allowlists_agree [OF this] show ?thesis by blast
qed

end
