(* ===== verification/Monitoring.thy ===== *)
theory Monitoring imports Health begin

text \<open>
  What operators see: the answers of the health controller, the metrics and the job that refreshes
  them (\<open>modules/metrics\<close>), the status of the indexer, the metadata file with its cache
  (\<open>modules/health/stellar-toml.controller.ts\<close>), the read-only contract call all clients share, the
  log with the lines of audited routes, and the keep-alive of the database.
\<close>

section \<open>The health controller\<close>

datatype health_answer = Healthy check_status | Unavailable check_status

definition health_check :: "health_env \<Rightarrow> horizon_client \<Rightarrow> health_answer \<times> horizon_client" where
  "health_check env hz =
     (let (r, hz') = check env hz in (if r \<noteq> CheckOk then Unavailable r else Healthy r, hz'))"

section \<open>Metrics\<close>

text \<open>The registered metrics: a counter and a histogram per method, status and path, and the gauges.\<close>

datatype metric_kind = Counter | Histogram "rat list" | Gauge

definition metricProviders :: "(string \<times> metric_kind \<times> string list) list" where
  "metricProviders =
     [(''http_requests_total'', Counter, [''method'', ''status'', ''path'']),
      (''http_request_duration_seconds'',
       Histogram [5 / 1000, 1 / 100, 25 / 1000, 5 / 100, 1 / 10, 25 / 100, 5 / 10, 1, 25 / 10, 5, 10], [''method'', ''status'', ''path'']),
      (''indexer_lag_ledgers'', Gauge, []), (''horizon_up'', Gauge, []), (''db_pool_open'', Gauge, []),
      (''state_reconciliation_drift'', Gauge, [''type''])]"

record metrics =
  mt_requests :: "string \<times> nat \<times> string \<Rightarrow> nat"
  mt_durations :: "string \<times> nat \<times> string \<Rightarrow> rat list"
  mt_lag :: int
  mt_horizon :: int
  mt_pool :: int
  mt_drift :: "string \<Rightarrow> int"

definition incrementHttpRequest :: "string \<Rightarrow> nat \<Rightarrow> string \<Rightarrow> metrics \<Rightarrow> metrics" where
  "incrementHttpRequest m s p x = x\<lparr>mt_requests := (mt_requests x)((m, s, p) := mt_requests x (m, s, p) + 1)\<rparr>"

definition observeHttpDuration :: "string \<Rightarrow> nat \<Rightarrow> string \<Rightarrow> rat \<Rightarrow> metrics \<Rightarrow> metrics" where
  "observeHttpDuration m s p t x = x\<lparr>mt_durations := (mt_durations x)((m, s, p) := mt_durations x (m, s, p) @ [t])\<rparr>"

text \<open>
  The interceptor of all routes: what it sees of a request (the pattern of its route, its address, its
  method, the status of its answer), and the times around the handler. A handler that throws is not counted.
\<close>

record metered =
  mr_method :: "string option"
  mr_route :: "string option"
  mr_url :: "string option"
  mr_status :: nat

definition metrics_labels :: "metered \<Rightarrow> string \<times> nat \<times> string" where
  "metrics_labels q =
     (case present (mr_method q) of Some m \<Rightarrow> m | None \<Rightarrow> ''UNKNOWN'',
      if mr_status q = 0 then 200 else mr_status q,
      case present (mr_route q) of Some p \<Rightarrow> p | None \<Rightarrow> (case present (mr_url q) of Some p \<Rightarrow> p | None \<Rightarrow> ''unknown''))"

definition metrics_intercept :: "metered \<Rightarrow> int \<times> int \<Rightarrow> bool \<Rightarrow> metrics \<Rightarrow> metrics" where
  "metrics_intercept q clock answered x =
     (if \<not> answered then x
      else case metrics_labels q of (m, s, p) \<Rightarrow>
             observeHttpDuration m s p (jdiv (of_int (snd clock - fst clock)) 1000) (incrementHttpRequest m s p x))"

definition setIndexerLag :: "int \<Rightarrow> metrics \<Rightarrow> metrics" where "setIndexerLag lag x = x\<lparr>mt_lag := lag\<rparr>"

definition setHorizonHealth :: "bool \<Rightarrow> metrics \<Rightarrow> metrics" where
  "setHorizonHealth up x = x\<lparr>mt_horizon := (if up then 1 else 0)\<rparr>"

definition setDbPoolOpen :: "int \<Rightarrow> metrics \<Rightarrow> metrics" where "setDbPoolOpen n x = x\<lparr>mt_pool := n\<rparr>"

definition setReconciliationDrift :: "string \<Rightarrow> int \<Rightarrow> metrics \<Rightarrow> metrics" where
  "setReconciliationDrift t n x = x\<lparr>mt_drift := (mt_drift x)(t := n)\<rparr>"

text \<open>
  What the refresh sees: the cursor, two answers of Horizon (\<open>None\<close> when the request throws; else
  whether it is ok, and the latest ledger its body gives, when it parses), and the pool: whether
  \<open>DATABASE_URL\<close> is set, and the count of the query (\<open>None\<close> when it throws).
\<close>

record updater_env =
  up_cursor :: "int option"
  up_root :: "(bool \<times> int option) option"
  up_alive :: "bool option"
  up_database_url :: "string option"
  up_pool :: "int option option"

definition updateIndexerLag :: "updater_env \<Rightarrow> metrics \<Rightarrow> metrics" where
  "updateIndexerLag env x =
     (case up_root env of
        Some (True, Some latest) \<Rightarrow> setIndexerLag (indexer_lag_gauge (up_cursor env) latest) x
      | _ \<Rightarrow> x)"

definition updateHorizonHealth :: "updater_env \<Rightarrow> metrics \<Rightarrow> metrics" where
  "updateHorizonHealth env x = (case up_alive env of Some ok \<Rightarrow> setHorizonHealth ok x | None \<Rightarrow> setHorizonHealth False x)"

definition updateDbPool :: "updater_env \<Rightarrow> metrics \<Rightarrow> metrics" where
  "updateDbPool env x =
     (if present (up_database_url env) = None then setDbPoolOpen 0 x
      else case up_pool env of
             None \<Rightarrow> setDbPoolOpen (- 1) x
           | Some n \<Rightarrow> setDbPoolOpen (case n of Some k \<Rightarrow> k | None \<Rightarrow> 0) x)"

text \<open>The three run at the same time on different gauges.\<close>

definition updateMetrics :: "updater_env \<Rightarrow> metrics \<Rightarrow> metrics" where
  "updateMetrics env x = updateDbPool env (updateHorizonHealth env (updateIndexerLag env x))"

section \<open>The status of the indexer\<close>

record indexer_row =
  ix_contract :: string
  ix_ledger :: int
  ix_updated :: int

record indexer_status =
  is_ok :: bool
  is_data :: "indexer_row list"
  is_error :: "string option"

definition getStatus :: "faults \<Rightarrow> indexer_row list \<Rightarrow> indexer_status" where
  "getStatus flt rows =
     (case flt ''indexer_state.list'' of
        Some e \<Rightarrow> \<lparr>is_ok = False, is_data = [], is_error = present (Some (err_message e))\<rparr>
      | None \<Rightarrow> \<lparr>is_ok = True, is_data = sort_key (\<lambda>r. - ix_updated r) rows, is_error = None\<rparr>)"

section \<open>The metadata file\<close>

record toml_settings =
  ts_name :: "string option"
  ts_url :: "string option"
  ts_github :: "string option"
  ts_credit :: "string option"
  ts_pool :: "string option"
  ts_reputation :: "string option"
  ts_vendors :: "string option"

record toml_cache =
  tc_text :: "string option"
  tc_expiry :: int

definition toml_ttl :: int where "toml_ttl = 60 * 60 * 1000"

definition setting :: "string option \<Rightarrow> string \<Rightarrow> string" where
  "setting v d = (case present v of Some s \<Rightarrow> s | None \<Rightarrow> d)"

definition quoted :: "string \<Rightarrow> string \<Rightarrow> string" where
  "quoted k v = k @ [char_of (34 :: nat)] @ v @ [char_of (34 :: nat)]"

definition contract_lines :: "string option \<Rightarrow> string \<Rightarrow> string list" where
  "contract_lines i name = [''['' @ ''[CONTRACTS'' @ '']'' @ '']'', quoted ''id = '' (setting i []), quoted ''name = '' name, []]"

definition toml_lines :: "toml_settings \<Rightarrow> string list" where
  "toml_lines s =
     [''# StepFi'', quoted ''ORG_NAME='' (setting (ts_name s) ''StepFi''),
      quoted ''ORG_URL='' (setting (ts_url s) ''https://stepfi.com''),
      quoted ''ORG_GITHUB='' (setting (ts_github s) ''https://github.com/StepFi''), []] @
     contract_lines (ts_credit s) ''Credit Line'' @ contract_lines (ts_pool s) ''Liquidity Pool'' @
     contract_lines (ts_reputation s) ''Reputation'' @ contract_lines (ts_vendors s) ''Vendor Registry''"

fun join_lines :: "string list \<Rightarrow> string" where
  "join_lines [] = []"
| "join_lines [l] = l"
| "join_lines (l # ls) = l @ char_of (10 :: nat) # join_lines ls"

definition getStellarToml :: "int \<Rightarrow> toml_settings \<Rightarrow> toml_cache \<Rightarrow> string \<times> toml_cache" where
  "getStellarToml now s c =
     (case (present (tc_text c), now < tc_expiry c) of
        (Some t, True) \<Rightarrow> (t, c)
      | _ \<Rightarrow> let t = join_lines (toml_lines s) in (t, \<lparr>tc_text = Some t, tc_expiry = now + toml_ttl\<rparr>))"

section \<open>Read-only contract calls\<close>

text \<open>
  The settings of the RPC client, and the call of a simulation: one operation of a throwaway account, whose
  fee is never paid.
\<close>

record soroban_settings =
  ss_url :: string
  ss_passphrase :: string

definition soroban_service :: "(string \<Rightarrow> string option) \<Rightarrow> string \<Rightarrow> soroban_settings" where
  "soroban_service get testnet =
     \<lparr>ss_url = setting (get ''STELLAR_SOROBAN_URL'') ''https://soroban-testnet.stellar.org'',
      ss_passphrase = setting (get ''STELLAR_NETWORK_PASSPHRASE'') testnet\<rparr>"

record 'a simulated_call =
  sm_source :: string
  sm_sequence :: nat
  sm_fee :: nat
  sm_passphrase :: string
  sm_timeout :: nat
  sm_contract :: string
  sm_function :: string
  sm_args :: "'a list"

definition simulated_call :: "soroban_settings \<Rightarrow> string \<Rightarrow> string \<Rightarrow> string \<Rightarrow> 'a list \<Rightarrow> 'a simulated_call" where
  "simulated_call ss source contract f args =
     \<lparr>sm_source = source, sm_sequence = 0, sm_fee = 100, sm_passphrase = ss_passphrase ss, sm_timeout = 30, sm_contract = contract,
      sm_function = f, sm_args = args\<rparr>"

text \<open>What the simulation of a call gives: an error, perhaps with a text, or a success, perhaps with a value.\<close>

datatype 'v simulation = SimulationError "string option" | SimulationSuccess "'v option"

definition simulation_result :: "'v simulation \<Rightarrow> 'v result" where
  "simulation_result sim =
     (case sim of
        SimulationError e \<Rightarrow> Inl (JsError (''Soroban simulation failed: '' @ setting e ''Unknown simulation error''))
      | SimulationSuccess None \<Rightarrow> Inl (JsError ''Soroban simulation returned no result'')
      | SimulationSuccess (Some v) \<Rightarrow> Inr v)"

text \<open>\<open>node\<close> is the RPC: a request may also fail with an error of its own.\<close>

definition simulateContractCall ::
  "('a simulated_call \<Rightarrow> 'v simulation result) \<Rightarrow> soroban_settings \<Rightarrow> string \<Rightarrow> string \<Rightarrow> string \<Rightarrow> 'a list \<Rightarrow> 'v result" where
  "simulateContractCall node ss source contract f args =
     andThen (node (simulated_call ss source contract f args)) simulation_result"

text \<open>The value of a simulation is passed on; everything else is an exception.\<close>

lemma simulateContractCall_Inr:
  "simulateContractCall node ss source contract f args = Inr v \<longleftrightarrow>
     node (simulated_call ss source contract f args) = Inr (SimulationSuccess (Some v))"
  by (auto simp: simulateContractCall_def simulation_result_def andThen_def split: sum.splits simulation.splits option.splits)

section \<open>Log lines\<close>

text \<open>
  The id of a request that ties its lines together: the first of two headers that is given, or a fresh
  one; and the settings of the logger. The request for the metrics is not logged.
\<close>

definition correlation_id :: "(string \<rightharpoonup> string) \<Rightarrow> string \<Rightarrow> string" where
  "correlation_id headers uuid = setting (headers ''x-correlation-id'') (setting (headers ''x-request-id'') uuid)"

definition logged_id :: "string option \<Rightarrow> string option \<Rightarrow> string \<Rightarrow> string" where
  "logged_id attached request_id uuid = setting attached (setting request_id uuid)"

record logger_settings =
  lg_level :: string
  lg_redacted :: "string list"
  lg_pretty :: bool

definition logger_settings :: "(string \<Rightarrow> string option) \<Rightarrow> logger_settings" where
  "logger_settings get =
     \<lparr>lg_level = setting (get ''LOG_LEVEL'') (if get ''NODE_ENV'' = Some ''production'' then ''info'' else ''trace''),
      lg_redacted =
        [''req.headers.authorization'', ''req.headers.cookie'', ''req.headers['' @ quoted [] ''x-api-key'' @ '']'',
         ''req.headers['' @ quoted [] ''set-cookie'' @ '']'', ''body.password'', ''body.secret'', ''body.token'', ''body.refreshToken''],
      lg_pretty = (get ''NODE_ENV'' \<noteq> Some ''production'' \<and> get ''LOG_PRETTY'' \<noteq> Some ''false'')\<rparr>"

definition auto_logged :: "string option \<Rightarrow> bool" where "auto_logged url \<longleftrightarrow> url \<noteq> Some ''/metrics''"

text \<open>The id the lines carry is the one the middleware attached.\<close>

lemma logged_id_attached: "uuid \<noteq> [] \<Longrightarrow> logged_id (Some (correlation_id headers uuid)) rid uuid' = correlation_id headers uuid"
  by (auto simp: logged_id_def correlation_id_def setting_def present_def split: option.splits list.splits)

text \<open>The metadata of a route: the text \<open>AuditAction\<close> makes, or an object with two optional parts.\<close>

datatype audit_meta = ActionName string | ActionParts "string option" "string option"

definition AuditAction :: "string \<Rightarrow> string option \<Rightarrow> audit_meta" where
  "AuditAction what name = ActionName (case present name of Some n \<Rightarrow> what @ ''.'' @ n | None \<Rightarrow> what)"

definition action_text :: "audit_meta \<Rightarrow> string" where
  "action_text m =
     (case m of ActionName a \<Rightarrow> a
      | ActionParts r a \<Rightarrow> (case r of Some s \<Rightarrow> s | None \<Rightarrow> []) @ ''.'' @ (case a of Some s \<Rightarrow> s | None \<Rightarrow> []))"

record audit_line =
  al_event :: string
  al_action :: string
  al_actor :: string
  al_params :: "(string \<rightharpoonup> string) option"
  al_target :: "string option"
  al_time :: int

text \<open>
  \<open>answered\<close> tells whether the handler gave an answer, at the second of the two times; the parameter
  \<open>id\<close> of the route is the target.
\<close>

definition intercept ::
  "audit_meta option \<Rightarrow> string option \<Rightarrow> (string \<rightharpoonup> string) option \<Rightarrow> int \<times> int \<Rightarrow> bool \<Rightarrow> audit_line list" where
  "intercept meta wallet params clock answered =
     (case meta of
        None \<Rightarrow> []
      | Some m \<Rightarrow>
          if m = ActionName [] then []
          else
            let actor = (case wallet of Some w \<Rightarrow> w | None \<Rightarrow> ''anonymous'')
            in \<lparr>al_event = ''AUDIT_ACTION_INITIATED'', al_action = action_text m, al_actor = actor, al_params = params,
                al_target = None, al_time = fst clock\<rparr> #
               (if answered
                then [\<lparr>al_event = ''AUDIT_ACTION_SUCCESS'', al_action = action_text m, al_actor = actor, al_params = None,
                       al_target = Option.bind params (\<lambda>p. p ''id''), al_time = snd clock\<rparr>]
                else []))"

text \<open>A success is logged exactly for an answer, after the line of the attempt by the same actor.\<close>

lemma intercept_lines:
  "meta = Some m \<Longrightarrow> m \<noteq> ActionName [] \<Longrightarrow>
     map al_event (intercept meta wallet params clock answered) =
       ''AUDIT_ACTION_INITIATED'' # (if answered then [''AUDIT_ACTION_SUCCESS''] else []) \<and>
     (\<forall>l \<in> set (intercept meta wallet params clock answered). al_actor l = (case wallet of Some w \<Rightarrow> w | None \<Rightarrow> ''anonymous''))"
  by (simp add: intercept_def Let_def)

text \<open>The keep-alive reads one row of \<open>users\<close> every three days and logs how it went.\<close>

definition THREE_DAYS :: int where "THREE_DAYS = 3 * 24 * 60 * 60 * 1000"

definition ping :: "faults \<Rightarrow> string" where
  "ping faults = (if faults ''keepalive'' = None then ''Supabase keep-alive ping successful'' else ''Keep-alive ping failed'')"

section \<open>Properties\<close>

text \<open>The gauges stay in range: whatever Horizon and the database answer and however often the refresh
  runs, the lag is never negative, the Horizon gauge is zero or one and the pool gauge is at least
  minus one, as long as the counts of the database are not negative.\<close>

definition gauges_ok :: "metrics \<Rightarrow> bool" where
  "gauges_ok x \<longleftrightarrow> 0 \<le> mt_lag x \<and> mt_horizon x \<in> {0, 1} \<and> -1 \<le> mt_pool x"

lemma refresh_keeps_gauges:
  assumes "gauges_ok x" and "\<And>n. up_pool env = Some (Some n) \<Longrightarrow> 0 \<le> n"
  shows "gauges_ok (updateMetrics env x)"
  using assms by (auto simp: gauges_ok_def updateMetrics_def updateIndexerLag_def updateHorizonHealth_def updateDbPool_def
      setIndexerLag_def setHorizonHealth_def setDbPoolOpen_def indexer_lag_gauge_def split: option.split bool.split)

text \<open>The counter and the histogram agree, and count the requests that were answered; those that end in an
  exception, by a guard, a validation or the handler, are in neither.\<close>

definition metered_well :: "metrics \<Rightarrow> bool" where
  "metered_well x \<longleftrightarrow> (\<forall>l. length (mt_durations x l) = mt_requests x l)"

lemma requests_metered:
  assumes "metered_well x"
  shows "metered_well (fold (\<lambda>(q, clock, answered). metrics_intercept q clock answered) reqs x) \<and>
    mt_requests (fold (\<lambda>(q, clock, answered). metrics_intercept q clock answered) reqs x) l =
      mt_requests x l + length (filter (\<lambda>(q, clock, answered). answered \<and> metrics_labels q = l) reqs)"
  using assms
proof (induction reqs arbitrary: x)
  case (Cons r reqs)
  obtain q clock answered where r: "r = (q, clock, answered)" by (cases r) auto
  have "metered_well (metrics_intercept q clock answered x)"
    using Cons.prems
    by (cases "metrics_labels q") (simp add: metered_well_def metrics_intercept_def observeHttpDuration_def incrementHttpRequest_def)
  moreover have "mt_requests (metrics_intercept q clock answered x) l =
      mt_requests x l + (if answered \<and> metrics_labels q = l then 1 else 0)"
    by (auto simp: metrics_intercept_def observeHttpDuration_def incrementHttpRequest_def split: prod.split)
  ultimately show ?case using Cons.IH [of "metrics_intercept q clock answered x"] by (simp add: r)
qed simp

text \<open>The metadata file is always that of the settings, which do not change while the process runs.\<close>

definition toml_ok :: "toml_settings \<Rightarrow> toml_cache \<Rightarrow> bool" where
  "toml_ok s c \<longleftrightarrow> (\<forall>t. tc_text c = Some t \<longrightarrow> t = join_lines (toml_lines s))"

lemma toml_served:
  assumes "toml_ok s c"
  shows "fst (getStellarToml now s c) = join_lines (toml_lines s) \<and> toml_ok s (snd (getStellarToml now s c))"
  using assms by (auto simp: getStellarToml_def toml_ok_def present_Some Let_def split: option.split bool.split)

end
