(* ===== verification/Routes.thy ===== *)
theory Routes imports Platform Access Setup Monitoring begin

text \<open>
  The routes of the HTTP interface: every method of every controller with its verb, its path, the
  limit of the global throttler, its guards, and how it reads its arguments from the path, the query and
  the body. The framework takes the first route whose path fits.
\<close>

section \<open>Requests\<close>

datatype verb = GET | POST | PATCH | DELETE

text \<open>
  The body is missing, has been parsed, or has a type no parser is registered for. The path is in
  segments, decoded; a query parameter that is repeated is an array.
\<close>

datatype content = NoContent | Content json | OtherContent

record raw_request = http_origin +
  rw_verb :: verb
  rw_path :: "string list"
  rw_query :: "(string \<times> json) list"
  rw_content :: content

text \<open>What validation starts from: a missing body is an empty object.\<close>

definition body_of :: "'a raw_request_scheme \<Rightarrow> json" where
  "body_of q = (case rw_content q of Content JNull \<Rightarrow> JObj [] | Content j \<Rightarrow> j | _ \<Rightarrow> JObj [])"

definition query_of :: "'a raw_request_scheme \<Rightarrow> json" where
  "query_of q = JObj (rw_query q)"

text \<open>A single field of the body (\<open>@Body('xdr')\<close>), when it is a text; other values are refused like a missing one.\<close>

definition body_text :: "'a raw_request_scheme \<Rightarrow> string \<Rightarrow> string option" where
  "body_text q k = (case body_of q of JObj kvs \<Rightarrow> text_of kvs k | _ \<Rightarrow> None)"

text \<open>A query parameter without a pipe: the text, for an array its texts joined by commas.\<close>

fun join_comma :: "string list \<Rightarrow> string" where
  "join_comma [] = []"
| "join_comma [s] = s"
| "join_comma (s # ss) = s @ '','' @ join_comma ss"

definition query_text :: "'a raw_request_scheme \<Rightarrow> string \<Rightarrow> string option" where
  "query_text q k =
     (case map_of (rw_query q) k of
        Some (JStr s) \<Rightarrow> Some s
      | Some (JArr vs) \<Rightarrow> Some (join_comma (map (\<lambda>v. case v of JStr s \<Rightarrow> s | _ \<Rightarrow> []) vs))
      | _ \<Rightarrow> None)"

text \<open>
  \<open>new DefaultValuePipe(d), ParseIntPipe\<close>: digits after an optional minus, and finite as a double.
\<close>

definition is_numeric :: "string \<Rightarrow> bool" where
  "is_numeric s = (let ds = (if starts_with s ''-'' then tl s else s) in ds \<noteq> [] \<and> list_all is_digit ds)"

definition int_param :: "'a raw_request_scheme \<Rightarrow> string \<Rightarrow> int \<Rightarrow> int result" where
  "int_param q k d =
     (case map_of (rw_query q) k of
        None \<Rightarrow> Inr d
      | Some (JStr s) \<Rightarrow>
          (let n = (if starts_with s ''-'' then - digits_value (tl s) else digits_value s)
           in if is_numeric s \<and> \<bar>n\<bar> < 2 ^ 1024 then Inr \<lfloor>fl (of_int n) :: num\<rfloor>
              else Inl (bad_request ''Validation failed (numeric string is expected)''))
      | Some _ \<Rightarrow> Inl (bad_request ''Validation failed (numeric string is expected)''))"

section \<open>Paths\<close>

datatype seg = Lit string | Par string

type_synonym params = "(string \<times> string) list"

fun match_path :: "seg list \<Rightarrow> string list \<Rightarrow> params option" where
  "match_path [] [] = Some []"
| "match_path (Lit l # ps) (s # ss) = (if l = s then match_path ps ss else None)"
| "match_path (Par k # ps) (s # ss) = map_option (Cons (k, s)) (match_path ps ss)"
| "match_path _ _ = None"

definition param :: "params \<Rightarrow> string \<Rightarrow> string" where
  "param ps k = (case map_of ps k of Some v \<Rightarrow> v | None \<Rightarrow> [])"

section \<open>What the handlers work with\<close>

text \<open>
  The environments of the calls a request may make, with the checks of class-validator, the global
  throttler (whether it refuses a key under a limit), and \<open>Date.parse\<close>.
\<close>

record server =
  sv_config :: server_config
  sv_rules :: rules
  sv_throttled :: "string \<Rightarrow> nat \<Rightarrow> bool"
  sv_date :: "string \<Rightarrow> int option"
  sv_now :: int
  sv_faults :: faults
  sv_http :: http_env
  sv_loans :: loans_env
  sv_relay :: relay_env
  sv_vendors :: vendors_env
  sv_keys :: key_env
  sv_users :: user_env
  sv_learners :: learners_env
  sv_rep :: rep_env
  sv_sponsors :: sponsors_env
  sv_pool :: pool_env
  sv_liquidity :: liquidity_env
  sv_vouch :: vouch_env
  sv_tx :: tx_env
  sv_audit :: audit_env
  sv_auth :: auth_env
  sv_session :: session_env
  sv_avatar :: avatar_env
  sv_health :: health_env
  sv_toml :: toml_settings

text \<open>What the informational routes keep: the Horizon client and the cached metadata file.\<close>

record info =
  in_horizon :: horizon_client
  in_toml :: toml_cache

text \<open>
  Three kinds of routes: those of \<open>Api\<close>, with the guards and the reading of the call; those of \<open>/auth\<close>,
  with the presence of the throttler of wallets; and the informational ones.
\<close>

datatype action =
    Calls "guard list" "server \<Rightarrow> raw_request \<Rightarrow> params \<Rightarrow> api_call result"
  | Signs bool "server \<Rightarrow> raw_request \<Rightarrow> auth_call result"
  | Informs "server \<Rightarrow> info \<Rightarrow> exn option \<times> info"

record route =
  rt_verb :: verb
  rt_path :: "seg list"
  rt_prefixed :: bool
  rt_name :: string
  rt_limit :: nat
  rt_action :: action

text \<open>The default of \<open>ThrottlerModule\<close>: 100 requests a minute.\<close>

definition api_route :: "verb \<Rightarrow> seg list \<Rightarrow> string \<Rightarrow> guard list \<Rightarrow> (server \<Rightarrow> raw_request \<Rightarrow> params \<Rightarrow> api_call result) \<Rightarrow> route" where
  "api_route v p n gs f =
     \<lparr>rt_verb = v, rt_path = p, rt_prefixed = True, rt_name = n, rt_limit = 100, rt_action = Calls gs f\<rparr>"

section \<open>The controllers\<close>

text \<open>Reading a body or a query into a call.\<close>

abbreviation reads :: "('a \<Rightarrow> api_call) \<Rightarrow> 'a result \<Rightarrow> api_call result" where "reads \<equiv> map_sum id"

definition loans_routes :: "route list" where
  "loans_routes =
     [api_route POST [Lit ''loans'', Lit ''quote''] ''LoansController-getLoanQuote'' [JwtAuth]
        (\<lambda>s q ps. reads (\<lambda>d. LoansRoute (QuoteLoan (sv_loans s) d)) (LoanQuoteRequestDto (sv_rules s) (body_of q))),
      api_route GET [Lit ''loans'', Lit ''stats''] ''LoansController-getStats'' []
        (\<lambda>s q ps. Inr (LoansRoute (LoanStats (sv_loans s)))),
      api_route GET [Lit ''loans'', Lit ''my-loans''] ''LoansController-getMyLoans'' [JwtAuth]
        (\<lambda>s q ps. reads (\<lambda>d. LoansRoute (MyLoans (sv_loans s) d)) (LoanListQueryDto (sv_rules s) (query_of q))),
      api_route GET [Lit ''loans'', Lit ''available-credit''] ''LoansController-getAvailableCredit'' [JwtAuth]
        (\<lambda>s q ps. Inr (LoansRoute (MyCredit (sv_loans s)))),
      api_route POST [Lit ''loans'', Lit ''create''] ''LoansController-createLoan'' [JwtAuth]
        (\<lambda>s q ps. reads (\<lambda>d. LoansRoute (CreateLoan (sv_loans s) d)) (CreateLoanRequestDto (sv_rules s) (body_of q))),
      api_route POST [Lit ''loans'', Par ''loanId'', Lit ''pay''] ''LoansController-repayLoan'' [JwtAuth]
        (\<lambda>s q ps. reads (\<lambda>x. LoansRoute (PayLoan (sv_loans s) (param ps ''loanId'') x))
                    (LoanPaymentRequestDto (sv_rules s) (body_of q)))]"

text \<open>The transaction of a repayment is taken from the body without validation.\<close>

definition repayment_routes :: "route list" where
  "repayment_routes =
     [api_route POST [Lit ''loans'', Par ''loanId'', Lit ''repay''] ''LoansController-submitRepayment'' [JwtAuth]
        (\<lambda>s q ps. case body_text q ''xdr'' of
            Some xdr \<Rightarrow> Inr (LoansRoute (RepayLoan (sv_relay s) (param ps ''loanId'') xdr))
          | None \<Rightarrow> Inl (bad_request ''TRANSACTION_INVALID_XDR'')),
      api_route POST [Lit ''loans'', Par ''loanId'', Lit ''assess''] ''LoansController-assessLoan'' [JwtAuth]
        (\<lambda>s q ps. Inr (LoansRoute (AssessLoan (sv_loans s) (param ps ''loanId''))))]"

abbreviation vendor_only :: "guard list" where "vendor_only \<equiv> [JwtAuth, HasRole [''vendor'']]"

definition vendors_routes :: "route list" where
  "vendors_routes =
     [api_route GET [Lit ''vendors''] ''VendorsController-list'' []
        (\<lambda>s q ps. Inr (VendorsRoute (ListVendors (sv_vendors s) (query_text q ''type'')))),
      api_route POST [Lit ''vendors''] ''VendorsController-register'' vendor_only
        (\<lambda>s q ps. reads (\<lambda>d. VendorsRoute (AddVendor (sv_vendors s) d)) (RegisterVendorDto (sv_rules s) (body_of q))),
      api_route GET [Lit ''vendors'', Lit ''dashboard''] ''VendorsController-getDashboard'' vendor_only
        (\<lambda>s q ps. Inr (VendorsRoute (VendorDashboard (sv_vendors s)))),
      api_route GET [Lit ''vendors'', Lit ''loans''] ''VendorsController-getLoans'' vendor_only
        (\<lambda>s q ps. andThen (int_param q ''page'' 1) (\<lambda>page. reads (\<lambda>limit.
            VendorsRoute (VendorLoans (sv_vendors s) page limit (query_text q ''sort'') (query_text q ''order''))) (int_param q ''limit'' 10))),
      api_route GET [Lit ''vendors'', Lit ''payments''] ''VendorsController-getPayments'' vendor_only
        (\<lambda>s q ps. andThen (int_param q ''page'' 1) (\<lambda>page. reads (\<lambda>limit.
            VendorsRoute (VendorPayments (sv_vendors s) page limit)) (int_param q ''limit'' 10))),
      api_route GET [Lit ''vendors'', Lit ''products''] ''VendorsController-getProducts'' vendor_only
        (\<lambda>s q ps. Inr (VendorsRoute (ListProducts (sv_vendors s)))),
      api_route POST [Lit ''vendors'', Lit ''products''] ''VendorsController-createProduct'' vendor_only
        (\<lambda>s q ps. reads (\<lambda>d. VendorsRoute (AddProduct (sv_vendors s) d)) (CreateVendorProductDto (sv_rules s) (body_of q))),
      api_route PATCH [Lit ''vendors'', Lit ''products'', Par ''id''] ''VendorsController-updateProduct'' vendor_only
        (\<lambda>s q ps. reads (\<lambda>d. VendorsRoute (ChangeProduct (sv_vendors s) (param ps ''id'') d))
                    (UpdateVendorProductDto (sv_rules s) (body_of q))),
      api_route DELETE [Lit ''vendors'', Lit ''products'', Par ''id''] ''VendorsController-deleteProduct'' vendor_only
        (\<lambda>s q ps. Inr (VendorsRoute (RemoveProduct (sv_vendors s) (param ps ''id''))))]"

definition api_key_routes :: "route list" where
  "api_key_routes =
     [api_route POST [Lit ''vendors'', Lit ''api-keys''] ''VendorsController-createApiKey'' vendor_only
        (\<lambda>s q ps. reads (\<lambda>d. VendorsRoute (AddKey (sv_keys s) d)) (CreateApiKeyDto (sv_rules s) (sv_date s) (body_of q))),
      api_route GET [Lit ''vendors'', Lit ''api-keys''] ''VendorsController-listApiKeys'' vendor_only
        (\<lambda>s q ps. Inr (VendorsRoute (ListKeys (sv_keys s)))),
      api_route DELETE [Lit ''vendors'', Lit ''api-keys'', Par ''id''] ''VendorsController-revokeApiKey'' vendor_only
        (\<lambda>s q ps. Inr (VendorsRoute (RevokeKey (sv_keys s) (param ps ''id''))))]"

definition vendor_admin_routes :: "route list" where
  "vendor_admin_routes =
     [api_route GET [Lit ''vendors'', Par ''id''] ''VendorsController-getById'' []
        (\<lambda>s q ps. Inr (VendorsRoute (GetVendor (sv_vendors s) (param ps ''id'')))),
      api_route POST [Lit ''vendors'', Par ''id'', Lit ''approve''] ''VendorsController-approveVendor'' [JwtAuth, AdminWallet]
        (\<lambda>s q ps. Inr (VendorsRoute (ApproveVendor (sv_vendors s) (param ps ''id'')))),
      api_route POST [Lit ''vendors'', Par ''id'', Lit ''suspend''] ''VendorsController-suspendVendor'' [JwtAuth, AdminWallet]
        (\<lambda>s q ps. Inr (VendorsRoute (SuspendVendor (sv_vendors s) (param ps ''id''))))]"

definition users_routes :: "route list" where
  "users_routes =
     [api_route GET [Lit ''users'', Lit ''me''] ''UsersController-getMe'' [JwtAuth]
        (\<lambda>s q ps. Inr (UsersRoute (GetMe (sv_users s)))),
      api_route PATCH [Lit ''users'', Lit ''me''] ''UsersController-updateProfile'' [JwtAuth]
        (\<lambda>s q ps. reads (\<lambda>d. UsersRoute (UpdateMe (sv_users s) d)) (UpdateUserDto (sv_rules s) (body_of q))),
      api_route PATCH [Lit ''users'', Lit ''me'', Lit ''role''] ''UsersController-setRole'' [JwtAuth]
        (\<lambda>s q ps. reads (\<lambda>r. UsersRoute (ChooseRole (sv_users s) r)) (SetRoleDto (body_of q)))]"

definition learners_routes :: "route list" where
  "learners_routes =
     [api_route GET [Lit ''learners'', Lit ''profile''] ''LearnersController-getProfile'' [JwtAuth]
        (\<lambda>s q ps. Inr (LearnersRoute (MyProfile (sv_learners s)))),
      api_route PATCH [Lit ''learners'', Lit ''profile''] ''LearnersController-updateProfile'' [JwtAuth]
        (\<lambda>s q ps. reads (\<lambda>d. LearnersRoute (UpdateProfile (sv_learners s) d)) (UpdateLearnerProfileDto (sv_rules s) (body_of q))),
      api_route GET [Lit ''learners'', Lit ''profile'', Lit ''completion''] ''LearnersController-getCompletionStatus'' [JwtAuth]
        (\<lambda>s q ps. Inr (LearnersRoute (Completion (sv_learners s))))]"

definition notifications_routes :: "route list" where
  "notifications_routes =
     [api_route GET [Lit ''notifications''] ''NotificationsController-getNotifications'' [JwtAuth]
        (\<lambda>s q ps. reads (\<lambda>d. NotesRoute (ListNotes (sv_faults s) d)) (NotificationListQueryDto (sv_rules s) (query_of q))),
      api_route PATCH [Lit ''notifications'', Lit ''read-all''] ''NotificationsController-markAllAsRead'' [JwtAuth]
        (\<lambda>s q ps. Inr (NotesRoute (ReadAllNotes (sv_faults s) (sv_now s)))),
      api_route PATCH [Lit ''notifications'', Par ''id'', Lit ''read''] ''NotificationsController-markAsRead'' [JwtAuth]
        (\<lambda>s q ps. Inr (NotesRoute (ReadNote (sv_faults s) (sv_now s) (param ps ''id''))))]"

definition reputation_routes :: "route list" where
  "reputation_routes =
     [api_route GET [Lit ''reputation'', Lit ''me''] ''ReputationController-getMyScore'' [JwtAuth]
        (\<lambda>s q ps. Inr (ScoreRoute (MyScore (sv_rep s)))),
      api_route GET [Lit ''reputation'', Par ''wallet''] ''ReputationController-getScore'' []
        (\<lambda>s q ps. Inr (ScoreRoute (ScoreOf (sv_rep s) (param ps ''wallet''))))]"

definition sponsors_routes :: "route list" where
  "sponsors_routes =
     [api_route POST [Lit ''sponsors'', Lit ''register''] ''SponsorsController-register'' [JwtAuth]
        (\<lambda>s q ps. reads (\<lambda>d. SponsorsRoute (AddSponsor (sv_sponsors s) d)) (CreateSponsorDto (sv_rules s) (body_of q))),
      api_route POST [Lit ''sponsors'', Lit ''deposit''] ''SponsorsController-deposit'' [JwtAuth]
        (\<lambda>s q ps. reads (\<lambda>x. SponsorsRoute (SponsorDeposit (sv_sponsors s) x)) (SponsorDepositDto (sv_rules s) (body_of q))),
      api_route GET [Lit ''sponsors'', Lit ''me''] ''SponsorsController-getMe'' [JwtAuth]
        (\<lambda>s q ps. Inr (SponsorsRoute (MyPool (sv_sponsors s)))),
      api_route GET [Lit ''sponsors'', Lit ''stats''] ''SponsorsController-getStats'' []
        (\<lambda>s q ps. Inr (SponsorsRoute (SponsorStats (sv_sponsors s))))]"

abbreviation sponsor_only :: "guard list" where "sponsor_only \<equiv> [JwtAuth, HasRole [''sponsor'']]"

definition liquidity_routes :: "route list" where
  "liquidity_routes =
     [(api_route GET [Lit ''liquidity'', Lit ''overview''] ''LiquidityController-getPoolOverview'' []
        (\<lambda>s q ps. Inr (PoolRoute (PoolOverview (sv_liquidity s)))))\<lparr>rt_limit := 20\<rparr>,
      api_route GET [Lit ''liquidity'', Lit ''my-summary''] ''LiquidityController-getMyInvestmentSummary'' [JwtAuth]
        (\<lambda>s q ps. Inr (PoolRoute (MySummary (sv_liquidity s)))),
      api_route POST [Lit ''liquidity'', Lit ''deposit''] ''LiquidityController-depositLiquidity'' sponsor_only
        (\<lambda>s q ps. reads (\<lambda>x. PoolRoute (DepositPool (sv_pool s) x)) (LiquidityDepositRequestDto (sv_rules s) (body_of q))),
      api_route POST [Lit ''liquidity'', Lit ''withdraw''] ''LiquidityController-withdrawLiquidity'' sponsor_only
        (\<lambda>s q ps. reads (\<lambda>x. PoolRoute (WithdrawPool (sv_pool s) x)) (LiquidityWithdrawRequestDto (sv_rules s) (body_of q)))]"

abbreviation mentor_only :: "guard list" where "mentor_only \<equiv> [JwtAuth, HasRole [''mentor'']]"

definition vouching_routes :: "route list" where
  "vouching_routes =
     [api_route POST [Lit ''vouching'', Lit ''request''] ''VouchingController-requestVouch'' [JwtAuth]
        (\<lambda>s q ps. reads (\<lambda>(w, m). VouchRoute (AskVouch (sv_vouch s) w m)) (RequestVouchDto (sv_rules s) (body_of q))),
      api_route POST [Lit ''vouching'', Lit ''approve''] ''VouchingController-approveVouch'' mentor_only
        (\<lambda>s q ps. reads (\<lambda>w. VouchRoute (GiveVouch (sv_vouch s) w)) (ApproveVouchDto (sv_rules s) (body_of q))),
      api_route GET [Lit ''vouching'', Lit ''mine''] ''VouchingController-getMine'' [JwtAuth]
        (\<lambda>s q ps. Inr (VouchRoute (MyVouches (sv_vouch s)))),
      api_route GET [Lit ''vouching'', Lit ''mentor''] ''VouchingController-getMentor'' mentor_only
        (\<lambda>s q ps. Inr (VouchRoute (MentorVouches (sv_vouch s)))),
      api_route GET [Lit ''vouching'', Lit ''requests''] ''VouchingController-getRequests'' mentor_only
        (\<lambda>s q ps. Inr (VouchRoute (VouchRequests (sv_vouch s)))),
      api_route DELETE [Lit ''vouching'', Par ''id''] ''VouchingController-revokeVouch'' mentor_only
        (\<lambda>s q ps. Inr (VouchRoute (RevokeVouch (sv_vouch s) (param ps ''id''))))]"

definition transactions_routes :: "route list" where
  "transactions_routes =
     [(api_route POST [Lit ''transactions'', Lit ''submit''] ''TransactionsController-submitTransaction'' [JwtAuth, WalletThrottle]
        (\<lambda>s q ps. reads (\<lambda>(xdr, kind). TxRoute (SubmitTx (sv_tx s) xdr kind)) (SubmitTransactionRequestDto (sv_rules s) (body_of q))))
        \<lparr>rt_limit := 10\<rparr>,
      api_route GET [Lit ''transactions'', Par ''hash''] ''TransactionsController-getTransactionStatus'' []
        (\<lambda>s q ps. Inr (TxRoute (TxStatus (sv_tx s) (param ps ''hash''))))]"

definition admin_routes :: "route list" where
  "admin_routes =
     [api_route POST [Lit ''admin'', Lit ''users'', Par ''wallet'', Lit ''role'', Lit ''reset''] ''AdminRolesController-resetUserRole''
        [JwtAuth, AdminRole]
        (\<lambda>s q ps. reads (\<lambda>r. AdminRoute (ResetRole (sv_users s) (param ps ''wallet'') r)) (AdminResetRoleDto (body_of q))),
      api_route GET [Lit ''admin'', Lit ''audit-logs''] ''AuditController-getAuditLogs'' [JwtAuth, AdminRole]
        (\<lambda>s q ps. reads (\<lambda>d. AdminRoute (AuditLogs (sv_audit s) d)) (AuditLogQueryDto (sv_rules s) (query_of q)))]"

text \<open>
  Registration: nothing parses a multipart body and no interceptor takes a file out of it, so there is
  never a picture.
\<close>

definition auth_route :: "seg list \<Rightarrow> string \<Rightarrow> nat \<Rightarrow> bool \<Rightarrow> (server \<Rightarrow> raw_request \<Rightarrow> auth_call result) \<Rightarrow> route" where
  "auth_route p n l walletwise f =
     \<lparr>rt_verb = POST, rt_path = Lit ''auth'' # p, rt_prefixed = True, rt_name = n, rt_limit = l, rt_action = Signs walletwise f\<rparr>"

definition auth_routes :: "route list" where
  "auth_routes =
     [auth_route [Lit ''register''] ''AuthController-register'' 5 False
        (\<lambda>s q. map_sum id (Register (sv_session s) (sv_avatar s) None) (RegisterRequestDto (sv_rules s) (body_of q))),
      auth_route [Lit ''nonce''] ''AuthController-getNonce'' 10 False
        (\<lambda>s q. map_sum id (AskNonce (sv_auth s)) (NonceRequestDto (sv_rules s) (body_of q))),
      auth_route [Lit ''verify''] ''AuthController-verify'' 5 True
        (\<lambda>s q. map_sum id (Verify (sv_auth s) (sv_session s)) (VerifyRequestDto (sv_rules s) (body_of q))),
      auth_route [Lit ''refresh''] ''AuthController-refresh'' 10 False
        (\<lambda>s q. case body_text q ''refreshToken'' of
            Some t \<Rightarrow> Inr (Refresh (sv_session s) t)
          | None \<Rightarrow> Inl (unauthorized ''AUTH_REFRESH_TOKEN_INVALID''))]"

definition unavailable_if :: "bool \<Rightarrow> exn option" where
  "unavailable_if b = (if b then Some (unavailable ''Service Unavailable'') else None)"

definition info_route :: "seg list \<Rightarrow> bool \<Rightarrow> string \<Rightarrow> (server \<Rightarrow> info \<Rightarrow> exn option \<times> info) \<Rightarrow> route" where
  "info_route p prefixed n f =
     \<lparr>rt_verb = GET, rt_path = p, rt_prefixed = prefixed, rt_name = n, rt_limit = 100, rt_action = Informs f\<rparr>"

definition health_routes :: "route list" where
  "health_routes =
     [info_route [Lit ''health''] True ''HealthController-check''
        (\<lambda>s x. let (r, hz) = health_check (sv_health s) (in_horizon x)
               in (case r of Healthy _ \<Rightarrow> None | Unavailable _ \<Rightarrow> unavailable_if True, x\<lparr>in_horizon := hz\<rparr>)),
      info_route [Lit ''health'', Lit ''db''] True ''HealthController-checkDatabase''
        (\<lambda>s x. (unavailable_if (checkDatabase (sv_health s) \<noteq> CheckOk), x)),
      info_route [Lit ''health'', Lit ''sentry-test''] True ''HealthController-triggerSentryTest''
        (\<lambda>s x. (Some (JsError ''sentry test''), x))]"

text \<open>The metrics and the metadata file are served without the prefix; the text of the metrics is the client library's.\<close>

definition metrics_routes :: "route list" where
  "metrics_routes = [info_route [Lit ''metrics''] False ''MetricsController-getMetrics'' (\<lambda>s x. (None, x))]"

definition toml_routes :: "route list" where
  "toml_routes =
     [info_route [Lit ''.well-known'', Lit ''stellar.toml''] False ''StellarTomlController-getStellarToml''
        (\<lambda>s x. (None, x\<lparr>in_toml := snd (getStellarToml (sv_now s) (sv_toml s) (in_toml x))\<rparr>))]"

text \<open>The status of the indexer answers a failing query with a status of its own.\<close>

definition indexer_routes :: "route list" where
  "indexer_routes = [info_route [Lit ''indexer'', Lit ''status''] True ''IndexerController-getStatus'' (\<lambda>s x. (None, x))]"

section \<open>The table\<close>

text \<open>
  All routes: those that serve calls, and the others. Within a controller they are in the order of the
  source; no path of one controller fits that of another.
\<close>

definition call_routes :: "route list" where
  "call_routes =
     loans_routes @ repayment_routes @ vendors_routes @ api_key_routes @ vendor_admin_routes @ users_routes @ learners_routes @
     notifications_routes @ reputation_routes @ sponsors_routes @ liquidity_routes @ vouching_routes @ transactions_routes @ admin_routes"

definition all_routes :: "route list" where
  "all_routes = auth_routes @ health_routes @ metrics_routes @ toml_routes @ indexer_routes @ call_routes"

definition full_path :: "server_config \<Rightarrow> route \<Rightarrow> seg list" where
  "full_path cfg r = (if rt_prefixed r then map Lit (split_on (CHR ''/'') (sc_prefix cfg)) else []) @ rt_path r"

definition fits :: "server_config \<Rightarrow> verb \<Rightarrow> string list \<Rightarrow> route \<Rightarrow> bool" where
  "fits cfg v segs r \<longleftrightarrow> rt_verb r = v \<and> match_path (full_path cfg r) segs \<noteq> None"

definition find_route :: "server_config \<Rightarrow> verb \<Rightarrow> string list \<Rightarrow> (route \<times> params) option" where
  "find_route cfg v segs =
     map_option (\<lambda>r. (r, the (match_path (full_path cfg r) segs))) (find (fits cfg v segs) all_routes)"

section \<open>Which route is taken\<close>

fun overlap :: "seg list \<Rightarrow> seg list \<Rightarrow> bool" where
  "overlap [] [] = True"
| "overlap (Lit a # ps) (Lit b # qs) = (a = b \<and> overlap ps qs)"
| "overlap (_ # ps) (_ # qs) = overlap ps qs"
| "overlap _ _ = False"

text \<open>At the first segment where they differ in kind, the first path has the literal.\<close>

fun more_specific :: "seg list \<Rightarrow> seg list \<Rightarrow> bool" where
  "more_specific (Lit a # ps) (Lit b # qs) = (a = b \<and> more_specific ps qs)"
| "more_specific (Lit a # ps) (Par k # qs) = True"
| "more_specific (Par j # ps) (Par k # qs) = more_specific ps qs"
| "more_specific _ _ = False"

lemma match_rest: "match_path (g # ps) (s # ss) = Some x \<Longrightarrow> \<exists>y. match_path ps ss = Some y"
  by (cases g) (auto split: if_splits)

lemma match_overlap: "match_path p ss = Some x \<Longrightarrow> match_path q ss = Some y \<Longrightarrow> overlap p q"
  by (induction p q arbitrary: ss x y rule: overlap.induct; case_tac ss) (auto split: if_splits dest: match_rest)

lemma match_length: "match_path p ss = Some x \<Longrightarrow> length ss = length p"
  by (induction p ss arbitrary: x rule: match_path.induct) (auto split: if_splits)

lemma overlap_prefix [simp]: "overlap (map Lit pre @ p) (map Lit pre @ q) = overlap p q"
  by (induction pre) auto

lemma more_specific_prefix [simp]: "more_specific (map Lit pre @ p) (map Lit pre @ q) = more_specific p q"
  by (induction pre) auto

lemma overlap_length: "overlap p q \<Longrightarrow> length p = length q"
  by (induction p q rule: overlap.induct) auto

lemma split_on_not_Nil [simp]: "split_on c s \<noteq> []"
  by (induction c s rule: split_on.induct) (auto split: list.split)

text \<open>The order of two routes of the table, as a check that computes.\<close>

definition in_order :: "verb \<times> seg list \<Rightarrow> verb \<times> seg list \<Rightarrow> bool" where
  "in_order x y \<longleftrightarrow> fst x \<noteq> fst y \<or> \<not> overlap (snd x) (snd y) \<or> more_specific (snd x) (snd y)"

definition shapes :: "route list \<Rightarrow> (verb \<times> seg list) list" where
  "shapes rs = map (\<lambda>r. (rt_verb r, rt_path r)) rs"

lemma in_order_table: "sorted_wrt in_order (shapes all_routes)"
  by code_simp

text \<open>The two routes without the prefix share no path with the others, whatever the prefix is.\<close>

definition first_segment_ok :: "route \<Rightarrow> bool" where
  "first_segment_ok r =
     (if rt_prefixed r then (case rt_path r of Lit c # _ \<Rightarrow> c \<noteq> ''stellar.toml'' | _ \<Rightarrow> False)
      else rt_path r = [Lit ''metrics''] \<or> rt_path r = [Lit ''.well-known'', Lit ''stellar.toml''])"

lemma first_segments: "list_all first_segment_ok all_routes"
  by code_simp

lemma prefix_apart:
  assumes "first_segment_ok r" "first_segment_ok r'" "rt_prefixed r" "\<not> rt_prefixed r'"
  shows "\<not> overlap (full_path cfg r) (full_path cfg r') \<and> \<not> overlap (full_path cfg r') (full_path cfg r)"
proof -
  obtain c rest where r: "rt_path r = Lit c # rest" "c \<noteq> ''stellar.toml''"
    using assms(1,3) by (auto simp: first_segment_ok_def split: list.splits seg.splits)
  obtain a pre where s: "split_on (CHR ''/'') (sc_prefix cfg) = a # pre" by (cases "split_on (CHR ''/'') (sc_prefix cfg)") auto
  show ?thesis
    using assms(2,4) by (cases pre) (auto simp: first_segment_ok_def full_path_def s r assms(3) dest: overlap_length)
qed

lemma find_first:
  "find P xs = Some x \<Longrightarrow> P x \<and> (\<exists>us vs. xs = us @ x # vs \<and> (\<forall>u \<in> set us. \<not> P u))"
proof (induction xs)
  case (Cons a xs)
  then show ?case by (cases "P a") (auto intro: exI [of _ "[]"], metis Cons_eq_appendI set_ConsD)
qed simp

section \<open>Properties\<close>

text \<open>C9: Which method answers a request does not depend on the order of the routes: the route taken is more
  specific than every other route of the table that fits (at the first segment where they differ it
  has a literal where the other has a parameter), whatever the global prefix is. So no static path is
  captured by a parameter, and no route is hidden by another.\<close>

theorem route_most_specific:
  assumes "find_route cfg v segs = Some (r, ps)" and "r' \<in> set all_routes" and "fits cfg v segs r'" and "r' \<noteq> r"
  shows "fits cfg v segs r \<and> more_specific (full_path cfg r) (full_path cfg r')"
proof -
  from assms(1) have f: "find (fits cfg v segs) all_routes = Some r" by (auto simp: find_route_def)
  from find_first [OF f] obtain us vs where fit: "fits cfg v segs r" and t: "all_routes = us @ r # vs"
    and no: "\<forall>u \<in> set us. \<not> fits cfg v segs u" by blast
  have o: "overlap (full_path cfg r) (full_path cfg r')"
    using fit assms(3) match_overlap by (auto simp: fits_def)
  have m1: "r \<in> set all_routes" unfolding t by simp
  have "r' \<in> set us \<union> {r} \<union> set vs" using assms(2) unfolding t by simp
  then have m: "r' \<in> set vs" using no assms(3,4) by blast
  have p: "rt_prefixed r = rt_prefixed r'"
    using prefix_apart [of r r' cfg] prefix_apart [of r' r cfg] first_segments m1 assms(2) o by (auto simp: list_all_iff)
  have "sorted_wrt in_order (shapes us @ (rt_verb r, rt_path r) # shapes vs)"
    using in_order_table by (simp add: t shapes_def)
  then have "in_order (rt_verb r, rt_path r) (rt_verb r', rt_path r')"
    using m by (auto simp: sorted_wrt_append shapes_def)
  then show ?thesis using fit assms(3) o p by (auto simp: in_order_def fits_def full_path_def split: if_splits)
qed

text \<open>The request for a vendor's dashboard fits two routes.\<close>

theorem route_most_specific_witness:
  "\<exists>r r'. find_route \<lparr>sc_port = ''4000'', sc_prefix = ''api/v1'', sc_origins = []\<rparr> GET [''api'', ''v1'', ''vendors'', ''dashboard''] = Some (r, []) \<and>
     rt_name r = ''VendorsController-getDashboard'' \<and> rt_name r' = ''VendorsController-getById'' \<and>
     more_specific (full_path \<lparr>sc_port = ''4000'', sc_prefix = ''api/v1'', sc_origins = []\<rparr> r)
       (full_path \<lparr>sc_port = ''4000'', sc_prefix = ''api/v1'', sc_origins = []\<rparr> r')"
proof -
  let ?cfg = "\<lparr>sc_port = ''4000'', sc_prefix = ''api/v1'', sc_origins = []\<rparr>"
  let ?segs = "[''api'', ''v1'', ''vendors'', ''dashboard'']"
  let ?r = "vendors_routes ! 2" and ?r' = "vendor_admin_routes ! 0"
  have "find_route ?cfg GET ?segs = Some (?r, [])"
    by (simp add: find_route_def all_routes_def auth_routes_def health_routes_def metrics_routes_def toml_routes_def indexer_routes_def call_routes_def
        loans_routes_def repayment_routes_def vendors_routes_def api_route_def auth_route_def info_route_def fits_def full_path_def)
  moreover have "?r' \<in> set all_routes" by (simp add: all_routes_def call_routes_def vendor_admin_routes_def)
  moreover have "fits ?cfg GET ?segs ?r'" by (simp add: fits_def full_path_def vendor_admin_routes_def api_route_def)
  moreover have n: "rt_name ?r = ''VendorsController-getDashboard''" "rt_name ?r' = ''VendorsController-getById''"
    by (simp_all add: vendors_routes_def vendor_admin_routes_def api_route_def)
  moreover have "?r' \<noteq> ?r" using n by auto
  ultimately show ?thesis using route_most_specific [of ?cfg GET ?segs ?r "[]" ?r'] by blast
qed

section \<open>The table and the calls\<close>

text \<open>
  What a route reads is a call whose guards are those of the route; the body of a request for a loan has
  been validated, and two calls are read by one route only, with a parameter of its path.
\<close>

definition read_well :: "string \<Rightarrow> guard list \<Rightarrow> server \<Rightarrow> raw_request \<Rightarrow> params \<Rightarrow> api_call \<Rightarrow> bool" where
  "read_well n gs s q ps c \<longleftrightarrow>
     guards_of c = gs \<and>
     (\<forall>le d. c = LoansRoute (CreateLoan le d) \<longrightarrow> CreateLoanRequestDto (sv_rules s) (body_of q) = Inr d) \<and>
     (\<forall>te h. c = TxRoute (TxStatus te h) \<longrightarrow> n = ''TransactionsController-getTransactionStatus'' \<and> h = param ps ''hash'') \<and>
     (\<forall>ue v x. c = AdminRoute (ResetRole ue v x) \<longrightarrow> n = ''AdminRolesController-resetUserRole'' \<and> v = param ps ''wallet'')"

definition reads_calls :: "route \<Rightarrow> bool" where
  "reads_calls r \<longleftrightarrow>
     (\<exists>gs f. rt_action r = Calls gs f \<and> (\<forall>s q ps c. f s q ps = Inr c \<longrightarrow> read_well (rt_name r) gs s q ps c))"

lemma reads_calls_api_route:
  "reads_calls (api_route v p n gs f) \<longleftrightarrow> (\<forall>s q ps c. f s q ps = Inr c \<longrightarrow> read_well n gs s q ps c)"
  by (simp add: reads_calls_def api_route_def)

lemma reads_calls_limit [simp]: "reads_calls (r\<lparr>rt_limit := n\<rparr>) = reads_calls r"
  by (simp add: reads_calls_def)

lemmas reading_calls = reads_calls_api_route read_well_def map_sum_Inr andThen_Inr_iff

lemma loans_read: "\<forall>r \<in> set (loans_routes @ repayment_routes). reads_calls r"
  by (auto simp: loans_routes_def repayment_routes_def reading_calls split: option.splits)

lemma vendors_read: "\<forall>r \<in> set (vendors_routes @ api_key_routes @ vendor_admin_routes). reads_calls r"
  by (auto simp: vendors_routes_def api_key_routes_def vendor_admin_routes_def reading_calls)

lemma accounts_read: "\<forall>r \<in> set (users_routes @ learners_routes @ notifications_routes @ reputation_routes @ admin_routes). reads_calls r"
  by (auto simp: users_routes_def learners_routes_def notifications_routes_def reputation_routes_def admin_routes_def reading_calls)

lemma money_read: "\<forall>r \<in> set (sponsors_routes @ liquidity_routes @ vouching_routes @ transactions_routes). reads_calls r"
  by (auto simp: sponsors_routes_def liquidity_routes_def vouching_routes_def transactions_routes_def reading_calls)

lemma table_reads_calls: "r \<in> set call_routes \<Longrightarrow> reads_calls r"
  using loans_read vendors_read accounts_read money_read unfolding call_routes_def by auto

lemma table_kinds:
  assumes "r \<in> set all_routes"
  shows "reads_calls r \<or> (\<exists>b f. rt_action r = Signs b f) \<or> (\<exists>f. rt_action r = Informs f)"
  using assms table_reads_calls
  by (auto simp: all_routes_def auth_routes_def auth_route_def health_routes_def metrics_routes_def toml_routes_def indexer_routes_def info_route_def)

end
