(* ===== verification/Server.thy ===== *)
theory Server imports Routes begin

text \<open>
  The server: a request of any verb, path, query and body goes through the route table, the global
  throttler, the guards and the reading of its arguments to its handler; all controllers, those of
  \<open>/auth\<close> included, work on one database. Histories of such requests and of the jobs.
\<close>

section \<open>State\<close>

record web =
  wb_app :: app
  wb_auth :: auth_state
  wb_info :: info

text \<open>
  The tables \<open>users\<close>, \<open>learner_profiles\<close> and \<open>audit_logs\<close> belong to \<open>wb_app\<close>: \<open>/auth\<close> is handed its view
  of them and what it adds is put back (the users, an empty profile for each new wallet, and an entry
  for each replayed token). \<open>reuse_entry\<close> is that entry, its JSON columns as a function of the data.
\<close>

definition auth_view :: "web \<Rightarrow> auth_state" where
  "auth_view w =
     (wb_auth w)\<lparr>ax_sessions := (ax_sessions (wb_auth w))\<lparr>ss_users := ua_users (ap_gate (wb_app w)),
       ss_profiles := map lf_wallet (ap_learners (wb_app w)), ss_audit := []\<rparr>\<rparr>"

definition reuse_entry :: "string \<times> string \<times> nat \<Rightarrow> CreateAuditLog" where
  "reuse_entry x =
     (case x of (w, fam, n) \<Rightarrow>
        \<lparr>ca_actor = w, ca_action = ''auth.refresh_token_reuse'', ca_resource = ''session'', ca_resource_id = None, ca_before = None,
         ca_after = Some (''{\"revoked_sessions\":'' @ decimal n @ ''}''), ca_ip = None, ca_agent = None,
         ca_metadata = Some (''{\"family_id\":\"'' @ fam @ ''\"}'')\<rparr>)"

definition put_auth :: "server \<Rightarrow> auth_state \<Rightarrow> web \<Rightarrow> web" where
  "put_auth s st w =
     (let a = wb_app w; x = ax_sessions st;
          fresh = filter (\<lambda>v. v \<notin> set (map lf_wallet (ap_learners a))) (ss_profiles x)
      in w\<lparr>wb_auth := st,
           wb_app := a\<lparr>ap_gate := (ap_gate a)\<lparr>ua_users := ss_users x\<rparr>,
                       ap_learners := ap_learners a @ map (empty_profile (sv_learners s)) fresh,
                       ap_audit := ap_audit a @ map (\<lambda>e. \<lparr>ag_pk = ae_pk (sv_audit s), ag_entry = reuse_entry e,
                                                     ag_created = ae_now (sv_audit s)\<rparr>) (ss_audit x)\<rparr>\<rparr>)"

section \<open>Serving\<close>

text \<open>The request the guards and the handler of a route see.\<close>

definition as_request :: "raw_request \<Rightarrow> api_call \<Rightarrow> http_request" where
  "as_request q c = \<lparr>rq_bearer = rq_bearer q, rq_ip = rq_ip q, rq_forwarded = rq_forwarded q, rq_call = c\<rparr>"

text \<open>Guards run before the arguments are read: a request they refuse is not validated.\<close>

definition serve_calls ::
  "server \<Rightarrow> raw_request \<Rightarrow> guard list \<Rightarrow> api_call result \<Rightarrow> app \<Rightarrow> exn option \<times> app" where
  "serve_calls s q gs call a =
     (case pass_guards (sv_http s) q gs (None, ap_gate a, ap_hits a, ap_audit a) of
        (Inl e, (_, st, hits, audit)) \<Rightarrow> (Some e, a\<lparr>ap_gate := st, ap_hits := hits, ap_audit := audit\<rparr>)
      | (Inr _, (user, st, hits, audit)) \<Rightarrow>
          let b = a\<lparr>ap_gate := st, ap_hits := hits, ap_audit := audit\<rparr>
          in case call of
               Inl e \<Rightarrow> (Some e, b)
             | Inr c \<Rightarrow> handle (sv_http s) (case user of Some u \<Rightarrow> ru_wallet u | None \<Rightarrow> []) c b)"

text \<open>The throttler of the verification looks at the wallet of the unvalidated body.\<close>

definition serve_auth :: "server \<Rightarrow> raw_request \<Rightarrow> bool \<Rightarrow> auth_call result \<Rightarrow> web \<Rightarrow> exn option \<times> web" where
  "serve_auth s q walletwise call w =
     (case call of
        Inr c \<Rightarrow>
          let (r, st) = auth_serve \<lparr>ac_ip = rq_ip q, ac_forwarded = rq_forwarded q, ac_call = c\<rparr> (auth_view w)
          in (thrown r, put_auth s st w)
      | Inl e \<Rightarrow>
          if walletwise
          then let (r, hits) = auth_canActivate (au_now (sv_auth s))
                     \<lparr>tq_body_wallet = body_text q ''wallet'', tq_user_wallet = None, tq_ip = rq_ip q, tq_forwarded = rq_forwarded q\<rparr>
                     (ax_hits (wb_auth w))
               in (Some (case r of Inl f \<Rightarrow> f | Inr _ \<Rightarrow> e), w\<lparr>wb_auth := (wb_auth w)\<lparr>ax_hits := hits\<rparr>\<rparr>)
          else (Some e, w))"

definition act :: "server \<Rightarrow> raw_request \<Rightarrow> params \<Rightarrow> action \<Rightarrow> web \<Rightarrow> exn option \<times> web" where
  "act s q ps x w =
     (case x of
        Calls gs f \<Rightarrow> let (r, a) = serve_calls s q gs (f s q ps) (wb_app w) in (r, w\<lparr>wb_app := a\<rparr>)
      | Signs b f \<Rightarrow> serve_auth s q b (f s q) w
      | Informs f \<Rightarrow> let (r, i) = f s (wb_info w) in (r, w\<lparr>wb_info := i\<rparr>))"

text \<open>
  A path no route fits is answered with 404; a body no parser is registered for with 415, before
  anything else runs. The key of the global throttler names the method and the address.
\<close>

definition throttle_key :: "route \<Rightarrow> raw_request \<Rightarrow> string" where
  "throttle_key r q = rt_name r @ ''-default-'' @ or_else (rq_ip q) []"

definition respond :: "server \<Rightarrow> raw_request \<Rightarrow> web \<Rightarrow> exn option \<times> web" where
  "respond s q w =
     (case find_route (sv_config s) (rw_verb q) (rw_path q) of
        None \<Rightarrow> (Some (not_found ''Not Found''), w)
      | Some (r, ps) \<Rightarrow>
          if rw_content q = OtherContent \<and> rw_verb q \<noteq> GET then (Some (HttpExn 415 ''FST_ERR_CTP_INVALID_MEDIA_TYPE''), w)
          else if sv_throttled s (throttle_key r q) (rt_limit r) then (Some (too_many_requests ''ThrottlerException''), w)
          else act s q ps (rt_action r) w)"

section \<open>What the parts change\<close>

lemma pass_guard_origin:
  fixes q :: "'a http_origin_scheme" and req :: "'b http_origin_scheme"
  assumes o: "rq_bearer q = rq_bearer req" "rq_ip q = rq_ip req" "rq_forwarded q = rq_forwarded req"
  shows "pass_guard env q x g = pass_guard env req x g"
proof -
  obtain user st hits audit where g: "g = (user, st, hits, audit)" by (rule prod_cases4)
  have t: "throttled q user = throttled req user" unfolding throttled_def o ..
  show ?thesis unfolding g by (cases x) (simp_all only: pass_guard.simps o t)
qed

lemma pass_guards_origin:
  fixes q :: "'a http_origin_scheme" and req :: "'b http_origin_scheme"
  assumes o: "rq_bearer q = rq_bearer req" "rq_ip q = rq_ip req" "rq_forwarded q = rq_forwarded req"
  shows "pass_guards env q gs g = pass_guards env req gs g"
proof (induction gs arbitrary: g)
  case (Cons x gs)
  show ?case unfolding pass_guards.simps pass_guard_origin [OF o] Cons.IH ..
qed simp

text \<open>With a call that was read, a route of the table serves it as \<open>Api\<close> does.\<close>

lemma serve_calls_serve:
  assumes "guards_of c = gs"
  shows "serve_calls s q gs (Inr c) a = serve (sv_http s) (as_request q c) a"
proof -
  have p: "pass_guards (sv_http s) q gs g = pass_guards (sv_http s) (as_request q c) gs g" for g
    by (rule pass_guards_origin) (simp_all add: as_request_def)
  have r: "rq_call (as_request q c) = c" by (simp add: as_request_def)
  show ?thesis unfolding serve_calls_def serve_def r assms p Let_def sum.case ..
qed

text \<open>Guards and unread arguments leave every table but the audit log alone.\<close>

lemma guards_only:
  assumes "pass_guards env q gs (None, ap_gate a, ap_hits a, ap_audit a) = (r, user, st, hits, audit)"
  shows "tables (a\<lparr>ap_gate := st, ap_hits := hits, ap_audit := audit\<rparr>) = tables a"
  using pass_guards_users [of env q gs "(None, ap_gate a, ap_hits a, ap_audit a)"] assms by simp

lemma serve_calls_unread:
  assumes "AdminRole \<in> set gs \<Longrightarrow> gs = [JwtAuth, AdminRole]"
  shows "tables (snd (serve_calls s q gs (Inl e) a)) = tables a \<and> ap_rep (snd (serve_calls s q gs (Inl e) a)) = ap_rep a \<and>
    fst (serve_calls s q gs (Inl e) a) \<noteq> None \<and>
    (ap_audit (snd (serve_calls s q gs (Inl e) a)) = ap_audit a \<or>
     denial_logged (sv_http s) q gs (ap_audit a) (ap_audit (snd (serve_calls s q gs (Inl e) a))))"
proof -
  obtain r user st hits audit where g: "pass_guards (sv_http s) q gs (None, ap_gate a, ap_hits a, ap_audit a) = (r, user, st, hits, audit)"
    by (metis prod.exhaust)
  from guards_only [OF g] guards_audit [OF g assms] g show ?thesis by (cases r) (auto simp: serve_calls_def Let_def)
qed

lemma put_auth_app:
  "ap_loans (wb_app (put_auth s st w)) = ap_loans (wb_app w)" "ap_rep (wb_app (put_auth s st w)) = ap_rep (wb_app w)"
  by (simp_all add: put_auth_def Let_def)

lemma serve_auth_app:
  "ap_loans (wb_app (snd (serve_auth s q b call w))) = ap_loans (wb_app w) \<and>
   ap_rep (wb_app (snd (serve_auth s q b call w))) = ap_rep (wb_app w)"
  by (auto simp: serve_auth_def put_auth_app Let_def split: sum.split prod.split)

lemma find_route_table: "find_route cfg v segs = Some (r, ps) \<Longrightarrow> r \<in> set all_routes"
  by (auto simp: find_route_def find_Some_iff)

text \<open>The guards of the table: only the two routes of \<open>/admin\<close> ask for the role of an administrator.\<close>

definition route_guards :: "route \<Rightarrow> guard list option" where
  "route_guards r = (case rt_action r of Calls gs f \<Rightarrow> Some gs | _ \<Rightarrow> None)"

lemma table_admin:
  assumes "r \<in> set all_routes" and "rt_action r = Calls gs f" and "AdminRole \<in> set gs"
  shows "gs = [JwtAuth, AdminRole]"
proof -
  have "list_all (\<lambda>r. case route_guards r of Some gs \<Rightarrow> AdminRole \<in> set gs \<longrightarrow> gs = [JwtAuth, AdminRole] | None \<Rightarrow> True) all_routes"
    by code_simp
  with assms(1) have "case route_guards r of Some gs \<Rightarrow> AdminRole \<in> set gs \<longrightarrow> gs = [JwtAuth, AdminRole] | None \<Rightarrow> True"
    by (simp add: list_all_iff)
  then show ?thesis using assms(2,3) by (simp add: route_guards_def)
qed

text \<open>
  The three outcomes of a request: a call of \<open>Api\<close>, no change of the tables (but an entry of the audit log
  where a guard denied it), or a route of \<open>/auth\<close>.
\<close>

definition denied_on :: "server \<Rightarrow> raw_request \<Rightarrow> exn option \<Rightarrow> AuditLogRow list \<Rightarrow> AuditLogRow list \<Rightarrow> bool" where
  "denied_on s q answer rows rows' \<longleftrightarrow>
     answer \<noteq> None \<and> (\<exists>r ps gs f. find_route (sv_config s) (rw_verb q) (rw_path q) = Some (r, ps) \<and> rt_action r = Calls gs f \<and>
       denial_logged (sv_http s) q gs rows rows')"

lemma respond_cases:
  obtains (call) r ps gs f c where "find_route (sv_config s) (rw_verb q) (rw_path q) = Some (r, ps)"
      and "rt_action r = Calls gs f" and "read_well (rt_name r) gs s q ps c"
      and "respond s q w = (fst (serve (sv_http s) (as_request q c) (wb_app w)), w\<lparr>wb_app := snd (serve (sv_http s) (as_request q c) (wb_app w))\<rparr>)"
  | (idle) "tables (wb_app (snd (respond s q w))) = tables (wb_app w)"
      and "ap_rep (wb_app (snd (respond s q w))) = ap_rep (wb_app w)"
      and "ap_audit (wb_app (snd (respond s q w))) = ap_audit (wb_app w) \<or>
        denied_on s q (fst (respond s q w)) (ap_audit (wb_app w)) (ap_audit (wb_app (snd (respond s q w))))"
  | (auth) r ps b f where "find_route (sv_config s) (rw_verb q) (rw_path q) = Some (r, ps)" and "rt_action r = Signs b f"
      and "respond s q w = serve_auth s q b (f s q) w"
proof -
  consider (none) "find_route (sv_config s) (rw_verb q) (rw_path q) = None"
    | (refused) x where "respond s q w = (Some x, w)"
    | (acted) r ps where "find_route (sv_config s) (rw_verb q) (rw_path q) = Some (r, ps)"
        and "respond s q w = act s q ps (rt_action r) w"
  proof (cases "find_route (sv_config s) (rw_verb q) (rw_path q)")
    case (Some x)
    obtain r ps where x: "x = (r, ps)" by (cases x)
    show thesis
    proof (cases "(rw_content q = OtherContent \<and> rw_verb q \<noteq> GET) \<or> sv_throttled s (throttle_key r q) (rt_limit r)")
      case True
      then have "\<exists>y. respond s q w = (Some y, w)" by (auto simp: respond_def Some x)
      with refused show thesis by blast
    next
      case False
      with Some x show thesis by (intro acted) (auto simp: respond_def)
    qed
  qed (rule none)
  then show thesis
  proof cases
    case none
    then show thesis by (intro idle) (simp_all add: respond_def)
  next
    case refused
    then show thesis by (intro idle) simp_all
  next
    case acted
    note table = find_route_table [OF acted(1)]
    from table_kinds [OF table]
    consider "reads_calls r" | b f where "rt_action r = Signs b f" | f where "rt_action r = Informs f" by blast
    then show thesis
    proof cases
      case 1
      then obtain gs f where f: "rt_action r = Calls gs f"
        and c: "\<forall>s q ps c. f s q ps = Inr c \<longrightarrow> read_well (rt_name r) gs s q ps c"
        unfolding reads_calls_def by (elim exE conjE)
      show thesis
      proof (cases "f s q ps")
        case (Inl e)
        have "act s q ps (rt_action r) w = (let (x, a) = serve_calls s q gs (Inl e) (wb_app w) in (x, w\<lparr>wb_app := a\<rparr>))"
          unfolding act_def f action.case Inl ..
        then have "respond s q w = (fst (serve_calls s q gs (Inl e) (wb_app w)), w\<lparr>wb_app := snd (serve_calls s q gs (Inl e) (wb_app w))\<rparr>)"
          unfolding acted(2) by (simp only: split_def Let_def)
        with serve_calls_unread [OF table_admin [OF table f], of s q e "wb_app w"] acted(1) f
        show thesis by (intro idle) (auto simp: denied_on_def)
      next
        case (Inr c')
        have rw: "read_well (rt_name r) gs s q ps c'" using c [rule_format, OF Inr] .
        then have g: "guards_of c' = gs" by (simp add: read_well_def)
        have "act s q ps (rt_action r) w = (let (x, a) = serve_calls s q gs (Inr c') (wb_app w) in (x, w\<lparr>wb_app := a\<rparr>))"
          unfolding act_def f action.case Inr ..
        then have "respond s q w = (fst (serve (sv_http s) (as_request q c') (wb_app w)), w\<lparr>wb_app := snd (serve (sv_http s) (as_request q c') (wb_app w))\<rparr>)"
          unfolding acted(2) serve_calls_serve [OF g] by (simp only: split_def Let_def)
        with rw f show thesis by (intro call [OF acted(1)])
      qed
    next
      case 2
      with acted show thesis by (intro auth [OF acted(1)]) (auto simp: act_def)
    next
      case 3
      with acted(2) show thesis by (intro idle) (simp_all add: act_def split_def Let_def)
    qed
  qed
qed

text \<open>What a guarded call adds to the audit log.\<close>

lemma call_audit:
  assumes "find_route (sv_config s) (rw_verb q) (rw_path q) = Some (r, ps)" and "rt_action r = Calls gs f" and "read_well (rt_name r) gs s q ps c"
    and "respond s q w = (fst (serve (sv_http s) (as_request q c) (wb_app w)), w\<lparr>wb_app := snd (serve (sv_http s) (as_request q c) (wb_app w))\<rparr>)"
  shows "ap_audit (wb_app (snd (respond s q w))) = ap_audit (wb_app w) \<or>
    denied_on s q (fst (respond s q w)) (ap_audit (wb_app w)) (ap_audit (wb_app (snd (respond s q w))))"
proof -
  have "access_token (sv_http s) (as_request q c) = access_token (sv_http s) q" by (simp add: as_request_def access_token_def)
  moreover have "guards_of (rq_call (as_request q c)) = gs" using assms(3) by (simp add: read_well_def as_request_def)
  ultimately show ?thesis
    using serve_audit [of "sv_http s" "as_request q c" "wb_app w"] assms(1,2) unfolding assms(4)
    by (auto simp: denied_on_def denial_logged_def)
qed

section \<open>Histories\<close>

text \<open>
  What happens to the server: requests, the two hourly clean-ups of \<open>/auth\<close>, and the jobs on the loan
  table, in any order.
\<close>

datatype occurrence = Http server raw_request | Job job | CleanUp server auth_call

fun is_cleanup :: "auth_call \<Rightarrow> bool" where
  "is_cleanup (CleanSessions _) = True"
| "is_cleanup (CleanNonces _ _) = True"
| "is_cleanup _ = False"

fun occur :: "occurrence \<Rightarrow> web \<Rightarrow> web" where
  "occur (Http s q) w = snd (respond s q w)"
| "occur (Job e) w = w\<lparr>wb_app := run_job e (wb_app w)\<rparr>"
| "occur (CleanUp s c) w =
     put_auth s (snd (auth_serve \<lparr>ac_ip = None, ac_forwarded = None, ac_call = c\<rparr> (auth_view w))) w"

text \<open>All that is assumed: the checks of class-validator mean what their documentation says.\<close>

fun expected :: "occurrence \<Rightarrow> bool" where
  "expected (Http s q) \<longleftrightarrow> documented (sv_rules s)"
| "expected (Job j) \<longleftrightarrow> True"
| "expected (CleanUp s c) \<longleftrightarrow> is_cleanup c"

text \<open>The amounts the runs of the settlement job in a history may book, and whether it has a reconciliation.\<close>

definition booked_in :: "occurrence list \<Rightarrow> num \<Rightarrow> bool" where
  "booked_in xs a \<longleftrightarrow> (\<exists>j. Job j \<in> set xs \<and> books j a)"

definition reconciled_in :: "occurrence list \<Rightarrow> bool" where
  "reconciled_in xs \<longleftrightarrow> (\<exists>j. Job j \<in> set xs \<and> reconciles j)"

lemma tables_loans: "tables a = tables b \<Longrightarrow> ap_loans a = ap_loans b"
  by (simp add: tables_def)

lemma app_keeps_same: "ap_loans b = ap_loans a \<Longrightarrow> ap_rep b = ap_rep a \<Longrightarrow> hot_wf (ap_rep a) \<Longrightarrow> app_keeps A R a b"
  by (simp add: app_keeps_def)

lemma respond_keeps:
  assumes "hot_wf (ap_rep (wb_app w))" and "documented (sv_rules s)"
  shows "app_keeps A R (wb_app w) (wb_app (snd (respond s q w)))"
proof (cases rule: respond_cases [of s q w])
  case (call r ps gs f c)
  have "validated_call (rq_call (as_request q c))" using call(3) assms(2) by (auto simp: as_request_def validated_call_def read_well_def)
  from serve_keeps [OF assms(1) this] show ?thesis by (simp add: call(4))
next
  case idle
  then show ?thesis using assms(1) by (intro app_keeps_same) (auto intro: tables_loans)
next
  case (auth r ps b f)
  then show ?thesis using serve_auth_app [of s q b "f s q" w] assms(1) by (intro app_keeps_same) simp_all
qed

lemma occur_keeps:
  assumes "hot_wf (ap_rep (wb_app w))" and "expected x"
    and "\<And>j a. x = Job j \<Longrightarrow> books j a \<Longrightarrow> A a" and "\<And>j. x = Job j \<Longrightarrow> reconciles j \<Longrightarrow> R"
  shows "app_keeps A R (wb_app w) (wb_app (occur x w))"
proof (cases x)
  case (Http s q) with respond_keeps assms show ?thesis by simp
next
  case (Job j) with job_keeps [OF assms(1), of j A R] assms(3,4) show ?thesis by simp
next
  case (CleanUp s c) with assms(1) show ?thesis by (intro app_keeps_same) (simp_all add: put_auth_app)
qed

lemma occurrences_kept:
  assumes "hot_wf (ap_rep (wb_app w))" and "\<forall>x \<in> set xs. expected x"
    and "\<And>a. booked_in xs a \<Longrightarrow> A a" and "reconciled_in xs \<Longrightarrow> R"
  shows "app_keeps A R (wb_app w) (wb_app (fold occur xs w))"
  using assms
proof (induction xs arbitrary: w)
  case (Cons x xs)
  have k: "app_keeps A R (wb_app w) (wb_app (occur x w))"
    using Cons.prems by (intro occur_keeps) (auto simp: booked_in_def reconciled_in_def)
  have "app_keeps A R (wb_app (occur x w)) (wb_app (fold occur xs (occur x w)))"
    using Cons.prems k by (intro Cons.IH) (auto simp: booked_in_def reconciled_in_def app_keeps_def)
  with k show ?case by (auto simp: app_keeps_def intro: keeps_book_trans)
qed (simp add: app_keeps_def)

lemmas occurrences_keep = occurrences_kept [where A = "booked_in xs" and R = "reconciled_in xs" for xs]

section \<open>Properties\<close>


text \<open>C10: The program implements the abstract loan book: every history of requests and jobs takes the loan
  table, read as a list of entries, from one state of the book to another by the book's own steps:
  opening an entry that owes its total, deciding it, activating a pending one, taking a payment of an amount that
  some run of the settlement job read from a transaction (whatever its sign), which completes an entry that owes
  nothing any more, and, only if the reconciliation runs, taking over a status from the index.\<close>

theorem server_implements_book:
  assumes "app_wf (wb_app w)" and "\<forall>x \<in> set xs. expected x"
  shows "(book_step (booked_in xs) (reconciled_in xs))\<^sup>*\<^sup>* (map entry_of (ap_loans (wb_app w)))
    (map entry_of (ap_loans (wb_app (fold occur xs w))))"
  using occurrences_keep [of w xs] assms typed_any unfolding app_wf_def app_keeps_def keeps_book_def by blast



definition first_of :: "unit result \<Rightarrow> 'a result \<Rightarrow> exn option" where
  "first_of gate call = (case gate of Inl e \<Rightarrow> Some e | Inr _ \<Rightarrow> (case call of Inl e \<Rightarrow> Some e | Inr _ \<Rightarrow> None))"







lemma signs_route: "r \<in> set all_routes \<Longrightarrow> rt_action r = Signs b f \<Longrightarrow> r \<in> set auth_routes"
  using table_reads_calls [of r]
  by (auto simp: all_routes_def reads_calls_def health_routes_def metrics_routes_def toml_routes_def indexer_routes_def info_route_def)



lemma serve_calls_refused:
  assumes "first_of (fst (pass_guards (sv_http s) q gs (None, ap_gate a, ap_hits a, ap_audit a))) call = Some e"
  shows "fst (serve_calls s q gs call a) = Some e \<and> (\<exists>x. snd (serve_calls s q gs call a) = snd (serve_calls s q gs (Inl x) a))"
proof -
  obtain r user st hits audit where g: "pass_guards (sv_http s) q gs (None, ap_gate a, ap_hits a, ap_audit a) = (r, user, st, hits, audit)"
    by (metis prod.exhaust)
  with assms show ?thesis by (cases r; cases call) (auto simp: serve_calls_def first_of_def Let_def)
qed


text \<open>
  What \<open>/auth\<close> may change of the tables: the account of one wallet (with the keys of new accounts, which the
  database gives, fresh), and learner profiles it adds.
\<close>

definition auth_only :: "server \<Rightarrow> app \<Rightarrow> app \<Rightarrow> bool" where
  "auth_only s a a' \<longleftrightarrow>
     tables (a'\<lparr>ap_gate := (ap_gate a')\<lparr>ua_users := ua_users (ap_gate a)\<rparr>, ap_learners := ap_learners a\<rparr>) = tables a \<and>
     (\<exists>rows. ap_learners a' = ap_learners a @ rows) \<and>
     ((\<forall>u \<in> set (ua_users (ap_gate a)). user_pk u \<noteq> ue_pk (sn_users (sv_session s))) \<longrightarrow>
        (\<exists>v. same_for (\<lambda>u. user_wallet u = v) (ua_users (ap_gate a)) (ua_users (ap_gate a'))))"

lemma auth_only_refl: "tables a' = tables a \<Longrightarrow> auth_only s a a'"
  by (auto simp: auth_only_def tables_def)

text \<open>Tokens are minted for an account that is there or is added.\<close>

lemma touched_users:
  "ss_users (snd (findOrCreateUser env v st)) \<in> {ss_users st, ss_users st @ [new_user (sn_users env) v]}"
  by (auto simp: findOrCreateUser_def Let_def upsert_by_def update_where_def split: sum.split)

lemma minted_users:
  "ss_users (snd (generateTokens env v fam st)) \<in> {ss_users st, ss_users st @ [new_user (sn_users env) v]}"
  using touched_users [of env v st] by (auto simp: generateTokens_def Let_def split: prod.splits sum.splits option.splits)

lemma minted_one: "same_for (\<lambda>u. user_wallet u = v) (ss_users st) (ss_users (snd (generateTokens env v fam st)))"
  using minted_users [of env v fam st] by (auto simp: new_user_def same_for_def)

lemma refreshed_one: "\<exists>v. same_for (\<lambda>u. user_wallet u = v) (ss_users st) (ss_users (snd (refreshTokens env token st)))"
proof -
  have sel: "ss_users (snd (refresh_select env token st)) = ss_users st"
    by (auto simp: refresh_select_def handleRefreshReplay_def Let_def split: option.split sum.split list.split)
  have "\<exists>v. same_for (\<lambda>u. user_wallet u = v) (ss_users st1) (ss_users (snd (refresh_rotate env found st1)))" for found st1
  proof -
    obtain p x where f: "found = (p, x)" by (cases found)
    have d: "ss_users (delete_session env x st1) = ss_users st1" by (simp add: delete_session_def split: option.split)
    show ?thesis
    proof (cases "rt_wallet p")
      case None
      then show ?thesis by (simp add: refresh_rotate_def f d)
    next
      case (Some v)
      with minted_one [of v "delete_session env x st1"] show ?thesis by (auto simp: refresh_rotate_def f d Let_def)
    qed
  qed
  note rotated = this
  obtain r st1 where r: "refresh_select env token st = (r, st1)" by (cases "refresh_select env token st")
  with sel have "ss_users st1 = ss_users st" by simp
  with r rotated [of st1] same_for_refl show ?thesis by (cases r) (auto simp: refreshTokens_def)
qed

lemma registered_one:
  assumes "\<forall>u \<in> set (ss_users st). user_pk u \<noteq> ue_pk (sn_users env)"
  shows "same_for (\<lambda>u. user_wallet u = rg_wallet dto) (ss_users st) (ss_users (snd (register env avatar dto st)))"
proof (cases avatar)
  case (Inr url)
  let ?v = "rg_wallet dto"
  show ?thesis
  proof (cases "createProfile (sn_users env) ?v (rg_username dto) (rg_displayName dto) url (ss_users st)")
    case (Inr x)
    obtain u us where x: "x = (u, us)" by (cases x)
    from Inr have u: "us = ss_users st @ [u]" "user_wallet u = ?v" "user_pk u = ue_pk (sn_users env)"
      by (auto simp: x createProfile_def new_user_def Let_def split: option.splits if_splits)
    let ?m = "generateTokens env ?v None (st\<lparr>ss_users := us\<rparr>)"
    have m: "ss_users (snd ?m) \<in> {us, us @ [new_user (sn_users env) ?v]}" using minted_users [of env ?v None "st\<lparr>ss_users := us\<rparr>"] by simp
    have minted: "same_for (\<lambda>u. user_wallet u = ?v) (ss_users st) (ss_users (snd ?m))"
      using m u by (auto simp: new_user_def same_for_def)
    have "same_for (\<lambda>u. user_wallet u = ?v) (ss_users (snd ?m)) (ss_users (drop_user env (user_pk u) (snd ?m)))"
      using m u assms by (auto simp: drop_user_def deleteUserById_def new_user_def Let_def split: option.split intro!: same_for_delete)
    from same_for_trans [OF minted this] minted show ?thesis
      by (auto simp: register_def \<open>avatar = Inr url\<close> Inr x split: prod.split sum.split)
  qed (simp add: register_def Inr)
qed (simp add: register_def)

lemma auth_account:
  assumes "session_envs c \<subseteq> {se}" and "\<forall>u \<in> set (ss_users (ax_sessions st)). user_pk u \<noteq> ue_pk (sn_users se)"
  shows "\<exists>v. same_for (\<lambda>u. user_wallet u = v) (ss_users (ax_sessions st))
    (ss_users (ax_sessions (snd (auth_serve \<lparr>ac_ip = ip, ac_forwarded = fwd, ac_call = c\<rparr> st))))"
proof (cases c)
  case (Register e av img dto)
  have "ss_users (snd (register se avatar dto (ax_sessions st))) = ss_users x \<Longrightarrow>
      \<exists>v. same_for (\<lambda>u. user_wallet u = v) (ss_users (ax_sessions st)) (ss_users x)" for avatar x
    using registered_one [OF assms(2)] by metis
  with Register assms(1) show ?thesis
    by (auto simp: auth_serve_def register_image_def Let_def split_def split: sum.split option.split prod.split)
next
  case (Verify ae e dto)
  have "\<exists>v. same_for (\<lambda>u. user_wallet u = v) (ss_users (ax_sessions st)) (ss_users (ax_sessions (snd (verify ae e dto x))))"
    if "ax_sessions x = ax_sessions st" for x
    using minted_one [of "vr_wallet dto" "ax_sessions st"] that same_for_refl
    by (auto simp: verify_def Let_def split_def split: prod.split sum.split)
  with Verify show ?thesis using same_for_refl
    by (auto simp: auth_serve_def Let_def split_def split: sum.split)
next
  case (Refresh e token)
  with refreshed_one [of "ax_sessions st" e token] show ?thesis by (simp add: auth_serve_def Let_def split_def)
qed (auto simp: auth_serve_def Let_def split_def)

lemma table_sessions:
  assumes "r \<in> set all_routes" and "rt_action r = Signs b f" and "f s q = Inr c"
  shows "session_envs c \<subseteq> {sv_session s}"
  using signs_route [OF assms(1,2)] assms(2,3) by (auto simp: auth_routes_def auth_route_def map_sum_Inr split: option.splits)

text \<open>The entries \<open>/auth\<close> adds to the audit log.\<close>

definition reuse_logged :: "AuditLogRow list \<Rightarrow> AuditLogRow list \<Rightarrow> bool" where
  "reuse_logged rows rows' \<longleftrightarrow>
     (\<exists>new. rows' = rows @ new \<and> list_all (\<lambda>x. ca_action (ag_entry x) = ''auth.refresh_token_reuse'') new)"

lemma serve_auth_only:
  assumes "\<And>c. call = Inr c \<Longrightarrow> session_envs c \<subseteq> {sv_session s}"
  shows "auth_only s (wb_app w) (wb_app (snd (serve_auth s q b call w))) \<and>
    reuse_logged (ap_audit (wb_app w)) (ap_audit (wb_app (snd (serve_auth s q b call w))))"
proof (cases call)
  case (Inl e)
  then show ?thesis by (auto simp: serve_auth_def Let_def split_def auth_only_refl reuse_logged_def)
next
  case (Inr c)
  let ?st = "snd (auth_serve \<lparr>ac_ip = rq_ip q, ac_forwarded = rq_forwarded q, ac_call = c\<rparr> (auth_view w))"
  have w: "wb_app (snd (serve_auth s q b call w)) = wb_app (put_auth s ?st w)"
    by (simp add: Inr serve_auth_def split_def Let_def)
  have users: "ss_users (ax_sessions (auth_view w)) = ua_users (ap_gate (wb_app w))" by (simp add: auth_view_def)
  have put: "ua_users (ap_gate (wb_app (put_auth s ?st w))) = ss_users (ax_sessions ?st)" by (simp add: put_auth_def Let_def)
  have "reuse_logged (ap_audit (wb_app w)) (ap_audit (wb_app (put_auth s ?st w)))"
    by (auto simp: reuse_logged_def put_auth_def Let_def list_all_iff reuse_entry_def)
  moreover have "auth_only s (wb_app w) (wb_app (put_auth s ?st w))"
    unfolding auth_only_def put
  proof (intro conjI impI)
    assume "\<forall>u \<in> set (ua_users (ap_gate (wb_app w))). user_pk u \<noteq> ue_pk (sn_users (sv_session s))"
    with auth_account [OF assms [OF Inr], of "auth_view w"] show
      "\<exists>v. same_for (\<lambda>u. user_wallet u = v) (ua_users (ap_gate (wb_app w))) (ss_users (ax_sessions ?st))" by (simp add: users)
  qed (auto simp: put_auth_def tables_def Let_def)
  ultimately show ?thesis by (simp add: w)
qed

text \<open>C6: The wallets are isolated from each other. A request of any verb, path, query and body, whichever
  queries and calls fail, changes no table of the interface at all, or it carries a valid access token and changes only
  rows of the wallet of that token (its account and preferences, loans, transactions, notifications,
  vendor profile, products, keys, learner profile, sponsor and vouches), leaving those of all others and
  their order as they are. There are three exceptions, and the theorem bounds each: the reset of a role, by an administrator, changes the role of the
  wallet in its path and nothing else; the public route for the status of a transaction settles the rows of the hash in
  its path, whoever owns them, and nothing else; and the routes of \<open>/auth\<close> touch the account of one wallet and
  add learner profiles. The audit log only grows, by a denial under the wallet of the token or by replays reported by \<open>/auth\<close>.
  The cached scores (\<open>reputation_cache\<close>), which any reader refreshes, are not among these tables.\<close>

theorem server_isolation:
  assumes "keyed (wb_app w)"
  shows "(tables (wb_app (snd (respond s q w))) = tables (wb_app w) \<or>
      (\<exists>p. access_token (sv_http s) q = Some p \<and>
         (untouched (jp_wallet p) (wb_app w) (wb_app (snd (respond s q w))) \<or>
          (\<exists>r ps. find_route (sv_config s) (rw_verb q) (rw_path q) = Some (r, ps) \<and> rt_name r = ''AdminRolesController-resetUserRole'' \<and>
             resets_role_of (param ps ''wallet'') (wb_app w) (wb_app (snd (respond s q w))) \<and>
             snd (fst (getUserState (hq_users (sv_http s)) (jp_wallet p) (ua_users (ap_gate (wb_app w))) (ua_admin (ap_gate (wb_app w)))))
               = Some ''admin''))) \<or>
      (\<exists>r ps. find_route (sv_config s) (rw_verb q) (rw_path q) = Some (r, ps) \<and>
         rt_name r = ''TransactionsController-getTransactionStatus'' \<and>
         settles_hash (to_lower (param ps ''hash'')) (wb_app w) (wb_app (snd (respond s q w)))) \<or>
      (\<exists>r ps b f. find_route (sv_config s) (rw_verb q) (rw_path q) = Some (r, ps) \<and> rt_action r = Signs b f \<and>
         auth_only s (wb_app w) (wb_app (snd (respond s q w))))) \<and>
    (ap_audit (wb_app (snd (respond s q w))) = ap_audit (wb_app w) \<or>
     denied_on s q (fst (respond s q w)) (ap_audit (wb_app w)) (ap_audit (wb_app (snd (respond s q w)))) \<or>
     (\<exists>r ps b f. find_route (sv_config s) (rw_verb q) (rw_path q) = Some (r, ps) \<and> rt_action r = Signs b f \<and>
        reuse_logged (ap_audit (wb_app w)) (ap_audit (wb_app (snd (respond s q w))))))"
  (is "(_ \<or> ?own \<or> ?status \<or> ?auth) \<and> _")
proof (cases rule: respond_cases [of s q w])
  case (call r ps gs f c)
  let ?req = "as_request q c"
  have n: "rq_call ?req = c" "access_token (sv_http s) ?req = access_token (sv_http s) q"
    by (simp_all add: as_request_def access_token_def)
  have a: "wb_app (snd (respond s q w)) = snd (serve (sv_http s) ?req (wb_app w))" by (simp add: call(4))
  have st: "rt_name r = ''TransactionsController-getTransactionStatus'' \<and> h = param ps ''hash''" if "c = TxRoute (TxStatus te h)" for te h
    using call(3) that unfolding read_well_def by blast
  have re: "rt_name r = ''AdminRolesController-resetUserRole'' \<and> v = param ps ''wallet''" if "c = AdminRoute (ResetRole ue v x)" for ue v x
    using call(3) that unfolding read_well_def by blast
  show ?thesis
  proof (intro conjI)
    from tables_isolated [OF assms(1), of "sv_http s" ?req, unfolded n, folded a]
    show "tables (wb_app (snd (respond s q w))) = tables (wb_app w) \<or> ?own \<or> ?status \<or> ?auth"
    proof (elim disjE exE conjE, goal_cases)
      case (3 p ue v x)
      then have "c = AdminRoute (ResetRole ue v x)" by blast
      from re [OF this] call(1) 3 show ?case by blast
    next
      case (4 te h)
      then have "c = TxRoute (TxStatus te h)" by blast
      from st [OF this] call(1) 4 show ?case by blast
    qed blast+
  qed (use call_audit [OF call(1,2,3,4)] in blast)
next
  case (auth r ps b f)
  note o = serve_auth_only [of "f s q" s w q b, OF table_sessions [OF find_route_table [OF auth(1)] auth(2)]]
  have "auth_only s (wb_app w) (wb_app (snd (respond s q w))) \<and>
      reuse_logged (ap_audit (wb_app w)) (ap_audit (wb_app (snd (respond s q w))))" using o by (simp add: auth(3))
  with auth(1,2) show ?thesis by blast
qed blast

section \<open>Who is let in\<close>

text \<open>The routes that ask for no token, by the names of their methods, and what is asked of the others beside a token.\<close>

definition open_routes :: "string list" where
  "open_routes =
     [''AuthController-register'', ''AuthController-getNonce'', ''AuthController-verify'', ''AuthController-refresh'',
      ''HealthController-check'', ''HealthController-checkDatabase'', ''HealthController-triggerSentryTest'',
      ''MetricsController-getMetrics'', ''StellarTomlController-getStellarToml'', ''IndexerController-getStatus'',
      ''LoansController-getStats'', ''VendorsController-list'', ''VendorsController-getById'', ''ReputationController-getScore'',
      ''SponsorsController-getStats'', ''LiquidityController-getPoolOverview'', ''TransactionsController-getTransactionStatus'']"

definition role_routes :: "(string \<times> string) list" where
  "role_routes =
     map (\<lambda>n. (n, ''vendor''))
       [''VendorsController-register'', ''VendorsController-getDashboard'', ''VendorsController-getLoans'', ''VendorsController-getPayments'',
        ''VendorsController-getProducts'', ''VendorsController-createProduct'', ''VendorsController-updateProduct'', ''VendorsController-deleteProduct'',
        ''VendorsController-createApiKey'', ''VendorsController-listApiKeys'', ''VendorsController-revokeApiKey''] @
     map (\<lambda>n. (n, ''sponsor'')) [''LiquidityController-depositLiquidity'', ''LiquidityController-withdrawLiquidity''] @
     map (\<lambda>n. (n, ''mentor''))
       [''VouchingController-approveVouch'', ''VouchingController-getMentor'', ''VouchingController-getRequests'', ''VouchingController-revokeVouch''] @
     map (\<lambda>n. (n, ''admin'')) [''AdminRolesController-resetUserRole'', ''AuditController-getAuditLogs'']"

definition listed_routes :: "string list" where
  "listed_routes = [''VendorsController-approveVendor'', ''VendorsController-suspendVendor'']"

definition guarded_well :: "route \<Rightarrow> bool" where
  "guarded_well r \<longleftrightarrow>
     (case route_guards r of
        Some (JwtAuth # gs) \<Rightarrow>
          (case map_of role_routes (rt_name r) of
             Some role \<Rightarrow> gs = (if role = ''admin'' then [AdminRole] else [HasRole [role]])
           | None \<Rightarrow> True) \<and> (rt_name r \<in> set listed_routes \<longrightarrow> gs = [AdminWallet])
      | _ \<Rightarrow> rt_name r \<in> set open_routes)"

lemma table_guarded: "list_all guarded_well all_routes"
  by code_simp

lemma guarded_route:
  assumes "r \<in> set all_routes" and "rt_name r \<notin> set open_routes"
  obtains gs f where "rt_action r = Calls (JwtAuth # gs) f"
    and "\<And>role. map_of role_routes (rt_name r) = Some role \<Longrightarrow> gs = (if role = ''admin'' then [AdminRole] else [HasRole [role]])"
    and "rt_name r \<in> set listed_routes \<Longrightarrow> gs = [AdminWallet]"
proof -
  have w: "guarded_well r" using table_guarded assms(1) by (simp add: list_all_iff)
  with assms(2) obtain gs where g: "route_guards r = Some (JwtAuth # gs)"
    by (auto simp: guarded_well_def split: option.splits list.splits guard.splits)
  then obtain f where "rt_action r = Calls (JwtAuth # gs) f" by (auto simp: route_guards_def split: action.splits)
  from that [OF this] w show thesis by (auto simp: guarded_well_def g split: option.splits)
qed

text \<open>A request the guards refuse.\<close>

lemma guards_refuse:
  assumes "find_route (sv_config s) (rw_verb q) (rw_path q) = Some (r, ps)" and "rt_action r = Calls gs f"
    and "fst (pass_guards (sv_http s) q gs (None, ap_gate (wb_app w), ap_hits (wb_app w), ap_audit (wb_app w))) = Inl e"
  shows "fst (respond s q w) \<noteq> None \<and> tables (wb_app (snd (respond s q w))) = tables (wb_app w)"
proof (cases "(rw_content q = OtherContent \<and> rw_verb q \<noteq> GET) \<or> sv_throttled s (throttle_key r q) (rt_limit r)")
  case True
  then show ?thesis by (auto simp: respond_def assms(1))
next
  case False
  have "first_of (fst (pass_guards (sv_http s) q gs (None, ap_gate (wb_app w), ap_hits (wb_app w), ap_audit (wb_app w)))) (f s q ps) = Some e"
    by (simp add: first_of_def assms(3))
  from serve_calls_refused [OF this] obtain y where y: "fst (serve_calls s q gs (f s q ps) (wb_app w)) = Some e"
    "snd (serve_calls s q gs (f s q ps) (wb_app w)) = snd (serve_calls s q gs (Inl y) (wb_app w))" by blast
  have "respond s q w = (Some e, w\<lparr>wb_app := snd (serve_calls s q gs (Inl y) (wb_app w))\<rparr>)"
    using False by (auto simp: respond_def assms(1,2) act_def split_def Let_def y)
  with serve_calls_unread [OF table_admin [OF find_route_table [OF assms(1)] assms(2)], of s q y "wb_app w"] show ?thesis by simp
qed

text \<open>C7: Routes are guarded. The program's routes are those of the table, and all but the seventeen of \<open>open_routes\<close>
  (the four of \<open>/auth\<close>, three of \<open>/health\<close>, the metrics, the metadata file, the status of the indexer, and seven
  public reads) answer a request without an exception, or change any table, only if it carries a valid access token
  whose wallet was not blocked in the database within the last 30 seconds; on a route
  of \<open>role_routes\<close> the database also had exactly one account of that wallet, with the role of the route (vendor,
  sponsor, mentor, or for \<open>/admin\<close> administrator), within the last 30 seconds; and the approval and the suspension of
  vendors are for wallets of the allowlist. Tokens with an empty wallet, which the service never signs, are left
  out where \<open>RolesGuard\<close> falls back on the claim.\<close>

theorem routes_guarded:
  assumes "find_route (sv_config s) (rw_verb q) (rw_path q) = Some (r, ps)" and "rt_name r \<notin> set open_routes"
    and "fst (respond s q w) = None \<or> tables (wb_app (snd (respond s q w))) \<noteq> tables (wb_app w)"
    and "now = ue_now (hq_users (sv_http s))" and "ue_faults (hq_users (sv_http s)) = flts now" and "ua_users (ap_gate (wb_app w)) = hist now"
    and "cache_reach hist flts t (ua_cache (ap_gate (wb_app w)))" and "t \<le> now"
    and "cache_reach hist flts t' (ua_admin (ap_gate (wb_app w)))" and "t' \<le> now"
  shows "\<exists>p. access_token (sv_http s) q = Some p \<and>
    (\<exists>t0. now - 30000 < t0 \<and> t0 \<le> now \<and> fst (read_user_state (flts t0) (hist t0) (jp_wallet p)) \<noteq> ''blocked'') \<and>
    (\<forall>role. map_of role_routes (rt_name r) = Some role \<and> (jp_wallet p \<noteq> [] \<or> role = ''admin'') \<longrightarrow>
       (\<exists>t0 x. now - 30000 < t0 \<and> t0 \<le> now \<and> filter (of_wallet (jp_wallet p)) (hist t0) = [x] \<and> user_role x = Some role)) \<and>
    (rt_name r \<in> set listed_routes \<longrightarrow>
       (\<exists>setting. hq_admins (sv_http s) = Some setting \<and> jp_wallet p \<in> set (map trim (split_on (CHR '','') setting))))"
proof -
  let ?g = "(None, ap_gate (wb_app w), ap_hits (wb_app w), ap_audit (wb_app w))"
  from guarded_route [OF find_route_table [OF assms(1)] assms(2)] obtain gs f where f: "rt_action r = Calls (JwtAuth # gs) f"
    and role: "\<And>role. map_of role_routes (rt_name r) = Some role \<Longrightarrow> gs = (if role = ''admin'' then [AdminRole] else [HasRole [role]])"
    and listed: "rt_name r \<in> set listed_routes \<Longrightarrow> gs = [AdminWallet]" by blast
  have "fst (pass_guards (sv_http s) q (JwtAuth # gs) ?g) = Inr ()"
  proof (rule ccontr)
    assume "fst (pass_guards (sv_http s) q (JwtAuth # gs) ?g) \<noteq> Inr ()"
    then obtain e where "fst (pass_guards (sv_http s) q (JwtAuth # gs) ?g) = Inl e" by (metis old.sum.exhaust old.unit.exhaust)
    from guards_refuse [OF assms(1) f this] assms(3) show False by auto
  qed
  from guards_guarantee [OF assms(7,9), of "sv_http s" q gs "ap_hits (wb_app w)" "ap_audit (wb_app w)"] this assms(5,6,8,10)
  obtain p where p: "access_token (sv_http s) q = Some p \<and>
    (\<exists>t0. now - 30000 < t0 \<and> t0 \<le> now \<and> fst (read_user_state (flts t0) (hist t0) (jp_wallet p)) \<noteq> ''blocked'') \<and>
    (\<forall>role. (gs = [HasRole [role]] \<and> jp_wallet p \<noteq> []) \<or> (gs = [AdminRole] \<and> role = ''admin'') \<longrightarrow>
       (\<exists>t0 x. now - 30000 < t0 \<and> t0 \<le> now \<and> filter (of_wallet (jp_wallet p)) (hist t0) = [x] \<and> user_role x = Some role)) \<and>
    (gs = [AdminWallet] \<longrightarrow> (\<exists>setting. hq_admins (sv_http s) = Some setting \<and> jp_wallet p \<in> set (map trim (split_on (CHR '','') setting))))"
    unfolding assms(4) by blast
  have "\<exists>t0 x. now - 30000 < t0 \<and> t0 \<le> now \<and> filter (of_wallet (jp_wallet p)) (hist t0) = [x] \<and> user_role x = Some role"
    if "map_of role_routes (rt_name r) = Some role" "jp_wallet p \<noteq> [] \<or> role = ''admin''" for role
  proof -
    have "(gs = [HasRole [role]] \<and> jp_wallet p \<noteq> []) \<or> (gs = [AdminRole] \<and> role = ''admin'')"
      using role [OF that(1)] that(2) by (auto split: if_splits)
    with p show ?thesis by blast
  qed
  with p listed show ?thesis by (intro exI [of _ p] conjI allI impI) simp_all
qed

text \<open>A server, a learner's request for a loan with a body, and one without.\<close>

definition demo_server :: server where
  "demo_server =
     \<lparr>sv_config = \<lparr>sc_port = ''4000'', sc_prefix = ''api/v1'', sc_origins = [''*'']\<rparr>, sv_rules = demo_rules,
      sv_throttled = (\<lambda>_ _. False), sv_date = (\<lambda>_. None), sv_now = 0, sv_faults = no_faults, sv_http = demo_http,
      sv_loans = demo_loans_env, sv_relay = demo_relay, sv_vendors = demo_venv, sv_keys = demo_kenv, sv_users = demo_uenv,
      sv_learners = demo_learners, sv_rep = demo_env, sv_sponsors = demo_sponsors_env, sv_pool = demo_pool,
      sv_liquidity = demo_liquidity, sv_vouch = demo_vouch_env, sv_tx = demo_tx_env, sv_audit = demo_audit, sv_auth = demo_auth,
      sv_session = demo_senv, sv_avatar = demo_avatar_env, sv_health = demo_health, sv_toml = \<lparr>ts_name = None, ts_url = None, ts_github = None, ts_credit = None, ts_pool = None,
        ts_reputation = None, ts_vendors = None\<rparr>\<rparr>"

definition demo_web :: web where
  "demo_web = \<lparr>wb_app = demo_platform, wb_auth = demo_auth_state,
     wb_info = \<lparr>in_horizon = demo_client, in_toml = \<lparr>tc_text = None, tc_expiry = 0\<rparr>\<rparr>\<rparr>"

definition demo_post :: "content \<Rightarrow> raw_request" where
  "demo_post body = \<lparr>rq_bearer = Some ''token'', rq_ip = None, rq_forwarded = None, rw_verb = POST,
     rw_path = [''api'', ''v1'', ''loans'', ''create''], rw_query = [], rw_content = body\<rparr>"

abbreviation demo_history :: "occurrence list" where
  "demo_history \<equiv> [Http demo_server (demo_post (Content demo_body)), Http demo_server (demo_post NoContent),
     CleanUp demo_server (CleanNonces no_faults 0), Job (CheckerRun demo_ck_env (\<lambda>i. ''n''))]"

lemma demo_web_wf: "app_wf (wb_app demo_web)"
  using demo_platform_wf by (simp add: demo_web_def)

lemma demo_history_expected: "\<forall>x \<in> set demo_history. expected x"
  using demo_rules_documented by (simp add: demo_server_def)


lemma demo_create_route:
  "find_route (sv_config demo_server) (rw_verb (demo_post b)) (rw_path (demo_post b)) = Some (loans_routes ! 4, [])"
  by (simp add: demo_server_def demo_post_def find_route_def all_routes_def auth_routes_def health_routes_def metrics_routes_def
      toml_routes_def indexer_routes_def call_routes_def loans_routes_def api_route_def auth_route_def info_route_def fits_def full_path_def)


lemma demo_web_loans: "ap_loans (wb_app demo_web) = book_rows demo_lending"
  by (simp add: demo_web_def demo_platform_def)

theorem server_implements_book_witness:
  "(book_step (booked_in demo_history) (reconciled_in demo_history))\<^sup>*\<^sup>* (map entry_of (book_rows demo_lending))
     (map entry_of (ap_loans (wb_app (fold occur demo_history demo_web))))"
  using server_implements_book [OF demo_web_wf demo_history_expected] unfolding demo_web_loans .



theorem server_isolation_witness:
  "tables (wb_app (snd (respond demo_server (demo_post (Content demo_body)) demo_web))) = tables (wb_app demo_web) \<or>
   untouched ''GA'' (wb_app demo_web) (wb_app (snd (respond demo_server (demo_post (Content demo_body)) demo_web)))"
proof -
  have k: "keyed (wb_app demo_web)" by (simp add: keyed_def demo_web_def demo_platform_def demo_app_def)
  have r: "rt_name (loans_routes ! 4) = ''LoansController-createLoan''" "\<nexists>b f. rt_action (loans_routes ! 4) = Signs b f"
    by (simp_all add: loans_routes_def api_route_def)
  have "access_token (sv_http demo_server) (demo_post (Content demo_body)) = Some \<lparr>jp_wallet = ''GA'', jp_type = ''access'', jp_role = None\<rparr>"
    by (simp add: access_token_def demo_server_def demo_post_def demo_http_def)
  with server_isolation [OF k, of demo_server "demo_post (Content demo_body)", THEN conjunct1] r show ?thesis
    unfolding demo_create_route by auto
qed

text \<open>A vendor registers its profile.\<close>

definition demo_join :: raw_request where
  "demo_join = \<lparr>rq_bearer = Some ''token'', rq_ip = None, rq_forwarded = None, rw_verb = POST,
     rw_path = [''api'', ''v1'', ''vendors''], rw_query = [],
     rw_content = Content (JObj [(''name'', JStr ''A''), (''category'', JStr ''school''), (''country'', JStr ''B'')])\<rparr>"

theorem routes_guarded_witness:
  "\<exists>t0 x. 20000 < t0 \<and> t0 \<le> (50000 :: int) \<and> filter (of_wallet ''GA'') [demo_user] = [x] \<and> user_role x = Some ''vendor''"
proof -
  let ?hist = "\<lambda>_ :: int. [demo_user]"
  have f: "find_route (sv_config demo_server) (rw_verb demo_join) (rw_path demo_join) = Some (vendors_routes ! 1, [])"
    by (simp add: demo_server_def demo_join_def find_route_def all_routes_def auth_routes_def health_routes_def metrics_routes_def
        toml_routes_def indexer_routes_def call_routes_def loans_routes_def repayment_routes_def vendors_routes_def api_route_def auth_route_def
        info_route_def fits_def full_path_def)
  have n: "rt_name (vendors_routes ! 1) = ''VendorsController-register''" by (simp add: vendors_routes_def api_route_def)
  have c: "rt_name (vendors_routes ! 1) \<notin> set open_routes" "map_of role_routes (rt_name (vendors_routes ! 1)) = Some ''vendor''"
    unfolding n by (simp_all add: open_routes_def role_routes_def)
  have d: "RegisterVendorDto (sv_rules demo_server) (body_of demo_join) = Inr \<lparr>rv_name = ''A'', rv_category = ''school'', rv_country = ''B'',
      rv_city = None, rv_website = None, rv_description = None\<rparr>"
    by (simp add: RegisterVendorDto_def demo_server_def demo_rules_def demo_join_def body_of_def validated_def must_def may_def field_ok_def
        transform_def lower_text_def is_in_def VendorType_def text_with_def the_text_def text_of_def or_else_def to_lower_def lower_char_def)
  have a: "rt_action (vendors_routes ! 1) = Calls vendor_only
      (\<lambda>s q ps. reads (\<lambda>d. VendorsRoute (AddVendor (sv_vendors s) d)) (RegisterVendorDto (sv_rules s) (body_of q)))"
    by (simp add: vendors_routes_def api_route_def)
  have s: "fst (respond demo_server demo_join demo_web) = None"
    unfolding respond_def f option.case prod.case act_def a action.case d map_sum.simps serve_calls_def
    by (simp add: demo_server_def demo_join_def demo_web_def demo_platform_def
        demo_http_def demo_app_def jwtAuthGuard_def handleRequest_def validate_def
        ensureNotBlocked_def getUserState_def cache_get_def cache_set_def USER_STATUS_CACHE_TTL_MS_def read_user_state_def of_wallet_def
        maybe_single_def demo_uenv_def demo_user_def new_user_def rolesGuard_def Let_def split_def thrown_def registerVendor_def insert_vendor_def
        insert_unique_def with_fault_def demo_venv_def Vendors.findByWallet_def pgrst116_def single_or_null_def single_def)
  have t: "access_token (sv_http demo_server) demo_join = Some \<lparr>jp_wallet = ''GA'', jp_type = ''access'', jp_role = None\<rparr>"
    by (simp add: access_token_def demo_http_def demo_join_def demo_server_def)
  have e: "50000 = ue_now (hq_users (sv_http demo_server))" "ue_faults (hq_users (sv_http demo_server)) = no_faults"
    "ua_users (ap_gate (wb_app demo_web)) = [demo_user]"
    by (simp_all add: demo_server_def demo_http_def demo_uenv_def demo_web_def demo_platform_def demo_app_def)
  have r: "cache_reach ?hist (\<lambda>_. no_faults) 0 (ua_cache (ap_gate (wb_app demo_web)))"
    "cache_reach ?hist (\<lambda>_. no_faults) 0 (ua_admin (ap_gate (wb_app demo_web)))"
    by (simp_all add: demo_web_def demo_platform_def demo_app_def cache_reach.start)
  from routes_guarded [OF f c(1) disjI1 [OF s] e(1), of "\<lambda>_. no_faults" ?hist, OF e(2,3) r(1) _ r(2)] t c(2) show ?thesis
    by (auto simp del: filter.simps)
qed

end
