(* ===== verification/Spec2Isabelle.thy ===== *)
theory Spec2Isabelle imports LoanQuote Loans Transactions StatusChecker AuthNonce AuthSession ApiKeys Reconciliation StatusProcessor Sponsors Vouching Reminders Lending Horizon Health AuditLog Learners DocsServer Deployment Server begin

text \<open>
  StepFi-API: a model of the program and the theorems that make it correct.

  \<^bold>\<open>The program.\<close> StepFi-API is the off-chain service of a lending platform for learners on the
  Stellar network. A learner signs in with a wallet, asks for a quote at a vendor of courses, opens a
  loan, and repays it by transactions the service prepares and the wallet signs. Sponsors fund a
  liquidity pool, mentors vouch for learners, a credit score decides about loans. The service keeps
  its tables in PostgreSQL behind PostgREST, talks to Horizon and to Soroban contracts, and runs jobs:
  one settles submitted transactions, one indexes the events of the contracts, one reconciles the
  tables with the index, one sends reminders, two clean up. All components meet in the tables, and
  this is how the model composes them: each operation is a function from the arguments of the
  call, an environment and the rows to an answer and the new rows.

  \<^bold>\<open>How the code is modelled.\<close> The classes and functions keep their names. A class of rows is a
  record, a table a list of rows, an enumeration a datatype; what the source throws is \<open>Inl\<close> of an
  exception with its HTTP status and code (\<open>exn\<close> in \<open>Prelude\<close>), so that every early return and
  every failing query is a branch. The environment of a call holds the time, the ids the
  database will give, the answers of other systems, and for each query by name whether it fails
  (\<open>faults\<close> in \<open>Schema\<close>): theorems without a hypothesis about it hold whatever fails. Numbers of the
  source are IEEE doubles: \<open>Binary64\<close> computes the very double the code computes, as a rational, by
  rounding each operation to nearest even. Dates are milliseconds with the ECMAScript calendar
  (\<open>Calendar\<close>). Token amounts are integers with the truncating division of \<open>BigInt\<close>.
\<close>

text \<open>
  \<^bold>\<open>The theories\<close>, each with the sources it models (paths under \<open>src/\<close>):

  \<^item> \<open>Prelude\<close>, \<open>Binary64\<close>, \<open>Calendar\<close>, \<open>Schema\<close>, \<open>CacheStore\<close>, \<open>Pagination\<close>, \<open>ClaimOnce\<close>: the
    vocabulary. Results and exceptions, JavaScript strings and numbers, PostgREST statements, the shared
    rows, the expiring cache, paged queries. Three interfaces are locales: \<open>cache_store\<close> (what a
    lookup gives after a write), \<open>paged\<close> (pages that partition a list) and \<open>claim_once\<close> (an operation
    only one of several racing callers wins); \<open>rate_limiter\<close>, \<open>tier_policy\<close> and \<open>repair_loop\<close> stand
    with their components. All are interpreted on the operations of the program.

  \<^item> \<open>CreditScoring\<close>, \<open>Reputation\<close>, \<open>LoanQuote\<close>, \<open>Loans\<close> (\<open>modules/credit-scoring\<close>,
    \<open>modules/reputation\<close>, \<open>modules/loans\<close>): tiers and decisions, cached scores, the arithmetic of a
    quote and its schedule, and the loans service: quote, create, assess, repay, list, credit.

  \<^item> \<open>Contracts\<close>, \<open>PoolClient\<close>, \<open>Liquidity\<close> (\<open>stellar/contracts/clients\<close>,
    \<open>blockchain/contracts\<close>, \<open>modules/liquidity\<close>): the invocations the clients build, the share and
    fee arithmetic, the pool service; the two clients of the pool are proved to agree. \<open>Deployment\<close> (the
    constructors of the clients and services): the settings each reads, and how prepared transactions
    fare when they come back signed.

  \<^item> \<open>Transactions\<close>, \<open>StatusChecker\<close>, \<open>StatusProcessor\<close>, \<open>Lending\<close> (\<open>modules/transactions\<close>,
    \<open>jobs/transaction-status-checker\<close>): the submission of signed transactions with its allowlist, the
    job that settles them and applies the follow-ups, the queue worker beside it, and their
    composition with the loans service: an abstract loan book (\<open>book_step\<close>) they implement.

  \<^item> \<open>AuthNonce\<close>, \<open>AuthSession\<close>, \<open>Avatars\<close>, \<open>Access\<close>, \<open>Users\<close>, \<open>RateLimit\<close>, \<open>ApiKeys\<close>
    (\<open>modules/auth\<close>, \<open>modules/users\<close>, \<open>auth/guards\<close>, \<open>database/repositories\<close>): challenges and
    signatures, tokens and their rotation, registration with a picture, the routes of \<open>/auth\<close>
    together, profiles, roles and the guards that read them through a cache, throttlers, API keys.

  \<^item> \<open>Vendors\<close>, \<open>Sponsors\<close>, \<open>Vouching\<close>, \<open>Learners\<close>, \<open>Notifications\<close>, \<open>Reminders\<close>, \<open>AuditLog\<close>
    (the modules of these names and \<open>jobs/loan-payment-reminder\<close>): the other services.

  \<^item> \<open>Indexer\<close>, \<open>Reconciliation\<close> (\<open>indexer\<close>, \<open>jobs/state-reconciliation\<close>): parsing and storing
    the events of the contracts, and repairing the tables from the index.

  \<^item> \<open>Horizon\<close>, \<open>Health\<close>, \<open>Monitoring\<close>, \<open>Setup\<close> (\<open>stellar/horizon-client.service.ts\<close>,
    \<open>modules/blockchain\<close>, \<open>modules/health\<close>, \<open>modules/metrics\<close>, \<open>main.ts\<close>, \<open>config\<close>): the failover
    client with its circuit breakers, the relay of repayments, health checks and metrics, the log,
    read-only contract calls, the documentation and its protection, the allowlist of administrators, the
    clients of the database, the addresses of the server.

  \<^item> \<open>Api\<close>, \<open>Validation\<close>, \<open>Isolation\<close>, \<open>Platform\<close> (the controllers, \<open>modules/*/dto\<close> and
    \<open>common/guards\<close>): the guarded calls on one database, the bodies and queries they accept, the
    guards of every route, what a guarded call may change and add to the audit log, and the jobs (settlement,
    reminders, indexer, reconciliation) on the same database.

  \<^item> \<open>Routes\<close>, \<open>Server\<close> (the decorators of the controllers, \<open>main.ts\<close>, \<open>app.module.ts\<close>): the table
    of all routes and how a request of some verb, path, query and body finds its route and is read as
    a call; the pipeline of throttler, guards, validation and handler around it, with what a refused
    request may change, the isolation of the wallets and who is let in; and histories of raw
    requests, clean-ups and jobs, for which the loan book is the contract of the loan table.

  \<^item> \<open>DocsServer\<close> (\<open>mcp/src/index.ts\<close>): the separate server of the documentation.
\<close>

text \<open>
  \<^bold>\<open>What is shown.\<close> For each component its outcome on every branch, the invariant of its rows under
  all its operations, and what it promises to others: amounts that add up to the cent, claims that
  only one caller wins under any interleaving of the statements (\<open>claim_once\<close>), caches that are never
  staler than their lifetime, pages that partition a list, breakers and counters that stay
  consistent. Across components: only authorised transactions reach the network and are booked at
  most once; what the API prepares is what its allowlist accepts; tokens go back to a signature;
  routes are guarded, no route hides another, refused requests change no table but the audit log and wallets are
  isolated, with three exceptions that are bounded; every history of requests and jobs is a run of the loan book, in which
  no debt is lost. Two parts of this are conditional and say so: debts only shrink as long as no settled repayment
  states a negative amount (the code does not ask), and statuses are those of the services as long as the
  reconciliation, which takes over any status of the index, does not run.
  Where the program does not do what it means to, the theorem states what it does, with a concrete
  case as its witness.

  \<^bold>\<open>Bounds.\<close> Loops of the source are structural recursions, or functions with a measure: three
  attempts of the status job, thirty lookups of the repayment relay, one round per endpoint of the
  failover client, pages and candidates by length. There is no fuel. The theorems on amounts hold for
  purchases up to 10000, which validation enforces, where products stay below the precision of doubles.

  \<^bold>\<open>Idealisations.\<close> Local time has a fixed offset. Doubles neither overflow nor are they
  undefined: inputs are validated numbers. Texts of messages, log lines and JSON columns nobody reads are
  left out. Rows that are equal in the sort column keep their order in the list. A statement of
  the database is atomic, and so is an operation unless its theorem speaks of interleaved steps;
  keys of new rows are arguments. Both database clients see all rows: row-level security is
  not modelled. Hashing, signatures, JWT and the codecs of transactions are parameters, with the laws
  a theorem needs as hypotheses (\<open>codec_laws\<close>, \<open>token_laws\<close>, \<open>url_law\<close>, \<open>carries\<close>).

  \<^bold>\<open>Not modelled.\<close> The parsing of HTTP is the framework's: a request of \<open>Routes\<close> has its path in segments
  and its query and body as fields. Which requests the global throttler refuses is a parameter. What
  validation accepts is modelled (\<open>Validation\<close>) over the single checks of class-validator, which are a
  parameter. The texts of the API description (\<open>config/swagger.ts\<close>) have no behaviour; where it is served is
  modelled (\<open>Setup\<close>). The encoding and sending of contract calls is the Stellar SDK: its answers are
  arguments. \<open>StellarService\<close> only delegates to the Horizon client. The format of log lines and of the
  metrics belongs to their libraries, the wiring of the modules to the framework.
  The histories of \<open>Server\<close> have the settlement, the reminders, the indexer and the reconciliation; the queue
  worker of \<open>StatusProcessor\<close> is outside them, since no module of the program provides it. Users and the cache of
  scores are as the operations leave them; a job is one atomic step of a history.
\<close>

end
